(* ===== verification/Prelude.thy ===== *)
theory Prelude
  imports Main
begin

text \<open>
  Vocabulary shared by every component: results, transactions, instants, and the
  facts about sorted lists that several components use.

  \<^item> A Go function returning \<open>(value, error)\<close> is a value of \<open>'e + 'a\<close>:
    \<open>Inl e\<close> is the error return, \<open>Inr v\<close> the value with a nil error.
  \<^item> A function that also reads and writes a store is a \<open>tx\<close>: it takes the
    store and returns the result together with the store it leaves behind, whether or
    not it failed. \<open>within\<close> is a unit of work: it restores the store it started from
    when its body fails.
  \<^item> An instant is the number of nanoseconds since Go's zero time, so that
    \<open>IsZero\<close> is a comparison with \<open>0\<close>.
\<close>

named_theorems tx_simps "unfolding rules of the transaction combinators"
named_theorems tx_iff "when a transaction succeeds, as equivalences"
named_theorems sorted_ids "facts about strictly ascending identifier lists"

section \<open>Results and transactions\<close>

type_synonym instant = int
type_synonym ('s, 'e, 'a) tx = "'s \<Rightarrow> ('e + 'a) \<times> 's"

definition ret :: "'a \<Rightarrow> ('s, 'e, 'a) tx" where
  "ret v = (\<lambda>s. (Inr v, s))"

definition fail :: "'e \<Rightarrow> ('s, 'e, 'a) tx" where
  "fail e = (\<lambda>s. (Inl e, s))"

definition get_st :: "('s, 'e, 's) tx" where
  "get_st = (\<lambda>s. (Inr s, s))"

definition put_st :: "'s \<Rightarrow> ('s, 'e, unit) tx" where
  "put_st s' = (\<lambda>_. (Inr (), s'))"

definition and_then :: "('s, 'e, 'a) tx \<Rightarrow> ('a \<Rightarrow> ('s, 'e, 'b) tx) \<Rightarrow> ('s, 'e, 'b) tx" where
  "and_then m k = (\<lambda>s. case m s of (Inl e, s') \<Rightarrow> (Inl e, s') | (Inr v, s') \<Rightarrow> k v s')"

definition liftE :: "'e + 'a \<Rightarrow> ('s, 'e, 'a) tx" where
  "liftE r = (\<lambda>s. (r, s))"

definition within :: "('s, 'e, 'a) tx \<Rightarrow> ('s, 'e, 'a) tx" where
  "within m = (\<lambda>s. case m s of (Inl e, _) \<Rightarrow> (Inl e, s) | (Inr v, s') \<Rightarrow> (Inr v, s'))"

lemma ret_apply [simp, tx_simps]: "ret v s = (Inr v, s)"
  by (simp add: ret_def)

lemma fail_apply [simp, tx_simps]: "fail e s = (Inl e, s)"
  by (simp add: fail_def)

lemma get_st_apply [simp, tx_simps]: "get_st s = (Inr s, s)"
  by (simp add: get_st_def)

lemma put_st_apply [simp, tx_simps]: "put_st s' s = (Inr (), s')"
  by (simp add: put_st_def)

lemma liftE_apply [simp, tx_simps]: "liftE r s = (r, s)"
  by (simp add: liftE_def)

lemma and_then_Inl [simp]: "m s = (Inl e, s') \<Longrightarrow> and_then m k s = (Inl e, s')"
  by (simp add: and_then_def)

lemma and_then_Inr [simp]: "m s = (Inr v, s') \<Longrightarrow> and_then m k s = k v s'"
  by (simp add: and_then_def)

lemma and_then_eq_InrE:
  assumes "and_then m k s = (Inr w, s'')"
  obtains v s' where "m s = (Inr v, s')" and "k v s' = (Inr w, s'')"
  using assms by (auto simp: and_then_def split: prod.splits sum.splits)

lemma within_InrD: "within m s = (Inr v, s') \<Longrightarrow> m s = (Inr v, s')"
  by (auto simp: within_def split: prod.splits sum.splits)

lemma within_Inl_restores: "within m s = (Inl e, s') \<Longrightarrow> s' = s"
  by (auto simp: within_def split: prod.splits sum.splits)

lemma within_Inr [simp]: "m s = (Inr v, s') \<Longrightarrow> within m s = (Inr v, s')"
  by (simp add: within_def)

lemma within_Inl [simp]: "m s = (Inl e, s') \<Longrightarrow> within m s = (Inl e, s)"
  by (simp add: within_def)

lemmas tx_defs = and_then_def within_def

text \<open>
  When a transaction succeeds: with these equivalences the simplifier turns a successful run
  into the conditions it passed and the store it left.
\<close>

lemma and_then_Inr_iff [tx_iff]:
  "and_then m k s = (Inr w, s'') \<longleftrightarrow> (\<exists>v s'. m s = (Inr v, s') \<and> k v s' = (Inr w, s''))"
  by (auto simp: and_then_def split: prod.splits sum.splits)

lemma within_Inr_iff [tx_iff]: "within m s = (Inr v, s') \<longleftrightarrow> m s = (Inr v, s')"
  by (auto simp: within_def split: prod.splits sum.splits)

lemma ret_Inr_iff [tx_iff]: "ret v s = (Inr w, s') \<longleftrightarrow> w = v \<and> s' = s"
  by auto

lemma fail_Inr_iff [tx_iff]: "fail e s = (Inr w, s') \<longleftrightarrow> False"
  by auto

lemma liftE_Inr_iff [tx_iff]: "liftE r s = (Inr w, s') \<longleftrightarrow> r = Inr w \<and> s' = s"
  by auto

section \<open>Searching lists\<close>

lemma find_map_same:
  assumes "\<And>x. x \<in> set xs \<Longrightarrow> P (f x) = P x"
  shows "List.find P (map f xs) = map_option f (List.find P xs)"
  using assms by (induction xs) auto

lemma find_filter_same:
  assumes "\<And>x. x \<in> set xs \<Longrightarrow> P x \<Longrightarrow> Q x"
  shows "List.find P (filter Q xs) = List.find P xs"
  using assms by (induction xs) auto

lemma find_append: "List.find P (xs @ ys) = (case List.find P xs of None \<Rightarrow> List.find P ys | Some x \<Rightarrow> Some x)"
  by (induction xs) auto

section \<open>Strictly ascending lists\<close>

abbreviation ascending :: "'a::linorder list \<Rightarrow> bool" where
  "ascending \<equiv> sorted_wrt (<)"

lemma ascending_sorted [sorted_ids]: "ascending xs \<Longrightarrow> sorted xs"
  by (simp add: strict_sorted_imp_sorted)

lemma ascending_distinct [sorted_ids]: "ascending xs \<Longrightarrow> distinct xs"
  by (simp add: strict_sorted_iff)

lemma ascending_unique:
  assumes "ascending xs" and "ascending ys" and "set xs = set ys"
  shows "xs = ys"
  using assms by (simp add: strict_sorted_equal)

lemma ascending_eq_sorted_list_of_set:
  "ascending xs \<Longrightarrow> xs = sorted_list_of_set (set xs)"
  by (simp add: sorted_list_of_set.idem_if_sorted_distinct strict_sorted_iff)

text \<open>Go's test that adjacent elements of a sorted slice differ.\<close>

fun adjacent_distinct :: "'a list \<Rightarrow> bool" where
  "adjacent_distinct (x # y # zs) = (x \<noteq> y \<and> adjacent_distinct (y # zs))"
| "adjacent_distinct _ = True"

lemma adjacent_distinct_sorted:
  "sorted xs \<Longrightarrow> adjacent_distinct xs = ascending xs"
proof (induction xs rule: adjacent_distinct.induct)
  case (1 x y zs)
  then show ?case by (auto simp: less_le)
qed auto

lemma map_of_size [termination_simp]:
  "map_of kvs k = Some v \<Longrightarrow> size v < Suc (size_list (size_prod (\<lambda>_. 0) size) kvs)"
  by (induction kvs) (auto split: if_splits)

end
