(* ===== verification/GoText.thy ===== *)
theory GoText
  imports Prelude
begin

text \<open>
  Go strings are byte sequences, modelled by HOL strings (lists of 8-bit characters).
  This theory models the parts of \<^verbatim>\<open>unicode/utf8\<close>, \<^verbatim>\<open>strings\<close>, \<^verbatim>\<open>strconv\<close> and
  \<^verbatim>\<open>encoding/hex\<close> that the source relies on: rune segmentation, \<^verbatim>\<open>TrimSpace\<close>,
  decimal printing and parsing of 64-bit integers, and hexadecimal digests.
\<close>

section \<open>UTF-8 segmentation\<close>

definition byte :: "char \<Rightarrow> nat" where
  "byte c = of_char c"

definition in_range :: "nat \<Rightarrow> nat \<Rightarrow> char \<Rightarrow> bool" where
  "in_range lo hi c \<longleftrightarrow> lo \<le> byte c \<and> byte c \<le> hi"

abbreviation continuation :: "char \<Rightarrow> bool" where
  "continuation \<equiv> in_range 128 191"

text \<open>
  The admissible second byte of each leading byte, and the number of bytes of the
  sequence it starts, as in the decoding table of \<^verbatim>\<open>unicode/utf8\<close>. Everything else
  decodes to the replacement rune and consumes a single byte.
\<close>

definition lead_width :: "char \<Rightarrow> nat" where
  "lead_width c =
     (if in_range 194 223 c then 2 else if in_range 224 239 c then 3
      else if in_range 240 244 c then 4 else 1)"

definition second_ok :: "char \<Rightarrow> char \<Rightarrow> bool" where
  "second_ok c d =
     (if byte c = 224 then in_range 160 191 d
      else if byte c = 237 then in_range 128 159 d
      else if byte c = 240 then in_range 144 191 d
      else if byte c = 244 then in_range 128 143 d
      else continuation d)"

definition well_formed_seq :: "string \<Rightarrow> bool" where
  "well_formed_seq bs =
     (case bs of
        [] \<Rightarrow> False
      | [c] \<Rightarrow> False
      | c # d # ds \<Rightarrow> second_ok c d \<and> list_all continuation ds)"

definition rune_width :: "string \<Rightarrow> nat" where
  "rune_width s =
     (case s of [] \<Rightarrow> 0
      | c # _ \<Rightarrow> (let w = lead_width c in
          if 2 \<le> w \<and> w \<le> length s \<and> well_formed_seq (take w s) then w else 1))"

lemma lead_width_pos: "0 < lead_width c"
  by (simp add: lead_width_def)

lemma rune_width_Cons:
  "rune_width (c # cs) =
     (if 2 \<le> lead_width c \<and> lead_width c \<le> length (c # cs) \<and>
         well_formed_seq (take (lead_width c) (c # cs))
      then lead_width c else 1)"
  by (simp add: rune_width_def Let_def)

lemma rune_width_pos: "0 < rune_width (c # cs)"
  by (auto simp: rune_width_Cons)

lemma rune_width_le: "rune_width s \<le> length s"
  by (cases s) (auto simp: rune_width_def Let_def)

function runes :: "string \<Rightarrow> string list" where
  "runes [] = []"
| "runes (c # cs) =
     take (rune_width (c # cs)) (c # cs) # runes (drop (rune_width (c # cs)) (c # cs))"
  by pat_completeness auto
termination
proof (relation "measure length")
  fix c :: char and cs
  have "length (drop (rune_width (c # cs)) (c # cs)) < length (c # cs)"
    using rune_width_pos [of c cs] by (simp only: length_drop) simp
  then show "(drop (rune_width (c # cs)) (c # cs), c # cs) \<in> measure length"
    by (simp only: in_measure)
qed simp

definition rune_count :: "string \<Rightarrow> nat" where
  "rune_count s = length (runes s)"

lemma concat_runes [simp]: "concat (runes s) = s"
  by (induction s rule: runes.induct) auto

lemma runes_nonempty: "r \<in> set (runes s) \<Longrightarrow> r \<noteq> []"
proof (induction s rule: runes.induct)
  case (2 c cs)
  have "take (rune_width (c # cs)) (c # cs) \<noteq> []"
    using rune_width_pos [of c cs] by (simp only: take_eq_Nil) simp
  with 2 show ?case by (simp only: runes.simps set_simps insert_iff) metis
qed simp

lemma rune_count_le_length: "rune_count s \<le> length s"
proof (induction s rule: runes.induct)
  case (2 c cs)
  have "length (drop (rune_width (c # cs)) (c # cs)) < length (c # cs)"
    using rune_width_pos [of c cs] by (simp only: length_drop) simp
  with 2 show ?case by (simp add: rune_count_def del: length_drop drop_Cons')
qed (simp add: rune_count_def)

text \<open>
  Segmentation is local: the width of the first rune depends on its own bytes only, so
  cutting a text at a rune boundary does not change the runes on either side.
\<close>

lemma rune_width_append:
  assumes "s \<noteq> []" and "rune_width (s @ t) \<le> length s"
  shows "rune_width s = rune_width (s @ t)"
proof -
  obtain c cs where s: "s = c # cs" using assms(1) by (cases s) auto
  show ?thesis
  proof (cases "lead_width c \<le> length s")
    case True
    then have "take (lead_width c) (s @ t) = take (lead_width c) s" by simp
    with True s show ?thesis by (simp only: append_Cons rune_width_Cons) simp
  next
    case False
    with assms(2) s have "rune_width (s @ t) = 1"
      by (simp only: append_Cons rune_width_Cons if_False simp_thms split: if_splits)
    moreover have "rune_width s = 1"
      using False s by (simp only: rune_width_Cons if_False simp_thms)
    ultimately show ?thesis by simp
  qed
qed

lemma runes_concat_drop: "runes (concat (drop n (runes s))) = drop n (runes s)"
proof (induction s arbitrary: n rule: runes.induct)
  case (2 c cs)
  then show ?case by (cases n) (auto simp del: take_append drop_append)
qed simp

lemma runes_concat_take: "runes (concat (take n (runes s))) = take n (runes s)"
proof (induction s arbitrary: n rule: runes.induct)
  case (2 c cs)
  show ?case
  proof (cases n)
    case (Suc m)
    let ?w = "rune_width (c # cs)" and ?s = "c # cs"
    let ?rest = "concat (take m (runes (drop ?w ?s)))"
    let ?u = "take ?w ?s @ ?rest"
    have w: "?w \<le> length ?s" "0 < ?w"
      using rune_width_le rune_width_pos by blast+
    then obtain d ds where u: "take ?w ?s = d # ds"
      by (cases "take ?w ?s") auto
    have "drop ?w ?s = ?rest @ concat (drop m (runes (drop ?w ?s)))"
      by (metis append_take_drop_id concat_append concat_runes)
    then have split: "?s = ?u @ concat (drop m (runes (drop ?w ?s)))"
      by (metis append.assoc append_take_drop_id)
    have "rune_width ?u = ?w"
    proof -
      have "?w \<le> length ?u" using w by simp
      then have "rune_width (?u @ concat (drop m (runes (drop ?w ?s)))) \<le> length ?u"
        using split by metis
      moreover have "?u \<noteq> []" using u by simp
      ultimately have "rune_width ?u = rune_width (?u @ concat (drop m (runes (drop ?w ?s))))"
        by (intro rune_width_append)
      then show ?thesis using split by metis
    qed
    moreover have "?u = d # (ds @ ?rest)" using u by simp
    ultimately have "runes ?u = take ?w ?u # runes (drop ?w ?u)"
      by (metis runes.simps(2))
    also have "take ?w ?u = take ?w ?s" using w by simp
    also have "drop ?w ?u = ?rest" using w by simp
    finally show ?thesis using Suc 2 by simp
  qed simp
qed simp

section \<open>strings.TrimSpace\<close>

text \<open>The UTF-8 encodings of the runes for which \<^verbatim>\<open>unicode.IsSpace\<close> holds.\<close>

definition is_space :: "string \<Rightarrow> bool" where
  "is_space r =
     (case map byte r of
        [b] \<Rightarrow> b = 32 \<or> (9 \<le> b \<and> b \<le> 13)
      | [a, b] \<Rightarrow> a = 194 \<and> (b = 133 \<or> b = 160)
      | [a, b, c] \<Rightarrow>
          (a = 225 \<and> b = 154 \<and> c = 128) \<or>
          (a = 226 \<and> b = 128 \<and> ((128 \<le> c \<and> c \<le> 138) \<or> c = 168 \<or> c = 169 \<or> c = 175)) \<or>
          (a = 226 \<and> b = 129 \<and> c = 159) \<or>
          (a = 227 \<and> b = 128 \<and> c = 128)
      | _ \<Rightarrow> False)"

definition trim_runes :: "string list \<Rightarrow> string list" where
  "trim_runes rs = rev (dropWhile is_space (rev (dropWhile is_space rs)))"

definition trim_space :: "string \<Rightarrow> string" where
  "trim_space s = concat (trim_runes (runes s))"

lemma dropWhile_is_drop: "\<exists>n. dropWhile P xs = drop n xs"
  by (metis dropWhile_eq_drop)

lemma trim_runes_slice: "\<exists>m n. trim_runes rs = take m (drop n rs)"
proof -
  obtain n where n: "dropWhile is_space rs = drop n rs"
    using dropWhile_is_drop by blast
  obtain k where "dropWhile is_space (rev (drop n rs)) = drop k (rev (drop n rs))"
    using dropWhile_is_drop by blast
  with n have "trim_runes rs = rev (drop k (rev (drop n rs)))"
    by (simp add: trim_runes_def)
  then show ?thesis by (metis rev_drop rev_rev_ident)
qed

lemma runes_trim_space: "runes (trim_space s) = trim_runes (runes s)"
proof -
  obtain m n where mn: "trim_runes (runes s) = take m (drop n (runes s))"
    using trim_runes_slice by blast
  have "drop n (runes s) = runes (concat (drop n (runes s)))"
    by (simp add: runes_concat_drop)
  with mn show ?thesis
    by (metis runes_concat_take trim_space_def)
qed

lemma dropWhile_hd: "dropWhile P xs \<noteq> [] \<Longrightarrow> \<not> P (hd (dropWhile P xs))"
  by (rule hd_dropWhile)

lemma trim_runes_idem [simp]: "trim_runes (trim_runes rs) = trim_runes rs"
proof -
  let ?a = "dropWhile is_space rs"
  let ?b = "dropWhile is_space (rev ?a)"
  have b: "\<not> is_space (hd (rev ?b))" if "rev ?b \<noteq> []"
  proof -
    note ne = that
    obtain ps where "rev ?a = ps @ ?b"
      by (metis takeWhile_dropWhile_id)
    then have a: "?a = rev ?b @ rev ps"
      by (metis rev_append rev_rev_ident)
    then have "hd ?a = hd (rev ?b)" using ne by (metis hd_append2)
    moreover have "?a \<noteq> []" using a ne by (metis append_is_Nil_conv)
    ultimately show ?thesis using dropWhile_hd [of is_space rs] by metis
  qed
  have keep: "dropWhile is_space xs = xs" if "xs \<noteq> [] \<Longrightarrow> \<not> is_space (hd xs)" for xs
    using that by (cases xs) auto
  have "dropWhile is_space (rev ?b) = rev ?b"
    by (rule keep) (rule b)
  then show ?thesis
    unfolding trim_runes_def by (simp only: rev_rev_ident dropWhile_idem)
qed

lemma trim_space_idem [simp]: "trim_space (trim_space s) = trim_space s"
proof -
  have "trim_space (trim_space s) = concat (trim_runes (trim_runes (runes s)))"
    by (simp only: trim_space_def [of "trim_space s"] runes_trim_space)
  then show ?thesis by (simp add: trim_space_def)
qed

lemma rune_count_trim_space: "rune_count (trim_space s) \<le> rune_count s"
proof -
  obtain m n where "trim_runes (runes s) = take m (drop n (runes s))"
    using trim_runes_slice by blast
  then show ?thesis by (simp add: rune_count_def runes_trim_space)
qed

lemma trim_space_Nil [simp]: "trim_space [] = []"
  by (simp add: trim_space_def trim_runes_def)

text \<open>\<^verbatim>\<open>utf8.Valid\<close>: no byte decodes to a replacement of width one.\<close>

definition valid_utf8 :: "string \<Rightarrow> bool" where
  "valid_utf8 s \<longleftrightarrow> list_all (\<lambda>r. 2 \<le> length r \<or> byte (hd r) < 128) (runes s)"

lemma runes_ascii: "\<forall>c \<in> set s. byte c < 128 \<Longrightarrow> runes s = map (\<lambda>c. [c]) s"
proof (induction s)
  case (Cons c cs)
  then have "rune_width (c # cs) = 1"
    by (simp add: rune_width_Cons lead_width_def in_range_def)
  then show ?case using Cons by simp
qed simp

text \<open>Texts of printable ASCII characters without blanks.\<close>

lemma trim_runes_plain:
  assumes "\<forall>r \<in> set rs. \<not> is_space r"
  shows "trim_runes rs = rs"
proof -
  have keep: "dropWhile is_space xs = xs" if "\<forall>r \<in> set xs. \<not> is_space r" for xs using that by (cases xs) auto
  have "dropWhile is_space rs = rs" "dropWhile is_space (rev rs) = rev rs" using assms by (auto intro!: keep)
  then show ?thesis by (simp add: trim_runes_def)
qed

lemma plain_text:
  assumes "\<forall>c \<in> set s. byte c < 128 \<and> \<not> is_space [c]"
  shows "trim_space s = s" and "valid_utf8 s"
proof -
  have runes: "runes s = map (\<lambda>c. [c]) s" using assms by (intro runes_ascii) blast
  have "trim_runes (runes s) = runes s" using assms unfolding runes by (intro trim_runes_plain) auto
  then show "trim_space s = s" by (simp add: trim_space_def)
  show "valid_utf8 s" using assms by (simp add: valid_utf8_def runes list_all_iff)
qed

section \<open>strings.Join, strings.Split and strings.Fields\<close>

fun join_with :: "string \<Rightarrow> string list \<Rightarrow> string" where
  "join_with sep [] = []"
| "join_with sep [x] = x"
| "join_with sep (x # y # zs) = x @ sep @ join_with sep (y # zs)"

fun split_on :: "char \<Rightarrow> string \<Rightarrow> string list" where
  "split_on c [] = [[]]"
| "split_on c (x # xs) =
     (if x = c then [] # split_on c xs
      else (case split_on c xs of [] \<Rightarrow> [[x]] | w # ws \<Rightarrow> (x # w) # ws))"

lemma split_on_not_Nil [simp]: "split_on c s \<noteq> []"
  by (cases s) (auto split: list.splits)

lemma split_on_no_sep: "c \<notin> set w \<Longrightarrow> split_on c w = [w]"
  by (induction w) auto

lemma split_on_append:
  "c \<notin> set w \<Longrightarrow> split_on c (w @ c # s) = w # split_on c s"
  by (induction w) auto

lemma split_join:
  "ws \<noteq> [] \<Longrightarrow> \<forall>w \<in> set ws. c \<notin> set w \<Longrightarrow> split_on c (join_with [c] ws) = ws"
proof (induction "[c]" ws rule: join_with.induct)
  case (3 x y zs)
  then show ?case by (simp add: split_on_append)
qed (auto simp: split_on_no_sep)

lemma split_on_parts: "w \<in> set (split_on c s) \<Longrightarrow> c \<notin> set w"
  by (induction c s arbitrary: w rule: split_on.induct)
    (auto split: if_splits list.splits)

lemma join_split: "join_with [c] (split_on c s) = s"
proof (induction c s rule: split_on.induct)
  case (2 c x xs)
  obtain w ws where "split_on c xs = w # ws"
    by (cases "split_on c xs") auto
  with 2 show ?case by (cases ws) auto
qed simp

text \<open>Joined texts without the separator are equal only when the parts are.\<close>

lemma join_with_inject:
  assumes "join_with [c] ws = join_with [c] vs" and "ws \<noteq> []" and "vs \<noteq> []"
    and "\<forall>w \<in> set ws. c \<notin> set w" and "\<forall>v \<in> set vs. c \<notin> set v"
  shows "ws = vs"
  using assms by (metis split_join)

fun fields_of :: "string list \<Rightarrow> string \<Rightarrow> string list" where
  "fields_of [] w = (if w = [] then [] else [w])"
| "fields_of (r # rs) w =
     (if is_space r then (if w = [] then fields_of rs [] else w # fields_of rs [])
      else fields_of rs (w @ r))"

definition split_fields :: "string \<Rightarrow> string list" where
  "split_fields s = fields_of (runes s) []"

section \<open>Decimal integers\<close>

definition is_digit :: "char \<Rightarrow> bool" where
  "is_digit = in_range 48 57"

definition digit_char :: "nat \<Rightarrow> char" where
  "digit_char d = char_of (48 + d)"

fun show_nat :: "nat \<Rightarrow> string" where
  "show_nat n = (if n < 10 then [digit_char n] else show_nat (n div 10) @ [digit_char (n mod 10)])"

declare show_nat.simps [simp del]

definition show_int :: "int \<Rightarrow> string" where
  "show_int i = (if i < 0 then CHR ''-'' # show_nat (nat (- i)) else show_nat (nat i))"

fun digits_value :: "nat \<Rightarrow> string \<Rightarrow> nat option" where
  "digits_value acc [] = Some acc"
| "digits_value acc (c # cs) =
     (if is_digit c then digits_value (10 * acc + (byte c - 48)) cs else None)"

definition max_int64 :: int where
  "max_int64 = 9223372036854775807"

text \<open>\<^verbatim>\<open>strconv.ParseInt(s, 10, 64)\<close>: an optional sign, at least one digit, in range.\<close>

definition parse_int64 :: "string \<Rightarrow> int option" where
  "parse_int64 s =
     (let neg = (s \<noteq> [] \<and> hd s = CHR ''-'');
          body = (if s \<noteq> [] \<and> (hd s = CHR ''-'' \<or> hd s = CHR ''+'') then tl s else s)
      in if body = [] then None
         else (case digits_value 0 body of
                 None \<Rightarrow> None
               | Some n \<Rightarrow>
                   (let v = (if neg then - int n else int n)
                    in if - max_int64 - 1 \<le> v \<and> v \<le> max_int64 then Some v else None)))"

lemma byte_digit_char [simp]: "d < 10 \<Longrightarrow> byte (digit_char d) = 48 + d"
  by (simp add: byte_def digit_char_def)

lemma is_digit_digit_char [simp]: "d < 10 \<Longrightarrow> is_digit (digit_char d)"
  by (simp add: is_digit_def in_range_def)

lemma digits_value_append:
  "digits_value acc (s @ [c]) =
     (case digits_value acc s of None \<Rightarrow> None
      | Some n \<Rightarrow> if is_digit c then Some (10 * n + (byte c - 48)) else None)"
  by (induction acc s rule: digits_value.induct) auto

lemma digits_value_show_nat [simp]: "digits_value 0 (show_nat n) = Some n"
proof (induction n rule: show_nat.induct)
  case (1 n)
  show ?case
  proof (cases "n < 10")
    case True
    then show ?thesis by (subst show_nat.simps) simp
  next
    case False
    with 1 show ?thesis by (subst show_nat.simps) (simp add: digits_value_append)
  qed
qed

lemma show_nat_digits: "c \<in> set (show_nat n) \<Longrightarrow> is_digit c"
proof (induction n rule: show_nat.induct)
  case (1 n)
  then show ?case
    by (cases "n < 10") (auto simp: show_nat.simps [of n])
qed

lemma show_nat_not_Nil [simp]: "show_nat n \<noteq> []"
  by (subst show_nat.simps) simp

lemma digit_not_sign: "is_digit c \<Longrightarrow> c \<noteq> CHR ''-'' \<and> c \<noteq> CHR ''+''"
  by (auto simp: is_digit_def in_range_def byte_def)

lemma hd_show_nat: "hd (show_nat n) \<noteq> CHR ''-'' \<and> hd (show_nat n) \<noteq> CHR ''+''"
  using show_nat_digits [of "hd (show_nat n)" n] digit_not_sign by simp

lemma parse_show_int:
  assumes "- max_int64 - 1 \<le> i" and "i \<le> max_int64"
  shows "parse_int64 (show_int i) = Some i"
  using assms hd_show_nat [of "nat i"]
  by (auto simp: parse_int64_def show_int_def Let_def)

lemma show_int_digits: "0 \<le> v \<Longrightarrow> c \<in> set (show_int v) \<Longrightarrow> is_digit c"
  using show_nat_digits by (simp add: show_int_def)

lemma show_int_not_Nil: "show_int v \<noteq> []"
  by (simp add: show_int_def)

lemma length_show_nat: "n < 10 ^ k \<Longrightarrow> 0 < k \<Longrightarrow> length (show_nat n) \<le> k"
proof (induction n arbitrary: k rule: show_nat.induct)
  case (1 n)
  show ?case
  proof (cases "n < 10")
    case False
    with "1.prems" obtain m where k: "k = Suc m" "0 < m" by (cases k) (auto, cases "k = 1", auto)
    then have "n div 10 < 10 ^ m" using "1.prems"(1) by (simp add: less_mult_imp_div_less mult.commute)
    with False k "1.IH" show ?thesis by (subst show_nat.simps) fastforce
  qed (use "1.prems" in \<open>simp add: show_nat.simps [of n]\<close>)
qed

lemma digit_plain: "is_digit c \<Longrightarrow> byte c < 128 \<and> \<not> is_space [c]"
  by (auto simp: is_digit_def in_range_def is_space_def byte_def)

section \<open>Hexadecimal digests\<close>

definition hex_digit :: "nat \<Rightarrow> char" where
  "hex_digit d = char_of (if d < 10 then 48 + d else 87 + d)"

fun hex_encode :: "string \<Rightarrow> string" where
  "hex_encode [] = []"
| "hex_encode (c # cs) = hex_digit (byte c div 16) # hex_digit (byte c mod 16) # hex_encode cs"

definition is_hex :: "char \<Rightarrow> bool" where
  "is_hex c \<longleftrightarrow> is_digit c \<or> in_range 97 102 c \<or> in_range 65 70 c"

definition is_lower_hex :: "char \<Rightarrow> bool" where
  "is_lower_hex c \<longleftrightarrow> is_digit c \<or> in_range 97 102 c"

text \<open>\<^verbatim>\<open>hex.DecodeString\<close> succeeds exactly on an even number of hexadecimal digits.\<close>

definition hex_decodable :: "string \<Rightarrow> bool" where
  "hex_decodable s \<longleftrightarrow> even (length s) \<and> list_all is_hex s"

lemma byte_less: "byte c < 256"
proof -
  have "(of_char c :: nat) mod 256 = of_char c" by (rule of_char_mod_256)
  then show ?thesis by (metis byte_def mod_less_divisor zero_less_numeral)
qed

lemma length_hex_encode [simp]: "length (hex_encode s) = 2 * length s"
  by (induction s) auto

lemma hex_digit_lower: "d < 16 \<Longrightarrow> is_lower_hex (hex_digit d)"
  by (auto simp: is_lower_hex_def is_digit_def in_range_def byte_def hex_digit_def)

lemma hex_encode_lower: "list_all is_lower_hex (hex_encode s)"
proof (induction s)
  case (Cons c cs)
  have "byte c div 16 < 16" using byte_less [of c] by simp
  with Cons show ?case by (simp add: hex_digit_lower)
qed simp

lemma is_lower_hex_is_hex: "is_lower_hex c \<Longrightarrow> is_hex c"
  by (auto simp: is_lower_hex_def is_hex_def)

lemma hex_digit_inject:
  assumes "d < 16" and "e < 16" and "hex_digit d = hex_digit e"
  shows "d = e"
proof -
  have "byte (hex_digit d) = byte (hex_digit e)" using assms(3) by simp
  then show ?thesis using assms(1,2)
    by (auto simp: byte_def hex_digit_def split: if_splits)
qed

lemma hex_encode_inject: "hex_encode s = hex_encode t \<Longrightarrow> s = t"
proof (induction s arbitrary: t)
  case Nil
  then show ?case by (cases t) auto
next
  case (Cons c cs)
  then obtain d ds where t: "t = d # ds" by (cases t) auto
  have bounds: "byte c div 16 < 16" "byte d div 16 < 16"
    using byte_less [of c] byte_less [of d] by simp_all
  from Cons.prems t have eqs: "hex_digit (byte c div 16) = hex_digit (byte d div 16)"
    "hex_digit (byte c mod 16) = hex_digit (byte d mod 16)" "hex_encode cs = hex_encode ds"
    by auto
  have "byte c div 16 = byte d div 16" by (rule hex_digit_inject [OF bounds eqs(1)])
  moreover have "byte c mod 16 = byte d mod 16"
    by (rule hex_digit_inject [OF _ _ eqs(2)]) simp_all
  ultimately have "byte c = byte d" by (metis div_mult_mod_eq)
  moreover have "cs = ds" by (rule Cons.IH [OF eqs(3)])
  ultimately show ?case using t by (simp add: byte_def)
qed

end
