(* ===== verification/EffectTypes.thy ===== *)
theory EffectTypes
  imports GoText
begin

text \<open>
  The data of the external-effects runtime (\<^verbatim>\<open>internal/externaleffects/runtime.go\<close>):
  owners, kinds, states and the transition table, opaque SHA-256 digests, the immutable
  effect envelope and its fingerprint, leases, attempts, receipts, projections and the
  commands with their digests.

  The Go code declares owners, kinds, states and completions as string types with a closed
  list of constants and a validity test. Each becomes a datatype with one constructor per
  constant and one constructor for every other string.

  \<open>crypto_env\<close> carries the two standard-library functions whose results the runtime
  only stores and compares: SHA-256 and the RFC 3339 rendering of an instant in UTC.
\<close>

section \<open>Errors\<close>

datatype eer_error =
    ErrInvalidCommand | ErrPayloadMismatch | ErrInvalidTransition | ErrLeaseExpired
  | ErrLeaseFence | ErrRetryForbidden | ErrCancelForbidden | ErrReconcileRequired
  | ErrRecoveryForbidden | ErrInvalidAdapterResult | ErrAdapterFailure | ErrNotFound
  | ErrUnavailable

section \<open>Owners and kinds\<close>

datatype owner =
    OwnerCampaign | OwnerContact | OwnerOutbound | OwnerWeCom | OwnerSurvey
  | OwnerAudience | OwnerOrder | OwnerGroupOps | OwnerProduct | OwnerMedia
  | OtherOwner string

datatype kind =
    KindCampaignDispatch | KindCampaignGroupAnnouncement | KindContactTouch
  | KindContactAcquisitionAssetPublish | KindOutboundMessage | KindOutboundMedia
  | KindWeComTagSync | KindWeComProfileSync | KindSurveyWebhook | KindAudienceWebhook
  | KindOrderPaymentPrepay | KindOrderPaymentCapture | KindOrderRefund
  | KindGroupOpsBroadcast | KindProductExternalPushTest | KindMediaWeComUpload
  | OtherKind string

fun owner_text :: "owner \<Rightarrow> string" where
  "owner_text OwnerCampaign = ''campaign''"
| "owner_text OwnerContact = ''contact''"
| "owner_text OwnerOutbound = ''outbound''"
| "owner_text OwnerWeCom = ''wecom''"
| "owner_text OwnerSurvey = ''survey''"
| "owner_text OwnerAudience = ''audience''"
| "owner_text OwnerOrder = ''order''"
| "owner_text OwnerGroupOps = ''group_ops''"
| "owner_text OwnerProduct = ''product''"
| "owner_text OwnerMedia = ''media''"
| "owner_text (OtherOwner s) = s"

fun kind_text :: "kind \<Rightarrow> string" where
  "kind_text KindCampaignDispatch = ''campaign_dispatch''"
| "kind_text KindCampaignGroupAnnouncement = ''campaign_group_announcement''"
| "kind_text KindContactTouch = ''contact_touch''"
| "kind_text KindContactAcquisitionAssetPublish = ''contact_acquisition_asset_publish''"
| "kind_text KindOutboundMessage = ''outbound_message''"
| "kind_text KindOutboundMedia = ''outbound_media''"
| "kind_text KindWeComTagSync = ''wecom_tag_sync''"
| "kind_text KindWeComProfileSync = ''wecom_profile_sync''"
| "kind_text KindSurveyWebhook = ''survey_webhook''"
| "kind_text KindAudienceWebhook = ''audience_webhook''"
| "kind_text KindOrderPaymentPrepay = ''order_payment_prepay''"
| "kind_text KindOrderPaymentCapture = ''order_payment_capture''"
| "kind_text KindOrderRefund = ''order_refund''"
| "kind_text KindGroupOpsBroadcast = ''group_ops_broadcast''"
| "kind_text KindProductExternalPushTest = ''product_external_push_test''"
| "kind_text KindMediaWeComUpload = ''media_wecom_upload''"
| "kind_text (OtherKind s) = s"

fun validOwnerKind :: "owner \<Rightarrow> kind \<Rightarrow> bool" where
  "validOwnerKind OwnerCampaign k = (k = KindCampaignDispatch \<or> k = KindCampaignGroupAnnouncement)"
| "validOwnerKind OwnerContact k = (k = KindContactTouch \<or> k = KindContactAcquisitionAssetPublish)"
| "validOwnerKind OwnerOutbound k = (k = KindOutboundMessage \<or> k = KindOutboundMedia)"
| "validOwnerKind OwnerWeCom k = (k = KindWeComTagSync \<or> k = KindWeComProfileSync)"
| "validOwnerKind OwnerSurvey k = (k = KindSurveyWebhook)"
| "validOwnerKind OwnerAudience k = (k = KindAudienceWebhook)"
| "validOwnerKind OwnerOrder k =
     (k = KindOrderPaymentPrepay \<or> k = KindOrderPaymentCapture \<or> k = KindOrderRefund)"
| "validOwnerKind OwnerGroupOps k = (k = KindGroupOpsBroadcast)"
| "validOwnerKind OwnerProduct k = (k = KindProductExternalPushTest)"
| "validOwnerKind OwnerMedia k = (k = KindMediaWeComUpload)"
| "validOwnerKind (OtherOwner _) k = False"

section \<open>States and transitions\<close>

datatype eff_state =
    StateAccepted | StateQueued | StateAttempted | StateExecuted | StateOutcomeUnknown
  | StateReconciled | StateRetryableFailed | StateFinalFailed | StateCancelled
  | OtherState string

fun validState :: "eff_state \<Rightarrow> bool" where
  "validState (OtherState _) = False"
| "validState _ = True"

fun CanTransition :: "eff_state \<Rightarrow> eff_state \<Rightarrow> bool" where
  "CanTransition StateAccepted to = (to = StateQueued \<or> to = StateCancelled)"
| "CanTransition StateQueued to = (to = StateAttempted \<or> to = StateCancelled)"
| "CanTransition StateAttempted to =
     (to = StateExecuted \<or> to = StateRetryableFailed \<or> to = StateFinalFailed \<or> to = StateOutcomeUnknown)"
| "CanTransition StateRetryableFailed to = (to = StateQueued)"
| "CanTransition StateOutcomeUnknown to = (to = StateReconciled)"
| "CanTransition _ to = False"

section \<open>Digests\<close>

type_synonym digest = string

record crypto_env =
  sha256 :: "string \<Rightarrow> string"
  rfc3339 :: "instant \<Rightarrow> string"

definition digest_prefix :: string where
  "digest_prefix = ''sha256:''"

definition validDigest :: "digest \<Rightarrow> bool" where
  "validDigest d \<longleftrightarrow>
     take (length digest_prefix) d = digest_prefix \<and>
     length d = length digest_prefix + 64 \<and>
     hex_decodable (drop (length digest_prefix) d)"

definition nul :: char where
  "nul = CHR 0x00"

definition hashText :: "crypto_env \<Rightarrow> string \<Rightarrow> digest" where
  "hashText E s = digest_prefix @ hex_encode (sha256 E s)"

definition digestParts :: "crypto_env \<Rightarrow> string \<Rightarrow> string list \<Rightarrow> digest" where
  "digestParts E label parts = hashText E (label @ [nul] @ join_with [nul] parts)"

section \<open>Envelopes\<close>

record EnvelopeInput =
  in_owner :: owner
  in_kind :: kind
  in_source :: digest
  in_target :: digest
  in_payload :: digest
  in_policy :: digest

record EffectEnvelope =
  env_owner :: owner
  env_kind :: kind
  env_source :: digest
  env_target :: digest
  env_payload :: digest
  env_policy :: digest

definition NewEnvelope :: "EnvelopeInput \<Rightarrow> eer_error + EffectEnvelope" where
  "NewEnvelope i =
     (if \<not> validOwnerKind (in_owner i) (in_kind i) \<or> \<not> validDigest (in_source i) \<or>
         \<not> validDigest (in_target i) \<or> \<not> validDigest (in_payload i) \<or>
         \<not> validDigest (in_policy i)
      then Inl ErrInvalidCommand
      else Inr \<lparr>env_owner = in_owner i, env_kind = in_kind i, env_source = in_source i,
                env_target = in_target i, env_payload = in_payload i, env_policy = in_policy i\<rparr>)"

definition envelope_valid :: "EffectEnvelope \<Rightarrow> bool" where
  "envelope_valid e \<longleftrightarrow>
     validOwnerKind (env_owner e) (env_kind e) \<and> validDigest (env_source e) \<and>
     validDigest (env_target e) \<and> validDigest (env_payload e) \<and> validDigest (env_policy e)"

definition envelope_parts :: "EffectEnvelope \<Rightarrow> string list" where
  "envelope_parts e =
     [owner_text (env_owner e), kind_text (env_kind e), env_source e, env_target e,
      env_payload e, env_policy e]"

definition Fingerprint :: "crypto_env \<Rightarrow> EffectEnvelope \<Rightarrow> digest" where
  "Fingerprint E e =
     (if \<not> envelope_valid e then [] else hashText E (join_with [nul] (envelope_parts e)))"

section \<open>Job links, leases, attempts, receipts, projections\<close>

record RiverJobLink =
  job_id :: int
  job_generation :: int
  job_queue :: string
  job_args :: digest
  job_scheduled :: instant

definition job_valid :: "RiverJobLink \<Rightarrow> bool" where
  "job_valid l \<longleftrightarrow>
     0 < job_id l \<and> 0 < job_generation l \<and> job_queue l \<noteq> [] \<and>
     trim_space (job_queue l) = job_queue l \<and> validDigest (job_args l) \<and> job_scheduled l \<noteq> 0"

definition job_fingerprint :: "crypto_env \<Rightarrow> RiverJobLink \<Rightarrow> digest" where
  "job_fingerprint E l =
     (if \<not> job_valid l then []
      else digestParts E ''river-job''
             [show_int (job_id l), show_int (job_generation l), job_queue l, job_args l,
              rfc3339 E (job_scheduled l)])"

record Lease =
  lease_effect :: string
  lease_generation :: int
  lease_fence :: int
  lease_expires :: instant

definition lease_validFields :: "Lease \<Rightarrow> bool" where
  "lease_validFields l \<longleftrightarrow>
     lease_effect l \<noteq> [] \<and> 0 < lease_generation l \<and> 0 < lease_fence l \<and> lease_expires l \<noteq> 0"

definition lease_valid :: "Lease \<Rightarrow> instant \<Rightarrow> bool" where
  "lease_valid l now \<longleftrightarrow> lease_validFields l \<and> now < lease_expires l"

record Attempt =
  att_number :: int
  att_generation :: int
  att_fence :: int
  att_started :: instant

definition attempt_validFor :: "Attempt \<Rightarrow> Lease \<Rightarrow> bool" where
  "attempt_validFor a l \<longleftrightarrow>
     0 < att_number a \<and> att_generation a = lease_generation l \<and>
     att_fence a = lease_fence l \<and> att_started a \<noteq> 0"

record OperationReceipt =
  rcpt_id :: string
  rcpt_effect :: string
  rcpt_command :: digest
  rcpt_state :: eff_state
  rcpt_completed :: instant

definition receipt_validFor :: "OperationReceipt \<Rightarrow> string \<Rightarrow> digest \<Rightarrow> bool" where
  "receipt_validFor r effect command \<longleftrightarrow>
     rcpt_id r \<noteq> [] \<and> rcpt_effect r = effect \<and> rcpt_command r = command \<and>
     validState (rcpt_state r) \<and> rcpt_completed r \<noteq> 0"

record Projection =
  proj_id :: string
  proj_owner :: owner
  proj_kind :: kind
  proj_state :: eff_state
  proj_attempts :: int
  proj_generation :: int
  proj_updated :: instant

definition projection_valid :: "Projection \<Rightarrow> bool" where
  "projection_valid p \<longleftrightarrow>
     proj_id p \<noteq> [] \<and> validOwnerKind (proj_owner p) (proj_kind p) \<and>
     validState (proj_state p) \<and> 0 \<le> proj_attempts p \<and> 0 < proj_generation p \<and>
     proj_updated p \<noteq> 0"

section \<open>Commands and their digests\<close>

record AcceptCommand =
  acc_key :: digest
  acc_envelope :: EffectEnvelope

definition accept_digest :: "crypto_env \<Rightarrow> AcceptCommand \<Rightarrow> digest" where
  "accept_digest E c =
     (if \<not> validDigest (acc_key c) \<or> \<not> envelope_valid (acc_envelope c) then []
      else digestParts E ''accept'' [acc_key c, Fingerprint E (acc_envelope c)])"

text \<open>Queue and retry commands have the same fields.\<close>

record JobCommand =
  jc_effect :: string
  jc_job :: RiverJobLink
  jc_key :: digest

definition job_command_digest :: "crypto_env \<Rightarrow> string \<Rightarrow> JobCommand \<Rightarrow> digest" where
  "job_command_digest E label c =
     (if jc_effect c = [] \<or> \<not> job_valid (jc_job c) \<or> \<not> validDigest (jc_key c) then []
      else digestParts E label [jc_effect c, job_fingerprint E (jc_job c), jc_key c])"

definition queue_digest :: "crypto_env \<Rightarrow> JobCommand \<Rightarrow> digest" where
  "queue_digest E c = job_command_digest E ''queue'' c"

definition retry_digest :: "crypto_env \<Rightarrow> JobCommand \<Rightarrow> digest" where
  "retry_digest E c = job_command_digest E ''retry'' c"

record ClaimCommand =
  claim_effect :: string
  claim_worker :: digest

record CancelCommand =
  can_effect :: string
  can_key :: digest

definition cancel_digest :: "crypto_env \<Rightarrow> CancelCommand \<Rightarrow> digest" where
  "cancel_digest E c =
     (if can_effect c = [] \<or> \<not> validDigest (can_key c) then []
      else digestParts E ''cancel'' [can_effect c, can_key c])"

record ReconcileCommand =
  rec_lease :: Lease
  rec_key :: digest
  rec_evidence :: digest

definition reconcile_digest :: "crypto_env \<Rightarrow> ReconcileCommand \<Rightarrow> digest" where
  "reconcile_digest E c =
     (if \<not> lease_validFields (rec_lease c) \<or> \<not> validDigest (rec_key c) \<or> \<not> validDigest (rec_evidence c)
      then []
      else digestParts E ''reconcile''
             [lease_effect (rec_lease c), show_int (lease_generation (rec_lease c)),
              show_int (lease_fence (rec_lease c)), rfc3339 E (lease_expires (rec_lease c)),
              rec_key c, rec_evidence c])"

definition recover_digest :: "crypto_env \<Rightarrow> Lease \<Rightarrow> digest" where
  "recover_digest E l =
     (if \<not> lease_validFields l then []
      else digestParts E ''recover-attempted''
             [lease_effect l, show_int (lease_generation l), show_int (lease_fence l),
              rfc3339 E (lease_expires l)])"

section \<open>Adapter results\<close>

datatype completion =
    CompletionExecuted | CompletionRetryableFailed | CompletionFinalFailed
  | CompletionOutcomeUnknown | OtherCompletion string

fun completion_state :: "completion \<Rightarrow> eff_state option" where
  "completion_state CompletionExecuted = Some StateExecuted"
| "completion_state CompletionRetryableFailed = Some StateRetryableFailed"
| "completion_state CompletionFinalFailed = Some StateFinalFailed"
| "completion_state CompletionOutcomeUnknown = Some StateOutcomeUnknown"
| "completion_state (OtherCompletion _) = None"

record AdapterResult =
  res_completion :: completion
  res_receipt :: digest
  res_reference :: digest
  res_dispatched :: bool
  res_real :: bool

definition result_valid :: "AdapterResult \<Rightarrow> bool" where
  "result_valid r \<longleftrightarrow>
     completion_state (res_completion r) \<noteq> None \<and> validDigest (res_receipt r) \<and>
     (res_reference r = [] \<or> validDigest (res_reference r)) \<and>
     (\<not> res_real r \<or> res_dispatched r)"

definition unknownReceiptDigest :: "crypto_env \<Rightarrow> Lease \<Rightarrow> Attempt \<Rightarrow> digest" where
  "unknownReceiptDigest E l a =
     hashText E (''unknown'' @ [nul] @ lease_effect l @ [nul] @ show_int (lease_generation l) @ [nul] @
                 show_int (lease_fence l) @ [nul] @ show_int (att_number a))"

record CompleteRecordedAttemptCommand =
  cra_lease :: Lease
  cra_attempt :: Attempt
  cra_result :: AdapterResult

definition complete_recorded_valid :: "CompleteRecordedAttemptCommand \<Rightarrow> instant \<Rightarrow> bool" where
  "complete_recorded_valid c now \<longleftrightarrow>
     lease_validFields (cra_lease c) \<and> \<not> now < lease_expires (cra_lease c) \<and>
     attempt_validFor (cra_attempt c) (cra_lease c) \<and> result_valid (cra_result c) \<and>
     res_completion (cra_result c) = CompletionExecuted \<and> res_dispatched (cra_result c) \<and>
     res_real (cra_result c)"

section \<open>Facts about digests and envelopes\<close>

text \<open>What the runtime relies on of SHA-256: 32 bytes, and no two texts it hashes collide.\<close>

definition sha_ok :: "crypto_env \<Rightarrow> bool" where
  "sha_ok E \<longleftrightarrow> (\<forall>s. length (sha256 E s) = 32)"

lemma validDigest_hashText: "sha_ok E \<Longrightarrow> validDigest (hashText E s)"
proof -
  assume "sha_ok E"
  then have "length (sha256 E s) = 32" by (simp add: sha_ok_def)
  moreover have "list_all is_hex (hex_encode (sha256 E s))"
    using hex_encode_lower by (auto simp: list_all_iff intro: is_lower_hex_is_hex)
  ultimately show ?thesis
    by (simp add: validDigest_def hashText_def digest_prefix_def hex_decodable_def)
qed

lemma hashText_inject: "hashText E s = hashText E t \<Longrightarrow> sha256 E s = sha256 E t"
  by (simp add: hashText_def) (rule hex_encode_inject)

lemma hashText_not_Nil [simp]: "hashText E s \<noteq> []"
  by (simp add: hashText_def digest_prefix_def)

lemma digestParts_not_Nil [simp]: "digestParts E l ps \<noteq> []"
  by (simp add: digestParts_def)

lemma validDigest_not_Nil: "validDigest d \<Longrightarrow> d \<noteq> []"
  by (auto simp: validDigest_def digest_prefix_def)

lemma is_hex_not_nul: "is_hex c \<Longrightarrow> c \<noteq> nul"
  by (auto simp: is_hex_def is_digit_def in_range_def nul_def byte_def)

lemma validDigest_no_nul: "validDigest d \<Longrightarrow> nul \<notin> set d"
proof -
  assume d: "validDigest d"
  let ?n = "length digest_prefix"
  have "set d = set (take ?n d) \<union> set (drop ?n d)"
    by (metis append_take_drop_id set_append)
  moreover have "take ?n d = digest_prefix" "list_all is_hex (drop ?n d)"
    using d by (auto simp: validDigest_def hex_decodable_def)
  moreover have "nul \<notin> set digest_prefix" by (simp add: digest_prefix_def nul_def)
  ultimately show ?thesis using is_hex_not_nul by (auto simp: list_all_iff)
qed

text \<open>The registered owners and kinds are told apart by their texts, none of which has a NUL.\<close>

lemma validOwnerKind_closed:
  "validOwnerKind ow k \<Longrightarrow> \<not> (\<exists>s. ow = OtherOwner s) \<and> \<not> (\<exists>s. k = OtherKind s)"
  by (cases ow) auto

lemma owner_text_inject:
  "owner_text a = owner_text b \<Longrightarrow> \<not> (\<exists>s. a = OtherOwner s) \<Longrightarrow> \<not> (\<exists>s. b = OtherOwner s) \<Longrightarrow> a = b"
  by (cases a; cases b) simp_all

lemma kind_text_inject:
  "kind_text a = kind_text b \<Longrightarrow> \<not> (\<exists>s. a = OtherKind s) \<Longrightarrow> \<not> (\<exists>s. b = OtherKind s) \<Longrightarrow> a = b"
  by (cases a; cases b) simp_all

lemma owner_text_no_nul: "\<not> (\<exists>s. a = OtherOwner s) \<Longrightarrow> nul \<notin> set (owner_text a)"
  by (cases a) (simp_all add: nul_def)

lemma kind_text_no_nul: "\<not> (\<exists>s. a = OtherKind s) \<Longrightarrow> nul \<notin> set (kind_text a)"
  by (cases a) (simp_all add: nul_def)

lemma envelope_parts_inject:
  assumes "envelope_valid a" and "envelope_valid b" and "envelope_parts a = envelope_parts b"
  shows "a = b"
proof -
  from assms(3) have "owner_text (env_owner a) = owner_text (env_owner b)"
    and "kind_text (env_kind a) = kind_text (env_kind b)"
    by (simp_all add: envelope_parts_def)
  with assms(1,2) have "env_owner a = env_owner b" "env_kind a = env_kind b"
    using validOwnerKind_closed by (metis envelope_valid_def owner_text_inject kind_text_inject)+
  with assms(3) show ?thesis
    by (intro EffectEnvelope.equality) (simp_all add: envelope_parts_def)
qed

lemma envelope_parts_no_nul:
  "envelope_valid e \<Longrightarrow> \<forall>w \<in> set (envelope_parts e). nul \<notin> set w"
  using validOwnerKind_closed [of "env_owner e" "env_kind e"]
  by (auto simp: envelope_valid_def envelope_parts_def validDigest_no_nul owner_text_no_nul
      kind_text_no_nul)

lemma NewEnvelope_valid: "NewEnvelope i = Inr e \<Longrightarrow> envelope_valid e"
  by (auto simp: NewEnvelope_def envelope_valid_def split: if_splits)

end
