(* ===== verification/EffectStore.thy ===== *)
theory EffectStore
  imports EffectTypes
begin

text \<open>
  The PostgreSQL store of the external-effects runtime
  (\<^verbatim>\<open>internal/externaleffects/store/repository.go\<close> and its
  \<^verbatim>\<open>queries/runtime.sql\<close>): the four tables as lists of rows, one definition per SQL
  statement with the unique and digest constraints of the migrations, one definition per
  repository operation, composed of the same statements in the same order and run in one
  unit of work.

  \<open>clock\<close> holds the two clocks an operation reads: \<^verbatim>\<open>now()\<close> of the database
  transaction and \<^verbatim>\<open>time.Now()\<close> of the process. A violated constraint is
  \<open>ErrUnavailable\<close>, as the repository reports it. Row identifiers are handed out in
  order; a rolled-back transaction gives its identifiers back, where PostgreSQL would leave
  a gap, which no operation observes.
\<close>

section \<open>Rows and tables\<close>

record clock =
  db_now :: instant
  go_now :: instant

record effect_row =
  ef_id :: int
  ef_owner :: owner
  ef_kind :: kind
  ef_source :: digest
  ef_target :: digest
  ef_payload :: digest
  ef_policy :: digest
  ef_fingerprint :: digest
  ef_state :: eff_state
  ef_attempts :: int
  ef_generation :: int
  ef_fence :: int
  ef_expires :: "instant option"
  ef_job :: "(int \<times> string \<times> digest \<times> instant) option"
  ef_updated :: instant
  ef_created :: instant

record attempt_row =
  at_effect :: int
  at_number :: int
  at_generation :: int
  at_fence :: int
  at_started :: instant
  at_completion :: "completion option"
  at_receipt :: "digest option"
  at_completed :: "instant option"
  at_reference :: "digest option"
  at_dispatched :: bool
  at_real :: bool

datatype receipt_op =
    OpAccept | OpQueue | OpRetry | OpCancel | OpCompleteAttempt | OpReconcile | OpRecoverAttempted

record receipt_row =
  rr_id :: int
  rr_operation :: receipt_op
  rr_effect :: int
  rr_key :: digest
  rr_command :: digest
  rr_state :: eff_state
  rr_completed :: instant

record recon_row =
  rn_effect :: int
  rn_generation :: int
  rn_fence :: int
  rn_evidence :: digest

record eer_db =
  effects :: "effect_row list"
  attempts :: "attempt_row list"
  receipts :: "receipt_row list"
  recons :: "recon_row list"
  next_effect :: int
  next_receipt :: int

type_synonym 'a eer_tx = "(eer_db, eer_error, 'a) tx"

section \<open>SQL statements\<close>

text \<open>The column check \<^verbatim>\<open>~ '^sha256:[0-9a-f]{64}$'\<close>: lower-case digits only.\<close>

definition db_digest :: "digest \<Rightarrow> bool" where
  "db_digest d \<longleftrightarrow>
     take (length digest_prefix) d = digest_prefix \<and> length d = length digest_prefix + 64 \<and>
     list_all is_lower_hex (drop (length digest_prefix) d)"

definition find_effect :: "int \<Rightarrow> eer_db \<Rightarrow> effect_row option" where
  "find_effect i db = List.find (\<lambda>r. ef_id r = i) (effects db)"

definition update_effect :: "int \<Rightarrow> (effect_row \<Rightarrow> effect_row) \<Rightarrow> eer_db \<Rightarrow> eer_db" where
  "update_effect i f db = db\<lparr>effects := map (\<lambda>r. if ef_id r = i then f r else r) (effects db)\<rparr>"

definition LockEffect :: "int \<Rightarrow> effect_row eer_tx" where
  "LockEffect i = (\<lambda>db. case find_effect i db of
     None \<Rightarrow> (Inl ErrNotFound, db) | Some r \<Rightarrow> (Inr r, db))"

definition LockEffectByFingerprint :: "digest \<Rightarrow> effect_row option eer_tx" where
  "LockEffectByFingerprint fp = (\<lambda>db.
     (Inr (List.find (\<lambda>r. ef_fingerprint r = fp) (effects db)), db))"

definition CreateEffect :: "clock \<Rightarrow> EffectEnvelope \<Rightarrow> digest \<Rightarrow> effect_row eer_tx" where
  "CreateEffect c e fp = (\<lambda>db.
     if \<not> validOwnerKind (env_owner e) (env_kind e) \<or>
        \<not> list_all db_digest [env_source e, env_target e, env_payload e, env_policy e, fp] \<or>
        list_ex (\<lambda>r. ef_fingerprint r = fp) (effects db)
     then (Inl ErrUnavailable, db)
     else (let row = \<lparr>ef_id = next_effect db, ef_owner = env_owner e, ef_kind = env_kind e,
                 ef_source = env_source e, ef_target = env_target e, ef_payload = env_payload e,
                 ef_policy = env_policy e, ef_fingerprint = fp, ef_state = StateAccepted,
                 ef_attempts = 0, ef_generation = 1, ef_fence = 0, ef_expires = None, ef_job = None,
                 ef_updated = db_now c, ef_created = db_now c\<rparr>
           in (Inr row, db\<lparr>effects := effects db @ [row], next_effect := next_effect db + 1\<rparr>)))"

definition queue_row :: "clock \<Rightarrow> RiverJobLink \<Rightarrow> effect_row \<Rightarrow> effect_row" where
  "queue_row c l r = r\<lparr>ef_state := StateQueued, ef_generation := ef_generation r + 1,
     ef_fence := 0, ef_expires := None,
     ef_job := Some (job_id l, job_queue l, job_args l, job_scheduled l), ef_updated := db_now c\<rparr>"

definition QueueEffect :: "clock \<Rightarrow> int \<Rightarrow> RiverJobLink \<Rightarrow> unit eer_tx" where
  "QueueEffect c i l = (\<lambda>db.
     if job_id l \<le> 0 \<or> job_queue l = [] \<or> \<not> db_digest (job_args l) then (Inl ErrUnavailable, db)
     else (Inr (), update_effect i (queue_row c l) db))"

definition lease_nanos :: int where
  "lease_nanos = 30 * 1000000000"

definition claim_row :: "clock \<Rightarrow> effect_row \<Rightarrow> effect_row" where
  "claim_row c r = r\<lparr>ef_fence := ef_fence r + 1, ef_expires := Some (db_now c + lease_nanos),
     ef_updated := db_now c\<rparr>"

definition ClaimEffect :: "clock \<Rightarrow> int \<Rightarrow> unit eer_tx" where
  "ClaimEffect c i = (\<lambda>db. (Inr (), update_effect i (claim_row c) db))"

definition cancel_row :: "clock \<Rightarrow> effect_row \<Rightarrow> effect_row" where
  "cancel_row c r = r\<lparr>ef_state := StateCancelled, ef_expires := None, ef_updated := db_now c\<rparr>"

definition CancelEffect :: "clock \<Rightarrow> int \<Rightarrow> unit eer_tx" where
  "CancelEffect c i = (\<lambda>db. (Inr (), update_effect i (cancel_row c) db))"

definition start_row :: "clock \<Rightarrow> effect_row \<Rightarrow> effect_row" where
  "start_row c r = r\<lparr>ef_state := StateAttempted, ef_attempts := ef_attempts r + 1,
     ef_updated := db_now c\<rparr>"

text \<open>The table check on attempted rows demands a positive fence and an expiry.\<close>

definition StartAttempt :: "clock \<Rightarrow> int \<Rightarrow> unit eer_tx" where
  "StartAttempt c i = (\<lambda>db.
     if list_ex (\<lambda>r. ef_id r = i \<and> (ef_fence r \<le> 0 \<or> ef_expires r = None)) (effects db)
     then (Inl ErrUnavailable, db)
     else (Inr (), update_effect i (start_row c) db))"

definition InsertAttempt :: "int \<Rightarrow> int \<Rightarrow> int \<Rightarrow> int \<Rightarrow> instant \<Rightarrow> unit eer_tx" where
  "InsertAttempt i num gen fen started = (\<lambda>db.
     if num \<le> 0 \<or> gen \<le> 0 \<or> fen \<le> 0 \<or>
        list_ex (\<lambda>a. at_effect a = i \<and> at_number a = num) (attempts db) \<or>
        list_ex (\<lambda>a. at_effect a = i \<and> at_generation a = gen \<and> at_fence a = fen) (attempts db)
     then (Inl ErrUnavailable, db)
     else (Inr (), db\<lparr>attempts := attempts db @
             [\<lparr>at_effect = i, at_number = num, at_generation = gen, at_fence = fen,
               at_started = started, at_completion = None, at_receipt = None,
               at_completed = None, at_reference = None, at_dispatched = False,
               at_real = False\<rparr>]\<rparr>))"

text \<open>The two completion statements; both close the open attempt of this number and generation.\<close>

definition open_attempt :: "int \<Rightarrow> int \<Rightarrow> int \<Rightarrow> attempt_row \<Rightarrow> bool" where
  "open_attempt i num gen a \<longleftrightarrow>
     at_effect a = i \<and> at_number a = num \<and> at_generation a = gen \<and> at_completion a = None"

definition q_CompleteAttempt ::
  "clock \<Rightarrow> int \<Rightarrow> int \<Rightarrow> int \<Rightarrow> completion \<Rightarrow> digest \<Rightarrow> unit eer_tx" where
  "q_CompleteAttempt c i num gen compl receipt = (\<lambda>db.
     if list_ex (open_attempt i num gen) (attempts db) \<and>
        (\<not> db_digest receipt \<or> completion_state compl = None)
     then (Inl ErrUnavailable, db)
     else (Inr (), db\<lparr>attempts := map (\<lambda>a. if open_attempt i num gen a
             then a\<lparr>at_completion := Some compl, at_receipt := Some receipt,
                    at_completed := Some (db_now c)\<rparr> else a) (attempts db)\<rparr>))"

definition CompleteChannelAcquisitionAssetAttempt ::
  "clock \<Rightarrow> int \<Rightarrow> int \<Rightarrow> int \<Rightarrow> completion \<Rightarrow> digest \<Rightarrow> digest option \<Rightarrow> bool \<Rightarrow> bool \<Rightarrow> unit eer_tx" where
  "CompleteChannelAcquisitionAssetAttempt c i num gen compl receipt reference dispatched real = (\<lambda>db.
     if list_ex (open_attempt i num gen) (attempts db) \<and>
        (\<not> db_digest receipt \<or> completion_state compl = None \<or>
         (case reference of None \<Rightarrow> False | Some d \<Rightarrow> \<not> db_digest d))
     then (Inl ErrUnavailable, db)
     else (Inr (), db\<lparr>attempts := map (\<lambda>a. if open_attempt i num gen a
             then a\<lparr>at_completion := Some compl, at_receipt := Some receipt,
                    at_reference := reference, at_dispatched := dispatched, at_real := real,
                    at_completed := Some (db_now c)\<rparr> else a) (attempts db)\<rparr>))"

definition MarkAttemptOutcomeUnknown :: "clock \<Rightarrow> int \<Rightarrow> int \<Rightarrow> digest \<Rightarrow> unit eer_tx" where
  "MarkAttemptOutcomeUnknown c i num receipt = (\<lambda>db.
     if list_ex (\<lambda>a. at_effect a = i \<and> at_number a = num) (attempts db) \<and> \<not> db_digest receipt
     then (Inl ErrUnavailable, db)
     else (Inr (), db\<lparr>attempts := map (\<lambda>a. if at_effect a = i \<and> at_number a = num
             then a\<lparr>at_completion := Some CompletionOutcomeUnknown, at_receipt := Some receipt,
                    at_completed := Some (db_now c)\<rparr> else a) (attempts db)\<rparr>))"

definition LockOpenAttempt :: "int \<Rightarrow> int \<Rightarrow> int \<Rightarrow> int eer_tx" where
  "LockOpenAttempt i gen fen = (\<lambda>db.
     case List.find (\<lambda>a. at_effect a = i \<and> at_generation a = gen \<and> at_fence a = fen \<and>
                         at_completion a = None) (attempts db)
     of None \<Rightarrow> (Inl ErrNotFound, db) | Some a \<Rightarrow> (Inr (at_number a), db))"

definition state_row :: "clock \<Rightarrow> eff_state \<Rightarrow> effect_row \<Rightarrow> effect_row" where
  "state_row c s r = r\<lparr>ef_state := s, ef_expires := None, ef_updated := db_now c\<rparr>"

definition UpdateEffectState :: "clock \<Rightarrow> int \<Rightarrow> eff_state \<Rightarrow> unit eer_tx" where
  "UpdateEffectState c i s = (\<lambda>db.
     if \<not> validState s then (Inl ErrUnavailable, db)
     else (Inr (), update_effect i (state_row c s) db))"

definition ReconcileAttempt :: "int \<Rightarrow> int \<Rightarrow> int \<Rightarrow> digest \<Rightarrow> unit eer_tx" where
  "ReconcileAttempt i gen fen evidence = (\<lambda>db.
     if gen \<le> 0 \<or> fen \<le> 0 \<or> \<not> db_digest evidence \<or>
        list_ex (\<lambda>n. rn_effect n = i \<and> rn_generation n = gen \<and> rn_fence n = fen) (recons db)
     then (Inl ErrUnavailable, db)
     else (Inr (), db\<lparr>recons := recons db @ [\<lparr>rn_effect = i, rn_generation = gen,
             rn_fence = fen, rn_evidence = evidence\<rparr>]\<rparr>))"

definition reconciled_row :: "clock \<Rightarrow> effect_row \<Rightarrow> effect_row" where
  "reconciled_row c r = r\<lparr>ef_state := StateReconciled, ef_updated := db_now c\<rparr>"

definition MarkEffectReconciled :: "clock \<Rightarrow> int \<Rightarrow> unit eer_tx" where
  "MarkEffectReconciled c i = (\<lambda>db. (Inr (), update_effect i (reconciled_row c) db))"

definition GetReceipt :: "receipt_op \<Rightarrow> int \<Rightarrow> digest \<Rightarrow> receipt_row option eer_tx" where
  "GetReceipt op i key = (\<lambda>db. (Inr (List.find
     (\<lambda>r. rr_operation r = op \<and> rr_effect r = i \<and> rr_key r = key) (receipts db)), db))"

definition GetAcceptReceipt :: "digest \<Rightarrow> receipt_row option eer_tx" where
  "GetAcceptReceipt key = (\<lambda>db. (Inr (List.find
     (\<lambda>r. rr_operation r = OpAccept \<and> rr_key r = key) (receipts db)), db))"

definition InsertReceipt ::
  "clock \<Rightarrow> receipt_op \<Rightarrow> int \<Rightarrow> digest \<Rightarrow> digest \<Rightarrow> eff_state \<Rightarrow> receipt_row eer_tx" where
  "InsertReceipt c op i key command st = (\<lambda>db.
     if \<not> db_digest key \<or> \<not> db_digest command \<or> \<not> validState st \<or>
        list_ex (\<lambda>r. rr_operation r = op \<and> rr_effect r = i \<and> rr_key r = key) (receipts db) \<or>
        list_ex (\<lambda>r. rr_operation r = op \<and> rr_command r = command) (receipts db)
     then (Inl ErrUnavailable, db)
     else (let row = \<lparr>rr_id = next_receipt db, rr_operation = op, rr_effect = i, rr_key = key,
                 rr_command = command, rr_state = st, rr_completed = db_now c\<rparr>
           in (Inr row, db\<lparr>receipts := receipts db @ [row], next_receipt := next_receipt db + 1\<rparr>)))"

section \<open>Row conversions and identifiers\<close>

definition formatID :: "int \<Rightarrow> string" where
  "formatID i = (if i < 1 then [] else ''eer_'' @ show_int i)"

definition parseID :: "string \<Rightarrow> eer_error + int" where
  "parseID v =
     (if take 4 v \<noteq> ''eer_'' then Inl ErrInvalidCommand
      else (case parse_int64 (drop 4 v) of
              None \<Rightarrow> Inl ErrInvalidCommand
            | Some i \<Rightarrow> if i < 1 then Inl ErrInvalidCommand else Inr i))"

definition projection :: "effect_row \<Rightarrow> Projection" where
  "projection r = \<lparr>proj_id = formatID (ef_id r), proj_owner = ef_owner r, proj_kind = ef_kind r,
     proj_state = ef_state r, proj_attempts = ef_attempts r, proj_generation = ef_generation r,
     proj_updated = ef_updated r\<rparr>"

definition receipt :: "receipt_row \<Rightarrow> OperationReceipt" where
  "receipt r = \<lparr>rcpt_id = ''eerop_'' @ show_int (rr_id r), rcpt_effect = formatID (rr_effect r),
     rcpt_command = rr_command r, rcpt_state = rr_state r, rcpt_completed = rr_completed r\<rparr>"

definition channelAcquisitionAssetTerminalEvidence :: "effect_row \<Rightarrow> bool" where
  "channelAcquisitionAssetTerminalEvidence r \<longleftrightarrow>
     ef_owner r = OwnerContact \<and> ef_kind r = KindContactAcquisitionAssetPublish"

definition nullableText :: "string \<Rightarrow> string option" where
  "nullableText v = (if v = [] then None else Some v)"

section \<open>Repository operations\<close>

definition store_accept ::
  "crypto_env \<Rightarrow> clock \<Rightarrow> AcceptCommand \<Rightarrow> (Projection \<times> OperationReceipt) eer_tx" where
  "store_accept E c cmd = within (
     let fp = Fingerprint E (acc_envelope cmd) in
     and_then (LockEffectByFingerprint fp) (\<lambda>existing.
     and_then (GetAcceptReceipt (acc_key cmd)) (\<lambda>found.
     case existing of
       Some row \<Rightarrow>
         (case found of
            Some got \<Rightarrow>
              (if rr_command got = accept_digest E cmd then ret (projection row, receipt got)
               else fail ErrPayloadMismatch)
          | None \<Rightarrow> fail ErrPayloadMismatch)
     | None \<Rightarrow>
         (case found of
            Some _ \<Rightarrow> fail ErrPayloadMismatch
          | None \<Rightarrow>
              and_then (CreateEffect c (acc_envelope cmd) fp) (\<lambda>row.
              and_then (InsertReceipt c OpAccept (ef_id row) (acc_key cmd) (accept_digest E cmd)
                          (ef_state row)) (\<lambda>rc.
              ret (projection row, receipt rc)))))))"

definition store_queue ::
  "clock \<Rightarrow> receipt_op \<Rightarrow> string \<Rightarrow> RiverJobLink \<Rightarrow> digest \<Rightarrow> digest \<Rightarrow> eff_state
     \<Rightarrow> (Projection \<times> OperationReceipt) eer_tx" where
  "store_queue c op eid job key command from_state = within (
     and_then (liftE (parseID eid)) (\<lambda>i.
     and_then (LockEffect i) (\<lambda>row.
     and_then (GetReceipt op i key) (\<lambda>found.
     case found of
       Some got \<Rightarrow>
         (if rr_command got \<noteq> command then fail ErrPayloadMismatch
          else ret (projection row, receipt got))
     | None \<Rightarrow>
         (if ef_state row \<noteq> from_state
          then fail (if op = OpRetry then ErrRetryForbidden else ErrInvalidTransition)
          else
            and_then (QueueEffect c i job) (\<lambda>_.
            and_then (LockEffect i) (\<lambda>row'.
            and_then (InsertReceipt c op i key command (ef_state row')) (\<lambda>rc.
            ret (projection row', receipt rc)))))))))"

definition store_Queue ::
  "crypto_env \<Rightarrow> clock \<Rightarrow> JobCommand \<Rightarrow> (Projection \<times> OperationReceipt) eer_tx" where
  "store_Queue E c cmd = store_queue c OpQueue (jc_effect cmd) (jc_job cmd) (jc_key cmd)
     (queue_digest E cmd) StateAccepted"

definition store_Retry ::
  "crypto_env \<Rightarrow> clock \<Rightarrow> JobCommand \<Rightarrow> (Projection \<times> OperationReceipt) eer_tx" where
  "store_Retry E c cmd = store_queue c OpRetry (jc_effect cmd) (jc_job cmd) (jc_key cmd)
     (retry_digest E cmd) StateRetryableFailed"

definition store_claim :: "clock \<Rightarrow> ClaimCommand \<Rightarrow> (Lease \<times> Projection) eer_tx" where
  "store_claim c cmd = within (
     and_then (liftE (parseID (claim_effect cmd))) (\<lambda>i.
     and_then (LockEffect i) (\<lambda>row.
     if ef_state row \<noteq> StateQueued then fail ErrLeaseFence
     else
       and_then (ClaimEffect c i) (\<lambda>_.
       and_then (LockEffect i) (\<lambda>row'.
       ret (\<lparr>lease_effect = claim_effect cmd, lease_generation = ef_generation row',
             lease_fence = ef_fence row', lease_expires = db_now c + lease_nanos\<rparr>,
            projection row'))))))"

definition store_cancel ::
  "crypto_env \<Rightarrow> clock \<Rightarrow> CancelCommand \<Rightarrow> (Projection \<times> OperationReceipt) eer_tx" where
  "store_cancel E c cmd = within (
     and_then (liftE (parseID (can_effect cmd))) (\<lambda>i.
     and_then (LockEffect i) (\<lambda>row.
     and_then (GetReceipt OpCancel i (can_key cmd)) (\<lambda>found.
     case found of
       Some got \<Rightarrow>
         (if rr_command got \<noteq> cancel_digest E cmd then fail ErrPayloadMismatch
          else ret (projection row, receipt got))
     | None \<Rightarrow>
         (if ef_state row \<noteq> StateAccepted \<and> ef_state row \<noteq> StateQueued then fail ErrCancelForbidden
          else
            and_then (CancelEffect c i) (\<lambda>_.
            and_then (LockEffect i) (\<lambda>row'.
            and_then (InsertReceipt c OpCancel i (can_key cmd) (cancel_digest E cmd) (ef_state row')) (\<lambda>rc.
            ret (projection row', receipt rc)))))))))"

definition store_persist_attempt ::
  "clock \<Rightarrow> Lease \<Rightarrow> (EffectEnvelope \<times> Attempt \<times> Projection) eer_tx" where
  "store_persist_attempt c l = within (
     and_then (liftE (parseID (lease_effect l))) (\<lambda>i.
     and_then (LockEffect i) (\<lambda>row.
     if ef_state row \<noteq> StateQueued \<or> ef_generation row \<noteq> lease_generation l \<or> ef_fence row \<noteq> lease_fence l
     then fail ErrLeaseFence
     else if (case ef_expires row of None \<Rightarrow> True | Some t \<Rightarrow> \<not> go_now c < t) then fail ErrLeaseExpired
     else
       and_then (StartAttempt c i) (\<lambda>_.
       and_then (LockEffect i) (\<lambda>started.
       and_then (InsertAttempt i (ef_attempts started) (lease_generation l) (lease_fence l)
                   (ef_updated started)) (\<lambda>_.
       and_then (LockEffect i) (\<lambda>row'.
       and_then (liftE (NewEnvelope \<lparr>in_owner = ef_owner row', in_kind = ef_kind row',
                   in_source = ef_source row', in_target = ef_target row',
                   in_payload = ef_payload row', in_policy = ef_policy row'\<rparr>)) (\<lambda>envelope.
       ret (envelope,
            \<lparr>att_number = ef_attempts started, att_generation = lease_generation l,
             att_fence = lease_fence l, att_started = ef_updated started\<rparr>,
            projection row')))))))))"

text \<open>The conversion \<^verbatim>\<open>State(result.Completion)\<close> of a completion outside the closed list.\<close>

definition state_of_text :: "string \<Rightarrow> eff_state" where
  "state_of_text s =
     (if s = ''accepted'' then StateAccepted else if s = ''queued'' then StateQueued
      else if s = ''attempted'' then StateAttempted else if s = ''executed'' then StateExecuted
      else if s = ''outcome_unknown'' then StateOutcomeUnknown
      else if s = ''reconciled'' then StateReconciled
      else if s = ''retryable_failed'' then StateRetryableFailed
      else if s = ''final_failed'' then StateFinalFailed
      else if s = ''cancelled'' then StateCancelled else OtherState s)"

definition terminal_state :: "AdapterResult \<Rightarrow> eff_state" where
  "terminal_state r =
     (case res_completion r of
        CompletionOutcomeUnknown \<Rightarrow> StateOutcomeUnknown
      | CompletionRetryableFailed \<Rightarrow> StateRetryableFailed
      | CompletionFinalFailed \<Rightarrow> StateFinalFailed
      | CompletionExecuted \<Rightarrow> StateExecuted
      | OtherCompletion s \<Rightarrow> state_of_text s)"

definition store_complete ::
  "clock \<Rightarrow> Lease \<Rightarrow> Attempt \<Rightarrow> AdapterResult \<Rightarrow> (Projection \<times> OperationReceipt) eer_tx" where
  "store_complete c l a r = within (
     and_then (liftE (parseID (lease_effect l))) (\<lambda>i.
     and_then (LockEffect i) (\<lambda>row.
     if ef_state row \<noteq> StateAttempted \<or> ef_generation row \<noteq> lease_generation l \<or> ef_fence row \<noteq> lease_fence l
     then fail ErrLeaseFence
     else
       and_then
         (if channelAcquisitionAssetTerminalEvidence row
          then CompleteChannelAcquisitionAssetAttempt c i (att_number a) (att_generation a)
                 (res_completion r) (res_receipt r) (nullableText (res_reference r))
                 (res_dispatched r) (res_real r)
          else q_CompleteAttempt c i (att_number a) (att_generation a) (res_completion r) (res_receipt r)) (\<lambda>_.
       and_then (UpdateEffectState c i (terminal_state r)) (\<lambda>_.
       and_then (LockEffect i) (\<lambda>row'.
       and_then (InsertReceipt c OpCompleteAttempt i (res_receipt r) (res_receipt r) (ef_state row')) (\<lambda>rc.
       ret (projection row', receipt rc))))))))"

definition store_reconcile ::
  "crypto_env \<Rightarrow> clock \<Rightarrow> ReconcileCommand \<Rightarrow> (Projection \<times> OperationReceipt) eer_tx" where
  "store_reconcile E c cmd = within (
     and_then (liftE (parseID (lease_effect (rec_lease cmd)))) (\<lambda>i.
     and_then (LockEffect i) (\<lambda>row.
     and_then (GetReceipt OpReconcile i (rec_key cmd)) (\<lambda>found.
     case found of
       Some got \<Rightarrow>
         (if rr_command got \<noteq> reconcile_digest E cmd then fail ErrPayloadMismatch
          else ret (projection row, receipt got))
     | None \<Rightarrow>
         (if ef_state row \<noteq> StateOutcomeUnknown \<or> ef_generation row \<noteq> lease_generation (rec_lease cmd) \<or>
             ef_fence row \<noteq> lease_fence (rec_lease cmd)
          then fail ErrReconcileRequired
          else
            and_then (ReconcileAttempt i (lease_generation (rec_lease cmd)) (lease_fence (rec_lease cmd))
                        (rec_evidence cmd)) (\<lambda>_.
            and_then (MarkEffectReconciled c i) (\<lambda>_.
            and_then (LockEffect i) (\<lambda>row'.
            and_then (InsertReceipt c OpReconcile i (rec_key cmd) (reconcile_digest E cmd) (ef_state row')) (\<lambda>rc.
            ret (projection row', receipt rc))))))))))"

definition store_recover ::
  "crypto_env \<Rightarrow> clock \<Rightarrow> Lease \<Rightarrow> (Projection \<times> OperationReceipt) eer_tx" where
  "store_recover E c l = within (
     and_then (liftE (parseID (lease_effect l))) (\<lambda>i.
     and_then (LockEffect i) (\<lambda>row.
     if ef_state row \<noteq> StateAttempted \<or> ef_generation row \<noteq> lease_generation l \<or>
        ef_fence row \<noteq> lease_fence l \<or>
        (case ef_expires row of None \<Rightarrow> True | Some t \<Rightarrow> go_now c < t)
     then fail ErrRecoveryForbidden
     else
       and_then (LockOpenAttempt i (lease_generation l) (lease_fence l)) (\<lambda>num.
       and_then
         (if channelAcquisitionAssetTerminalEvidence row
          then CompleteChannelAcquisitionAssetAttempt c i num (lease_generation l)
                 CompletionOutcomeUnknown (recover_digest E l) None False False
          else MarkAttemptOutcomeUnknown c i num (recover_digest E l)) (\<lambda>_.
       and_then (UpdateEffectState c i StateOutcomeUnknown) (\<lambda>_.
       and_then (LockEffect i) (\<lambda>row'.
       and_then (InsertReceipt c OpRecoverAttempted i (recover_digest E l) (recover_digest E l)
                   (ef_state row')) (\<lambda>rc.
       ret (projection row', receipt rc)))))))))"

section \<open>Reads\<close>

definition store_list :: "int \<Rightarrow> eer_db \<Rightarrow> eer_error + Projection list" where
  "store_list limit db =
     (if limit < 1 \<or> 100 < limit then Inl ErrInvalidCommand
      else Inr (map projection (take (nat limit) (rev (sort_key ef_id (effects db))))))"

definition store_get :: "string \<Rightarrow> eer_db \<Rightarrow> eer_error + Projection" where
  "store_get eid db =
     (case parseID eid of
        Inl _ \<Rightarrow> Inl ErrInvalidCommand
      | Inr i \<Rightarrow> (case find_effect i db of
            None \<Rightarrow> Inl ErrNotFound
          | Some r \<Rightarrow> Inr (projection r)))"

record Diagnostics =
  dg_accepted :: nat
  dg_queued :: nat
  dg_attempted :: nat
  dg_unknown :: nat
  dg_retryable :: nat

definition count_state :: "eff_state \<Rightarrow> eer_db \<Rightarrow> nat" where
  "count_state s db = length (filter (\<lambda>r. ef_state r = s) (effects db))"

definition store_diagnostics :: "eer_db \<Rightarrow> Diagnostics" where
  "store_diagnostics db = \<lparr>dg_accepted = count_state StateAccepted db,
     dg_queued = count_state StateQueued db, dg_attempted = count_state StateAttempted db,
     dg_unknown = count_state StateOutcomeUnknown db,
     dg_retryable = count_state StateRetryableFailed db\<rparr>"

record TerminalOutcome =
  to_effect :: string
  to_owner :: owner
  to_kind :: kind
  to_state :: eff_state
  to_receipt_id :: string
  to_receipt :: digest
  to_reference :: digest
  to_dispatched :: bool
  to_real :: bool
  to_generation :: int
  to_fence :: int
  to_expires :: instant

text \<open>The lateral join picks the completed attempt with the highest number.\<close>

definition last_completed :: "int \<Rightarrow> eer_db \<Rightarrow> attempt_row option" where
  "last_completed i db =
     (case rev (sort_key at_number
             (filter (\<lambda>a. at_effect a = i \<and> at_completion a \<noteq> None) (attempts db)))
      of [] \<Rightarrow> None | a # _ \<Rightarrow> Some a)"

definition terminal_row_state :: "eff_state \<Rightarrow> bool" where
  "terminal_row_state s \<longleftrightarrow> s \<in> {StateExecuted, StateOutcomeUnknown, StateReconciled,
     StateRetryableFailed, StateFinalFailed}"

definition store_terminal_outcome :: "string \<Rightarrow> eer_db \<Rightarrow> eer_error + TerminalOutcome" where
  "store_terminal_outcome eid db =
     (case parseID eid of
        Inl e \<Rightarrow> Inl e
      | Inr i \<Rightarrow>
          (case (find_effect i db, last_completed i db) of
             (Some r, Some a) \<Rightarrow>
               (case (terminal_row_state (ef_state r),
                      List.find (\<lambda>x. rr_effect x = i \<and> Some (rr_key x) = at_receipt a \<and>
                        (rr_operation x = OpCompleteAttempt \<or> rr_operation x = OpRecoverAttempted))
                        (receipts db)) of
                  (True, Some rc) \<Rightarrow>
                    (let evidence = channelAcquisitionAssetTerminalEvidence r in
                     Inr \<lparr>to_effect = eid, to_owner = ef_owner r, to_kind = ef_kind r,
                       to_state = ef_state r, to_receipt_id = ''eerop_'' @ show_int (rr_id rc),
                       to_receipt = (case at_receipt a of None \<Rightarrow> [] | Some d \<Rightarrow> d),
                       to_reference = (if evidence then
                          (case at_reference a of None \<Rightarrow> [] | Some d \<Rightarrow> d) else []),
                       to_dispatched = (evidence \<and> at_dispatched a),
                       to_real = (evidence \<and> at_real a),
                       to_generation = at_generation a, to_fence = at_fence a,
                       to_expires = (case at_completed a of None \<Rightarrow> 0 | Some t \<Rightarrow> t)\<rparr>)
                | _ \<Rightarrow> Inl ErrNotFound)
           | _ \<Rightarrow> Inl ErrNotFound))"

end
