(* ===== verification/EffectService.thy ===== *)
theory EffectService
  imports EffectStore
begin

text \<open>
  The runtime service (\<^verbatim>\<open>Service\<close> in \<^verbatim>\<open>internal/externaleffects/runtime.go\<close>) over its
  \<^verbatim>\<open>Store\<close> interface, and the operator boundary in front of it
  (\<^verbatim>\<open>internal/externaleffects/app/service.go\<close>).

  The interface is a record of operations over an abstract store type, so the same service
  runs on any store; \<open>pg_store\<close> is the PostgreSQL one. Each operation takes the
  clocks it reads. A result that the service rejects after the store has committed leaves the
  committed store behind, as in the code.
\<close>

section \<open>The Store interface\<close>

record 's store_ops =
  so_accept :: "clock \<Rightarrow> AcceptCommand \<Rightarrow> ('s, eer_error, Projection \<times> OperationReceipt) tx"
  so_queue :: "clock \<Rightarrow> JobCommand \<Rightarrow> ('s, eer_error, Projection \<times> OperationReceipt) tx"
  so_claim :: "clock \<Rightarrow> ClaimCommand \<Rightarrow> ('s, eer_error, Lease \<times> Projection) tx"
  so_retry :: "clock \<Rightarrow> JobCommand \<Rightarrow> ('s, eer_error, Projection \<times> OperationReceipt) tx"
  so_cancel :: "clock \<Rightarrow> CancelCommand \<Rightarrow> ('s, eer_error, Projection \<times> OperationReceipt) tx"
  so_persist :: "clock \<Rightarrow> Lease \<Rightarrow> ('s, eer_error, EffectEnvelope \<times> Attempt \<times> Projection) tx"
  so_complete :: "clock \<Rightarrow> Lease \<Rightarrow> Attempt \<Rightarrow> AdapterResult \<Rightarrow>
                    ('s, eer_error, Projection \<times> OperationReceipt) tx"
  so_reconcile :: "clock \<Rightarrow> ReconcileCommand \<Rightarrow> ('s, eer_error, Projection \<times> OperationReceipt) tx"
  so_recover :: "clock \<Rightarrow> Lease \<Rightarrow> ('s, eer_error, Projection \<times> OperationReceipt) tx"

definition pg_store :: "crypto_env \<Rightarrow> eer_db store_ops" where
  "pg_store E = \<lparr>so_accept = store_accept E, so_queue = store_Queue E, so_claim = store_claim,
     so_retry = store_Retry E, so_cancel = store_cancel E, so_persist = store_persist_attempt,
     so_complete = store_complete, so_reconcile = store_reconcile E, so_recover = store_recover E\<rparr>"

section \<open>Service operations\<close>

definition svc_accept ::
  "crypto_env \<Rightarrow> 's store_ops \<Rightarrow> clock \<Rightarrow> AcceptCommand \<Rightarrow>
     ('s, eer_error, Projection \<times> OperationReceipt) tx" where
  "svc_accept E S c cmd =
     (if accept_digest E cmd = [] then fail ErrInvalidCommand
      else and_then (so_accept S c cmd) (\<lambda>(p, r).
        if \<not> projection_valid p \<or> \<not> receipt_validFor r (proj_id p) (accept_digest E cmd)
        then fail ErrInvalidCommand else ret (p, r)))"

definition svc_queue ::
  "crypto_env \<Rightarrow> 's store_ops \<Rightarrow> clock \<Rightarrow> JobCommand \<Rightarrow>
     ('s, eer_error, Projection \<times> OperationReceipt) tx" where
  "svc_queue E S c cmd =
     (if queue_digest E cmd = [] then fail ErrInvalidCommand
      else and_then (so_queue S c cmd) (\<lambda>(p, r).
        if \<not> projection_valid p \<or> proj_id p \<noteq> jc_effect cmd \<or>
           \<not> receipt_validFor r (jc_effect cmd) (queue_digest E cmd)
        then fail ErrInvalidTransition else ret (p, r)))"

definition svc_claim ::
  "'s store_ops \<Rightarrow> instant \<Rightarrow> clock \<Rightarrow> ClaimCommand \<Rightarrow> ('s, eer_error, Lease \<times> Projection) tx" where
  "svc_claim S now c cmd =
     (if claim_effect cmd = [] \<or> \<not> validDigest (claim_worker cmd) then fail ErrInvalidCommand
      else and_then (so_claim S c cmd) (\<lambda>(l, p).
        if \<not> lease_valid l now \<or> lease_effect l \<noteq> claim_effect cmd \<or> \<not> projection_valid p \<or>
           proj_id p \<noteq> claim_effect cmd \<or> proj_state p \<noteq> StateQueued \<or>
           proj_generation p \<noteq> lease_generation l
        then fail ErrLeaseFence else ret (l, p)))"

definition svc_retry ::
  "crypto_env \<Rightarrow> 's store_ops \<Rightarrow> clock \<Rightarrow> JobCommand \<Rightarrow>
     ('s, eer_error, Projection \<times> OperationReceipt) tx" where
  "svc_retry E S c cmd =
     (if retry_digest E cmd = [] then fail ErrInvalidCommand
      else and_then (so_retry S c cmd) (\<lambda>(p, r).
        if \<not> projection_valid p \<or> proj_id p \<noteq> jc_effect cmd \<or> proj_state p \<noteq> StateQueued \<or>
           \<not> receipt_validFor r (jc_effect cmd) (retry_digest E cmd)
        then fail ErrRetryForbidden else ret (p, r)))"

definition svc_cancel ::
  "crypto_env \<Rightarrow> 's store_ops \<Rightarrow> clock \<Rightarrow> CancelCommand \<Rightarrow>
     ('s, eer_error, Projection \<times> OperationReceipt) tx" where
  "svc_cancel E S c cmd =
     (if cancel_digest E cmd = [] then fail ErrInvalidCommand
      else and_then (so_cancel S c cmd) (\<lambda>(p, r).
        if \<not> projection_valid p \<or> proj_id p \<noteq> can_effect cmd \<or> proj_state p \<noteq> StateCancelled \<or>
           \<not> receipt_validFor r (can_effect cmd) (cancel_digest E cmd)
        then fail ErrCancelForbidden else ret (p, r)))"

text \<open>
  \<open>svc_run_attempt\<close> is the two-phase attempt. Between the phases the adapter runs
  outside any transaction, and other workers may change the store: \<open>mid\<close> is whatever they
  do. The adapter returns a result together with the fact that it returned an error.
\<close>

definition normalized_result ::
  "crypto_env \<Rightarrow> Lease \<Rightarrow> Attempt \<Rightarrow> AdapterResult \<Rightarrow> bool \<Rightarrow> AdapterResult" where
  "normalized_result E l a result failed =
     (if failed \<or> \<not> result_valid result
      then \<lparr>res_completion = CompletionOutcomeUnknown, res_receipt = unknownReceiptDigest E l a,
            res_reference = [], res_dispatched = res_dispatched result,
            res_real = (res_real result \<and> res_dispatched result)\<rparr>
      else result)"

definition svc_run_attempt ::
  "crypto_env \<Rightarrow> 's store_ops \<Rightarrow> instant \<Rightarrow> clock \<Rightarrow> clock \<Rightarrow> Lease \<Rightarrow>
     (EffectEnvelope \<Rightarrow> Attempt \<Rightarrow> AdapterResult \<times> bool) \<Rightarrow> ('s \<Rightarrow> 's) \<Rightarrow>
     ('s, eer_error, Projection \<times> OperationReceipt \<times> eer_error option) tx" where
  "svc_run_attempt E S now c c' l adapter mid =
     (if \<not> lease_validFields l then fail ErrInvalidCommand
      else if \<not> now < lease_expires l then fail ErrLeaseExpired
      else and_then (so_persist S c l) (\<lambda>(envelope, attempt, attempted).
        if \<not> envelope_valid envelope \<or> \<not> attempt_validFor attempt l \<or>
           \<not> projection_valid attempted \<or> proj_id attempted \<noteq> lease_effect l \<or>
           proj_state attempted \<noteq> StateAttempted
        then fail ErrLeaseFence
        else
          (let (result, failed) = adapter envelope attempt;
               final = normalized_result E l attempt result failed
           in and_then (\<lambda>s. (Inr (), mid s)) (\<lambda>_.
              and_then (so_complete S c' l attempt final) (\<lambda>(p, r).
                if \<not> projection_valid p \<or> proj_id p \<noteq> lease_effect l \<or>
                   Some (proj_state p) \<noteq> completion_state (res_completion final) \<or>
                   \<not> receipt_validFor r (lease_effect l) (res_receipt final)
                then fail ErrInvalidTransition
                else ret (p, r,
                  if failed then Some ErrAdapterFailure
                  else if \<not> result_valid result then Some ErrInvalidAdapterResult
                  else None))))))"

definition svc_complete_recorded ::
  "'s store_ops \<Rightarrow> instant \<Rightarrow> clock \<Rightarrow> CompleteRecordedAttemptCommand \<Rightarrow>
     ('s, eer_error, Projection \<times> OperationReceipt) tx" where
  "svc_complete_recorded S now c cmd =
     (if \<not> complete_recorded_valid cmd now then fail ErrInvalidCommand
      else and_then (so_complete S c (cra_lease cmd) (cra_attempt cmd) (cra_result cmd)) (\<lambda>(p, r).
        if \<not> projection_valid p \<or> proj_id p \<noteq> lease_effect (cra_lease cmd) \<or>
           proj_state p \<noteq> StateExecuted \<or>
           \<not> receipt_validFor r (lease_effect (cra_lease cmd)) (res_receipt (cra_result cmd))
        then fail ErrInvalidTransition else ret (p, r)))"

definition svc_reconcile ::
  "crypto_env \<Rightarrow> 's store_ops \<Rightarrow> clock \<Rightarrow> ReconcileCommand \<Rightarrow>
     ('s, eer_error, Projection \<times> OperationReceipt) tx" where
  "svc_reconcile E S c cmd =
     (if reconcile_digest E cmd = [] then fail ErrInvalidCommand
      else and_then (so_reconcile S c cmd) (\<lambda>(p, r).
        if \<not> projection_valid p \<or> proj_id p \<noteq> lease_effect (rec_lease cmd) \<or>
           proj_state p \<noteq> StateReconciled \<or>
           \<not> receipt_validFor r (lease_effect (rec_lease cmd)) (reconcile_digest E cmd)
        then fail ErrReconcileRequired else ret (p, r)))"

definition svc_recover ::
  "crypto_env \<Rightarrow> 's store_ops \<Rightarrow> instant \<Rightarrow> clock \<Rightarrow> Lease \<Rightarrow>
     ('s, eer_error, Projection \<times> OperationReceipt) tx" where
  "svc_recover E S now c l =
     (if recover_digest E l = [] then fail ErrInvalidCommand
      else if now < lease_expires l then fail ErrRecoveryForbidden
      else and_then (so_recover S c l) (\<lambda>(p, r).
        if \<not> projection_valid p \<or> proj_id p \<noteq> lease_effect l \<or> proj_state p \<noteq> StateOutcomeUnknown \<or>
           \<not> receipt_validFor r (lease_effect l) (recover_digest E l)
        then fail ErrRecoveryForbidden else ret (p, r)))"

section \<open>The operator boundary\<close>

fun typedDomainControlRequired :: "owner \<Rightarrow> kind \<Rightarrow> bool" where
  "typedDomainControlRequired OwnerOutbound k = (k = KindOutboundMessage \<or> k = KindOutboundMedia)"
| "typedDomainControlRequired OwnerContact k = (k = KindContactAcquisitionAssetPublish)"
| "typedDomainControlRequired OwnerWeCom k = (k = KindWeComTagSync)"
| "typedDomainControlRequired OwnerSurvey k = (k = KindSurveyWebhook)"
| "typedDomainControlRequired OwnerOrder k = (k = KindOrderPaymentPrepay \<or> k = KindOrderRefund)"
| "typedDomainControlRequired OwnerGroupOps k = (k = KindGroupOpsBroadcast)"
| "typedDomainControlRequired OwnerMedia k = (k = KindMediaWeComUpload)"
| "typedDomainControlRequired OwnerProduct k = (k = KindProductExternalPushTest)"
| "typedDomainControlRequired _ k = False"

text \<open>\<open>get\<close> is the reader's \<^verbatim>\<open>Get\<close> on the store.\<close>

definition rejectTypedDomainMutation ::
  "(string \<Rightarrow> 's \<Rightarrow> eer_error + Projection) \<Rightarrow> string \<Rightarrow> ('s, eer_error, unit) tx" where
  "rejectTypedDomainMutation get eid = (\<lambda>s.
     (if eid = [] then Inl ErrInvalidCommand
      else (case get eid s of
              Inl e \<Rightarrow> Inl e
            | Inr p \<Rightarrow>
                if proj_id p \<noteq> eid then Inl ErrUnavailable
                else if \<not> validOwnerKind (proj_owner p) (proj_kind p) then Inl ErrUnavailable
                else if typedDomainControlRequired (proj_owner p) (proj_kind p)
                then Inl ErrReconcileRequired
                else Inr ()), s))"

definition app_cancel ::
  "crypto_env \<Rightarrow> 's store_ops \<Rightarrow> (string \<Rightarrow> 's \<Rightarrow> eer_error + Projection) \<Rightarrow> clock \<Rightarrow>
     CancelCommand \<Rightarrow> ('s, eer_error, Projection \<times> OperationReceipt) tx" where
  "app_cancel E S get c cmd =
     and_then (rejectTypedDomainMutation get (can_effect cmd)) (\<lambda>_. svc_cancel E S c cmd)"

definition app_retry ::
  "crypto_env \<Rightarrow> 's store_ops \<Rightarrow> (string \<Rightarrow> 's \<Rightarrow> eer_error + Projection) \<Rightarrow> clock \<Rightarrow>
     JobCommand \<Rightarrow> ('s, eer_error, Projection \<times> OperationReceipt) tx" where
  "app_retry E S get c cmd =
     and_then (rejectTypedDomainMutation get (jc_effect cmd)) (\<lambda>_. svc_retry E S c cmd)"

definition app_reconcile ::
  "crypto_env \<Rightarrow> 's store_ops \<Rightarrow> (string \<Rightarrow> 's \<Rightarrow> eer_error + Projection) \<Rightarrow> clock \<Rightarrow>
     ReconcileCommand \<Rightarrow> ('s, eer_error, Projection \<times> OperationReceipt) tx" where
  "app_reconcile E S get c cmd =
     and_then (rejectTypedDomainMutation get (lease_effect (rec_lease cmd))) (\<lambda>_. svc_reconcile E S c cmd)"

definition app_list :: "(int \<Rightarrow> 's \<Rightarrow> eer_error + Projection list) \<Rightarrow> int \<Rightarrow> 's \<Rightarrow>
     eer_error + Projection list" where
  "app_list reader limit s =
     (if limit < 1 \<or> 100 < limit then Inl ErrInvalidCommand else reader limit s)"

end
