(* ===== verification/EffectSpec.thy ===== *)
theory EffectSpec
  imports EffectService
begin

text \<open>
  What the runtime promises of one effect, as an abstract machine, and the interface
  contract that carries it through the service.

  An abstract effect is its state, its generation, its lease fence and the list of
  generations in which an attempt was started; an attempt is started right before the
  provider is called, so that list bounds the provider calls. \<open>effect_step\<close> lists the
  moves a store may make. The locale \<open>effect_store\<close> is the contract of the
  \<^verbatim>\<open>Store\<close> interface: every operation makes at most such moves. The lemmas inside it
  hold for every service call and for every interleaving of calls, on any store that
  satisfies the contract.
\<close>

section \<open>The abstract machine\<close>

record abs_effect =
  a_state :: eff_state
  a_generation :: int
  a_fence :: int
  a_runs :: "int list"

definition new_effect :: abs_effect where
  "new_effect = \<lparr>a_state = StateAccepted, a_generation = 1, a_fence = 0, a_runs = []\<rparr>"

inductive effect_step :: "abs_effect \<Rightarrow> abs_effect \<Rightarrow> bool" where
  queue: "a_state a = StateAccepted \<or> a_state a = StateRetryableFailed \<Longrightarrow>
    effect_step a (a\<lparr>a_state := StateQueued, a_generation := a_generation a + 1, a_fence := 0\<rparr>)"
| claim: "a_state a = StateQueued \<Longrightarrow> effect_step a (a\<lparr>a_fence := a_fence a + 1\<rparr>)"
| cancel: "a_state a = StateAccepted \<or> a_state a = StateQueued \<Longrightarrow>
    effect_step a (a\<lparr>a_state := StateCancelled\<rparr>)"
| start: "a_state a = StateQueued \<Longrightarrow>
    effect_step a (a\<lparr>a_state := StateAttempted, a_runs := a_runs a @ [a_generation a]\<rparr>)"
| complete: "a_state a = StateAttempted \<Longrightarrow>
    s = StateExecuted \<or> s = StateRetryableFailed \<or> s = StateFinalFailed \<or> s = StateOutcomeUnknown \<Longrightarrow>
    effect_step a (a\<lparr>a_state := s\<rparr>)"
| reconcile: "a_state a = StateOutcomeUnknown \<Longrightarrow> effect_step a (a\<lparr>a_state := StateReconciled\<rparr>)"

inductive_cases effect_stepE: "effect_step a b"

lemma effect_step_transition:
  "effect_step a b \<Longrightarrow> a_state b = a_state a \<or> CanTransition (a_state a) (a_state b)"
  by (induction rule: effect_step.induct) auto

lemma effect_step_fence:
  "effect_step a b \<Longrightarrow>
     a_generation a < a_generation b \<or> (a_generation a = a_generation b \<and> a_fence a \<le> a_fence b)"
  by (induction rule: effect_step.induct) auto

text \<open>
  The invariant behind "at most one attempt per generation": no attempt belongs to a later
  generation, and while an effect waits (accepted, queued) or is cancelled, its current
  generation has not been attempted.
\<close>

definition waiting :: "eff_state \<Rightarrow> bool" where
  "waiting s \<longleftrightarrow> s = StateAccepted \<or> s = StateQueued \<or> s = StateCancelled"

definition runs_inv :: "abs_effect \<Rightarrow> bool" where
  "runs_inv a \<longleftrightarrow>
     distinct (a_runs a) \<and> (\<forall>g \<in> set (a_runs a). g \<le> a_generation a) \<and>
     (waiting (a_state a) \<longrightarrow> a_generation a \<notin> set (a_runs a)) \<and>
     (a_state a = StateAccepted \<longrightarrow> a_runs a = [])"

lemma runs_inv_new: "runs_inv new_effect"
  by (simp add: runs_inv_def new_effect_def waiting_def)

lemma runs_inv_step: "effect_step a b \<Longrightarrow> runs_inv a \<Longrightarrow> runs_inv b"
  by (induction rule: effect_step.induct) (auto simp: runs_inv_def waiting_def)

text \<open>An unknown outcome is never attempted again: it stays unknown or is reconciled.\<close>

definition settled :: "abs_effect \<Rightarrow> abs_effect \<Rightarrow> bool" where
  "settled a b \<longleftrightarrow>
     (a_state a = StateOutcomeUnknown \<or> a_state a = StateReconciled \<longrightarrow>
        (a_state b = StateOutcomeUnknown \<or> a_state b = StateReconciled) \<and>
        a_runs b = a_runs a \<and> a_generation b = a_generation a) \<and>
     (a_state a \<in> {StateExecuted, StateFinalFailed, StateCancelled, StateReconciled} \<longrightarrow> b = a)"

lemma settled_step: "effect_step a b \<Longrightarrow> settled a b"
  by (auto simp: settled_def elim!: effect_stepE)

lemma settled_trans: "settled a b \<Longrightarrow> settled b c \<Longrightarrow> settled a c"
  by (auto simp: settled_def)

lemma settled_refl: "settled a a"
  by (auto simp: settled_def)

section \<open>Views of a whole store\<close>

type_synonym effect_view = "int \<Rightarrow> abs_effect option"

definition view_step :: "effect_view \<Rightarrow> effect_view \<Rightarrow> bool" where
  "view_step V W \<longleftrightarrow>
     (\<forall>i. W i = V i \<or> (V i = None \<and> W i = Some new_effect) \<or>
          (\<exists>a b. V i = Some a \<and> W i = Some b \<and> effect_step a b))"

lemma view_step_refl [simp]: "view_step V V"
  by (simp add: view_step_def)

lemma view_step_at:
  assumes "V i = Some a" and "effect_step a b"
  shows "view_step V (V(i \<mapsto> b))"
  using assms by (auto simp: view_step_def)

lemma view_step_Some:
  assumes "view_step V W" and "V i = Some a"
  obtains b where "W i = Some b" and "b = a \<or> effect_step a b"
  using assms by (force simp: view_step_def)

definition view_inv :: "effect_view \<Rightarrow> bool" where
  "view_inv V \<longleftrightarrow> (\<forall>i a. V i = Some a \<longrightarrow> runs_inv a)"

lemma view_inv_step: "view_step V W \<Longrightarrow> view_inv V \<Longrightarrow> view_inv W"
  unfolding view_step_def view_inv_def
  by (metis option.inject option.distinct(1) runs_inv_new runs_inv_step)

section \<open>Service calls and their interleavings\<close>

text \<open>
  One committed step of the service. \<^verbatim>\<open>RunAttempt\<close> is two of them, \<open>CallPersist\<close> and
  \<open>CallComplete\<close>, because other workers may commit in between. The result handed to the
  completing step is the normalised one, hence one of the four completions.
\<close>

datatype svc_call =
    CallAccept clock AcceptCommand
  | CallQueue clock JobCommand
  | CallClaim instant clock ClaimCommand
  | CallRetry clock JobCommand
  | CallCancel clock CancelCommand
  | CallPersist clock Lease
  | CallComplete clock Lease Attempt AdapterResult
  | CallCompleteRecorded instant clock CompleteRecordedAttemptCommand
  | CallReconcile clock ReconcileCommand
  | CallRecover instant clock Lease

fun svc_exec :: "crypto_env \<Rightarrow> 's store_ops \<Rightarrow> svc_call \<Rightarrow> 's \<Rightarrow> 's" where
  "svc_exec E S (CallAccept c cmd) s = snd (svc_accept E S c cmd s)"
| "svc_exec E S (CallQueue c cmd) s = snd (svc_queue E S c cmd s)"
| "svc_exec E S (CallClaim now c cmd) s = snd (svc_claim S now c cmd s)"
| "svc_exec E S (CallRetry c cmd) s = snd (svc_retry E S c cmd s)"
| "svc_exec E S (CallCancel c cmd) s = snd (svc_cancel E S c cmd s)"
| "svc_exec E S (CallPersist c l) s = snd (so_persist S c l s)"
| "svc_exec E S (CallComplete c l a r) s =
     (if completion_state (res_completion r) = None then s else snd (so_complete S c l a r s))"
| "svc_exec E S (CallCompleteRecorded now c cmd) s = snd (svc_complete_recorded S now c cmd s)"
| "svc_exec E S (CallReconcile c cmd) s = snd (svc_reconcile E S c cmd s)"
| "svc_exec E S (CallRecover now c l) s = snd (svc_recover E S now c l s)"

fun svc_run :: "crypto_env \<Rightarrow> 's store_ops \<Rightarrow> svc_call list \<Rightarrow> 's \<Rightarrow> 's" where
  "svc_run E S [] s = s"
| "svc_run E S (c # cs) s = svc_run E S cs (svc_exec E S c s)"

lemma svc_run_append: "svc_run E S (xs @ ys) s = svc_run E S ys (svc_run E S xs s)"
  by (induction xs arbitrary: s) auto

lemma normalized_completes:
  "\<exists>s. completion_state (res_completion (normalized_result E l a res failed)) = Some s"
  by (cases "failed \<or> \<not> result_valid res") (auto simp: normalized_result_def result_valid_def)

section \<open>The contract of the Store interface\<close>

locale effect_store =
  fixes S :: "'s store_ops" and view :: "'s \<Rightarrow> effect_view" and ok :: "'s \<Rightarrow> bool"
  assumes accept_law: "ok s \<Longrightarrow> so_accept S c cmd s = (r, s') \<Longrightarrow> ok s' \<and> view_step (view s) (view s')"
    and queue_law: "ok s \<Longrightarrow> so_queue S c jcmd s = (r, s') \<Longrightarrow> ok s' \<and> view_step (view s) (view s')"
    and claim_law: "ok s \<Longrightarrow> so_claim S c ccmd s = (r', s') \<Longrightarrow> ok s' \<and> view_step (view s) (view s')"
    and retry_law: "ok s \<Longrightarrow> so_retry S c jcmd s = (r, s') \<Longrightarrow> ok s' \<and> view_step (view s) (view s')"
    and cancel_law: "ok s \<Longrightarrow> so_cancel S c xcmd s = (r, s') \<Longrightarrow> ok s' \<and> view_step (view s) (view s')"
    and persist_law: "ok s \<Longrightarrow> so_persist S c l s = (r'', s') \<Longrightarrow> ok s' \<and> view_step (view s) (view s')"
    and complete_law: "ok s \<Longrightarrow> completion_state (res_completion res) \<noteq> None \<Longrightarrow>
          so_complete S c l a res s = (r, s') \<Longrightarrow> ok s' \<and> view_step (view s) (view s')"
    and reconcile_law: "ok s \<Longrightarrow> so_reconcile S c rcmd s = (r, s') \<Longrightarrow> ok s' \<and> view_step (view s) (view s')"
    and recover_law: "ok s \<Longrightarrow> so_recover S c l s = (r, s') \<Longrightarrow> ok s' \<and> view_step (view s) (view s')"
begin

lemma snd_and_then_checked:
  "(\<And>v s. snd (k v s) = s) \<Longrightarrow> snd (and_then m k s) = snd (m s)"
  by (auto simp: and_then_def split: prod.splits sum.splits)

lemma op_steps:
  assumes "ok s"
  shows "ok (snd (so_accept S c cmd s)) \<and> view_step (view s) (view (snd (so_accept S c cmd s)))"
    and "ok (snd (so_queue S c jcmd s)) \<and> view_step (view s) (view (snd (so_queue S c jcmd s)))"
    and "ok (snd (so_claim S c ccmd s)) \<and> view_step (view s) (view (snd (so_claim S c ccmd s)))"
    and "ok (snd (so_retry S c jcmd s)) \<and> view_step (view s) (view (snd (so_retry S c jcmd s)))"
    and "ok (snd (so_cancel S c xcmd s)) \<and> view_step (view s) (view (snd (so_cancel S c xcmd s)))"
    and "ok (snd (so_persist S c l s)) \<and> view_step (view s) (view (snd (so_persist S c l s)))"
    and "completion_state (res_completion res) \<noteq> None \<Longrightarrow>
          ok (snd (so_complete S c l a res s)) \<and> view_step (view s) (view (snd (so_complete S c l a res s)))"
    and "ok (snd (so_reconcile S c rcmd s)) \<and> view_step (view s) (view (snd (so_reconcile S c rcmd s)))"
    and "ok (snd (so_recover S c l s)) \<and> view_step (view s) (view (snd (so_recover S c l s)))"
  by (rule accept_law queue_law claim_law retry_law cancel_law persist_law complete_law
        reconcile_law recover_law; (rule assms surjective_pairing | assumption))+

lemma svc_exec_step:
  assumes "ok s"
  shows "ok (svc_exec E S call s) \<and> view_step (view s) (view (svc_exec E S call s))"
proof (cases call)
  case (CallCompleteRecorded now c cmd)
  then have "svc_exec E S call s =
      (if complete_recorded_valid cmd now
       then snd (so_complete S c (cra_lease cmd) (cra_attempt cmd) (cra_result cmd) s) else s)"
    by (simp add: svc_complete_recorded_def snd_and_then_checked split: prod.splits)
  moreover have "complete_recorded_valid cmd now \<Longrightarrow>
      completion_state (res_completion (cra_result cmd)) \<noteq> None"
    by (auto simp: complete_recorded_valid_def result_valid_def)
  ultimately show ?thesis using assms op_steps(7) by auto
qed (use assms op_steps in \<open>auto simp: svc_accept_def svc_queue_def svc_claim_def svc_retry_def
       svc_cancel_def svc_reconcile_def svc_recover_def snd_and_then_checked split: prod.splits\<close>)

lemma svc_run_ok: "ok s \<Longrightarrow> ok (svc_run E S calls s)"
  by (induction calls arbitrary: s) (auto simp: svc_exec_step)

lemma svc_run_view_inv:
  "ok s \<Longrightarrow> view_inv (view s) \<Longrightarrow> view_inv (view (svc_run E S calls s))"
proof (induction calls arbitrary: s)
  case (Cons call calls)
  then show ?case using svc_exec_step view_inv_step by (metis svc_run.simps(2))
qed simp

lemma svc_run_settled:
  assumes "ok s" and "view s i = Some a"
  shows "\<exists>b. view (svc_run E S calls s) i = Some b \<and> settled a b"
  using assms
proof (induction calls arbitrary: s a)
  case Nil
  then show ?case using settled_refl by auto
next
  case (Cons call calls)
  have step: "ok (svc_exec E S call s)" "view_step (view s) (view (svc_exec E S call s))"
    using svc_exec_step Cons.prems(1) by blast+
  obtain b where b: "view (svc_exec E S call s) i = Some b" "b = a \<or> effect_step a b"
    using view_step_Some [OF step(2) Cons.prems(2)] by blast
  then have "settled a b" using settled_step settled_refl by auto
  with Cons.IH [OF step(1) b(1)] show ?case
    by (auto intro: settled_trans)
qed

text \<open>
  An attempt run with other calls in between is a run of calls: the adapter is reached at
  most once, after the persisting step and before the completing one.
\<close>

lemma snd_svc_run_attempt:
  "snd (svc_run_attempt E S now c c' l adapter mid s) =
     (if \<not> lease_validFields l \<or> \<not> now < lease_expires l then s
      else (case so_persist S c l s of
          (Inl e, s1) \<Rightarrow> s1
        | (Inr (envelope, attempt, attempted), s1) \<Rightarrow>
            if \<not> envelope_valid envelope \<or> \<not> attempt_validFor attempt l \<or>
               \<not> projection_valid attempted \<or> proj_id attempted \<noteq> lease_effect l \<or>
               proj_state attempted \<noteq> StateAttempted
            then s1
            else snd (so_complete S c' l attempt (normalized_result E l attempt
                   (fst (adapter envelope attempt)) (snd (adapter envelope attempt))) (mid s1))))"
proof -
  obtain x s1 where x: "so_persist S c l s = (x, s1)" by fastforce
  show ?thesis
  proof (cases x)
    case (Inl e)
    with x show ?thesis by (simp add: svc_run_attempt_def)
  next
    case (Inr v)
    obtain envelope attempt attempted where v: "v = (envelope, attempt, attempted)"
      by (cases v) auto
    obtain result failed where ad: "adapter envelope attempt = (result, failed)" by fastforce
    show ?thesis
      unfolding svc_run_attempt_def using x Inr v ad
      by (simp add: and_then_def [of "\<lambda>s. (Inr (), mid s)"] Let_def snd_and_then_checked
          split: prod.splits)
  qed
qed

lemma run_attempt_is_run:
  assumes "mid = svc_run E S others"
  shows "\<exists>calls. snd (svc_run_attempt E S now c c' l adapter mid s) = svc_run E S calls s"
proof -
  let ?t = "snd (svc_run_attempt E S now c c' l adapter mid s)"
  have comp: "completion_state (res_completion (normalized_result E l at res f)) \<noteq> None" for at res f
    using normalized_completes [of E l at res f] by auto
  obtain x s1 where x: "so_persist S c l s = (x, s1)" by fastforce
  then have s1: "svc_run E S [CallPersist c l] s = s1" by simp
  have full: "svc_run E S (CallPersist c l # others @ [CallComplete c' l at (normalized_result E l at res f)]) s
      = snd (so_complete S c' l at (normalized_result E l at res f) (mid s1))" for at res f
    using x by (simp add: svc_run_append assms comp)
  have "?t = s \<or> ?t = s1 \<or> (\<exists>at res f. ?t = snd (so_complete S c' l at (normalized_result E l at res f) (mid s1)))"
    unfolding snd_svc_run_attempt using x by (cases x) (auto split: prod.splits)
  then show ?thesis
    using s1 full by (metis svc_run.simps(1))
qed

end

end
