(* ===== verification/EffectRefine.thy ===== *)
theory EffectRefine
  imports EffectSpec
begin

text \<open>
  The PostgreSQL store satisfies the contract of \<open>effect_store\<close>: \<open>abs_of\<close> reads an
  abstract effect off the tables, \<open>db_fresh\<close> says that no row uses an identifier that has
  not been handed out, and every repository operation makes abstract moves only. The
  interpretation \<open>pg\<close> then gives the facts about runs of service calls.
\<close>

section \<open>Reading the abstract effects off the tables\<close>

definition abs_row :: "effect_row \<Rightarrow> int list \<Rightarrow> abs_effect" where
  "abs_row r runs = \<lparr>a_state = ef_state r, a_generation = ef_generation r, a_fence = ef_fence r,
     a_runs = runs\<rparr>"

definition attempt_keys :: "eer_db \<Rightarrow> (int \<times> int) list" where
  "attempt_keys db = map (\<lambda>a. (at_effect a, at_generation a)) (attempts db)"

definition runs_of :: "int \<Rightarrow> eer_db \<Rightarrow> int list" where
  "runs_of i db = map snd (filter (\<lambda>k. fst k = i) (attempt_keys db))"

definition abs_of :: "eer_db \<Rightarrow> effect_view" where
  "abs_of db i = map_option (\<lambda>r. abs_row r (runs_of i db)) (find_effect i db)"

definition db_fresh :: "eer_db \<Rightarrow> bool" where
  "db_fresh db \<longleftrightarrow>
     (\<forall>r \<in> set (effects db). ef_id r < next_effect db) \<and>
     (\<forall>k \<in> set (attempt_keys db). find_effect (fst k) db \<noteq> None)"

definition pg_step :: "eer_db \<Rightarrow> eer_db \<Rightarrow> bool" where
  "pg_step db db' \<longleftrightarrow> (db_fresh db \<longrightarrow> db_fresh db' \<and> view_step (abs_of db) (abs_of db'))"

lemma find_map_key:
  assumes "\<And>r. key (f r) = key r"
  shows "List.find (\<lambda>r. key r = i) (map (\<lambda>r. if key r = i then f r else r) xs)
       = map_option f (List.find (\<lambda>r. key r = i) xs)"
  using assms by (induction xs) auto

lemma find_map_other:
  assumes "\<And>r. key (f r) = key r" and "j \<noteq> i"
  shows "List.find (\<lambda>r. key r = j) (map (\<lambda>r. if key r = i then f r else r) xs)
       = List.find (\<lambda>r. key r = j) xs"
  using assms by (induction xs) auto

lemma find_update_effect:
  assumes "\<And>r. ef_id (f r) = ef_id r"
  shows "find_effect j (update_effect i f db) =
     (if j = i then map_option f (find_effect i db) else find_effect j db)"
  using find_map_key [of ef_id f] find_map_other [of ef_id f j i] assms
  by (simp add: find_effect_def update_effect_def)

lemma find_effect_in: "find_effect i db = Some r \<Longrightarrow> r \<in> set (effects db) \<and> ef_id r = i"
  by (auto simp: find_effect_def find_Some_iff)

lemma row_ids [simp]:
  "ef_id (queue_row c l r) = ef_id r" "ef_id (claim_row c r) = ef_id r"
  "ef_id (cancel_row c r) = ef_id r" "ef_id (start_row c r) = ef_id r"
  "ef_id (state_row c s r) = ef_id r" "ef_id (reconciled_row c r) = ef_id r"
  by (simp_all add: queue_row_def claim_row_def cancel_row_def start_row_def state_row_def
      reconciled_row_def)

lemma update_effect_frame [simp]:
  "attempts (update_effect i f db) = attempts db" "receipts (update_effect i f db) = receipts db"
  "recons (update_effect i f db) = recons db"
  "next_effect (update_effect i f db) = next_effect db"
  "next_receipt (update_effect i f db) = next_receipt db"
  by (simp_all add: update_effect_def)

lemma find_effect_cong: "effects db = effects db' \<Longrightarrow> find_effect i db = find_effect i db'"
  by (simp add: find_effect_def)

lemma find_effect_frame [simp]:
  "find_effect i (db\<lparr>attempts := as\<rparr>) = find_effect i db"
  "find_effect i (db\<lparr>receipts := rs\<rparr>) = find_effect i db"
  "find_effect i (db\<lparr>receipts := rs, next_receipt := n\<rparr>) = find_effect i db"
  "find_effect i (db\<lparr>recons := ns\<rparr>) = find_effect i db"
  by (simp_all add: find_effect_def)

section \<open>The three kinds of moves on the tables\<close>

lemma pg_step_same:
  assumes "effects db' = effects db" and "attempt_keys db' = attempt_keys db"
    and "next_effect db' = next_effect db"
  shows "pg_step db db'"
proof -
  have "abs_of db' = abs_of db"
    using assms by (auto simp: abs_of_def runs_of_def find_effect_def)
  then show ?thesis
    using assms find_effect_cong [OF assms(1)] by (simp add: pg_step_def db_fresh_def)
qed

lemma pg_step_update:
  assumes row: "find_effect i db = Some r" and ids: "\<And>r. ef_id (f r) = ef_id r"
    and step: "\<And>runs. effect_step (abs_row r runs) (abs_row (f r) runs)"
    and db': "effects db' = effects (update_effect i f db)" "attempt_keys db' = attempt_keys db"
      "next_effect db' = next_effect db"
  shows "pg_step db db'"
proof -
  have found: "find_effect j db' = (if j = i then Some (f r) else find_effect j db)" for j
    using find_update_effect [OF ids, where i = i and j = j and db = db] row find_effect_cong [OF db'(1)]
    by simp
  then have "abs_of db' = (abs_of db)(i \<mapsto> abs_row (f r) (runs_of i db))"
    using db'(2) by (auto simp: abs_of_def runs_of_def)
  moreover have "abs_of db i = Some (abs_row r (runs_of i db))"
    using row by (simp add: abs_of_def)
  ultimately have "view_step (abs_of db) (abs_of db')"
    using step view_step_at by metis
  moreover have "db_fresh db \<Longrightarrow> db_fresh db'"
    using db' ids found by (auto simp: db_fresh_def update_effect_def)
  ultimately show ?thesis by (simp add: pg_step_def)
qed

lemma pg_step_start:
  assumes row: "find_effect i db = Some r" and queued: "ef_state r = StateQueued"
    and db': "effects db' = effects (update_effect i (start_row c) db)"
      "attempt_keys db' = attempt_keys db @ [(i, ef_generation r)]"
      "next_effect db' = next_effect db"
  shows "pg_step db db'"
proof -
  have found: "find_effect j db' = (if j = i then Some (start_row c r) else find_effect j db)" for j
    using find_update_effect [where f = "start_row c" and i = i and j = j and db = db] row
      find_effect_cong [OF db'(1)] by simp
  then have "abs_of db' = (abs_of db)(i \<mapsto> abs_row (start_row c r) (runs_of i db @ [ef_generation r]))"
    using db'(2) by (auto simp: abs_of_def runs_of_def)
  moreover have "abs_of db i = Some (abs_row r (runs_of i db))"
    using row by (simp add: abs_of_def)
  moreover have "effect_step (abs_row r (runs_of i db))
      (abs_row (start_row c r) (runs_of i db @ [ef_generation r]))"
    using effect_step.start [of "abs_row r (runs_of i db)"] queued
    by (simp add: abs_row_def start_row_def)
  ultimately have "view_step (abs_of db) (abs_of db')"
    using view_step_at by metis
  moreover have "db_fresh db \<Longrightarrow> db_fresh db'"
    using db' row found by (auto simp: db_fresh_def update_effect_def)
  ultimately show ?thesis by (simp add: pg_step_def)
qed

lemma pg_step_create:
  assumes db': "effects db' = effects db @ [row]" "attempts db' = attempts db"
      "next_effect db' = next_effect db + 1"
    and row: "ef_id row = next_effect db" "ef_state row = StateAccepted" "ef_generation row = 1"
      "ef_fence row = 0"
  shows "pg_step db db'"
proof -
  let ?n = "next_effect db"
  have keys: "attempt_keys db' = attempt_keys db" using db' by (simp add: attempt_keys_def)
  have "db_fresh db' \<and> view_step (abs_of db) (abs_of db')" if fresh: "db_fresh db"
  proof -
    have none: "find_effect ?n db = None" using fresh
      by (auto simp: db_fresh_def find_effect_def find_None_iff)
    have found: "find_effect j db' = (if j = ?n then Some row else find_effect j db)" for j
    proof -
      have "List.find (\<lambda>r. ef_id r = j) (xs @ [row]) =
          (case List.find (\<lambda>r. ef_id r = j) xs of None \<Rightarrow> if ef_id row = j then Some row else None
           | Some r \<Rightarrow> Some r)" for xs
        by (induction xs) auto
      then show ?thesis using db' row none by (auto simp: find_effect_def split: option.splits)
    qed
    moreover have "runs_of ?n db = []"
      using fresh none by (auto simp: db_fresh_def runs_of_def filter_empty_conv)
    ultimately have "abs_of db' = (abs_of db)(?n \<mapsto> new_effect)"
      using keys row by (auto simp: abs_of_def runs_of_def abs_row_def new_effect_def)
    moreover have "abs_of db ?n = None" using none by (simp add: abs_of_def)
    moreover have "db_fresh db'"
      using fresh db' row keys found by (auto simp: db_fresh_def)
    ultimately show ?thesis by (simp add: view_step_def)
  qed
  then show ?thesis by (simp add: pg_step_def)
qed

section \<open>When each statement succeeds\<close>

lemma statement_iff [tx_iff]:
  "LockEffect i db = (Inr r, db') \<longleftrightarrow> db' = db \<and> find_effect i db = Some r"
  "LockEffectByFingerprint fp db = (Inr x, db') \<longleftrightarrow>
     db' = db \<and> x = List.find (\<lambda>r. ef_fingerprint r = fp) (effects db)"
  "GetReceipt op i key db = (Inr y, db') \<longleftrightarrow> db' = db \<and> y = List.find
     (\<lambda>r. rr_operation r = op \<and> rr_effect r = i \<and> rr_key r = key) (receipts db)"
  "GetAcceptReceipt key db = (Inr y, db') \<longleftrightarrow> db' = db \<and> y = List.find
     (\<lambda>r. rr_operation r = OpAccept \<and> rr_key r = key) (receipts db)"
  "ClaimEffect c i db = (Inr u, db') \<longleftrightarrow> db' = update_effect i (claim_row c) db"
  "CancelEffect c i db = (Inr u, db') \<longleftrightarrow> db' = update_effect i (cancel_row c) db"
  "MarkEffectReconciled c i db = (Inr u, db') \<longleftrightarrow> db' = update_effect i (reconciled_row c) db"
  "QueueEffect c i l db = (Inr u, db') \<longleftrightarrow>
     0 < job_id l \<and> job_queue l \<noteq> [] \<and> db_digest (job_args l) \<and> db' = update_effect i (queue_row c l) db"
  "UpdateEffectState c i s db = (Inr u, db') \<longleftrightarrow>
     validState s \<and> db' = update_effect i (state_row c s) db"
  "LockOpenAttempt i g f db = (Inr n, db') \<longleftrightarrow> db' = db \<and> (\<exists>a. List.find
     (\<lambda>a. at_effect a = i \<and> at_generation a = g \<and> at_fence a = f \<and> at_completion a = None)
     (attempts db) = Some a \<and> n = at_number a)"
  by (auto simp: LockEffect_def LockEffectByFingerprint_def GetReceipt_def GetAcceptReceipt_def
      ClaimEffect_def CancelEffect_def MarkEffectReconciled_def QueueEffect_def
      UpdateEffectState_def LockOpenAttempt_def split: option.splits)

lemma StartAttempt_InrD:
  "StartAttempt c i db = (Inr u, db') \<Longrightarrow> db' = update_effect i (start_row c) db"
  by (auto simp: StartAttempt_def split: if_splits)

lemma InsertReceipt_InrD:
  "InsertReceipt c op i key cmd st db = (Inr rc, db') \<Longrightarrow>
     db' = db\<lparr>receipts := receipts db @ [rc], next_receipt := next_receipt db + 1\<rparr> \<and>
     rc = \<lparr>rr_id = next_receipt db, rr_operation = op, rr_effect = i, rr_key = key,
           rr_command = cmd, rr_state = st, rr_completed = db_now c\<rparr>"
  by (auto simp: InsertReceipt_def Let_def split: if_splits)

lemma InsertAttempt_InrD:
  "InsertAttempt i n g f t db = (Inr u, db') \<Longrightarrow>
     db' = db\<lparr>attempts := attempts db @
       [\<lparr>at_effect = i, at_number = n, at_generation = g, at_fence = f, at_started = t,
         at_completion = None, at_receipt = None, at_completed = None, at_reference = None,
         at_dispatched = False, at_real = False\<rparr>]\<rparr>"
  by (auto simp: InsertAttempt_def split: if_splits)

lemma ReconcileAttempt_InrD:
  "ReconcileAttempt i g f ev db = (Inr u, db') \<Longrightarrow>
     db' = db\<lparr>recons := recons db @ [\<lparr>rn_effect = i, rn_generation = g, rn_fence = f, rn_evidence = ev\<rparr>]\<rparr>"
  by (auto simp: ReconcileAttempt_def split: if_splits)

text \<open>The completion statements rewrite attempts without touching effect and generation.\<close>

definition same_attempts :: "eer_db \<Rightarrow> eer_db \<Rightarrow> bool" where
  "same_attempts db db' \<longleftrightarrow> (\<exists>as. db' = db\<lparr>attempts := as\<rparr>) \<and> attempt_keys db' = attempt_keys db"

lemma map_attempts_keys:
  "(\<And>a. at_effect (f a) = at_effect a \<and> at_generation (f a) = at_generation a) \<Longrightarrow>
     attempt_keys (db\<lparr>attempts := map f (attempts db)\<rparr>) = attempt_keys db"
  by (simp add: attempt_keys_def)

lemma completion_statement_same:
  "q_CompleteAttempt c i n g compl rc db = (Inr u, db') \<Longrightarrow> same_attempts db db'"
  "CompleteChannelAcquisitionAssetAttempt c i n g compl rc ref d re db = (Inr u, db') \<Longrightarrow>
     same_attempts db db'"
  "MarkAttemptOutcomeUnknown c i n rc db = (Inr u, db') \<Longrightarrow> same_attempts db db'"
  by (auto simp: same_attempts_def q_CompleteAttempt_def CompleteChannelAcquisitionAssetAttempt_def
      MarkAttemptOutcomeUnknown_def attempt_keys_def split: if_splits)

lemma same_attemptsD:
  assumes "same_attempts db db'"
  shows "effects db' = effects db" "next_effect db' = next_effect db"
    "attempt_keys db' = attempt_keys db" "find_effect i db' = find_effect i db"
    "receipts db' = receipts db"
  using assms by (auto simp: same_attempts_def)

section \<open>Every repository operation makes abstract moves only\<close>

lemma keys_frame [simp]:
  "attempt_keys (db\<lparr>receipts := rs, next_receipt := n\<rparr>) = attempt_keys db"
  "attempt_keys (db\<lparr>recons := ns\<rparr>) = attempt_keys db"
  "attempt_keys (update_effect i f db) = attempt_keys db"
  by (simp_all add: attempt_keys_def)

text \<open>A failing operation leaves the tables as they were.\<close>

lemma store_rollback:
  "store_accept E c acmd db = (Inl e, db') \<Longrightarrow> db' = db"
  "store_queue c op eid job key command st db = (Inl e, db') \<Longrightarrow> db' = db"
  "store_claim c ccmd db = (Inl e, db') \<Longrightarrow> db' = db"
  "store_cancel E c xcmd db = (Inl e, db') \<Longrightarrow> db' = db"
  "store_persist_attempt c l db = (Inl e, db') \<Longrightarrow> db' = db"
  "store_complete c l a res db = (Inl e, db') \<Longrightarrow> db' = db"
  "store_reconcile E c rcmd db = (Inl e, db') \<Longrightarrow> db' = db"
  "store_recover E c l db = (Inl e, db') \<Longrightarrow> db' = db"
  unfolding store_accept_def store_queue_def store_claim_def store_cancel_def
    store_persist_attempt_def store_complete_def store_reconcile_def store_recover_def
  by (blast dest: within_Inl_restores)+

lemma op_pg_step:
  assumes "x = (r, db')" and "\<And>e db''. x = (Inl e, db'') \<Longrightarrow> db'' = db"
    and "\<And>v. x = (Inr v, db') \<Longrightarrow> pg_step db db'"
  shows "pg_step db db'"
  using assms by (cases r) (auto intro: pg_step_same)

lemma row_steps:
  "st = StateAccepted \<or> st = StateRetryableFailed \<Longrightarrow> ef_state row = st \<Longrightarrow>
     effect_step (abs_row row runs) (abs_row (queue_row c job row) runs)"
  "ef_state row = StateQueued \<Longrightarrow> effect_step (abs_row row runs) (abs_row (claim_row c row) runs)"
  "ef_state row = StateAccepted \<or> ef_state row = StateQueued \<Longrightarrow>
     effect_step (abs_row row runs) (abs_row (cancel_row c row) runs)"
  "ef_state row = StateAttempted \<Longrightarrow> s = StateExecuted \<or> s = StateRetryableFailed \<or>
     s = StateFinalFailed \<or> s = StateOutcomeUnknown \<Longrightarrow>
     effect_step (abs_row row runs) (abs_row (state_row c s row) runs)"
  "ef_state row = StateOutcomeUnknown \<Longrightarrow>
     effect_step (abs_row row runs) (abs_row (reconciled_row c row) runs)"
  using effect_step.intros [of "abs_row row runs"]
  by (auto simp: abs_row_def queue_row_def claim_row_def cancel_row_def state_row_def
      reconciled_row_def)

lemma store_queue_step:
  assumes "store_queue c op eid job key cmd st db = (r, db')"
    and "st = StateAccepted \<or> st = StateRetryableFailed"
  shows "pg_step db db'"
proof (rule op_pg_step [OF assms(1)], erule store_rollback(2))
  fix v
  assume "store_queue c op eid job key cmd st db = (Inr v, db')"
  then obtain i row where row: "find_effect i db = Some row"
    and cases: "db' = db \<or> (ef_state row = st \<and>
      effects db' = effects (update_effect i (queue_row c job) db) \<and>
      attempt_keys db' = attempt_keys db \<and> next_effect db' = next_effect db)"
    by (auto simp: store_queue_def tx_iff split: option.splits if_splits dest!: InsertReceipt_InrD)
  show "pg_step db db'"
    using cases pg_step_update [OF row, of "queue_row c job"] row_steps(1) [OF assms(2)]
    by (auto intro: pg_step_same)
qed

lemma store_claim_step:
  assumes "store_claim c cmd db = (r, db')"
  shows "pg_step db db'"
proof (rule op_pg_step [OF assms], erule store_rollback)
  fix v
  assume "store_claim c cmd db = (Inr v, db')"
  then obtain i row where row: "find_effect i db = Some row" and "ef_state row = StateQueued"
    and "db' = update_effect i (claim_row c) db"
    by (auto simp: store_claim_def tx_iff split: if_splits)
  then show "pg_step db db'"
    using pg_step_update [OF row, of "claim_row c"] row_steps(2) by simp
qed

lemma store_cancel_step:
  assumes "store_cancel E c cmd db = (r, db')"
  shows "pg_step db db'"
proof (rule op_pg_step [OF assms], erule store_rollback)
  fix v
  assume "store_cancel E c cmd db = (Inr v, db')"
  then obtain i row where row: "find_effect i db = Some row"
    and cases: "db' = db \<or> ((ef_state row = StateAccepted \<or> ef_state row = StateQueued) \<and>
      effects db' = effects (update_effect i (cancel_row c) db) \<and>
      attempt_keys db' = attempt_keys db \<and> next_effect db' = next_effect db)"
    by (auto simp: store_cancel_def tx_iff split: option.splits if_splits dest!: InsertReceipt_InrD)
  show "pg_step db db'"
    using cases pg_step_update [OF row, of "cancel_row c"] row_steps(3)
    by (auto intro: pg_step_same)
qed

lemma store_reconcile_step:
  assumes "store_reconcile E c cmd db = (r, db')"
  shows "pg_step db db'"
proof (rule op_pg_step [OF assms], erule store_rollback)
  fix v
  assume "store_reconcile E c cmd db = (Inr v, db')"
  then obtain i row where row: "find_effect i db = Some row"
    and cases: "db' = db \<or> (ef_state row = StateOutcomeUnknown \<and>
      effects db' = effects (update_effect i (reconciled_row c) db) \<and>
      attempt_keys db' = attempt_keys db \<and> next_effect db' = next_effect db)"
    by (auto simp: store_reconcile_def tx_iff update_effect_def attempt_keys_def
        split: option.splits if_splits dest!: InsertReceipt_InrD ReconcileAttempt_InrD)
  show "pg_step db db'"
    using cases pg_step_update [OF row, of "reconciled_row c"] row_steps(5)
    by (auto intro: pg_step_same)
qed

lemma terminal_state_cases:
  "completion_state (res_completion res) \<noteq> None \<Longrightarrow>
     terminal_state res = StateExecuted \<or> terminal_state res = StateRetryableFailed \<or>
     terminal_state res = StateFinalFailed \<or> terminal_state res = StateOutcomeUnknown"
  by (cases "res_completion res") (auto simp: terminal_state_def)

text \<open>Closing an attempt, then moving the effect, then recording the receipt.\<close>

lemma closing_step:
  assumes "find_effect i db = Some row" and "ef_state row = StateAttempted"
    and "s = StateExecuted \<or> s = StateRetryableFailed \<or> s = StateFinalFailed \<or> s = StateOutcomeUnknown"
    and "same_attempts db db1"
    and "effects db' = effects (update_effect i (state_row c s) db1)"
    and "attempt_keys db' = attempt_keys db1" and "next_effect db' = next_effect db1"
  shows "pg_step db db'"
proof (rule pg_step_update [OF assms(1), of "state_row c s"])
  show "effects db' = effects (update_effect i (state_row c s) db)"
    using assms(5) same_attemptsD(1) [OF assms(4)] by (simp add: update_effect_def)
qed (use assms same_attemptsD [OF assms(4)] row_steps(4) in auto)

lemma store_complete_step:
  assumes "store_complete c l a res db = (r, db')"
    and "completion_state (res_completion res) \<noteq> None"
  shows "pg_step db db'"
proof (rule op_pg_step [OF assms(1)], erule store_rollback)
  fix v
  assume "store_complete c l a res db = (Inr v, db')"
  then obtain i row db1 where "find_effect i db = Some row" "ef_state row = StateAttempted"
    "same_attempts db db1" "effects db' = effects (update_effect i (state_row c (terminal_state res)) db1)"
    "attempt_keys db' = attempt_keys db1" "next_effect db' = next_effect db1"
    by (auto simp: store_complete_def tx_iff split: if_splits
        dest!: InsertReceipt_InrD completion_statement_same)
  then show "pg_step db db'"
    by (rule closing_step [OF _ _ terminal_state_cases [OF assms(2)]])
qed

lemma store_recover_step:
  assumes "store_recover E c l db = (r, db')"
  shows "pg_step db db'"
proof (rule op_pg_step [OF assms(1)], erule store_rollback)
  fix v
  assume "store_recover E c l db = (Inr v, db')"
  then obtain i row db1 where "find_effect i db = Some row" "ef_state row = StateAttempted"
    "same_attempts db db1" "effects db' = effects (update_effect i (state_row c StateOutcomeUnknown) db1)"
    "attempt_keys db' = attempt_keys db1" "next_effect db' = next_effect db1"
    by (auto simp: store_recover_def tx_iff split: if_splits
        dest!: InsertReceipt_InrD completion_statement_same)
  then show "pg_step db db'"
    using closing_step [where s = StateOutcomeUnknown] by blast
qed

lemma store_persist_step:
  assumes "store_persist_attempt c l db = (r, db')"
  shows "pg_step db db'"
proof (rule op_pg_step [OF assms(1)], erule store_rollback)
  fix v
  assume "store_persist_attempt c l db = (Inr v, db')"
  then obtain i row where row: "find_effect i db = Some row" "ef_state row = StateQueued"
    and gen: "ef_generation row = lease_generation l"
    and db': "effects db' = effects (update_effect i (start_row c) db)"
      "attempt_keys db' = attempt_keys db @ [(i, lease_generation l)]"
      "next_effect db' = next_effect db"
    by (auto simp: store_persist_attempt_def tx_iff attempt_keys_def split: if_splits
        dest!: StartAttempt_InrD InsertAttempt_InrD)
  show "pg_step db db'"
    using pg_step_start [OF row db'(1)] db' gen by simp
qed

lemma store_accept_step:
  assumes "store_accept E c cmd db = (r, db')"
  shows "pg_step db db'"
proof (rule op_pg_step [OF assms(1)], erule store_rollback)
  fix v
  assume "store_accept E c cmd db = (Inr v, db')"
  then consider "db' = db" | row where "effects db' = effects db @ [row]" "attempts db' = attempts db"
      "next_effect db' = next_effect db + 1" "ef_id row = next_effect db"
      "ef_state row = StateAccepted" "ef_generation row = 1" "ef_fence row = 0"
    by (auto simp: store_accept_def tx_iff CreateEffect_def Let_def split: option.splits if_splits
        dest!: InsertReceipt_InrD)
  then show "pg_step db db'"
    by cases (auto intro: pg_step_same pg_step_create)
qed

section \<open>The PostgreSQL store honours the contract\<close>

interpretation pg: effect_store "pg_store E" abs_of db_fresh for E
  by unfold_locales
    (auto simp: pg_store_def store_Queue_def store_Retry_def pg_step_def dest!: store_accept_step
      store_queue_step store_claim_step store_cancel_step store_persist_step store_complete_step
      store_reconcile_step store_recover_step)

definition empty_db :: eer_db where
  "empty_db = \<lparr>effects = [], attempts = [], receipts = [], recons = [], next_effect = 1,
     next_receipt = 1\<rparr>"

lemma empty_db_start [simp]: "db_fresh empty_db" "view_inv (abs_of empty_db)"
  by (simp_all add: db_fresh_def empty_db_def attempt_keys_def view_inv_def abs_of_def find_effect_def)

text \<open>The database after a run of service calls on empty tables.\<close>

definition pg_run :: "crypto_env \<Rightarrow> svc_call list \<Rightarrow> eer_db" where
  "pg_run E calls = svc_run E (pg_store E) calls empty_db"

lemma pg_run_ok: "db_fresh (pg_run E calls)" "view_inv (abs_of (pg_run E calls))"
  using pg.svc_run_ok pg.svc_run_view_inv by (simp_all add: pg_run_def)

lemma distinct_by_key:
  "(\<And>i. distinct (map snd (filter (\<lambda>k. fst k = i) ks))) \<Longrightarrow> distinct ks"
proof (induction ks)
  case (Cons k ks)
  have "distinct (map snd (filter (\<lambda>k. fst k = i) ks))" for i
    using Cons.prems [of i] by (auto split: if_splits)
  moreover have "k \<notin> set ks"
  proof
    assume "k \<in> set ks"
    then have "snd k \<in> set (map snd (filter (\<lambda>x. fst x = fst k) ks))" by force
    with Cons.prems [of "fst k"] show False by simp
  qed
  ultimately show ?case using Cons.IH by simp
qed simp

end
