(* ===== verification/EffectFacts.thy ===== *)
theory EffectFacts
  imports EffectRefine
begin

text \<open>
  Facts the runtime properties rest on: what a successful operation did to the tables, that
  fingerprints and receipts are recorded once and for good, which leases a store still
  honours, and a small concrete database on which the witnesses run.
\<close>

section \<open>Receipts and fingerprints are recorded once\<close>

definition receipts_grow :: "eer_db \<Rightarrow> eer_db \<Rightarrow> bool" where
  "receipts_grow db db' \<longleftrightarrow> (\<exists>rs. receipts db' = receipts db @ rs)"

lemma receipts_grow_refl [simp]: "receipts_grow db db"
  by (simp add: receipts_grow_def)

lemma receipts_grow_trans: "receipts_grow a b \<Longrightarrow> receipts_grow b c \<Longrightarrow> receipts_grow a c"
  by (auto simp: receipts_grow_def)

definition prints_kept :: "eer_db \<Rightarrow> eer_db \<Rightarrow> bool" where
  "prints_kept db db' \<longleftrightarrow>
     (map ef_fingerprint (effects db') = map ef_fingerprint (effects db) \<or>
      (\<exists>fp. fp \<notin> set (map ef_fingerprint (effects db)) \<and>
            map ef_fingerprint (effects db') = map ef_fingerprint (effects db) @ [fp]))"

lemma row_prints [simp]:
  "ef_fingerprint (queue_row c l r) = ef_fingerprint r"
  "ef_fingerprint (claim_row c r) = ef_fingerprint r"
  "ef_fingerprint (cancel_row c r) = ef_fingerprint r"
  "ef_fingerprint (start_row c r) = ef_fingerprint r"
  "ef_fingerprint (state_row c s r) = ef_fingerprint r"
  "ef_fingerprint (reconciled_row c r) = ef_fingerprint r"
  by (simp_all add: queue_row_def claim_row_def cancel_row_def start_row_def state_row_def
      reconciled_row_def)

lemma update_effect_prints:
  "(\<And>r. ef_fingerprint (f r) = ef_fingerprint r) \<Longrightarrow>
     map ef_fingerprint (effects (update_effect i f db)) = map ef_fingerprint (effects db)"
  by (simp add: update_effect_def)

definition grows :: "eer_db \<Rightarrow> eer_db \<Rightarrow> bool" where
  "grows db db' \<longleftrightarrow> receipts_grow db db' \<and> prints_kept db db'"

lemma op_grows:
  assumes "x = (r, db')" and "\<And>e db''. x = (Inl e, db'') \<Longrightarrow> db'' = db"
    and "\<And>v. x = (Inr v, db') \<Longrightarrow> grows db db'"
  shows "grows db db'"
  using assms by (cases r) (auto simp: grows_def prints_kept_def)

lemma grows_sameI:
  "receipts_grow db db' \<Longrightarrow> map ef_fingerprint (effects db') = map ef_fingerprint (effects db) \<Longrightarrow>
     grows db db'"
  by (simp add: grows_def prints_kept_def)

lemma same_attempts_grows:
  "same_attempts db db' \<Longrightarrow> receipts db' = receipts db \<and> effects db' = effects db"
  by (auto simp: same_attempts_def)

lemmas success_dests = InsertReceipt_InrD InsertAttempt_InrD StartAttempt_InrD ReconcileAttempt_InrD
  completion_statement_same

lemma store_grows:
  "store_queue c op eid job key command st db = (r, db') \<Longrightarrow> grows db db'"
  "store_claim c ccmd db = (r2, db') \<Longrightarrow> grows db db'"
  "store_cancel E c xcmd db = (r, db') \<Longrightarrow> grows db db'"
  "store_persist_attempt c l db = (r3, db') \<Longrightarrow> grows db db'"
  "store_complete c l a res db = (r, db') \<Longrightarrow> grows db db'"
  "store_reconcile E c rcmd db = (r, db') \<Longrightarrow> grows db db'"
  "store_recover E c l db = (r, db') \<Longrightarrow> grows db db'"
proof -
  note ok = tx_iff grows_sameI receipts_grow_def update_effect_prints
  show "store_queue c op eid job key command st db = (r, db') \<Longrightarrow> grows db db'"
    by (erule op_grows, erule store_rollback)
      (auto simp: ok store_queue_def split: option.splits if_splits dest!: success_dests)
  show "store_claim c ccmd db = (r2, db') \<Longrightarrow> grows db db'"
    by (erule op_grows, erule store_rollback)
      (auto simp: ok store_claim_def split: if_splits)
  show "store_cancel E c xcmd db = (r, db') \<Longrightarrow> grows db db'"
    by (erule op_grows, erule store_rollback)
      (auto simp: ok store_cancel_def split: option.splits if_splits dest!: success_dests)
  show "store_persist_attempt c l db = (r3, db') \<Longrightarrow> grows db db'"
    by (erule op_grows, erule store_rollback)
      (auto simp: ok store_persist_attempt_def split: if_splits dest!: success_dests)
  show "store_complete c l a res db = (r, db') \<Longrightarrow> grows db db'"
    by (erule op_grows, erule store_rollback)
      (auto simp: ok store_complete_def split: if_splits dest!: success_dests same_attempts_grows)
  show "store_reconcile E c rcmd db = (r, db') \<Longrightarrow> grows db db'"
    by (erule op_grows, erule store_rollback)
      (auto simp: ok store_reconcile_def update_effect_def comp_def split: option.splits if_splits
        dest!: success_dests)
  show "store_recover E c l db = (r, db') \<Longrightarrow> grows db db'"
    by (erule op_grows, erule store_rollback)
      (auto simp: ok store_recover_def split: if_splits dest!: success_dests same_attempts_grows)
qed

lemma store_accept_grows: "store_accept E c cmd db = (r, db') \<Longrightarrow> grows db db'"
proof (erule op_grows, erule store_rollback)
  fix v
  assume "store_accept E c cmd db = (Inr v, db')"
  then show "grows db db'"
    by (auto simp: store_accept_def tx_iff grows_def receipts_grow_def prints_kept_def
        CreateEffect_def Let_def list_ex_iff find_None_iff split: option.splits if_splits dest!: InsertReceipt_InrD) blast
qed

lemma svc_exec_grows: "grows db (svc_exec E (pg_store E) call db)"
proof -
  have refl: "grows db db" by (simp add: grows_sameI)
  show ?thesis
    by (cases call)
      (auto simp: refl svc_accept_def svc_queue_def svc_claim_def svc_retry_def svc_cancel_def
        svc_reconcile_def svc_recover_def svc_complete_recorded_def pg_store_def store_Queue_def
        store_Retry_def pg.snd_and_then_checked split: prod.splits
        intro: store_grows [OF prod.collapse [symmetric]] store_accept_grows [OF prod.collapse [symmetric]])
qed

lemma svc_run_receipts_grow: "receipts_grow db (svc_run E (pg_store E) calls db)"
proof (induction calls arbitrary: db)
  case (Cons call calls)
  then show ?case
    using svc_exec_grows [of db E call] receipts_grow_trans by (auto simp: grows_def)
qed simp

lemma svc_run_prints_distinct:
  "distinct (map ef_fingerprint (effects db)) \<Longrightarrow>
     distinct (map ef_fingerprint (effects (svc_run E (pg_store E) calls db)))"
proof (induction calls arbitrary: db)
  case (Cons call calls)
  have "distinct (map ef_fingerprint (effects (svc_exec E (pg_store E) call db)))"
    using svc_exec_grows [of db E call] Cons.prems by (auto simp: grows_def prints_kept_def)
  then show ?case using Cons.IH by simp
qed simp


section \<open>How one effect moves along a run\<close>

lemma abs_of_Some: "find_effect i db = Some r \<Longrightarrow> abs_of db i = Some (abs_row r (runs_of i db))"
  by (simp add: abs_of_def)

lemma abs_of_SomeD:
  "abs_of db i = Some a \<Longrightarrow>
     \<exists>r. find_effect i db = Some r \<and> ef_state r = a_state a \<and> ef_generation r = a_generation a \<and>
         ef_fence r = a_fence a \<and> runs_of i db = a_runs a"
  by (auto simp: abs_of_def abs_row_def)

lemmas abs_row_sel [simp] =
  arg_cong [OF abs_row_def, where f = a_state, simplified]
  arg_cong [OF abs_row_def, where f = a_generation, simplified]
  arg_cong [OF abs_row_def, where f = a_fence, simplified]
  arg_cong [OF abs_row_def, where f = a_runs, simplified]

text \<open>Any relation between abstract effects that the moves respect holds along a run.\<close>

lemma svc_run_follows:
  assumes step: "\<And>a b c. R a b \<Longrightarrow> effect_step b c \<Longrightarrow> R a c" and refl: "R a0 a0"
    and fresh: "db_fresh db" and start: "abs_of db i = Some a0"
  shows "\<exists>b. abs_of (svc_run E (pg_store E) calls db) i = Some b \<and> R a0 b"
proof -
  have "abs_of db i = Some a \<Longrightarrow> db_fresh db \<Longrightarrow> R a0 a \<Longrightarrow>
      \<exists>b. abs_of (svc_run E (pg_store E) calls db) i = Some b \<and> R a0 b" for a
  proof (induction calls arbitrary: db a)
    case (Cons call calls)
    have next_db: "db_fresh (svc_exec E (pg_store E) call db)"
      "view_step (abs_of db) (abs_of (svc_exec E (pg_store E) call db))"
      using pg.svc_exec_step Cons.prems(2) by blast+
    obtain b where b: "abs_of (svc_exec E (pg_store E) call db) i = Some b" "b = a \<or> effect_step a b"
      using view_step_Some [OF next_db(2) Cons.prems(1)] by blast
    then have "R a0 b" using step Cons.prems(3) by blast
    with Cons.IH [OF b(1) next_db(1)] show ?case by simp
  qed auto
  then show ?thesis using start fresh refl by blast
qed

definition fence_le :: "int \<Rightarrow> int \<Rightarrow> abs_effect \<Rightarrow> bool" where
  "fence_le g f a \<longleftrightarrow> g < a_generation a \<or> (g = a_generation a \<and> f \<le> a_fence a)"

lemma svc_run_fence:
  assumes "db_fresh db" and "find_effect i db = Some r"
  obtains r' where "find_effect i (svc_run E (pg_store E) calls db) = Some r'"
    and "ef_generation r < ef_generation r' \<or>
         (ef_generation r = ef_generation r' \<and> ef_fence r \<le> ef_fence r')"
proof -
  have "\<exists>b. abs_of (svc_run E (pg_store E) calls db) i = Some b \<and>
      fence_le (a_generation (abs_row r (runs_of i db))) (a_fence (abs_row r (runs_of i db))) b"
    by (rule svc_run_follows [where R = "\<lambda>a. fence_le (a_generation a) (a_fence a)"])
      (use assms in \<open>auto simp: fence_le_def abs_of_Some dest: effect_step_fence\<close>)
  then show thesis
    using that by (auto simp: fence_le_def dest!: abs_of_SomeD)
qed

text \<open>A generation is over once its attempt was closed: it is never attempted again.\<close>

definition past :: "int \<Rightarrow> abs_effect \<Rightarrow> bool" where
  "past g a \<longleftrightarrow> g < a_generation a \<or>
     (g = a_generation a \<and> a_state a \<notin> {StateAccepted, StateQueued, StateAttempted})"

lemma past_step: "past g a \<Longrightarrow> effect_step a b \<Longrightarrow> past g b"
  by (auto simp: past_def elim!: effect_stepE)

lemma svc_run_past:
  assumes "db_fresh db" and "find_effect i db = Some r"
    and "ef_state r \<notin> {StateAccepted, StateQueued, StateAttempted}"
  obtains r' where "find_effect i (svc_run E (pg_store E) calls db) = Some r'"
    and "\<not> (ef_state r' = StateAttempted \<and> ef_generation r' = ef_generation r)"
proof -
  let ?a = "abs_row r (runs_of i db)"
  have "\<exists>b. abs_of (svc_run E (pg_store E) calls db) i = Some b \<and>
      (past (a_generation ?a) ?a \<longrightarrow> past (a_generation ?a) b)"
    by (rule svc_run_follows [where R = "\<lambda>a b. past (a_generation a) a \<longrightarrow> past (a_generation a) b"])
      (use assms in \<open>auto simp: abs_of_Some dest: past_step\<close>)
  moreover have "past (a_generation ?a) ?a" using assms(3) by (auto simp: past_def)
  ultimately show thesis
    using that by (auto simp: past_def dest!: abs_of_SomeD)
qed

lemma svc_run_settles:
  assumes "db_fresh db" and "find_effect i db = Some r"
  obtains r' where "find_effect i (svc_run E (pg_store E) calls db) = Some r'"
    and "settled (abs_row r (runs_of i db)) (abs_row r' (runs_of i (svc_run E (pg_store E) calls db)))"
proof -
  have "\<exists>b. abs_of (svc_run E (pg_store E) calls db) i = Some b \<and> settled (abs_row r (runs_of i db)) b"
    by (rule pg.svc_run_settled) (use assms abs_of_Some in auto)
  then show thesis using that by (auto simp: abs_of_def)
qed

lemma svc_exec_moves:
  assumes "db_fresh db" and "find_effect i db = Some r"
  obtains r' where "find_effect i (svc_exec E (pg_store E) call db) = Some r'"
    and "ef_state r' = ef_state r \<or> CanTransition (ef_state r) (ef_state r')"
proof -
  have step: "view_step (abs_of db) (abs_of (svc_exec E (pg_store E) call db))"
    using pg.svc_exec_step [OF assms(1)] by blast
  obtain b where b: "abs_of (svc_exec E (pg_store E) call db) i = Some b"
    "b = abs_row r (runs_of i db) \<or> effect_step (abs_row r (runs_of i db)) b"
    using view_step_Some [OF step abs_of_Some [OF assms(2)]] by blast
  then have "a_state b = ef_state r \<or> CanTransition (ef_state r) (a_state b)"
    using effect_step_transition by fastforce
  then show thesis using that b(1) by (auto dest!: abs_of_SomeD)
qed

lemma pg_run_append: "svc_run E (pg_store E) later (pg_run E calls) = pg_run E (calls @ later)"
  by (simp add: pg_run_def svc_run_append)

section \<open>What a successful operation leaves\<close>

lemma claim_row_sel [simp]:
  "ef_generation (claim_row c r) = ef_generation r" "ef_fence (claim_row c r) = ef_fence r + 1"
  "ef_state (claim_row c r) = ef_state r"
  by (simp_all add: claim_row_def)

lemma store_claim_InrD:
  "store_claim c cmd db = (Inr (l, p), db') \<Longrightarrow>
     \<exists>i r. parseID (claim_effect cmd) = Inr i \<and> find_effect i db = Some r \<and>
       ef_state r = StateQueued \<and> find_effect i db' = Some (claim_row c r) \<and>
       lease_effect l = claim_effect cmd \<and> lease_generation l = ef_generation r \<and>
       lease_fence l = ef_fence r + 1 \<and> lease_expires l = db_now c + lease_nanos"
  by (auto simp: store_claim_def tx_iff find_update_effect split: if_splits)

lemma svc_claim_InrD:
  "svc_claim (pg_store E) now c cmd db = (Inr (l, p), db') \<Longrightarrow>
     store_claim c cmd db = (Inr (l, p), db') \<and> lease_valid l now"
  by (auto simp: svc_claim_def pg_store_def tx_iff split: if_splits)

lemma same_attempts_find: "same_attempts db db' \<Longrightarrow> \<forall>i. find_effect i db' = find_effect i db"
  by (auto simp: same_attempts_def intro: find_effect_cong)

lemma store_closing_InrD:
  "store_complete c l a res db = (Inr v, db') \<Longrightarrow> completion_state (res_completion res) \<noteq> None \<Longrightarrow>
     \<exists>i r. parseID (lease_effect l) = Inr i \<and> find_effect i db' = Some r \<and>
       ef_generation r = lease_generation l \<and> Some (ef_state r) = completion_state (res_completion res)"
  "store_recover E c l db = (Inr v, db') \<Longrightarrow>
     \<exists>i r. parseID (lease_effect l) = Inr i \<and> find_effect i db' = Some r \<and>
       ef_generation r = lease_generation l \<and> ef_state r = StateOutcomeUnknown"
  by (auto simp: store_complete_def store_recover_def tx_iff find_update_effect state_row_def
      terminal_state_def split: if_splits completion.splits
      dest!: success_dests same_attempts_find)

lemma completion_state_SomeE:
  assumes "Some s = completion_state k"
  obtains "s \<in> {StateExecuted, StateRetryableFailed, StateFinalFailed, StateOutcomeUnknown}"
  using assms by (cases k) auto

lemma find_append_Some: "List.find P xs = Some x \<Longrightarrow> List.find P (xs @ ys) = Some x"
  by (induction xs) auto

lemma find_append_None: "List.find P xs = None \<Longrightarrow> List.find P (xs @ ys) = List.find P ys"
  by (induction xs) auto

text \<open>A successful accept leaves its receipt and its effect where the next one looks for them.\<close>

lemma accept_recorded:
  "store_accept E c cmd db = (Inr v, db') \<Longrightarrow>
     \<exists>row got. v = (projection row, receipt got) \<and> rr_command got = accept_digest E cmd \<and>
       List.find (\<lambda>r. rr_operation r = OpAccept \<and> rr_key r = acc_key cmd) (receipts db') = Some got \<and>
       List.find (\<lambda>r. ef_fingerprint r = Fingerprint E (acc_envelope cmd)) (effects db') = Some row"
  by (auto simp: store_accept_def tx_iff CreateEffect_def Let_def find_append_None
      split: option.splits if_splits dest!: InsertReceipt_InrD)

lemma accept_replay_store:
  "store_accept E c cmd db = (Inr v, db') \<Longrightarrow> store_accept E c2 cmd db' = (Inr v, db')"
  by (drule accept_recorded)
    (auto simp: store_accept_def and_then_def within_def LockEffectByFingerprint_def
      GetAcceptReceipt_def Let_def)

lemma pg_store_sel [simp]:
  "so_accept (pg_store E) = store_accept E" "so_persist (pg_store E) = store_persist_attempt"
  "so_complete (pg_store E) = store_complete" "so_recover (pg_store E) = store_recover E"
  by (simp_all add: pg_store_def)

section \<open>When an attempt can be made and closed\<close>

lemma db_digest_hashText: "sha_ok E \<Longrightarrow> db_digest (hashText E s)"
proof -
  assume sha: "sha_ok E"
  then have "length (hashText E s) = length digest_prefix + 64"
    using validDigest_hashText by (simp add: validDigest_def)
  moreover have "list_all is_lower_hex (hex_encode (sha256 E s))"
    using hex_encode_lower by (auto simp: list_all_iff)
  ultimately show ?thesis by (simp add: db_digest_def hashText_def)
qed

definition row_envelope :: "effect_row \<Rightarrow> EffectEnvelope" where
  "row_envelope r = \<lparr>env_owner = ef_owner r, env_kind = ef_kind r, env_source = ef_source r,
     env_target = ef_target r, env_payload = ef_payload r, env_policy = ef_policy r\<rparr>"

definition row_attempt :: "clock \<Rightarrow> effect_row \<Rightarrow> Attempt" where
  "row_attempt c r = \<lparr>att_number = ef_attempts r + 1, att_generation = ef_generation r,
     att_fence = ef_fence r, att_started = db_now c\<rparr>"

text \<open>The lease \<open>l\<close> is current on row \<open>r\<close> of effect \<open>i\<close>, which was never attempted before.\<close>

definition ready :: "clock \<Rightarrow> Lease \<Rightarrow> int \<Rightarrow> effect_row \<Rightarrow> eer_db \<Rightarrow> bool" where
  "ready c l i r db \<longleftrightarrow>
     find_effect i db = Some r \<and> parseID (lease_effect l) = Inr i \<and> formatID i = lease_effect l \<and>
     lease_validFields l \<and> ef_state r = StateQueued \<and> ef_generation r = lease_generation l \<and>
     ef_fence r = lease_fence l \<and> (\<exists>t. ef_expires r = Some t \<and> go_now c < t) \<and>
     envelope_valid (row_envelope r) \<and> 0 \<le> ef_attempts r \<and> db_now c \<noteq> 0 \<and>
     (\<forall>a \<in> set (attempts db). at_effect a \<noteq> i) \<and> distinct (map ef_id (effects db))"

definition new_attempt :: "clock \<Rightarrow> effect_row \<Rightarrow> attempt_row" where
  "new_attempt c r = \<lparr>at_effect = ef_id r, at_number = ef_attempts r + 1,
     at_generation = ef_generation r, at_fence = ef_fence r, at_started = db_now c,
     at_completion = None, at_receipt = None, at_completed = None, at_reference = None,
     at_dispatched = False, at_real = False\<rparr>"

lemma distinct_find:
  "distinct (map ef_id (effects db)) \<Longrightarrow> find_effect i db = Some r \<Longrightarrow> x \<in> set (effects db) \<Longrightarrow>
     ef_id x = i \<Longrightarrow> x = r"
  by (auto simp: find_effect_def find_Some_iff distinct_map inj_on_def)

lemma start_row_sel [simp]:
  "ef_attempts (start_row c r) = ef_attempts r + 1" "ef_updated (start_row c r) = db_now c"
  "row_envelope (start_row c r) = row_envelope r" "ef_generation (start_row c r) = ef_generation r"
  "ef_fence (start_row c r) = ef_fence r" "ef_state (start_row c r) = StateAttempted"
  by (simp_all add: start_row_def row_envelope_def)

lemma row_NewEnvelope:
  "envelope_valid (row_envelope r) \<Longrightarrow>
     NewEnvelope \<lparr>in_owner = ef_owner r, in_kind = ef_kind r, in_source = ef_source r,
       in_target = ef_target r, in_payload = ef_payload r, in_policy = ef_policy r\<rparr> = Inr (row_envelope r)"
  by (simp add: NewEnvelope_def envelope_valid_def row_envelope_def)

lemma ready_persists:
  assumes "ready c l i r db"
  shows "store_persist_attempt c l db =
    (Inr (row_envelope r, row_attempt c r, projection (start_row c r)),
     (update_effect i (start_row c) db)\<lparr>attempts := attempts db @ [new_attempt c r]\<rparr>)"
proof -
  have id: "ef_id r = i" using assms find_effect_in by (auto simp: ready_def)
  have only: "list_ex (\<lambda>x. ef_id x = i \<and> (ef_fence x \<le> 0 \<or> ef_expires x = None)) (effects db) = False"
    using assms distinct_find [of db i r]
    by (auto simp: ready_def list_ex_iff lease_validFields_def)
  have fields: "0 < ef_generation r" "0 < ef_fence r" using assms by (auto simp: ready_def lease_validFields_def)
  have envelope: "NewEnvelope \<lparr>in_owner = ef_owner (start_row c r), in_kind = ef_kind (start_row c r),
      in_source = ef_source (start_row c r), in_target = ef_target (start_row c r),
      in_payload = ef_payload (start_row c r), in_policy = ef_policy (start_row c r)\<rparr> = Inr (row_envelope r)"
    using row_NewEnvelope [of "start_row c r"] assms by (simp add: ready_def)
  show ?thesis
    using assms id fields only envelope
    by (auto simp: ready_def store_persist_attempt_def and_then_def within_def LockEffect_def
        find_update_effect StartAttempt_def InsertAttempt_def list_ex_iff new_attempt_def row_attempt_def)
qed

lemma ready_checks:
  assumes "ready c l i r db"
  shows "envelope_valid (row_envelope r)" and "attempt_validFor (row_attempt c r) l"
    and "projection_valid (projection (start_row c r))"
    and "proj_id (projection (start_row c r)) = lease_effect l"
    and "proj_state (projection (start_row c r)) = StateAttempted"
proof -
  have "ef_id r = i" using assms find_effect_in by (auto simp: ready_def)
  then show "envelope_valid (row_envelope r)" "attempt_validFor (row_attempt c r) l"
    "projection_valid (projection (start_row c r))" "proj_id (projection (start_row c r)) = lease_effect l"
    "proj_state (projection (start_row c r)) = StateAttempted"
    using assms
    by (auto simp: ready_def lease_validFields_def attempt_validFor_def row_attempt_def
        projection_valid_def projection_def envelope_valid_def row_envelope_def start_row_def)
qed

text \<open>A completion of the attempt just made, with a receipt not used before, is recorded.\<close>

definition unused_receipt :: "int \<Rightarrow> digest \<Rightarrow> eer_db \<Rightarrow> bool" where
  "unused_receipt i d db \<longleftrightarrow>
     (\<forall>x \<in> set (receipts db). rr_operation x = OpCompleteAttempt \<longrightarrow> rr_command x \<noteq> d \<and>
        \<not> (rr_effect x = i \<and> rr_key x = d))"

lemma ready_completes:
  assumes "ready c l i r db" and "completion_state (res_completion res) = Some s"
    and "db_digest (res_receipt res)" and "res_reference res = [] \<or> db_digest (res_reference res)"
    and "unused_receipt i (res_receipt res) db"
    and db1: "db1 = (update_effect i (start_row c) db)\<lparr>attempts := attempts db @ [new_attempt c r]\<rparr>"
  shows "\<exists>rc db2. store_complete c' l (row_attempt c r) res db1 =
      (Inr (projection (state_row c' s (start_row c r)), receipt rc), db2) \<and>
    find_effect i db2 = Some (state_row c' s (start_row c r)) \<and>
    rr_effect rc = i \<and> rr_command rc = res_receipt res \<and> rr_state rc = s \<and> rr_completed rc = db_now c'"
proof -
  have row: "find_effect i db1 = Some (start_row c r)"
    using assms(1) by (simp add: db1 ready_def find_update_effect)
  have ids: "parseID (lease_effect l) = Inr i" "ef_generation r = lease_generation l" "ef_fence r = lease_fence l"
    using assms(1) by (auto simp: ready_def)
  have target: "terminal_state res = s" "validState s"
    using assms(2) by (cases "res_completion res"; auto simp: terminal_state_def)+
  have unused: "\<not> list_ex (\<lambda>x. rr_operation x = OpCompleteAttempt \<and> rr_effect x = i \<and> rr_key x = res_receipt res) (receipts db1)"
    "\<not> list_ex (\<lambda>x. rr_operation x = OpCompleteAttempt \<and> rr_command x = res_receipt res) (receipts db1)"
    using assms(5) by (auto simp: db1 unused_receipt_def list_ex_iff)
  show ?thesis
    using assms(2-4) row ids target unused
    by (auto simp: store_complete_def and_then_def within_def LockEffect_def find_update_effect
        CompleteChannelAcquisitionAssetAttempt_def q_CompleteAttempt_def UpdateEffectState_def
        InsertReceipt_def Let_def nullableText_def state_row_def)
qed

text \<open>A receipt digest is recorded once per operation.\<close>

lemma complete_receipt:
  "store_complete c l a res db = (Inr v, db') \<Longrightarrow>
     \<exists>x \<in> set (receipts db'). rr_operation x = OpCompleteAttempt \<and> rr_command x = res_receipt res"
  by (auto simp: store_complete_def tx_iff split: if_splits dest!: InsertReceipt_InrD)

lemma used_receipt_refused:
  assumes "ready c l i r db" and db1: "x \<in> set (receipts db1)"
    and "rr_operation x = OpCompleteAttempt" and "rr_command x = res_receipt res"
    and "db1 = (update_effect i (start_row c) db)\<lparr>attempts := attempts db @ [new_attempt c r]\<rparr>"
  shows "store_complete c' l (row_attempt c r) res db1 = (Inl ErrUnavailable, db1)"
proof -
  have row: "find_effect i db1 = Some (start_row c r)"
    using assms(1,5) by (simp add: ready_def find_update_effect)
  have ids: "parseID (lease_effect l) = Inr i" "ef_generation r = lease_generation l" "ef_fence r = lease_fence l"
    using assms(1) by (auto simp: ready_def)
  have "list_ex (\<lambda>x. rr_operation x = OpCompleteAttempt \<and> rr_command x = res_receipt res) (receipts db1)"
    using assms(2-4) by (auto simp: list_ex_iff)
  then show ?thesis
    using row ids
    by (auto simp: store_complete_def and_then_def within_def LockEffect_def find_update_effect
        CompleteChannelAcquisitionAssetAttempt_def q_CompleteAttempt_def UpdateEffectState_def
        InsertReceipt_def Let_def)
qed

lemma parse_formatID: "1 \<le> i \<Longrightarrow> i \<le> max_int64 \<Longrightarrow> parseID (formatID i) = Inr i"
  by (simp add: parseID_def formatID_def parse_show_int max_int64_def)

end
