(* ===== verification/ContactProfile.thy ===== *)
theory ContactProfile
  imports EffectTypes
begin

text \<open>
  The provider adapter that writes a WeCom contact profile
  (\<^verbatim>\<open>internal/outbound/provider/wecom_contact_profile.go\<close>): request validation, one HTTP
  call per token, one repeat after a refreshed token, and the mapping of what came back to an
  \<open>AdapterResult\<close> of the external-effects runtime.

  The HTTP client, the token source and the JSON decoder are parameters
  (\<open>profile_env\<close>): \<open>pf_errcode\<close> is the decoder's \<^verbatim>\<open>errcode\<close> when the body is exactly
  one JSON object, and \<open>pf_do\<close> is what the client returns for one request. The model
  keeps the list of tokens with which the endpoint was called.
\<close>

record ContactProfileWriteRequest =
  pr_corp :: string
  pr_staff :: string
  pr_external :: string
  pr_remark :: string
  pr_description :: string

datatype http_outcome =
    TransportError
  | Response int "string option"

record profile_env =
  pf_token :: "string option"
  pf_refresh :: "string option"
  pf_buildable :: "string \<Rightarrow> bool"
  pf_do :: "string \<Rightarrow> ContactProfileWriteRequest \<Rightarrow> http_outcome"
  pf_errcode :: "string \<Rightarrow> int option"

definition max_profile_response :: nat where
  "max_profile_response = 1048576"

section \<open>Results\<close>

definition profileDigest :: "crypto_env \<Rightarrow> string \<Rightarrow> digest" where
  "profileDigest E label = hashText E (''outbound.wecom.contact-profile.v1'' @ [nul] @ label)"

definition executedProfileResult :: "crypto_env \<Rightarrow> string \<Rightarrow> AdapterResult" where
  "executedProfileResult E label = \<lparr>res_completion = CompletionExecuted,
     res_receipt = profileDigest E label, res_reference = [], res_dispatched = True, res_real = True\<rparr>"

definition unknownProfileResult :: "crypto_env \<Rightarrow> string \<Rightarrow> AdapterResult" where
  "unknownProfileResult E label = \<lparr>res_completion = CompletionOutcomeUnknown,
     res_receipt = profileDigest E label, res_reference = [], res_dispatched = True, res_real = True\<rparr>"

definition finalProfileResult :: "crypto_env \<Rightarrow> string \<Rightarrow> bool \<Rightarrow> bool \<Rightarrow> AdapterResult" where
  "finalProfileResult E label dispatched real = \<lparr>res_completion = CompletionFinalFailed,
     res_receipt = profileDigest E label, res_reference = [], res_dispatched = dispatched,
     res_real = real\<rparr>"

section \<open>Validation\<close>

definition is_control :: "string \<Rightarrow> bool" where
  "is_control r =
     (case map byte r of
        [b] \<Rightarrow> b < 32 \<or> b = 127
      | [b, c] \<Rightarrow> b = 194 \<and> c < 160
      | _ \<Rightarrow> False)"

definition validProfileText :: "string \<Rightarrow> nat \<Rightarrow> nat \<Rightarrow> bool" where
  "validProfileText v lo hi \<longleftrightarrow>
     lo \<le> length v \<and> length v \<le> hi \<and> trim_space v = v \<and> valid_utf8 v \<and>
     \<not> list_ex is_control (runes v)"

definition validOptionalProfileText :: "string \<Rightarrow> nat \<Rightarrow> bool" where
  "validOptionalProfileText v hi \<longleftrightarrow>
     length v \<le> hi \<and> trim_space v = v \<and> valid_utf8 v \<and> \<not> list_ex is_control (runes v)"

definition validProfileToken :: "string \<Rightarrow> bool" where
  "validProfileToken v \<longleftrightarrow> validProfileText v 1 4096 \<and> \<not> list_ex is_space (runes v)"

definition validContactProfileRequest :: "ContactProfileWriteRequest \<Rightarrow> bool" where
  "validContactProfileRequest r \<longleftrightarrow>
     validProfileText (pr_corp r) 1 256 \<and> validProfileText (pr_staff r) 1 128 \<and>
     validProfileText (pr_external r) 1 1024 \<and> validProfileText (pr_remark r) 1 400 \<and>
     validOptionalProfileText (pr_description r) 1500"

section \<open>The write\<close>

text \<open>The second component says that the token had expired; the third lists the calls made.\<close>

definition writeWithToken ::
  "crypto_env \<Rightarrow> profile_env \<Rightarrow> string \<Rightarrow> ContactProfileWriteRequest \<Rightarrow>
     AdapterResult \<times> bool \<times> string list" where
  "writeWithToken E P token r =
     (if \<not> pf_buildable P token then (finalProfileResult E ''request'' False False, False, [])
      else (case pf_do P token r of
         TransportError \<Rightarrow> (unknownProfileResult E ''transport'', False, [token])
       | Response status body \<Rightarrow>
           if status \<noteq> 200
           then (unknownProfileResult E (''http-'' @ show_int status), False, [token])
           else (case body of
               None \<Rightarrow> (unknownProfileResult E ''body'', False, [token])
             | Some data \<Rightarrow>
                 if max_profile_response < length data
                 then (unknownProfileResult E ''body'', False, [token])
                 else (case pf_errcode P data of
                     None \<Rightarrow> (unknownProfileResult E ''json'', False, [token])
                   | Some code \<Rightarrow>
                       if code = 0 then (executedProfileResult E ''ok'', False, [token])
                       else if code = 40014 \<or> code = 42001
                       then (finalProfileResult E (''expired-'' @ show_int code) True True, True, [token])
                       else (finalProfileResult E (''upstream-'' @ show_int code) True True, False, [token])))))"

definition usable_token :: "string option \<Rightarrow> bool" where
  "usable_token t = (case t of None \<Rightarrow> False | Some v \<Rightarrow> validProfileToken v)"

definition WriteContactProfile ::
  "crypto_env \<Rightarrow> profile_env \<Rightarrow> ContactProfileWriteRequest \<Rightarrow> AdapterResult \<times> string list" where
  "WriteContactProfile E P r =
     (if \<not> validContactProfileRequest r then (finalProfileResult E ''invalid'' False False, [])
      else if \<not> usable_token (pf_token P) then (finalProfileResult E ''token'' False False, [])
      else
        (let (result, expired, calls) = writeWithToken E P (the (pf_token P)) r in
         if \<not> expired then (result, calls)
         else if \<not> usable_token (pf_refresh P) then (result, calls)
         else
           (let (result', _, calls') = writeWithToken E P (the (pf_refresh P)) r in
            (result', calls @ calls'))))"

section \<open>Facts\<close>

lemma writeWithToken_valid:
  "sha_ok E \<Longrightarrow> result_valid (fst (writeWithToken E P token r))"
  by (simp add: writeWithToken_def result_valid_def finalProfileResult_def unknownProfileResult_def
      executedProfileResult_def profileDigest_def validDigest_hashText
      split: http_outcome.splits option.splits)

lemma writeWithToken_calls:
  "snd (snd (writeWithToken E P token r)) = (if pf_buildable P token then [token] else [])"
  by (simp add: writeWithToken_def split: http_outcome.splits option.splits)

lemma writeWithToken_expired:
  "fst (snd (writeWithToken E P token r)) \<Longrightarrow>
     \<exists>body code. pf_do P token r = Response 200 (Some body) \<and> pf_errcode P body = Some code \<and>
       (code = 40014 \<or> code = 42001)"
  by (auto simp: writeWithToken_def split: http_outcome.splits option.splits if_splits)

text \<open>Executed is reported exactly when the call answered with code zero.\<close>

lemma writeWithToken_executed:
  "res_completion (fst (writeWithToken E P token r)) = CompletionExecuted \<longleftrightarrow>
     pf_buildable P token \<and> (\<exists>body. pf_do P token r = Response 200 (Some body) \<and>
       length body \<le> max_profile_response \<and> pf_errcode P body = Some 0)"
  by (auto simp: writeWithToken_def finalProfileResult_def unknownProfileResult_def
      executedProfileResult_def split: http_outcome.splits option.splits if_splits)

lemma writeWithToken_ok:
  "res_completion (fst (writeWithToken E P token r)) = CompletionExecuted \<Longrightarrow>
     fst (writeWithToken E P token r) = executedProfileResult E ''ok''"
  by (auto simp: writeWithToken_def finalProfileResult_def unknownProfileResult_def
      split: http_outcome.splits option.splits if_splits)

text \<open>The three ways a write ends: before any call, after one attempt, after two.\<close>

lemma WriteContactProfile_cases:
  assumes "WriteContactProfile E P r = (res, calls)"
  obtains (refused) lab where "res = finalProfileResult E lab False False" and "calls = []"
  | (once) t where "pf_token P = Some t" and "res = fst (writeWithToken E P t r)"
      and "calls = snd (snd (writeWithToken E P t r))"
  | (twice) t u where "pf_token P = Some t" and "pf_refresh P = Some u"
      and "fst (snd (writeWithToken E P t r))" and "res = fst (writeWithToken E P u r)"
      and "calls = snd (snd (writeWithToken E P t r)) @ snd (snd (writeWithToken E P u r))"
  using assms
  by (auto simp: WriteContactProfile_def usable_token_def Let_def split: if_splits option.splits prod.splits)

lemma WriteContactProfile_valid:
  "sha_ok E \<Longrightarrow> WriteContactProfile E P r = (res, calls) \<Longrightarrow> result_valid res"
proof (erule WriteContactProfile_cases)
  fix lab
  show "sha_ok E \<Longrightarrow> res = finalProfileResult E lab False False \<Longrightarrow> result_valid res"
    by (simp add: result_valid_def finalProfileResult_def profileDigest_def validDigest_hashText)
qed (simp_all add: writeWithToken_valid)

lemma WriteContactProfile_ok:
  "WriteContactProfile E P r = (res, calls) \<Longrightarrow> res_completion res = CompletionExecuted \<Longrightarrow>
     res = executedProfileResult E ''ok''"
  by (erule WriteContactProfile_cases) (auto simp: writeWithToken_ok finalProfileResult_def)

section \<open>A sample endpoint\<close>

text \<open>Token \<^verbatim>\<open>t\<close> has expired, token \<^verbatim>\<open>u\<close> works.\<close>

definition P0 :: profile_env where
  "P0 = \<lparr>pf_token = Some ''t'', pf_refresh = Some ''u'', pf_buildable = (\<lambda>_. True),
     pf_do = (\<lambda>t _. Response 200 (Some t)),
     pf_errcode = (\<lambda>b. if b = ''t'' then Some 42001 else Some 0)\<rparr>"

definition request0 :: ContactProfileWriteRequest where
  "request0 = \<lparr>pr_corp = ''c'', pr_staff = ''s'', pr_external = ''e'', pr_remark = ''r'', pr_description = []\<rparr>"

lemma sample_texts: "validContactProfileRequest request0" "validProfileToken ''t''" "validProfileToken ''u''"
  by code_simp+

lemma sample_write: "WriteContactProfile E P0 request0 = (executedProfileResult E ''ok'', [''t'', ''u''])"
proof -
  have "validContactProfileRequest request0" "validProfileToken ''t''" "validProfileToken ''u''"
    by (rule sample_texts)+
  then show ?thesis
    by (simp add: WriteContactProfile_def usable_token_def writeWithToken_def P0_def max_profile_response_def)
qed

end
