(* ===== verification/EffectSample.thy ===== *)
theory EffectSample
  imports EffectFacts ContactProfile
begin

text \<open>
  A small concrete database, built by the service's own operations, on which the runtime
  properties are instantiated. The sample hash is constant, so every digest is \<open>d0\<close>.
\<close>

definition E0 :: crypto_env where
  "E0 = \<lparr>sha256 = (\<lambda>_. replicate 32 (CHR 0x00)), rfc3339 = (\<lambda>_. ''t'')\<rparr>"

definition d0 :: digest where
  "d0 = digest_prefix @ replicate 64 (CHR ''0'')"

definition c0 :: clock where
  "c0 = \<lparr>db_now = 10, go_now = 10\<rparr>"

definition late :: clock where
  "late = \<lparr>db_now = 40000000000, go_now = 40000000000\<rparr>"

definition accept0 :: AcceptCommand where
  "accept0 = \<lparr>acc_key = d0, acc_envelope = \<lparr>env_owner = OwnerWeCom, env_kind = KindWeComProfileSync,
     env_source = d0, env_target = d0, env_payload = d0, env_policy = d0\<rparr>\<rparr>"

definition queue0 :: JobCommand where
  "queue0 = \<lparr>jc_effect = ''eer_1'', jc_job = \<lparr>job_id = 1, job_generation = 1, job_queue = ''q'',
     job_args = d0, job_scheduled = 1\<rparr>, jc_key = d0\<rparr>"

definition claim0 :: ClaimCommand where
  "claim0 = \<lparr>claim_effect = ''eer_1'', claim_worker = d0\<rparr>"

definition cancel0 :: CancelCommand where
  "cancel0 = \<lparr>can_effect = ''eer_1'', can_key = d0\<rparr>"

definition lease0 :: "int \<Rightarrow> Lease" where
  "lease0 f = \<lparr>lease_effect = ''eer_1'', lease_generation = 2, lease_fence = f,
     lease_expires = 30000000010\<rparr>"

definition attempt0 :: Attempt where
  "attempt0 = \<lparr>att_number = 1, att_generation = 2, att_fence = 1, att_started = 10\<rparr>"

definition result0 :: "completion \<Rightarrow> AdapterResult" where
  "result0 k = \<lparr>res_completion = k, res_receipt = d0, res_reference = [], res_dispatched = True,
     res_real = True\<rparr>"

definition accepted_calls :: "svc_call list" where
  "accepted_calls = [CallAccept c0 accept0]"

definition queued_calls :: "svc_call list" where
  "queued_calls = accepted_calls @ [CallQueue c0 queue0]"

definition claimed_calls :: "svc_call list" where
  "claimed_calls = queued_calls @ [CallClaim 10 c0 claim0]"

definition attempted_calls :: "svc_call list" where
  "attempted_calls = claimed_calls @ [CallPersist c0 (lease0 1)]"

definition unknown_calls :: "svc_call list" where
  "unknown_calls = attempted_calls @ [CallComplete c0 (lease0 1) attempt0 (result0 CompletionOutcomeUnknown)]"

section \<open>The sample tables\<close>

definition row0 :: "eff_state \<Rightarrow> int \<Rightarrow> int \<Rightarrow> int \<Rightarrow> instant option \<Rightarrow> effect_row" where
  "row0 st n g f ex = \<lparr>ef_id = 1, ef_owner = OwnerWeCom, ef_kind = KindWeComProfileSync,
     ef_source = d0, ef_target = d0, ef_payload = d0, ef_policy = d0, ef_fingerprint = d0,
     ef_state = st, ef_attempts = n, ef_generation = g, ef_fence = f, ef_expires = ex,
     ef_job = (if g = 1 then None else Some (1, ''q'', d0, 1)), ef_updated = 10, ef_created = 10\<rparr>"

definition receipt0 :: "int \<Rightarrow> receipt_op \<Rightarrow> eff_state \<Rightarrow> receipt_row" where
  "receipt0 n op st = \<lparr>rr_id = n, rr_operation = op, rr_effect = 1, rr_key = d0, rr_command = d0,
     rr_state = st, rr_completed = 10\<rparr>"

definition attempt_row0 :: "completion option \<Rightarrow> attempt_row" where
  "attempt_row0 k = \<lparr>at_effect = 1, at_number = 1, at_generation = 2, at_fence = 1, at_started = 10,
     at_completion = k, at_receipt = map_option (\<lambda>_. d0) k, at_completed = map_option (\<lambda>_. 10) k,
     at_reference = None, at_dispatched = False, at_real = False\<rparr>"

definition db0 :: "effect_row \<Rightarrow> attempt_row list \<Rightarrow> receipt_row list \<Rightarrow> eer_db" where
  "db0 r as rs = \<lparr>effects = [r], attempts = as, receipts = rs, recons = [], next_effect = 2,
     next_receipt = int (length rs) + 1\<rparr>"

lemma zero_hex [simp]: "is_lower_hex (CHR ''0'')" "is_hex (CHR ''0'')"
  by (simp_all add: is_lower_hex_def is_hex_def is_digit_def in_range_def byte_def)

lemma d0_valid [simp]: "validDigest d0" "db_digest d0"
  by (simp_all add: validDigest_def db_digest_def d0_def hex_decodable_def list_all_iff)

lemma d0_not_Nil [simp]: "d0 \<noteq> []"
  using validDigest_not_Nil d0_valid by blast

lemma hex_digit_zero [simp]: "hex_digit 0 = CHR ''0''" "byte (CHR 0x00) = 0"
  by code_simp+

lemma hex_encode_zeros: "hex_encode (replicate n (CHR 0x00)) = replicate (2 * n) (CHR ''0'')"
  by (induction n) simp_all

lemma hash0 [simp]: "hashText E0 s = d0" "digestParts E0 lab ps = d0"
  by (simp_all add: hashText_def digestParts_def E0_def d0_def hex_encode_zeros)

lemma id0 [simp]: "parseID ''eer_1'' = Inr 1" "formatID 1 = ''eer_1''"
  by code_simp+

lemma trim_q [simp]: "trim_space ''q'' = ''q''"
  by code_simp

lemma sample_digests [simp]:
  "accept_digest E0 accept0 = d0" "queue_digest E0 queue0 = d0" "cancel_digest E0 cancel0 = d0"
  "Fingerprint E0 (acc_envelope accept0) = d0"
  "0 < f \<Longrightarrow> recover_digest E0 (lease0 f) = d0"
  by (simp_all add: accept_digest_def queue_digest_def job_command_digest_def cancel_digest_def
      recover_digest_def Fingerprint_def accept0_def queue0_def cancel0_def lease0_def
      envelope_valid_def job_valid_def lease_validFields_def)

lemmas sample_defs = row0_def receipt0_def attempt_row0_def db0_def c0_def late_def accept0_def
  queue0_def claim0_def cancel0_def lease0_def attempt0_def result0_def

lemmas statement_defs = LockEffect_def LockEffectByFingerprint_def CreateEffect_def QueueEffect_def
  ClaimEffect_def CancelEffect_def StartAttempt_def InsertAttempt_def q_CompleteAttempt_def
  open_attempt_def MarkAttemptOutcomeUnknown_def LockOpenAttempt_def UpdateEffectState_def
  ReconcileAttempt_def MarkEffectReconciled_def GetReceipt_def GetAcceptReceipt_def
  InsertReceipt_def find_effect_def update_effect_def queue_row_def claim_row_def cancel_row_def
  start_row_def state_row_def reconciled_row_def projection_def receipt_def Let_def
  channelAcquisitionAssetTerminalEvidence_def lease_nanos_def

text \<open>Each sample operation, from one table state to the next.\<close>

lemma accept0_runs: "store_accept E0 c0 accept0 empty_db =
    (Inr (projection (row0 StateAccepted 0 1 0 None), receipt (receipt0 1 OpAccept StateAccepted)),
     db0 (row0 StateAccepted 0 1 0 None) [] [receipt0 1 OpAccept StateAccepted])"
  by (simp add: store_accept_def and_then_def within_def empty_db_def statement_defs)
    (simp add: sample_defs)

lemma queue0_runs: "store_Queue E0 c0 queue0 (db0 (row0 StateAccepted 0 1 0 None) []
      [receipt0 1 OpAccept StateAccepted]) =
    (Inr (projection (row0 StateQueued 0 2 0 None), receipt (receipt0 2 OpQueue StateQueued)),
     db0 (row0 StateQueued 0 2 0 None) [] [receipt0 1 OpAccept StateAccepted, receipt0 2 OpQueue StateQueued])"
  by (simp add: store_Queue_def store_queue_def and_then_def within_def statement_defs)
    (simp add: sample_defs statement_defs)

lemma claim0_runs: "store_claim c0 claim0 (db0 (row0 StateQueued 0 2 f ex) [] rs) =
    (Inr (lease0 (f + 1), projection (row0 StateQueued 0 2 (f + 1) (Some 30000000010))),
     db0 (row0 StateQueued 0 2 (f + 1) (Some 30000000010)) [] rs)"
  by (simp add: store_claim_def and_then_def within_def statement_defs sample_defs)

lemma persist0_runs: "store_persist_attempt c0 (lease0 1)
      (db0 (row0 StateQueued 0 2 1 (Some 30000000010)) [] rs) =
    (Inr (acc_envelope accept0, attempt0, projection (row0 StateAttempted 1 2 1 (Some 30000000010))),
     db0 (row0 StateAttempted 1 2 1 (Some 30000000010)) [attempt_row0 None] rs)"
  by (simp add: store_persist_attempt_def and_then_def within_def statement_defs sample_defs NewEnvelope_def)

definition receipts0 :: "receipt_row list" where
  "receipts0 = [receipt0 1 OpAccept StateAccepted, receipt0 2 OpQueue StateQueued]"

lemma complete0_runs: "store_complete c0 (lease0 1) attempt0 (result0 CompletionOutcomeUnknown)
      (db0 (row0 StateAttempted 1 2 1 (Some 30000000010)) [attempt_row0 None] receipts0) =
    (Inr (projection (row0 StateOutcomeUnknown 1 2 1 None), receipt (receipt0 3 OpCompleteAttempt StateOutcomeUnknown)),
     db0 (row0 StateOutcomeUnknown 1 2 1 None) [attempt_row0 (Some CompletionOutcomeUnknown)]
       (receipts0 @ [receipt0 3 OpCompleteAttempt StateOutcomeUnknown]))"
  by (simp add: store_complete_def and_then_def within_def statement_defs sample_defs receipts0_def
      terminal_state_def)

lemmas sample_ops = accept0_runs queue0_runs claim0_runs persist0_runs complete0_runs

lemma sample_results [simp]:
  "projection_valid (projection (row0 StateAccepted 0 1 0 None))"
  "projection_valid (projection (row0 StateQueued 0 2 f ex))"
  "projection_valid (projection (row0 StateAttempted 1 2 f ex))"
  "receipt_validFor (receipt (receipt0 n op StateAccepted)) ''eer_1'' d0"
  "receipt_validFor (receipt (receipt0 n op StateQueued)) ''eer_1'' d0"
  by (simp_all add: projection_valid_def receipt_validFor_def projection_def receipt_def sample_defs)

lemma accepted_db: "pg_run E0 accepted_calls =
    db0 (row0 StateAccepted 0 1 0 None) [] [receipt0 1 OpAccept StateAccepted]"
  by (simp add: pg_run_def accepted_calls_def svc_accept_def pg_store_def accept0_runs and_then_def
      split: prod.splits)

lemma proj_id0 [simp]: "proj_id (projection (row0 st n g f ex)) = ''eer_1''"
  by (simp add: projection_def row0_def)

lemma svc_accept0: "svc_accept E0 (pg_store E0) c0 accept0 empty_db =
    (Inr (projection (row0 StateAccepted 0 1 0 None), receipt (receipt0 1 OpAccept StateAccepted)),
     pg_run E0 accepted_calls)"
  by (simp add: accepted_db svc_accept_def pg_store_def accept0_runs and_then_def)

lemma queued_db: "pg_run E0 queued_calls = db0 (row0 StateQueued 0 2 0 None) [] receipts0"
proof -
  have "svc_exec E0 (pg_store E0) (CallQueue c0 queue0) (pg_run E0 accepted_calls)
      = db0 (row0 StateQueued 0 2 0 None) [] receipts0"
    by (simp add: accepted_db svc_queue_def pg_store_def queue0_runs and_then_def receipts0_def)
  then show ?thesis
    by (simp add: queued_calls_def pg_run_def svc_run_append)
qed

lemma claimed_db:
  "pg_run E0 claimed_calls = db0 (row0 StateQueued 0 2 1 (Some 30000000010)) [] receipts0"
proof -
  have "svc_exec E0 (pg_store E0) (CallClaim 10 c0 claim0) (pg_run E0 queued_calls)
      = db0 (row0 StateQueued 0 2 1 (Some 30000000010)) [] receipts0"
    by (simp add: queued_db svc_claim_def pg_store_def claim0_runs and_then_def) (simp add: claim0_def)
  then show ?thesis
    by (simp add: claimed_calls_def pg_run_def svc_run_append)
qed

lemma attempted_db: "pg_run E0 attempted_calls =
    db0 (row0 StateAttempted 1 2 1 (Some 30000000010)) [attempt_row0 None] receipts0"
  using claimed_db by (simp add: attempted_calls_def pg_run_def svc_run_append pg_store_def persist0_runs)

lemma unknown_db: "pg_run E0 unknown_calls =
    db0 (row0 StateOutcomeUnknown 1 2 1 None) [attempt_row0 (Some CompletionOutcomeUnknown)]
      (receipts0 @ [receipt0 3 OpCompleteAttempt StateOutcomeUnknown])"
  using attempted_db complete0_runs
  by (simp add: unknown_calls_def pg_run_def svc_run_append pg_store_def) (simp add: result0_def)

lemmas sample_dbs = accepted_db queued_db claimed_db attempted_db unknown_db

lemma find_row0 [simp]: "find_effect 1 (db0 (row0 st n g f ex) as rs) = Some (row0 st n g f ex)"
  by (simp add: find_effect_def db0_def row0_def)

section \<open>A second hash\<close>

text \<open>\<open>E1\<close> tells the texts with a \<^verbatim>\<open>u\<close> or a \<^verbatim>\<open>1\<close> from the others.\<close>

definition E1 :: crypto_env where
  "E1 = \<lparr>sha256 = (\<lambda>s. replicate 32 (if CHR ''u'' \<in> set s \<or> CHR ''1'' \<in> set s then CHR 0x11 else CHR 0x00)),
     rfc3339 = (\<lambda>_. ''t'')\<rparr>"

definition d1 :: digest where
  "d1 = digest_prefix @ replicate 64 (CHR ''1'')"

definition refund1 :: AcceptCommand where
  "refund1 = \<lparr>acc_key = d0, acc_envelope = \<lparr>env_owner = OwnerOrder, env_kind = KindOrderRefund,
     env_source = d0, env_target = d0, env_payload = d0, env_policy = d0\<rparr>\<rparr>"

definition accepted_db0 :: eer_db where
  "accepted_db0 = db0 (row0 StateAccepted 0 1 0 None) [] [receipt0 1 OpAccept StateAccepted]"

lemma set_d [simp]: "set d0 = set ''sha256:0''" "set d1 = set ''sha256:1''"
  by (auto simp: d0_def d1_def digest_prefix_def)

lemma hash1: "hashText E1 s = (if CHR ''u'' \<in> set s \<or> CHR ''1'' \<in> set s then d1 else d0)"
proof -
  have "hex_digit 1 = CHR ''1''" "byte (CHR 0x11) = 17" by code_simp+
  then have "hex_encode (replicate n (CHR 0x11)) = replicate (2 * n) (CHR ''1'')" for n
    by (induction n) simp_all
  then show ?thesis
    by (simp add: hashText_def E1_def d0_def d1_def hex_encode_zeros)
qed

lemma accept1_digests: "accept_digest E1 accept0 = d0" "accept_digest E1 refund1 = d1" "d1 \<noteq> d0"
  "Fingerprint E1 (acc_envelope accept0) = d0"
proof -
  show "d1 \<noteq> d0" by (simp add: d0_def d1_def)
  show "Fingerprint E1 (acc_envelope accept0) = d0" "accept_digest E1 accept0 = d0"
    "accept_digest E1 refund1 = d1"
    by (simp_all add: accept_digest_def Fingerprint_def digestParts_def hash1 accept0_def refund1_def
        envelope_valid_def envelope_parts_def nul_def)
qed

lemma accept1_runs: "store_accept E1 c0 accept0 empty_db =
    (Inr (projection (row0 StateAccepted 0 1 0 None), receipt (receipt0 1 OpAccept StateAccepted)),
     accepted_db0)"
  by (simp add: store_accept_def and_then_def within_def empty_db_def statement_defs accept1_digests
      accepted_db0_def) (simp add: sample_defs)

section \<open>Two profile effects\<close>

definition lease2 :: Lease where
  "lease2 = (lease0 1)\<lparr>lease_effect := ''eer_2''\<rparr>"

definition row2 :: effect_row where
  "row2 = (row0 StateQueued 0 2 1 (Some 30000000010))\<lparr>ef_id := 2, ef_fingerprint := d1\<rparr>"

definition two_effects :: "eff_state \<Rightarrow> instant option \<Rightarrow> attempt_row list \<Rightarrow> receipt_row list \<Rightarrow> eer_db" where
  "two_effects st ex as rs = \<lparr>effects = [row0 st 1 2 1 ex, row2], attempts = as, receipts = rs,
     recons = [], next_effect = 3, next_receipt = 1\<rparr>"

definition first_written :: eer_db where
  "first_written = (two_effects StateExecuted None [attempt_row0 (Some CompletionExecuted)]
     [receipt0 1 OpCompleteAttempt StateExecuted])\<lparr>next_receipt := 2\<rparr>"

lemma first_write_runs: "store_complete c0 (lease0 1) attempt0 (executedProfileResult E0 ''ok'')
      (two_effects StateAttempted (Some 30000000010) [attempt_row0 None] []) =
    (Inr (projection (row0 StateExecuted 1 2 1 None), receipt (receipt0 1 OpCompleteAttempt StateExecuted)),
     first_written)"
  by (simp add: store_complete_def and_then_def within_def statement_defs sample_defs terminal_state_def
      two_effects_def row2_def first_written_def executedProfileResult_def profileDigest_def)

lemma second_ready: "ready c0 lease2 2 row2 first_written"
proof -
  have "parseID ''eer_2'' = Inr 2" "formatID 2 = ''eer_2''" by code_simp+
  then show ?thesis
    by (simp add: ready_def first_written_def two_effects_def find_effect_def row2_def lease2_def
        lease0_def lease_validFields_def c0_def row_envelope_def envelope_valid_def row0_def attempt_row0_def)
qed

end
