(* ===== verification/EffectProperties.thy ===== *)
theory EffectProperties
  imports EffectSample ContactProfile
begin

text \<open>
  The properties of the external-effects runtime on the PostgreSQL store: what holds of every
  database that service calls can produce, in any interleaving, and what each operation
  returns.
\<close>

section \<open>Runs of the service\<close>

text \<open>
  C1. A provider attempt is started at most once per effect and generation: in any database
  the service can reach, no two attempt rows have the same effect and generation.
\<close>

theorem attempt_once_per_generation: "distinct (attempt_keys (pg_run E calls))"
proof (rule distinct_by_key)
  fix i
  let ?runs = "map snd (filter (\<lambda>k. fst k = i) (attempt_keys (pg_run E calls)))"
  show "distinct ?runs"
  proof (cases "find_effect i (pg_run E calls)")
    case None
    then have "filter (\<lambda>k. fst k = i) (attempt_keys (pg_run E calls)) = []"
      using pg_run_ok(1) [of E calls] by (auto simp: db_fresh_def filter_empty_conv)
    then show ?thesis by simp
  next
    case (Some r)
    then have "runs_inv (abs_row r (runs_of i (pg_run E calls)))"
      using pg_run_ok(2) [of E calls] abs_of_Some [OF Some] by (auto simp: view_inv_def)
    then show ?thesis by (simp add: runs_inv_def runs_of_def)
  qed
qed

text \<open>
  C2. An effect whose outcome is unknown is never attempted again: after any later calls it is
  still unknown or has been reconciled, in the same generation and with the same attempts.
\<close>

theorem unknown_never_reattempted:
  assumes "find_effect i (pg_run E calls) = Some r" and "ef_state r = StateOutcomeUnknown"
  shows "\<exists>r'. find_effect i (pg_run E (calls @ later)) = Some r' \<and>
     ef_state r' \<in> {StateOutcomeUnknown, StateReconciled} \<and> ef_generation r' = ef_generation r \<and>
     runs_of i (pg_run E (calls @ later)) = runs_of i (pg_run E calls)"
proof -
  obtain r' where r': "find_effect i (pg_run E (calls @ later)) = Some r'"
    "settled (abs_row r (runs_of i (pg_run E calls))) (abs_row r' (runs_of i (pg_run E (calls @ later))))"
    by (rule svc_run_settles [OF pg_run_ok(1) assms(1), where E = E and calls = later,
          unfolded pg_run_append])
  with assms(2) show ?thesis by (auto simp: settled_def)
qed

theorem unknown_never_reattempted_witness:
  "\<exists>r'. find_effect 1 (pg_run E0 (unknown_calls @ [CallRetry c0 queue0])) = Some r' \<and>
     ef_state r' \<in> {StateOutcomeUnknown, StateReconciled} \<and> ef_generation r' = 2 \<and>
     runs_of 1 (pg_run E0 (unknown_calls @ [CallRetry c0 queue0])) = runs_of 1 (pg_run E0 unknown_calls)"
  using unknown_never_reattempted [of 1 E0 unknown_calls, where later = "[CallRetry c0 queue0]"]
  by (simp add: unknown_db) (simp add: row0_def)

text \<open>
  C18. Every committed call moves each effect along the transition table or leaves its state
  alone, and the pair of generation and fence never goes back.
\<close>

theorem calls_follow_transition_table:
  assumes "find_effect i (pg_run E calls) = Some r"
  shows "\<exists>r'. find_effect i (pg_run E (calls @ [call])) = Some r' \<and>
     (ef_state r' = ef_state r \<or> CanTransition (ef_state r) (ef_state r')) \<and>
     (ef_generation r < ef_generation r' \<or>
      (ef_generation r = ef_generation r' \<and> ef_fence r \<le> ef_fence r'))"
proof -
  have run: "pg_run E (calls @ [call]) = svc_exec E (pg_store E) call (pg_run E calls)"
    by (simp add: pg_run_def svc_run_append)
  obtain r' where r': "find_effect i (pg_run E (calls @ [call])) = Some r'"
    "ef_state r' = ef_state r \<or> CanTransition (ef_state r) (ef_state r')"
    unfolding run by (rule svc_exec_moves [OF pg_run_ok(1) assms])
  moreover have "ef_generation r < ef_generation r' \<or>
      (ef_generation r = ef_generation r' \<and> ef_fence r \<le> ef_fence r')"
    by (rule svc_run_fence [OF pg_run_ok(1) assms, where E = E and calls = "[call]",
          unfolded pg_run_append]) (use r'(1) in auto)
  ultimately show ?thesis by blast
qed

theorem calls_follow_transition_table_witness:
  "\<exists>r'. find_effect 1 (pg_run E0 (queued_calls @ [CallClaim 10 c0 claim0])) = Some r' \<and>
     (ef_state r' = StateQueued \<or> CanTransition StateQueued (ef_state r')) \<and>
     (2 < ef_generation r' \<or> (2 = ef_generation r' \<and> 0 \<le> ef_fence r'))"
  using calls_follow_transition_table [of 1 E0 queued_calls, where call = "CallClaim 10 c0 claim0"]
  by (simp add: queued_db) (simp add: row0_def)

text \<open>
  One effect per fingerprint: in any reachable database the fingerprints of the effect
  rows are pairwise different.
\<close>

theorem one_effect_per_fingerprint:
  "distinct (map ef_fingerprint (effects (pg_run E calls)))"
  unfolding pg_run_def by (rule svc_run_prints_distinct) (simp add: empty_db_def)

section \<open>Leases\<close>

text \<open>
  C3. A lease is fenced out by any later claim of the same effect: whatever calls happen between
  and after the two claims, an attempt run with the first lease changes nothing and is refused.
\<close>

theorem superseded_lease_is_refused:
  assumes first: "svc_claim (pg_store E) now c cmd (pg_run E calls) = (Inr (l, p), db1)"
    and second: "svc_claim (pg_store E) now2 c2 cmd2 (svc_run E (pg_store E) between db1) = (Inr (l2, p2), db2)"
    and same: "claim_effect cmd2 = claim_effect cmd"
  shows "\<exists>e. e \<in> {ErrLeaseExpired, ErrLeaseFence} \<and>
     svc_run_attempt E (pg_store E) now3 c3 c4 l adapter mid (svc_run E (pg_store E) after db2)
       = (Inl e, svc_run E (pg_store E) after db2)"
proof -
  let ?db = "svc_run E (pg_store E) after db2"
  have db1: "db1 = pg_run E (calls @ [CallClaim now c cmd])"
    using first by (simp add: pg_run_def svc_run_append)
  have db2: "db2 = pg_run E (calls @ CallClaim now c cmd # between @ [CallClaim now2 c2 cmd2])"
    using first second by (simp add: pg_run_def svc_run_append)
  obtain i r where r: "parseID (claim_effect cmd) = Inr i" "find_effect i (pg_run E calls) = Some r"
      "find_effect i db1 = Some (claim_row c r)" and l: "lease_effect l = claim_effect cmd"
      "lease_generation l = ef_generation r" "lease_fence l = ef_fence r + 1"
    using store_claim_InrD [OF conjunct1 [OF svc_claim_InrD [OF first]]] by auto
  have lv: "lease_validFields l"
    using svc_claim_InrD [OF first] by (simp add: lease_valid_def)
  have fresh: "db_fresh db1" "db_fresh db2" using pg_run_ok(1) db1 db2 by simp_all
  obtain r1 where r1: "find_effect i (svc_run E (pg_store E) between db1) = Some r1"
      "ef_generation r < ef_generation r1 \<or> (ef_generation r = ef_generation r1 \<and> ef_fence r + 1 \<le> ef_fence r1)"
    by (rule svc_run_fence [OF fresh(1) r(3)]) auto
  have r2: "find_effect i db2 = Some (claim_row c2 r1)"
    using store_claim_InrD [OF conjunct1 [OF svc_claim_InrD [OF second]]] same r(1) r1(1) by auto
  obtain r3 where r3: "find_effect i ?db = Some r3"
      "ef_generation r1 < ef_generation r3 \<or> (ef_generation r1 = ef_generation r3 \<and> ef_fence r1 + 1 \<le> ef_fence r3)"
    by (rule svc_run_fence [OF fresh(2) r2]) auto
  have "ef_generation r3 \<noteq> lease_generation l \<or> ef_fence r3 \<noteq> lease_fence l"
    using r1(2) r3(2) l(2,3) by simp linarith
  then have "store_persist_attempt c3 l ?db = (Inl ErrLeaseFence, ?db)"
    using r(1) r3(1) l(1) by (auto simp: store_persist_attempt_def and_then_def within_def LockEffect_def)
  then show ?thesis
    using lv by (auto simp: svc_run_attempt_def pg_store_def)
qed

theorem superseded_lease_is_refused_witness:
  "\<exists>e. e \<in> {ErrLeaseExpired, ErrLeaseFence} \<and>
     svc_run_attempt E0 (pg_store E0) 11 c0 c0 (lease0 1) (\<lambda>_ _. (result0 CompletionExecuted, False)) id
       (db0 (row0 StateQueued 0 2 2 (Some 30000000010)) [] receipts0)
     = (Inl e, db0 (row0 StateQueued 0 2 2 (Some 30000000010)) [] receipts0)"
proof -
  have claim: "svc_claim (pg_store E0) 10 c0 claim0 (db0 (row0 StateQueued 0 2 f ex) [] receipts0) =
      (Inr (lease0 (f + 1), projection (row0 StateQueued 0 2 (f + 1) (Some 30000000010))),
       db0 (row0 StateQueued 0 2 (f + 1) (Some 30000000010)) [] receipts0)" if "0 \<le> f" for f ex
    using that by (simp add: svc_claim_def pg_store_def claim0_runs and_then_def)
      (simp add: claim0_def lease0_def lease_valid_def lease_validFields_def projection_def row0_def)
  show ?thesis
    using superseded_lease_is_refused [of E0 10 c0 claim0 queued_calls "lease0 1" _ _ 10 c0 claim0 "[]"
        "lease0 2", where after = "[]"]
    by (simp add: queued_db claim)
qed

text \<open>
  An attempt is closed by one writer: after the attempt of a lease was completed, or
  recovered as unknown, every later completion or recovery of the same effect and generation is
  refused and changes nothing, whatever calls happened in between.
\<close>

theorem attempt_closed_once:
  assumes closed: "(completion_state (res_completion res) \<noteq> None \<and>
       store_complete c l a res (pg_run E calls) = (Inr v, db')) \<or>
     store_recover E c l (pg_run E calls) = (Inr v, db')"
    and same: "lease_effect l2 = lease_effect l" "lease_generation l2 = lease_generation l"
  shows "store_complete c2 l2 a2 res2 (svc_run E (pg_store E) later db') =
      (Inl ErrLeaseFence, svc_run E (pg_store E) later db') \<and>
    store_recover E c3 l2 (svc_run E (pg_store E) later db') =
      (Inl ErrRecoveryForbidden, svc_run E (pg_store E) later db')"
proof -
  let ?db = "svc_run E (pg_store E) later db'"
  have "pg_step (pg_run E calls) db'"
    using closed store_complete_step store_recover_step by blast
  then have fresh: "db_fresh db'" using pg_run_ok(1) by (simp add: pg_step_def)
  obtain i r where r: "parseID (lease_effect l) = Inr i" "find_effect i db' = Some r"
    "ef_generation r = lease_generation l" "ef_state r \<notin> {StateAccepted, StateQueued, StateAttempted}"
    using closed store_closing_InrD
    by (auto elim!: completion_state_SomeE dest!: store_closing_InrD) 
  obtain r' where "find_effect i ?db = Some r'"
    "\<not> (ef_state r' = StateAttempted \<and> ef_generation r' = ef_generation r)"
    by (rule svc_run_past [OF fresh r(2,4)])
  then show ?thesis
    using r(1,3) same
    by (cases "ef_state r' = StateAttempted")
      (simp_all add: store_complete_def store_recover_def and_then_def within_def LockEffect_def)
qed

theorem attempt_closed_once_witness:
  "store_complete late (lease0 1) attempt0 (result0 CompletionExecuted) (pg_run E0 unknown_calls) =
      (Inl ErrLeaseFence, pg_run E0 unknown_calls) \<and>
   store_recover E0 late (lease0 1) (pg_run E0 unknown_calls) =
      (Inl ErrRecoveryForbidden, pg_run E0 unknown_calls)"
proof -
  have "store_complete c0 (lease0 1) attempt0 (result0 CompletionOutcomeUnknown) (pg_run E0 attempted_calls) =
      (Inr (projection (row0 StateOutcomeUnknown 1 2 1 None), receipt (receipt0 3 OpCompleteAttempt StateOutcomeUnknown)),
       pg_run E0 unknown_calls)"
    by (simp add: attempted_db complete0_runs unknown_db)
  moreover have "completion_state (res_completion (result0 CompletionOutcomeUnknown)) \<noteq> None"
    by (simp add: result0_def)
  ultimately show ?thesis
    using attempt_closed_once [where l = "lease0 1" and ?l2.0 = "lease0 1" and later = "[]"]
    by (metis svc_run.simps(1))
qed

section \<open>Accepting an effect\<close>

text \<open>
  Accept is idempotent: repeating a successful accept command returns the same projection
  and receipt and changes nothing.
\<close>

theorem accept_replay:
  assumes "svc_accept E (pg_store E) c cmd db = (Inr (p, rc), db')"
  shows "svc_accept E (pg_store E) c2 cmd db' = (Inr (p, rc), db')"
proof -
  have ok: "accept_digest E cmd \<noteq> []" "projection_valid p"
    "receipt_validFor rc (proj_id p) (accept_digest E cmd)"
    and run: "store_accept E c cmd db = (Inr (p, rc), db')"
    using assms by (auto simp: svc_accept_def pg_store_def tx_iff split: if_splits)
  have "store_accept E c2 cmd db' = (Inr (p, rc), db')"
    using run accept_replay_store by blast
  then show ?thesis using ok by (simp add: svc_accept_def pg_store_def)
qed

theorem accept_replay_witness:
  "\<exists>p rc. svc_accept E0 (pg_store E0) late accept0 (pg_run E0 accepted_calls) =
     (Inr (p, rc), pg_run E0 accepted_calls)"
  using accept_replay [OF svc_accept0] by blast

text \<open>
  A key belongs to one command: once an accept command has been recorded, another command
  with the same key is refused and changes nothing, also after any later calls.
\<close>

theorem accept_key_conflict:
  assumes "store_accept E c cmd db = (Inr v, db')"
    and "acc_key cmd2 = acc_key cmd" and "accept_digest E cmd2 \<noteq> accept_digest E cmd"
  shows "\<exists>e. e \<in> {ErrInvalidCommand, ErrPayloadMismatch} \<and>
     svc_accept E (pg_store E) c2 cmd2 (svc_run E (pg_store E) later db') =
       (Inl e, svc_run E (pg_store E) later db')"
proof -
  let ?db = "svc_run E (pg_store E) later db'"
  obtain got where "List.find (\<lambda>r. rr_operation r = OpAccept \<and> rr_key r = acc_key cmd) (receipts db') = Some got"
    "rr_command got = accept_digest E cmd"
    using accept_recorded [OF assms(1)] by blast
  then have "List.find (\<lambda>r. rr_operation r = OpAccept \<and> rr_key r = acc_key cmd) (receipts ?db) = Some got"
    using svc_run_receipts_grow [of db' E later] find_append_Some by (auto simp: receipts_grow_def)
  then have "store_accept E c2 cmd2 ?db = (Inl ErrPayloadMismatch, ?db)"
    using assms(2,3) \<open>rr_command got = accept_digest E cmd\<close>
    by (auto simp: store_accept_def and_then_def within_def LockEffectByFingerprint_def
        GetAcceptReceipt_def Let_def split: option.splits)
  then show ?thesis by (auto simp: svc_accept_def pg_store_def)
qed

theorem accept_key_conflict_witness:
  "\<exists>e. e \<in> {ErrInvalidCommand, ErrPayloadMismatch} \<and>
     svc_accept E1 (pg_store E1) late refund1 accepted_db0 = (Inl e, accepted_db0)"
  using accept_key_conflict [OF accept1_runs, where ?cmd2.0 = refund1 and later = "[]"]
  by (simp add: accept1_digests) (simp add: accept0_def refund1_def)

text \<open>
  The fingerprint identifies the envelope: two valid envelopes have the same fingerprint
  only when they are equal, unless SHA-256 collides on the two texts it is given.
\<close>

theorem fingerprint_identifies_envelope:
  assumes "envelope_valid a" and "envelope_valid b"
    and no_collision: "sha256 E (join_with [nul] (envelope_parts a)) = sha256 E (join_with [nul] (envelope_parts b))
       \<Longrightarrow> join_with [nul] (envelope_parts a) = join_with [nul] (envelope_parts b)"
    and "Fingerprint E a = Fingerprint E b"
  shows "a = b"
proof -
  have "join_with [nul] (envelope_parts a) = join_with [nul] (envelope_parts b)"
    by (rule no_collision, rule hashText_inject) (use assms(1,2,4) in \<open>simp add: Fingerprint_def\<close>)
  then have "envelope_parts a = envelope_parts b"
    using envelope_parts_no_nul assms(1,2)
    by (intro join_with_inject) (auto simp: envelope_parts_def)
  then show ?thesis using envelope_parts_inject assms(1,2) by blast
qed

theorem fingerprint_identifies_envelope_witness:
  "acc_envelope accept0 = (acc_envelope accept0)\<lparr>env_kind := KindWeComProfileSync\<rparr>"
  by (rule fingerprint_identifies_envelope [where E = E0])
    (simp_all add: accept0_def envelope_valid_def)

section \<open>Running an attempt\<close>



section \<open>Identifiers and the operator boundary\<close>

text \<open>
  Effect identifiers round-trip: parsing the public form of a stored identifier gives the
  identifier back, for every positive 64-bit value.
\<close>

theorem effect_id_roundtrip:
  assumes "1 \<le> i" and "i \<le> max_int64"
  shows "parseID (formatID i) = Inr i"
  using assms by (simp add: parseID_def formatID_def parse_show_int max_int64_def)

theorem effect_id_roundtrip_witness: "parseID (formatID 9223372036854775807) = Inr 9223372036854775807"
  by (rule effect_id_roundtrip) (simp_all add: max_int64_def)

text \<open>
  The operator boundary never mutates an effect of a typed domain: cancel, retry and
  reconcile are refused and change nothing for those families, and are the runtime's own
  operations for all others.
\<close>

theorem typed_domains_are_protected:
  assumes "find_effect i db = Some r" and "1 \<le> i" and "i \<le> max_int64"
    and "validOwnerKind (ef_owner r) (ef_kind r)"
    and "can_effect xcmd = formatID i" and "jc_effect jcmd = formatID i"
    and "lease_effect (rec_lease rcmd) = formatID i"
  shows "app_cancel E (pg_store E) store_get c xcmd db =
      (if typedDomainControlRequired (ef_owner r) (ef_kind r) then (Inl ErrReconcileRequired, db)
       else svc_cancel E (pg_store E) c xcmd db) \<and>
    app_retry E (pg_store E) store_get c jcmd db =
      (if typedDomainControlRequired (ef_owner r) (ef_kind r) then (Inl ErrReconcileRequired, db)
       else svc_retry E (pg_store E) c jcmd db) \<and>
    app_reconcile E (pg_store E) store_get c rcmd db =
      (if typedDomainControlRequired (ef_owner r) (ef_kind r) then (Inl ErrReconcileRequired, db)
       else svc_reconcile E (pg_store E) c rcmd db)"
proof -
  have "formatID i \<noteq> []" using assms(2) by (simp add: formatID_def)
  moreover have "store_get (formatID i) db = Inr (projection r)"
    using assms(1-3) by (simp add: store_get_def parse_formatID)
  moreover have "proj_id (projection r) = formatID i"
    using find_effect_in [OF assms(1)] by (simp add: projection_def)
  ultimately have "rejectTypedDomainMutation store_get (formatID i) db =
      (if typedDomainControlRequired (ef_owner r) (ef_kind r) then Inl ErrReconcileRequired else Inr (), db)"
    using assms(4) by (simp add: rejectTypedDomainMutation_def) (simp add: projection_def)
  then show ?thesis
    using assms(5-7) by (simp add: app_cancel_def app_retry_def app_reconcile_def and_then_def)
qed

theorem typed_domains_are_protected_witness:
  "fst (app_cancel E0 (pg_store E0) store_get c0 cancel0
     (db0 ((row0 StateQueued 0 2 0 None)\<lparr>ef_owner := OwnerOrder, ef_kind := KindOrderRefund\<rparr>) [] []))
   = Inl ErrReconcileRequired"
  using typed_domains_are_protected [of 1
      "db0 ((row0 StateQueued 0 2 0 None)\<lparr>ef_owner := OwnerOrder, ef_kind := KindOrderRefund\<rparr>) [] []"
      "(row0 StateQueued 0 2 0 None)\<lparr>ef_owner := OwnerOrder, ef_kind := KindOrderRefund\<rparr>"
      cancel0 queue0 "\<lparr>rec_lease = lease0 1, rec_key = d0, rec_evidence = d0\<rparr>" E0 c0]
  by (simp add: find_effect_def db0_def row0_def max_int64_def cancel0_def queue0_def lease0_def)

text \<open>
  C20. An identifier in another spelling (\<^verbatim>\<open>eer_+1\<close>, \<^verbatim>\<open>eer_01\<close>) names the same row for the
  store but not for the service: cancel then commits the cancellation and reports it as
  forbidden. The operator boundary refuses such identifiers before anything is written.
\<close>

theorem cancel_by_other_spelling:
  assumes "parseID (can_effect cmd) = Inr i" and "formatID i \<noteq> can_effect cmd"
    and row: "find_effect i db = Some r" "ef_state r = StateAccepted \<or> ef_state r = StateQueued"
    and key: "db_digest (can_key cmd)" "validDigest (can_key cmd)" and sha: "sha_ok E"
    and unused: "\<forall>x \<in> set (receipts db). rr_operation x \<noteq> OpCancel"
  shows "\<exists>db'. svc_cancel E (pg_store E) c cmd db = (Inl ErrCancelForbidden, db') \<and>
      find_effect i db' = Some (cancel_row c r) \<and> ef_state (cancel_row c r) = StateCancelled \<and>
      app_cancel E (pg_store E) store_get c cmd db = (Inl ErrUnavailable, db)"
proof -
  have eid: "can_effect cmd \<noteq> []" using assms(1) by (auto simp: parseID_def split: if_splits)
  have id: "ef_id r = i" using find_effect_in row(1) by blast
  have none: "List.find (\<lambda>x. rr_operation x = OpCancel \<and> rr_effect x = i \<and> rr_key x = can_key cmd) (receipts db) = None"
    using unused by (auto simp: find_None_iff)
  have digest: "cancel_digest E cmd \<noteq> []" "db_digest (cancel_digest E cmd)"
    using eid key sha by (simp_all add: cancel_digest_def digestParts_def db_digest_hashText)
  have "\<exists>rc db'. store_cancel E c cmd db = (Inr (projection (cancel_row c r), rc), db') \<and>
      find_effect i db' = Some (cancel_row c r)"
    using assms(1) row none unused key digest
    by (auto simp: store_cancel_def and_then_def within_def LockEffect_def GetReceipt_def
        CancelEffect_def InsertReceipt_def find_update_effect list_ex_iff Let_def cancel_row_def)
  then obtain rc db' where run: "store_cancel E c cmd db = (Inr (projection (cancel_row c r), rc), db')"
    "find_effect i db' = Some (cancel_row c r)" by blast
  have "proj_id (projection (cancel_row c r)) \<noteq> can_effect cmd" "proj_id (projection r) \<noteq> can_effect cmd"
    using assms(2) id by (simp_all add: projection_def)
  then show ?thesis
    using run digest(1) eid row(1) assms(1)
    by (simp add: svc_cancel_def pg_store_def app_cancel_def rejectTypedDomainMutation_def
        store_get_def and_then_def) (simp add: cancel_row_def)
qed

theorem cancel_by_other_spelling_witness:
  "\<exists>db'. svc_cancel E0 (pg_store E0) c0 \<lparr>can_effect = ''eer_+1'', can_key = d0\<rparr> (pg_run E0 queued_calls) =
      (Inl ErrCancelForbidden, db') \<and> map_option ef_state (find_effect 1 db') = Some StateCancelled"
proof -
  have "parseID ''eer_+1'' = Inr 1" by code_simp
  moreover have "sha_ok E0" by (simp add: sha_ok_def E0_def)
  ultimately show ?thesis
    using cancel_by_other_spelling [of "\<lparr>can_effect = ''eer_+1'', can_key = d0\<rparr>" 1
        "pg_run E0 queued_calls" "row0 StateQueued 0 2 0 None" E0 c0]
    by (simp add: queued_db receipts0_def) (auto simp: db0_def receipt0_def row0_def)
qed

section \<open>The contact-profile adapter\<close>

text \<open>
  C40. A profile write reaches the endpoint at most twice; a second call is made only after the
  first one answered that its token had expired, and with the refreshed token.
\<close>

theorem profile_write_calls:
  assumes "WriteContactProfile E P r = (res, calls)"
  shows "length calls \<le> 2 \<and>
    (\<forall>t u. calls = [t, u] \<longrightarrow> pf_token P = Some t \<and> pf_refresh P = Some u \<and>
       (\<exists>body code. pf_do P t r = Response 200 (Some body) \<and> pf_errcode P body = Some code \<and>
          (code = 40014 \<or> code = 42001)))"
  using assms
proof (cases rule: WriteContactProfile_cases)
  case (twice t u)
  then show ?thesis
    using writeWithToken_expired [OF twice(3)] by (auto simp: writeWithToken_calls)
qed (auto simp: writeWithToken_calls)

theorem profile_write_calls_witness:
  "\<exists>body code. pf_do P0 ''t'' request0 = Response 200 (Some body) \<and> pf_errcode P0 body = Some code \<and>
     (code = 40014 \<or> code = 42001)"
  using profile_write_calls [OF sample_write [of E0]] by simp

text \<open>
  C19. The receipt digest of a successful profile write is the same for every request, and a
  receipt digest is recorded once per operation. So after one successful write has been
  recorded, no other can be: the provider has been called, the completion is refused as
  unavailable and the effect stays attempted.
\<close>

theorem second_profile_write_is_never_recorded:
  assumes first: "store_complete c l a (executedProfileResult E ''ok'') db = (Inr v, db')"
    and ready: "ready c2 l2 i r (svc_run E (pg_store E) later db')"
    and lease: "now < lease_expires l2" and sha: "sha_ok E"
    and wrote: "WriteContactProfile E P request = (res, calls)" "res_completion res = CompletionExecuted"
  shows "\<exists>s. svc_run_attempt E (pg_store E) now c2 c3 l2 (\<lambda>_ _. (res, False)) id
      (svc_run E (pg_store E) later db') = (Inl ErrUnavailable, s) \<and>
    map_option ef_state (find_effect i s) = Some StateAttempted"
proof -
  let ?db = "svc_run E (pg_store E) later db'"
  let ?db1 = "(update_effect i (start_row c2) ?db)\<lparr>attempts := attempts ?db @ [new_attempt c2 r]\<rparr>"
  have res: "res = executedProfileResult E ''ok''" using WriteContactProfile_ok wrote by blast
  obtain x where x: "x \<in> set (receipts db')" "rr_operation x = OpCompleteAttempt"
    "rr_command x = res_receipt res"
    using complete_receipt [OF first] res by blast
  have x1: "x \<in> set (receipts ?db1)"
    using svc_run_receipts_grow [of db' E later] x(1) by (auto simp: receipts_grow_def)
  have refused: "store_complete c3 l2 (row_attempt c2 r) res ?db1 = (Inl ErrUnavailable, ?db1)"
    using used_receipt_refused [OF ready x1 x(2,3)] by simp
  have "result_valid res" using WriteContactProfile_valid sha wrote by blast
  then have "normalized_result E l2 (row_attempt c2 r) res False = res"
    by (simp add: normalized_result_def)
  then have "svc_run_attempt E (pg_store E) now c2 c3 l2 (\<lambda>_ _. (res, False)) id ?db = (Inl ErrUnavailable, ?db1)"
    using ready lease ready_checks [OF ready] refused
    by (simp add: svc_run_attempt_def ready_persists [OF ready]
        and_then_def [of "\<lambda>s. (Inr (), id s)"] ready_def)
  moreover have "find_effect i ?db1 = Some (start_row c2 r)"
    using ready by (simp add: ready_def find_update_effect)
  ultimately show ?thesis by simp
qed

text \<open>The witness: two queued profile effects, the first one written.\<close>

theorem second_profile_write_is_never_recorded_witness:
  "\<exists>s. svc_run_attempt E0 (pg_store E0) 11 c0 c0 lease2 (\<lambda>_ _. (executedProfileResult E0 ''ok'', False)) id
      first_written = (Inl ErrUnavailable, s) \<and>
    map_option ef_state (find_effect 2 s) = Some StateAttempted"
proof -
  have "sha_ok E0" by (simp add: sha_ok_def E0_def)
  moreover have "11 < lease_expires lease2" by (simp add: lease2_def lease0_def)
  ultimately show ?thesis
    using second_profile_write_is_never_recorded [OF first_write_runs, where later = "[]" and i = 2
        and ?l2.0 = lease2 and ?c2.0 = c0 and now = 11, OF _ _ _ sample_write] second_ready
    by (simp add: executedProfileResult_def)
qed

end
