(* ===== verification/SegmentTypes.thy ===== *)
theory SegmentTypes
  imports GoText "HOL-Library.Char_ord" "HOL-Library.List_Lexorder"
begin

text \<open>
  The closed segment definition language (\<^verbatim>\<open>internal/segment/dsl/ast.go\<close>): its error
  reasons, fields, operators, values and nodes, the JSON values the parser reads, and the
  canonical JSON of a definition.

  Fields and operators are string types in Go; the constructors \<open>OtherField\<close> and
  \<open>OtherOperator\<close> stand for every text outside the closed lists. \<open>go_time\<close> carries the
  standard library's RFC 3339 functions: \<open>gt_parse\<close> returns the instant and the zone
  offset of a text, \<open>gt_format\<close> renders an instant in UTC.
\<close>

section \<open>Limits and errors\<close>

definition MaxDefinitionBytes :: nat where "MaxDefinitionBytes = 65536"
definition MaxDepth :: nat where "MaxDepth = 8"
definition MaxNodes :: nat where "MaxNodes = 128"
definition MaxGroupChildren :: nat where "MaxGroupChildren = 64"
definition MaxListValues :: nat where "MaxListValues = 1000"
definition MaxStringBytes :: nat where "MaxStringBytes = 64"

datatype reason =
    ReasonInvalidJSON | ReasonInvalidShape | ReasonDuplicateKey | ReasonLimitExceeded
  | ReasonUnknownField | ReasonUnsupportedOperator | ReasonInvalidValue
  | ReasonNoncanonicalValue | ReasonCompileUnrepresentable | ReasonCompileUnsafe

record FieldError =
  fe_field :: string
  fe_reason :: reason

definition fieldError :: "string \<Rightarrow> reason \<Rightarrow> FieldError" where
  "fieldError pointer r = \<lparr>fe_field = pointer, fe_reason = r\<rparr>"

section \<open>Fields and operators\<close>

datatype seg_field =
    FieldStageID | FieldOwnerStaffID | FieldChannelID | FieldTagID | FieldAddedAt
  | FieldLastInteractAt | FieldIsDeleted | FieldHXCSubscriptionTier
  | FieldHXCSubscriptionActive | FieldHXCDaysRemaining | FieldHXCUserMessages7D
  | FieldHXCUserMessages30D | FieldHXCLastCapability | FieldHXCBusinessStage
  | FieldHXCMainLineType | FieldHXCUserSegment | FieldHXCFocusTopic | FieldHXCPainTag
  | FieldLegacyAudiencePackageSourceID
  | OtherField string

datatype operator =
    OperatorEqual | OperatorIn | OperatorHasAny | OperatorBefore | OperatorAfter
  | OperatorGTE | OperatorLTE
  | OtherOperator string

definition field_names :: "(string \<times> seg_field) list" where
  "field_names =
     [(''stage_id'', FieldStageID), (''owner_staff_id'', FieldOwnerStaffID),
      (''channel_id'', FieldChannelID), (''tag_id'', FieldTagID), (''added_at'', FieldAddedAt),
      (''last_interact_at'', FieldLastInteractAt), (''is_deleted'', FieldIsDeleted),
      (''hxc_subscription_tier'', FieldHXCSubscriptionTier),
      (''hxc_subscription_active'', FieldHXCSubscriptionActive),
      (''hxc_days_remaining'', FieldHXCDaysRemaining),
      (''hxc_user_messages_7d'', FieldHXCUserMessages7D),
      (''hxc_user_messages_30d'', FieldHXCUserMessages30D),
      (''hxc_last_capability'', FieldHXCLastCapability),
      (''hxc_business_stage'', FieldHXCBusinessStage),
      (''hxc_main_line_type'', FieldHXCMainLineType),
      (''hxc_user_segment'', FieldHXCUserSegment), (''hxc_focus_topic'', FieldHXCFocusTopic),
      (''hxc_pain_tag'', FieldHXCPainTag),
      (''legacy_audience_package_source_id'', FieldLegacyAudiencePackageSourceID)]"

definition operator_names :: "(string \<times> operator) list" where
  "operator_names =
     [(''eq'', OperatorEqual), (''in'', OperatorIn), (''has_any'', OperatorHasAny),
      (''before'', OperatorBefore), (''after'', OperatorAfter), (''gte'', OperatorGTE),
      (''lte'', OperatorLTE)]"

text \<open>The conversions between the texts and the closed types, both ways.\<close>

definition to_field :: "string \<Rightarrow> seg_field" where
  "to_field s = (case map_of field_names s of None \<Rightarrow> OtherField s | Some f \<Rightarrow> f)"

definition to_operator :: "string \<Rightarrow> operator" where
  "to_operator s = (case map_of operator_names s of None \<Rightarrow> OtherOperator s | Some p \<Rightarrow> p)"

fun field_text :: "seg_field \<Rightarrow> string" where
  "field_text (OtherField s) = s"
| "field_text f = (case List.find (\<lambda>p. snd p = f) field_names of None \<Rightarrow> [] | Some p \<Rightarrow> fst p)"

fun operator_text :: "operator \<Rightarrow> string" where
  "operator_text (OtherOperator s) = s"
| "operator_text p = (case List.find (\<lambda>q. snd q = p) operator_names of None \<Rightarrow> [] | Some q \<Rightarrow> fst q)"

section \<open>Values and nodes\<close>

datatype ast_value =
    IntValue int
  | IntListValue "int list"
  | TimestampValue instant
  | RelativeDaysValue int
  | BoolValue bool
  | StringValue string
  | StringListValue "string list"

datatype ast_node =
    AndNode "ast_node list"
  | OrNode "ast_node list"
  | Predicate seg_field operator ast_value

record go_time =
  gt_parse :: "string \<Rightarrow> (instant \<times> int) option"
  gt_format :: "instant \<Rightarrow> string"

section \<open>JSON values\<close>

text \<open>An object keeps its members in the order they were read, under distinct keys.\<close>

datatype raw =
    RNull
  | RBool bool
  | RNumber string
  | RString string
  | RArray "raw list"
  | RObject "(string \<times> raw) list"

section \<open>Canonical JSON\<close>

fun ast_canonicalValue :: "go_time \<Rightarrow> ast_value \<Rightarrow> raw" where
  "ast_canonicalValue G (IntValue v) = RNumber (show_int v)"
| "ast_canonicalValue G (IntListValue vs) = RArray (map (\<lambda>v. RNumber (show_int v)) vs)"
| "ast_canonicalValue G (TimestampValue t) = RString (gt_format G t)"
| "ast_canonicalValue G (RelativeDaysValue d) = RString (''-'' @ show_int d @ ''d'')"
| "ast_canonicalValue G (BoolValue b) = RBool b"
| "ast_canonicalValue G (StringValue s) = RString s"
| "ast_canonicalValue G (StringListValue ss) = RArray (map RString ss)"

fun ast_canonicalNode :: "go_time \<Rightarrow> ast_node \<Rightarrow> raw" where
  "ast_canonicalNode G (AndNode children) = RObject [(''and'', RArray (map (ast_canonicalNode G) children))]"
| "ast_canonicalNode G (OrNode children) = RObject [(''or'', RArray (map (ast_canonicalNode G) children))]"
| "ast_canonicalNode G (Predicate f p v) =
     RObject [(''field'', RString (field_text f)), (''op'', RString (operator_text p)),
              (''value'', ast_canonicalValue G v)]"

section \<open>Facts about the texts\<close>

lemma to_field_text:
  "\<not> (\<exists>s. f = OtherField s) \<Longrightarrow> to_field (field_text f) = f"
  by (cases f) (simp_all add: to_field_def field_names_def)

lemma field_text_known: "map_of field_names s = Some f \<Longrightarrow> field_text f = s"
  by (auto simp: field_names_def split: if_splits)

lemma to_operator_text: "to_operator (operator_text p) = p \<or> (\<exists>s. p = OtherOperator s)"
  by (cases p) (simp_all add: to_operator_def operator_names_def)

lemma operator_text_known: "map_of operator_names s = Some p \<Longrightarrow> operator_text p = s"
  by (auto simp: operator_names_def split: if_splits)

lemma to_operator_inverse: "operator_text (to_operator s) = s"
  by (auto simp: to_operator_def operator_text_known split: option.splits)

lemma to_field_inverse: "field_text (to_field s) = s"
  by (auto simp: to_field_def field_text_known split: option.splits)

lemma field_text_short: "map_of field_names s = Some f \<Longrightarrow> length s \<le> MaxStringBytes"
  by (auto simp: field_names_def MaxStringBytes_def split: if_splits)

lemma operator_text_short: "map_of operator_names s = Some p \<Longrightarrow> length s \<le> MaxStringBytes"
  by (auto simp: operator_names_def MaxStringBytes_def split: if_splits)

end
