(* ===== verification/SegmentParser.thy ===== *)
theory SegmentParser
  imports SegmentTypes
begin

text \<open>
  The parser of the segment definition language (\<^verbatim>\<open>internal/segment/dsl/parser.go\<close>).

  The JSON decoder of the standard library is used token by token; \<open>decode_raw\<close> works on
  the list of tokens that its \<^verbatim>\<open>Token\<close> method yields for the input, after which it reports
  either the end of the input or an error (\<open>scan\<close> gives both). \<^verbatim>\<open>More\<close> is then the
  question whether the next token is a closing delimiter. Fuel bounds the recursion;
  \<open>Parse\<close> supplies more than twice the number of tokens, and \<open>decode_enough\<close> shows that
  this never runs out.
\<close>

section \<open>Decoding\<close>

datatype json_token =
    TDelim char | TString string | TNumber string | TBool bool | TNull

datatype decode_error = DecodeFailed | DecodeDetail FieldError | OutOfFuel

definition escape_char :: "char \<Rightarrow> string" where
  "escape_char c = (if c = CHR ''~'' then ''~0'' else if c = CHR ''/'' then ''~1'' else [c])"

definition appendPointer :: "string \<Rightarrow> string \<Rightarrow> string" where
  "appendPointer pointer token = pointer @ ''/'' @ concat (map escape_char token)"

definition closing :: "char \<Rightarrow> bool" where
  "closing c \<longleftrightarrow> c = CHR ''}'' \<or> c = CHR '']''"

fun decode_raw :: "nat \<Rightarrow> string \<Rightarrow> json_token list \<Rightarrow> decode_error + raw \<times> json_token list"
  and decode_members :: "nat \<Rightarrow> string \<Rightarrow> (string \<times> raw) list \<Rightarrow> json_token list \<Rightarrow>
        decode_error + raw \<times> json_token list"
  and decode_items :: "nat \<Rightarrow> string \<Rightarrow> nat \<Rightarrow> raw list \<Rightarrow> json_token list \<Rightarrow>
        decode_error + raw \<times> json_token list" where
  "decode_raw 0 pointer ts = Inl OutOfFuel"
| "decode_raw (Suc n) pointer [] = Inl DecodeFailed"
| "decode_raw (Suc n) pointer (TDelim c # ts) =
     (if c = CHR ''{'' then decode_members n pointer [] ts
      else if c = CHR ''['' then decode_items n pointer 0 [] ts
      else Inl DecodeFailed)"
| "decode_raw (Suc n) pointer (TString s # ts) = Inr (RString s, ts)"
| "decode_raw (Suc n) pointer (TNumber s # ts) = Inr (RNumber s, ts)"
| "decode_raw (Suc n) pointer (TBool b # ts) = Inr (RBool b, ts)"
| "decode_raw (Suc n) pointer (TNull # ts) = Inr (RNull, ts)"
| "decode_members 0 pointer object ts = Inl OutOfFuel"
| "decode_members (Suc n) pointer object [] = Inl DecodeFailed"
| "decode_members (Suc n) pointer object (t # ts) =
     (case t of
        TDelim c \<Rightarrow> if closing c then Inr (RObject object, ts) else Inl DecodeFailed
      | TString key \<Rightarrow>
          (if key \<in> fst ` set object
           then Inl (DecodeDetail (fieldError (appendPointer pointer key) ReasonDuplicateKey))
           else (case decode_raw n (appendPointer pointer key) ts of
                   Inl e \<Rightarrow> Inl e
                 | Inr (v, ts') \<Rightarrow> decode_members n pointer (object @ [(key, v)]) ts'))
      | _ \<Rightarrow> Inl DecodeFailed)"
| "decode_items 0 pointer i items ts = Inl OutOfFuel"
| "decode_items (Suc n) pointer i items [] = Inl DecodeFailed"
| "decode_items (Suc n) pointer i items (t # ts) =
     (if (case t of TDelim c \<Rightarrow> closing c | _ \<Rightarrow> False) then Inr (RArray items, ts)
      else (case decode_raw n (appendPointer pointer (show_nat i)) (t # ts) of
              Inl e \<Rightarrow> Inl e
            | Inr (v, ts') \<Rightarrow> decode_items n pointer (Suc i) (items @ [v]) ts'))"

section \<open>Values\<close>

record parse_budget =
  pb_nodes :: nat
  pb_values :: nat

type_synonym 'a seg_tx = "(parse_budget, FieldError, 'a) tx"

definition exceedsStringLimit :: "string \<Rightarrow> bool" where
  "exceedsStringLimit s \<longleftrightarrow> MaxStringBytes < length s"

definition knownField :: "string \<Rightarrow> seg_field option" where
  "knownField s = (case to_field s of OtherField _ \<Rightarrow> None | f \<Rightarrow> Some f)"

definition id_fields :: "seg_field set" where
  "id_fields = {FieldStageID, FieldOwnerStaffID, FieldChannelID, FieldLegacyAudiencePackageSourceID}"

definition number_fields :: "seg_field set" where
  "number_fields = {FieldHXCDaysRemaining, FieldHXCUserMessages7D, FieldHXCUserMessages30D}"

definition text_fields :: "seg_field set" where
  "text_fields = {FieldHXCSubscriptionTier, FieldHXCLastCapability, FieldHXCBusinessStage,
     FieldHXCMainLineType, FieldHXCUserSegment, FieldHXCPainTag}"

definition time_fields :: "seg_field set" where
  "time_fields = {FieldAddedAt, FieldLastInteractAt}"

definition operator_allowed :: "seg_field \<Rightarrow> operator \<Rightarrow> bool" where
  "operator_allowed f p \<longleftrightarrow>
     (if f \<in> id_fields then p = OperatorEqual \<or> p = OperatorIn
      else if f = FieldTagID \<or> f = FieldHXCFocusTopic then p = OperatorHasAny
      else if f \<in> time_fields then p = OperatorBefore \<or> p = OperatorAfter
      else if f = FieldIsDeleted \<or> f = FieldHXCSubscriptionActive \<or> f \<in> text_fields then p = OperatorEqual
      else if f \<in> number_fields then p = OperatorGTE \<or> p = OperatorLTE
      else False)"

definition allowedOperator :: "seg_field \<Rightarrow> string \<Rightarrow> operator option" where
  "allowedOperator f s = (if operator_allowed f (to_operator s) then Some (to_operator s) else None)"

definition plain_number :: "string \<Rightarrow> bool" where
  "plain_number s \<longleftrightarrow> set s \<inter> {CHR ''.'', CHR ''e'', CHR ''E''} = {}"

definition parseNonnegativeInt :: "raw \<Rightarrow> string \<Rightarrow> FieldError + int" where
  "parseNonnegativeInt r pointer =
     (case r of
        RNumber s \<Rightarrow>
          (if \<not> plain_number s then Inl (fieldError pointer ReasonInvalidValue)
           else (case parse_int64 s of
                   None \<Rightarrow> Inl (fieldError pointer ReasonInvalidValue)
                 | Some v \<Rightarrow> if v < 0 then Inl (fieldError pointer ReasonInvalidValue) else Inr v))
      | _ \<Rightarrow> Inl (fieldError pointer ReasonInvalidValue))"

definition parsePositiveInt :: "raw \<Rightarrow> string \<Rightarrow> FieldError + int" where
  "parsePositiveInt r pointer =
     (case r of
        RNumber s \<Rightarrow>
          (if \<not> plain_number s then Inl (fieldError pointer ReasonInvalidValue)
           else (case parse_int64 s of
                   None \<Rightarrow> Inl (fieldError pointer ReasonInvalidValue)
                 | Some v \<Rightarrow> if v \<le> 0 then Inl (fieldError pointer ReasonInvalidValue) else Inr v))
      | _ \<Rightarrow> Inl (fieldError pointer ReasonInvalidValue))"

definition parseString :: "raw \<Rightarrow> string \<Rightarrow> FieldError + string" where
  "parseString r pointer =
     (case r of
        RString s \<Rightarrow>
          (if s = [] \<or> trim_space s \<noteq> s then Inl (fieldError pointer ReasonInvalidValue)
           else if exceedsStringLimit s then Inl (fieldError pointer ReasonLimitExceeded)
           else Inr s)
      | _ \<Rightarrow> Inl (fieldError pointer ReasonInvalidValue))"

text \<open>The loop over the elements of a list value, which stops at the first bad one.\<close>

fun parse_elements ::
  "(raw \<Rightarrow> string \<Rightarrow> FieldError + 'a) \<Rightarrow> string \<Rightarrow> nat \<Rightarrow> raw list \<Rightarrow> FieldError + 'a list" where
  "parse_elements p pointer i [] = Inr []"
| "parse_elements p pointer i (r # rs) =
     (case p r (appendPointer pointer (show_nat i)) of
        Inl e \<Rightarrow> Inl e
      | Inr v \<Rightarrow> (case parse_elements p pointer (Suc i) rs of
                    Inl e \<Rightarrow> Inl e | Inr vs \<Rightarrow> Inr (v # vs)))"

text \<open>The shared body of the two list parsers: limits, elements, sorting, duplicates.\<close>

definition parse_list ::
  "(raw \<Rightarrow> string \<Rightarrow> FieldError + 'a::linorder) \<Rightarrow> raw \<Rightarrow> string \<Rightarrow> 'a list seg_tx" where
  "parse_list p r pointer = (\<lambda>b.
     (case r of
        RArray items \<Rightarrow>
          (if items = [] then (Inl (fieldError pointer ReasonInvalidValue), b)
           else if MaxListValues < length items \<or> MaxListValues < pb_values b + length items
           then (Inl (fieldError pointer ReasonLimitExceeded), b)
           else
             (let b' = b\<lparr>pb_values := pb_values b + length items\<rparr> in
              case parse_elements p pointer 0 items of
                Inl e \<Rightarrow> (Inl e, b')
              | Inr vs \<Rightarrow>
                  if \<not> adjacent_distinct (sort vs)
                  then (Inl (fieldError pointer ReasonNoncanonicalValue), b')
                  else (Inr (sort vs), b')))
      | _ \<Rightarrow> (Inl (fieldError pointer ReasonInvalidValue), b)))"

definition parsePositiveIntList :: "raw \<Rightarrow> string \<Rightarrow> ast_value seg_tx" where
  "parsePositiveIntList r pointer = and_then (parse_list parsePositiveInt r pointer) (\<lambda>vs. ret (IntListValue vs))"

definition parseStringList :: "raw \<Rightarrow> string \<Rightarrow> ast_value seg_tx" where
  "parseStringList r pointer = and_then (parse_list parseString r pointer) (\<lambda>vs. ret (StringListValue vs))"

text \<open>The pattern \<^verbatim>\<open>^-[1-9][0-9]{0,3}d$\<close>.\<close>

definition relative_days :: "string \<Rightarrow> bool" where
  "relative_days s \<longleftrightarrow>
     (case s of
        m # d # rest \<Rightarrow>
          m = CHR ''-'' \<and> is_digit d \<and> d \<noteq> CHR ''0'' \<and> rest \<noteq> [] \<and> last rest = CHR ''d'' \<and>
          list_all is_digit (butlast rest) \<and> length (butlast rest) \<le> 3
      | _ \<Rightarrow> False)"

definition parseTimeValue :: "go_time \<Rightarrow> raw \<Rightarrow> string \<Rightarrow> FieldError + ast_value" where
  "parseTimeValue G r pointer =
     (case r of
        RString s \<Rightarrow>
          (if exceedsStringLimit s then Inl (fieldError pointer ReasonLimitExceeded)
           else if relative_days s
           then (case digits_value 0 (butlast (tl s)) of
                   None \<Rightarrow> Inl (fieldError pointer ReasonInvalidValue)
                 | Some n \<Rightarrow> Inr (RelativeDaysValue (int n)))
           else (case gt_parse G s of
                   None \<Rightarrow> Inl (fieldError pointer ReasonInvalidValue)
                 | Some (t, offset) \<Rightarrow>
                     if offset \<noteq> 0 then Inl (fieldError pointer ReasonInvalidValue)
                     else Inr (TimestampValue t)))
      | _ \<Rightarrow> Inl (fieldError pointer ReasonInvalidValue))"

definition map_value :: "('a \<Rightarrow> 'b) \<Rightarrow> 'e + 'a \<Rightarrow> 'e + 'b" where
  "map_value f r = (case r of Inl e \<Rightarrow> Inl e | Inr v \<Rightarrow> Inr (f v))"

definition parse_bool :: "raw \<Rightarrow> string \<Rightarrow> FieldError + ast_value" where
  "parse_bool r pointer =
     (case r of RBool b \<Rightarrow> Inr (BoolValue b) | _ \<Rightarrow> Inl (fieldError pointer ReasonInvalidValue))"

definition parseValue ::
  "go_time \<Rightarrow> seg_field \<Rightarrow> operator \<Rightarrow> raw \<Rightarrow> string \<Rightarrow> ast_value seg_tx" where
  "parseValue G f p r pointer =
     (if f \<in> id_fields then
        (if p = OperatorEqual then liftE (map_value IntValue (parsePositiveInt r pointer))
         else parsePositiveIntList r pointer)
      else if f = FieldTagID then parsePositiveIntList r pointer
      else if f \<in> time_fields then liftE (parseTimeValue G r pointer)
      else if f = FieldIsDeleted \<or> f = FieldHXCSubscriptionActive then liftE (parse_bool r pointer)
      else if f \<in> number_fields then liftE (map_value IntValue (parseNonnegativeInt r pointer))
      else if f \<in> text_fields then liftE (map_value StringValue (parseString r pointer))
      else if f = FieldHXCFocusTopic then parseStringList r pointer
      else fail (fieldError pointer ReasonUnknownField))"

section \<open>Nodes\<close>

definition present :: "(string \<times> raw) list \<Rightarrow> string \<Rightarrow> bool" where
  "present object key \<longleftrightarrow> (case map_of object key of None \<Rightarrow> False | Some r \<Rightarrow> r \<noteq> RNull)"

definition hasOnlyKeys :: "(string \<times> raw) list \<Rightarrow> string list \<Rightarrow> bool" where
  "hasOnlyKeys object expected \<longleftrightarrow>
     length object = length expected \<and> list_all (\<lambda>k. map_of object k \<noteq> None) expected"

definition parse_predicate :: "go_time \<Rightarrow> (string \<times> raw) list \<Rightarrow> string \<Rightarrow> ast_node seg_tx" where
  "parse_predicate G object pointer =
     (if length object \<noteq> 3 \<or> \<not> present object ''field'' \<or> \<not> present object ''op'' \<or> \<not> present object ''value''
      then fail (fieldError pointer ReasonInvalidShape)
      else if \<not> hasOnlyKeys object [''field'', ''op'', ''value'']
      then fail (fieldError pointer ReasonInvalidShape)
      else (case map_of object ''field'' of
        Some (RString field) \<Rightarrow>
          (if exceedsStringLimit field then fail (fieldError (appendPointer pointer ''field'') ReasonLimitExceeded)
           else (case knownField field of
             None \<Rightarrow> fail (fieldError (appendPointer pointer ''field'') ReasonUnknownField)
           | Some f \<Rightarrow>
               (case map_of object ''op'' of
                  Some (RString op) \<Rightarrow>
                    (if exceedsStringLimit op
                     then fail (fieldError (appendPointer pointer ''op'') ReasonLimitExceeded)
                     else (case allowedOperator f op of
                       None \<Rightarrow> fail (fieldError (appendPointer pointer ''op'') ReasonUnsupportedOperator)
                     | Some p \<Rightarrow>
                         and_then (parseValue G f p (the (map_of object ''value'')) (appendPointer pointer ''value''))
                           (\<lambda>v. ret (Predicate f p v))))
                | _ \<Rightarrow> fail (fieldError (appendPointer pointer ''op'') ReasonInvalidValue))))
      | _ \<Rightarrow> fail (fieldError (appendPointer pointer ''field'') ReasonInvalidValue)))"

function (sequential)
      parseNode :: "go_time \<Rightarrow> raw \<Rightarrow> string \<Rightarrow> nat \<Rightarrow> parse_budget \<Rightarrow> (FieldError + ast_node) \<times> parse_budget"
  and parseGroup :: "go_time \<Rightarrow> raw \<Rightarrow> string \<Rightarrow> nat \<Rightarrow> parse_budget \<Rightarrow> (FieldError + ast_node list) \<times> parse_budget"
  and parse_children :: "go_time \<Rightarrow> raw list \<Rightarrow> string \<Rightarrow> nat \<Rightarrow> nat \<Rightarrow> parse_budget \<Rightarrow>
        (FieldError + ast_node list) \<times> parse_budget" where
  "parseNode G r pointer depth b =
     (if MaxDepth < depth then (Inl (fieldError pointer ReasonLimitExceeded), b)
      else if MaxNodes < pb_nodes b + 1
      then (Inl (fieldError pointer ReasonLimitExceeded), b\<lparr>pb_nodes := pb_nodes b + 1\<rparr>)
      else (case r of
        RObject object \<Rightarrow>
          (case map_of object ''and'' of
             Some g \<Rightarrow>
               (if length object \<noteq> 1
                then (Inl (fieldError pointer ReasonInvalidShape), b\<lparr>pb_nodes := pb_nodes b + 1\<rparr>)
                else (case parseGroup G g (appendPointer pointer ''and'') depth (b\<lparr>pb_nodes := pb_nodes b + 1\<rparr>) of
                        (Inl e, b') \<Rightarrow> (Inl e, b')
                      | (Inr children, b') \<Rightarrow> (Inr (AndNode children), b')))
           | None \<Rightarrow>
             (case map_of object ''or'' of
                Some g \<Rightarrow>
                  (if length object \<noteq> 1
                   then (Inl (fieldError pointer ReasonInvalidShape), b\<lparr>pb_nodes := pb_nodes b + 1\<rparr>)
                   else (case parseGroup G g (appendPointer pointer ''or'') depth (b\<lparr>pb_nodes := pb_nodes b + 1\<rparr>) of
                           (Inl e, b') \<Rightarrow> (Inl e, b')
                         | (Inr children, b') \<Rightarrow> (Inr (OrNode children), b')))
              | None \<Rightarrow> parse_predicate G object pointer (b\<lparr>pb_nodes := pb_nodes b + 1\<rparr>)))
      | _ \<Rightarrow> (Inl (fieldError pointer ReasonInvalidShape), b\<lparr>pb_nodes := pb_nodes b + 1\<rparr>)))"
| "parseGroup G (RArray items) pointer depth b =
     (if items = [] then (Inl (fieldError pointer ReasonInvalidShape), b)
      else if MaxGroupChildren < length items then (Inl (fieldError pointer ReasonLimitExceeded), b)
      else parse_children G items pointer depth 0 b)"
| "parseGroup G _ pointer depth b = (Inl (fieldError pointer ReasonInvalidShape), b)"
| "parse_children G [] pointer depth i b = (Inr [], b)"
| "parse_children G (r # rs) pointer depth i b =
     (case parseNode G r (appendPointer pointer (show_nat i)) (depth + 1) b of
        (Inl e, b') \<Rightarrow> (Inl e, b')
      | (Inr n, b') \<Rightarrow>
          (case parse_children G rs pointer depth (Suc i) b' of
             (Inl e, b'') \<Rightarrow> (Inl e, b'')
           | (Inr ns, b'') \<Rightarrow> (Inr (n # ns), b'')))"
  by pat_completeness auto
termination
  by (relation "measure (\<lambda>x. case x of Inl (_, r, _) \<Rightarrow> 2 * size r
       | Inr (Inl (_, r, _)) \<Rightarrow> 2 * size r + 1 | Inr (Inr (_, rs, _)) \<Rightarrow> 2 * size_list size rs)")
    (auto dest: map_of_size)

section \<open>Parse\<close>

text \<open>
  \<open>scan\<close> is the token stream of an input: the tokens, and whether the input ends after them
  without an error.
\<close>

definition normalizeDecodeError :: "decode_error \<Rightarrow> FieldError" where
  "normalizeDecodeError e =
     (case e of DecodeDetail d \<Rightarrow> d | _ \<Rightarrow> fieldError [] ReasonInvalidJSON)"

definition Parse :: "go_time \<Rightarrow> (string \<Rightarrow> json_token list \<times> bool) \<Rightarrow> string \<Rightarrow> FieldError + ast_node" where
  "Parse G scan input =
     (if MaxDefinitionBytes < length input then Inl (fieldError [] ReasonLimitExceeded)
      else if \<not> valid_utf8 input then Inl (fieldError [] ReasonInvalidJSON)
      else (case decode_raw (Suc (2 * length (fst (scan input)))) [] (fst (scan input)) of
        Inl e \<Rightarrow> Inl (normalizeDecodeError e)
      | Inr (r, rest) \<Rightarrow>
          if rest \<noteq> [] \<or> \<not> snd (scan input) then Inl (fieldError [] ReasonInvalidJSON)
          else fst (parseNode G r [] 1 \<lparr>pb_nodes = 0, pb_values = 0\<rparr>)))"

end
