(* ===== verification/SegmentCompiler.thy ===== *)
theory SegmentCompiler
  imports SegmentParser
begin

text \<open>
  The compiler from definitions to set programs
  (\<^verbatim>\<open>internal/segment/compiler/compiler.go\<close>): opcodes, bindings, program nodes, the
  compilation with its own limits, and the canonical JSON of a program.

  A Go slice that the code tests against nil is a list whose empty value is nil: the compiler
  only stores non-empty copies. Instants carry no location; that a reference instant is in UTC
  is the argument \<open>utc\<close>. In UTC \<^verbatim>\<open>AddDate(0, 0, -n)\<close> goes back n times 24 hours.
\<close>

datatype opcode =
    StageEqual | StageAny | OwnerEqual | OwnerAny | ChannelEqual | ChannelAny | TagHasAny
  | AddedBefore | AddedAfter | LastInteractBefore | LastInteractAfter | DeletedEqual
  | LegacyAudiencePackageSnapshot | HXCSubscriptionTierEqual | HXCSubscriptionActiveEqual
  | HXCDaysRemainingGTE | HXCDaysRemainingLTE | HXCUserMessages7DGTE | HXCUserMessages7DLTE
  | HXCUserMessages30DGTE | HXCUserMessages30DLTE | HXCLastCapabilityEqual
  | HXCBusinessStageEqual | HXCMainLineTypeEqual | HXCUserSegmentEqual | HXCFocusTopicAny
  | HXCPainTagEqual

record binding =
  bd_integer :: "int option"
  bd_integers :: "int list"
  bd_timestamp :: "instant option"
  bd_boolean :: "bool option"
  bd_text :: "string option"
  bd_texts :: "string list"

definition no_bind :: binding where
  "no_bind = \<lparr>bd_integer = None, bd_integers = [], bd_timestamp = None, bd_boolean = None,
     bd_text = None, bd_texts = []\<rparr>"

datatype qnode =
    QIntersect "qnode list"
  | QUnion "qnode list"
  | QComplement qnode
  | QLeaf opcode binding

definition unrepresentable :: FieldError where
  "unrepresentable = fieldError [] ReasonCompileUnrepresentable"

definition unsafe :: FieldError where
  "unsafe = fieldError [] ReasonCompileUnsafe"

section \<open>Opcodes\<close>

definition hxcNumericField :: "seg_field \<Rightarrow> bool" where
  "hxcNumericField f \<longleftrightarrow>
     f = FieldHXCDaysRemaining \<or> f = FieldHXCUserMessages7D \<or> f = FieldHXCUserMessages30D"

fun integerOpcode :: "seg_field \<Rightarrow> operator \<Rightarrow> opcode option" where
  "integerOpcode FieldHXCDaysRemaining OperatorGTE = Some HXCDaysRemainingGTE"
| "integerOpcode FieldHXCDaysRemaining OperatorLTE = Some HXCDaysRemainingLTE"
| "integerOpcode FieldHXCUserMessages7D OperatorGTE = Some HXCUserMessages7DGTE"
| "integerOpcode FieldHXCUserMessages7D OperatorLTE = Some HXCUserMessages7DLTE"
| "integerOpcode FieldHXCUserMessages30D OperatorGTE = Some HXCUserMessages30DGTE"
| "integerOpcode FieldHXCUserMessages30D OperatorLTE = Some HXCUserMessages30DLTE"
| "integerOpcode FieldStageID OperatorEqual = Some StageEqual"
| "integerOpcode FieldOwnerStaffID OperatorEqual = Some OwnerEqual"
| "integerOpcode FieldChannelID OperatorEqual = Some ChannelEqual"
| "integerOpcode FieldLegacyAudiencePackageSourceID OperatorEqual = Some LegacyAudiencePackageSnapshot"
| "integerOpcode _ _ = None"

fun stringOpcode :: "seg_field \<Rightarrow> operator \<Rightarrow> opcode option" where
  "stringOpcode FieldHXCSubscriptionTier OperatorEqual = Some HXCSubscriptionTierEqual"
| "stringOpcode FieldHXCLastCapability OperatorEqual = Some HXCLastCapabilityEqual"
| "stringOpcode FieldHXCBusinessStage OperatorEqual = Some HXCBusinessStageEqual"
| "stringOpcode FieldHXCMainLineType OperatorEqual = Some HXCMainLineTypeEqual"
| "stringOpcode FieldHXCUserSegment OperatorEqual = Some HXCUserSegmentEqual"
| "stringOpcode FieldHXCPainTag OperatorEqual = Some HXCPainTagEqual"
| "stringOpcode _ _ = None"

fun listOpcode :: "seg_field \<Rightarrow> operator \<Rightarrow> opcode option" where
  "listOpcode FieldStageID OperatorIn = Some StageAny"
| "listOpcode FieldOwnerStaffID OperatorIn = Some OwnerAny"
| "listOpcode FieldChannelID OperatorIn = Some ChannelAny"
| "listOpcode FieldTagID OperatorHasAny = Some TagHasAny"
| "listOpcode _ _ = None"

fun timeOpcode :: "seg_field \<Rightarrow> operator \<Rightarrow> opcode option" where
  "timeOpcode FieldAddedAt OperatorBefore = Some AddedBefore"
| "timeOpcode FieldAddedAt OperatorAfter = Some AddedAfter"
| "timeOpcode FieldLastInteractAt OperatorBefore = Some LastInteractBefore"
| "timeOpcode FieldLastInteractAt OperatorAfter = Some LastInteractAfter"
| "timeOpcode _ _ = None"

section \<open>Canonical lists\<close>

text \<open>The loops compare each element with its predecessor.\<close>

definition allUniquePositive :: "int list \<Rightarrow> bool" where
  "allUniquePositive vs \<longleftrightarrow> list_all (\<lambda>v. 0 < v) vs \<and> adjacent_distinct vs"

definition canonicalPositiveList :: "int list \<Rightarrow> bool" where
  "canonicalPositiveList vs \<longleftrightarrow>
     vs \<noteq> [] \<and> length vs \<le> MaxListValues \<and> sorted vs \<and> allUniquePositive vs"

definition canonicalStringList :: "string list \<Rightarrow> bool" where
  "canonicalStringList vs \<longleftrightarrow>
     vs \<noteq> [] \<and> length vs \<le> MaxListValues \<and> sorted vs \<and> list_all (\<lambda>v. v \<noteq> []) vs \<and> adjacent_distinct vs"

section \<open>Compilation\<close>

definition day_nanos :: int where
  "day_nanos = 86400 * 1000000000"

definition leaf_or :: "opcode option \<Rightarrow> binding \<Rightarrow> FieldError + qnode" where
  "leaf_or op b = (case op of None \<Rightarrow> Inl unrepresentable | Some c \<Rightarrow> Inr (QLeaf c b))"

fun compilePredicate :: "instant \<Rightarrow> seg_field \<Rightarrow> operator \<Rightarrow> ast_value \<Rightarrow> FieldError + qnode" where
  "compilePredicate reference f p (IntValue v) =
     (if v < 0 \<or> (v = 0 \<and> \<not> hxcNumericField f) then Inl unrepresentable
      else leaf_or (integerOpcode f p) (no_bind\<lparr>bd_integer := Some v\<rparr>))"
| "compilePredicate reference f p (IntListValue vs) =
     (if \<not> canonicalPositiveList vs then Inl unrepresentable
      else leaf_or (listOpcode f p) (no_bind\<lparr>bd_integers := vs\<rparr>))"
| "compilePredicate reference f p (TimestampValue t) =
     leaf_or (timeOpcode f p) (no_bind\<lparr>bd_timestamp := Some t\<rparr>)"
| "compilePredicate reference f p (RelativeDaysValue d) =
     (if d < 1 \<or> 9999 < d then Inl unrepresentable
      else leaf_or (timeOpcode f p) (no_bind\<lparr>bd_timestamp := Some (reference - d * day_nanos)\<rparr>))"
| "compilePredicate reference f p (BoolValue v) =
     (if f = FieldHXCSubscriptionActive \<and> p = OperatorEqual
      then Inr (QLeaf HXCSubscriptionActiveEqual (no_bind\<lparr>bd_boolean := Some v\<rparr>))
      else if f \<noteq> FieldIsDeleted \<or> p \<noteq> OperatorEqual then Inl unrepresentable
      else Inr (QLeaf DeletedEqual (no_bind\<lparr>bd_boolean := Some v\<rparr>)))"
| "compilePredicate reference f p (StringValue s) =
     (if s = [] then Inl unrepresentable
      else leaf_or (stringOpcode f p) (no_bind\<lparr>bd_text := Some s\<rparr>))"
| "compilePredicate reference f p (StringListValue vs) =
     (if f \<noteq> FieldHXCFocusTopic \<or> p \<noteq> OperatorHasAny \<or> \<not> canonicalStringList vs
      then Inl unrepresentable
      else Inr (QLeaf HXCFocusTopicAny (no_bind\<lparr>bd_texts := vs\<rparr>)))"

text \<open>\<open>used\<close> is the node budget, which the compilation threads through.\<close>

function (sequential)
      compileNode :: "ast_node \<Rightarrow> instant \<Rightarrow> nat \<Rightarrow> nat \<Rightarrow> (FieldError + qnode) \<times> nat"
  and compileChildren :: "ast_node list \<Rightarrow> instant \<Rightarrow> nat \<Rightarrow> nat \<Rightarrow> (FieldError + qnode list) \<times> nat"
  and compile_each :: "ast_node list \<Rightarrow> instant \<Rightarrow> nat \<Rightarrow> nat \<Rightarrow> (FieldError + qnode list) \<times> nat" where
  "compileNode n reference depth used =
     (if MaxDepth < depth then (Inl unrepresentable, used)
      else if MaxNodes < used + 1 then (Inl unrepresentable, used + 1)
      else (case n of
        AndNode children \<Rightarrow>
          (case compileChildren children reference depth (used + 1) of
             (Inl e, u) \<Rightarrow> (Inl e, u) | (Inr qs, u) \<Rightarrow> (Inr (QIntersect qs), u))
      | OrNode children \<Rightarrow>
          (case compileChildren children reference depth (used + 1) of
             (Inl e, u) \<Rightarrow> (Inl e, u) | (Inr qs, u) \<Rightarrow> (Inr (QUnion qs), u))
      | Predicate f p v \<Rightarrow> (compilePredicate reference f p v, used + 1)))"
| "compileChildren children reference depth used =
     (if children = [] \<or> MaxGroupChildren < length children then (Inl unrepresentable, used)
      else compile_each children reference depth used)"
| "compile_each [] reference depth used = (Inr [], used)"
| "compile_each (n # ns) reference depth used =
     (case compileNode n reference (depth + 1) used of
        (Inl e, u) \<Rightarrow> (Inl e, u)
      | (Inr q, u) \<Rightarrow>
          (case compile_each ns reference depth u of
             (Inl e, u') \<Rightarrow> (Inl e, u') | (Inr qs, u') \<Rightarrow> (Inr (q # qs), u')))"
  by pat_completeness auto
termination
  by (relation "measure (\<lambda>x. case x of Inl (n, _) \<Rightarrow> 2 * size n
       | Inr (Inl (ns, _)) \<Rightarrow> 2 * size_list size ns + 1 | Inr (Inr (ns, _)) \<Rightarrow> 2 * size_list size ns)")
    auto

declare compileNode.simps [simp del]

lemma compileNode_Inr:
  "compileNode (AndNode ns) reference d u = (Inr q, u') \<longleftrightarrow>
     d \<le> MaxDepth \<and> u + 1 \<le> MaxNodes \<and>
     (\<exists>qs. compileChildren ns reference d (u + 1) = (Inr qs, u') \<and> q = QIntersect qs)"
  "compileNode (OrNode ns) reference d u = (Inr q, u') \<longleftrightarrow>
     d \<le> MaxDepth \<and> u + 1 \<le> MaxNodes \<and>
     (\<exists>qs. compileChildren ns reference d (u + 1) = (Inr qs, u') \<and> q = QUnion qs)"
  "compileNode (Predicate f p v) reference d u = (Inr q, u') \<longleftrightarrow>
     d \<le> MaxDepth \<and> u + 1 \<le> MaxNodes \<and> compilePredicate reference f p v = Inr q \<and> u' = u + 1"
  by (auto simp: compileNode.simps not_le not_less simp del: compileChildren.simps
      split: prod.splits sum.splits)

lemma compile_each_Inr:
  "compile_each (n # ns) reference d u = (Inr qs, u') \<longleftrightarrow>
     (\<exists>q v rest. compileNode n reference (d + 1) u = (Inr q, v) \<and>
        compile_each ns reference d v = (Inr rest, u') \<and> qs = q # rest)"
  by (auto split: prod.splits sum.splits)

definition Compile :: "ast_node option \<Rightarrow> instant \<Rightarrow> bool \<Rightarrow> FieldError + qnode" where
  "Compile root reference utc =
     (case root of
        None \<Rightarrow> Inl unrepresentable
      | Some n \<Rightarrow>
          if reference = 0 \<or> \<not> utc then Inl unsafe
          else fst (compileNode n reference 1 0))"

section \<open>Canonical JSON of a program\<close>

fun opcode_text :: "opcode \<Rightarrow> string" where
  "opcode_text StageEqual = ''stage.equal''"
| "opcode_text StageAny = ''stage.any''"
| "opcode_text OwnerEqual = ''owner.equal''"
| "opcode_text OwnerAny = ''owner.any''"
| "opcode_text ChannelEqual = ''channel.equal''"
| "opcode_text ChannelAny = ''channel.any''"
| "opcode_text TagHasAny = ''tag.has_any''"
| "opcode_text AddedBefore = ''added.before''"
| "opcode_text AddedAfter = ''added.after''"
| "opcode_text LastInteractBefore = ''last_interact.before''"
| "opcode_text LastInteractAfter = ''last_interact.after''"
| "opcode_text DeletedEqual = ''deleted.equal''"
| "opcode_text LegacyAudiencePackageSnapshot = ''legacy_audience_package.snapshot''"
| "opcode_text HXCSubscriptionTierEqual = ''hxc.subscription_tier.equal''"
| "opcode_text HXCSubscriptionActiveEqual = ''hxc.subscription_active.equal''"
| "opcode_text HXCDaysRemainingGTE = ''hxc.days_remaining.gte''"
| "opcode_text HXCDaysRemainingLTE = ''hxc.days_remaining.lte''"
| "opcode_text HXCUserMessages7DGTE = ''hxc.user_messages_7d.gte''"
| "opcode_text HXCUserMessages7DLTE = ''hxc.user_messages_7d.lte''"
| "opcode_text HXCUserMessages30DGTE = ''hxc.user_messages_30d.gte''"
| "opcode_text HXCUserMessages30DLTE = ''hxc.user_messages_30d.lte''"
| "opcode_text HXCLastCapabilityEqual = ''hxc.last_capability.equal''"
| "opcode_text HXCBusinessStageEqual = ''hxc.business_stage.equal''"
| "opcode_text HXCMainLineTypeEqual = ''hxc.main_line_type.equal''"
| "opcode_text HXCUserSegmentEqual = ''hxc.user_segment.equal''"
| "opcode_text HXCFocusTopicAny = ''hxc.focus_topic.has_any''"
| "opcode_text HXCPainTagEqual = ''hxc.pain_tag.equal''"

text \<open>The first slot that is set, in the order of the switch; objects list their keys sorted.\<close>

definition canonicalBind :: "go_time \<Rightarrow> binding \<Rightarrow> raw" where
  "canonicalBind G b =
     (case bd_integer b of Some v \<Rightarrow> RObject [(''integer'', RNumber (show_int v))] | None \<Rightarrow>
      if bd_integers b \<noteq> [] then RObject [(''integers'', RArray (map (\<lambda>v. RNumber (show_int v)) (bd_integers b)))]
      else (case bd_timestamp b of Some t \<Rightarrow> RObject [(''timestamp'', RString (gt_format G t))] | None \<Rightarrow>
      (case bd_boolean b of Some v \<Rightarrow> RObject [(''boolean'', RBool v)] | None \<Rightarrow>
      (case bd_text b of Some s \<Rightarrow> RObject [(''text'', RString s)] | None \<Rightarrow>
      if bd_texts b \<noteq> [] then RObject [(''texts'', RArray (map RString (bd_texts b)))]
      else RNull))))"

fun program_canonicalNode :: "go_time \<Rightarrow> qnode \<Rightarrow> raw" where
  "program_canonicalNode G (QIntersect qs) = RObject [(''and'', RArray (map (program_canonicalNode G) qs))]"
| "program_canonicalNode G (QUnion qs) = RObject [(''or'', RArray (map (program_canonicalNode G) qs))]"
| "program_canonicalNode G (QComplement q) = RObject [(''not'', program_canonicalNode G q)]"
| "program_canonicalNode G (QLeaf op b) =
     RObject [(''bind'', canonicalBind G b), (''leaf'', RString (opcode_text op))]"

definition Program_CanonicalJSON :: "go_time \<Rightarrow> qnode option \<Rightarrow> FieldError + raw" where
  "Program_CanonicalJSON G root =
     (case root of
        None \<Rightarrow> Inl unrepresentable
      | Some q \<Rightarrow> Inr (RObject [(''filter'', program_canonicalNode G q), (''universe'', RString ''all'')]))"

end
