(* ===== verification/SegmentExecutor.thy ===== *)
theory SegmentExecutor
  imports SegmentCompiler
begin

text \<open>
  The executor of compiled segment programs
  (\<^verbatim>\<open>internal/segment/compiler/executor.go\<close>) over its \<^verbatim>\<open>QuerySet\<close> interface: a record of
  the fixed queries, with the optional extension \<^verbatim>\<open>HXCQuerySet\<close>, the dispatch of a leaf to
  one query, and the set algebra on ascending identifier lists.

  A query returns identifiers or an error of the store; \<open>ctx\<close> is the error of the context,
  if it is done. Go compares list positions with two indices; the list functions below walk
  the same two lists.
\<close>

datatype exec_error = ExecDetail FieldError | ExecStore string | ExecContext

type_synonym ids_result = "exec_error + int list"

record hxc_query_set =
  hq_tier :: "string \<Rightarrow> ids_result"
  hq_active :: "bool \<Rightarrow> ids_result"
  hq_days_gte :: "int \<Rightarrow> ids_result"
  hq_days_lte :: "int \<Rightarrow> ids_result"
  hq_messages7_gte :: "int \<Rightarrow> ids_result"
  hq_messages7_lte :: "int \<Rightarrow> ids_result"
  hq_messages30_gte :: "int \<Rightarrow> ids_result"
  hq_messages30_lte :: "int \<Rightarrow> ids_result"
  hq_capability :: "string \<Rightarrow> ids_result"
  hq_business_stage :: "string \<Rightarrow> ids_result"
  hq_main_line :: "string \<Rightarrow> ids_result"
  hq_user_segment :: "string \<Rightarrow> ids_result"
  hq_focus_any :: "string list \<Rightarrow> ids_result"
  hq_pain :: "string \<Rightarrow> ids_result"

record query_set =
  qs_universe :: ids_result
  qs_stage :: "int \<Rightarrow> ids_result"
  qs_stage_any :: "int list \<Rightarrow> ids_result"
  qs_owner :: "int \<Rightarrow> ids_result"
  qs_owner_any :: "int list \<Rightarrow> ids_result"
  qs_channel :: "int \<Rightarrow> ids_result"
  qs_channel_any :: "int list \<Rightarrow> ids_result"
  qs_tag_any :: "int list \<Rightarrow> ids_result"
  qs_added_before :: "instant \<Rightarrow> ids_result"
  qs_added_after :: "instant \<Rightarrow> ids_result"
  qs_interact_before :: "instant \<Rightarrow> ids_result"
  qs_interact_after :: "instant \<Rightarrow> ids_result"
  qs_deleted :: "bool \<Rightarrow> ids_result"
  qs_legacy :: "int \<Rightarrow> ids_result"
  qs_hxc :: "hxc_query_set option"

section \<open>Set algebra on identifier lists\<close>

fun compact :: "int list \<Rightarrow> int list" where
  "compact (x # y # zs) = (if x = y then compact (y # zs) else x # compact (y # zs))"
| "compact xs = xs"

definition normalizeIDs :: "int list \<Rightarrow> ids_result" where
  "normalizeIDs ids =
     (if list_ex (\<lambda>i. i \<le> 0) ids then Inl (ExecDetail unsafe) else Inr (compact (sort ids)))"

fun intersectIDs :: "int list \<Rightarrow> int list \<Rightarrow> int list" where
  "intersectIDs (x # xs) (y # ys) =
     (if x < y then intersectIDs xs (y # ys)
      else if y < x then intersectIDs (x # xs) ys
      else x # intersectIDs xs ys)"
| "intersectIDs _ _ = []"

fun unionIDs :: "int list \<Rightarrow> int list \<Rightarrow> int list" where
  "unionIDs [] ys = ys"
| "unionIDs xs [] = xs"
| "unionIDs (x # xs) (y # ys) =
     (if x < y then x # unionIDs xs (y # ys)
      else if y < x then y # unionIDs (x # xs) ys
      else x # unionIDs xs ys)"

fun differenceIDs :: "int list \<Rightarrow> int list \<Rightarrow> int list" where
  "differenceIDs [] ys = []"
| "differenceIDs (x # xs) [] = x # differenceIDs xs []"
| "differenceIDs (x # xs) (y # ys) =
     (if y < x then differenceIDs (x # xs) ys
      else if y = x then differenceIDs xs (y # ys)
      else x # differenceIDs xs (y # ys))"

section \<open>Leaves\<close>

definition only_integer :: "binding \<Rightarrow> bool" where
  "only_integer b \<longleftrightarrow> bd_integers b = [] \<and> bd_timestamp b = None \<and> bd_boolean b = None \<and>
     bd_text b = None \<and> bd_texts b = []"

definition only_integers :: "binding \<Rightarrow> bool" where
  "only_integers b \<longleftrightarrow> bd_integer b = None \<and> bd_timestamp b = None \<and> bd_boolean b = None \<and>
     bd_text b = None \<and> bd_texts b = []"

definition only_timestamp :: "binding \<Rightarrow> bool" where
  "only_timestamp b \<longleftrightarrow> bd_integer b = None \<and> bd_integers b = [] \<and> bd_boolean b = None \<and>
     bd_text b = None \<and> bd_texts b = []"

definition only_boolean :: "binding \<Rightarrow> bool" where
  "only_boolean b \<longleftrightarrow> bd_integer b = None \<and> bd_integers b = [] \<and> bd_timestamp b = None \<and>
     bd_text b = None \<and> bd_texts b = []"

definition only_text :: "binding \<Rightarrow> bool" where
  "only_text b \<longleftrightarrow> bd_integer b = None \<and> bd_integers b = [] \<and> bd_timestamp b = None \<and>
     bd_boolean b = None \<and> bd_texts b = []"

definition only_texts :: "binding \<Rightarrow> bool" where
  "only_texts b \<longleftrightarrow> bd_integer b = None \<and> bd_integers b = [] \<and> bd_timestamp b = None \<and>
     bd_boolean b = None \<and> bd_text b = None"

text \<open>The kind of value a leaf of each opcode carries.\<close>

datatype bind_kind = BkPositive | BkNonnegative | BkIntegers | BkTimestamp | BkBoolean | BkText | BkTexts

fun bind_kind_of :: "opcode \<Rightarrow> bind_kind" where
  "bind_kind_of StageEqual = BkPositive"
| "bind_kind_of OwnerEqual = BkPositive"
| "bind_kind_of ChannelEqual = BkPositive"
| "bind_kind_of LegacyAudiencePackageSnapshot = BkPositive"
| "bind_kind_of HXCDaysRemainingGTE = BkNonnegative"
| "bind_kind_of HXCDaysRemainingLTE = BkNonnegative"
| "bind_kind_of HXCUserMessages7DGTE = BkNonnegative"
| "bind_kind_of HXCUserMessages7DLTE = BkNonnegative"
| "bind_kind_of HXCUserMessages30DGTE = BkNonnegative"
| "bind_kind_of HXCUserMessages30DLTE = BkNonnegative"
| "bind_kind_of StageAny = BkIntegers"
| "bind_kind_of OwnerAny = BkIntegers"
| "bind_kind_of ChannelAny = BkIntegers"
| "bind_kind_of TagHasAny = BkIntegers"
| "bind_kind_of AddedBefore = BkTimestamp"
| "bind_kind_of AddedAfter = BkTimestamp"
| "bind_kind_of LastInteractBefore = BkTimestamp"
| "bind_kind_of LastInteractAfter = BkTimestamp"
| "bind_kind_of DeletedEqual = BkBoolean"
| "bind_kind_of HXCSubscriptionActiveEqual = BkBoolean"
| "bind_kind_of HXCSubscriptionTierEqual = BkText"
| "bind_kind_of HXCLastCapabilityEqual = BkText"
| "bind_kind_of HXCBusinessStageEqual = BkText"
| "bind_kind_of HXCMainLineTypeEqual = BkText"
| "bind_kind_of HXCUserSegmentEqual = BkText"
| "bind_kind_of HXCPainTagEqual = BkText"
| "bind_kind_of HXCFocusTopicAny = BkTexts"

definition validLeafBind :: "opcode \<Rightarrow> binding \<Rightarrow> bool" where
  "validLeafBind op b =
     (case bind_kind_of op of
        BkPositive \<Rightarrow> only_integer b \<and> (case bd_integer b of None \<Rightarrow> False | Some v \<Rightarrow> 0 < v)
      | BkNonnegative \<Rightarrow> only_integer b \<and> (case bd_integer b of None \<Rightarrow> False | Some v \<Rightarrow> 0 \<le> v)
      | BkIntegers \<Rightarrow> only_integers b \<and> canonicalPositiveList (bd_integers b)
      | BkTimestamp \<Rightarrow> only_timestamp b \<and> (case bd_timestamp b of None \<Rightarrow> False | Some t \<Rightarrow> t \<noteq> 0)
      | BkBoolean \<Rightarrow> only_boolean b \<and> bd_boolean b \<noteq> None
      | BkText \<Rightarrow> only_text b \<and> (case bd_text b of None \<Rightarrow> False | Some s \<Rightarrow> s \<noteq> [])
      | BkTexts \<Rightarrow> only_texts b \<and> canonicalStringList (bd_texts b))"

definition requiredInteger :: "binding \<Rightarrow> int" where
  "requiredInteger b =
     (case bd_integer b of None \<Rightarrow> 0 | Some v \<Rightarrow> if \<not> only_integer b \<or> v \<le> 0 then 0 else v)"

definition requiredNonnegativeInteger :: "binding \<Rightarrow> int" where
  "requiredNonnegativeInteger b =
     (case bd_integer b of None \<Rightarrow> - 1 | Some v \<Rightarrow> if \<not> only_integer b \<or> v < 0 then - 1 else v)"

definition requiredIntegers :: "binding \<Rightarrow> int list" where
  "requiredIntegers b =
     (if \<not> only_integers b \<or> bd_integers b = [] \<or> \<not> canonicalPositiveList (bd_integers b) then []
      else bd_integers b)"

definition requiredTimestamp :: "binding \<Rightarrow> instant" where
  "requiredTimestamp b =
     (case bd_timestamp b of None \<Rightarrow> 0 | Some t \<Rightarrow> if \<not> only_timestamp b \<or> t = 0 then 0 else t)"

definition requiredBoolean :: "binding \<Rightarrow> bool" where
  "requiredBoolean b = (case bd_boolean b of None \<Rightarrow> False | Some v \<Rightarrow> only_boolean b \<and> v)"

definition requiredText :: "binding \<Rightarrow> string" where
  "requiredText b = (case bd_text b of None \<Rightarrow> [] | Some s \<Rightarrow> if \<not> only_text b then [] else s)"

definition requiredTexts :: "binding \<Rightarrow> string list" where
  "requiredTexts b =
     (if \<not> only_texts b \<or> \<not> canonicalStringList (bd_texts b) then [] else bd_texts b)"

text \<open>A query of the extension, refused when the query set does not have it.\<close>

definition hxc_or :: "query_set \<Rightarrow> (hxc_query_set \<Rightarrow> ids_result) \<Rightarrow> ids_result" where
  "hxc_or Q q = (case qs_hxc Q of None \<Rightarrow> Inl (ExecDetail unsafe) | Some H \<Rightarrow> q H)"

fun leaf_query :: "query_set \<Rightarrow> opcode \<Rightarrow> binding \<Rightarrow> ids_result" where
  "leaf_query Q StageEqual b = qs_stage Q (requiredInteger b)"
| "leaf_query Q StageAny b = qs_stage_any Q (requiredIntegers b)"
| "leaf_query Q OwnerEqual b = qs_owner Q (requiredInteger b)"
| "leaf_query Q OwnerAny b = qs_owner_any Q (requiredIntegers b)"
| "leaf_query Q ChannelEqual b = qs_channel Q (requiredInteger b)"
| "leaf_query Q ChannelAny b = qs_channel_any Q (requiredIntegers b)"
| "leaf_query Q TagHasAny b = qs_tag_any Q (requiredIntegers b)"
| "leaf_query Q AddedBefore b = qs_added_before Q (requiredTimestamp b)"
| "leaf_query Q AddedAfter b = qs_added_after Q (requiredTimestamp b)"
| "leaf_query Q LastInteractBefore b = qs_interact_before Q (requiredTimestamp b)"
| "leaf_query Q LastInteractAfter b = qs_interact_after Q (requiredTimestamp b)"
| "leaf_query Q DeletedEqual b = qs_deleted Q (requiredBoolean b)"
| "leaf_query Q LegacyAudiencePackageSnapshot b = qs_legacy Q (requiredInteger b)"
| "leaf_query Q HXCSubscriptionTierEqual b = hxc_or Q (\<lambda>H. hq_tier H (requiredText b))"
| "leaf_query Q HXCSubscriptionActiveEqual b = hxc_or Q (\<lambda>H. hq_active H (requiredBoolean b))"
| "leaf_query Q HXCDaysRemainingGTE b = hxc_or Q (\<lambda>H. hq_days_gte H (requiredNonnegativeInteger b))"
| "leaf_query Q HXCDaysRemainingLTE b = hxc_or Q (\<lambda>H. hq_days_lte H (requiredNonnegativeInteger b))"
| "leaf_query Q HXCUserMessages7DGTE b = hxc_or Q (\<lambda>H. hq_messages7_gte H (requiredNonnegativeInteger b))"
| "leaf_query Q HXCUserMessages7DLTE b = hxc_or Q (\<lambda>H. hq_messages7_lte H (requiredNonnegativeInteger b))"
| "leaf_query Q HXCUserMessages30DGTE b = hxc_or Q (\<lambda>H. hq_messages30_gte H (requiredNonnegativeInteger b))"
| "leaf_query Q HXCUserMessages30DLTE b = hxc_or Q (\<lambda>H. hq_messages30_lte H (requiredNonnegativeInteger b))"
| "leaf_query Q HXCLastCapabilityEqual b = hxc_or Q (\<lambda>H. hq_capability H (requiredText b))"
| "leaf_query Q HXCBusinessStageEqual b = hxc_or Q (\<lambda>H. hq_business_stage H (requiredText b))"
| "leaf_query Q HXCMainLineTypeEqual b = hxc_or Q (\<lambda>H. hq_main_line H (requiredText b))"
| "leaf_query Q HXCUserSegmentEqual b = hxc_or Q (\<lambda>H. hq_user_segment H (requiredText b))"
| "leaf_query Q HXCFocusTopicAny b = hxc_or Q (\<lambda>H. hq_focus_any H (requiredTexts b))"
| "leaf_query Q HXCPainTagEqual b = hxc_or Q (\<lambda>H. hq_pain H (requiredText b))"

definition run_leaf :: "query_set \<Rightarrow> opcode \<Rightarrow> binding \<Rightarrow> ids_result" where
  "run_leaf Q op b =
     (if \<not> validLeafBind op b then Inl (ExecDetail unsafe)
      else (case leaf_query Q op b of Inl e \<Rightarrow> Inl e | Inr ids \<Rightarrow> normalizeIDs ids))"

section \<open>Programs\<close>

fun run_node :: "query_set \<Rightarrow> exec_error option \<Rightarrow> int list \<Rightarrow> qnode \<Rightarrow> ids_result"
  and run_all :: "query_set \<Rightarrow> exec_error option \<Rightarrow> int list \<Rightarrow> qnode list \<Rightarrow> int list \<Rightarrow> ids_result"
  and run_any :: "query_set \<Rightarrow> exec_error option \<Rightarrow> int list \<Rightarrow> qnode list \<Rightarrow> int list \<Rightarrow> ids_result" where
  "run_node Q ctx universe q =
     (case ctx of
        Some e \<Rightarrow> Inl e
      | None \<Rightarrow>
          (case q of
             QIntersect children \<Rightarrow>
               if children = [] then Inl (ExecDetail unsafe) else run_all Q ctx universe children universe
           | QUnion children \<Rightarrow>
               if children = [] then Inl (ExecDetail unsafe) else run_any Q ctx universe children []
           | QComplement child \<Rightarrow>
               (case run_node Q ctx universe child of
                  Inl e \<Rightarrow> Inl e | Inr ids \<Rightarrow> Inr (differenceIDs universe ids))
           | QLeaf op b \<Rightarrow> run_leaf Q op b))"
| "run_all Q ctx universe [] result = Inr result"
| "run_all Q ctx universe (q # qs) result =
     (case run_node Q ctx universe q of
        Inl e \<Rightarrow> Inl e
      | Inr ids \<Rightarrow> run_all Q ctx universe qs (intersectIDs result ids))"
| "run_any Q ctx universe [] result = Inr result"
| "run_any Q ctx universe (q # qs) result =
     (case run_node Q ctx universe q of
        Inl e \<Rightarrow> Inl e
      | Inr ids \<Rightarrow> run_any Q ctx universe qs (unionIDs result ids))"

definition Execute :: "query_set \<Rightarrow> exec_error option \<Rightarrow> qnode option \<Rightarrow> ids_result" where
  "Execute Q ctx root =
     (case root of
        None \<Rightarrow> Inl (ExecDetail unsafe)
      | Some q \<Rightarrow>
          (case qs_universe Q of
             Inl e \<Rightarrow> Inl e
           | Inr universe \<Rightarrow>
               (case normalizeIDs universe of
                  Inl e \<Rightarrow> Inl e
                | Inr u \<Rightarrow>
                    (case run_node Q ctx u q of
                       Inl e \<Rightarrow> Inl e
                     | Inr selected \<Rightarrow> Inr (intersectIDs u selected)))))"

declare run_node.simps [simp del]

lemma run_node_simps [simp]:
  "run_node Q None us (QIntersect qs) =
     (if qs = [] then Inl (ExecDetail unsafe) else run_all Q None us qs us)"
  "run_node Q None us (QUnion qs) =
     (if qs = [] then Inl (ExecDetail unsafe) else run_any Q None us qs [])"
  "run_node Q None us (QComplement q) =
     (case run_node Q None us q of Inl e \<Rightarrow> Inl e | Inr ids \<Rightarrow> Inr (differenceIDs us ids))"
  "run_node Q None us (QLeaf op b) = run_leaf Q op b"
  by (simp_all add: run_node.simps)

section \<open>Facts about the set algebra\<close>

lemma set_compact [simp]: "set (compact xs) = set xs"
  by (induction xs rule: compact.induct) auto

lemma ascending_compact: "sorted xs \<Longrightarrow> ascending (compact xs)"
proof (induction xs rule: compact.induct)
  case (1 x y zs)
  then show ?case by (auto simp: less_le)
qed auto

lemma normalizeIDs_Inr:
  "normalizeIDs ids = Inr out \<longleftrightarrow> (\<forall>i \<in> set ids. 0 < i) \<and> out = sorted_list_of_set (set ids)"
proof -
  have "compact (sort ids) = sorted_list_of_set (set ids)"
    using ascending_eq_sorted_list_of_set [OF ascending_compact [OF sorted_sort]] by simp
  moreover have "list_ex (\<lambda>i. i \<le> 0) ids = (\<not> (\<forall>i \<in> set ids. 0 < i))"
    by (auto simp: list_ex_iff not_less)
  ultimately show ?thesis by (auto simp: normalizeIDs_def)
qed

lemma set_intersectIDs:
  "ascending xs \<Longrightarrow> ascending ys \<Longrightarrow> set (intersectIDs xs ys) = set xs \<inter> set ys"
  by (induction xs ys rule: intersectIDs.induct) auto

lemma ascending_intersectIDs:
  "ascending xs \<Longrightarrow> ascending ys \<Longrightarrow> ascending (intersectIDs xs ys)"
  by (induction xs ys rule: intersectIDs.induct) (auto simp: set_intersectIDs)

lemma set_unionIDs: "set (unionIDs xs ys) = set xs \<union> set ys"
  by (induction xs ys rule: unionIDs.induct) auto

lemma ascending_unionIDs:
  "ascending xs \<Longrightarrow> ascending ys \<Longrightarrow> ascending (unionIDs xs ys)"
  by (induction xs ys rule: unionIDs.induct) (auto simp: set_unionIDs)

lemma set_differenceIDs:
  "ascending xs \<Longrightarrow> ascending ys \<Longrightarrow> set (differenceIDs xs ys) = set xs - set ys"
  by (induction xs ys rule: differenceIDs.induct) auto

lemma ascending_differenceIDs:
  "ascending xs \<Longrightarrow> ascending ys \<Longrightarrow> ascending (differenceIDs xs ys)"
  by (induction xs ys rule: differenceIDs.induct) (auto simp: set_differenceIDs)

lemmas [sorted_ids] = set_intersectIDs ascending_intersectIDs set_unionIDs ascending_unionIDs
  set_differenceIDs ascending_differenceIDs

section \<open>The contract of the QuerySet interface\<close>

text \<open>
  What the executor relies on: the universe is a set of positive identifiers, and the query of
  a valid leaf returns, within the universe, exactly the identifiers of which the leaf holds.
\<close>

fun qmeans :: "(opcode \<Rightarrow> binding \<Rightarrow> int \<Rightarrow> bool) \<Rightarrow> qnode \<Rightarrow> int \<Rightarrow> bool" where
  "qmeans holds (QIntersect qs) i = list_all (\<lambda>q. qmeans holds q i) qs"
| "qmeans holds (QUnion qs) i = list_ex (\<lambda>q. qmeans holds q i) qs"
| "qmeans holds (QComplement q) i = (\<not> qmeans holds q i)"
| "qmeans holds (QLeaf op b) i = holds op b i"

fun qvalid :: "qnode \<Rightarrow> bool" where
  "qvalid (QIntersect qs) = (qs \<noteq> [] \<and> list_all qvalid qs)"
| "qvalid (QUnion qs) = (qs \<noteq> [] \<and> list_all qvalid qs)"
| "qvalid (QComplement q) = qvalid q"
| "qvalid (QLeaf op b) = validLeafBind op b"

locale segment_queries =
  fixes Q :: query_set and universe :: "int set" and holds :: "opcode \<Rightarrow> binding \<Rightarrow> int \<Rightarrow> bool"
  assumes universe_law: "\<exists>ids. qs_universe Q = Inr ids \<and> set ids = universe"
    and universe_positive: "i \<in> universe \<Longrightarrow> 0 < i"
    and leaf_law: "validLeafBind op b \<Longrightarrow>
      \<exists>ids. leaf_query Q op b = Inr ids \<and> (\<forall>i \<in> set ids. 0 < i) \<and>
        set ids \<inter> universe = {i \<in> universe. holds op b i}"
begin

definition selects :: "int list \<Rightarrow> (int \<Rightarrow> bool) \<Rightarrow> bool" where
  "selects ids P \<longleftrightarrow> ascending ids \<and> set ids \<inter> universe = {i \<in> universe. P i}"

lemma run_leaf_selects:
  "validLeafBind op b \<Longrightarrow> \<exists>ids. run_leaf Q op b = Inr ids \<and> selects ids (holds op b)"
  using leaf_law [of op b]
  by (auto simp: run_leaf_def selects_def normalizeIDs_Inr split: sum.splits)

lemma selects_intersect:
  "selects xs P \<Longrightarrow> selects ys R \<Longrightarrow> selects (intersectIDs xs ys) (\<lambda>i. P i \<and> R i)"
  by (auto simp: selects_def sorted_ids)

lemma selects_union:
  "selects xs P \<Longrightarrow> selects ys R \<Longrightarrow> selects (unionIDs xs ys) (\<lambda>i. P i \<or> R i)"
  by (auto simp: selects_def sorted_ids)

lemma run_all_selects:
  "\<forall>q \<in> set qs. \<exists>ids. run_node Q None us q = Inr ids \<and> selects ids (qmeans holds q) \<Longrightarrow> selects acc P \<Longrightarrow>
     \<exists>ids. run_all Q None us qs acc = Inr ids \<and> selects ids (\<lambda>i. P i \<and> list_all (\<lambda>q. qmeans holds q i) qs)"
proof (induction qs arbitrary: acc P)
  case (Cons q qs)
  then obtain ids where ids: "run_node Q None us q = Inr ids" "selects ids (qmeans holds q)" by auto
  have "selects (intersectIDs acc ids) (\<lambda>i. P i \<and> qmeans holds q i)"
    using selects_intersect Cons.prems(2) ids(2) by blast
  from Cons.IH [OF _ this] Cons.prems(1) ids(1) show ?case by (simp add: conj_assoc)
qed (auto simp: selects_def)

lemma run_any_selects:
  "\<forall>q \<in> set qs. \<exists>ids. run_node Q None us q = Inr ids \<and> selects ids (qmeans holds q) \<Longrightarrow> selects acc P \<Longrightarrow>
     \<exists>ids. run_any Q None us qs acc = Inr ids \<and> selects ids (\<lambda>i. P i \<or> list_ex (\<lambda>q. qmeans holds q i) qs)"
proof (induction qs arbitrary: acc P)
  case (Cons q qs)
  then obtain ids where ids: "run_node Q None us q = Inr ids" "selects ids (qmeans holds q)" by auto
  have "selects (unionIDs acc ids) (\<lambda>i. P i \<or> qmeans holds q i)"
    using selects_union Cons.prems(2) ids(2) by blast
  from Cons.IH [OF _ this] Cons.prems(1) ids(1) show ?case by (simp add: disj_assoc)
qed (auto simp: selects_def)

lemma run_node_selects:
  assumes us: "ascending us" "set us = universe"
  shows "qvalid q \<Longrightarrow> \<exists>ids. run_node Q None us q = Inr ids \<and> selects ids (qmeans holds q)"
proof (induction q)
  case (QIntersect qs)
  have "selects us (\<lambda>_. True)" using us by (simp add: selects_def)
  from run_all_selects [OF _ this] QIntersect show ?case by (auto simp: list_all_iff)
next
  case (QUnion qs)
  have "selects [] (\<lambda>_. False)" by (simp add: selects_def)
  from run_any_selects [OF _ this] QUnion show ?case by (auto simp: list_all_iff)
next
  case (QComplement q)
  then obtain ids where ids: "run_node Q None us q = Inr ids" "selects ids (qmeans holds q)" by auto
  then have "selects (differenceIDs us ids) (qmeans holds (QComplement q))"
    using us by (auto simp: selects_def sorted_ids)
  then show ?case using ids(1) by (auto simp: selects_def)
next
  case (QLeaf op b)
  then show ?case using run_leaf_selects by simp
qed

theorem execute_selects:
  assumes "qvalid q"
  shows "\<exists>ids. Execute Q None (Some q) = Inr ids \<and> ascending ids \<and> set ids = {i \<in> universe. qmeans holds q i}"
proof -
  obtain ids where univ: "qs_universe Q = Inr ids" "set ids = universe" using universe_law by blast
  define us where "us = sorted_list_of_set (set ids)"
  have us: "normalizeIDs ids = Inr us" "ascending us" "set us = universe"
    using univ universe_positive by (auto simp: normalizeIDs_Inr us_def)
  obtain out where out: "run_node Q None us q = Inr out" "selects out (qmeans holds q)"
    using run_node_selects [OF us(2,3) assms] by blast
  have "set (intersectIDs us out) = {i \<in> universe. qmeans holds q i}"
    using us out(2) by (auto simp: selects_def sorted_ids)
  moreover have "ascending (intersectIDs us out)"
    using us out(2) by (auto simp: selects_def sorted_ids)
  ultimately show ?thesis using univ(1) us(1) out(1) by (simp add: Execute_def)
qed

end

end
