(* ===== verification/SegmentStore.thy ===== *)
theory SegmentStore
  imports SegmentExecutor
begin

text \<open>
  The PostgreSQL query family behind segment programs
  (\<^verbatim>\<open>internal/segment/store/query_set.go\<close> and \<^verbatim>\<open>queries/audience.sql\<close>): the tables it
  reads, one definition per SQL query, the meaning of a definition on a customer, and the
  interpretation of the executor's contract on these queries.

  A nullable column is an option; a comparison with NULL selects nothing. The database keeps
  instants in microseconds, and the driver drops the nanoseconds of a bound instant
  (\<open>pg_time\<close>). \<open>now\<close> is \<^verbatim>\<open>CURRENT_TIMESTAMP\<close> of the transaction.
\<close>

section \<open>Tables\<close>

record customer_row =
  cu_id :: int
  cu_stage :: "int option"
  cu_owner :: "int option"
  cu_channel :: "int option"
  cu_added :: "instant option"
  cu_interact :: "instant option"
  cu_deleted :: bool

datatype match_state = Matched | Unmatched | Conflicting

record hxc_row =
  hx_customer :: "int option"
  hx_match :: match_state
  hx_tier :: string
  hx_expires :: "instant option"
  hx_messages7 :: int
  hx_messages30 :: int
  hx_capability :: "string option"
  hx_business_stage :: "string option"
  hx_main_line :: "string option"
  hx_user_segment :: "string option"
  hx_focus :: "string list"
  hx_pain :: "string option"

record seg_db =
  customers :: "customer_row list"
  customer_tags :: "(int \<times> int) list"
  hxc_users :: "hxc_row list"
  v1_packages :: "(int \<times> int) list"
  v1_members :: "(int \<times> int option) list"

text \<open>
  The constraints of the schema: identity keys are positive and unique, references point to
  customers, and a HXC row has a customer exactly when it is matched.
\<close>

definition seg_db_ok :: "seg_db \<Rightarrow> bool" where
  "seg_db_ok db \<longleftrightarrow>
     list_all (\<lambda>c. 0 < cu_id c) (customers db) \<and> distinct (map cu_id (customers db)) \<and>
     list_all (\<lambda>t. fst t \<in> set (map cu_id (customers db))) (customer_tags db) \<and>
     list_all (\<lambda>h. (hx_match h = Matched) = (hx_customer h \<noteq> None) \<and>
        (case hx_customer h of None \<Rightarrow> True | Some i \<Rightarrow> i \<in> set (map cu_id (customers db)))) (hxc_users db) \<and>
     list_all (\<lambda>m. case snd m of None \<Rightarrow> True | Some i \<Rightarrow> i \<in> set (map cu_id (customers db))) (v1_members db)"

definition pg_time :: "instant \<Rightarrow> instant" where
  "pg_time t = t div 1000 * 1000"

section \<open>Queries\<close>

definition SelectSegmentUniverse :: "seg_db \<Rightarrow> int list" where
  "SelectSegmentUniverse db = sort (map cu_id (customers db))"

definition select_customers :: "seg_db \<Rightarrow> (customer_row \<Rightarrow> bool) \<Rightarrow> int list" where
  "select_customers db P = map cu_id (filter P (customers db))"

definition SelectSegmentTagAny :: "seg_db \<Rightarrow> int list \<Rightarrow> int list" where
  "SelectSegmentTagAny db tags = remdups (map fst (filter (\<lambda>t. snd t \<in> set tags) (customer_tags db)))"

definition optional_before :: "instant option \<Rightarrow> instant \<Rightarrow> bool" where
  "optional_before a t = (case a of None \<Rightarrow> False | Some x \<Rightarrow> x < pg_time t)"

definition optional_after :: "instant option \<Rightarrow> instant \<Rightarrow> bool" where
  "optional_after a t = (case a of None \<Rightarrow> False | Some x \<Rightarrow> pg_time t < x)"

definition select_hxc :: "seg_db \<Rightarrow> (hxc_row \<Rightarrow> bool) \<Rightarrow> int list" where
  "select_hxc db P = map (\<lambda>h. case hx_customer h of None \<Rightarrow> 0 | Some i \<Rightarrow> i)
     (filter (\<lambda>h. hx_match h = Matched \<and> P h) (hxc_users db))"

definition hxc_active :: "instant \<Rightarrow> hxc_row \<Rightarrow> bool" where
  "hxc_active now h = (case hx_expires h of None \<Rightarrow> False | Some t \<Rightarrow> now < t)"

text \<open>\<^verbatim>\<open>GREATEST(FLOOR(EXTRACT(EPOCH FROM (expires - now)) / 86400), 0)\<close>\<close>

definition days_remaining :: "instant \<Rightarrow> hxc_row \<Rightarrow> int option" where
  "days_remaining now h = map_option (\<lambda>t. max ((t - now) div day_nanos) 0) (hx_expires h)"

definition SelectLegacyAudiencePackageSnapshot :: "seg_db \<Rightarrow> int \<Rightarrow> int list" where
  "SelectLegacyAudiencePackageSnapshot db source =
     remdups (sort (map (\<lambda>m. the (snd m)) (filter (\<lambda>m. snd m \<noteq> None \<and>
       the (snd m) \<in> set (map cu_id (customers db)) \<and>
       list_ex (\<lambda>p. fst p = fst m \<and> snd p = source) (v1_packages db)) (v1_members db))))"

definition hxc_queries :: "seg_db \<Rightarrow> instant \<Rightarrow> hxc_query_set" where
  "hxc_queries db now = \<lparr>
     hq_tier = (\<lambda>v. Inr (select_hxc db (\<lambda>h. hx_tier h = v))),
     hq_active = (\<lambda>v. Inr (select_hxc db (\<lambda>h. hxc_active now h = v))),
     hq_days_gte = (\<lambda>v. Inr (select_hxc db (\<lambda>h. case days_remaining now h of None \<Rightarrow> False | Some d \<Rightarrow> v \<le> d))),
     hq_days_lte = (\<lambda>v. Inr (select_hxc db (\<lambda>h. case days_remaining now h of None \<Rightarrow> False | Some d \<Rightarrow> d \<le> v))),
     hq_messages7_gte = (\<lambda>v. Inr (select_hxc db (\<lambda>h. v \<le> hx_messages7 h))),
     hq_messages7_lte = (\<lambda>v. Inr (select_hxc db (\<lambda>h. hx_messages7 h \<le> v))),
     hq_messages30_gte = (\<lambda>v. Inr (select_hxc db (\<lambda>h. v \<le> hx_messages30 h))),
     hq_messages30_lte = (\<lambda>v. Inr (select_hxc db (\<lambda>h. hx_messages30 h \<le> v))),
     hq_capability = (\<lambda>v. Inr (select_hxc db (\<lambda>h. hx_capability h = Some v))),
     hq_business_stage = (\<lambda>v. Inr (select_hxc db (\<lambda>h. hx_business_stage h = Some v))),
     hq_main_line = (\<lambda>v. Inr (select_hxc db (\<lambda>h. hx_main_line h = Some v))),
     hq_user_segment = (\<lambda>v. Inr (select_hxc db (\<lambda>h. hx_user_segment h = Some v))),
     hq_focus_any = (\<lambda>vs. Inr (select_hxc db (\<lambda>h. list_ex (\<lambda>v. v \<in> set (hx_focus h)) vs))),
     hq_pain = (\<lambda>v. Inr (select_hxc db (\<lambda>h. hx_pain h = Some v)))\<rparr>"

definition one_of :: "int option \<Rightarrow> int list \<Rightarrow> bool" where
  "one_of x vs = (case x of None \<Rightarrow> False | Some i \<Rightarrow> i \<in> set vs)"

definition store_queries :: "seg_db \<Rightarrow> instant \<Rightarrow> query_set" where
  "store_queries db now = \<lparr>
     qs_universe = Inr (SelectSegmentUniverse db),
     qs_stage = (\<lambda>v. Inr (select_customers db (\<lambda>c. cu_stage c = Some v))),
     qs_stage_any = (\<lambda>vs. Inr (select_customers db (\<lambda>c. one_of (cu_stage c) vs))),
     qs_owner = (\<lambda>v. Inr (select_customers db (\<lambda>c. cu_owner c = Some v))),
     qs_owner_any = (\<lambda>vs. Inr (select_customers db (\<lambda>c. one_of (cu_owner c) vs))),
     qs_channel = (\<lambda>v. Inr (select_customers db (\<lambda>c. cu_channel c = Some v))),
     qs_channel_any = (\<lambda>vs. Inr (select_customers db (\<lambda>c. one_of (cu_channel c) vs))),
     qs_tag_any = (\<lambda>vs. Inr (SelectSegmentTagAny db vs)),
     qs_added_before = (\<lambda>t. Inr (select_customers db (\<lambda>c. optional_before (cu_added c) t))),
     qs_added_after = (\<lambda>t. Inr (select_customers db (\<lambda>c. optional_after (cu_added c) t))),
     qs_interact_before = (\<lambda>t. Inr (select_customers db (\<lambda>c. optional_before (cu_interact c) t))),
     qs_interact_after = (\<lambda>t. Inr (select_customers db (\<lambda>c. optional_after (cu_interact c) t))),
     qs_deleted = (\<lambda>v. Inr (select_customers db (\<lambda>c. cu_deleted c = v))),
     qs_legacy = (\<lambda>v. Inr (SelectLegacyAudiencePackageSnapshot db v)),
     qs_hxc = Some (hxc_queries db now)\<rparr>"

section \<open>What a definition means\<close>

text \<open>The facts about a customer that predicates speak of.\<close>

definition tagged :: "seg_db \<Rightarrow> int \<Rightarrow> int list \<Rightarrow> bool" where
  "tagged db i tags = list_ex (\<lambda>t. fst t = i \<and> snd t \<in> set tags) (customer_tags db)"

definition in_snapshot :: "seg_db \<Rightarrow> int \<Rightarrow> int \<Rightarrow> bool" where
  "in_snapshot db i source =
     list_ex (\<lambda>m. snd m = Some i \<and> list_ex (\<lambda>p. fst p = fst m \<and> snd p = source) (v1_packages db)) (v1_members db)"

definition hxc_has :: "seg_db \<Rightarrow> int \<Rightarrow> (hxc_row \<Rightarrow> bool) \<Rightarrow> bool" where
  "hxc_has db i P = list_ex (\<lambda>h. hx_customer h = Some i \<and> P h) (hxc_users db)"

definition at_bound :: "operator \<Rightarrow> int \<Rightarrow> int \<Rightarrow> bool" where
  "at_bound p x v = (if p = OperatorGTE then v \<le> x else x \<le> v)"

definition time_holds :: "operator \<Rightarrow> instant option \<Rightarrow> instant \<Rightarrow> bool" where
  "time_holds p a t = (if p = OperatorBefore then optional_before a t else optional_after a t)"

definition time_field :: "customer_row \<Rightarrow> seg_field \<Rightarrow> instant option" where
  "time_field c f = (if f = FieldAddedAt then cu_added c else cu_interact c)"

fun text_field :: "seg_field \<Rightarrow> hxc_row \<Rightarrow> string option" where
  "text_field FieldHXCSubscriptionTier h = Some (hx_tier h)"
| "text_field FieldHXCLastCapability h = hx_capability h"
| "text_field FieldHXCBusinessStage h = hx_business_stage h"
| "text_field FieldHXCMainLineType h = hx_main_line h"
| "text_field FieldHXCUserSegment h = hx_user_segment h"
| "text_field FieldHXCPainTag h = hx_pain h"
| "text_field _ h = None"

fun number_field :: "instant \<Rightarrow> seg_field \<Rightarrow> hxc_row \<Rightarrow> int option" where
  "number_field now FieldHXCDaysRemaining h = days_remaining now h"
| "number_field now FieldHXCUserMessages7D h = Some (hx_messages7 h)"
| "number_field now FieldHXCUserMessages30D h = Some (hx_messages30 h)"
| "number_field now _ h = None"

fun id_field :: "seg_field \<Rightarrow> customer_row \<Rightarrow> int option" where
  "id_field FieldStageID c = cu_stage c"
| "id_field FieldOwnerStaffID c = cu_owner c"
| "id_field FieldChannelID c = cu_channel c"
| "id_field _ c = None"

fun predicate_holds ::
  "seg_db \<Rightarrow> instant \<Rightarrow> instant \<Rightarrow> customer_row \<Rightarrow> seg_field \<Rightarrow> operator \<Rightarrow> ast_value \<Rightarrow> bool" where
  "predicate_holds db now reference c f p (IntValue v) =
     (if f = FieldLegacyAudiencePackageSourceID then in_snapshot db (cu_id c) v
      else if hxcNumericField f
      then hxc_has db (cu_id c) (\<lambda>h. case number_field now f h of None \<Rightarrow> False | Some x \<Rightarrow> at_bound p x v)
      else id_field f c = Some v)"
| "predicate_holds db now reference c f p (IntListValue vs) =
     (if f = FieldTagID then tagged db (cu_id c) vs else one_of (id_field f c) vs)"
| "predicate_holds db now reference c f p (TimestampValue t) = time_holds p (time_field c f) t"
| "predicate_holds db now reference c f p (RelativeDaysValue d) =
     time_holds p (time_field c f) (reference - d * day_nanos)"
| "predicate_holds db now reference c f p (BoolValue v) =
     (if f = FieldIsDeleted then cu_deleted c = v else hxc_has db (cu_id c) (\<lambda>h. hxc_active now h = v))"
| "predicate_holds db now reference c f p (StringValue s) =
     hxc_has db (cu_id c) (\<lambda>h. text_field f h = Some s)"
| "predicate_holds db now reference c f p (StringListValue vs) =
     hxc_has db (cu_id c) (\<lambda>h. list_ex (\<lambda>v. v \<in> set (hx_focus h)) vs)"

fun satisfies :: "seg_db \<Rightarrow> instant \<Rightarrow> instant \<Rightarrow> ast_node \<Rightarrow> customer_row \<Rightarrow> bool" where
  "satisfies db now reference (AndNode ns) c = list_all (\<lambda>n. satisfies db now reference n c) ns"
| "satisfies db now reference (OrNode ns) c = list_ex (\<lambda>n. satisfies db now reference n c) ns"
| "satisfies db now reference (Predicate f p v) c = predicate_holds db now reference c f p v"

section \<open>What a leaf means\<close>

definition row_holds :: "seg_db \<Rightarrow> int \<Rightarrow> (customer_row \<Rightarrow> bool) \<Rightarrow> bool" where
  "row_holds db i P = list_ex (\<lambda>c. cu_id c = i \<and> P c) (customers db)"

fun leaf_holds :: "seg_db \<Rightarrow> instant \<Rightarrow> opcode \<Rightarrow> binding \<Rightarrow> int \<Rightarrow> bool" where
  "leaf_holds db now StageEqual b = (\<lambda>i. row_holds db i (\<lambda>c. cu_stage c = bd_integer b))"
| "leaf_holds db now StageAny b = (\<lambda>i. row_holds db i (\<lambda>c. one_of (cu_stage c) (bd_integers b)))"
| "leaf_holds db now OwnerEqual b = (\<lambda>i. row_holds db i (\<lambda>c. cu_owner c = bd_integer b))"
| "leaf_holds db now OwnerAny b = (\<lambda>i. row_holds db i (\<lambda>c. one_of (cu_owner c) (bd_integers b)))"
| "leaf_holds db now ChannelEqual b = (\<lambda>i. row_holds db i (\<lambda>c. cu_channel c = bd_integer b))"
| "leaf_holds db now ChannelAny b = (\<lambda>i. row_holds db i (\<lambda>c. one_of (cu_channel c) (bd_integers b)))"
| "leaf_holds db now TagHasAny b = (\<lambda>i. tagged db i (bd_integers b))"
| "leaf_holds db now AddedBefore b = (\<lambda>i. row_holds db i (\<lambda>c. optional_before (cu_added c) (the (bd_timestamp b))))"
| "leaf_holds db now AddedAfter b = (\<lambda>i. row_holds db i (\<lambda>c. optional_after (cu_added c) (the (bd_timestamp b))))"
| "leaf_holds db now LastInteractBefore b = (\<lambda>i. row_holds db i (\<lambda>c. optional_before (cu_interact c) (the (bd_timestamp b))))"
| "leaf_holds db now LastInteractAfter b = (\<lambda>i. row_holds db i (\<lambda>c. optional_after (cu_interact c) (the (bd_timestamp b))))"
| "leaf_holds db now DeletedEqual b = (\<lambda>i. row_holds db i (\<lambda>c. cu_deleted c = the (bd_boolean b)))"
| "leaf_holds db now LegacyAudiencePackageSnapshot b = (\<lambda>i. in_snapshot db i (the (bd_integer b)))"
| "leaf_holds db now HXCSubscriptionTierEqual b = (\<lambda>i. hxc_has db i (\<lambda>h. hx_tier h = the (bd_text b)))"
| "leaf_holds db now HXCSubscriptionActiveEqual b = (\<lambda>i. hxc_has db i (\<lambda>h. hxc_active now h = the (bd_boolean b)))"
| "leaf_holds db now HXCDaysRemainingGTE b = (\<lambda>i. hxc_has db i (\<lambda>h. case days_remaining now h of None \<Rightarrow> False | Some d \<Rightarrow> the (bd_integer b) \<le> d))"
| "leaf_holds db now HXCDaysRemainingLTE b = (\<lambda>i. hxc_has db i (\<lambda>h. case days_remaining now h of None \<Rightarrow> False | Some d \<Rightarrow> d \<le> the (bd_integer b)))"
| "leaf_holds db now HXCUserMessages7DGTE b = (\<lambda>i. hxc_has db i (\<lambda>h. the (bd_integer b) \<le> hx_messages7 h))"
| "leaf_holds db now HXCUserMessages7DLTE b = (\<lambda>i. hxc_has db i (\<lambda>h. hx_messages7 h \<le> the (bd_integer b)))"
| "leaf_holds db now HXCUserMessages30DGTE b = (\<lambda>i. hxc_has db i (\<lambda>h. the (bd_integer b) \<le> hx_messages30 h))"
| "leaf_holds db now HXCUserMessages30DLTE b = (\<lambda>i. hxc_has db i (\<lambda>h. hx_messages30 h \<le> the (bd_integer b)))"
| "leaf_holds db now HXCLastCapabilityEqual b = (\<lambda>i. hxc_has db i (\<lambda>h. hx_capability h = bd_text b))"
| "leaf_holds db now HXCBusinessStageEqual b = (\<lambda>i. hxc_has db i (\<lambda>h. hx_business_stage h = bd_text b))"
| "leaf_holds db now HXCMainLineTypeEqual b = (\<lambda>i. hxc_has db i (\<lambda>h. hx_main_line h = bd_text b))"
| "leaf_holds db now HXCUserSegmentEqual b = (\<lambda>i. hxc_has db i (\<lambda>h. hx_user_segment h = bd_text b))"
| "leaf_holds db now HXCFocusTopicAny b = (\<lambda>i. hxc_has db i (\<lambda>h. list_ex (\<lambda>v. v \<in> set (hx_focus h)) (bd_texts b)))"
| "leaf_holds db now HXCPainTagEqual b = (\<lambda>i. hxc_has db i (\<lambda>h. hx_pain h = bd_text b))"

section \<open>The queries honour the contract\<close>

lemma required_valid:
  assumes "validLeafBind op b"
  shows "bind_kind_of op = BkPositive \<Longrightarrow> bd_integer b = Some (requiredInteger b)"
    and "bind_kind_of op = BkNonnegative \<Longrightarrow> bd_integer b = Some (requiredNonnegativeInteger b)"
    and "bind_kind_of op = BkIntegers \<Longrightarrow> bd_integers b = requiredIntegers b"
    and "bind_kind_of op = BkTimestamp \<Longrightarrow> bd_timestamp b = Some (requiredTimestamp b)"
    and "bind_kind_of op = BkBoolean \<Longrightarrow> bd_boolean b = Some (requiredBoolean b)"
    and "bind_kind_of op = BkText \<Longrightarrow> bd_text b = Some (requiredText b)"
    and "bind_kind_of op = BkTexts \<Longrightarrow> bd_texts b = requiredTexts b"
  using assms
  by (auto simp: validLeafBind_def requiredInteger_def requiredNonnegativeInteger_def
      requiredIntegers_def requiredTimestamp_def requiredBoolean_def requiredText_def
      requiredTexts_def split: option.splits)

definition answers :: "seg_db \<Rightarrow> int list \<Rightarrow> (int \<Rightarrow> bool) \<Rightarrow> bool" where
  "answers db ids P \<longleftrightarrow> set ids = {i \<in> set (map cu_id (customers db)). P i}"

lemma answersI:
  assumes "set ids = X" and "\<And>i. P i \<longleftrightarrow> i \<in> X" and "X \<subseteq> set (map cu_id (customers db))"
  shows "answers db ids P"
  using assms by (auto simp: answers_def)

lemma answers_customers: "answers db (select_customers db P) (\<lambda>i. row_holds db i P)"
proof (rule answersI)
  show "set (select_customers db P) = cu_id ` {c \<in> set (customers db). P c}"
    by (simp add: select_customers_def)
  show "row_holds db i P \<longleftrightarrow> i \<in> cu_id ` {c \<in> set (customers db). P c}" for i
    by (auto simp: row_holds_def list_ex_iff)
qed auto

lemma answers_tags:
  assumes "seg_db_ok db"
  shows "answers db (SelectSegmentTagAny db vs) (\<lambda>i. tagged db i vs)"
proof (rule answersI)
  show "set (SelectSegmentTagAny db vs) = fst ` {t \<in> set (customer_tags db). snd t \<in> set vs}"
    by (simp add: SelectSegmentTagAny_def)
  show "tagged db i vs \<longleftrightarrow> i \<in> fst ` {t \<in> set (customer_tags db). snd t \<in> set vs}" for i
    by (force simp: tagged_def list_ex_iff)
  show "fst ` {t \<in> set (customer_tags db). snd t \<in> set vs} \<subseteq> set (map cu_id (customers db))"
    using assms by (auto simp: seg_db_ok_def list_all_iff)
qed

lemma answers_hxc:
  assumes "seg_db_ok db"
  shows "answers db (select_hxc db P) (\<lambda>i. hxc_has db i P)"
proof (rule answersI)
  let ?X = "(\<lambda>h. the (hx_customer h)) ` {h \<in> set (hxc_users db). hx_match h = Matched \<and> P h}"
  have row: "(hx_match h = Matched) = (\<exists>i. hx_customer h = Some i)"
    "hx_customer h = Some i \<Longrightarrow> i \<in> set (map cu_id (customers db))" if "h \<in> set (hxc_users db)" for h i
    using assms that by (auto simp: seg_db_ok_def list_all_iff)
  show "set (select_hxc db P) = ?X"
    using row by (auto simp: select_hxc_def intro!: image_cong) 
  show "hxc_has db i P \<longleftrightarrow> i \<in> ?X" for i
    using row(1) by (force simp: hxc_has_def list_ex_iff image_iff)
  show "?X \<subseteq> set (map cu_id (customers db))"
    using row by fastforce
qed

lemma answers_snapshot:
  assumes "seg_db_ok db"
  shows "answers db (SelectLegacyAudiencePackageSnapshot db v) (\<lambda>i. in_snapshot db i v)"
proof (rule answersI)
  let ?in = "\<lambda>m. list_ex (\<lambda>p. fst p = fst m \<and> snd p = v) (v1_packages db)"
  let ?X = "(\<lambda>m. the (snd m)) ` {m \<in> set (v1_members db). (\<exists>i. snd m = Some i) \<and> ?in m}"
  have ref: "i \<in> set (map cu_id (customers db))" if "m \<in> set (v1_members db)" "snd m = Some i" for m i
    using assms that by (auto simp: seg_db_ok_def list_all_iff)
  then show "?X \<subseteq> set (map cu_id (customers db))" by fastforce
  have "{m \<in> set (v1_members db). snd m \<noteq> None \<and> the (snd m) \<in> set (map cu_id (customers db)) \<and> ?in m} =
      {m \<in> set (v1_members db). (\<exists>i. snd m = Some i) \<and> ?in m}"
    using ref by auto
  then show "set (SelectLegacyAudiencePackageSnapshot db v) = ?X"
    by (simp add: SelectLegacyAudiencePackageSnapshot_def)
  show "in_snapshot db i v \<longleftrightarrow> i \<in> ?X" for i
    by (force simp: in_snapshot_def list_ex_iff image_iff)
qed

lemma leaf_query_answers:
  assumes ok: "seg_db_ok db" and valid: "validLeafBind op b"
  shows "\<exists>ids. leaf_query (store_queries db now) op b = Inr ids \<and> answers db ids (leaf_holds db now op b)"
proof -
  note binds = required_valid [OF valid]
  show ?thesis
    using binds
    by (cases op) (simp_all add: store_queries_def hxc_queries_def hxc_or_def answers_customers
        answers_tags [OF ok] answers_hxc [OF ok] answers_snapshot [OF ok] cong: option.case_cong)
qed

definition empty_seg_db :: seg_db where
  "empty_seg_db = \<lparr>customers = [], customer_tags = [], hxc_users = [], v1_packages = [], v1_members = []\<rparr>"

text \<open>The tables as the schema admits them.\<close>

definition admitted :: "seg_db \<Rightarrow> seg_db" where
  "admitted db = (if seg_db_ok db then db else empty_seg_db)"

lemma admitted_ok: "seg_db_ok (admitted db)"
  by (simp add: admitted_def empty_seg_db_def seg_db_ok_def)

interpretation seg: segment_queries "store_queries (admitted db) now"
    "set (map cu_id (customers (admitted db)))" "leaf_holds (admitted db) now" for db now
proof
  show "\<exists>ids. qs_universe (store_queries (admitted db) now) = Inr ids \<and>
      set ids = set (map cu_id (customers (admitted db)))"
    by (simp add: store_queries_def SelectSegmentUniverse_def)
  show positive: "0 < i" if "i \<in> set (map cu_id (customers (admitted db)))" for i
    using that admitted_ok [of db] by (auto simp: seg_db_ok_def list_all_iff)
  show "\<exists>ids. leaf_query (store_queries (admitted db) now) op b = Inr ids \<and> (\<forall>i \<in> set ids. 0 < i) \<and>
      set ids \<inter> set (map cu_id (customers (admitted db))) =
        {i \<in> set (map cu_id (customers (admitted db))). leaf_holds (admitted db) now op b i}"
    if valid: "validLeafBind op b" for op b
  proof -
    obtain ids where "leaf_query (store_queries (admitted db) now) op b = Inr ids"
      "answers (admitted db) ids (leaf_holds (admitted db) now op b)"
      using leaf_query_answers [OF admitted_ok valid] by blast
    then show ?thesis using positive by (auto simp: answers_def)
  qed
qed

section \<open>Compiled definitions mean what they say\<close>

text \<open>The executor refuses a leaf whose instant is Go's zero time.\<close>

fun value_nonzero :: "instant \<Rightarrow> ast_value \<Rightarrow> bool" where
  "value_nonzero reference (TimestampValue t) = (t \<noteq> 0)"
| "value_nonzero reference (RelativeDaysValue d) = (reference \<noteq> d * day_nanos)"
| "value_nonzero reference _ = True"

fun times_nonzero :: "instant \<Rightarrow> ast_node \<Rightarrow> bool" where
  "times_nonzero reference (AndNode ns) = list_all (times_nonzero reference) ns"
| "times_nonzero reference (OrNode ns) = list_all (times_nonzero reference) ns"
| "times_nonzero reference (Predicate f p v) = value_nonzero reference v"

lemma row_holds_unique:
  "seg_db_ok db \<Longrightarrow> c \<in> set (customers db) \<Longrightarrow> row_holds db (cu_id c) P = P c"
  by (auto simp: row_holds_def seg_db_ok_def list_ex_iff distinct_map dest: inj_onD)

lemma integerOpcode_cases:
  assumes "integerOpcode f p = Some op"
  shows "(f, p, op) \<in> {(FieldHXCDaysRemaining, OperatorGTE, HXCDaysRemainingGTE),
    (FieldHXCDaysRemaining, OperatorLTE, HXCDaysRemainingLTE),
    (FieldHXCUserMessages7D, OperatorGTE, HXCUserMessages7DGTE),
    (FieldHXCUserMessages7D, OperatorLTE, HXCUserMessages7DLTE),
    (FieldHXCUserMessages30D, OperatorGTE, HXCUserMessages30DGTE),
    (FieldHXCUserMessages30D, OperatorLTE, HXCUserMessages30DLTE),
    (FieldStageID, OperatorEqual, StageEqual), (FieldOwnerStaffID, OperatorEqual, OwnerEqual),
    (FieldChannelID, OperatorEqual, ChannelEqual),
    (FieldLegacyAudiencePackageSourceID, OperatorEqual, LegacyAudiencePackageSnapshot)}"
  using assms by (cases "(f, p)" rule: integerOpcode.cases) auto

lemma listOpcode_cases:
  assumes "listOpcode f p = Some op"
  shows "(f, p, op) \<in> {(FieldStageID, OperatorIn, StageAny), (FieldOwnerStaffID, OperatorIn, OwnerAny),
    (FieldChannelID, OperatorIn, ChannelAny), (FieldTagID, OperatorHasAny, TagHasAny)}"
  using assms by (cases "(f, p)" rule: listOpcode.cases) auto

lemma timeOpcode_cases:
  assumes "timeOpcode f p = Some op"
  shows "(f, p, op) \<in> {(FieldAddedAt, OperatorBefore, AddedBefore), (FieldAddedAt, OperatorAfter, AddedAfter),
    (FieldLastInteractAt, OperatorBefore, LastInteractBefore),
    (FieldLastInteractAt, OperatorAfter, LastInteractAfter)}"
  using assms by (cases "(f, p)" rule: timeOpcode.cases) auto

lemma stringOpcode_cases:
  assumes "stringOpcode f p = Some op"
  shows "(f, p, op) \<in> {(FieldHXCSubscriptionTier, OperatorEqual, HXCSubscriptionTierEqual),
    (FieldHXCLastCapability, OperatorEqual, HXCLastCapabilityEqual),
    (FieldHXCBusinessStage, OperatorEqual, HXCBusinessStageEqual),
    (FieldHXCMainLineType, OperatorEqual, HXCMainLineTypeEqual),
    (FieldHXCUserSegment, OperatorEqual, HXCUserSegmentEqual),
    (FieldHXCPainTag, OperatorEqual, HXCPainTagEqual)}"
  using assms by (cases "(f, p)" rule: stringOpcode.cases) auto

lemmas opcode_cases = integerOpcode_cases listOpcode_cases timeOpcode_cases stringOpcode_cases

lemma predicate_compiled:
  assumes ok: "seg_db_ok db" and c: "c \<in> set (customers db)"
    and q: "compilePredicate reference f p v = Inr q"
  shows "qmeans (leaf_holds db now) q (cu_id c) = predicate_holds db now reference c f p v"
  using q
  by (cases v; auto simp: leaf_or_def row_holds_unique [OF ok c] hxcNumericField_def at_bound_def
        time_holds_def time_field_def no_bind_def
        split: if_splits option.splits dest!: opcode_cases)

lemma predicate_valid:
  assumes "compilePredicate reference f p v = Inr q" and "value_nonzero reference v"
  shows "qvalid q"
  using assms
  by (cases v; auto simp: leaf_or_def hxcNumericField_def validLeafBind_def only_integer_def
        only_integers_def only_timestamp_def only_boolean_def only_text_def only_texts_def no_bind_def
        split: if_splits option.splits dest!: opcode_cases)

lemma list_all_map_eq: "map f xs = map g ys \<Longrightarrow> list_all f xs = list_all g ys"
  by (metis list.pred_map comp_id id_def o_def list_all_iff)

lemma list_ex_map_eq: "map f xs = map g ys \<Longrightarrow> list_ex f xs = list_ex g ys"
proof -
  have "list_ex h zs = (True \<in> set (map h zs))" for h :: "'c \<Rightarrow> bool" and zs
    by (auto simp: list_ex_iff)
  moreover assume "map f xs = map g ys"
  ultimately show ?thesis by (metis list_ex_iff in_set_conv_nth length_map nth_map)
qed

lemma node_compiled:
  fixes now
  assumes ok: "seg_db_ok db" and c: "c \<in> set (customers db)"
  shows "compileNode n reference d u = (Inr q, u') \<Longrightarrow>
      qmeans (leaf_holds db now) q (cu_id c) = satisfies db now reference n c"
    and "compileChildren ns reference d u = (Inr qs, u') \<Longrightarrow>
      map (\<lambda>q. qmeans (leaf_holds db now) q (cu_id c)) qs = map (\<lambda>n. satisfies db now reference n c) ns"
    and "compile_each ns reference d u = (Inr qs, u') \<Longrightarrow>
      map (\<lambda>q. qmeans (leaf_holds db now) q (cu_id c)) qs = map (\<lambda>n. satisfies db now reference n c) ns"
proof (induction n reference d u and ns reference d u and ns reference d u
    arbitrary: q u' and qs u' and qs u' rule: compileNode_compileChildren_compile_each.induct)
  case (1 n reference depth used)
  show ?case
  proof (cases n)
    case (AndNode children)
    obtain qs where qs: "q = QIntersect qs" "depth \<le> MaxDepth" "used + 1 \<le> MaxNodes"
      "compileChildren children reference depth (used + 1) = (Inr qs, u')"
      using "1.prems" unfolding AndNode compileNode_Inr by blast
    have eq: "map (\<lambda>q. qmeans (leaf_holds db now) q (cu_id c)) qs = map (\<lambda>n. satisfies db now reference n c) children"
      by (rule "1.IH"(1) [OF _ _ AndNode qs(4)]) (use qs(2,3) in auto)
    show ?thesis using AndNode qs(1) list_all_map_eq [OF eq] by simp
  next
    case (OrNode children)
    obtain qs where qs: "q = QUnion qs" "depth \<le> MaxDepth" "used + 1 \<le> MaxNodes"
      "compileChildren children reference depth (used + 1) = (Inr qs, u')"
      using "1.prems" unfolding OrNode compileNode_Inr by blast
    have eq: "map (\<lambda>q. qmeans (leaf_holds db now) q (cu_id c)) qs = map (\<lambda>n. satisfies db now reference n c) children"
      by (rule "1.IH"(2) [OF _ _ OrNode qs(4)]) (use qs(2,3) in auto)
    show ?thesis using OrNode qs(1) list_ex_map_eq [OF eq] by simp
  next
    case (Predicate f p v)
    with 1 show ?thesis
      using predicate_compiled(1) [OF ok c, of reference f p v q now] by (auto simp: compileNode_Inr)
  qed
next
  case (2 children reference depth used)
  then show ?case by (auto split: if_splits)
next
  case (3 reference depth used)
  then show ?case by auto
next
  case (4 n ns reference depth used)
  then show ?case by (auto simp: compile_each_Inr simp del: compile_each.simps)
qed

lemma node_valid:
  shows "compileNode n reference d u = (Inr q, u') \<Longrightarrow> times_nonzero reference n \<Longrightarrow> qvalid q"
    and "compileChildren ns reference d u = (Inr qs, u') \<Longrightarrow> list_all (times_nonzero reference) ns \<Longrightarrow>
      qs \<noteq> [] \<and> list_all qvalid qs"
    and "compile_each ns reference d u = (Inr qs, u') \<Longrightarrow> list_all (times_nonzero reference) ns \<Longrightarrow>
      list_all qvalid qs \<and> length qs = length ns"
proof (induction n reference d u and ns reference d u and ns reference d u
    arbitrary: q u' and qs u' and qs u' rule: compileNode_compileChildren_compile_each.induct)
  case (1 n reference depth used)
  show ?case
  proof (cases n)
    case (Predicate f p v)
    with 1 show ?thesis
      using predicate_valid [of reference f p v q] by (auto simp: compileNode_Inr)
  next
    case (AndNode children)
    obtain qs where qs: "q = QIntersect qs" "depth \<le> MaxDepth" "used + 1 \<le> MaxNodes"
      "compileChildren children reference depth (used + 1) = (Inr qs, u')"
      using "1.prems"(1) unfolding AndNode compileNode_Inr by blast
    have "qs \<noteq> [] \<and> list_all qvalid qs"
      by (rule "1.IH"(1) [OF _ _ AndNode qs(4)]) (use qs(2,3) "1.prems"(2) AndNode in auto)
    then show ?thesis using qs(1) by simp
  next
    case (OrNode children)
    obtain qs where qs: "q = QUnion qs" "depth \<le> MaxDepth" "used + 1 \<le> MaxNodes"
      "compileChildren children reference depth (used + 1) = (Inr qs, u')"
      using "1.prems"(1) unfolding OrNode compileNode_Inr by blast
    have "qs \<noteq> [] \<and> list_all qvalid qs"
      by (rule "1.IH"(2) [OF _ _ OrNode qs(4)]) (use qs(2,3) "1.prems"(2) OrNode in auto)
    then show ?thesis using qs(1) by simp
  qed
next
  case (2 children reference depth used)
  then show ?case by (auto split: if_splits)
next
  case (3 reference depth used)
  then show ?case by auto
next
  case (4 n ns reference depth used)
  then show ?case by (auto simp: compile_each_Inr simp del: compile_each.simps)
qed

text \<open>Running a compiled definition on the tables selects the customers that satisfy it.\<close>

lemma compiled_selects:
  assumes ok: "seg_db_ok db" and compiled: "Compile (Some n) reference True = Inr q"
    and times: "times_nonzero reference n"
  shows "\<exists>ids. Execute (store_queries db now) None (Some q) = Inr ids \<and> ascending ids \<and>
    set ids = {cu_id c | c. c \<in> set (customers db) \<and> satisfies db now reference n c}"
proof -
  obtain u where node: "compileNode n reference 1 0 = (Inr q, u)"
    using compiled by (auto simp: Compile_def split: if_splits) (metis prod.collapse)
  have db: "admitted db = db" using ok by (simp add: admitted_def)
  obtain ids where ids: "Execute (store_queries db now) None (Some q) = Inr ids" "ascending ids"
    "set ids = {i \<in> set (map cu_id (customers db)). qmeans (leaf_holds db now) q i}"
    using seg.execute_selects [OF node_valid(1) [OF node times], of db now] db by auto
  have "set ids = {cu_id c | c. c \<in> set (customers db) \<and> satisfies db now reference n c}"
    using ids(3) node_compiled(1) [OF ok _ node, of _ now] by auto
  then show ?thesis using ids(1,2) by blast
qed

end
