(* ===== verification/SegmentFacts.thy ===== *)
theory SegmentFacts
  imports SegmentStore
begin

text \<open>
  What the parser guarantees: the decoder never runs out of fuel, every parsed definition is
  well formed within the limits of the language, its canonical JSON parses back to itself, and
  exactly the well-formed definitions without a list of legacy packages compile.
\<close>

section \<open>The decoder's fuel\<close>

definition decodes :: "json_token list \<Rightarrow> decode_error + raw \<times> json_token list \<Rightarrow> bool" where
  "decodes ts r \<longleftrightarrow>
     (case r of Inl e \<Rightarrow> e \<noteq> OutOfFuel | Inr (v, rest) \<Rightarrow> length rest < length ts)"

lemma decode_enough:
  shows "2 * length ts < n \<Longrightarrow> decodes ts (decode_raw n pointer ts)"
    and "2 * length ts < n \<Longrightarrow> decodes ts (decode_members n pointer object ts)"
    and "2 * length ts + 1 < n \<Longrightarrow> decodes ts (decode_items n pointer i items ts)"
proof (induction n pointer ts and n pointer object ts and n pointer i items ts
    rule: decode_raw_decode_members_decode_items.induct)
  case (3 n pointer c ts)
  then show ?case by (auto simp: decodes_def split: sum.splits prod.splits)
next
  case (10 n pointer object t ts)
  show ?case
  proof (cases t)
    case (TString key)
    show ?thesis
    proof (cases "key \<in> fst ` set object")
      case False
      have raw: "decodes ts (decode_raw n (appendPointer pointer key) ts)"
        using "10.IH"(1) [OF TString False] "10.prems" by simp
      show ?thesis
      proof (cases "decode_raw n (appendPointer pointer key) ts")
        case (Inr b)
        obtain v ts' where b: "b = (v, ts')" by fastforce
        have "length ts' < length ts" using raw Inr b by (simp add: decodes_def)
        then have "decodes ts' (decode_members n pointer (object @ [(key, v)]) ts')"
          using "10.IH"(2) [OF TString False Inr b [symmetric]] "10.prems" by simp
        then show ?thesis
          using TString False Inr b \<open>length ts' < length ts\<close>
          by (auto simp: decodes_def split: sum.splits prod.splits)
      qed (use raw TString False in \<open>simp add: decodes_def\<close>)
    qed (simp add: TString decodes_def)
  qed (simp_all add: decodes_def)
next
  case (13 n pointer i items t ts)
  show ?case
  proof (cases "case t of TDelim c \<Rightarrow> closing c | _ \<Rightarrow> False")
    case False
    let ?raw = "decode_raw n (appendPointer pointer (show_nat i)) (t # ts)"
    have raw: "decodes (t # ts) ?raw" using "13.IH"(1) [OF False] "13.prems" by simp
    show ?thesis
    proof (cases ?raw)
      case (Inr b)
      obtain v ts' where b: "b = (v, ts')" by fastforce
      have "length ts' < length (t # ts)" using raw Inr b by (simp add: decodes_def)
      then have "decodes ts' (decode_items n pointer (Suc i) (items @ [v]) ts')"
        using "13.IH"(2) [OF False Inr b [symmetric]] "13.prems" by simp
      then show ?thesis
        using False Inr b \<open>length ts' < length (t # ts)\<close>
        by (auto simp: decodes_def split: sum.splits prod.splits)
    qed (use raw False in \<open>simp add: decodes_def\<close>)
  qed (simp add: decodes_def)
qed (simp_all add: decodes_def)

section \<open>Well-formed definitions\<close>

definition list_ok :: "('a::linorder \<Rightarrow> bool) \<Rightarrow> 'a list \<Rightarrow> bool" where
  "list_ok P vs \<longleftrightarrow> vs \<noteq> [] \<and> length vs \<le> MaxListValues \<and> ascending vs \<and> list_all P vs"

definition positive_id :: "int \<Rightarrow> bool" where
  "positive_id v \<longleftrightarrow> 0 < v \<and> v \<le> max_int64"

definition text_ok :: "string \<Rightarrow> bool" where
  "text_ok s \<longleftrightarrow> s \<noteq> [] \<and> trim_space s = s \<and> length s \<le> MaxStringBytes"

fun value_ok :: "seg_field \<Rightarrow> operator \<Rightarrow> ast_value \<Rightarrow> bool" where
  "value_ok f p (IntValue v) =
     ((f \<in> id_fields \<and> p = OperatorEqual \<and> positive_id v) \<or> (f \<in> number_fields \<and> 0 \<le> v \<and> v \<le> max_int64))"
| "value_ok f p (IntListValue vs) =
     (((f \<in> id_fields \<and> p = OperatorIn) \<or> f = FieldTagID) \<and> list_ok positive_id vs)"
| "value_ok f p (TimestampValue t) = (f \<in> time_fields)"
| "value_ok f p (RelativeDaysValue d) = (f \<in> time_fields \<and> 1 \<le> d \<and> d \<le> 9999)"
| "value_ok f p (BoolValue b) = (f = FieldIsDeleted \<or> f = FieldHXCSubscriptionActive)"
| "value_ok f p (StringValue s) = (f \<in> text_fields \<and> text_ok s)"
| "value_ok f p (StringListValue vs) = (f = FieldHXCFocusTopic \<and> list_ok text_ok vs)"

fun wf_node :: "nat \<Rightarrow> ast_node \<Rightarrow> bool" where
  "wf_node d (AndNode ns) =
     (d \<le> MaxDepth \<and> ns \<noteq> [] \<and> length ns \<le> MaxGroupChildren \<and> list_all (wf_node (Suc d)) ns)"
| "wf_node d (OrNode ns) =
     (d \<le> MaxDepth \<and> ns \<noteq> [] \<and> length ns \<le> MaxGroupChildren \<and> list_all (wf_node (Suc d)) ns)"
| "wf_node d (Predicate f p v) = (d \<le> MaxDepth \<and> operator_allowed f p \<and> value_ok f p v)"

fun value_count :: "ast_value \<Rightarrow> nat" where
  "value_count (IntListValue vs) = length vs"
| "value_count (StringListValue vs) = length vs"
| "value_count _ = 0"

fun node_count :: "ast_node \<Rightarrow> nat" where
  "node_count (AndNode ns) = Suc (sum_list (map node_count ns))"
| "node_count (OrNode ns) = Suc (sum_list (map node_count ns))"
| "node_count (Predicate f p v) = 1"

fun list_count :: "ast_node \<Rightarrow> nat" where
  "list_count (AndNode ns) = sum_list (map list_count ns)"
| "list_count (OrNode ns) = sum_list (map list_count ns)"
| "list_count (Predicate f p v) = value_count v"

definition wf_definition :: "ast_node \<Rightarrow> bool" where
  "wf_definition n \<longleftrightarrow> wf_node 1 n \<and> node_count n \<le> MaxNodes \<and> list_count n \<le> MaxListValues"

section \<open>Parsed values\<close>

lemma parse_int64_range: "parse_int64 s = Some v \<Longrightarrow> v \<le> max_int64"
  by (auto simp: parse_int64_def Let_def split: if_splits option.splits)

lemma parsePositiveInt_Inr: "parsePositiveInt r pointer = Inr v \<Longrightarrow> positive_id v"
  by (auto simp: parsePositiveInt_def positive_id_def dest: parse_int64_range
      split: raw.splits if_splits option.splits)

lemma parseNonnegativeInt_Inr: "parseNonnegativeInt r pointer = Inr v \<Longrightarrow> 0 \<le> v \<and> v \<le> max_int64"
  by (auto simp: parseNonnegativeInt_def dest: parse_int64_range
      split: raw.splits if_splits option.splits)

lemma parseString_Inr: "parseString r pointer = Inr s \<Longrightarrow> text_ok s"
  by (auto simp: parseString_def text_ok_def exceedsStringLimit_def split: raw.splits if_splits)

lemma parse_elements_Inr:
  assumes "\<And>r q v. p r q = Inr v \<Longrightarrow> P v"
  shows "parse_elements p pointer i rs = Inr vs \<Longrightarrow> list_all P vs \<and> length vs = length rs"
proof (induction rs arbitrary: i vs)
  case (Cons r rs)
  then show ?case using assms by (auto split: sum.splits)
qed simp

lemma parse_list_Inr:
  assumes "\<And>r q v. p r q = Inr v \<Longrightarrow> P v" and "parse_list p r pointer b = (Inr vs, b')"
  shows "list_ok P vs \<and> b' = b\<lparr>pb_values := pb_values b + length vs\<rparr> \<and> pb_values b' \<le> MaxListValues"
proof -
  obtain items where items: "r = RArray items" "items \<noteq> []" "length items \<le> MaxListValues"
    "pb_values b + length items \<le> MaxListValues"
    "b' = b\<lparr>pb_values := pb_values b + length items\<rparr>"
    and els: "\<exists>ws. parse_elements p pointer 0 items = Inr ws \<and> vs = sort ws \<and> adjacent_distinct (sort ws)"
    using assms(2) by (auto simp: parse_list_def Let_def split: raw.splits if_splits sum.splits)
  have "list_all P ws \<and> length ws = length items" if "parse_elements p pointer 0 items = Inr ws" for ws
    using assms(1) that by (rule parse_elements_Inr)
  with els obtain ws where ws: "vs = sort ws" "adjacent_distinct (sort ws)" "list_all P ws" "length ws = length items"
    by blast
  then have "ascending vs" "list_all P vs"
    using adjacent_distinct_sorted [of "sort ws"] by (auto simp: list_all_iff)
  moreover have "vs \<noteq> []" using items(2) ws(1,4) by (metis length_0_conv length_sort)
  ultimately show ?thesis using items ws by (auto simp: list_ok_def)
qed

lemma parse_lists_Inr:
  "parse_list parsePositiveInt r pointer b = (Inr vs, b') \<Longrightarrow> list_ok positive_id vs \<and>
     b' = b\<lparr>pb_values := pb_values b + length vs\<rparr> \<and> pb_values b' \<le> MaxListValues"
  "parse_list parseString r pointer b = (Inr ss, b') \<Longrightarrow> list_ok text_ok ss \<and>
     b' = b\<lparr>pb_values := pb_values b + length ss\<rparr> \<and> pb_values b' \<le> MaxListValues"
  by (rule parse_list_Inr, erule parsePositiveInt_Inr parseString_Inr, assumption)+

lemma digits_value_bound: "digits_value acc s = Some n \<Longrightarrow> n < (acc + 1) * 10 ^ length s"
proof (induction acc s rule: digits_value.induct)
  case (2 acc c cs)
  then have "is_digit c" and n: "n < (10 * acc + (byte c - 48) + 1) * 10 ^ length cs"
    by (auto split: if_splits)
  then have "byte c - 48 \<le> 9" by (auto simp: is_digit_def in_range_def)
  then have "10 * acc + (byte c - 48) + 1 \<le> (acc + 1) * 10" by presburger
  then have "(10 * acc + (byte c - 48) + 1) * 10 ^ length cs \<le> (acc + 1) * 10 * 10 ^ length cs"
    by (rule mult_right_mono) simp
  with n have "n < (acc + 1) * 10 * 10 ^ length cs" by linarith
  then show ?case by (simp add: algebra_simps)
qed simp

lemma digits_value_mono: "digits_value acc s = Some n \<Longrightarrow> acc \<le> n"
  by (induction acc s rule: digits_value.induct) (auto split: if_splits)

lemma relative_days_range:
  assumes "relative_days s" and "digits_value 0 (butlast (tl s)) = Some n"
  shows "1 \<le> n \<and> n \<le> 9999"
proof -
  obtain m d rest where s: "s = m # d # rest" and d: "is_digit d" "d \<noteq> CHR ''0''" and rest: "rest \<noteq> []"
    "length (butlast rest) \<le> 3"
    using assms(1) by (auto simp: relative_days_def split: list.splits)
  then have "butlast (tl s) = d # butlast rest" by simp
  then have digits: "digits_value 0 (d # butlast rest) = Some n" using assms(2) by simp
  have "byte d \<noteq> 48"
  proof
    assume "byte d = 48"
    moreover have "char_of (byte d) = d" by (simp add: byte_def)
    moreover have "char_of (48::nat) = CHR ''0''" by code_simp
    ultimately have "d = CHR ''0''" by simp
    with d show False by simp
  qed
  then have "1 \<le> byte d - 48" using d(1) by (auto simp: is_digit_def in_range_def)
  moreover have "byte d - 48 \<le> n" using digits digits_value_mono by (auto split: if_splits)
  moreover have "n < 1 * 10 ^ length (d # butlast rest)" using digits_value_bound [OF digits] by simp
  moreover have "(10::nat) ^ length (d # butlast rest) \<le> 10 ^ 4"
    by (rule power_increasing) (use rest in auto)
  ultimately show ?thesis by simp
qed

lemma parseTimeValue_Inr:
  "parseTimeValue G r pointer = Inr v \<Longrightarrow> f \<in> time_fields \<Longrightarrow> value_ok f p v \<and> value_count v = 0"
  by (auto simp: parseTimeValue_def split: raw.splits if_splits option.splits prod.splits
      dest!: relative_days_range)

lemma field_sets:
  "f \<in> id_fields \<Longrightarrow> f \<noteq> FieldTagID \<and> f \<notin> time_fields \<and> f \<notin> number_fields \<and> f \<notin> text_fields"
  by (auto simp: id_fields_def time_fields_def number_fields_def text_fields_def)

lemma parseValue_Inr:
  assumes "parseValue G f p r pointer b = (Inr v, b')" and "operator_allowed f p"
  shows "value_ok f p v \<and> b' = b\<lparr>pb_values := pb_values b + value_count v\<rparr> \<and>
    (pb_values b \<le> MaxListValues \<longrightarrow> pb_values b' \<le> MaxListValues)"
  using assms field_sets [of f]
  by (auto simp: parseValue_def parsePositiveIntList_def parseStringList_def tx_iff map_value_def
      parse_bool_def operator_allowed_def
      split: if_splits sum.splits raw.splits
      dest: parsePositiveInt_Inr parseNonnegativeInt_Inr parseString_Inr parseTimeValue_Inr
      dest!: parse_lists_Inr)

section \<open>Parsed definitions\<close>

lemma parse_predicate_Inr:
  assumes "parse_predicate G object pointer b = (Inr n, b')"
  shows "\<exists>f p v. n = Predicate f p v \<and> operator_allowed f p \<and> value_ok f p v \<and>
    b' = b\<lparr>pb_values := pb_values b + value_count v\<rparr> \<and>
    (pb_values b \<le> MaxListValues \<longrightarrow> pb_values b' \<le> MaxListValues)"
proof -
  from assms obtain f p v pointer' r where n: "n = Predicate f p v" "operator_allowed f p"
    "parseValue G f p r pointer' b = (Inr v, b')"
    by (auto simp: parse_predicate_def tx_iff allowedOperator_def
        split: if_splits option.splits raw.splits)
  then show ?thesis using parseValue_Inr [OF n(3,2)] by blast
qed

declare parseNode.simps [simp del]

lemma parseNode_Inr:
  assumes "parseNode G r pointer d b = (Inr n, b')"
  obtains (group) g key ns where "d \<le> MaxDepth" and "pb_nodes b + 1 \<le> MaxNodes"
      and "r = RObject [(key, g)]" and "n = (if key = ''and'' then AndNode ns else OrNode ns)"
      and "key = ''and'' \<or> key = ''or''"
      and "parseGroup G g (appendPointer pointer key) d (b\<lparr>pb_nodes := pb_nodes b + 1\<rparr>) = (Inr ns, b')"
  | (predicate) object where "d \<le> MaxDepth" and "pb_nodes b + 1 \<le> MaxNodes" and "r = RObject object"
      and "parse_predicate G object pointer (b\<lparr>pb_nodes := pb_nodes b + 1\<rparr>) = (Inr n, b')"
proof -
  have single: "\<exists>k. object = [(k, g)]" if "map_of object key = Some g" "length object = 1" for object key g
    using that by (cases object) (auto split: if_splits)
  from assms have base: "d \<le> MaxDepth" "pb_nodes b + 1 \<le> MaxNodes"
    by (auto simp: parseNode.simps [of G r] not_less split: if_splits)
  obtain object where r: "r = RObject object"
    using assms base by (cases r) (auto simp: parseNode.simps)
  show thesis
  proof (cases "map_of object ''and''")
    case (Some g)
    then obtain ns where "length object = 1" and
      "parseGroup G g (appendPointer pointer ''and'') d (b\<lparr>pb_nodes := pb_nodes b + 1\<rparr>) = (Inr ns, b')"
      "n = AndNode ns"
      using assms base r by (auto simp: parseNode.simps split: if_splits prod.splits sum.splits)
    then show thesis
      using group [of "''and''" g ns] base r Some single [OF Some] by (cases object) (auto split: if_splits)
  next
    case None
    show thesis
    proof (cases "map_of object ''or''")
      case (Some g)
      then obtain ns where "length object = 1" and
        "parseGroup G g (appendPointer pointer ''or'') d (b\<lparr>pb_nodes := pb_nodes b + 1\<rparr>) = (Inr ns, b')"
        "n = OrNode ns"
        using assms base r None by (auto simp: parseNode.simps split: if_splits prod.splits sum.splits)
      then show thesis
        using group [of "''or''" g ns] base r Some single [OF Some] by (cases object) (auto split: if_splits)
    next
      case no_or: None
      then show thesis
        using assms base r None predicate by (auto simp: parseNode.simps)
    qed
  qed
qed

lemma parse_sound:
  shows "parseNode G r pointer d b = (Inr n, b') \<Longrightarrow> wf_node d n \<and>
      pb_nodes b' = pb_nodes b + node_count n \<and> pb_values b' = pb_values b + list_count n \<and>
      pb_nodes b' \<le> MaxNodes \<and> (pb_values b \<le> MaxListValues \<longrightarrow> pb_values b' \<le> MaxListValues)"
    and "parseGroup G r pointer d b = (Inr ns, b') \<Longrightarrow> pb_nodes b \<le> MaxNodes \<Longrightarrow>
      ns \<noteq> [] \<and> length ns \<le> MaxGroupChildren \<and> list_all (wf_node (Suc d)) ns \<and>
      pb_nodes b' = pb_nodes b + sum_list (map node_count ns) \<and>
      pb_values b' = pb_values b + sum_list (map list_count ns) \<and>
      pb_nodes b' \<le> MaxNodes \<and> (pb_values b \<le> MaxListValues \<longrightarrow> pb_values b' \<le> MaxListValues)"
    and "parse_children G rs pointer d i b = (Inr ns, b') \<Longrightarrow> pb_nodes b \<le> MaxNodes \<Longrightarrow>
      length ns = length rs \<and> list_all (wf_node (Suc d)) ns \<and>
      pb_nodes b' = pb_nodes b + sum_list (map node_count ns) \<and>
      pb_values b' = pb_values b + sum_list (map list_count ns) \<and>
      pb_nodes b' \<le> MaxNodes \<and> (pb_values b \<le> MaxListValues \<longrightarrow> pb_values b' \<le> MaxListValues)"
proof (induction G r pointer d b and G r pointer d b and G rs pointer d i b
    arbitrary: n b' and ns b' and ns b' rule: parseNode_parseGroup_parse_children.induct)
  case (1 G r pointer depth b)
  show ?case using "1.prems"
  proof (cases rule: parseNode_Inr)
    case (predicate object)
    then show ?thesis by (auto dest!: parse_predicate_Inr)
  next
    case (group g key ns)
    have "ns \<noteq> [] \<and> length ns \<le> MaxGroupChildren \<and> list_all (wf_node (Suc depth)) ns \<and>
      pb_nodes b' = pb_nodes b + 1 + sum_list (map node_count ns) \<and>
      pb_values b' = pb_values b + sum_list (map list_count ns) \<and>
      pb_nodes b' \<le> MaxNodes \<and> (pb_values b \<le> MaxListValues \<longrightarrow> pb_values b' \<le> MaxListValues)"
    proof (cases "key = ''and''")
      case True
      show ?thesis
        using "1.IH"(2) [of "[(key, g)]" g ns b'] group True by auto
    next
      case False
      then show ?thesis
        using "1.IH"(1) [of "[(key, g)]" g ns b'] group by auto
    qed
    then show ?thesis using group(1,4) by auto
  qed
next
  case (4 G pointer depth i b)
  then show ?case by auto
next
  case (5 G r rs pointer depth i b)
  obtain n b1 ns' where head: "parseNode G r (appendPointer pointer (show_nat i)) (depth + 1) b = (Inr n, b1)"
    and tail: "parse_children G rs pointer depth (Suc i) b1 = (Inr ns', b')" and ns: "ns = n # ns'"
    using "5.prems"(1) by (auto split: prod.splits sum.splits)
  note first = "5.IH"(1) [OF head]
  have b1: "pb_nodes b1 \<le> MaxNodes" using first by blast
  note rest = "5.IH"(2) [OF head [symmetric] refl tail b1]
  show ?case unfolding ns using first rest by auto
next
  case (2 G items pointer depth b)
  have items: "items \<noteq> []" "\<not> MaxGroupChildren < length items"
    and children: "parse_children G items pointer depth 0 b = (Inr ns, b')"
    using "2.prems"(1) by (auto split: if_splits)
  from "2.IH" [OF items children "2.prems"(2)] items show ?case by auto
qed auto

lemma Parse_wf:
  assumes "Parse G scan input = Inr n"
  shows "wf_definition n"
proof -
  obtain r b where "parseNode G r [] 1 \<lparr>pb_nodes = 0, pb_values = 0\<rparr> = (Inr n, b)"
    using assms by (auto simp: Parse_def split: if_splits sum.splits prod.splits) (metis prod.collapse)
  from parse_sound(1) [OF this] show ?thesis by (simp add: wf_definition_def)
qed

section \<open>Well-formed definitions compile\<close>

text \<open>The parser admits the operator \<^verbatim>\<open>in\<close> on legacy packages; the compiler has no opcode for it.\<close>

fun no_legacy_list :: "ast_node \<Rightarrow> bool" where
  "no_legacy_list (AndNode ns) = list_all no_legacy_list ns"
| "no_legacy_list (OrNode ns) = list_all no_legacy_list ns"
| "no_legacy_list (Predicate f p v) =
     (\<not> (f = FieldLegacyAudiencePackageSourceID \<and> p = OperatorIn))"

lemma canonical_lists:
  "list_ok positive_id vs \<Longrightarrow> canonicalPositiveList vs"
  "list_ok text_ok ss \<Longrightarrow> canonicalStringList ss"
  by (auto simp: list_ok_def canonicalPositiveList_def canonicalStringList_def allUniquePositive_def
      adjacent_distinct_sorted ascending_sorted positive_id_def text_ok_def list_all_iff)

lemma wf_predicate_compiles:
  assumes "operator_allowed f p" and "value_ok f p v"
    and "\<not> (f = FieldLegacyAudiencePackageSourceID \<and> p = OperatorIn)"
  shows "\<exists>q. compilePredicate reference f p v = Inr q"
  using assms
  by (cases v) (auto simp: leaf_or_def canonical_lists operator_allowed_def id_fields_def
      number_fields_def time_fields_def text_fields_def positive_id_def hxcNumericField_def text_ok_def)

lemma wf_compiles:
  shows "wf_node d n \<Longrightarrow> no_legacy_list n \<Longrightarrow> u + node_count n \<le> MaxNodes \<Longrightarrow>
      \<exists>q. compileNode n reference d u = (Inr q, u + node_count n)"
    and "list_all (wf_node (Suc d)) ns \<Longrightarrow> list_all no_legacy_list ns \<Longrightarrow>
      u + sum_list (map node_count ns) \<le> MaxNodes \<Longrightarrow> ns \<noteq> [] \<Longrightarrow> length ns \<le> MaxGroupChildren \<Longrightarrow>
      \<exists>qs. compileChildren ns reference d u = (Inr qs, u + sum_list (map node_count ns))"
    and "list_all (wf_node (Suc d)) ns \<Longrightarrow> list_all no_legacy_list ns \<Longrightarrow>
      u + sum_list (map node_count ns) \<le> MaxNodes \<Longrightarrow>
      \<exists>qs. compile_each ns reference d u = (Inr qs, u + sum_list (map node_count ns))"
proof (induction n reference d u and ns reference d u and ns reference d u
    rule: compileNode_compileChildren_compile_each.induct)
  case (1 n reference depth used)
  show ?case
  proof (cases n)
    case (AndNode ns)
    then have "\<exists>qs. compileChildren ns reference depth (used + 1) = (Inr qs, used + 1 + sum_list (map node_count ns))"
      using 1 by (intro "1.IH"(1)) auto
    then show ?thesis using AndNode 1 compileNode_Inr(1) by fastforce
  next
    case (OrNode ns)
    then have "\<exists>qs. compileChildren ns reference depth (used + 1) = (Inr qs, used + 1 + sum_list (map node_count ns))"
      using 1 by (intro "1.IH"(2)) auto
    then show ?thesis using OrNode 1 compileNode_Inr(2) by fastforce
  next
    case (Predicate f p v)
    then show ?thesis
      using 1 wf_predicate_compiles [of f p v reference] by (auto simp: compileNode_Inr)
  qed
next
  case (2 children reference depth used)
  then show ?case by (simp add: not_less)
next
  case (3 reference depth used)
  then show ?case by simp
next
  case (4 n ns reference depth used)
  obtain q where q: "compileNode n reference (depth + 1) used = (Inr q, used + node_count n)"
    using 4 by auto
  then obtain qs where "compile_each ns reference depth (used + node_count n) =
      (Inr qs, used + node_count n + sum_list (map node_count ns))"
    using "4.IH"(2) [OF q [symmetric] refl] "4.prems" by auto
  then show ?case using q by (simp add: add.assoc)
qed

text \<open>A well-formed definition with such a list does not compile.\<close>

lemma compiled_no_legacy:
  shows "compileNode n reference d u = (Inr q, u') \<Longrightarrow> wf_node d n \<Longrightarrow> no_legacy_list n"
    and "compileChildren ns reference d u = (Inr qs, u') \<Longrightarrow> list_all (wf_node (Suc d)) ns \<Longrightarrow>
      list_all no_legacy_list ns"
    and "compile_each ns reference d u = (Inr qs, u') \<Longrightarrow> list_all (wf_node (Suc d)) ns \<Longrightarrow>
      list_all no_legacy_list ns"
proof (induction n reference d u and ns reference d u and ns reference d u
    arbitrary: q u' and qs u' and qs u' rule: compileNode_compileChildren_compile_each.induct)
  case (1 n reference depth used)
  show ?case
  proof (cases n)
    case (Predicate f p v)
    show ?thesis
    proof (rule ccontr)
      assume "\<not> no_legacy_list n"
      then have legacy: "f = FieldLegacyAudiencePackageSourceID" "p = OperatorIn"
        using Predicate by auto
      then obtain vs where "v = IntListValue vs"
        using "1.prems"(2) Predicate
        by (cases v) (auto simp: id_fields_def number_fields_def time_fields_def text_fields_def)
      then show False
        using "1.prems"(1) Predicate legacy
        by (auto simp: compileNode_Inr leaf_or_def split: if_splits)
    qed
  next
    case (AndNode ns)
    obtain qs where qs: "depth \<le> MaxDepth" "used + 1 \<le> MaxNodes"
      "compileChildren ns reference depth (used + 1) = (Inr qs, u')"
      using "1.prems"(1) unfolding AndNode compileNode_Inr by blast
    have "list_all no_legacy_list ns"
      by (rule "1.IH"(1) [OF _ _ AndNode qs(3)]) (use qs(1,2) "1.prems"(2) AndNode in auto)
    then show ?thesis using AndNode by simp
  next
    case (OrNode ns)
    obtain qs where qs: "depth \<le> MaxDepth" "used + 1 \<le> MaxNodes"
      "compileChildren ns reference depth (used + 1) = (Inr qs, u')"
      using "1.prems"(1) unfolding OrNode compileNode_Inr by blast
    have "list_all no_legacy_list ns"
      by (rule "1.IH"(2) [OF _ _ OrNode qs(3)]) (use qs(1,2) "1.prems"(2) OrNode in auto)
    then show ?thesis using OrNode by simp
  qed
next
  case (2 children reference depth used)
  then show ?case by (auto split: if_splits)
next
  case (3 reference depth used)
  then show ?case by simp
next
  case (4 n ns reference depth used)
  then show ?case by (auto simp: compile_each_Inr simp del: compile_each.simps)
qed

lemma Compile_iff:
  assumes "wf_definition n" and "reference \<noteq> 0"
  shows "(\<exists>q. Compile (Some n) reference True = Inr q) \<longleftrightarrow> no_legacy_list n"
proof
  assume "\<exists>q. Compile (Some n) reference True = Inr q"
  then obtain q u where "compileNode n reference 1 0 = (Inr q, u)"
    using assms(2) by (auto simp: Compile_def) (metis prod.collapse)
  then show "no_legacy_list n" using compiled_no_legacy(1) assms(1) by (auto simp: wf_definition_def)
next
  assume "no_legacy_list n"
  then obtain q where "compileNode n reference 1 0 = (Inr q, 0 + node_count n)"
    using wf_compiles(1) [of 1 n 0] assms(1) by (auto simp: wf_definition_def)
  then show "\<exists>q. Compile (Some n) reference True = Inr q"
    using assms(2) by (simp add: Compile_def)
qed

end
