(* ===== verification/SegmentCanonical.thy ===== *)
theory SegmentCanonical
  imports SegmentFacts
begin

text \<open>
  The canonical JSON of a definition parses back to the definition, with the same use of the
  parser's budgets.
\<close>

section \<open>Numbers and relative days\<close>

lemma hd_show_nat_nonzero: "0 < n \<Longrightarrow> byte (hd (show_nat n)) \<noteq> 48"
proof (induction n rule: show_nat.induct)
  case (1 n)
  show ?case
  proof (cases "n < 10")
    case False
    then have "byte (hd (show_nat (n div 10))) \<noteq> 48" using 1 by simp
    then show ?thesis using False by (subst show_nat.simps) simp
  qed (use 1 in \<open>subst show_nat.simps; simp\<close>)
qed

lemma plain_show_int: "0 \<le> v \<Longrightarrow> plain_number (show_int v)"
proof -
  assume v: "0 \<le> v"
  have "\<not> is_digit (CHR ''.'')" "\<not> is_digit (CHR ''e'')" "\<not> is_digit (CHR ''E'')" by code_simp+
  then show ?thesis
    using show_nat_digits [of _ "nat v"] v by (auto simp: plain_number_def show_int_def)
qed

lemma parse_show_nonnegative:
  "0 \<le> v \<Longrightarrow> v \<le> max_int64 \<Longrightarrow> parse_int64 (show_int v) = Some v"
  by (rule parse_show_int) (simp_all add: max_int64_def)

lemma parsePositiveInt_show: "positive_id v \<Longrightarrow> parsePositiveInt (RNumber (show_int v)) pointer = Inr v"
  by (simp add: positive_id_def parsePositiveInt_def plain_show_int parse_show_nonnegative)

lemma parseNonnegativeInt_show:
  "0 \<le> v \<Longrightarrow> v \<le> max_int64 \<Longrightarrow> parseNonnegativeInt (RNumber (show_int v)) pointer = Inr v"
  by (simp add: parseNonnegativeInt_def plain_show_int parse_show_nonnegative)

lemma parseString_show: "text_ok s \<Longrightarrow> parseString (RString s) pointer = Inr s"
  by (simp add: text_ok_def parseString_def exceedsStringLimit_def)

lemma relative_days_show:
  assumes "1 \<le> d" and "d \<le> 9999"
  shows "relative_days (''-'' @ show_int d @ ''d'')"
    and "digits_value 0 (butlast (tl (''-'' @ show_int d @ ''d''))) = Some (nat d)"
    and "length (''-'' @ show_int d @ ''d'') \<le> MaxStringBytes"
proof -
  let ?s = "show_nat (nat d)"
  have s: "show_int d = ?s" using assms by (simp add: show_int_def)
  obtain c cs where c: "?s = c # cs" by (cases ?s) auto
  have len: "length ?s \<le> 4" by (rule length_show_nat) (use assms in auto)
  have digits: "list_all is_digit ?s" using show_nat_digits by (auto simp: list_all_iff)
  have "byte c \<noteq> 48" using hd_show_nat_nonzero [of "nat d"] assms c by simp
  moreover have "byte (CHR ''0'') = 48" by (simp add: byte_def)
  ultimately have "c \<noteq> CHR ''0''" by auto
  then show "relative_days (''-'' @ show_int d @ ''d'')"
    using c len digits by (simp add: s relative_days_def butlast_append)
  show "digits_value 0 (butlast (tl (''-'' @ show_int d @ ''d''))) = Some (nat d)"
    by (simp add: s butlast_append)
  show "length (''-'' @ show_int d @ ''d'') \<le> MaxStringBytes"
    using len by (simp add: s MaxStringBytes_def)
qed

section \<open>Values\<close>

lemma parse_elements_show:
  assumes "\<And>v q. v \<in> set vs \<Longrightarrow> p (enc v) q = Inr v"
  shows "parse_elements p pointer i (map enc vs) = Inr vs"
  using assms by (induction vs arbitrary: i) auto

lemma parse_list_show:
  assumes "\<And>v q. P v \<Longrightarrow> p (enc v) q = Inr v" and ok: "list_ok P vs"
    and "pb_values b + length vs \<le> MaxListValues"
  shows "parse_list p (RArray (map enc vs)) pointer b =
    (Inr vs, b\<lparr>pb_values := pb_values b + length vs\<rparr>)"
proof -
  have "parse_elements p pointer 0 (map enc vs) = Inr vs"
    using assms(1) ok by (intro parse_elements_show) (auto simp: list_ok_def list_all_iff)
  moreover have "sort vs = vs" "adjacent_distinct vs"
    using ok by (simp_all add: list_ok_def ascending_sorted sorted_sort_id adjacent_distinct_sorted)
  ultimately show ?thesis
    using ok assms(3) by (auto simp: parse_list_def list_ok_def Let_def)
qed

text \<open>A timestamp renders to a text that reads as the same instant in UTC.\<close>

definition renders :: "go_time \<Rightarrow> instant \<Rightarrow> bool" where
  "renders G t \<longleftrightarrow> gt_parse G (gt_format G t) = Some (t, 0) \<and>
     length (gt_format G t) \<le> MaxStringBytes \<and> \<not> relative_days (gt_format G t)"

fun value_renders :: "go_time \<Rightarrow> ast_value \<Rightarrow> bool" where
  "value_renders G (TimestampValue t) = renders G t"
| "value_renders G _ = True"

fun times_render :: "go_time \<Rightarrow> ast_node \<Rightarrow> bool" where
  "times_render G (AndNode ns) = list_all (times_render G) ns"
| "times_render G (OrNode ns) = list_all (times_render G) ns"
| "times_render G (Predicate f p v) = value_renders G v"

lemma parseTimeValue_show:
  "1 \<le> d \<Longrightarrow> d \<le> 9999 \<Longrightarrow>
     parseTimeValue G (RString (''-'' @ show_int d @ ''d'')) pointer = Inr (RelativeDaysValue d)"
  "renders G t \<Longrightarrow> parseTimeValue G (RString (gt_format G t)) pointer = Inr (TimestampValue t)"
proof -
  show "1 \<le> d \<Longrightarrow> d \<le> 9999 \<Longrightarrow>
      parseTimeValue G (RString (''-'' @ show_int d @ ''d'')) pointer = Inr (RelativeDaysValue d)"
    using relative_days_show [of d]
    by (simp add: parseTimeValue_def exceedsStringLimit_def not_less [symmetric] del: append.simps)
qed (simp add: parseTimeValue_def renders_def exceedsStringLimit_def)

lemma parseValue_show:
  assumes "operator_allowed f p" and "value_ok f p v" and "value_renders G v"
    and "pb_values b + value_count v \<le> MaxListValues"
  shows "parseValue G f p (ast_canonicalValue G v) pointer b =
    (Inr v, b\<lparr>pb_values := pb_values b + value_count v\<rparr>)"
proof (cases v)
  case (IntListValue vs)
  then show ?thesis
    using assms field_sets [of f] parse_list_show [where P = positive_id and p = parsePositiveInt
        and enc = "\<lambda>v. RNumber (show_int v)", OF parsePositiveInt_show]
    by (auto simp: parseValue_def parsePositiveIntList_def)
next
  case (StringListValue vs)
  then show ?thesis
    using assms parse_list_show [where P = text_ok and p = parseString and enc = RString, OF parseString_show]
    by (auto simp: parseValue_def parseStringList_def id_fields_def time_fields_def number_fields_def text_fields_def)
qed (use assms in \<open>auto simp: parseValue_def map_value_def parse_bool_def parsePositiveInt_show
        parseNonnegativeInt_show parseString_show parseTimeValue_show [simplified] operator_allowed_def
        id_fields_def time_fields_def number_fields_def text_fields_def\<close>)

section \<open>Nodes\<close>

lemma allowed_field: "operator_allowed f p \<Longrightarrow> \<not> (\<exists>s. f = OtherField s)"
  by (auto simp: operator_allowed_def id_fields_def time_fields_def number_fields_def text_fields_def)

lemma allowed_operator_closed: "operator_allowed f p \<Longrightarrow> \<not> (\<exists>s. p = OtherOperator s)"
  by (auto simp: operator_allowed_def split: if_splits)

lemma field_text_limit: "\<not> (\<exists>s. f = OtherField s) \<Longrightarrow> \<not> exceedsStringLimit (field_text f)"
  by (cases f) (auto simp: exceedsStringLimit_def MaxStringBytes_def field_names_def)

lemma operator_text_limit: "\<not> (\<exists>s. p = OtherOperator s) \<Longrightarrow> \<not> exceedsStringLimit (operator_text p)"
  by (cases p) (auto simp: exceedsStringLimit_def MaxStringBytes_def operator_names_def)

lemma knownField_text: "\<not> (\<exists>s. f = OtherField s) \<Longrightarrow> knownField (field_text f) = Some f"
  using to_field_text [of f] by (cases f) (simp_all add: knownField_def)

lemma canonicalValue_not_null: "ast_canonicalValue G v \<noteq> RNull"
  by (cases v) auto

lemma parse_predicate_show:
  assumes "operator_allowed f p" and "value_ok f p v" and "value_renders G v"
    and "pb_values b + value_count v \<le> MaxListValues"
  shows "parse_predicate G [(''field'', RString (field_text f)), (''op'', RString (operator_text p)),
      (''value'', ast_canonicalValue G v)] pointer b =
    (Inr (Predicate f p v), b\<lparr>pb_values := pb_values b + value_count v\<rparr>)"
proof -
  have f: "\<not> (\<exists>s. f = OtherField s)" and p: "\<not> (\<exists>s. p = OtherOperator s)"
    using allowed_field allowed_operator_closed assms(1) by blast+
  have "to_operator (operator_text p) = p" using to_operator_text p by blast
  then have "allowedOperator f (operator_text p) = Some p"
    using assms(1) by (simp add: allowedOperator_def)
  then show ?thesis
    using field_text_limit [OF f] operator_text_limit [OF p] knownField_text [OF f]
      parseValue_show [OF assms] canonicalValue_not_null [of G v]
    by (simp add: parse_predicate_def present_def hasOnlyKeys_def)
qed

definition spend :: "parse_budget \<Rightarrow> nat \<Rightarrow> nat \<Rightarrow> parse_budget" where
  "spend b i j = b\<lparr>pb_nodes := pb_nodes b + i, pb_values := pb_values b + j\<rparr>"

lemma spend_spend [simp]: "spend (spend b i j) k l = spend b (i + k) (j + l)"
  by (simp add: spend_def)

lemma spend_sel [simp]: "pb_nodes (spend b i j) = pb_nodes b + i" "pb_values (spend b i j) = pb_values b + j"
  by (simp_all add: spend_def)

lemma parse_children_show:
  assumes "\<And>n pointer b. n \<in> set ns \<Longrightarrow> pb_nodes b + node_count n \<le> MaxNodes \<Longrightarrow>
      pb_values b + list_count n \<le> MaxListValues \<Longrightarrow>
      parseNode G (ast_canonicalNode G n) pointer (d + 1) b = (Inr n, spend b (node_count n) (list_count n))"
  shows "pb_nodes b + sum_list (map node_count ns) \<le> MaxNodes \<Longrightarrow>
    pb_values b + sum_list (map list_count ns) \<le> MaxListValues \<Longrightarrow>
    parse_children G (map (ast_canonicalNode G) ns) pointer d i b =
      (Inr ns, spend b (sum_list (map node_count ns)) (sum_list (map list_count ns)))"
  using assms
proof (induction ns arbitrary: i b)
  case Nil
  then show ?case by (simp add: spend_def)
next
  case (Cons n ns)
  have "parseNode G (ast_canonicalNode G n) (appendPointer pointer (show_nat i)) (d + 1) b =
      (Inr n, spend b (node_count n) (list_count n))"
    using Cons.prems by (intro Cons.prems(3)) auto
  moreover have "parse_children G (map (ast_canonicalNode G) ns) pointer d (Suc i) (spend b (node_count n) (list_count n)) =
      (Inr ns, spend (spend b (node_count n) (list_count n)) (sum_list (map node_count ns)) (sum_list (map list_count ns)))"
    using Cons.prems by (intro Cons.IH) auto
  ultimately show ?case by simp
qed

lemma parse_show:
  "wf_node d n \<Longrightarrow> times_render G n \<Longrightarrow> pb_nodes b + node_count n \<le> MaxNodes \<Longrightarrow>
     pb_values b + list_count n \<le> MaxListValues \<Longrightarrow>
     parseNode G (ast_canonicalNode G n) pointer d b = (Inr n, spend b (node_count n) (list_count n))"
proof (induction n arbitrary: pointer d b)
  case (AndNode ns)
  have "parse_children G (map (ast_canonicalNode G) ns) (appendPointer pointer ''and'') d 0 (spend b 1 0) =
      (Inr ns, spend (spend b 1 0) (sum_list (map node_count ns)) (sum_list (map list_count ns)))"
    using AndNode.prems by (intro parse_children_show AndNode.IH) (auto simp: list_all_iff)
  then show ?case
    using AndNode.prems by (simp add: parseNode.simps spend_def)
next
  case (OrNode ns)
  have "parse_children G (map (ast_canonicalNode G) ns) (appendPointer pointer ''or'') d 0 (spend b 1 0) =
      (Inr ns, spend (spend b 1 0) (sum_list (map node_count ns)) (sum_list (map list_count ns)))"
    using OrNode.prems by (intro parse_children_show OrNode.IH) (auto simp: list_all_iff)
  then show ?case
    using OrNode.prems by (simp add: parseNode.simps spend_def)
next
  case (Predicate f p v)
  then show ?case
    using parse_predicate_show [of f p v G "b\<lparr>pb_nodes := pb_nodes b + 1\<rparr>" pointer]
    by (simp add: parseNode.simps spend_def)
qed

end
