(* ===== verification/SegmentCron.thy ===== *)
theory SegmentCron
  imports GoText
begin

text \<open>
  The refresh schedules of segments (\<^verbatim>\<open>internal/segment/app/cron.go\<close>): a closed five-field
  numeric cron grammar and its canonical spelling, and the proof that the canonical spelling
  is a fixed point that denotes the same minutes, hours and days.
\<close>

datatype cron_error = ErrInvalidRefreshSchedule

datatype refresh_mode = RefreshModeManual | RefreshModeScheduled | OtherRefreshMode string

record cronTerm =
  ct_start :: int
  ct_end :: int
  ct_step :: int
  ct_has_step :: bool

definition parseCronNumber :: "string \<Rightarrow> int \<Rightarrow> int \<Rightarrow> cron_error + int" where
  "parseCronNumber raw lo hi =
     (if raw = [] then Inl ErrInvalidRefreshSchedule
      else (case digits_value 0 raw of
              None \<Rightarrow> Inl ErrInvalidRefreshSchedule
            | Some n \<Rightarrow>
                if int n < lo \<or> hi < int n then Inl ErrInvalidRefreshSchedule else Inr (int n)))"

text \<open>The flag says that the base is a range or a star, which a step needs.\<close>

definition parseCronBase :: "string \<Rightarrow> int \<Rightarrow> int \<Rightarrow> cron_error + cronTerm \<times> bool" where
  "parseCronBase raw lo hi =
     (if raw = ''*'' then Inr (\<lparr>ct_start = lo, ct_end = hi, ct_step = 1, ct_has_step = False\<rparr>, True)
      else (case split_on (CHR ''-'') raw of
        [a] \<Rightarrow>
          (case parseCronNumber a lo hi of
             Inl e \<Rightarrow> Inl e
           | Inr v \<Rightarrow> Inr (\<lparr>ct_start = v, ct_end = v, ct_step = 1, ct_has_step = False\<rparr>, False))
      | [a, b] \<Rightarrow>
          (if a = [] \<or> b = [] then Inl ErrInvalidRefreshSchedule
           else (case parseCronNumber a lo hi of
             Inl e \<Rightarrow> Inl e
           | Inr s \<Rightarrow>
               (case parseCronNumber b lo hi of
                  Inl e \<Rightarrow> Inl ErrInvalidRefreshSchedule
                | Inr t \<Rightarrow>
                    if t < s then Inl ErrInvalidRefreshSchedule
                    else Inr (\<lparr>ct_start = s, ct_end = t, ct_step = 1, ct_has_step = False\<rparr>, True))))
      | _ \<Rightarrow> Inl ErrInvalidRefreshSchedule))"

definition parseCronTerm :: "string \<Rightarrow> int \<Rightarrow> int \<Rightarrow> cron_error + cronTerm" where
  "parseCronTerm raw lo hi =
     (let parts = split_on (CHR ''/'') raw in
      if 2 < length parts \<or> raw = [] \<or> hd parts = [] then Inl ErrInvalidRefreshSchedule
      else (case parseCronBase (hd parts) lo hi of
        Inl e \<Rightarrow> Inl e
      | Inr (term, ranged) \<Rightarrow>
          if length parts = 1 then Inr term
          else if \<not> ranged \<or> parts ! 1 = [] then Inl ErrInvalidRefreshSchedule
          else (case parseCronNumber (parts ! 1) 1 (ct_end term - ct_start term + 1) of
            Inl e \<Rightarrow> Inl e
          | Inr k \<Rightarrow> Inr (term\<lparr>ct_step := k, ct_has_step := True\<rparr>))))"

definition cronTerm_String :: "cronTerm \<Rightarrow> int \<Rightarrow> int \<Rightarrow> string" where
  "cronTerm_String t lo hi =
     (let base = (if ct_start t = lo \<and> ct_end t = hi then ''*''
                  else if ct_start t \<noteq> ct_end t then show_int (ct_start t) @ ''-'' @ show_int (ct_end t)
                  else show_int (ct_start t))
      in if ct_has_step t \<and> ct_step t \<noteq> 1 then base @ ''/'' @ show_int (ct_step t) else base)"

text \<open>The loop \<^verbatim>\<open>for value := start; value <= end; value += step\<close>.\<close>

function range_by :: "int \<Rightarrow> int \<Rightarrow> int \<Rightarrow> int list" where
  "range_by s e k = (if e < s \<or> k \<le> 0 then [] else s # range_by (s + k) e k)"
  by pat_completeness auto
termination by (relation "measure (\<lambda>(s, e, k). nat (e + 1 - s))") auto

declare range_by.simps [simp del]

definition term_values :: "cronTerm \<Rightarrow> int list" where
  "term_values t = range_by (ct_start t) (ct_end t) (ct_step t)"

fun cron_terms :: "string list \<Rightarrow> int \<Rightarrow> int \<Rightarrow> int list \<Rightarrow> cron_error + string list" where
  "cron_terms [] lo hi seen = Inr []"
| "cron_terms (raw # raws) lo hi seen =
     (case parseCronTerm raw lo hi of
        Inl e \<Rightarrow> Inl e
      | Inr t \<Rightarrow>
          if list_ex (\<lambda>v. v \<in> set seen) (term_values t) then Inl ErrInvalidRefreshSchedule
          else (case cron_terms raws lo hi (seen @ term_values t) of
            Inl e \<Rightarrow> Inl e | Inr texts \<Rightarrow> Inr (cronTerm_String t lo hi # texts)))"

definition canonicalCronField :: "string \<Rightarrow> int \<Rightarrow> int \<Rightarrow> cron_error + string" where
  "canonicalCronField raw lo hi =
     (if raw = [] then Inl ErrInvalidRefreshSchedule
      else (case cron_terms (split_on (CHR '','') raw) lo hi [] of
        Inl e \<Rightarrow> Inl e | Inr texts \<Rightarrow> Inr (join_with '','' texts)))"

definition cron_ranges :: "(int \<times> int) list" where
  "cron_ranges = [(0, 59), (0, 23), (1, 31), (1, 12), (0, 6)]"

fun cron_fields :: "string list \<Rightarrow> (int \<times> int) list \<Rightarrow> cron_error + string list" where
  "cron_fields (raw # raws) ((lo, hi) # ranges) =
     (case canonicalCronField raw lo hi of
        Inl e \<Rightarrow> Inl e
      | Inr text \<Rightarrow> (case cron_fields raws ranges of Inl e \<Rightarrow> Inl e | Inr texts \<Rightarrow> Inr (text # texts)))"
| "cron_fields _ _ = Inr []"

definition canonicalCron :: "string \<Rightarrow> cron_error + string" where
  "canonicalCron raw =
     (if length (split_fields raw) \<noteq> 5 then Inl ErrInvalidRefreshSchedule
      else (case cron_fields (split_fields raw) cron_ranges of
        Inl e \<Rightarrow> Inl e
      | Inr texts \<Rightarrow>
          if texts ! 2 \<noteq> ''*'' \<and> texts ! 4 \<noteq> ''*'' then Inl ErrInvalidRefreshSchedule
          else Inr (join_with '' '' texts)))"

definition CanonicalRefreshCron :: "refresh_mode \<Rightarrow> string option \<Rightarrow> cron_error + string option" where
  "CanonicalRefreshCron mode cron =
     (case mode of
        RefreshModeManual \<Rightarrow> if cron \<noteq> None then Inl ErrInvalidRefreshSchedule else Inr None
      | RefreshModeScheduled \<Rightarrow>
          (case cron of
             None \<Rightarrow> Inl ErrInvalidRefreshSchedule
           | Some raw \<Rightarrow>
               (case canonicalCron raw of
                  Inl e \<Rightarrow> Inl ErrInvalidRefreshSchedule
                | Inr text \<Rightarrow> Inr (Some text)))
      | OtherRefreshMode _ \<Rightarrow> Inl ErrInvalidRefreshSchedule)"

section \<open>What a schedule denotes\<close>

fun terms_values :: "string list \<Rightarrow> int \<Rightarrow> int \<Rightarrow> cron_error + int list" where
  "terms_values [] lo hi = Inr []"
| "terms_values (raw # raws) lo hi =
     (case parseCronTerm raw lo hi of
        Inl e \<Rightarrow> Inl e
      | Inr t \<Rightarrow> (case terms_values raws lo hi of Inl e \<Rightarrow> Inl e | Inr vs \<Rightarrow> Inr (term_values t @ vs)))"

definition field_values :: "string \<Rightarrow> int \<Rightarrow> int \<Rightarrow> cron_error + int list" where
  "field_values raw lo hi = terms_values (split_on (CHR '','') raw) lo hi"

definition schedule_values :: "string \<Rightarrow> (cron_error + int list) list" where
  "schedule_values raw = map2 (\<lambda>f (lo, hi). field_values f lo hi) (split_fields raw) cron_ranges"

section \<open>Terms parse back\<close>

lemma not_digits: "\<not> is_digit (CHR ''-'')" "\<not> is_digit (CHR ''/'')" "\<not> is_digit (CHR '','')" "\<not> is_digit (CHR ''*'')"
  by code_simp+

lemma no_seps:
  "0 \<le> v \<Longrightarrow> CHR ''-'' \<notin> set (show_int v)" "0 \<le> v \<Longrightarrow> CHR ''/'' \<notin> set (show_int v)"
  "0 \<le> v \<Longrightarrow> CHR '','' \<notin> set (show_int v)" "0 \<le> v \<Longrightarrow> show_int v \<noteq> ''*''"
  using show_int_digits not_digits by (blast, blast, blast, force)

lemma parseCronNumber_show:
  "0 \<le> lo \<Longrightarrow> lo \<le> v \<Longrightarrow> v \<le> hi \<Longrightarrow> parseCronNumber (show_int v) lo hi = Inr v"
  by (simp add: parseCronNumber_def show_int_def)

lemma parseCronNumber_Inr: "parseCronNumber raw lo hi = Inr v \<Longrightarrow> lo \<le> v \<and> v \<le> hi"
  by (auto simp: parseCronNumber_def split: if_splits option.splits)

definition term_ok :: "cronTerm \<Rightarrow> int \<Rightarrow> int \<Rightarrow> bool" where
  "term_ok t lo hi \<longleftrightarrow>
     lo \<le> ct_start t \<and> ct_start t \<le> ct_end t \<and> ct_end t \<le> hi \<and>
     1 \<le> ct_step t \<and> ct_step t \<le> ct_end t - ct_start t + 1 \<and> (\<not> ct_has_step t \<longrightarrow> ct_step t = 1)"

lemma parseCronBase_ok:
  "parseCronBase raw lo hi = Inr (t, ranged) \<Longrightarrow> lo < hi \<Longrightarrow> term_ok t lo hi \<and> \<not> ct_has_step t"
  by (auto simp: parseCronBase_def term_ok_def dest!: parseCronNumber_Inr
      split: if_splits list.splits sum.splits)

lemma parseCronTerm_ok:
  "parseCronTerm raw lo hi = Inr t \<Longrightarrow> lo < hi \<Longrightarrow> term_ok t lo hi"
  by (auto simp: parseCronTerm_def Let_def term_ok_def dest!: parseCronNumber_Inr parseCronBase_ok
      split: if_splits sum.splits prod.splits)

definition base_text :: "cronTerm \<Rightarrow> int \<Rightarrow> int \<Rightarrow> string" where
  "base_text t lo hi =
     (if ct_start t = lo \<and> ct_end t = hi then ''*''
      else if ct_start t \<noteq> ct_end t then show_int (ct_start t) @ ''-'' @ show_int (ct_end t)
      else show_int (ct_start t))"

lemma base_text_chars:
  assumes "term_ok t lo hi" and "0 \<le> lo"
  shows "CHR ''/'' \<notin> set (base_text t lo hi)" and "CHR '','' \<notin> set (base_text t lo hi)"
    and "base_text t lo hi \<noteq> []"
  using assms by (auto simp: base_text_def term_ok_def no_seps show_int_not_Nil)

lemma parse_base_text:
  assumes ok: "term_ok t lo hi" and lo: "0 \<le> lo" "lo < hi"
  shows "parseCronBase (base_text t lo hi) lo hi =
    Inr (t\<lparr>ct_step := 1, ct_has_step := False\<rparr>, ct_start t \<noteq> ct_end t)"
proof -
  let ?s = "show_int (ct_start t)" and ?e = "show_int (ct_end t)"
  have range: "0 \<le> ct_start t" "0 \<le> ct_end t" "lo \<le> ct_start t" "ct_start t \<le> ct_end t" "ct_end t \<le> hi"
    using ok lo by (auto simp: term_ok_def)
  have one: "split_on (CHR ''-'') ?s = [?s]" by (rule split_on_no_sep [OF no_seps(1) [OF range(1)]])
  have two: "split_on (CHR ''-'') (?s @ CHR ''-'' # ?e) = [?s, ?e]"
    using split_on_append [OF no_seps(1) [OF range(1)]] split_on_no_sep [OF no_seps(1) [OF range(2)]] by simp
  have star: "?s @ CHR ''-'' # ?e \<noteq> ''*''"
    by (cases ?s) (auto simp: show_int_not_Nil)
  show ?thesis
    using range lo one two star
    by (auto simp: base_text_def parseCronBase_def no_seps(4) parseCronNumber_show show_int_not_Nil)
qed

lemma cronTerm_String_base:
  "cronTerm_String t lo hi =
     base_text t lo hi @ (if ct_has_step t \<and> ct_step t \<noteq> 1 then ''/'' @ show_int (ct_step t) else [])"
  by (simp add: cronTerm_String_def base_text_def Let_def)

text \<open>A term's text parses to the same range and step.\<close>

lemma parse_cronTerm_String:
  assumes ok: "term_ok t lo hi" and lo: "0 \<le> lo" "lo < hi"
  shows "\<exists>t'. parseCronTerm (cronTerm_String t lo hi) lo hi = Inr t' \<and>
    term_values t' = term_values t \<and> cronTerm_String t' lo hi = cronTerm_String t lo hi"
proof (cases "ct_has_step t \<and> ct_step t \<noteq> 1")
  case True
  let ?b = "base_text t lo hi" and ?k = "show_int (ct_step t)"
  have k: "0 \<le> ct_step t" "1 \<le> ct_step t" "ct_step t \<le> ct_end t - ct_start t + 1" "ct_start t \<noteq> ct_end t"
    using ok True by (auto simp: term_ok_def)
  have shown: "cronTerm_String t lo hi = ?b @ CHR ''/'' # ?k"
    using True by (simp add: cronTerm_String_base)
  have parts: "split_on (CHR ''/'') (?b @ CHR ''/'' # ?k) = [?b, ?k]"
    using split_on_append [OF base_text_chars(1) [OF ok lo(1)]] split_on_no_sep [OF no_seps(2) [OF k(1)]] by simp
  have "parseCronTerm (cronTerm_String t lo hi) lo hi = Inr (t\<lparr>ct_has_step := True\<rparr>)"
    using parse_base_text [OF ok lo] base_text_chars(3) [OF ok lo(1)] k parseCronNumber_show [of 1 "ct_step t"]
    by (simp add: parseCronTerm_def shown parts show_int_not_Nil)
  moreover have "t\<lparr>ct_has_step := True\<rparr> = t" using True by simp
  ultimately show ?thesis by auto
next
  case False
  have shown: "cronTerm_String t lo hi = base_text t lo hi"
    using False by (auto simp: cronTerm_String_base)
  have "parseCronTerm (base_text t lo hi) lo hi = Inr (t\<lparr>ct_step := 1, ct_has_step := False\<rparr>)"
    using parse_base_text [OF ok lo] base_text_chars [OF ok lo(1)] split_on_no_sep
    by (simp add: parseCronTerm_def)
  moreover have "ct_step t = 1" using False ok by (auto simp: term_ok_def)
  ultimately show ?thesis
    by (auto simp: shown term_values_def cronTerm_String_base base_text_def)
qed

lemma term_text_no_comma:
  assumes "term_ok t lo hi" and "0 \<le> lo"
  shows "CHR '','' \<notin> set (cronTerm_String t lo hi)" and "cronTerm_String t lo hi \<noteq> []"
  using assms base_text_chars [OF assms] no_seps(3) [of "ct_step t"]
  by (auto simp: cronTerm_String_base term_ok_def)

section \<open>Fields and lines parse back\<close>

lemma cron_terms_canonical:
  assumes "cron_terms raws lo hi seen = Inr texts" and lo: "0 \<le> lo" "lo < hi"
  shows "cron_terms texts lo hi seen = Inr texts \<and> terms_values texts lo hi = terms_values raws lo hi \<and>
    (\<forall>w \<in> set texts. CHR '','' \<notin> set w \<and> w \<noteq> []) \<and> length texts = length raws"
  using assms(1)
proof (induction raws arbitrary: seen texts)
  case (Cons raw raws)
  obtain t rest where t: "parseCronTerm raw lo hi = Inr t"
    and fresh: "\<not> list_ex (\<lambda>v. v \<in> set seen) (term_values t)"
    and rest: "cron_terms raws lo hi (seen @ term_values t) = Inr rest"
    and texts: "texts = cronTerm_String t lo hi # rest"
    using Cons.prems by (auto split: sum.splits if_splits)
  have ok: "term_ok t lo hi" using parseCronTerm_ok t lo(2) by blast
  obtain t' where t': "parseCronTerm (cronTerm_String t lo hi) lo hi = Inr t'"
    "term_values t' = term_values t" "cronTerm_String t' lo hi = cronTerm_String t lo hi"
    using parse_cronTerm_String [OF ok lo] by blast
  show ?case
    using Cons.IH [OF rest] t fresh t' term_text_no_comma [OF ok lo(1)] by (auto simp: texts cong: sum.case_cong)
qed simp

lemma canonicalCronField_canonical:
  assumes "canonicalCronField raw lo hi = Inr s" and lo: "0 \<le> lo" "lo < hi"
  shows "canonicalCronField s lo hi = Inr s \<and> field_values s lo hi = field_values raw lo hi \<and> s \<noteq> []"
proof -
  obtain texts where texts: "cron_terms (split_on (CHR '','') raw) lo hi [] = Inr texts"
    "s = join_with '','' texts"
    using assms(1) by (auto simp: canonicalCronField_def split: if_splits sum.splits)
  note canonical = cron_terms_canonical [OF texts(1) lo]
  have "texts \<noteq> []" using canonical by (metis length_0_conv split_on_not_Nil)
  then have split: "split_on (CHR '','') s = texts"
    using canonical split_join by (simp add: texts(2))
  have "s \<noteq> []" using split \<open>texts \<noteq> []\<close> canonical by auto
  then show ?thesis
    using canonical split texts by (simp add: canonicalCronField_def field_values_def)
qed

section \<open>Lines of plain fields\<close>

definition cron_char :: "char \<Rightarrow> bool" where
  "cron_char c \<longleftrightarrow> is_digit c \<or> c \<in> set ''*-/,''"

lemma cron_char_plain: "cron_char c \<Longrightarrow> byte c < 128 \<and> \<not> is_space [c]"
  by (auto simp: cron_char_def is_digit_def in_range_def is_space_def byte_def)

lemma space_rune: "is_space '' ''" "byte (CHR '' '') < 128"
  by code_simp+

lemma fields_of_word:
  "\<forall>c \<in> set w. cron_char c \<Longrightarrow> fields_of (map (\<lambda>c. [c]) w @ rs) acc = fields_of rs (acc @ w)"
  by (induction w arbitrary: acc) (auto simp: cron_char_plain)

lemma fields_of_join:
  "\<forall>w \<in> set ws. w \<noteq> [] \<and> (\<forall>c \<in> set w. cron_char c) \<Longrightarrow>
     fields_of (map (\<lambda>c. [c]) (join_with '' '' ws)) [] = ws"
proof (induction "'' ''" ws rule: join_with.induct)
  case (2 x)
  then show ?case using fields_of_word [of x "[]" "[]"] by simp
next
  case (3 x y zs)
  have "fields_of (map (\<lambda>c. [c]) (x @ '' '' @ join_with '' '' (y # zs))) [] =
      fields_of ([CHR '' ''] # map (\<lambda>c. [c]) (join_with '' '' (y # zs))) x"
    using "3.prems" fields_of_word [of x "[CHR '' ''] # map (\<lambda>c. [c]) (join_with '' '' (y # zs))" "[]"] by simp
  then show ?case using 3 space_rune by simp
qed simp

lemma join_ascii:
  "\<forall>w \<in> set ws. \<forall>c \<in> set w. cron_char c \<Longrightarrow> \<forall>c \<in> set (join_with '' '' ws). byte c < 128"
  by (induction "'' ''" ws rule: join_with.induct) (auto simp: cron_char_plain space_rune)

lemma split_fields_join:
  "\<forall>w \<in> set ws. w \<noteq> [] \<and> (\<forall>c \<in> set w. cron_char c) \<Longrightarrow> split_fields (join_with '' '' ws) = ws"
  using runes_ascii [of "join_with '' '' ws"] join_ascii [of ws] fields_of_join [of ws]
  by (simp add: split_fields_def)

lemma term_text_chars:
  assumes "term_ok t lo hi" and "0 \<le> lo" and "c \<in> set (cronTerm_String t lo hi)"
  shows "cron_char c"
proof -
  have "c \<in> set (show_int (ct_start t)) \<or> c \<in> set (show_int (ct_end t)) \<or>
      c \<in> set (show_int (ct_step t)) \<or> c \<in> set ''*-/,''"
    using assms(3) by (auto simp: cronTerm_String_base base_text_def split: if_splits)
  moreover have "0 \<le> ct_start t" "0 \<le> ct_end t" "0 \<le> ct_step t"
    using assms(1,2) by (auto simp: term_ok_def)
  ultimately show ?thesis unfolding cron_char_def using show_int_digits by blast
qed

lemma cron_terms_chars:
  "cron_terms raws lo hi seen = Inr texts \<Longrightarrow> 0 \<le> lo \<Longrightarrow> lo < hi \<Longrightarrow>
     \<forall>w \<in> set texts. \<forall>c \<in> set w. cron_char c"
proof (induction raws arbitrary: seen texts)
  case (Cons raw raws)
  then show ?case
    using parseCronTerm_ok term_text_chars by (auto split: sum.splits if_splits) blast+
qed simp

lemma join_chars:
  "\<forall>w \<in> set ws. \<forall>c \<in> set w. cron_char c \<Longrightarrow> c \<in> set (join_with '','' ws) \<Longrightarrow> cron_char c"
  by (induction "'',''" ws rule: join_with.induct) (auto simp: cron_char_def)

lemma canonicalCronField_chars:
  "canonicalCronField raw lo hi = Inr s \<Longrightarrow> 0 \<le> lo \<Longrightarrow> lo < hi \<Longrightarrow> c \<in> set s \<Longrightarrow> cron_char c"
proof -
  assume s: "canonicalCronField raw lo hi = Inr s" and lo: "0 \<le> lo" "lo < hi" and c: "c \<in> set s"
  obtain texts where texts: "cron_terms (split_on (CHR '','') raw) lo hi [] = Inr texts"
    "s = join_with '','' texts"
    using s by (auto simp: canonicalCronField_def split: if_splits sum.splits)
  show "cron_char c"
    using join_chars [OF cron_terms_chars [OF texts(1) lo]] c by (simp add: texts(2))
qed

lemma cron_fields_canonical:
  "cron_fields raws ranges = Inr texts \<Longrightarrow> length raws = length ranges \<Longrightarrow>
     \<forall>(lo, hi) \<in> set ranges. 0 \<le> lo \<and> lo < hi \<Longrightarrow>
     cron_fields texts ranges = Inr texts \<and> length texts = length raws \<and>
     map2 (\<lambda>f (lo, hi). field_values f lo hi) texts ranges = map2 (\<lambda>f (lo, hi). field_values f lo hi) raws ranges \<and>
     (\<forall>w \<in> set texts. w \<noteq> [] \<and> (\<forall>c \<in> set w. cron_char c))"
proof (induction raws ranges arbitrary: texts rule: cron_fields.induct)
  case (1 raw raws lo hi ranges)
  obtain s rest where s: "canonicalCronField raw lo hi = Inr s"
    and rest: "cron_fields raws ranges = Inr rest" and texts: "texts = s # rest"
    using "1.prems"(1) by (auto split: sum.splits)
  have lo: "0 \<le> lo" "lo < hi" using "1.prems"(3) by auto
  have IH: "cron_fields rest ranges = Inr rest \<and> length rest = length raws \<and>
     map2 (\<lambda>f (lo, hi). field_values f lo hi) rest ranges = map2 (\<lambda>f (lo, hi). field_values f lo hi) raws ranges \<and>
     (\<forall>w \<in> set rest. w \<noteq> [] \<and> (\<forall>c \<in> set w. cron_char c))"
    using "1.IH" [OF s rest] "1.prems" by simp
  show ?case
    using IH canonicalCronField_canonical [OF s lo] canonicalCronField_chars [OF s lo] by (simp add: texts)
qed auto

lemma canonicalCron_canonical:
  assumes "canonicalCron raw = Inr s"
  shows "canonicalCron s = Inr s \<and> schedule_values s = schedule_values raw"
proof -
  obtain texts where len: "length (split_fields raw) = 5"
    and texts: "cron_fields (split_fields raw) cron_ranges = Inr texts"
    and days: "\<not> (texts ! 2 \<noteq> ''*'' \<and> texts ! 4 \<noteq> ''*'')" and s: "s = join_with '' '' texts"
    using assms by (auto simp: canonicalCron_def split: if_splits sum.splits)
  have "length (split_fields raw) = length cron_ranges" using len by (simp add: cron_ranges_def)
  moreover have "\<forall>(lo, hi) \<in> set cron_ranges. 0 \<le> lo \<and> lo < hi" by (simp add: cron_ranges_def)
  ultimately have canonical: "cron_fields texts cron_ranges = Inr texts" "length texts = 5"
     "map2 (\<lambda>f (lo, hi). field_values f lo hi) texts cron_ranges =
        map2 (\<lambda>f (lo, hi). field_values f lo hi) (split_fields raw) cron_ranges"
     "\<forall>w \<in> set texts. w \<noteq> [] \<and> (\<forall>c \<in> set w. cron_char c)"
    using cron_fields_canonical [OF texts] len by auto
  have "split_fields s = texts" using split_fields_join canonical(4) by (simp add: s)
  then show ?thesis
    using canonical days s by (auto simp: canonicalCron_def schedule_values_def)
qed

end
