(* ===== verification/SegmentProperties.thy ===== *)
theory SegmentProperties
  imports SegmentCanonical SegmentCron
begin

text \<open>
  The properties of segment definitions: what the parser accepts, what the compiled program
  selects from the tables, the set algebra of the executor, and the refresh schedules.
\<close>

section \<open>A sample\<close>

definition customer0 :: "int \<Rightarrow> int option \<Rightarrow> customer_row" where
  "customer0 i stage = \<lparr>cu_id = i, cu_stage = stage, cu_owner = None, cu_channel = None,
     cu_added = Some (2000 * i), cu_interact = None, cu_deleted = False\<rparr>"

definition seg0 :: seg_db where
  "seg0 = \<lparr>customers = [customer0 3 (Some 7), customer0 1 (Some 7), customer0 2 None],
     customer_tags = [(1, 5), (2, 5)], hxc_users = [], v1_packages = [], v1_members = []\<rparr>"

definition stage_and_tag :: ast_node where
  "stage_and_tag = AndNode [Predicate FieldStageID OperatorEqual (IntValue 7),
     Predicate FieldTagID OperatorHasAny (IntListValue [5, 6])]"

definition G0 :: go_time where
  "G0 = \<lparr>gt_parse = (\<lambda>_. None), gt_format = (\<lambda>_. [])\<rparr>"

text \<open>The tokens of \<^verbatim>\<open>{"field":"stage_id","op":"eq","value":7}\<close>.\<close>

definition tokens0 :: "json_token list" where
  "tokens0 = [TDelim (CHR ''{''), TString ''field'', TString ''stage_id'', TString ''op'', TString ''eq'',
     TString ''value'', TNumber ''7'', TDelim (CHR ''}'')]"

lemma stage_is_7: "Parse G0 (\<lambda>_. (tokens0, True)) ''x'' = Inr (Predicate FieldStageID OperatorEqual (IntValue 7))"
proof -
  let ?object = "[(''field'', RString ''stage_id''), (''op'', RString ''eq''), (''value'', RNumber ''7'')]"
  have raw: "decode_raw (Suc (2 * length tokens0)) [] tokens0 = Inr (RObject ?object, [])"
    by (simp add: tokens0_def closing_def eval_nat_numeral)
  have seven: "parse_int64 ''7'' = Some 7" by code_simp
  have vseven: "parsePositiveInt (RNumber ''7'') pointer = Inr 7" for pointer
    by (simp add: parsePositiveInt_def plain_number_def seven)
  have known: "knownField ''stage_id'' = Some FieldStageID"
    "allowedOperator FieldStageID ''eq'' = Some OperatorEqual" by code_simp+
  have node: "fst (parseNode G0 (RObject ?object) [] 1 \<lparr>pb_nodes = 0, pb_values = 0\<rparr>)
      = Inr (Predicate FieldStageID OperatorEqual (IntValue 7))"
    by (simp add: parseNode.simps parse_predicate_def MaxDepth_def MaxNodes_def present_def hasOnlyKeys_def
        exceedsStringLimit_def MaxStringBytes_def known parseValue_def id_fields_def vseven map_value_def
        liftE_def and_then_def ret_def)
  have utf8: "valid_utf8 ''x''" by code_simp
  show ?thesis
    by (simp add: Parse_def MaxDefinitionBytes_def utf8 raw node del: One_nat_def)
qed

section \<open>Selecting customers\<close>

text \<open>
  C5. Executing a compiled definition on the tables returns, in ascending order and without
  repetition, exactly the customers that satisfy the definition.
\<close>

theorem segment_selects_satisfying_customers:
  assumes "seg_db_ok db" and "Compile (Some n) reference True = Inr q" and "times_nonzero reference n"
  shows "\<exists>ids. Execute (store_queries db now) None (Some q) = Inr ids \<and> ascending ids \<and>
    set ids = {cu_id c | c. c \<in> set (customers db) \<and> satisfies db now reference n c}"
  using assms by (rule compiled_selects)

theorem segment_selects_satisfying_customers_witness:
  "\<exists>q ids. Compile (Some stage_and_tag) 1 True = Inr q \<and>
    Execute (store_queries seg0 0) None (Some q) = Inr ids \<and> set ids = {1}"
proof -
  have ok: "seg_db_ok seg0" by code_simp
  have wf: "wf_definition stage_and_tag" "no_legacy_list stage_and_tag" by code_simp+
  obtain q where q: "Compile (Some stage_and_tag) 1 True = Inr q"
    using Compile_iff [OF wf(1), of 1] wf(2) by auto
  have "times_nonzero 1 stage_and_tag" by code_simp
  from segment_selects_satisfying_customers [OF ok q this, of 0]
  obtain ids where "Execute (store_queries seg0 0) None (Some q) = Inr ids"
    "set ids = {cu_id c | c. c \<in> set (customers seg0) \<and> satisfies seg0 0 1 stage_and_tag c}" by blast
  moreover have "{cu_id c | c. c \<in> set (customers seg0) \<and> satisfies seg0 0 1 stage_and_tag c} = {1}"
  proof -
    have "satisfies seg0 0 1 stage_and_tag c \<longleftrightarrow> cu_id c = 1" if "c \<in> set (customers seg0)" for c
      using that by (auto simp: seg0_def customer0_def stage_and_tag_def tagged_def hxcNumericField_def)
    moreover have "\<exists>c \<in> set (customers seg0). cu_id c = 1" by (simp add: seg0_def customer0_def)
    ultimately show ?thesis by auto
  qed
  ultimately show ?thesis using q by auto
qed

text \<open>
  A parsed definition is well formed: at most eight levels, 128 nodes and 1000 list values,
  groups of 1 to 64 children, operators that fit their fields, and canonical values.
\<close>

theorem parsed_definition_is_well_formed:
  assumes "Parse G scan input = Inr n"
  shows "wf_definition n"
  using assms by (rule Parse_wf)

theorem parsed_definition_is_well_formed_witness:
  "wf_definition (Predicate FieldStageID OperatorEqual (IntValue 7))"
  by (rule parsed_definition_is_well_formed [OF stage_is_7])

text \<open>
  C21. A parsed definition compiles at every reference instant in UTC, except one that asks for
  a list of legacy audience packages: the parser admits the operator \<^verbatim>\<open>in\<close> on that field, the
  compiler has no opcode for it.
\<close>

theorem parsed_definition_compiles_iff:
  assumes "Parse G scan input = Inr n" and "reference \<noteq> 0"
  shows "(\<exists>q. Compile (Some n) reference True = Inr q) \<longleftrightarrow> no_legacy_list n"
  using Compile_iff [OF Parse_wf [OF assms(1)] assms(2)] .

theorem parsed_definition_compiles_iff_witness:
  "\<exists>q. Compile (Some (Predicate FieldStageID OperatorEqual (IntValue 7))) 1 True = Inr q"
  using parsed_definition_compiles_iff [OF stage_is_7, of 1] by simp



text \<open>
  Decoding terminates: with the fuel that \<open>Parse\<close> supplies, reading any token stream
  ends with a value or an error of the decoder, never by running out of fuel.
\<close>

theorem decoding_never_runs_out_of_fuel:
  "decode_raw (Suc (2 * length ts)) pointer ts \<noteq> Inl OutOfFuel"
  using decode_enough(1) [of ts "Suc (2 * length ts)" pointer] by (auto simp: decodes_def)

section \<open>Set algebra\<close>

text \<open>
  The executor's merges on ascending identifier lists are intersection, union and
  difference of the sets they list.
\<close>

theorem merges_are_set_operations:
  assumes "ascending xs" and "ascending ys"
  shows "intersectIDs xs ys = sorted_list_of_set (set xs \<inter> set ys) \<and>
    unionIDs xs ys = sorted_list_of_set (set xs \<union> set ys) \<and>
    differenceIDs xs ys = sorted_list_of_set (set xs - set ys)"
  using ascending_eq_sorted_list_of_set [OF ascending_intersectIDs [OF assms]]
    ascending_eq_sorted_list_of_set [OF ascending_unionIDs [OF assms]]
    ascending_eq_sorted_list_of_set [OF ascending_differenceIDs [OF assms]]
  by (simp add: set_intersectIDs set_unionIDs set_differenceIDs assms)

theorem merges_are_set_operations_witness:
  "intersectIDs [1, 4, 8] [4, 5] = sorted_list_of_set ({1, 4, 8} \<inter> {4, 5})"
  using merges_are_set_operations [of "[1, 4, 8]" "[4, 5]"] by simp

text \<open>
  Normalising the identifiers of a query refuses any that is not positive and otherwise
  returns the ascending list of the distinct identifiers.
\<close>

theorem normalize_ids_spec:
  "normalizeIDs ids =
     (if list_all (\<lambda>i. 0 < i) ids then Inr (sorted_list_of_set (set ids)) else Inl (ExecDetail unsafe))"
proof (cases "list_all (\<lambda>i. 0 < i) ids")
  case True
  then have "normalizeIDs ids = Inr (sorted_list_of_set (set ids))"
    using normalizeIDs_Inr [of ids "sorted_list_of_set (set ids)"] by (simp add: list_all_iff)
  with True show ?thesis by simp
next
  case False
  then have "list_ex (\<lambda>i. i \<le> 0) ids" by (auto simp: list_all_iff list_ex_iff not_less)
  with False show ?thesis by (simp add: normalizeIDs_def)
qed



section \<open>Refresh schedules\<close>

text \<open>
  The canonical spelling of a schedule is its own canonical spelling and lists, field by
  field, the same minutes, hours, days, months and weekdays.
\<close>

theorem canonical_cron_is_stable:
  assumes "canonicalCron raw = Inr s"
  shows "canonicalCron s = Inr s \<and> schedule_values s = schedule_values raw"
  using assms by (rule canonicalCron_canonical)

theorem canonical_cron_is_stable_witness:
  "canonicalCron ''*/15 8-20 * * 1-5'' = Inr ''*/15 8-20 * * 1-5''"
proof -
  have "canonicalCron ''0-59/15  8-20 1-31 * 1-5/1'' = Inr ''*/15 8-20 * * 1-5''" by code_simp
  then show ?thesis using canonical_cron_is_stable by blast
qed

end
