(* ===== verification/CampaignTypes.thy ===== *)
theory CampaignTypes
  imports GoText
begin

text \<open>
  The data of cloud campaigns (\<^verbatim>\<open>internal/campaign/types.go\<close>, \<^verbatim>\<open>errors.go\<close> and the
  validity tests of \<^verbatim>\<open>service.go\<close>): campaigns with their approval and runtime status, steps,
  local plans and commands, commands of the service, receipts and responses.

  A status is a string type in Go; \<open>OtherApproval\<close> and \<open>OtherRuntime\<close> stand for every text
  outside the closed lists. Versions are 64-bit: \<open>inc64\<close> is the increment with its
  wrap-around. \<open>campaign_env\<close> carries the two standard functions whose results are only
  stored and compared: SHA-256 and the JSON quoting of a string.
\<close>

section \<open>Errors\<close>

datatype camp_error =
    CErrInvalidArgument | CErrNotFound | CErrConflict | CErrStateConflict
  | CErrIdempotencyConflict | CErrUnavailable
  | CErrValidation string string
  | CErrHistoricalConflict
  | CErrDependency

text \<open>
  \<open>CErrDependency\<close> is any error of the database driver; the service maps it, like every
  error outside its own list, to \<open>CErrUnavailable\<close>.
\<close>

fun classify :: "camp_error \<Rightarrow> camp_error" where
  "classify CErrDependency = CErrUnavailable"
| "classify CErrHistoricalConflict = CErrUnavailable"
| "classify e = e"

section \<open>Campaigns\<close>

definition MaximumCampaignCodeBytes :: nat where "MaximumCampaignCodeBytes = 96"
definition MaximumCampaignNameRunes :: nat where "MaximumCampaignNameRunes = 160"
definition MaximumStepContentRunes :: nat where "MaximumStepContentRunes = 4000"
definition MaximumSteps :: nat where "MaximumSteps = 100"
definition MaximumBatch :: nat where "MaximumBatch = 100"

datatype approval_status = ApprovalDraft | ApprovalApproved | ApprovalRejected | OtherApproval string
datatype runtime_status = RuntimeIdle | RuntimePlanned | RuntimePaused | OtherRuntime string
datatype command_operation = CommandStart | CommandBatchStart

fun approval_valid :: "approval_status \<Rightarrow> bool" where
  "approval_valid (OtherApproval _) = False"
| "approval_valid _ = True"

fun runtime_valid :: "runtime_status \<Rightarrow> bool" where
  "runtime_valid (OtherRuntime _) = False"
| "runtime_valid _ = True"

record Campaign =
  cm_code :: string
  cm_name :: string
  cm_approval :: approval_status
  cm_runtime :: runtime_status
  cm_version :: int
  cm_created_by :: int
  cm_updated_by :: int
  cm_created :: instant
  cm_updated :: instant

record Step =
  st_index :: int
  st_delay :: int
  st_content :: string

record Plan =
  lp_id :: int
  lp_code :: string
  lp_version :: int
  lp_steps :: int
  lp_created :: instant

record Command =
  lc_id :: int
  lc_operation :: command_operation
  lc_code :: string
  lc_plan :: int
  lc_real_send :: bool
  lc_executed :: bool
  lc_created :: instant

record AuditEvent =
  av_type :: string
  av_code :: string
  av_actor :: int
  av_key :: string
  av_at :: instant

section \<open>Responses\<close>

record campaign_projection =
  cp_local :: bool
  cp_external_call :: bool
  cp_real_send :: bool
  cp_executed :: bool

definition local_projection :: campaign_projection where
  "local_projection = \<lparr>cp_local = True, cp_external_call = False, cp_real_send = False, cp_executed = False\<rparr>"

record MutationResponse =
  mr_campaign :: Campaign
  mr_command :: "Command option"
  mr_plan :: "Plan option"
  mr_projection :: campaign_projection

record DeleteResponse =
  dr_code :: string
  dr_deleted :: bool
  dr_projection :: campaign_projection

record BatchStartItem =
  bi_code :: string
  bi_version :: int

record BatchStartResponse =
  br_started :: "MutationResponse list"
  br_skipped :: "BatchStartItem list"
  br_failed :: "BatchStartItem list"
  br_projection :: campaign_projection

record OperationResult =
  or_mutation :: "MutationResponse option"
  or_delete :: "DeleteResponse option"
  or_batch :: "BatchStartResponse option"

section \<open>Commands\<close>

record VersionedCommand =
  vc_code :: string
  vc_version :: int
  vc_actor :: int
  vc_key :: string

record StepCreateCommand =
  sc_code :: string
  sc_version :: int
  sc_delay :: int
  sc_content :: string
  sc_actor :: int
  sc_key :: string

record StepUpdateCommand =
  su_code :: string
  su_index :: int
  su_version :: int
  su_delay :: "int option"
  su_content :: "string option"
  su_actor :: int
  su_key :: string

record StepDeleteCommand =
  sd_code :: string
  sd_index :: int
  sd_version :: int
  sd_actor :: int
  sd_key :: string

record BatchStartCommand =
  bc_items :: "BatchStartItem list"
  bc_actor :: int
  bc_key :: string

record ListInput =
  li_approval :: "approval_status option"
  li_runtime :: "runtime_status option"

section \<open>Idempotency records\<close>

record IdempotencyRecord =
  ir_id :: int
  ir_actor :: int
  ir_operation :: string
  ir_key :: string
  ir_payload :: string
  ir_completed :: bool
  ir_result :: "OperationResult option"

record Reservation =
  rv_actor :: int
  rv_operation :: string
  rv_key :: string
  rv_payload :: string
  rv_created :: instant

section \<open>Validity\<close>

definition inc64 :: "int \<Rightarrow> int" where
  "inc64 v = (if v = max_int64 then - max_int64 - 1 else v + 1)"

definition code_char :: "char \<Rightarrow> bool" where
  "code_char c \<longleftrightarrow> in_range 97 122 c \<or> in_range 65 90 c \<or> in_range 48 57 c \<or>
     c = CHR ''.'' \<or> c = CHR ''_'' \<or> c = CHR ''-''"

definition validCode :: "string \<Rightarrow> bool" where
  "validCode code \<longleftrightarrow> code \<noteq> [] \<and> length code \<le> MaximumCampaignCodeBytes \<and>
     trim_space code = code \<and> list_all code_char code"

definition validKey :: "string \<Rightarrow> bool" where
  "validKey key \<longleftrightarrow> 16 \<le> length key \<and> length key \<le> 128 \<and> trim_space key = key"

definition validVersioned :: "string \<Rightarrow> int \<Rightarrow> int \<Rightarrow> string \<Rightarrow> bool" where
  "validVersioned code v actor key \<longleftrightarrow> validCode code \<and> 0 < v \<and> 0 < actor \<and> validKey key"

definition validList :: "ListInput \<Rightarrow> bool" where
  "validList i \<longleftrightarrow>
     (case li_approval i of None \<Rightarrow> True | Some a \<Rightarrow> approval_valid a) \<and>
     (case li_runtime i of None \<Rightarrow> True | Some r \<Rightarrow> runtime_valid r)"

definition validDelay :: "int \<Rightarrow> bool" where
  "validDelay v \<longleftrightarrow> 0 \<le> v \<and> v \<le> 525600"

definition validContent :: "string \<Rightarrow> bool" where
  "validContent v \<longleftrightarrow> trim_space v \<noteq> [] \<and> rune_count v \<le> MaximumStepContentRunes"

definition validStepFields :: "int \<Rightarrow> string \<Rightarrow> bool" where
  "validStepFields d c \<longleftrightarrow> validDelay d \<and> validContent c"

text \<open>The loop over the steps, from position \<open>i\<close>.\<close>

fun steps_from :: "int \<Rightarrow> Step list \<Rightarrow> bool" where
  "steps_from i [] = True"
| "steps_from i (s # ss) =
     (st_index s = i + 1 \<and> validStepFields (st_delay s) (st_content s) \<and> steps_from (i + 1) ss)"

definition validSteps :: "Step list \<Rightarrow> bool" where
  "validSteps steps \<longleftrightarrow> length steps \<le> MaximumSteps \<and> steps_from 0 steps"

definition validCampaign :: "Campaign \<Rightarrow> bool" where
  "validCampaign c \<longleftrightarrow>
     validCode (cm_code c) \<and> trim_space (cm_name c) \<noteq> [] \<and>
     rune_count (cm_name c) \<le> MaximumCampaignNameRunes \<and> approval_valid (cm_approval c) \<and>
     runtime_valid (cm_runtime c) \<and> 0 < cm_version c \<and> 0 < cm_created_by c \<and>
     0 < cm_updated_by c \<and> cm_created c \<noteq> 0 \<and> cm_updated c \<noteq> 0"

definition validLocalPlanCommand ::
  "Plan \<Rightarrow> Command \<Rightarrow> Campaign \<Rightarrow> int \<Rightarrow> command_operation \<Rightarrow> instant \<Rightarrow> bool" where
  "validLocalPlanCommand p k c count op now \<longleftrightarrow>
     0 < lp_id p \<and> 0 < lc_id k \<and> lp_code p = cm_code c \<and> lp_version p = cm_version c \<and>
     lp_steps p = count \<and> lp_created p = now \<and> lc_operation k = op \<and> lc_code k = cm_code c \<and>
     lc_plan k = lp_id p \<and> lc_created k = now \<and> \<not> lc_real_send k \<and> \<not> lc_executed k"

definition validBatch :: "BatchStartCommand \<Rightarrow> bool" where
  "validBatch c \<longleftrightarrow>
     0 < bc_actor c \<and> validKey (bc_key c) \<and> bc_items c \<noteq> [] \<and> length (bc_items c) \<le> MaximumBatch \<and>
     list_all (\<lambda>i. validCode (bi_code i) \<and> 1 \<le> bi_version i) (bc_items c) \<and>
     distinct (map bi_code (bc_items c))"

section \<open>Payload digests\<close>

record campaign_env =
  ce_sha256 :: "string \<Rightarrow> string"
  ce_quote :: "string \<Rightarrow> string"

definition json_field :: "campaign_env \<Rightarrow> string \<Rightarrow> string \<Rightarrow> string" where
  "json_field E name v = ce_quote E name @ '':'' @ v"

definition json_struct :: "campaign_env \<Rightarrow> (string \<times> string) list \<Rightarrow> string" where
  "json_struct E kvs = ''{'' @ join_with '','' (map (\<lambda>(k, v). json_field E k v) kvs) @ ''}''"

definition json_actor :: "campaign_env \<Rightarrow> int \<Rightarrow> string" where
  "json_actor E actor = json_struct E [(''ID'', show_int actor)]"

definition json_option :: "('a \<Rightarrow> string) \<Rightarrow> 'a option \<Rightarrow> string" where
  "json_option f x = (case x of None \<Rightarrow> ''null'' | Some v \<Rightarrow> f v)"

definition digest_of :: "campaign_env \<Rightarrow> string \<Rightarrow> string" where
  "digest_of E json = ce_sha256 E json"

definition step_add_payload :: "campaign_env \<Rightarrow> StepCreateCommand \<Rightarrow> string" where
  "step_add_payload E c = json_struct E
     [(''Code'', ce_quote E (sc_code c)), (''Version'', show_int (sc_version c)),
      (''Delay'', show_int (sc_delay c)), (''Content'', ce_quote E (sc_content c))]"

definition step_update_payload :: "campaign_env \<Rightarrow> StepUpdateCommand \<Rightarrow> string" where
  "step_update_payload E c = json_struct E
     [(''CampaignCode'', ce_quote E (su_code c)), (''StepIndex'', show_int (su_index c)),
      (''ExpectedVersion'', show_int (su_version c)),
      (''DelayMinutes'', json_option show_int (su_delay c)),
      (''Content'', json_option (ce_quote E) (su_content c)),
      (''Actor'', json_actor E (su_actor c)), (''IdempotencyKey'', ce_quote E (su_key c))]"

definition step_delete_payload :: "campaign_env \<Rightarrow> StepDeleteCommand \<Rightarrow> string" where
  "step_delete_payload E c = json_struct E
     [(''CampaignCode'', ce_quote E (sd_code c)), (''StepIndex'', show_int (sd_index c)),
      (''ExpectedVersion'', show_int (sd_version c)), (''Actor'', json_actor E (sd_actor c)),
      (''IdempotencyKey'', ce_quote E (sd_key c))]"

definition versioned_payload :: "campaign_env \<Rightarrow> VersionedCommand \<Rightarrow> string" where
  "versioned_payload E c = json_struct E
     [(''CampaignCode'', ce_quote E (vc_code c)), (''ExpectedVersion'', show_int (vc_version c)),
      (''Actor'', json_actor E (vc_actor c)), (''IdempotencyKey'', ce_quote E (vc_key c))]"

definition batch_payload :: "campaign_env \<Rightarrow> BatchStartItem list \<Rightarrow> string" where
  "batch_payload E items = ''['' @ join_with '','' (map (\<lambda>i. json_struct E
     [(''campaign_code'', ce_quote E (bi_code i)), (''expected_version'', show_int (bi_version i))]) items) @ '']''"

section \<open>Facts about steps\<close>

lemma validContent_trim: "validContent v \<Longrightarrow> validContent (trim_space v)"
  using rune_count_trim_space [of v] by (simp add: validContent_def)

lemma steps_from_append:
  "steps_from i (ss @ ts) \<longleftrightarrow> steps_from i ss \<and> steps_from (i + int (length ss)) ts"
  by (induction ss arbitrary: i) (auto simp: algebra_simps)

lemma steps_from_indexes:
  "steps_from i ss \<Longrightarrow> k < length ss \<Longrightarrow> st_index (ss ! k) = i + int k + 1"
proof (induction ss arbitrary: i k)
  case (Cons s ss)
  then show ?case by (cases k) auto
qed simp

lemma steps_from_iff:
  "steps_from i ss \<longleftrightarrow> (\<forall>k < length ss. st_index (ss ! k) = i + int k + 1 \<and>
     validStepFields (st_delay (ss ! k)) (st_content (ss ! k)))"
  by (induction ss arbitrary: i) (auto simp: nth_Cons less_Suc_eq_0_disj split: nat.splits)

lemma inc64_pos: "0 < v \<Longrightarrow> 0 < inc64 v \<Longrightarrow> inc64 v = v + 1"
  by (auto simp: inc64_def max_int64_def split: if_splits)

lemma inc64_less: "v < max_int64 \<Longrightarrow> inc64 v = v + 1"
  by (simp add: inc64_def)

end
