(* ===== verification/EventLog.thy ===== *)
theory EventLog
  imports GoText
begin

text \<open>
  The shared event log (\<^verbatim>\<open>internal/events/port/port.go\<close>, the append in
  \<^verbatim>\<open>internal/events/store/appender.go\<close>): events, records, the rows of \<^verbatim>\<open>event_log\<close>, and what
  PostgreSQL columns keep of a text or an instant.

  An error is the list of its causes, so that \<^verbatim>\<open>errors.Join\<close> is concatenation and
  \<^verbatim>\<open>errors.Is\<close> is membership. \<open>EvOther\<close> is any other error; \<open>EvDependency\<close> is an error of the
  database driver.
\<close>

section \<open>Columns\<close>

definition pg_micros :: "instant \<Rightarrow> instant" where
  "pg_micros t = t div 1000 * 1000"

definition pg_text :: "string \<Rightarrow> bool" where
  "pg_text s \<longleftrightarrow> valid_utf8 s \<and> CHR 0x00 \<notin> set s"

record event_row =
  ev_id :: int
  ev_type :: string
  ev_customer :: "int option"
  ev_payload :: string
  ev_at :: instant
  ev_key :: string

section \<open>Errors\<close>

datatype event_cause =
    EvInvalidEvent | EvIdempotencyConflict | EvInvalidDelivery | EvLeaseActive | EvPoison
  | EvOutcomeUnknown | EvInvalidSubscriber | EvNoSubscriber | EvInvalidDispatcher | EvUnavailable
  | EvNoRows | EvDependency | EvOther string

type_synonym event_error = "event_cause list"

definition error_is :: "event_error \<Rightarrow> event_cause \<Rightarrow> bool" where
  "error_is e c \<longleftrightarrow> c \<in> set e"

definition PoisonDelivery :: "event_error \<Rightarrow> event_error" where
  "PoisonDelivery e = EvPoison # e"

definition UnknownDeliveryOutcome :: "event_error \<Rightarrow> event_error" where
  "UnknownDeliveryOutcome e = EvOutcomeUnknown # e"

section \<open>Events\<close>

text \<open>A customer identifier of 0 means that the event has none.\<close>

record Event =
  en_type :: string
  en_customer :: int
  en_payload :: string
  en_at :: instant
  en_key :: string

record EventRecord =
  er_id :: int
  er_event :: Event

text \<open>
  \<^verbatim>\<open>json.Valid\<close>, and the value that a \<^verbatim>\<open>jsonb\<close> column keeps of a text (none when it refuses it).
\<close>

record event_env =
  ee_json_valid :: "string \<Rightarrow> bool"
  ee_jsonb :: "string \<Rightarrow> string option"

definition valid_event :: "event_env \<Rightarrow> Event \<Rightarrow> bool" where
  "valid_event N e \<longleftrightarrow> trim_space (en_type e) \<noteq> [] \<and> 0 \<le> en_customer e \<and> en_at e \<noteq> 0 \<and>
     trim_space (en_key e) \<noteq> [] \<and> en_payload e \<noteq> [] \<and> ee_json_valid N (en_payload e)"

section \<open>Deliveries\<close>

datatype delivery_status =
    DeliveryPending | DeliveryProcessing | DeliveryCompleted | DeliveryFinalFailed | DeliveryOutcomeUnknown

fun delivery_over :: "delivery_status \<Rightarrow> bool" where
  "delivery_over DeliveryCompleted = True"
| "delivery_over DeliveryFinalFailed = True"
| "delivery_over DeliveryOutcomeUnknown = True"
| "delivery_over _ = False"

record DeliveryJobArgs =
  ja_event :: int
  ja_consumer :: string

record DeliveryBinding =
  bn_type :: string
  bn_consumer :: string

record DeliveryClaim =
  cl_record :: EventRecord
  cl_consumer :: string
  cl_owner :: string
  cl_status :: delivery_status
  cl_attempt :: int

definition validDeliveryName :: "string \<Rightarrow> bool" where
  "validDeliveryName v \<longleftrightarrow> v \<noteq> [] \<and> length v \<le> 200 \<and> trim_space v = v"

definition validErrorCode :: "string \<Rightarrow> bool" where
  "validErrorCode v \<longleftrightarrow> v \<noteq> [] \<and> length v \<le> 100 \<and> trim_space v = v \<and>
     set v \<inter> {CHR 0x0D, CHR 0x0A, CHR 0x09} = {}"

definition no_record :: EventRecord where
  "no_record = \<lparr>er_id = 0, er_event = \<lparr>en_type = [], en_customer = 0, en_payload = [], en_at = 0, en_key = []\<rparr>\<rparr>"

definition deliveryRecord :: "event_env \<Rightarrow> event_row \<Rightarrow> event_error + EventRecord" where
  "deliveryRecord N r =
     (if ev_id r \<le> 0 \<or> \<not> validDeliveryName (ev_type r) \<or> ev_at r = 0 \<or> ev_key r = [] \<or>
         \<not> ee_json_valid N (ev_payload r)
      then Inl [EvInvalidDelivery]
      else Inr \<lparr>er_id = ev_id r, er_event = \<lparr>en_type = ev_type r,
        en_customer = (case ev_customer r of None \<Rightarrow> 0 | Some c \<Rightarrow> c), en_payload = ev_payload r,
        en_at = ev_at r, en_key = ev_key r\<rparr>\<rparr>)"

end
