(* ===== verification/CampaignStore.thy ===== *)
theory CampaignStore
  imports CampaignTypes EventLog "HOL-Library.Char_ord" "HOL-Library.List_Lexorder"
begin

text \<open>
  The PostgreSQL store of cloud campaigns (\<^verbatim>\<open>internal/campaign/store/postgres.go\<close>, schema in
  migration 00060), and the audit trail in the shared event log
  (\<^verbatim>\<open>internal/campaign/event_log_adapter.go\<close>, \<^verbatim>\<open>internal/events/store/appender.go\<close> and its
  query \<^verbatim>\<open>AppendEvent\<close>).

  Tables are lists of rows; a violated constraint is \<open>CErrDependency\<close>. The columns of type
  timestamptz keep microseconds (\<open>pg_micros\<close>); text columns hold UTF-8 without NUL.
  \<open>campaign_refs\<close> lists the campaign codes that foreign keys of other tables refer to
  (touch plans, their reviews and handoffs, definition history). A receipt keeps its result
  as a value: the column holds its JSON, and every text in it was read from a text column, so
  that decoding gives the value back. Codes are compared byte by byte in \<^verbatim>\<open>ORDER BY\<close>.
\<close>

section \<open>Tables\<close>

record camp_db =
  cloud_campaigns :: "Campaign list"
  campaign_steps :: "(string \<times> Step) list"
  local_plans :: "Plan list"
  local_commands :: "Command list"
  op_receipts :: "IdempotencyRecord list"
  event_log :: "event_row list"
  campaign_refs :: "string list"
  next_plan :: int
  next_command :: int
  next_op_receipt :: int
  next_event :: int

type_synonym 'a camp_tx = "(camp_db, camp_error, 'a) tx"

definition dec64 :: "int \<Rightarrow> int" where
  "dec64 v = (if v = - max_int64 - 1 then max_int64 else v - 1)"

section \<open>Reading\<close>

definition find_campaign :: "string \<Rightarrow> camp_db \<Rightarrow> Campaign option" where
  "find_campaign code db = List.find (\<lambda>c. cm_code c = code) (cloud_campaigns db)"

definition steps_of :: "string \<Rightarrow> camp_db \<Rightarrow> Step list" where
  "steps_of code db = sort_key st_index (map snd (filter (\<lambda>r. fst r = code) (campaign_steps db)))"

definition pg_list :: "ListInput \<Rightarrow> Campaign list camp_tx" where
  "pg_list i = (\<lambda>db. (Inr (sort_key cm_code (filter (\<lambda>c.
     (case li_approval i of None \<Rightarrow> True | Some a \<Rightarrow> cm_approval c = a) \<and>
     (case li_runtime i of None \<Rightarrow> True | Some r \<Rightarrow> cm_runtime c = r)) (cloud_campaigns db))), db))"

definition pg_get :: "string \<Rightarrow> (Campaign \<times> Step list) camp_tx" where
  "pg_get code = (\<lambda>db. case find_campaign code db of
     None \<Rightarrow> (Inl CErrNotFound, db) | Some c \<Rightarrow> (Inr (c, steps_of code db), db))"

section \<open>Writing\<close>

text \<open>The columns that \<^verbatim>\<open>Save\<close> updates; name, creator and creation time stay.\<close>

definition saved_row :: "Campaign \<Rightarrow> Campaign \<Rightarrow> Campaign" where
  "saved_row c row = row\<lparr>cm_approval := cm_approval c, cm_runtime := cm_runtime c,
     cm_version := cm_version c, cm_updated_by := cm_updated_by c,
     cm_updated := pg_micros (cm_updated c)\<rparr>"

definition update_campaign :: "Campaign \<Rightarrow> unit camp_tx" where
  "update_campaign c = (\<lambda>db.
     (let hit = (\<lambda>row. cm_code row = cm_code c \<and> cm_version row = dec64 (cm_version c)) in
      if \<not> list_ex hit (cloud_campaigns db) then (Inl CErrConflict, db)
      else if \<not> approval_valid (cm_approval c) \<or> \<not> runtime_valid (cm_runtime c) \<or> cm_version c \<le> 0
      then (Inl CErrDependency, db)
      else (Inr (), db\<lparr>cloud_campaigns :=
        map (\<lambda>row. if hit row then saved_row c row else row) (cloud_campaigns db)\<rparr>)))"

definition delete_steps :: "string \<Rightarrow> unit camp_tx" where
  "delete_steps code = (\<lambda>db.
     (Inr (), db\<lparr>campaign_steps := filter (\<lambda>r. fst r \<noteq> code) (campaign_steps db)\<rparr>))"

definition insert_step :: "string \<Rightarrow> Step \<Rightarrow> unit camp_tx" where
  "insert_step code s = (\<lambda>db.
     if find_campaign code db = None \<or> st_index s \<le> 0 \<or> st_delay s < 0 \<or> st_content s = [] \<or>
        \<not> pg_text (st_content s) \<or>
        list_ex (\<lambda>r. fst r = code \<and> st_index (snd r) = st_index s) (campaign_steps db)
     then (Inl CErrDependency, db)
     else (Inr (), db\<lparr>campaign_steps := campaign_steps db @ [(code, s)]\<rparr>))"

fun insert_steps :: "string \<Rightarrow> Step list \<Rightarrow> unit camp_tx" where
  "insert_steps code [] = ret ()"
| "insert_steps code (s # ss) = and_then (insert_step code s) (\<lambda>_. insert_steps code ss)"

definition pg_save :: "Campaign \<Rightarrow> Step list \<Rightarrow> unit camp_tx" where
  "pg_save c steps =
     and_then (update_campaign c) (\<lambda>_.
     and_then (delete_steps (cm_code c)) (\<lambda>_.
     insert_steps (cm_code c) steps))"

text \<open>The codes that keep a campaign from being deleted.\<close>

definition referenced :: "string \<Rightarrow> camp_db \<Rightarrow> bool" where
  "referenced code db \<longleftrightarrow>
     code \<in> set (map lp_code (local_plans db)) \<or> code \<in> set (map lc_code (local_commands db)) \<or>
     code \<in> set (campaign_refs db)"

definition pg_delete :: "string \<Rightarrow> int \<Rightarrow> unit camp_tx" where
  "pg_delete code version = (\<lambda>db.
     (let hit = (\<lambda>row. cm_code row = code \<and> cm_version row = version \<and>
                   cm_approval row = ApprovalDraft \<and> cm_runtime row = RuntimeIdle) in
      if \<not> list_ex hit (cloud_campaigns db) then (Inl CErrConflict, db)
      else if referenced code db then (Inl CErrDependency, db)
      else (Inr (), db\<lparr>cloud_campaigns := filter (\<lambda>row. \<not> hit row) (cloud_campaigns db),
                        campaign_steps := filter (\<lambda>r. fst r \<noteq> code) (campaign_steps db)\<rparr>)))"

definition pg_plan :: "Campaign \<Rightarrow> int \<Rightarrow> command_operation \<Rightarrow> instant \<Rightarrow> (Plan \<times> Command) camp_tx" where
  "pg_plan c count op now = (\<lambda>db.
     if find_campaign (cm_code c) db = None \<or> cm_version c \<le> 0 \<or> count \<le> 0
     then (Inl CErrDependency, db)
     else (let p = \<lparr>lp_id = next_plan db, lp_code = cm_code c, lp_version = cm_version c,
                 lp_steps = count, lp_created = now\<rparr>;
               k = \<lparr>lc_id = next_command db, lc_operation = op, lc_code = cm_code c,
                 lc_plan = lp_id p, lc_real_send = False, lc_executed = False, lc_created = now\<rparr>
           in (Inr (p, k), db\<lparr>
                local_plans := local_plans db @ [p\<lparr>lp_created := pg_micros now\<rparr>],
                local_commands := local_commands db @ [k\<lparr>lc_created := pg_micros now\<rparr>],
                next_plan := next_plan db + 1, next_command := next_command db + 1\<rparr>)))"

section \<open>Receipts\<close>

definition find_receipt :: "int \<Rightarrow> string \<Rightarrow> camp_db \<Rightarrow> IdempotencyRecord option" where
  "find_receipt actor key db =
     List.find (\<lambda>r. ir_actor r = actor \<and> ir_key r = key) (op_receipts db)"

definition pg_reserve :: "Reservation \<Rightarrow> (IdempotencyRecord \<times> bool) camp_tx" where
  "pg_reserve x = (\<lambda>db. case find_receipt (rv_actor x) (rv_key x) db of
     None \<Rightarrow>
       (let r = \<lparr>ir_id = next_op_receipt db, ir_actor = rv_actor x, ir_operation = rv_operation x,
              ir_key = rv_key x, ir_payload = rv_payload x, ir_completed = False, ir_result = None\<rparr>
        in (Inr (r, False), db\<lparr>op_receipts := op_receipts db @ [r],
                               next_op_receipt := next_op_receipt db + 1\<rparr>))
   | Some r \<Rightarrow>
       if ir_operation r \<noteq> rv_operation x \<or> ir_payload r \<noteq> rv_payload x
       then (Inl CErrIdempotencyConflict, db)
       else if \<not> ir_completed r \<or> ir_result r = None then (Inl CErrUnavailable, db)
       else (Inr (r, True), db))"

definition pg_complete :: "int \<Rightarrow> OperationResult \<Rightarrow> unit camp_tx" where
  "pg_complete i result = (\<lambda>db.
     (let hit = (\<lambda>r. ir_id r = i \<and> \<not> ir_completed r) in
      if \<not> list_ex hit (op_receipts db) then (Inl CErrUnavailable, db)
      else (Inr (), db\<lparr>op_receipts :=
        map (\<lambda>r. if hit r then r\<lparr>ir_completed := True, ir_result := Some result\<rparr> else r) (op_receipts db)\<rparr>)))"

section \<open>The audit trail\<close>

definition audit_payload :: "campaign_env \<Rightarrow> AuditEvent \<Rightarrow> string" where
  "audit_payload E e = json_struct E
     [(''audit_type'', ce_quote E (av_type e)), (''campaign_code'', ce_quote E (av_code e)),
      (''actor_id'', show_int (av_actor e))]"

definition audit_key_text :: "AuditEvent \<Rightarrow> string" where
  "audit_key_text e = join_with '':'' [show_int (av_actor e), av_key e, av_type e, av_code e]"

definition audit_row :: "campaign_env \<Rightarrow> int \<Rightarrow> AuditEvent \<Rightarrow> event_row" where
  "audit_row E i e = \<lparr>ev_id = i, ev_type = ''cloud_campaign.fact_recorded'', ev_customer = None,
     ev_payload = audit_payload E e, ev_at = pg_micros (av_at e),
     ev_key = hex_encode (ce_sha256 E (audit_key_text e))\<rparr>"

text \<open>
  The insertion with its conflict clause: a row with the same key and the same other columns
  is kept, any other row with the key is a conflict.
\<close>

definition AppendEvent :: "event_row \<Rightarrow> int camp_tx" where
  "AppendEvent row = (\<lambda>db.
     case List.find (\<lambda>r. ev_key r = ev_key row) (event_log db) of
       None \<Rightarrow> (Inr (next_event db), db\<lparr>event_log := event_log db @ [row\<lparr>ev_id := next_event db\<rparr>],
                                      next_event := next_event db + 1\<rparr>)
     | Some r \<Rightarrow> if r\<lparr>ev_id := 0\<rparr> = row\<lparr>ev_id := 0\<rparr> then (Inr (ev_id r), db) else (Inl CErrDependency, db))"

definition pg_append :: "campaign_env \<Rightarrow> AuditEvent \<Rightarrow> unit camp_tx" where
  "pg_append E e = (\<lambda>db.
     if av_at e = 0 \<or> trim_space (ev_key (audit_row E 0 e)) = [] then (Inl CErrUnavailable, db)
     else (case AppendEvent (audit_row E 0 e) db of
             (Inl _, db') \<Rightarrow> (Inl CErrUnavailable, db')
           | (Inr i, db') \<Rightarrow> if i < 1 then (Inl CErrUnavailable, db') else (Inr (), db')))"

section \<open>The constraints of the schema\<close>

definition camp_db_ok :: "camp_db \<Rightarrow> bool" where
  "camp_db_ok db \<longleftrightarrow>
     distinct (map cm_code (cloud_campaigns db)) \<and>
     list_all (\<lambda>c. approval_valid (cm_approval c) \<and> runtime_valid (cm_runtime c) \<and> 0 < cm_version c \<and>
         cm_version c \<le> max_int64) (cloud_campaigns db) \<and>
     distinct (map (\<lambda>r. (fst r, st_index (snd r))) (campaign_steps db)) \<and>
     list_all (\<lambda>r. fst r \<in> set (map cm_code (cloud_campaigns db)) \<and> pg_text (st_content (snd r)))
       (campaign_steps db) \<and>
     list_all (\<lambda>p. lp_code p \<in> set (map cm_code (cloud_campaigns db))) (local_plans db) \<and>
     list_all (\<lambda>k. lc_code k \<in> set (map cm_code (cloud_campaigns db))) (local_commands db) \<and>
     list_all (\<lambda>r. ir_id r < next_op_receipt db) (op_receipts db) \<and> distinct (map ir_id (op_receipts db)) \<and>
     0 < next_plan db \<and> 0 < next_command db \<and> 0 < next_event db \<and>
     list_all (\<lambda>r. 0 < ev_id r) (event_log db)"

definition empty_camp_db :: camp_db where
  "empty_camp_db = \<lparr>cloud_campaigns = [], campaign_steps = [], local_plans = [], local_commands = [],
     op_receipts = [], event_log = [], campaign_refs = [], next_plan = 1, next_command = 1,
     next_op_receipt = 1, next_event = 1\<rparr>"

lemma empty_camp_db_ok: "camp_db_ok empty_camp_db"
  by (simp add: camp_db_ok_def empty_camp_db_def)

end
