(* ===== verification/CampaignService.thy ===== *)
theory CampaignService
  imports CampaignStore
begin

text \<open>
  The campaign service (\<^verbatim>\<open>internal/campaign/service.go\<close>) over its \<^verbatim>\<open>Repository\<close>,
  \<^verbatim>\<open>UnitOfWork\<close> and \<^verbatim>\<open>AuditAppender\<close> interfaces, which are one record of operations over an
  abstract store type; \<open>pg_campaigns\<close> is the PostgreSQL one. \<open>now\<close> is the clock of the
  service in UTC. A call that fails returns only its error: the response that the code may
  have filled in before the failure is not part of the result.
\<close>

section \<open>The interface\<close>

record 's campaign_repo =
  cr_ready :: bool
  cr_list :: "ListInput \<Rightarrow> ('s, camp_error, Campaign list) tx"
  cr_get :: "string \<Rightarrow> ('s, camp_error, Campaign \<times> Step list) tx"
  cr_lock :: "string \<Rightarrow> ('s, camp_error, Campaign \<times> Step list) tx"
  cr_save :: "Campaign \<Rightarrow> Step list \<Rightarrow> ('s, camp_error, unit) tx"
  cr_delete :: "string \<Rightarrow> int \<Rightarrow> ('s, camp_error, unit) tx"
  cr_plan :: "Campaign \<Rightarrow> int \<Rightarrow> command_operation \<Rightarrow> instant \<Rightarrow> ('s, camp_error, Plan \<times> Command) tx"
  cr_reserve :: "Reservation \<Rightarrow> ('s, camp_error, IdempotencyRecord \<times> bool) tx"
  cr_complete :: "int \<Rightarrow> OperationResult \<Rightarrow> ('s, camp_error, unit) tx"
  cr_append :: "AuditEvent \<Rightarrow> ('s, camp_error, unit) tx"

definition pg_campaigns :: "campaign_env \<Rightarrow> camp_db campaign_repo" where
  "pg_campaigns E = \<lparr>cr_ready = True, cr_list = pg_list, cr_get = pg_get, cr_lock = pg_get,
     cr_save = pg_save, cr_delete = pg_delete, cr_plan = pg_plan, cr_reserve = pg_reserve,
     cr_complete = pg_complete, cr_append = pg_append E\<rparr>"

section \<open>Shared steps\<close>

definition invalidOrUnavailable :: "bool \<Rightarrow> camp_error" where
  "invalidOrUnavailable ready = (if \<not> ready then CErrUnavailable else CErrInvalidArgument)"

definition classified :: "('s, camp_error, 'a) tx \<Rightarrow> ('s, camp_error, 'a) tx" where
  "classified m = (\<lambda>s. case m s of (Inl e, s') \<Rightarrow> (Inl (classify e), s') | (Inr v, s') \<Rightarrow> (Inr v, s'))"

definition svc_reserve ::
  "campaign_env \<Rightarrow> 's campaign_repo \<Rightarrow> int \<Rightarrow> string \<Rightarrow> string \<Rightarrow> string \<Rightarrow> instant \<Rightarrow>
     ('s, camp_error, IdempotencyRecord \<times> bool) tx" where
  "svc_reserve E R actor op key payload now =
     (if \<not> validKey key then fail (CErrValidation ''idempotency_key'' ''invalid'')
      else cr_reserve R \<lparr>rv_actor = actor, rv_operation = op, rv_key = ce_sha256 E key,
             rv_payload = payload, rv_created = now\<rparr>)"

definition mutate ::
  "campaign_env \<Rightarrow> 's campaign_repo \<Rightarrow> instant \<Rightarrow> string \<Rightarrow> int \<Rightarrow> string \<Rightarrow> string \<Rightarrow>
     ('s, camp_error, MutationResponse) tx \<Rightarrow> ('s, camp_error, MutationResponse) tx" where
  "mutate E R now op actor key payload body =
     (if now = 0 then fail CErrUnavailable
      else classified (within (and_then (svc_reserve E R actor op key (digest_of E payload) now) (\<lambda>(r, replay).
        if replay
        then (case ir_result r of
                None \<Rightarrow> fail CErrUnavailable
              | Some result \<Rightarrow> (case or_mutation result of None \<Rightarrow> fail CErrUnavailable | Some out \<Rightarrow> ret out))
        else and_then body (\<lambda>out.
             and_then (cr_complete R (ir_id r) \<lparr>or_mutation = Some out, or_delete = None, or_batch = None\<rparr>)
               (\<lambda>_. ret out))))))"

definition mutation_response :: "Campaign \<Rightarrow> MutationResponse" where
  "mutation_response c = \<lparr>mr_campaign = c, mr_command = None, mr_plan = None, mr_projection = local_projection\<rparr>"

definition saveAudit ::
  "'s campaign_repo \<Rightarrow> Campaign \<Rightarrow> Step list \<Rightarrow> int \<Rightarrow> string \<Rightarrow> string \<Rightarrow> instant \<Rightarrow>
     ('s, camp_error, MutationResponse) tx" where
  "saveAudit R cur steps actor event key now =
     (let c = cur\<lparr>cm_version := inc64 (cm_version cur), cm_updated_by := actor, cm_updated := now\<rparr> in
      and_then (cr_save R c steps) (\<lambda>_.
      and_then (cr_append R \<lparr>av_type = ''cloud_campaign.'' @ event, av_code = cm_code c,
          av_actor = actor, av_key = key, av_at = now\<rparr>) (\<lambda>_.
      ret (mutation_response c))))"

text \<open>The guard every operation on one campaign starts with.\<close>

definition lock_version ::
  "'s campaign_repo \<Rightarrow> string \<Rightarrow> int \<Rightarrow> ('s, camp_error, Campaign \<times> Step list) tx" where
  "lock_version R code version =
     and_then (cr_lock R code) (\<lambda>(cur, steps).
       if cm_version cur \<noteq> version then fail CErrConflict else ret (cur, steps))"

section \<open>Reading\<close>

definition svc_list ::
  "'s campaign_repo \<Rightarrow> ListInput \<Rightarrow> ('s, camp_error, Campaign list \<times> campaign_projection) tx" where
  "svc_list R i =
     (if \<not> validList i \<or> \<not> cr_ready R then fail (invalidOrUnavailable (cr_ready R))
      else classified (within (and_then (cr_list R i) (\<lambda>items. ret (items, local_projection)))))"

definition svc_detail ::
  "'s campaign_repo \<Rightarrow> string \<Rightarrow> ('s, camp_error, Campaign \<times> Step list \<times> campaign_projection) tx" where
  "svc_detail R code =
     (if \<not> validCode code \<or> \<not> cr_ready R then fail (invalidOrUnavailable (cr_ready R))
      else classified (within (and_then (cr_get R code) (\<lambda>(c, steps).
        if \<not> validCampaign c \<or> \<not> validSteps steps then fail CErrUnavailable
        else ret (c, steps, local_projection)))))"

section \<open>Steps\<close>

definition editable :: "Campaign \<Rightarrow> bool" where
  "editable c \<longleftrightarrow> cm_approval c = ApprovalDraft \<and> cm_runtime c = RuntimeIdle"

definition svc_add_step ::
  "campaign_env \<Rightarrow> 's campaign_repo \<Rightarrow> instant \<Rightarrow> StepCreateCommand \<Rightarrow> ('s, camp_error, MutationResponse) tx" where
  "svc_add_step E R now c =
     (if \<not> validVersioned (sc_code c) (sc_version c) (sc_actor c) (sc_key c) \<or>
         \<not> validStepFields (sc_delay c) (sc_content c) \<or> \<not> cr_ready R
      then fail (invalidOrUnavailable (cr_ready R))
      else mutate E R now ''step_add'' (sc_actor c) (sc_key c) (step_add_payload E c)
        (and_then (lock_version R (sc_code c) (sc_version c)) (\<lambda>(cur, steps).
          if \<not> editable cur \<or> MaximumSteps \<le> length steps then fail CErrStateConflict
          else saveAudit R cur
            (steps @ [\<lparr>st_index = int (length steps + 1), st_delay = sc_delay c,
                       st_content = trim_space (sc_content c)\<rparr>])
            (sc_actor c) ''step_added'' (sc_key c) now)))"

definition updated_step :: "StepUpdateCommand \<Rightarrow> Step \<Rightarrow> Step" where
  "updated_step c s =
     (let s' = (case su_delay c of None \<Rightarrow> s | Some d \<Rightarrow> s\<lparr>st_delay := d\<rparr>) in
      case su_content c of None \<Rightarrow> s' | Some v \<Rightarrow> s'\<lparr>st_content := trim_space v\<rparr>)"

definition svc_update_step ::
  "campaign_env \<Rightarrow> 's campaign_repo \<Rightarrow> instant \<Rightarrow> StepUpdateCommand \<Rightarrow> ('s, camp_error, MutationResponse) tx" where
  "svc_update_step E R now c =
     (if \<not> validVersioned (su_code c) (su_version c) (su_actor c) (su_key c) \<or> su_index c < 1 \<or>
         (su_delay c = None \<and> su_content c = None) \<or> \<not> cr_ready R
      then fail (invalidOrUnavailable (cr_ready R))
      else if (case su_delay c of None \<Rightarrow> False | Some d \<Rightarrow> \<not> validDelay d)
      then fail (CErrValidation ''delay_minutes'' ''invalid'')
      else if (case su_content c of None \<Rightarrow> False | Some v \<Rightarrow> \<not> validContent v)
      then fail (CErrValidation ''content'' ''invalid'')
      else mutate E R now ''step_update'' (su_actor c) (su_key c) (step_update_payload E c)
        (and_then (lock_version R (su_code c) (su_version c)) (\<lambda>(cur, steps).
          if \<not> editable cur \<or> int (length steps) < su_index c then fail CErrStateConflict
          else saveAudit R cur
            (steps[nat (su_index c - 1) := updated_step c (steps ! nat (su_index c - 1))])
            (su_actor c) ''step_updated'' (su_key c) now)))"

text \<open>The remaining steps after a deletion, numbered from 1.\<close>

definition renumbered :: "Step list \<Rightarrow> Step list" where
  "renumbered steps = map (\<lambda>(i, s). s\<lparr>st_index := int (i + 1)\<rparr>) (enumerate 0 steps)"

definition svc_delete_step ::
  "campaign_env \<Rightarrow> 's campaign_repo \<Rightarrow> instant \<Rightarrow> StepDeleteCommand \<Rightarrow> ('s, camp_error, MutationResponse) tx" where
  "svc_delete_step E R now c =
     (if \<not> validVersioned (sd_code c) (sd_version c) (sd_actor c) (sd_key c) \<or> sd_index c < 1 \<or> \<not> cr_ready R
      then fail (invalidOrUnavailable (cr_ready R))
      else mutate E R now ''step_delete'' (sd_actor c) (sd_key c) (step_delete_payload E c)
        (and_then (lock_version R (sd_code c) (sd_version c)) (\<lambda>(cur, steps).
          if \<not> editable cur \<or> int (length steps) < sd_index c then fail CErrStateConflict
          else saveAudit R cur
            (renumbered (take (nat (sd_index c - 1)) steps @ drop (nat (sd_index c)) steps))
            (sd_actor c) ''step_deleted'' (sd_key c) now)))"

section \<open>Approval and runtime\<close>

definition changeApproval ::
  "campaign_env \<Rightarrow> 's campaign_repo \<Rightarrow> instant \<Rightarrow> string \<Rightarrow> VersionedCommand \<Rightarrow> approval_status \<Rightarrow>
     approval_status \<Rightarrow> string \<Rightarrow> ('s, camp_error, MutationResponse) tx" where
  "changeApproval E R now op c source target event =
     (if \<not> validVersioned (vc_code c) (vc_version c) (vc_actor c) (vc_key c) \<or> \<not> cr_ready R
      then fail (invalidOrUnavailable (cr_ready R))
      else mutate E R now op (vc_actor c) (vc_key c) (versioned_payload E c)
        (and_then (lock_version R (vc_code c) (vc_version c)) (\<lambda>(cur, steps).
          if cm_approval cur \<noteq> source \<or> cm_runtime cur \<noteq> RuntimeIdle then fail CErrStateConflict
          else saveAudit R (cur\<lparr>cm_approval := target\<rparr>) steps (vc_actor c) event (vc_key c) now)))"

definition svc_approve ::
  "campaign_env \<Rightarrow> 's campaign_repo \<Rightarrow> instant \<Rightarrow> VersionedCommand \<Rightarrow> ('s, camp_error, MutationResponse) tx" where
  "svc_approve E R now c = changeApproval E R now ''approve'' c ApprovalDraft ApprovalApproved ''approved''"

definition svc_reject ::
  "campaign_env \<Rightarrow> 's campaign_repo \<Rightarrow> instant \<Rightarrow> VersionedCommand \<Rightarrow> ('s, camp_error, MutationResponse) tx" where
  "svc_reject E R now c = changeApproval E R now ''reject'' c ApprovalDraft ApprovalRejected ''rejected''"

definition svc_pause ::
  "campaign_env \<Rightarrow> 's campaign_repo \<Rightarrow> instant \<Rightarrow> VersionedCommand \<Rightarrow> ('s, camp_error, MutationResponse) tx" where
  "svc_pause E R now c =
     (if \<not> validVersioned (vc_code c) (vc_version c) (vc_actor c) (vc_key c) \<or> \<not> cr_ready R
      then fail (invalidOrUnavailable (cr_ready R))
      else mutate E R now ''pause'' (vc_actor c) (vc_key c) (versioned_payload E c)
        (and_then (lock_version R (vc_code c) (vc_version c)) (\<lambda>(cur, steps).
          if cm_runtime cur \<noteq> RuntimePlanned then fail CErrStateConflict
          else saveAudit R (cur\<lparr>cm_runtime := RuntimePaused\<rparr>) steps (vc_actor c) ''paused'' (vc_key c) now)))"

text \<open>
  Planning one campaign: the body of \<^verbatim>\<open>start\<close>, and of \<^verbatim>\<open>startDirect\<close> for a batch. The two
  bodies in the code differ in the audit event.
\<close>

definition startDirect ::
  "'s campaign_repo \<Rightarrow> string \<Rightarrow> BatchStartItem \<Rightarrow> int \<Rightarrow> string \<Rightarrow> instant \<Rightarrow> command_operation \<Rightarrow>
     ('s, camp_error, MutationResponse) tx" where
  "startDirect R event item actor key now op =
     and_then (lock_version R (bi_code item) (bi_version item)) (\<lambda>(cur, steps).
       if cm_approval cur \<noteq> ApprovalApproved \<or> cm_runtime cur \<noteq> RuntimeIdle \<or> steps = []
       then fail CErrStateConflict
       else (let c = cur\<lparr>cm_runtime := RuntimePlanned, cm_updated_by := actor, cm_updated := now,
                         cm_version := inc64 (cm_version cur)\<rparr> in
         and_then (cr_plan R c (int (length steps)) op now) (\<lambda>(plan, cmd).
           if \<not> validLocalPlanCommand plan cmd c (int (length steps)) op now then fail CErrUnavailable
           else and_then (cr_save R c steps) (\<lambda>_.
                and_then (cr_append R \<lparr>av_type = event, av_code = cm_code c, av_actor = actor,
                    av_key = key, av_at = now\<rparr>) (\<lambda>_.
                ret \<lparr>mr_campaign = c, mr_command = Some cmd, mr_plan = Some plan,
                     mr_projection = local_projection\<rparr>)))))"

definition svc_start ::
  "campaign_env \<Rightarrow> 's campaign_repo \<Rightarrow> instant \<Rightarrow> VersionedCommand \<Rightarrow> ('s, camp_error, MutationResponse) tx" where
  "svc_start E R now c =
     (if \<not> validVersioned (vc_code c) (vc_version c) (vc_actor c) (vc_key c) \<or> \<not> cr_ready R
      then fail (invalidOrUnavailable (cr_ready R))
      else mutate E R now ''start'' (vc_actor c) (vc_key c) (versioned_payload E c)
        (startDirect R ''cloud_campaign.started'' \<lparr>bi_code = vc_code c, bi_version = vc_version c\<rparr>
          (vc_actor c) (vc_key c) now CommandStart))"

section \<open>Batches\<close>

text \<open>
  The loop over the items: an item that fails keeps what it wrote before failing, and the
  transaction fails at the end when an item failed for a reason other than its state.
\<close>

definition skippable :: "camp_error \<Rightarrow> bool" where
  "skippable e \<longleftrightarrow> e = CErrStateConflict \<or> e = CErrConflict \<or> e = CErrNotFound"

fun batch_items ::
  "'s campaign_repo \<Rightarrow> int \<Rightarrow> string \<Rightarrow> instant \<Rightarrow> BatchStartItem list \<Rightarrow> BatchStartResponse \<Rightarrow> 's \<Rightarrow>
     BatchStartResponse \<times> 's" where
  "batch_items R actor key now [] out s = (out, s)"
| "batch_items R actor key now (item # items) out s =
     (case startDirect R ''cloud_campaign.batch_started'' item actor key now CommandBatchStart s of
        (Inr one, s') \<Rightarrow> batch_items R actor key now items (out\<lparr>br_started := br_started out @ [one]\<rparr>) s'
      | (Inl e, s') \<Rightarrow>
          if skippable e
          then batch_items R actor key now items (out\<lparr>br_skipped := br_skipped out @ [item]\<rparr>) s'
          else batch_items R actor key now items (out\<lparr>br_failed := br_failed out @ [item]\<rparr>) s')"

definition empty_batch :: BatchStartResponse where
  "empty_batch = \<lparr>br_started = [], br_skipped = [], br_failed = [], br_projection = local_projection\<rparr>"

definition svc_batch_start ::
  "campaign_env \<Rightarrow> 's campaign_repo \<Rightarrow> instant \<Rightarrow> BatchStartCommand \<Rightarrow> ('s, camp_error, BatchStartResponse) tx" where
  "svc_batch_start E R now c =
     (if \<not> validBatch c \<or> \<not> cr_ready R then fail (invalidOrUnavailable (cr_ready R))
      else if now = 0 then fail CErrUnavailable
      else classified (within (and_then
        (svc_reserve E R (bc_actor c) ''batch_start'' (bc_key c) (digest_of E (batch_payload E (bc_items c))) now)
        (\<lambda>(r, replay).
          if replay
          then (case ir_result r of
                  None \<Rightarrow> fail CErrUnavailable
                | Some result \<Rightarrow> (case or_batch result of None \<Rightarrow> fail CErrUnavailable | Some out \<Rightarrow> ret out))
          else (\<lambda>s.
            (let (out, s') = batch_items R (bc_actor c) (bc_key c) now (bc_items c) empty_batch s in
             if br_failed out \<noteq> [] then (Inl CErrUnavailable, s')
             else and_then
               (cr_complete R (ir_id r) \<lparr>or_mutation = None, or_delete = None, or_batch = Some out\<rparr>)
               (\<lambda>_. ret out) s'))))))"

section \<open>Deletion\<close>

definition svc_delete ::
  "campaign_env \<Rightarrow> 's campaign_repo \<Rightarrow> instant \<Rightarrow> VersionedCommand \<Rightarrow> ('s, camp_error, DeleteResponse) tx" where
  "svc_delete E R now c =
     (if \<not> validVersioned (vc_code c) (vc_version c) (vc_actor c) (vc_key c) \<or> \<not> cr_ready R
      then fail (invalidOrUnavailable (cr_ready R))
      else if now = 0 then fail CErrUnavailable
      else classified (within (and_then
        (svc_reserve E R (vc_actor c) ''delete'' (vc_key c) (digest_of E (versioned_payload E c)) now)
        (\<lambda>(r, replay).
          if replay
          then (case ir_result r of
                  None \<Rightarrow> fail CErrUnavailable
                | Some result \<Rightarrow> (case or_delete result of None \<Rightarrow> fail CErrUnavailable | Some out \<Rightarrow> ret out))
          else and_then (lock_version R (vc_code c) (vc_version c)) (\<lambda>(cur, _).
            if \<not> editable cur then fail CErrStateConflict
            else and_then (cr_delete R (cm_code cur) (cm_version cur)) (\<lambda>_.
                 and_then (cr_append R \<lparr>av_type = ''cloud_campaign.deleted'', av_code = cm_code cur,
                     av_actor = vc_actor c, av_key = vc_key c, av_at = now\<rparr>) (\<lambda>_.
                 let out = \<lparr>dr_code = cm_code cur, dr_deleted = True, dr_projection = local_projection\<rparr> in
                 and_then (cr_complete R (ir_id r) \<lparr>or_mutation = None, or_delete = Some out, or_batch = None\<rparr>)
                   (\<lambda>_. ret out))))))))"

section \<open>Calls\<close>

text \<open>The mutating calls of the application, and what one of them does to the store.\<close>

datatype camp_call =
    CallAddStep StepCreateCommand
  | CallUpdateStep StepUpdateCommand
  | CallDeleteStep StepDeleteCommand
  | CallApprove VersionedCommand
  | CallReject VersionedCommand
  | CallPause VersionedCommand
  | CallStart VersionedCommand
  | CallBatchStart BatchStartCommand
  | CallDelete VersionedCommand

definition mutation_result :: "MutationResponse \<Rightarrow> OperationResult" where
  "mutation_result m = \<lparr>or_mutation = Some m, or_delete = None, or_batch = None\<rparr>"

definition as_mutation :: "('s, camp_error, MutationResponse) tx \<Rightarrow> ('s, camp_error, OperationResult) tx" where
  "as_mutation m = and_then m (\<lambda>v. ret (mutation_result v))"

fun run_call ::
  "campaign_env \<Rightarrow> 's campaign_repo \<Rightarrow> instant \<Rightarrow> camp_call \<Rightarrow> ('s, camp_error, OperationResult) tx" where
  "run_call E R now (CallAddStep c) = as_mutation (svc_add_step E R now c)"
| "run_call E R now (CallUpdateStep c) = as_mutation (svc_update_step E R now c)"
| "run_call E R now (CallDeleteStep c) = as_mutation (svc_delete_step E R now c)"
| "run_call E R now (CallApprove c) = as_mutation (svc_approve E R now c)"
| "run_call E R now (CallReject c) = as_mutation (svc_reject E R now c)"
| "run_call E R now (CallPause c) = as_mutation (svc_pause E R now c)"
| "run_call E R now (CallStart c) = as_mutation (svc_start E R now c)"
| "run_call E R now (CallBatchStart c) = and_then (svc_batch_start E R now c)
     (\<lambda>v. ret \<lparr>or_mutation = None, or_delete = None, or_batch = Some v\<rparr>)"
| "run_call E R now (CallDelete c) = and_then (svc_delete E R now c)
     (\<lambda>v. ret \<lparr>or_mutation = None, or_delete = Some v, or_batch = None\<rparr>)"

end
