(* ===== verification/CampaignImport.thy ===== *)
theory CampaignImport
  imports CampaignService
begin

text \<open>
  The importer of historical campaign definitions
  (\<^verbatim>\<open>internal/campaign/historical_definition.go\<close>) and its store
  (\<^verbatim>\<open>internal/campaign/store/historical_definition.go\<close>). The journal belongs to the
  migration owner and is an argument: what it holds under a source identifier, and what
  recording a receipt answers. The caller's transaction is \<open>within\<close>, around the import.
\<close>

record HistoricalDefinition =
  hd_source :: string
  hd_digest :: string
  hd_approval :: string
  hd_runtime :: string
  hd_campaign :: Campaign
  hd_steps :: "Step list"

record HistoricalReceipt =
  hr_source :: string
  hr_digest :: string
  hr_approval :: string
  hr_runtime :: string
  hr_target :: string
  hr_replayed :: bool

record historical_journal =
  hj_load :: "string \<Rightarrow> camp_error + HistoricalReceipt option"
  hj_record :: "HistoricalReceipt \<Rightarrow> camp_error + unit"

definition validSourceStatus :: "string \<Rightarrow> bool" where
  "validSourceStatus v \<longleftrightarrow> v \<noteq> [] \<and> length v \<le> 128 \<and> trim_space v = v"

definition validHistoricalDefinition :: "HistoricalDefinition \<Rightarrow> bool" where
  "validHistoricalDefinition d \<longleftrightarrow>
     validSourceStatus (hd_source d) \<and> validSourceStatus (hd_approval d) \<and>
     validSourceStatus (hd_runtime d) \<and> cm_version (hd_campaign d) = 1 \<and>
     validCampaign (hd_campaign d) \<and> validSteps (hd_steps d)"

definition sameHistoricalDefinition :: "HistoricalReceipt \<Rightarrow> HistoricalDefinition \<Rightarrow> bool" where
  "sameHistoricalDefinition r d \<longleftrightarrow>
     hr_source r = hd_source d \<and> hr_digest r = hd_digest d \<and> hr_approval r = hd_approval d \<and>
     hr_runtime r = hd_runtime d \<and> hr_target r = cm_code (hd_campaign d)"

section \<open>The store\<close>

text \<open>
  The header is inserted as rejected, paused and version 1, whatever the definition says.
  A second row with the code breaks the primary key, which the store reports as a conflict.
\<close>

definition InsertHistoricalCampaignDefinition :: "Campaign \<Rightarrow> unit camp_tx" where
  "InsertHistoricalCampaignDefinition c = (\<lambda>db.
     if find_campaign (cm_code c) db \<noteq> None then (Inl CErrHistoricalConflict, db)
     else if cm_code c = [] \<or> cm_name c = [] \<or> \<not> pg_text (cm_code c) \<or> \<not> pg_text (cm_name c)
     then (Inl CErrDependency, db)
     else (Inr (), db\<lparr>cloud_campaigns := cloud_campaigns db @ [c\<lparr>cm_approval := ApprovalRejected,
        cm_runtime := RuntimePaused, cm_version := 1, cm_created := pg_micros (cm_created c),
        cm_updated := pg_micros (cm_updated c)\<rparr>]\<rparr>))"

definition InsertHistoricalCampaignStep :: "string \<Rightarrow> Step \<Rightarrow> unit camp_tx" where
  "InsertHistoricalCampaignStep code s = (\<lambda>db.
     if list_ex (\<lambda>r. fst r = code \<and> st_index (snd r) = st_index s) (campaign_steps db)
     then (Inl CErrHistoricalConflict, db) else insert_step code s db)"

fun insert_historical_steps :: "string \<Rightarrow> Step list \<Rightarrow> unit camp_tx" where
  "insert_historical_steps code [] = ret ()"
| "insert_historical_steps code (s # ss) =
     and_then (InsertHistoricalCampaignStep code s) (\<lambda>_. insert_historical_steps code ss)"

definition InsertHistoricalDefinition :: "HistoricalDefinition \<Rightarrow> unit camp_tx" where
  "InsertHistoricalDefinition d =
     (if cm_approval (hd_campaign d) \<noteq> ApprovalRejected \<or> cm_runtime (hd_campaign d) \<noteq> RuntimePaused \<or>
         cm_version (hd_campaign d) \<noteq> 1
      then fail CErrUnavailable
      else and_then (InsertHistoricalCampaignDefinition (hd_campaign d)) (\<lambda>_.
           insert_historical_steps (cm_code (hd_campaign d)) (hd_steps d)))"

section \<open>The import\<close>

definition import_receipt :: "HistoricalDefinition \<Rightarrow> HistoricalReceipt" where
  "import_receipt d = \<lparr>hr_source = hd_source d, hr_digest = hd_digest d, hr_approval = hd_approval d,
     hr_runtime = hd_runtime d, hr_target = cm_code (hd_campaign d), hr_replayed = False\<rparr>"

definition historical_import :: "historical_journal \<Rightarrow> HistoricalDefinition \<Rightarrow> HistoricalReceipt camp_tx" where
  "historical_import J d =
     (if \<not> validHistoricalDefinition d then fail CErrUnavailable
      else (case hj_load J (hd_source d) of
        Inl e \<Rightarrow> fail e
      | Inr (Some existing) \<Rightarrow>
          if \<not> sameHistoricalDefinition existing d then fail CErrHistoricalConflict
          else ret (existing\<lparr>hr_replayed := True\<rparr>)
      | Inr None \<Rightarrow>
          (let stored = d\<lparr>hd_campaign := (hd_campaign d)\<lparr>cm_approval := ApprovalRejected,
                           cm_runtime := RuntimePaused, cm_version := 1\<rparr>\<rparr> in
           and_then (InsertHistoricalDefinition stored) (\<lambda>_.
           and_then (liftE (hj_record J (import_receipt d))) (\<lambda>_.
           ret (import_receipt d))))))"

end
