(* ===== verification/CampaignContract.thy ===== *)
theory CampaignContract
  imports CampaignImport
begin

text \<open>
  What the campaign service relies on: the facts a store keeps (\<open>campaign_facts\<close>), the
  contract of the repository and audit interfaces as the locale \<open>campaign_contract\<close>, and its
  interpretation on the PostgreSQL store. \<open>stored\<close> is the precision of the store's
  timestamps and \<open>audit\<close> the form in which it keeps an audit event.
\<close>

section \<open>Facts\<close>

record campaign_facts =
  cf_campaigns :: "string \<Rightarrow> (Campaign \<times> Step list) option"
  cf_plans :: "Plan list"
  cf_commands :: "Command list"
  cf_receipts :: "int \<times> string \<Rightarrow> IdempotencyRecord option"
  cf_events :: "event_row list"

definition same_identity :: "Campaign \<Rightarrow> Campaign \<Rightarrow> bool" where
  "same_identity c c' \<longleftrightarrow> cm_code c' = cm_code c \<and> cm_name c' = cm_name c \<and>
     cm_created_by c' = cm_created_by c \<and> cm_created c' = cm_created c"

definition put_campaign :: "Campaign \<Rightarrow> Step list \<Rightarrow> campaign_facts \<Rightarrow> campaign_facts" where
  "put_campaign c steps f = f\<lparr>cf_campaigns := (cf_campaigns f)(cm_code c \<mapsto> (c, steps))\<rparr>"

definition log_event :: "event_row \<Rightarrow> campaign_facts \<Rightarrow> campaign_facts" where
  "log_event e f = (if e \<in> set (cf_events f) then f else f\<lparr>cf_events := cf_events f @ [e]\<rparr>)"

locale campaign_contract =
  fixes R :: "'s campaign_repo"
    and facts :: "'s \<Rightarrow> campaign_facts"
    and inv :: "'s \<Rightarrow> bool"
    and stored :: "instant \<Rightarrow> instant"
    and audit :: "AuditEvent \<Rightarrow> event_row"
  assumes ready: "cr_ready R"
    and lock: "inv s \<Longrightarrow> cr_lock R code s =
        (case cf_campaigns (facts s) code of None \<Rightarrow> (Inl CErrNotFound, s) | Some x \<Rightarrow> (Inr x, s))"
    and get: "inv s \<Longrightarrow> cr_get R code s =
        (case cf_campaigns (facts s) code of None \<Rightarrow> (Inl CErrNotFound, s) | Some x \<Rightarrow> (Inr x, s))"
    and keyed: "inv s \<Longrightarrow> cf_campaigns (facts s) code = Some (c, steps) \<Longrightarrow>
        cm_code c = code \<and> 0 < cm_version c"
    and save: "\<lbrakk>inv s; cf_campaigns (facts s) (cm_code c) = Some (old, steps0); same_identity old c;
        cm_version c = inc64 (cm_version old); sorted (map st_index steps); cr_save R c steps s = (Inr u, s')\<rbrakk> \<Longrightarrow>
        inv s' \<and> 0 < cm_version c \<and>
        facts s' = put_campaign (c\<lparr>cm_updated := stored (cm_updated c)\<rparr>) steps (facts s)"
    and delete: "\<lbrakk>inv s; cf_campaigns (facts s) code = Some (c, steps); editable c;
        cr_delete R code (cm_version c) s = (Inr u, s')\<rbrakk> \<Longrightarrow>
        inv s' \<and> code \<notin> lp_code ` set (cf_plans (facts s)) \<and>
        facts s' = (facts s)\<lparr>cf_campaigns := (cf_campaigns (facts s))(code := None)\<rparr>"
    and plan: "\<lbrakk>inv s; cr_plan R c count op now s = (Inr (p, k), s')\<rbrakk> \<Longrightarrow>
        inv s' \<and> validLocalPlanCommand p k c count op now \<and>
        facts s' = (facts s)\<lparr>cf_plans := cf_plans (facts s) @ [p\<lparr>lp_created := stored now\<rparr>],
                            cf_commands := cf_commands (facts s) @ [k\<lparr>lc_created := stored now\<rparr>]\<rparr>"
    and reserve: "inv s \<Longrightarrow> cf_receipts (facts s) (rv_actor x, rv_key x) = None \<Longrightarrow>
        \<exists>r s'. cr_reserve R x s = (Inr (r, False), s') \<and> inv s' \<and>
          ir_actor r = rv_actor x \<and> ir_key r = rv_key x \<and> ir_operation r = rv_operation x \<and>
          ir_payload r = rv_payload x \<and> \<not> ir_completed r \<and>
          facts s' = (facts s)\<lparr>cf_receipts := (cf_receipts (facts s))((rv_actor x, rv_key x) \<mapsto> r)\<rparr>"
    and reserved: "inv s \<Longrightarrow> cf_receipts (facts s) (rv_actor x, rv_key x) = Some r \<Longrightarrow>
        cr_reserve R x s =
          (if ir_operation r \<noteq> rv_operation x \<or> ir_payload r \<noteq> rv_payload x
           then (Inl CErrIdempotencyConflict, s)
           else if \<not> ir_completed r \<or> ir_result r = None then (Inl CErrUnavailable, s)
           else (Inr (r, True), s))"
    and complete: "\<lbrakk>inv s; cf_receipts (facts s) (a, key) = Some r; ir_actor r = a; ir_key r = key;
        \<not> ir_completed r; cr_complete R (ir_id r) out s = (Inr u, s')\<rbrakk> \<Longrightarrow>
        inv s' \<and> facts s' = (facts s)\<lparr>cf_receipts := (cf_receipts (facts s))((a, key) \<mapsto>
          r\<lparr>ir_completed := True, ir_result := Some out\<rparr>)\<rparr>"
    and append: "inv s \<Longrightarrow> cr_append R e s = (Inr u, s') \<Longrightarrow>
        inv s' \<and> facts s' = log_event (audit e) (facts s)"
    and save_error: "\<lbrakk>inv s; cf_campaigns (facts s) (cm_code c) = Some (old, steps0);
        cm_version c = inc64 (cm_version old); cr_save R c steps s = (Inl err, s')\<rbrakk> \<Longrightarrow> \<not> skippable err"
    and plan_error: "inv s \<Longrightarrow> cr_plan R c count op now s = (Inl err, s') \<Longrightarrow> \<not> skippable err"
    and append_error: "inv s \<Longrightarrow> cr_append R e s = (Inl err, s') \<Longrightarrow> \<not> skippable err"
begin

lemma lock_version_InrD:
  assumes "inv s" and "lock_version R code v s = (Inr (cur, steps), s')"
  shows "s' = s \<and> cf_campaigns (facts s) code = Some (cur, steps) \<and> cm_version cur = v \<and>
    cm_code cur = code"
  using assms keyed [OF assms(1), of code cur steps]
  by (auto simp: lock_version_def tx_iff lock split: option.splits if_splits)

lemma lock_version_eq:
  assumes "inv s"
  shows "lock_version R code v s = (case cf_campaigns (facts s) code of
      None \<Rightarrow> (Inl CErrNotFound, s)
    | Some (cur, steps) \<Rightarrow> if cm_version cur \<noteq> v then (Inl CErrConflict, s) else (Inr (cur, steps), s))"
  using assms by (auto simp: lock_version_def and_then_def lock split: option.splits prod.splits)

end

section \<open>Facts of the PostgreSQL store\<close>

definition campaign_at :: "camp_db \<Rightarrow> string \<Rightarrow> (Campaign \<times> Step list) option" where
  "campaign_at db code = map_option (\<lambda>c. (c, steps_of code db)) (find_campaign code db)"

definition pg_facts :: "camp_db \<Rightarrow> campaign_facts" where
  "pg_facts db = \<lparr>cf_campaigns = campaign_at db, cf_plans = local_plans db,
     cf_commands = local_commands db, cf_receipts = (\<lambda>(a, k). find_receipt a k db),
     cf_events = map (\<lambda>r. r\<lparr>ev_id := 0\<rparr>) (event_log db)\<rparr>"

lemma find_campaign_Some:
  "find_campaign code db = Some c \<Longrightarrow> c \<in> set (cloud_campaigns db) \<and> cm_code c = code"
  by (auto simp: find_campaign_def find_Some_iff)

lemma find_campaign_None:
  "find_campaign code db = None \<longleftrightarrow> code \<notin> set (map cm_code (cloud_campaigns db))"
  by (auto simp: find_campaign_def find_None_iff)

lemma find_campaign_in:
  assumes "distinct (map cm_code (cloud_campaigns db))" and "c \<in> set (cloud_campaigns db)"
  shows "find_campaign (cm_code c) db = Some c"
proof (cases "find_campaign (cm_code c) db")
  case None
  with assms(2) show ?thesis by (auto simp: find_campaign_None)
next
  case (Some c')
  with find_campaign_Some [OF Some] assms show ?thesis
    by (metis inj_on_def distinct_map)
qed

lemma same_code_same_row:
  assumes "camp_db_ok db" and "c \<in> set (cloud_campaigns db)" and "c' \<in> set (cloud_campaigns db)"
    and "cm_code c = cm_code c'"
  shows "c = c'"
  using assms by (auto simp: camp_db_ok_def distinct_map dest: inj_onD)

lemma insert_step_InrD:
  "insert_step code s db = (Inr u, db') \<Longrightarrow>
     db' = db\<lparr>campaign_steps := campaign_steps db @ [(code, s)]\<rparr> \<and> find_campaign code db \<noteq> None \<and>
     pg_text (st_content s) \<and> (code, st_index s) \<notin> (\<lambda>r. (fst r, st_index (snd r))) ` set (campaign_steps db)"
  by (auto simp: insert_step_def list_ex_iff split: if_splits)

lemma insert_steps_InrD:
  assumes "insert_steps code ss db = (Inr u, db')"
    and "distinct (map (\<lambda>r. (fst r, st_index (snd r))) (campaign_steps db))"
    and "find_campaign code db \<noteq> None"
  shows "db' = db\<lparr>campaign_steps := campaign_steps db @ map (Pair code) ss\<rparr> \<and>
    list_all (\<lambda>s. pg_text (st_content s)) ss \<and>
    distinct (map (\<lambda>r. (fst r, st_index (snd r))) (campaign_steps db'))"
  using assms
proof (induction ss arbitrary: db)
  case (Cons s ss)
  from Cons.prems(1) obtain db1 where one: "insert_step code s db = (Inr (), db1)"
    and rest: "insert_steps code ss db1 = (Inr u, db')"
    by (auto simp: tx_iff)
  note s = insert_step_InrD [OF one]
  have "distinct (map (\<lambda>r. (fst r, st_index (snd r))) (campaign_steps db1))"
    using s Cons.prems(2) by (auto simp: image_iff)
  moreover have "find_campaign code db1 \<noteq> None"
    using s by (auto simp: find_campaign_def)
  ultimately have ih: "db' = db1\<lparr>campaign_steps := campaign_steps db1 @ map (Pair code) ss\<rparr>"
    "list_all (\<lambda>s. pg_text (st_content s)) ss"
    "distinct (map (\<lambda>r. (fst r, st_index (snd r))) (campaign_steps db'))"
    using Cons.IH [OF rest] by blast+
  from ih(1,2) s have "db' = db\<lparr>campaign_steps := campaign_steps db @ map (Pair code) (s # ss)\<rparr>"
    "list_all (\<lambda>s. pg_text (st_content s)) (s # ss)"
    by simp_all
  with ih(3) show ?case by blast
qed simp

text \<open>Saving: the effect on the two tables when it succeeds.\<close>

lemma pg_save_InrD:
  assumes ok: "camp_db_ok db" and save: "pg_save c steps db = (Inr u, db')"
  shows "\<exists>row \<in> set (cloud_campaigns db). cm_code row = cm_code c \<and> cm_version row = dec64 (cm_version c) \<and>
      approval_valid (cm_approval c) \<and> runtime_valid (cm_runtime c) \<and> 0 < cm_version c \<and>
      list_all (\<lambda>s. pg_text (st_content s)) steps \<and>
      distinct (map (\<lambda>r. (fst r, st_index (snd r))) (campaign_steps db')) \<and>
      db' = db\<lparr>cloud_campaigns := map (\<lambda>row. if cm_code row = cm_code c then saved_row c row else row) (cloud_campaigns db),
        campaign_steps := filter (\<lambda>r. fst r \<noteq> cm_code c) (campaign_steps db) @ map (Pair (cm_code c)) steps\<rparr>"
proof -
  let ?hit = "\<lambda>row. cm_code row = cm_code c \<and> cm_version row = dec64 (cm_version c)"
  let ?db1 = "db\<lparr>cloud_campaigns := map (\<lambda>row. if ?hit row then saved_row c row else row) (cloud_campaigns db)\<rparr>"
  let ?db2 = "?db1\<lparr>campaign_steps := filter (\<lambda>r. fst r \<noteq> cm_code c) (campaign_steps db)\<rparr>"
  from save have hit: "list_ex ?hit (cloud_campaigns db)" "approval_valid (cm_approval c)"
      "runtime_valid (cm_runtime c)" "0 < cm_version c"
    and ins: "insert_steps (cm_code c) steps ?db2 = (Inr u, db')"
    by (auto simp: pg_save_def tx_iff update_campaign_def delete_steps_def Let_def split: if_splits)
  from hit(1) obtain row where row: "row \<in> set (cloud_campaigns db)" "?hit row"
    by (auto simp: list_ex_iff)
  have same: "?hit row' = (cm_code row' = cm_code c)" if "row' \<in> set (cloud_campaigns db)" for row'
    using that row same_code_same_row [OF ok that row(1)] by auto
  have rows: "map (\<lambda>row. if ?hit row then saved_row c row else row) (cloud_campaigns db) =
      map (\<lambda>row. if cm_code row = cm_code c then saved_row c row else row) (cloud_campaigns db)"
    using same by (intro map_cong) auto
  have "distinct (map (\<lambda>r. (fst r, st_index (snd r))) (campaign_steps ?db2))"
    using ok by (simp add: camp_db_ok_def distinct_map_filter)
  moreover have "find_campaign (cm_code c) ?db2 \<noteq> None"
    using row by (simp add: find_campaign_None o_def saved_row_def image_iff) (rule bexI [of _ row], simp_all)
  ultimately have "db' = ?db2\<lparr>campaign_steps := campaign_steps ?db2 @ map (Pair (cm_code c)) steps\<rparr>"
    "list_all (\<lambda>s. pg_text (st_content s)) steps"
    "distinct (map (\<lambda>r. (fst r, st_index (snd r))) (campaign_steps db'))"
    using insert_steps_InrD [OF ins] by blast+
  with row hit rows show ?thesis by (intro bexI [of _ row]) simp_all
qed

lemma steps_of_replaced:
  assumes "sorted (map st_index steps)"
  shows "sort_key st_index (map snd (filter (\<lambda>r. fst r = code)
      (filter (\<lambda>r. fst r \<noteq> code') rows @ map (Pair code') steps))) =
    (if code = code' then steps else sort_key st_index (map snd (filter (\<lambda>r. fst r = code) rows)))"
proof (cases "code = code'")
  case True
  have "filter (\<lambda>r. fst r = code') (map (Pair code') steps) = map (Pair code') steps"
    by (simp add: filter_map o_def)
  moreover have "sort_key st_index steps = steps"
    using assms by (simp add: sort_key_id_if_sorted)
  ultimately show ?thesis using True by (simp add: o_def)
next
  case False
  then have "filter (\<lambda>r. fst r = code) (map (Pair code') steps) = []"
    by (simp add: filter_map o_def)
  moreover have "filter (\<lambda>r. fst r = code) (filter (\<lambda>r. fst r \<noteq> code') rows) = filter (\<lambda>r. fst r = code) rows"
    using False by (simp add: filter_filter) (rule filter_cong, auto)
  ultimately show ?thesis using False by simp
qed

section \<open>The store honours the contract\<close>

lemma pg_get_eq: "pg_get code db =
    (case campaign_at db code of None \<Rightarrow> (Inl CErrNotFound, db) | Some x \<Rightarrow> (Inr x, db))"
  by (simp add: pg_get_def campaign_at_def split: option.split)

lemma pg_keyed:
  assumes "camp_db_ok db" and "campaign_at db code = Some (c, steps)"
  shows "cm_code c = code \<and> 0 < cm_version c"
  using assms find_campaign_Some [of code db c]
  by (auto simp: campaign_at_def camp_db_ok_def list_all_iff)

lemma pg_version_bound:
  assumes "camp_db_ok db" and "campaign_at db code = Some (c, steps)"
  shows "cm_version c \<le> max_int64"
  using assms find_campaign_Some [of code db c]
  by (auto simp: campaign_at_def camp_db_ok_def list_all_iff)

lemma pg_save_law:
  assumes ok: "camp_db_ok db" and at: "campaign_at db (cm_code c) = Some (old, steps0)"
    and same: "same_identity old c" and v: "cm_version c = inc64 (cm_version old)"
    and sorted: "sorted (map st_index steps)" and save: "pg_save c steps db = (Inr u, db')"
  shows "camp_db_ok db' \<and> 0 < cm_version c \<and>
    pg_facts db' = put_campaign (c\<lparr>cm_updated := pg_micros (cm_updated c)\<rparr>) steps (pg_facts db)"
proof -
  let ?f = "\<lambda>row. if cm_code row = cm_code c then saved_row c row else row"
  from pg_save_InrD [OF ok save] obtain row where
    row: "approval_valid (cm_approval c)" "runtime_valid (cm_runtime c)" "0 < cm_version c"
      "list_all (\<lambda>s. pg_text (st_content s)) steps"
      "distinct (map (\<lambda>r. (fst r, st_index (snd r))) (campaign_steps db'))"
    and db': "db' = db\<lparr>cloud_campaigns := map ?f (cloud_campaigns db),
        campaign_steps := filter (\<lambda>r. fst r \<noteq> cm_code c) (campaign_steps db) @ map (Pair (cm_code c)) steps\<rparr>"
    by blast
  have codes: "map cm_code (map ?f (cloud_campaigns db)) = map cm_code (cloud_campaigns db)"
    by (simp add: o_def saved_row_def)
  from at have old: "find_campaign (cm_code c) db = Some old" by (simp add: campaign_at_def)
  have "saved_row c old = c\<lparr>cm_updated := pg_micros (cm_updated c)\<rparr>"
    using same by (simp add: saved_row_def same_identity_def)
  then have find: "find_campaign code db' = (if code = cm_code c
      then Some (c\<lparr>cm_updated := pg_micros (cm_updated c)\<rparr>) else find_campaign code db)" for code
  proof -
    have "find_campaign code db' = map_option ?f (find_campaign code db)"
      unfolding db' find_campaign_def by (simp add: find_map_same saved_row_def)
    then show ?thesis
      using old \<open>saved_row c old = _\<close> find_campaign_Some [of code db]
      by (cases "find_campaign code db") auto
  qed
  have steps: "steps_of code db' = (if code = cm_code c then steps else steps_of code db)" for code
  proof -
    have rows: "campaign_steps db' =
        filter (\<lambda>r. fst r \<noteq> cm_code c) (campaign_steps db) @ map (Pair (cm_code c)) steps"
      by (simp add: db')
    show ?thesis unfolding steps_of_def rows by (rule steps_of_replaced [OF sorted])
  qed
  have "campaign_at db' = (campaign_at db)(cm_code c \<mapsto> (c\<lparr>cm_updated := pg_micros (cm_updated c)\<rparr>, steps))"
    by (rule ext) (simp add: campaign_at_def find steps)
  then have "pg_facts db' = put_campaign (c\<lparr>cm_updated := pg_micros (cm_updated c)\<rparr>) steps (pg_facts db)"
    by (simp add: pg_facts_def put_campaign_def) (simp add: db' find_receipt_def)
  moreover have "camp_db_ok db'"
  proof -
    have bound: "cm_version c \<le> max_int64"
      using v row(3) pg_version_bound [OF ok at] by (auto simp: inc64_def max_int64_def split: if_splits)
    have rows: "list_all (\<lambda>c. approval_valid (cm_approval c) \<and> runtime_valid (cm_runtime c) \<and> 0 < cm_version c \<and>
        cm_version c \<le> max_int64) (cloud_campaigns db')"
      using ok row(1,2,3) bound by (auto simp: db' camp_db_ok_def list_all_iff saved_row_def)
    have codes': "map cm_code (cloud_campaigns db') = map cm_code (cloud_campaigns db)"
      using codes by (simp add: db')
    have at_code: "cm_code c \<in> set (map cm_code (cloud_campaigns db))"
      using old find_campaign_None [of "cm_code c" db] by auto
    have "list_all (\<lambda>r. fst r \<in> set (map cm_code (cloud_campaigns db)) \<and> pg_text (st_content (snd r)))
        (campaign_steps db')"
      using ok row(4) at_code by (auto simp: camp_db_ok_def db' list_all_iff)
    with rows row(5) ok show ?thesis
      unfolding camp_db_ok_def codes' by (simp add: db')
  qed
  ultimately show ?thesis using row(3) by blast
qed

lemma pg_delete_law:
  assumes ok: "camp_db_ok db" and at: "campaign_at db code = Some (c, steps)"
    and del: "pg_delete code (cm_version c) db = (Inr u, db')"
  shows "camp_db_ok db' \<and> code \<notin> lp_code ` set (local_plans db) \<and>
    pg_facts db' = (pg_facts db)\<lparr>cf_campaigns := (campaign_at db)(code := None)\<rparr>"
proof -
  let ?hit = "\<lambda>row. cm_code row = code \<and> cm_version row = cm_version c \<and>
    cm_approval row = ApprovalDraft \<and> cm_runtime row = RuntimeIdle"
  from del have hit: "list_ex ?hit (cloud_campaigns db)" and free: "\<not> referenced code db"
    and db': "db' = db\<lparr>cloud_campaigns := filter (\<lambda>row. \<not> ?hit row) (cloud_campaigns db),
      campaign_steps := filter (\<lambda>r. fst r \<noteq> code) (campaign_steps db)\<rparr>"
    by (auto simp: pg_delete_def Let_def split: if_splits)
  from hit obtain row where row: "row \<in> set (cloud_campaigns db)" "?hit row"
    by (auto simp: list_ex_iff)
  have same: "?hit row' = (cm_code row' = code)" if "row' \<in> set (cloud_campaigns db)" for row'
    using row same_code_same_row [OF ok that row(1)] by auto
  have rows: "cloud_campaigns db' = filter (\<lambda>row. cm_code row \<noteq> code) (cloud_campaigns db)"
    unfolding db' using same by (auto intro: filter_cong)
  have find: "find_campaign code' db' = (if code' = code then None else find_campaign code' db)" for code'
  proof (cases "code' = code")
    case False
    then have "List.find (\<lambda>c. cm_code c = code') (filter (\<lambda>row. cm_code row \<noteq> code) (cloud_campaigns db)) =
        List.find (\<lambda>c. cm_code c = code') (cloud_campaigns db)"
      by (intro find_filter_same) auto
    with False show ?thesis by (simp add: find_campaign_def rows)
  qed (auto simp: find_campaign_None rows)
  have steps: "steps_of code' db' = steps_of code' db" if "code' \<noteq> code" for code'
  proof -
    have "filter (\<lambda>r. fst r = code') (filter (\<lambda>r. fst r \<noteq> code) (campaign_steps db)) =
        filter (\<lambda>r. fst r = code') (campaign_steps db)"
      using that by (simp add: filter_filter) (rule filter_cong, auto)
    then show ?thesis by (simp add: steps_of_def db')
  qed
  have "campaign_at db' = (campaign_at db)(code := None)"
    by (rule ext) (simp add: campaign_at_def find steps)
  then have "pg_facts db' = (pg_facts db)\<lparr>cf_campaigns := (campaign_at db)(code := None)\<rparr>"
    by (simp add: pg_facts_def) (simp add: db' find_receipt_def)
  moreover have "camp_db_ok db'"
  proof -
    have "distinct (map cm_code (cloud_campaigns db'))"
      "distinct (map (\<lambda>r. (fst r, st_index (snd r))) (campaign_steps db'))"
      using ok by (simp_all add: rows) (simp_all add: db' camp_db_ok_def distinct_map_filter)
    moreover have "set (map cm_code (cloud_campaigns db')) = set (map cm_code (cloud_campaigns db)) - {code}"
      by (auto simp: rows)
    moreover have "list_all (\<lambda>r. fst r \<noteq> code) (campaign_steps db')"
        "list_all (\<lambda>p. lp_code p \<noteq> code) (local_plans db)"
        "list_all (\<lambda>k. lc_code k \<noteq> code) (local_commands db)"
      using free by (auto simp: list_all_iff referenced_def db')
    moreover have "local_plans db' = local_plans db" "local_commands db' = local_commands db"
        "op_receipts db' = op_receipts db" "event_log db' = event_log db"
        "next_op_receipt db' = next_op_receipt db" "next_plan db' = next_plan db"
        "next_command db' = next_command db" "next_event db' = next_event db"
        "set (campaign_steps db') \<subseteq> set (campaign_steps db)"
        "set (cloud_campaigns db') \<subseteq> set (cloud_campaigns db)"
      by (simp_all add: db' filter_is_subset)
    ultimately show ?thesis
      using ok unfolding camp_db_ok_def list_all_iff by (simp only:) blast
  qed
  ultimately show ?thesis using free by (simp add: referenced_def)
qed

lemma pg_plan_law:
  assumes ok: "camp_db_ok db" and plan: "pg_plan c count op now db = (Inr (p, k), db')"
  shows "camp_db_ok db' \<and> validLocalPlanCommand p k c count op now \<and>
    pg_facts db' = (pg_facts db)\<lparr>cf_plans := local_plans db @ [p\<lparr>lp_created := pg_micros now\<rparr>],
                     cf_commands := local_commands db @ [k\<lparr>lc_created := pg_micros now\<rparr>]\<rparr>"
proof -
  from plan have at: "find_campaign (cm_code c) db \<noteq> None"
    and p: "p = \<lparr>lp_id = next_plan db, lp_code = cm_code c, lp_version = cm_version c, lp_steps = count, lp_created = now\<rparr>"
    and k: "k = \<lparr>lc_id = next_command db, lc_operation = op, lc_code = cm_code c, lc_plan = next_plan db,
              lc_real_send = False, lc_executed = False, lc_created = now\<rparr>"
    and db': "db' = db\<lparr>local_plans := local_plans db @ [p\<lparr>lp_created := pg_micros now\<rparr>],
              local_commands := local_commands db @ [k\<lparr>lc_created := pg_micros now\<rparr>],
              next_plan := next_plan db + 1, next_command := next_command db + 1\<rparr>"
    by (auto simp: pg_plan_def Let_def split: if_splits)
  have "campaign_at db' = campaign_at db"
    by (rule ext) (simp add: campaign_at_def db' find_campaign_def steps_of_def)
  moreover have "camp_db_ok db'"
    using ok at by (auto simp: camp_db_ok_def db' p k find_campaign_None)
  ultimately show ?thesis
    using ok by (auto simp: pg_facts_def db' validLocalPlanCommand_def p k find_receipt_def camp_db_ok_def)
qed

lemma campaign_at_cong:
  "cloud_campaigns db' = cloud_campaigns db \<Longrightarrow> campaign_steps db' = campaign_steps db \<Longrightarrow>
   campaign_at db' = campaign_at db"
  by (rule ext) (simp add: campaign_at_def find_campaign_def steps_of_def)

lemma pg_reserve_law:
  assumes ok: "camp_db_ok db" and fresh: "find_receipt (rv_actor x) (rv_key x) db = None"
  shows "\<exists>r db'. pg_reserve x db = (Inr (r, False), db') \<and> camp_db_ok db' \<and>
      ir_actor r = rv_actor x \<and> ir_key r = rv_key x \<and> ir_operation r = rv_operation x \<and>
      ir_payload r = rv_payload x \<and> \<not> ir_completed r \<and>
      pg_facts db' = (pg_facts db)\<lparr>cf_receipts := (cf_receipts (pg_facts db))((rv_actor x, rv_key x) \<mapsto> r)\<rparr>"
proof -
  let ?r = "\<lparr>ir_id = next_op_receipt db, ir_actor = rv_actor x, ir_operation = rv_operation x,
              ir_key = rv_key x, ir_payload = rv_payload x, ir_completed = False, ir_result = None\<rparr>"
  let ?db = "db\<lparr>op_receipts := op_receipts db @ [?r], next_op_receipt := next_op_receipt db + 1\<rparr>"
  have "find_receipt a k ?db = (if a = rv_actor x \<and> k = rv_key x then Some ?r else find_receipt a k db)" for a k
    using fresh by (auto simp: find_receipt_def find_append split: option.splits)
  then have "(\<lambda>(a, k). find_receipt a k ?db) = (\<lambda>(a, k). find_receipt a k db)((rv_actor x, rv_key x) \<mapsto> ?r)"
    by (auto simp: fun_eq_iff)
  moreover have "campaign_at ?db = campaign_at db" by (rule campaign_at_cong) simp_all
  moreover have "camp_db_ok ?db"
    using ok unfolding camp_db_ok_def by (auto simp: list_all_iff)
  moreover have "pg_reserve x db = (Inr (?r, False), ?db)"
    using fresh by (simp add: pg_reserve_def Let_def)
  ultimately show ?thesis by (intro exI [of _ ?r] exI [of _ ?db]) (simp add: pg_facts_def)
qed

lemma find_receipt_in:
  "find_receipt a k db = Some r \<Longrightarrow> r \<in> set (op_receipts db) \<and> ir_actor r = a \<and> ir_key r = k"
  by (auto simp: find_receipt_def find_Some_iff)

lemma pg_complete_law:
  assumes ok: "camp_db_ok db" and at: "find_receipt a key db = Some r"
    and open_: "\<not> ir_completed r" and run: "pg_complete (ir_id r) out db = (Inr u, db')"
  shows "camp_db_ok db' \<and> pg_facts db' = (pg_facts db)\<lparr>cf_receipts := (cf_receipts (pg_facts db))((a, key) \<mapsto>
      r\<lparr>ir_completed := True, ir_result := Some out\<rparr>)\<rparr>"
proof -
  let ?f = "\<lambda>r'. if ir_id r' = ir_id r \<and> \<not> ir_completed r' then r'\<lparr>ir_completed := True, ir_result := Some out\<rparr> else r'"
  from run have db': "db' = db\<lparr>op_receipts := map ?f (op_receipts db)\<rparr>"
    by (auto simp: pg_complete_def Let_def split: if_splits)
  note r = find_receipt_in [OF at]
  have same: "r' = r" if "r' \<in> set (op_receipts db)" "ir_id r' = ir_id r" for r'
    using that r ok by (auto simp: camp_db_ok_def distinct_map dest: inj_onD)
  have found: "find_receipt a' k db' = map_option ?f (find_receipt a' k db)" for a' k
    unfolding find_receipt_def db' by (simp add: find_map_same)
  have "find_receipt a' k db' = (if a' = a \<and> k = key
      then Some (r\<lparr>ir_completed := True, ir_result := Some out\<rparr>) else find_receipt a' k db)" for a' k
  proof (cases "find_receipt a' k db")
    case None
    then show ?thesis using at found [of a' k] by auto
  next
    case (Some r')
    note r' = find_receipt_in [OF Some]
    have eq: "r' = r" if "ir_id r' = ir_id r" using same r' that by blast
    have "ir_id r' = ir_id r \<longleftrightarrow> a' = a \<and> k = key"
      using eq r r' Some at by (metis option.inject)
    with eq have "?f r' = (if a' = a \<and> k = key
        then r\<lparr>ir_completed := True, ir_result := Some out\<rparr> else r')"
      using open_ by (cases "ir_id r' = ir_id r") auto
    moreover have "find_receipt a' k db' = Some (?f r')" by (simp only: found Some option.map)
    ultimately show ?thesis using Some by (simp split: if_split_asm)
  qed
  then have "(\<lambda>(a, k). find_receipt a k db') = (\<lambda>(a, k). find_receipt a k db)((a, key) \<mapsto>
      r\<lparr>ir_completed := True, ir_result := Some out\<rparr>)"
    by (auto simp: fun_eq_iff)
  moreover have "campaign_at db' = campaign_at db" by (rule campaign_at_cong) (simp_all add: db')
  moreover have "map (ir_id \<circ> ?f) (op_receipts db) = map ir_id (op_receipts db)" by simp
  then have "distinct (map (ir_id \<circ> ?f) (op_receipts db))"
    using ok by (simp only: camp_db_ok_def)
  then have "camp_db_ok db'"
    using ok unfolding camp_db_ok_def db' by (auto simp: list_all_iff)
  ultimately show ?thesis by (simp add: pg_facts_def) (simp add: db')
qed

lemma find_image:
  "(\<exists>r. List.find P xs = Some r) \<longleftrightarrow> (\<exists>x \<in> set xs. P x)"
  by (induction xs) auto

lemma pg_append_law:
  assumes ok: "camp_db_ok db" and run: "pg_append E e db = (Inr u, db')"
  shows "camp_db_ok db' \<and> pg_facts db' = log_event (audit_row E 0 e) (pg_facts db)"
proof (cases "List.find (\<lambda>r. ev_key r = ev_key (audit_row E 0 e)) (event_log db)")
  case None
  with run have db': "db' = db\<lparr>event_log := event_log db @ [(audit_row E 0 e)\<lparr>ev_id := next_event db\<rparr>],
      next_event := next_event db + 1\<rparr>"
    by (auto simp: pg_append_def AppendEvent_def split: if_splits)
  have "audit_row E 0 e \<notin> (\<lambda>r. r\<lparr>ev_id := 0\<rparr>) ` set (event_log db)"
  proof
    assume "audit_row E 0 e \<in> (\<lambda>r. r\<lparr>ev_id := 0\<rparr>) ` set (event_log db)"
    then obtain r where "r \<in> set (event_log db)" "audit_row E 0 e = r\<lparr>ev_id := 0\<rparr>" by blast
    then have "ev_key r = ev_key (audit_row E 0 e)" by simp
    with None \<open>r \<in> _\<close> show False by (auto simp: find_None_iff)
  qed
  moreover have "campaign_at db' = campaign_at db" by (rule campaign_at_cong) (simp_all add: db')
  moreover have "camp_db_ok db'" using ok unfolding camp_db_ok_def db' by auto
  ultimately show ?thesis
    by (simp add: pg_facts_def log_event_def) (simp add: db' find_receipt_def audit_row_def)
next
  case (Some r)
  with run have "db' = db" and "r\<lparr>ev_id := 0\<rparr> = (audit_row E 0 e)\<lparr>ev_id := 0\<rparr>"
    by (auto simp: pg_append_def AppendEvent_def split: if_splits)
  moreover have "r \<in> set (event_log db)" using Some by (auto simp: find_Some_iff)
  moreover have "(audit_row E 0 e)\<lparr>ev_id := 0\<rparr> = audit_row E 0 e" by (simp add: audit_row_def)
  ultimately show ?thesis
    using ok by (simp add: pg_facts_def log_event_def image_iff) (metis \<open>r \<in> _\<close>)
qed

lemma pg_sel [simp]:
  "cr_ready (pg_campaigns E)" "cr_list (pg_campaigns E) = pg_list" "cr_get (pg_campaigns E) = pg_get"
  "cr_lock (pg_campaigns E) = pg_get" "cr_save (pg_campaigns E) = pg_save"
  "cr_delete (pg_campaigns E) = pg_delete" "cr_plan (pg_campaigns E) = pg_plan"
  "cr_reserve (pg_campaigns E) = pg_reserve" "cr_complete (pg_campaigns E) = pg_complete"
  "cr_append (pg_campaigns E) = pg_append E"
  by (simp_all add: pg_campaigns_def)

lemma pg_facts_sel [simp]:
  "cf_campaigns (pg_facts db) = campaign_at db" "cf_plans (pg_facts db) = local_plans db"
  "cf_commands (pg_facts db) = local_commands db"
  "cf_receipts (pg_facts db) (a, k) = find_receipt a k db"
  "cf_events (pg_facts db) = map (\<lambda>r. r\<lparr>ev_id := 0\<rparr>) (event_log db)"
  by (simp_all add: pg_facts_def)

lemma insert_steps_error: "insert_steps code ss db = (Inl e, db') \<Longrightarrow> e = CErrDependency"
  by (induction ss arbitrary: db) (auto simp: and_then_def insert_step_def split: prod.splits sum.splits if_splits)

lemma dec64_inc64: "0 < v \<Longrightarrow> v \<le> max_int64 \<Longrightarrow> dec64 (inc64 v) = v"
  by (auto simp: dec64_def inc64_def max_int64_def)

lemma pg_save_error:
  assumes "campaign_at db (cm_code c) = Some (old, steps0)" and "0 < cm_version old \<and> cm_version old \<le> max_int64"
    and "cm_version c = inc64 (cm_version old)" and "pg_save c steps db = (Inl e, db')"
  shows "\<not> skippable e"
proof -
  from assms(1) have "old \<in> set (cloud_campaigns db)" "cm_code old = cm_code c"
    using find_campaign_Some [of "cm_code c" db old] by (auto simp: campaign_at_def)
  moreover have "dec64 (cm_version c) = cm_version old" using assms(2,3) by (simp add: dec64_inc64)
  ultimately have "list_ex (\<lambda>row. cm_code row = cm_code c \<and> cm_version row = dec64 (cm_version c)) (cloud_campaigns db)"
    by (auto simp: list_ex_iff)
  then show ?thesis
    using assms(4) insert_steps_error
    by (auto simp: pg_save_def and_then_def update_campaign_def delete_steps_def Let_def skippable_def
        split: prod.splits sum.splits if_splits) blast+
qed

interpretation camp: campaign_contract "pg_campaigns E" pg_facts camp_db_ok pg_micros "audit_row E 0" for E
proof (unfold_locales, goal_cases)
  case (4 s code c steps)
  then show ?case using pg_keyed by simp
next
  case (5 s c old steps0 steps u s')
  then show ?case using pg_save_law [OF 5(1)] by simp
next
  case (6 s code c steps u s')
  then show ?case using pg_delete_law [OF 6(1)] by simp
next
  case (7 s c count op now p k s')
  then show ?case using pg_plan_law [OF 7(1)] by simp
next
  case (8 s x)
  then show ?case using pg_reserve_law [OF 8(1)] by simp
next
  case (9 s x r)
  then show ?case by (simp add: pg_reserve_def)
next
  case (10 s a key r out u s')
  then show ?case using pg_complete_law [OF 10(1)] by simp
next
  case (11 s e u s')
  then show ?case using pg_append_law [OF 11(1)] by simp
next
  case (12 s c old steps0 steps e s')
  then show ?case using pg_save_error pg_version_bound [OF 12(1)] pg_keyed [OF 12(1)] by simp
next
  case (13 s c count op now e s')
  then show ?case by (auto simp: pg_plan_def skippable_def Let_def split: if_splits)
next
  case (14 s a e s')
  then show ?case by (auto simp: pg_append_def AppendEvent_def skippable_def split: if_splits option.splits prod.splits)
qed (simp_all add: pg_get_eq)

end
