(* ===== verification/CampaignSpec.thy ===== *)
theory CampaignSpec
  imports CampaignContract
begin

text \<open>
  What a call of the campaign service promises. All nine mutating calls have one shape
  (\<open>keyed_call\<close>): reserve the idempotency key, replay or run the body, complete the receipt,
  all in one transaction. \<open>spec_body\<close> is what the body decides about the campaign it names,
  and \<open>touch\<close> the steps by which calls change the facts of a store.
\<close>

section \<open>One shape for all calls\<close>

definition mutation_part :: "OperationResult \<Rightarrow> OperationResult option" where
  "mutation_part r = map_option mutation_result (or_mutation r)"

definition delete_result :: "DeleteResponse \<Rightarrow> OperationResult" where
  "delete_result d = \<lparr>or_mutation = None, or_delete = Some d, or_batch = None\<rparr>"

definition batch_result :: "BatchStartResponse \<Rightarrow> OperationResult" where
  "batch_result b = \<lparr>or_mutation = None, or_delete = None, or_batch = Some b\<rparr>"

fun result_part :: "camp_call \<Rightarrow> OperationResult \<Rightarrow> OperationResult option" where
  "result_part (CallDelete _) r = map_option delete_result (or_delete r)"
| "result_part (CallBatchStart _) r = map_option batch_result (or_batch r)"
| "result_part _ r = mutation_part r"

fun call_actor :: "camp_call \<Rightarrow> int" where
  "call_actor (CallAddStep c) = sc_actor c"
| "call_actor (CallUpdateStep c) = su_actor c"
| "call_actor (CallDeleteStep c) = sd_actor c"
| "call_actor (CallApprove c) = vc_actor c"
| "call_actor (CallReject c) = vc_actor c"
| "call_actor (CallPause c) = vc_actor c"
| "call_actor (CallStart c) = vc_actor c"
| "call_actor (CallBatchStart c) = bc_actor c"
| "call_actor (CallDelete c) = vc_actor c"

fun call_key :: "camp_call \<Rightarrow> string" where
  "call_key (CallAddStep c) = sc_key c"
| "call_key (CallUpdateStep c) = su_key c"
| "call_key (CallDeleteStep c) = sd_key c"
| "call_key (CallApprove c) = vc_key c"
| "call_key (CallReject c) = vc_key c"
| "call_key (CallPause c) = vc_key c"
| "call_key (CallStart c) = vc_key c"
| "call_key (CallBatchStart c) = bc_key c"
| "call_key (CallDelete c) = vc_key c"

fun call_operation :: "camp_call \<Rightarrow> string" where
  "call_operation (CallAddStep _) = ''step_add''"
| "call_operation (CallUpdateStep _) = ''step_update''"
| "call_operation (CallDeleteStep _) = ''step_delete''"
| "call_operation (CallApprove _) = ''approve''"
| "call_operation (CallReject _) = ''reject''"
| "call_operation (CallPause _) = ''pause''"
| "call_operation (CallStart _) = ''start''"
| "call_operation (CallBatchStart _) = ''batch_start''"
| "call_operation (CallDelete _) = ''delete''"

fun call_payload :: "campaign_env \<Rightarrow> camp_call \<Rightarrow> string" where
  "call_payload E (CallAddStep c) = step_add_payload E c"
| "call_payload E (CallUpdateStep c) = step_update_payload E c"
| "call_payload E (CallDeleteStep c) = step_delete_payload E c"
| "call_payload E (CallApprove c) = versioned_payload E c"
| "call_payload E (CallReject c) = versioned_payload E c"
| "call_payload E (CallPause c) = versioned_payload E c"
| "call_payload E (CallStart c) = versioned_payload E c"
| "call_payload E (CallBatchStart c) = batch_payload E (bc_items c)"
| "call_payload E (CallDelete c) = versioned_payload E c"

text \<open>The error of a call whose arguments are refused before any work, if they are.\<close>

definition versioned_error :: "VersionedCommand \<Rightarrow> camp_error option" where
  "versioned_error c = (if validVersioned (vc_code c) (vc_version c) (vc_actor c) (vc_key c)
     then None else Some CErrInvalidArgument)"

fun call_error :: "camp_call \<Rightarrow> camp_error option" where
  "call_error (CallAddStep c) =
     (if validVersioned (sc_code c) (sc_version c) (sc_actor c) (sc_key c) \<and>
         validStepFields (sc_delay c) (sc_content c) then None else Some CErrInvalidArgument)"
| "call_error (CallUpdateStep c) =
     (if \<not> validVersioned (su_code c) (su_version c) (su_actor c) (su_key c) \<or> su_index c < 1 \<or>
         (su_delay c = None \<and> su_content c = None) then Some CErrInvalidArgument
      else if (case su_delay c of None \<Rightarrow> False | Some d \<Rightarrow> \<not> validDelay d)
      then Some (CErrValidation ''delay_minutes'' ''invalid'')
      else if (case su_content c of None \<Rightarrow> False | Some v \<Rightarrow> \<not> validContent v)
      then Some (CErrValidation ''content'' ''invalid'') else None)"
| "call_error (CallDeleteStep c) =
     (if validVersioned (sd_code c) (sd_version c) (sd_actor c) (sd_key c) \<and> 1 \<le> sd_index c
      then None else Some CErrInvalidArgument)"
| "call_error (CallBatchStart c) = (if validBatch c then None else Some CErrInvalidArgument)"
| "call_error (CallApprove c) = versioned_error c"
| "call_error (CallReject c) = versioned_error c"
| "call_error (CallPause c) = versioned_error c"
| "call_error (CallStart c) = versioned_error c"
| "call_error (CallDelete c) = versioned_error c"

text \<open>The body of a call on one campaign, after the lock and the version check.\<close>

fun locked_body :: "'s campaign_repo \<Rightarrow> instant \<Rightarrow> camp_call \<Rightarrow> Campaign \<times> Step list \<Rightarrow> ('s, camp_error, OperationResult) tx" where
  "locked_body R now (CallAddStep c) (cur, steps) = as_mutation
     (if \<not> editable cur \<or> MaximumSteps \<le> length steps then fail CErrStateConflict
      else saveAudit R cur (steps @ [\<lparr>st_index = int (length steps + 1), st_delay = sc_delay c,
             st_content = trim_space (sc_content c)\<rparr>]) (sc_actor c) ''step_added'' (sc_key c) now)"
| "locked_body R now (CallUpdateStep c) (cur, steps) = as_mutation
     (if \<not> editable cur \<or> int (length steps) < su_index c then fail CErrStateConflict
      else saveAudit R cur (steps[nat (su_index c - 1) := updated_step c (steps ! nat (su_index c - 1))])
             (su_actor c) ''step_updated'' (su_key c) now)"
| "locked_body R now (CallDeleteStep c) (cur, steps) = as_mutation
     (if \<not> editable cur \<or> int (length steps) < sd_index c then fail CErrStateConflict
      else saveAudit R cur (renumbered (take (nat (sd_index c - 1)) steps @ drop (nat (sd_index c)) steps))
             (sd_actor c) ''step_deleted'' (sd_key c) now)"
| "locked_body R now (CallApprove c) (cur, steps) = as_mutation
     (if cm_approval cur \<noteq> ApprovalDraft \<or> cm_runtime cur \<noteq> RuntimeIdle then fail CErrStateConflict
      else saveAudit R (cur\<lparr>cm_approval := ApprovalApproved\<rparr>) steps (vc_actor c) ''approved'' (vc_key c) now)"
| "locked_body R now (CallReject c) (cur, steps) = as_mutation
     (if cm_approval cur \<noteq> ApprovalDraft \<or> cm_runtime cur \<noteq> RuntimeIdle then fail CErrStateConflict
      else saveAudit R (cur\<lparr>cm_approval := ApprovalRejected\<rparr>) steps (vc_actor c) ''rejected'' (vc_key c) now)"
| "locked_body R now (CallPause c) (cur, steps) = as_mutation
     (if cm_runtime cur \<noteq> RuntimePlanned then fail CErrStateConflict
      else saveAudit R (cur\<lparr>cm_runtime := RuntimePaused\<rparr>) steps (vc_actor c) ''paused'' (vc_key c) now)"
| "locked_body R now (CallDelete c) (cur, steps) =
     (if \<not> editable cur then fail CErrStateConflict
      else and_then (cr_delete R (cm_code cur) (cm_version cur)) (\<lambda>_.
           and_then (cr_append R \<lparr>av_type = ''cloud_campaign.deleted'', av_code = cm_code cur,
               av_actor = vc_actor c, av_key = vc_key c, av_at = now\<rparr>) (\<lambda>_.
           ret (delete_result \<lparr>dr_code = cm_code cur, dr_deleted = True, dr_projection = local_projection\<rparr>))))"
| "locked_body R now _ _ = fail CErrUnavailable"

fun call_target :: "camp_call \<Rightarrow> string \<times> int" where
  "call_target (CallAddStep c) = (sc_code c, sc_version c)"
| "call_target (CallUpdateStep c) = (su_code c, su_version c)"
| "call_target (CallDeleteStep c) = (sd_code c, sd_version c)"
| "call_target (CallApprove c) = (vc_code c, vc_version c)"
| "call_target (CallReject c) = (vc_code c, vc_version c)"
| "call_target (CallPause c) = (vc_code c, vc_version c)"
| "call_target (CallStart c) = (vc_code c, vc_version c)"
| "call_target (CallBatchStart c) = ([], 0)"
| "call_target (CallDelete c) = (vc_code c, vc_version c)"

fun call_body :: "'s campaign_repo \<Rightarrow> instant \<Rightarrow> camp_call \<Rightarrow> ('s, camp_error, OperationResult) tx" where
  "call_body R now (CallStart c) = as_mutation
     (startDirect R ''cloud_campaign.started'' \<lparr>bi_code = vc_code c, bi_version = vc_version c\<rparr>
        (vc_actor c) (vc_key c) now CommandStart)"
| "call_body R now (CallBatchStart c) = (\<lambda>s.
     (let (out, s') = batch_items R (bc_actor c) (bc_key c) now (bc_items c) empty_batch s in
      if br_failed out \<noteq> [] then (Inl CErrUnavailable, s') else (Inr (batch_result out), s')))"
| "call_body R now call =
     and_then (lock_version R (fst (call_target call)) (snd (call_target call))) (locked_body R now call)"

definition keyed_call ::
  "campaign_env \<Rightarrow> 's campaign_repo \<Rightarrow> instant \<Rightarrow> camp_call \<Rightarrow> ('s, camp_error, OperationResult) tx" where
  "keyed_call E R now call =
     (if now = 0 then fail CErrUnavailable
      else classified (within (and_then
        (svc_reserve E R (call_actor call) (call_operation call) (call_key call) (digest_of E (call_payload E call)) now)
        (\<lambda>(r, replay).
          if replay
          then (case ir_result r of None \<Rightarrow> fail CErrUnavailable
                | Some result \<Rightarrow> (case result_part call result of None \<Rightarrow> fail CErrUnavailable | Some out \<Rightarrow> ret out))
          else and_then (call_body R now call) (\<lambda>out. and_then (cr_complete R (ir_id r) out) (\<lambda>_. ret out))))))"

lemma as_mutation_fail [simp]: "as_mutation (fail e) = fail e"
  by (rule ext) (simp add: as_mutation_def and_then_def)

lemma and_then_assoc: "and_then (and_then m k) h = and_then m (\<lambda>v. and_then (k v) h)"
  by (rule ext) (simp add: and_then_def split: prod.split sum.split)

lemma as_mutation_and_then: "as_mutation (and_then m k) = and_then m (\<lambda>v. as_mutation (k v))"
  by (simp add: as_mutation_def and_then_assoc)

lemma fail_and_then [simp]: "and_then (fail e) k = fail e"
  by (rule ext) (simp add: and_then_def)

lemma ret_and_then [simp]: "and_then (ret v) k = k v"
  by (rule ext) (simp add: and_then_def)

lemma as_mutation_mutate:
  assumes "result_part call = mutation_part" and "call_body R now call = as_mutation body"
  shows "as_mutation (mutate E R now (call_operation call) (call_actor call) (call_key call) (call_payload E call) body) =
    keyed_call E R now call"
proof (cases "now = 0")
  case False
  show ?thesis
    by (rule ext) (auto simp: mutate_def keyed_call_def assms as_mutation_def mutation_part_def mutation_result_def False
        classified_def within_def and_then_def split: prod.splits sum.splits option.splits if_splits)
qed (simp add: mutate_def keyed_call_def as_mutation_def)

lemma result_part_mutation:
  "result_part (CallAddStep c1) = mutation_part" "result_part (CallUpdateStep c2) = mutation_part"
  "result_part (CallDeleteStep c3) = mutation_part" "result_part (CallApprove c4) = mutation_part"
  "result_part (CallReject c4) = mutation_part" "result_part (CallPause c4) = mutation_part"
  "result_part (CallStart c4) = mutation_part"
  by (rule ext, simp)+

lemma svc_delete_keyed:
  assumes "call_error (CallDelete c) = None" and "cr_ready R"
  shows "run_call E R now (CallDelete c) = keyed_call E R now (CallDelete c)"
proof (cases "now = 0")
  case False
  have valid: "validVersioned (vc_code c) (vc_version c) (vc_actor c) (vc_key c)"
    using assms(1) by (simp add: versioned_error_def split: if_splits)
  show ?thesis
    by (rule ext) (auto simp: svc_delete_def keyed_call_def delete_result_def valid assms(2) False
        classified_def within_def and_then_def Let_def split: prod.splits sum.splits option.splits if_splits)
qed (use assms in \<open>simp add: svc_delete_def keyed_call_def versioned_error_def split: if_splits\<close>)

lemma svc_batch_keyed:
  assumes "call_error (CallBatchStart c) = None" and "cr_ready R"
  shows "run_call E R now (CallBatchStart c) = keyed_call E R now (CallBatchStart c)"
proof -
  have valid: "validBatch c" using assms(1) by (simp split: if_splits)
  show ?thesis
    by (rule ext) (auto simp: svc_batch_start_def keyed_call_def batch_result_def valid assms(2)
        classified_def within_def and_then_def Let_def split: prod.splits sum.splits option.splits if_splits)
qed

lemmas keyed_rules =
  as_mutation_mutate [OF result_part_mutation(1), unfolded call_operation.simps call_actor.simps call_key.simps call_payload.simps]
  as_mutation_mutate [OF result_part_mutation(2), unfolded call_operation.simps call_actor.simps call_key.simps call_payload.simps]
  as_mutation_mutate [OF result_part_mutation(3), unfolded call_operation.simps call_actor.simps call_key.simps call_payload.simps]
  as_mutation_mutate [OF result_part_mutation(4), unfolded call_operation.simps call_actor.simps call_key.simps call_payload.simps]
  as_mutation_mutate [OF result_part_mutation(5), unfolded call_operation.simps call_actor.simps call_key.simps call_payload.simps]
  as_mutation_mutate [OF result_part_mutation(6), unfolded call_operation.simps call_actor.simps call_key.simps call_payload.simps]
  as_mutation_mutate [OF result_part_mutation(7), unfolded call_operation.simps call_actor.simps call_key.simps call_payload.simps]

lemma body_rule:
  assumes "\<And>cur steps. L (cur, steps) = as_mutation (B cur steps)"
  shows "and_then m L = as_mutation (and_then m (\<lambda>(cur, steps). B cur steps))"
proof -
  have "L = (\<lambda>v. as_mutation (case v of (cur, steps) \<Rightarrow> B cur steps))"
    using assms by (auto simp: fun_eq_iff)
  then show ?thesis by (simp add: as_mutation_and_then)
qed

lemmas svc_defs = svc_add_step_def svc_update_step_def svc_delete_step_def svc_approve_def svc_reject_def
  changeApproval_def svc_pause_def svc_start_def

theorem run_call_keyed:
  assumes ready: "cr_ready R"
  shows "run_call E R now call =
    (case call_error call of Some e \<Rightarrow> fail e | None \<Rightarrow> keyed_call E R now call)"
proof (cases "call_error call")
  case (Some e)
  then show ?thesis
    by (cases call) (auto simp: ready svc_defs svc_batch_start_def svc_delete_def versioned_error_def
        invalidOrUnavailable_def split: if_splits)
next
  case None
  have "run_call E R now call = keyed_call E R now call"
  proof (cases call)
    case (CallBatchStart c)
    with svc_batch_keyed [OF _ ready] None show ?thesis by simp
  next
    case (CallDelete c)
    with svc_delete_keyed [OF _ ready] None show ?thesis by simp
  qed (use None in \<open>auto simp: ready svc_defs versioned_error_def split: if_splits
        intro!: keyed_rules body_rule\<close>)
  with None show ?thesis by simp
qed

end
