(* ===== verification/CampaignLife.thy ===== *)
theory CampaignLife
  imports CampaignSpec
begin

text \<open>
  The life of campaigns: \<open>spec_body\<close> decides a call from the campaign it names, \<open>touch\<close> is
  the step relation on the facts of a store, \<open>facts_ok\<close> its invariant and \<open>later\<close> what
  can become of a campaign. Inside the contract, every committed call is a sequence of touches.
\<close>

named_theorems life_intros "what keeps a campaign valid"

section \<open>Decisions\<close>

fun spec_body :: "camp_call \<Rightarrow> Campaign \<times> Step list \<Rightarrow> camp_error + (Campaign \<times> Step list) option" where
  "spec_body (CallAddStep c) (cur, steps) =
     (if \<not> editable cur \<or> MaximumSteps \<le> length steps then Inl CErrStateConflict
      else Inr (Some (cur, steps @ [\<lparr>st_index = int (length steps + 1), st_delay = sc_delay c,
             st_content = trim_space (sc_content c)\<rparr>])))"
| "spec_body (CallUpdateStep c) (cur, steps) =
     (if \<not> editable cur \<or> int (length steps) < su_index c then Inl CErrStateConflict
      else Inr (Some (cur, steps[nat (su_index c - 1) := updated_step c (steps ! nat (su_index c - 1))])))"
| "spec_body (CallDeleteStep c) (cur, steps) =
     (if \<not> editable cur \<or> int (length steps) < sd_index c then Inl CErrStateConflict
      else Inr (Some (cur, renumbered (take (nat (sd_index c - 1)) steps @ drop (nat (sd_index c)) steps))))"
| "spec_body (CallApprove c) (cur, steps) =
     (if \<not> editable cur then Inl CErrStateConflict else Inr (Some (cur\<lparr>cm_approval := ApprovalApproved\<rparr>, steps)))"
| "spec_body (CallReject c) (cur, steps) =
     (if \<not> editable cur then Inl CErrStateConflict else Inr (Some (cur\<lparr>cm_approval := ApprovalRejected\<rparr>, steps)))"
| "spec_body (CallPause c) (cur, steps) =
     (if cm_runtime cur \<noteq> RuntimePlanned then Inl CErrStateConflict
      else Inr (Some (cur\<lparr>cm_runtime := RuntimePaused\<rparr>, steps)))"
| "spec_body (CallStart c) (cur, steps) =
     (if cm_approval cur \<noteq> ApprovalApproved \<or> cm_runtime cur \<noteq> RuntimeIdle \<or> steps = [] then Inl CErrStateConflict
      else Inr (Some (cur\<lparr>cm_runtime := RuntimePlanned\<rparr>, steps)))"
| "spec_body (CallDelete c) (cur, steps) = (if \<not> editable cur then Inl CErrStateConflict else Inr None)"
| "spec_body (CallBatchStart c) _ = Inl CErrUnavailable"

text \<open>The decision on a target that may be missing or at another version.\<close>

definition spec_call :: "camp_call \<Rightarrow> (Campaign \<times> Step list) option \<Rightarrow> camp_error + (Campaign \<times> Step list) option" where
  "spec_call call x = (case x of None \<Rightarrow> Inl CErrNotFound
   | Some (cur, steps) \<Rightarrow> if cm_version cur \<noteq> snd (call_target call) then Inl CErrConflict
                          else spec_body call (cur, steps))"

definition bumped :: "(instant \<Rightarrow> instant) \<Rightarrow> int \<Rightarrow> instant \<Rightarrow> Campaign \<Rightarrow> Campaign" where
  "bumped stored actor now c =
     c\<lparr>cm_version := cm_version c + 1, cm_updated_by := actor, cm_updated := stored now\<rparr>"

section \<open>Valid steps stay valid\<close>

lemma numbered_sorted: "steps_from i ss \<Longrightarrow> sorted (map st_index ss)"
  by (auto simp: sorted_iff_nth_mono steps_from_iff)

lemma validSteps_sorted: "validSteps ss \<Longrightarrow> sorted (map st_index ss)"
  by (auto simp: validSteps_def numbered_sorted)

lemma validSteps_add:
  assumes "validSteps steps" and "length steps < MaximumSteps" and "validStepFields d v"
  shows "validSteps (steps @ [\<lparr>st_index = int (length steps + 1), st_delay = d, st_content = trim_space v\<rparr>])"
  using assms by (auto simp: validSteps_def steps_from_append validStepFields_def validContent_trim)

lemma validSteps_update:
  assumes "validSteps steps" and "call_error (CallUpdateStep c) = None" and "su_index c \<le> int (length steps)"
  shows "validSteps (steps[nat (su_index c - 1) := updated_step c (steps ! nat (su_index c - 1))])"
proof -
  have i: "nat (su_index c - 1) < length steps" and d: "\<And>d. su_delay c = Some d \<Longrightarrow> validDelay d"
    and v: "\<And>v. su_content c = Some v \<Longrightarrow> validContent v"
    using assms(2,3) by (auto split: if_splits)
  with assms(1) show ?thesis
    by (auto simp: validSteps_def steps_from_iff nth_list_update updated_step_def validStepFields_def
        validContent_trim Let_def split: option.split)
qed

lemma renumbered_nth:
  "k < length ss \<Longrightarrow> renumbered ss ! k = (ss ! k)\<lparr>st_index := int k + 1\<rparr>"
  by (simp add: renumbered_def nth_enumerate_eq)

lemma length_renumbered [simp]: "length (renumbered ss) = length ss"
  by (simp add: renumbered_def)

lemma steps_from_renumbered:
  "(\<And>s. s \<in> set ss \<Longrightarrow> validStepFields (st_delay s) (st_content s)) \<Longrightarrow> steps_from 0 (renumbered ss)"
  by (simp add: steps_from_iff renumbered_nth)

lemma validSteps_delete:
  assumes "validSteps steps" and "n \<le> m"
  shows "validSteps (renumbered (take n steps @ drop m steps))"
proof -
  have "validStepFields (st_delay s) (st_content s)" if "s \<in> set (take n steps @ drop m steps)" for s
  proof -
    have "s \<in> set steps" using that by (auto dest: in_set_takeD in_set_dropD)
    then show ?thesis using assms(1) by (auto simp: validSteps_def steps_from_iff in_set_conv_nth)
  qed
  then have "steps_from 0 (renumbered (take n steps @ drop m steps))" by (rule steps_from_renumbered)
  then show ?thesis using assms by (auto simp: validSteps_def)
qed

section \<open>Steps on facts\<close>

inductive touch :: "(instant \<Rightarrow> instant) \<Rightarrow> campaign_facts \<Rightarrow> campaign_facts \<Rightarrow> bool"
  for stored :: "instant \<Rightarrow> instant" where
  edit: "\<lbrakk>cf_campaigns f code = Some (c, steps); editable c; validSteps steps'; 0 < actor; stored now \<noteq> 0\<rbrakk> \<Longrightarrow>
    touch stored f (put_campaign (bumped stored actor now c) steps' f)"
| decide: "\<lbrakk>cf_campaigns f code = Some (c, steps); editable c; a = ApprovalApproved \<or> a = ApprovalRejected;
    0 < actor; stored now \<noteq> 0\<rbrakk> \<Longrightarrow>
    touch stored f (put_campaign (bumped stored actor now (c\<lparr>cm_approval := a\<rparr>)) steps f)"
| plan: "\<lbrakk>cf_campaigns f code = Some (c, steps); cm_approval c = ApprovalApproved; cm_runtime c = RuntimeIdle;
    steps \<noteq> []; 0 < actor; stored now \<noteq> 0; lp_code p = cm_code c; lp_version p = cm_version c + 1;
    lp_steps p = int (length steps); lc_plan k = lp_id p; lc_code k = cm_code c;
    \<not> lc_real_send k; \<not> lc_executed k\<rbrakk> \<Longrightarrow>
    touch stored f (put_campaign (bumped stored actor now (c\<lparr>cm_runtime := RuntimePlanned\<rparr>)) steps
      (f\<lparr>cf_plans := cf_plans f @ [p], cf_commands := cf_commands f @ [k]\<rparr>))"
| pause: "\<lbrakk>cf_campaigns f code = Some (c, steps); cm_runtime c = RuntimePlanned; 0 < actor; stored now \<noteq> 0\<rbrakk> \<Longrightarrow>
    touch stored f (put_campaign (bumped stored actor now (c\<lparr>cm_runtime := RuntimePaused\<rparr>)) steps f)"
| drop: "\<lbrakk>cf_campaigns f code = Some (c, steps); editable c; code \<notin> lp_code ` set (cf_plans f)\<rbrakk> \<Longrightarrow>
    touch stored f (f\<lparr>cf_campaigns := (cf_campaigns f)(code := None)\<rparr>)"
| admit: "\<lbrakk>cf_campaigns f (cm_code c) = None; cm_approval c = ApprovalRejected; cm_runtime c = RuntimePaused;
    cm_version c = 1; validCampaign c; validSteps steps\<rbrakk> \<Longrightarrow> touch stored f (put_campaign c steps f)"
| note_event: "touch stored f (log_event e f)"
| receipt: "(\<And>k r. cf_receipts f k = Some r \<Longrightarrow> ir_completed r \<Longrightarrow> rs k = Some r) \<Longrightarrow>
    touch stored f (f\<lparr>cf_receipts := rs\<rparr>)"

inductive_cases touchE: "touch stored f f'"

definition facts_ok :: "campaign_facts \<Rightarrow> bool" where
  "facts_ok f \<longleftrightarrow>
     (\<forall>code c steps. cf_campaigns f code = Some (c, steps) \<longrightarrow>
        cm_code c = code \<and> validCampaign c \<and> validSteps steps) \<and>
     distinct (map lp_code (cf_plans f)) \<and>
     (\<forall>p \<in> set (cf_plans f). \<exists>c steps. cf_campaigns f (lp_code p) = Some (c, steps) \<and>
        cm_approval c = ApprovalApproved \<and> cm_runtime c \<noteq> RuntimeIdle \<and>
        lp_version p \<le> cm_version c \<and> lp_steps p = int (length steps)) \<and>
     map lc_plan (cf_commands f) = map lp_id (cf_plans f) \<and>
     map lc_code (cf_commands f) = map lp_code (cf_plans f) \<and>
     (\<forall>k \<in> set (cf_commands f). \<not> lc_real_send k \<and> \<not> lc_executed k)"

lemma facts_okD:
  "facts_ok f \<Longrightarrow> cf_campaigns f code = Some (c, steps) \<Longrightarrow> cm_code c = code \<and> validCampaign c \<and> validSteps steps"
  by (simp add: facts_ok_def)

lemma log_event_sel [simp]:
  "cf_campaigns (log_event e f) = cf_campaigns f" "cf_plans (log_event e f) = cf_plans f"
  "cf_commands (log_event e f) = cf_commands f" "cf_receipts (log_event e f) = cf_receipts f"
  by (simp_all add: log_event_def)

lemma put_campaign_sel [simp]:
  "cf_campaigns (put_campaign c steps f) = (cf_campaigns f)(cm_code c \<mapsto> (c, steps))"
  "cf_plans (put_campaign c steps f) = cf_plans f" "cf_commands (put_campaign c steps f) = cf_commands f"
  "cf_receipts (put_campaign c steps f) = cf_receipts f" "cf_events (put_campaign c steps f) = cf_events f"
  by (simp_all add: put_campaign_def)

lemma bumped_sel [simp]:
  "cm_code (bumped stored actor now c) = cm_code c" "cm_version (bumped stored actor now c) = cm_version c + 1"
  "cm_approval (bumped stored actor now c) = cm_approval c" "cm_runtime (bumped stored actor now c) = cm_runtime c"
  by (simp_all add: bumped_def)

lemma validCampaign_bumped [life_intros]:
  "validCampaign c \<Longrightarrow> 0 < actor \<Longrightarrow> stored now \<noteq> 0 \<Longrightarrow> validCampaign (bumped stored actor now c)"
  by (simp add: validCampaign_def bumped_def)

lemma validCampaign_approval [life_intros]:
  "validCampaign c \<Longrightarrow> approval_valid a \<Longrightarrow> validCampaign (c\<lparr>cm_approval := a\<rparr>)"
  by (simp add: validCampaign_def)

lemma validCampaign_runtime [life_intros]:
  "validCampaign c \<Longrightarrow> runtime_valid r \<Longrightarrow> validCampaign (c\<lparr>cm_runtime := r\<rparr>)"
  by (simp add: validCampaign_def)

text \<open>Replacing a campaign keeps the invariant unless it takes a plan's campaign back.\<close>

lemma facts_ok_put:
  assumes ok: "facts_ok f" and valid: "validCampaign c" "validSteps steps"
    and keep: "\<And>p. p \<in> set (cf_plans f) \<Longrightarrow> lp_code p = cm_code c \<Longrightarrow>
      cm_approval c = ApprovalApproved \<and> cm_runtime c \<noteq> RuntimeIdle \<and> lp_version p \<le> cm_version c \<and>
      lp_steps p = int (length steps)"
  shows "facts_ok (put_campaign c steps f)"
  using ok valid keep unfolding facts_ok_def by auto

lemma facts_ok_plan:
  assumes "facts_ok f" and "cf_campaigns f (lp_code p) = Some (c, steps)"
    and "lp_code p \<notin> lp_code ` set (cf_plans f)" and "cm_approval c = ApprovalApproved"
    and "cm_runtime c \<noteq> RuntimeIdle" and "lp_version p \<le> cm_version c" and "lp_steps p = int (length steps)"
    and "lc_plan k = lp_id p" and "lc_code k = lp_code p" and "\<not> lc_real_send k" and "\<not> lc_executed k"
  shows "facts_ok (f\<lparr>cf_plans := cf_plans f @ [p], cf_commands := cf_commands f @ [k]\<rparr>)"
proof -
  have "\<forall>q \<in> set (cf_plans f @ [p]). \<exists>c steps. cf_campaigns f (lp_code q) = Some (c, steps) \<and>
      cm_approval c = ApprovalApproved \<and> cm_runtime c \<noteq> RuntimeIdle \<and>
      lp_version q \<le> cm_version c \<and> lp_steps q = int (length steps)"
    using assms(1,2,4-7) unfolding facts_ok_def by simp
  then show ?thesis using assms(1,3,8-) unfolding facts_ok_def by simp
qed

lemma put_campaign_plans:
  "put_campaign c steps (f\<lparr>cf_plans := ps, cf_commands := ks\<rparr>) =
   (put_campaign c steps f)\<lparr>cf_plans := ps, cf_commands := ks\<rparr>"
  by (simp add: put_campaign_def)

lemma facts_ok_planD:
  assumes "facts_ok f" and "p \<in> set (cf_plans f)" and "cf_campaigns f (lp_code p) = Some (c, steps)"
  shows "cm_approval c = ApprovalApproved \<and> cm_runtime c \<noteq> RuntimeIdle \<and>
    lp_version p \<le> cm_version c \<and> lp_steps p = int (length steps)"
proof -
  from assms(1,2) obtain d ss where "cf_campaigns f (lp_code p) = Some (d, ss)"
    "cm_approval d = ApprovalApproved" "cm_runtime d \<noteq> RuntimeIdle"
    "lp_version p \<le> cm_version d" "lp_steps p = int (length ss)"
    unfolding facts_ok_def by blast
  with assms(3) show ?thesis by simp
qed

lemma facts_ok_planE:
  "facts_ok f \<Longrightarrow> p \<in> set (cf_plans f) \<Longrightarrow> cf_campaigns f (lp_code p) \<noteq> None"
  unfolding facts_ok_def by fastforce

lemma no_plan:
  assumes "facts_ok f" and "cf_campaigns f (cm_code c) = Some (c, steps)"
    and "cm_approval c \<noteq> ApprovalApproved \<or> cm_runtime c = RuntimeIdle"
  shows "cm_code c \<notin> lp_code ` set (cf_plans f)"
proof
  assume "cm_code c \<in> lp_code ` set (cf_plans f)"
  then obtain p where p: "p \<in> set (cf_plans f)" "lp_code p = cm_code c" by auto
  with assms(1) obtain d ss where "cf_campaigns f (lp_code p) = Some (d, ss)"
    "cm_approval d = ApprovalApproved" "cm_runtime d \<noteq> RuntimeIdle"
    unfolding facts_ok_def by blast
  with assms(2,3) p show False by simp
qed

theorem touch_facts_ok:
  assumes "touch stored f f'" and ok: "facts_ok f"
  shows "facts_ok f'"
  using assms(1)
proof cases
  case (edit code c steps steps' actor now)
  note c = facts_okD [OF ok edit(2)]
  show ?thesis unfolding edit(1)
  proof (rule facts_ok_put [OF ok])
    show "validCampaign (bumped stored actor now c)"
      using c edit by (auto intro!: life_intros)
  qed (use no_plan [OF ok, of c steps] c edit in \<open>auto simp: editable_def\<close>)
next
  case (decide code c steps a actor now)
  note c = facts_okD [OF ok decide(2)]
  show ?thesis unfolding decide(1)
  proof (rule facts_ok_put [OF ok])
    show "validCampaign (bumped stored actor now (c\<lparr>cm_approval := a\<rparr>))"
      using c decide by (auto intro!: life_intros)
  qed (use no_plan [OF ok, of c steps] c decide in \<open>auto simp: editable_def\<close>)
next
  case (plan code c steps actor now p k)
  note c = facts_okD [OF ok plan(2)]
  let ?c = "bumped stored actor now (c\<lparr>cm_runtime := RuntimePlanned\<rparr>)"
  have valid: "validCampaign ?c"
    using c plan by (auto intro!: life_intros)
  have new: "cm_code c \<notin> lp_code ` set (cf_plans f)"
    using no_plan [OF ok, of c steps] c plan by auto
  let ?f = "put_campaign ?c steps f"
  have "facts_ok ?f" by (rule facts_ok_put [OF ok valid]) (use new c in auto)
  moreover have "cf_campaigns ?f (lp_code p) = Some (?c, steps)" using plan(8) by simp
  ultimately show ?thesis
    using facts_ok_plan [of ?f p ?c steps k] new plan(3,8-) by (simp add: plan(1) put_campaign_plans)
next
  case (pause code c steps actor now)
  note c = facts_okD [OF ok pause(2)]
  show ?thesis unfolding pause(1)
  proof (rule facts_ok_put [OF ok])
    show "validCampaign (bumped stored actor now (c\<lparr>cm_runtime := RuntimePaused\<rparr>))"
      using c pause by (auto intro!: life_intros)
    fix p assume "p \<in> set (cf_plans f)" "lp_code p = cm_code (bumped stored actor now (c\<lparr>cm_runtime := RuntimePaused\<rparr>))"
    with c pause(2) facts_ok_planD [OF ok, of p c steps]
    show "cm_approval (bumped stored actor now (c\<lparr>cm_runtime := RuntimePaused\<rparr>)) = ApprovalApproved \<and>
        cm_runtime (bumped stored actor now (c\<lparr>cm_runtime := RuntimePaused\<rparr>)) \<noteq> RuntimeIdle \<and>
        lp_version p \<le> cm_version (bumped stored actor now (c\<lparr>cm_runtime := RuntimePaused\<rparr>)) \<and>
        lp_steps p = int (length steps)" by simp
  qed (use c in simp)
next
  case (drop code c steps)
  then show ?thesis using ok unfolding facts_ok_def by auto
next
  case (admit c steps)
  show ?thesis unfolding admit(1)
  proof (rule facts_ok_put [OF ok])
    fix p assume "p \<in> set (cf_plans f)" "lp_code p = cm_code c"
    with admit(2) facts_ok_planE [OF ok, of p]
    show "cm_approval c = ApprovalApproved \<and> cm_runtime c \<noteq> RuntimeIdle \<and>
        lp_version p \<le> cm_version c \<and> lp_steps p = int (length steps)" by simp
  qed (use admit in simp_all)
next
  case (note_event e)
  then show ?thesis using ok by (simp add: facts_ok_def)
next
  case (receipt rs)
  then show ?thesis using ok by (simp add: facts_ok_def)
qed

lemma touches_facts_ok: "(touch stored)\<^sup>*\<^sup>* f f' \<Longrightarrow> facts_ok f \<Longrightarrow> facts_ok f'"
  by (induction rule: rtranclp_induct) (auto intro: touch_facts_ok)

section \<open>What can become of a campaign\<close>

fun runtime_rank :: "runtime_status \<Rightarrow> nat" where
  "runtime_rank RuntimeIdle = 0"
| "runtime_rank RuntimePlanned = 1"
| "runtime_rank RuntimePaused = 2"
| "runtime_rank (OtherRuntime _) = 3"

definition later :: "Campaign \<times> Step list \<Rightarrow> Campaign \<times> Step list \<Rightarrow> bool" where
  "later x x' \<longleftrightarrow>
     same_identity (fst x) (fst x') \<and> cm_version (fst x) \<le> cm_version (fst x') \<and>
     (cm_version (fst x') = cm_version (fst x) \<longrightarrow> x' = x) \<and>
     runtime_rank (cm_runtime (fst x)) \<le> runtime_rank (cm_runtime (fst x')) \<and>
     (\<not> editable (fst x) \<longrightarrow>
        \<not> editable (fst x') \<and> snd x' = snd x \<and> cm_approval (fst x') = cm_approval (fst x))"

lemma later_refl [simp]: "later x x"
  by (simp add: later_def same_identity_def)

lemma later_trans:
  assumes xy: "later x y" and yz: "later y z"
  shows "later x z"
  unfolding later_def
proof (intro conjI impI)
  show "same_identity (fst x) (fst z)"
    using xy yz by (simp add: later_def same_identity_def)
  show "cm_version (fst x) \<le> cm_version (fst z)"
    using xy yz by (auto simp: later_def)
  show "z = x" if "cm_version (fst z) = cm_version (fst x)"
  proof -
    have "cm_version (fst y) = cm_version (fst x)" "cm_version (fst z) = cm_version (fst y)"
      using xy yz that by (auto simp: later_def)
    then show ?thesis using xy yz by (simp add: later_def)
  qed
  show "runtime_rank (cm_runtime (fst x)) \<le> runtime_rank (cm_runtime (fst z))"
    using xy yz by (auto simp: later_def)
  assume fixed: "\<not> editable (fst x)"
  then have "\<not> editable (fst y)" using xy by (simp add: later_def)
  then show "\<not> editable (fst z)" and "snd z = snd x" and "cm_approval (fst z) = cm_approval (fst x)"
    using xy yz fixed by (simp_all add: later_def)
qed

lemma later_bumped:
  assumes "same_identity c c'" and "cm_version c' = cm_version c"
    and "runtime_rank (cm_runtime c) \<le> runtime_rank (cm_runtime c')"
    and "\<not> editable c \<Longrightarrow> \<not> editable c' \<and> steps' = steps \<and> cm_approval c' = cm_approval c"
  shows "later (c, steps) (bumped stored actor now c', steps')"
  using assms by (auto simp: later_def same_identity_def bumped_def editable_def)

lemma put_later:
  assumes "cf_campaigns f code = Some x" and "cf_campaigns g = cf_campaigns f"
    and "cf_campaigns f (cm_code c) = Some y" and "later y (c, steps)"
  shows "\<exists>x'. cf_campaigns (put_campaign c steps g) code = Some x' \<and> later x x'"
  using assms by (cases "code = cm_code c") (auto intro: exI [of _ "fst x"])

theorem touch_later:
  assumes step: "touch stored f f'" and ok: "facts_ok f" and at: "cf_campaigns f code = Some x"
  shows "(\<exists>x'. cf_campaigns f' code = Some x' \<and> later x x') \<or> (cf_campaigns f' code = None \<and> editable (fst x))"
  using step
proof cases
  case (edit code' c steps steps' actor now)
  note c = facts_okD [OF ok edit(2)]
  have "later (c, steps) (bumped stored actor now c, steps')"
    by (rule later_bumped) (use edit in \<open>simp_all add: same_identity_def\<close>)
  then show ?thesis unfolding edit(1)
    by (intro disjI1 put_later [OF at, where y = "(c, steps)"]) (use c edit(2) in simp_all)
next
  case (decide code' c steps a actor now)
  note c = facts_okD [OF ok decide(2)]
  have "later (c, steps) (bumped stored actor now (c\<lparr>cm_approval := a\<rparr>), steps)"
    by (rule later_bumped) (use decide in \<open>simp_all add: same_identity_def\<close>)
  then show ?thesis unfolding decide(1)
    by (intro disjI1 put_later [OF at, where y = "(c, steps)"]) (use c decide(2) in simp_all)
next
  case (plan code' c steps actor now p k)
  note c = facts_okD [OF ok plan(2)]
  have "later (c, steps) (bumped stored actor now (c\<lparr>cm_runtime := RuntimePlanned\<rparr>), steps)"
    by (rule later_bumped) (use plan in \<open>simp_all add: same_identity_def editable_def\<close>)
  then show ?thesis unfolding plan(1)
    by (intro disjI1 put_later [OF at, where y = "(c, steps)"]) (use c plan(2) in simp_all)
next
  case (pause code' c steps actor now)
  note c = facts_okD [OF ok pause(2)]
  have "later (c, steps) (bumped stored actor now (c\<lparr>cm_runtime := RuntimePaused\<rparr>), steps)"
    by (rule later_bumped) (use pause in \<open>simp_all add: same_identity_def editable_def\<close>)
  then show ?thesis unfolding pause(1)
    by (intro disjI1 put_later [OF at, where y = "(c, steps)"]) (use c pause(2) in simp_all)
next
  case (drop code' c steps)
  with at show ?thesis by (cases "code' = code") auto
next
  case (admit c steps)
  with at show ?thesis by (cases "cm_code c = code") auto
qed (use at in auto)

text \<open>A campaign that is no longer a draft at rest is never deleted and only moves forward.\<close>

theorem touches_frozen:
  assumes "(touch stored)\<^sup>*\<^sup>* f f'" and "facts_ok f" and "cf_campaigns f code = Some x" and "\<not> editable (fst x)"
  shows "\<exists>x'. cf_campaigns f' code = Some x' \<and> later x x'"
  using assms(1)
proof (induction rule: rtranclp_induct)
  case base
  with assms(3) show ?case by auto
next
  case (step g h)
  then obtain y where y: "cf_campaigns g code = Some y" "later x y" by blast
  with assms(4) have "\<not> editable (fst y)" by (auto simp: later_def)
  moreover have "facts_ok g" using touches_facts_ok step.hyps(1) assms(2) by blast
  ultimately show ?case
    using touch_later [OF step.hyps(2) _ y(1)] y(2) later_trans by blast
qed

text \<open>A completed receipt stays.\<close>

lemma touches_receipt:
  assumes "(touch stored)\<^sup>*\<^sup>* f f'" and "cf_receipts f k = Some r" and "ir_completed r"
  shows "cf_receipts f' k = Some r"
  using assms(1)
proof (induction rule: rtranclp_induct)
  case (step g h)
  from step.hyps(2) step.IH assms(3) show ?case by cases auto
qed (fact assms(2))

section \<open>Calls are touches\<close>

definition call_event :: "instant \<Rightarrow> camp_call \<Rightarrow> string \<Rightarrow> AuditEvent" where
  "call_event now call t = \<lparr>av_type = t, av_code = fst (call_target call), av_actor = call_actor call,
     av_key = call_key call, av_at = now\<rparr>"

definition settle ::
  "(instant \<Rightarrow> instant) \<Rightarrow> instant \<Rightarrow> int \<Rightarrow> string \<Rightarrow> (Campaign \<times> Step list) option \<Rightarrow> campaign_facts \<Rightarrow> campaign_facts" where
  "settle stored now actor code x f = (case x of
     None \<Rightarrow> f\<lparr>cf_campaigns := (cf_campaigns f)(code := None)\<rparr>
   | Some (c, steps) \<Rightarrow> put_campaign (bumped stored actor now c) steps f)"

context campaign_contract
begin

lemma saveAudit_InrD:
  assumes inv: "inv s" and at: "cf_campaigns (facts s) (cm_code cur) = Some (old, steps0)"
    and same: "same_identity old cur" "cm_version cur = cm_version old" and sorted: "sorted (map st_index steps)"
    and run: "saveAudit R cur steps actor ev key now s = (Inr out, s')"
  shows "inv s' \<and> facts s' = log_event (audit \<lparr>av_type = ''cloud_campaign.'' @ ev, av_code = cm_code cur,
      av_actor = actor, av_key = key, av_at = now\<rparr>) (put_campaign (bumped stored actor now cur) steps (facts s))"
proof -
  let ?c = "cur\<lparr>cm_version := inc64 (cm_version cur), cm_updated_by := actor, cm_updated := now\<rparr>"
  from run obtain s1 where sv: "cr_save R ?c steps s = (Inr (), s1)"
    and app: "cr_append R \<lparr>av_type = ''cloud_campaign.'' @ ev, av_code = cm_code cur,
      av_actor = actor, av_key = key, av_at = now\<rparr> s1 = (Inr (), s')"
    by (auto simp: saveAudit_def Let_def tx_iff)
  have one: "inv s1 \<and> 0 < cm_version ?c \<and>
      facts s1 = put_campaign (?c\<lparr>cm_updated := stored (cm_updated ?c)\<rparr>) steps (facts s)"
    using save [OF inv _ _ _ sorted sv, of old steps0] at same by (simp add: same_identity_def)
  moreover have "?c\<lparr>cm_updated := stored (cm_updated ?c)\<rparr> = bumped stored actor now cur"
    using one keyed [OF inv at] same by (simp add: bumped_def inc64_pos)
  ultimately show ?thesis using append [OF _ app] by simp
qed

end

end
