(* ===== verification/CampaignCalls.thy ===== *)
theory CampaignCalls
  imports CampaignLife
begin

text \<open>
  The campaign service inside its contract: what each call does to the facts of the store
  when it commits, the exact refusals, replays and conflicts of idempotency keys, and batches.
\<close>

fun call_suffix :: "camp_call \<Rightarrow> string" where
  "call_suffix (CallAddStep _) = ''step_added''"
| "call_suffix (CallUpdateStep _) = ''step_updated''"
| "call_suffix (CallDeleteStep _) = ''step_deleted''"
| "call_suffix (CallApprove _) = ''approved''"
| "call_suffix (CallReject _) = ''rejected''"
| "call_suffix (CallPause _) = ''paused''"
| "call_suffix (CallStart _) = ''started''"
| "call_suffix (CallBatchStart _) = ''batch_started''"
| "call_suffix (CallDelete _) = ''deleted''"

definition call_type :: "camp_call \<Rightarrow> string" where
  "call_type call = ''cloud_campaign.'' @ call_suffix call"

fun is_batch :: "camp_call \<Rightarrow> bool" where
  "is_batch (CallBatchStart _) = True"
| "is_batch _ = False"

fun is_start :: "camp_call \<Rightarrow> bool" where
  "is_start (CallStart _) = True"
| "is_start _ = False"

lemma as_mutation_InrD:
  "as_mutation m s = (Inr out, s') \<Longrightarrow> \<exists>v. m s = (Inr v, s') \<and> out = mutation_result v"
  by (auto simp: as_mutation_def tx_iff)

lemma updated_step_index [simp]: "st_index (updated_step c s) = st_index s"
  by (simp add: updated_step_def Let_def split: option.split)

lemma spec_steps_valid:
  assumes "call_error call = None" and "validSteps steps" and "spec_body call (cur, steps) = Inr (Some (c, steps'))"
  shows "validSteps steps'"
proof (cases call)
  case (CallAddStep a)
  with assms show ?thesis using validSteps_add [of steps "sc_delay a" "sc_content a"] by (auto split: if_splits)
next
  case (CallUpdateStep a)
  with assms show ?thesis
    using validSteps_update [of steps a] by (auto simp: not_less split: if_splits)
next
  case (CallDeleteStep a)
  with assms show ?thesis by (auto split: if_splits intro!: validSteps_delete)
qed (use assms in \<open>auto split: if_splits\<close>)

lemma spec_body_same:
  "spec_body call (cur, steps) = Inr (Some (c, steps')) \<Longrightarrow>
   same_identity cur c \<and> cm_version c = cm_version cur \<and> cm_code c = cm_code cur"
  by (cases call) (auto simp: same_identity_def split: if_splits)

text \<open>The body of a call on one campaign is its decision, carried out.\<close>

definition delete_body :: "'s campaign_repo \<Rightarrow> instant \<Rightarrow> camp_call \<Rightarrow> Campaign \<Rightarrow> ('s, camp_error, OperationResult) tx" where
  "delete_body R now call cur =
     and_then (cr_delete R (cm_code cur) (cm_version cur)) (\<lambda>_.
     and_then (cr_append R \<lparr>av_type = call_type call, av_code = cm_code cur, av_actor = call_actor call,
         av_key = call_key call, av_at = now\<rparr>) (\<lambda>_.
     ret (delete_result \<lparr>dr_code = cm_code cur, dr_deleted = True, dr_projection = local_projection\<rparr>)))"

lemma locked_body_spec:
  assumes "\<not> is_start call" and "\<not> is_batch call"
  shows "locked_body R now call (cur, steps) =
    (case spec_body call (cur, steps) of Inl e \<Rightarrow> fail e
     | Inr None \<Rightarrow> delete_body R now call cur
     | Inr (Some (c, steps')) \<Rightarrow> as_mutation
         (saveAudit R c steps' (call_actor call) (call_suffix call) (call_key call) now))"
  using assms by (cases call) (simp_all add: editable_def delete_body_def call_type_def)

lemma call_body_locked:
  assumes "\<not> is_start call" and "\<not> is_batch call"
  shows "call_body R now call =
    and_then (lock_version R (fst (call_target call)) (snd (call_target call))) (locked_body R now call)"
  using assms by (cases call) simp_all

lemma spec_body_delete:
  "spec_body call (cur, steps) = Inr None \<Longrightarrow> editable cur \<and> \<not> is_start call \<and> \<not> is_batch call"
  by (cases call) (auto split: if_splits)

context campaign_contract
begin

lemma startDirect_eq:
  assumes "inv s"
  shows "startDirect R ev item actor key now op s =
    (case cf_campaigns (facts s) (bi_code item) of None \<Rightarrow> (Inl CErrNotFound, s)
     | Some (cur, steps) \<Rightarrow>
       if cm_version cur \<noteq> bi_version item then (Inl CErrConflict, s)
       else if cm_approval cur \<noteq> ApprovalApproved \<or> cm_runtime cur \<noteq> RuntimeIdle \<or> steps = []
       then (Inl CErrStateConflict, s)
       else (let c = cur\<lparr>cm_runtime := RuntimePlanned, cm_updated_by := actor, cm_updated := now,
                         cm_version := inc64 (cm_version cur)\<rparr> in
         and_then (cr_plan R c (int (length steps)) op now) (\<lambda>(plan, cmd).
           if \<not> validLocalPlanCommand plan cmd c (int (length steps)) op now then fail CErrUnavailable
           else and_then (cr_save R c steps) (\<lambda>_.
                and_then (cr_append R \<lparr>av_type = ev, av_code = cm_code c, av_actor = actor,
                    av_key = key, av_at = now\<rparr>) (\<lambda>_.
                ret \<lparr>mr_campaign = c, mr_command = Some cmd, mr_plan = Some plan,
                     mr_projection = local_projection\<rparr>))) s))"
  unfolding startDirect_def
  by (simp add: and_then_def [of "lock_version _ _ _"] lock_version_eq [OF assms] Let_def split: option.split prod.split)

lemma startDirect_InrD:
  assumes inv: "inv s" and ok: "facts_ok (facts s)"
    and run: "startDirect R ev item actor key now op s = (Inr out, s')"
  shows "\<exists>cur steps p k. cf_campaigns (facts s) (bi_code item) = Some (cur, steps) \<and>
    cm_version cur = bi_version item \<and> cm_approval cur = ApprovalApproved \<and> cm_runtime cur = RuntimeIdle \<and>
    steps \<noteq> [] \<and> lp_code p = cm_code cur \<and> lp_version p = cm_version cur + 1 \<and>
    lp_steps p = int (length steps) \<and> lc_plan k = lp_id p \<and> lc_code k = cm_code cur \<and>
    \<not> lc_real_send k \<and> \<not> lc_executed k \<and> inv s' \<and>
    facts s' = log_event (audit \<lparr>av_type = ev, av_code = cm_code cur, av_actor = actor, av_key = key, av_at = now\<rparr>)
      (put_campaign (bumped stored actor now (cur\<lparr>cm_runtime := RuntimePlanned\<rparr>)) steps
        ((facts s)\<lparr>cf_plans := cf_plans (facts s) @ [p], cf_commands := cf_commands (facts s) @ [k]\<rparr>))"
proof -
  obtain cur steps where at: "cf_campaigns (facts s) (bi_code item) = Some (cur, steps)"
      "cm_version cur = bi_version item" "cm_approval cur = ApprovalApproved" "cm_runtime cur = RuntimeIdle" "steps \<noteq> []"
    using run by (auto simp: startDirect_eq [OF inv] split: option.splits if_splits)
  let ?c = "cur\<lparr>cm_runtime := RuntimePlanned, cm_updated_by := actor, cm_updated := now,
                         cm_version := inc64 (cm_version cur)\<rparr>"
  obtain p k s1 s2 where plan: "cr_plan R ?c (int (length steps)) op now s = (Inr (p, k), s1)"
      and save: "cr_save R ?c steps s1 = (Inr (), s2)"
      and app: "cr_append R \<lparr>av_type = ev, av_code = cm_code cur, av_actor = actor, av_key = key, av_at = now\<rparr> s2 = (Inr (), s')"
    using run at by (auto simp: startDirect_eq [OF inv] Let_def tx_iff split: if_splits)
  note code = facts_okD [OF ok at(1)]
  have one: "inv s1" "validLocalPlanCommand p k ?c (int (length steps)) op now"
      "facts s1 = (facts s)\<lparr>cf_plans := cf_plans (facts s) @ [p\<lparr>lp_created := stored now\<rparr>],
                            cf_commands := cf_commands (facts s) @ [k\<lparr>lc_created := stored now\<rparr>]\<rparr>"
    using campaign_contract.plan [OF campaign_contract_axioms inv plan] by auto
  have two: "inv s2 \<and> 0 < cm_version ?c \<and>
      facts s2 = put_campaign (?c\<lparr>cm_updated := stored (cm_updated ?c)\<rparr>) steps (facts s1)"
    using campaign_contract.save [OF campaign_contract_axioms one(1) _ _ _ _ save, of cur steps] code at(1) one(3)
    by (simp add: same_identity_def validSteps_sorted)
  then have "inc64 (cm_version cur) = cm_version cur + 1"
    using code by (simp add: validCampaign_def inc64_pos)
  then have "?c\<lparr>cm_updated := stored (cm_updated ?c)\<rparr> = bumped stored actor now (cur\<lparr>cm_runtime := RuntimePlanned\<rparr>)"
    "lp_version p = cm_version cur + 1"
    using one(2) by (simp_all add: bumped_def validLocalPlanCommand_def)
  with one(2) two one(3) append [OF _ app] at show ?thesis
    by (intro exI [of _ cur] exI [of _ steps] exI [of _ "p\<lparr>lp_created := stored now\<rparr>"]
        exI [of _ "k\<lparr>lc_created := stored now\<rparr>"]) (simp add: validLocalPlanCommand_def)
qed

lemma call_body_InrD:
  assumes inv: "inv s" and ok: "facts_ok (facts s)" and valid: "call_error call = None"
    and single: "\<not> is_batch call" and run: "call_body R now call s = (Inr out, s')"
  shows "\<exists>x ps ks. spec_call call (cf_campaigns (facts s) (fst (call_target call))) = Inr x \<and> inv s' \<and>
    facts s' = log_event (audit (call_event now call (call_type call)))
      (settle stored now (call_actor call) (fst (call_target call)) x
        ((facts s)\<lparr>cf_plans := cf_plans (facts s) @ ps, cf_commands := cf_commands (facts s) @ ks\<rparr>)) \<and>
    (if is_start call
     then \<exists>p k. ps = [p] \<and> ks = [k] \<and> lp_code p = fst (call_target call) \<and>
       lp_version p = snd (call_target call) + 1 \<and>
       (\<exists>cur steps. cf_campaigns (facts s) (fst (call_target call)) = Some (cur, steps) \<and> lp_steps p = int (length steps)) \<and>
       lc_plan k = lp_id p \<and> lc_code k = lp_code p \<and> \<not> lc_real_send k \<and> \<not> lc_executed k
     else ps = [] \<and> ks = []) \<and>
    (case x of None \<Rightarrow> fst (call_target call) \<notin> lp_code ` set (cf_plans (facts s)) | Some _ \<Rightarrow> True)"
proof (cases "is_start call")
  case True
  then obtain c where call: "call = CallStart c" by (cases call) auto
  with run obtain v where "startDirect R ''cloud_campaign.started'' \<lparr>bi_code = vc_code c, bi_version = vc_version c\<rparr>
        (vc_actor c) (vc_key c) now CommandStart s = (Inr v, s')"
    by (auto dest: as_mutation_InrD)
  from startDirect_InrD [OF inv ok this] obtain cur steps p k where
    d: "cf_campaigns (facts s) (vc_code c) = Some (cur, steps)" "cm_version cur = vc_version c"
      "cm_approval cur = ApprovalApproved" "cm_runtime cur = RuntimeIdle" "steps \<noteq> []" "inv s'"
      "lp_code p = cm_code cur" "lp_version p = cm_version cur + 1" "lp_steps p = int (length steps)"
      "lc_plan k = lp_id p" "lc_code k = cm_code cur" "\<not> lc_real_send k" "\<not> lc_executed k"
      "facts s' = log_event (audit \<lparr>av_type = ''cloud_campaign.started'', av_code = cm_code cur, av_actor = vc_actor c,
          av_key = vc_key c, av_at = now\<rparr>)
        (put_campaign (bumped stored (vc_actor c) now (cur\<lparr>cm_runtime := RuntimePlanned\<rparr>)) steps
          ((facts s)\<lparr>cf_plans := cf_plans (facts s) @ [p], cf_commands := cf_commands (facts s) @ [k]\<rparr>))"
    by auto
  have "cm_code cur = vc_code c" using facts_okD [OF ok d(1)] by simp
  with d show ?thesis
    by (intro exI [of _ "Some (cur\<lparr>cm_runtime := RuntimePlanned\<rparr>, steps)"] exI [of _ "[p]"] exI [of _ "[k]"])
      (simp add: call spec_call_def call_event_def call_type_def settle_def)
next
  case False
  from run obtain cur steps s1 where lock: "lock_version R (fst (call_target call)) (snd (call_target call)) s = (Inr (cur, steps), s1)"
    and body: "locked_body R now call (cur, steps) s1 = (Inr out, s')"
    by (auto simp: call_body_locked [OF False single] tx_iff)
  from lock_version_InrD [OF inv lock] body have at: "cf_campaigns (facts s) (fst (call_target call)) = Some (cur, steps)"
      "cm_version cur = snd (call_target call)" "cm_code cur = fst (call_target call)"
    and body: "locked_body R now call (cur, steps) s = (Inr out, s')"
    by auto
  note c = facts_okD [OF ok at(1)]
  show ?thesis
  proof (cases "spec_body call (cur, steps)")
    case (Inl e)
    with body show ?thesis by (simp add: locked_body_spec [OF False single])
  next
    case (Inr x)
    have spec: "spec_call call (cf_campaigns (facts s) (fst (call_target call))) = Inr x"
      by (simp add: spec_call_def at Inr)
    show ?thesis
    proof (cases x)
      case None
      with Inr body obtain s1 where del: "cr_delete R (cm_code cur) (cm_version cur) s = (Inr (), s1)"
        and app: "cr_append R \<lparr>av_type = call_type call, av_code = cm_code cur, av_actor = call_actor call,
          av_key = call_key call, av_at = now\<rparr> s1 = (Inr (), s')"
        by (auto simp: locked_body_spec [OF False single] delete_body_def tx_iff)
      have "inv s1 \<and> cm_code cur \<notin> lp_code ` set (cf_plans (facts s)) \<and>
          facts s1 = (facts s)\<lparr>cf_campaigns := (cf_campaigns (facts s))(cm_code cur := None)\<rparr>"
        by (rule campaign_contract.delete [OF campaign_contract_axioms inv _ _ del])
          (use at spec_body_delete Inr None in auto)
      then show ?thesis
        using spec None False append [OF _ app] at(3)
        by (intro exI [of _ x] exI [of _ "[]"]) (simp add: settle_def call_event_def)
    next
      case (Some y)
      obtain d steps' where y: "y = (d, steps')" by (cases y)
      with Some Inr body obtain v where save: "saveAudit R d steps' (call_actor call) (call_suffix call) (call_key call) now s = (Inr v, s')"
        by (auto simp: locked_body_spec [OF False single] dest: as_mutation_InrD)
      have dec: "spec_body call (cur, steps) = Inr (Some (d, steps'))" using Inr Some y by simp
      have d: "same_identity cur d" "cm_version d = cm_version cur" "cm_code d = cm_code cur"
        using spec_body_same [OF dec] by auto
      have "validSteps steps'" using spec_steps_valid [OF valid _ dec] c by simp
      then have "sorted (map st_index steps')" by (rule validSteps_sorted)
      moreover have "cf_campaigns (facts s) (cm_code d) = Some (cur, steps)" using at d(3) by simp
      ultimately have "inv s' \<and> facts s' = log_event (audit \<lparr>av_type = ''cloud_campaign.'' @ call_suffix call,
          av_code = cm_code d, av_actor = call_actor call, av_key = call_key call, av_at = now\<rparr>)
          (put_campaign (bumped stored (call_actor call) now d) steps' (facts s))"
        using saveAudit_InrD [OF inv _ d(1,2) _ save] by blast
      then show ?thesis
        using spec Some y False at(3) d(3)
        by (intro exI [of _ x] exI [of _ "[]"]) (simp add: settle_def call_event_def call_type_def)
    qed
  qed
qed

text \<open>A decision that refuses is refused with the same error, and writes nothing.\<close>

lemma call_body_Inl:
  assumes inv: "inv s" and single: "\<not> is_batch call"
    and dec: "spec_call call (cf_campaigns (facts s) (fst (call_target call))) = Inl e"
  shows "call_body R now call s = (Inl e, s)"
proof (cases "is_start call")
  case True
  then obtain c where "call = CallStart c" by (cases call) auto
  with dec show ?thesis
    by (auto simp: as_mutation_def and_then_def startDirect_eq [OF inv] spec_call_def split: option.splits if_splits)
next
  case False
  with dec show ?thesis
    by (auto simp: call_body_locked [OF False single] and_then_def lock_version_eq [OF inv] spec_call_def
        locked_body_spec [OF False single] split: option.splits if_splits)
qed

end

end
