(* ===== verification/CampaignRuns.thy ===== *)
theory CampaignRuns
  imports CampaignCalls
begin

text \<open>
  Runs of the campaign service: committed calls as sequences of touches, batches item by
  item, idempotency keys, and the histories of a PostgreSQL store under calls, imports and
  the writes of other services.
\<close>

section \<open>Decisions as touches\<close>

lemma decision_touch:
  assumes ok: "facts_ok f" and valid: "call_error call = None"
    and dec: "spec_call call (cf_campaigns f (fst (call_target call))) = Inr x"
    and actor: "0 < call_actor call" and now: "stored now \<noteq> 0"
    and plans: "if is_start call
     then \<exists>p k. ps = [p] \<and> ks = [k] \<and> lp_code p = fst (call_target call) \<and>
       lp_version p = snd (call_target call) + 1 \<and>
       (\<exists>cur steps. cf_campaigns f (fst (call_target call)) = Some (cur, steps) \<and> lp_steps p = int (length steps)) \<and>
       lc_plan k = lp_id p \<and> lc_code k = lp_code p \<and> \<not> lc_real_send k \<and> \<not> lc_executed k
     else ps = [] \<and> ks = []"
    and free: "case x of None \<Rightarrow> fst (call_target call) \<notin> lp_code ` set (cf_plans f) | Some _ \<Rightarrow> True"
  shows "touch stored f (settle stored now (call_actor call) (fst (call_target call)) x
    (f\<lparr>cf_plans := cf_plans f @ ps, cf_commands := cf_commands f @ ks\<rparr>))"
proof -
  obtain cur steps where at: "cf_campaigns f (fst (call_target call)) = Some (cur, steps)"
      "cm_version cur = snd (call_target call)" and body: "spec_body call (cur, steps) = Inr x"
    using dec by (auto simp: spec_call_def split: option.splits if_splits)
  note c = facts_okD [OF ok at(1)]
  have steps_ok: "validSteps steps'" if "x = Some (d, steps')" for d steps'
    using spec_steps_valid [OF valid _ body [unfolded that]] c by simp
  show ?thesis
  proof (cases "is_start call")
    case True
    then obtain v where call: "call = CallStart v" by (cases call) auto
    with plans at obtain p k where "ps = [p]" "ks = [k]" "lp_code p = cm_code cur"
      "lp_version p = cm_version cur + 1" "lp_steps p = int (length steps)"
      "lc_plan k = lp_id p" "lc_code k = cm_code cur" "\<not> lc_real_send k" "\<not> lc_executed k"
      using c by auto
    with body call actor now touch.plan [OF at(1)] show ?thesis
      by (auto simp: settle_def split: if_splits)
  next
    case False
    with plans have none: "ps = []" "ks = []" by simp_all
    show ?thesis
    proof (cases x)
      case None
      with spec_body_delete body have "editable cur" by blast
      with None free show ?thesis by (simp add: none settle_def touch.drop [OF at(1)])
    next
      case (Some y)
      obtain d steps' where y: "y = (d, steps')" by (cases y)
      note edits = touch.edit [OF at(1), of steps' "call_actor call" stored now]
        and decides = touch.decide [OF at(1), of _ "call_actor call" stored now]
        and pauses = touch.pause [OF at(1), of "call_actor call" stored now]
      show ?thesis
        using body Some y steps_ok [of d steps'] False actor now edits decides [of ApprovalApproved]
          decides [of ApprovalRejected] pauses
        by (cases call) (auto simp: settle_def none split: if_splits)
    qed
  qed
qed

lemma settle_touches:
  "touch stored f g \<Longrightarrow> (touch stored)\<^sup>*\<^sup>* f (log_event e g)"
  by (meson converse_rtranclp_into_rtranclp r_into_rtranclp touch.note_event)

section \<open>Batches\<close>

text \<open>The start of one item of a batch, as a call on its own.\<close>

definition item_call :: "int \<Rightarrow> string \<Rightarrow> BatchStartItem \<Rightarrow> camp_call" where
  "item_call actor key i = CallStart \<lparr>vc_code = bi_code i, vc_version = bi_version i, vc_actor = actor, vc_key = key\<rparr>"

definition startable :: "campaign_facts \<Rightarrow> BatchStartItem \<Rightarrow> bool" where
  "startable f i = (case cf_campaigns f (bi_code i) of None \<Rightarrow> False
   | Some (c, steps) \<Rightarrow> cm_version c = bi_version i \<and> cm_approval c = ApprovalApproved \<and>
       cm_runtime c = RuntimeIdle \<and> steps \<noteq> [])"

text \<open>What a batch makes of the campaign of an item.\<close>

definition start_result ::
  "(instant \<Rightarrow> instant) \<Rightarrow> int \<Rightarrow> instant \<Rightarrow> campaign_facts \<Rightarrow> BatchStartItem \<Rightarrow> (Campaign \<times> Step list) option" where
  "start_result stored actor now f i = (if startable f i
     then map_option (\<lambda>(c, steps). (bumped stored actor now (c\<lparr>cm_runtime := RuntimePlanned\<rparr>), steps))
       (cf_campaigns f (bi_code i))
     else cf_campaigns f (bi_code i))"

lemma start_result_cong:
  "cf_campaigns g (bi_code i) = cf_campaigns f (bi_code i) \<Longrightarrow>
   start_result stored actor now g i = start_result stored actor now f i"
  by (simp add: start_result_def startable_def)

lemma startable_cong:
  "cf_campaigns g (bi_code i) = cf_campaigns f (bi_code i) \<Longrightarrow> startable g i = startable f i"
  by (simp add: startable_def)

lemma batch_items_failed:
  "batch_items R actor key now items out s = (out', s') \<Longrightarrow> set (br_failed out) \<subseteq> set (br_failed out')"
  by (induction items arbitrary: out s) (fastforce split: prod.splits sum.splits if_splits)+

context campaign_contract
begin

lemma startDirect_touch:
  assumes inv: "inv s" and ok: "facts_ok (facts s)" and actor: "0 < actor" and now: "stored now \<noteq> 0"
    and run: "startDirect R ev item actor key now op s = (Inr out, s')"
  shows "(touch stored)\<^sup>*\<^sup>* (facts s) (facts s') \<and> inv s' \<and> startable (facts s) item \<and>
    (\<forall>code. code \<noteq> bi_code item \<longrightarrow> cf_campaigns (facts s') code = cf_campaigns (facts s) code) \<and>
    cf_campaigns (facts s') (bi_code item) = start_result stored actor now (facts s) item \<and>
    cf_receipts (facts s') = cf_receipts (facts s)"
proof -
  from startDirect_InrD [OF inv ok run] obtain cur steps p k where
    d: "cf_campaigns (facts s) (bi_code item) = Some (cur, steps)" "cm_version cur = bi_version item"
      "cm_approval cur = ApprovalApproved" "cm_runtime cur = RuntimeIdle" "steps \<noteq> []" "inv s'"
    and p: "lp_code p = cm_code cur" "lp_version p = cm_version cur + 1" "lp_steps p = int (length steps)"
      "lc_plan k = lp_id p" "lc_code k = cm_code cur" "\<not> lc_real_send k" "\<not> lc_executed k"
    and f: "facts s' = log_event (audit \<lparr>av_type = ev, av_code = cm_code cur, av_actor = actor, av_key = key, av_at = now\<rparr>)
      (put_campaign (bumped stored actor now (cur\<lparr>cm_runtime := RuntimePlanned\<rparr>)) steps
        ((facts s)\<lparr>cf_plans := cf_plans (facts s) @ [p], cf_commands := cf_commands (facts s) @ [k]\<rparr>))"
    by blast
  have code: "cm_code cur = bi_code item" using facts_okD [OF ok d(1)] by simp
  show ?thesis
    using settle_touches [OF touch.plan [where stored = stored and now = now, OF d(1,3,4,5) actor now p]] d code
    by (simp add: f startable_def start_result_def)
qed

lemma startDirect_skip:
  assumes inv: "inv s" and ok: "facts_ok (facts s)" and run: "startDirect R ev item actor key now op s = (Inl e, s')"
    and skip: "skippable e"
  shows "s' = s \<and> \<not> startable (facts s) item"
proof (cases "startable (facts s) item")
  case False
  with run show ?thesis
    by (auto simp: startDirect_eq [OF inv] startable_def split: option.splits if_splits)
next
  case True
  then obtain cur steps where at: "cf_campaigns (facts s) (bi_code item) = Some (cur, steps)"
      "cm_version cur = bi_version item" "cm_approval cur = ApprovalApproved" "cm_runtime cur = RuntimeIdle" "steps \<noteq> []"
    by (auto simp: startable_def split: option.splits)
  let ?c = "cur\<lparr>cm_runtime := RuntimePlanned, cm_updated_by := actor, cm_updated := now,
                         cm_version := inc64 (cm_version cur)\<rparr>"
  note code = facts_okD [OF ok at(1)]
  note eq = startDirect_eq [OF inv, of ev item actor key now op]
  have unavailable: "\<not> skippable CErrUnavailable" by (simp add: skippable_def)
  have False
  proof (cases "cr_plan R ?c (int (length steps)) op now s")
    case (Pair r s1)
    show False
    proof (cases r)
      case (Inl err)
      with Pair run at skip plan_error [OF inv] show False by (auto simp: eq Let_def)
    next
      case (Inr pk)
      obtain p k where pk: "pk = (p, k)" by (cases pk)
      have one: "inv s1" "cf_campaigns (facts s1) (cm_code ?c) = Some (cur, steps)"
        using campaign_contract.plan [OF campaign_contract_axioms inv Pair [unfolded Inr pk]] at code by auto
      show False
      proof (cases "cr_save R ?c steps s1")
        case save: (Pair r2 s2)
        show False
        proof (cases r2)
          case (Inl err)
          have "\<not> skippable err" using save_error [OF one, of ] save Inl by auto
          with save Inl Pair Inr pk run at skip unavailable show False by (auto simp: eq Let_def split: if_splits)
        next
          case ok2: (Inr u)
          have "inv s2"
            using campaign_contract.save [OF campaign_contract_axioms one(1,2), of steps u s2] save ok2 code
            by (simp add: same_identity_def validSteps_sorted)
          with append_error save ok2 Pair Inr pk run at skip unavailable show False
            by (auto simp: eq Let_def and_then_def split: if_splits prod.splits sum.splits)
        qed
      qed
    qed
  qed
  then show ?thesis ..
qed

text \<open>
  A batch whose items have different codes: the started items are the startable ones, the
  others are skipped, and nothing else changes.
\<close>

lemma batch_items_InrD:
  assumes "inv s" and "facts_ok (facts s)" and "0 < actor" and "stored now \<noteq> 0"
    and "distinct (map bi_code items)" and "batch_items R actor key now items out s = (out', s')"
    and "br_failed out' = []"
  shows "(touch stored)\<^sup>*\<^sup>* (facts s) (facts s') \<and> inv s' \<and> br_failed out = [] \<and>
    br_skipped out' = br_skipped out @ filter (\<lambda>i. \<not> startable (facts s) i) items \<and>
    map (\<lambda>m. cm_code (mr_campaign m)) (br_started out') =
      map (\<lambda>m. cm_code (mr_campaign m)) (br_started out) @ map bi_code (filter (startable (facts s)) items) \<and>
    (\<forall>code. code \<notin> bi_code ` set items \<longrightarrow> cf_campaigns (facts s') code = cf_campaigns (facts s) code) \<and>
    (\<forall>i \<in> set items. cf_campaigns (facts s') (bi_code i) = start_result stored actor now (facts s) i) \<and>
    cf_receipts (facts s') = cf_receipts (facts s)"
  using assms
proof (induction items arbitrary: out s)
  case (Cons item items)
  let ?run = "startDirect R ''cloud_campaign.batch_started'' item actor key now CommandBatchStart s"
  obtain r s1 where run: "?run = (r, s1)" by (cases ?run)
  show ?case
  proof (cases r)
    case (Inr one)
    note t = startDirect_touch [OF Cons.prems(1-4) run [unfolded Inr]]
    then have ok1: "facts_ok (facts s1)" using touches_facts_ok Cons.prems(2) by blast
    have "batch_items R actor key now items (out\<lparr>br_started := br_started out @ [one]\<rparr>) s1 = (out', s')"
      using Cons.prems(6) run Inr by simp
    note ih = Cons.IH [OF _ ok1 Cons.prems(3,4) _ this Cons.prems(7)]
    have others: "cf_campaigns (facts s1) (bi_code i) = cf_campaigns (facts s) (bi_code i)" if "i \<in> set items" for i
    proof -
      have "bi_code i \<noteq> bi_code item" using imageI [OF that, of bi_code] Cons.prems(5) by auto
      with t show ?thesis by blast
    qed
    have same: "startable (facts s1) i = startable (facts s) i"
      "start_result stored actor now (facts s1) i = start_result stored actor now (facts s) i" if "i \<in> set items" for i
      using startable_cong start_result_cong others [OF that] by blast+
    have one: "cm_code (mr_campaign one) = bi_code item"
      using run Inr facts_okD [OF Cons.prems(2)] t
      by (auto simp: startDirect_eq [OF Cons.prems(1)] Let_def tx_iff startable_def split: option.splits if_splits)
    have "filter (startable (facts s1)) items = filter (startable (facts s)) items"
      "filter (\<lambda>i. \<not> startable (facts s1) i) items = filter (\<lambda>i. \<not> startable (facts s) i) items"
      using same by (auto intro: filter_cong)
    moreover have "\<forall>i \<in> set items. start_result stored actor now (facts s1) i = start_result stored actor now (facts s) i"
      using same(2) by blast
    ultimately show ?thesis using ih t one Cons.prems(5) by (auto intro: rtranclp_trans)
  next
    case (Inl e)
    show ?thesis
    proof (cases "skippable e")
      case True
      note t = startDirect_skip [OF Cons.prems(1,2) run [unfolded Inl] True]
      with Cons.prems(6) run Inl True
      have "batch_items R actor key now items (out\<lparr>br_skipped := br_skipped out @ [item]\<rparr>) s = (out', s')" by simp
      from Cons.IH [OF Cons.prems(1-4) _ this Cons.prems(7)] Cons.prems(5) t show ?thesis by (simp add: start_result_def)
    next
      case False
      with Cons.prems(6) run Inl
      have "batch_items R actor key now items (out\<lparr>br_failed := br_failed out @ [item]\<rparr>) s1 = (out', s')" by simp
      then have "set (br_failed (out\<lparr>br_failed := br_failed out @ [item]\<rparr>)) \<subseteq> set (br_failed out')"
        by (rule batch_items_failed)
      with Cons.prems(7) show ?thesis by simp
    qed
  qed
qed simp

end

section \<open>Idempotency keys\<close>

lemma call_error_None:
  "call_error call = None \<Longrightarrow> validKey (call_key call) \<and> 0 < call_actor call"
  by (cases call) (auto simp: versioned_error_def validVersioned_def validBatch_def split: if_splits)

lemma call_body_part:
  assumes "call_body R now call s = (Inr out, s')"
  shows "result_part call out = Some out"
proof (cases "is_start call \<or> is_batch call")
  case True
  with assms show ?thesis
    by (cases call) (auto simp: mutation_part_def mutation_result_def batch_result_def Let_def
        dest!: as_mutation_InrD split: prod.splits if_splits)
next
  case False
  then have single: "\<not> is_start call" "\<not> is_batch call" by auto
  from assms obtain cur steps s1 where "locked_body R now call (cur, steps) s1 = (Inr out, s')"
    by (auto simp: call_body_locked [OF single] tx_iff)
  with single show ?thesis
    by (cases call) (auto simp: mutation_part_def mutation_result_def delete_result_def tx_iff Let_def
        dest!: as_mutation_InrD split: if_splits)
qed

definition key_of :: "campaign_env \<Rightarrow> camp_call \<Rightarrow> int \<times> string" where
  "key_of E call = (call_actor call, ce_sha256 E (call_key call))"

definition payload_of :: "campaign_env \<Rightarrow> camp_call \<Rightarrow> string" where
  "payload_of E call = digest_of E (call_payload E call)"

text \<open>What is left of a call after its body: the receipt, or the rollback.\<close>

definition finished ::
  "'s campaign_repo \<Rightarrow> IdempotencyRecord \<Rightarrow> 's \<Rightarrow> (camp_error + OperationResult) \<times> 's \<Rightarrow> (camp_error + OperationResult) \<times> 's" where
  "finished R r s m = (case m of (Inl e, _) \<Rightarrow> (Inl (classify e), s)
     | (Inr out, s2) \<Rightarrow> (case cr_complete R (ir_id r) out s2 of
          (Inl e, _) \<Rightarrow> (Inl (classify e), s) | (Inr _, s3) \<Rightarrow> (Inr out, s3)))"

lemma finished_Inr_iff:
  "finished R r s m = (Inr out, s') \<longleftrightarrow> (\<exists>s2. m = (Inr out, s2) \<and> cr_complete R (ir_id r) out s2 = (Inr (), s'))"
  by (auto simp: finished_def split: prod.splits sum.splits)

definition reservation :: "campaign_env \<Rightarrow> instant \<Rightarrow> camp_call \<Rightarrow> Reservation" where
  "reservation E now call = \<lparr>rv_actor = call_actor call, rv_operation = call_operation call,
     rv_key = ce_sha256 E (call_key call), rv_payload = payload_of E call, rv_created = now\<rparr>"

lemma keyed_call_fresh:
  assumes "validKey (call_key call)" and "now \<noteq> 0"
    and "cr_reserve R (reservation E now call) s = (Inr (r, False), s1)"
  shows "keyed_call E R now call s = finished R r s (call_body R now call s1)"
  using assms
  by (auto simp: keyed_call_def svc_reserve_def classified_def within_def and_then_def payload_of_def reservation_def
      finished_def split: prod.split sum.split)

text \<open>The receipt records the call with its result.\<close>

definition records :: "campaign_env \<Rightarrow> camp_call \<Rightarrow> OperationResult \<Rightarrow> IdempotencyRecord \<Rightarrow> bool" where
  "records E call out r \<longleftrightarrow> ir_completed r \<and> ir_operation r = call_operation call \<and> ir_payload r = payload_of E call \<and>
     (\<exists>res. ir_result r = Some res \<and> result_part call res = Some out)"

context campaign_contract
begin

lemma keyed_known:
  assumes inv: "inv s" and valid: "call_error call = None" and now: "now \<noteq> 0"
    and at: "cf_receipts (facts s) (key_of E call) = Some r"
  shows "keyed_call E R now call s =
    (if ir_operation r \<noteq> call_operation call \<or> ir_payload r \<noteq> payload_of E call
     then (Inl CErrIdempotencyConflict, s)
     else if \<not> ir_completed r then (Inl CErrUnavailable, s)
     else (case ir_result r of None \<Rightarrow> (Inl CErrUnavailable, s)
           | Some res \<Rightarrow> (case result_part call res of None \<Rightarrow> (Inl CErrUnavailable, s) | Some out \<Rightarrow> (Inr out, s))))"
  using call_error_None [OF valid] now
    reserved [OF inv, of "\<lparr>rv_actor = call_actor call, rv_operation = call_operation call,
       rv_key = ce_sha256 E (call_key call), rv_payload = payload_of E call, rv_created = now\<rparr>" r] at
  by (auto simp: keyed_call_def svc_reserve_def classified_def within_def and_then_def key_of_def payload_of_def
      split: option.split)

lemma keyed_fresh:
  assumes inv: "inv s" and valid: "call_error call = None" and now: "now \<noteq> 0"
    and fresh: "cf_receipts (facts s) (key_of E call) = None"
  shows "\<exists>r s1. inv s1 \<and> (ir_actor r, ir_key r) = key_of E call \<and> ir_operation r = call_operation call \<and>
    ir_payload r = payload_of E call \<and> \<not> ir_completed r \<and>
    facts s1 = (facts s)\<lparr>cf_receipts := (cf_receipts (facts s))(key_of E call \<mapsto> r)\<rparr> \<and>
    keyed_call E R now call s = finished R r s (call_body R now call s1)"
proof -
  from reserve [OF inv, of "reservation E now call"] fresh obtain r s1 where
    res: "cr_reserve R (reservation E now call) s = (Inr (r, False), s1)"
    and r: "inv s1" "ir_actor r = call_actor call" "ir_key r = ce_sha256 E (call_key call)"
      "ir_operation r = call_operation call" "ir_payload r = payload_of E call" "\<not> ir_completed r"
      "facts s1 = (facts s)\<lparr>cf_receipts := (cf_receipts (facts s))(key_of E call \<mapsto> r)\<rparr>"
    by (auto simp: key_of_def reservation_def)
  have "keyed_call E R now call s = finished R r s (call_body R now call s1)"
    using call_error_None [OF valid] by (intro keyed_call_fresh [OF _ now res]) simp
  with r show ?thesis by (intro exI [of _ r] exI [of _ s1]) (simp add: key_of_def)
qed

lemma call_body_keeps:
  assumes inv: "inv s" and ok: "facts_ok (facts s)" and valid: "call_error call = None"
    and now: "stored now \<noteq> 0" and run: "call_body R now call s = (Inr out, s')"
  shows "inv s' \<and> (touch stored)\<^sup>*\<^sup>* (facts s) (facts s') \<and> cf_receipts (facts s') = cf_receipts (facts s)"
proof (cases "is_batch call")
  case True
  then obtain c where c: "call = CallBatchStart c" by (cases call) auto
  obtain b s1 where b: "batch_items R (bc_actor c) (bc_key c) now (bc_items c) empty_batch s = (b, s1)"
    by (cases "batch_items R (bc_actor c) (bc_key c) now (bc_items c) empty_batch s")
  with run c have "br_failed b = []" "s1 = s'" by (auto split: if_splits)
  with batch_items_InrD [OF inv ok _ now _ b] valid c show ?thesis
    by (auto simp: validBatch_def split: if_splits)
next
  case False
  from call_body_InrD [OF inv ok valid False run] obtain x ps ks where
    d: "spec_call call (cf_campaigns (facts s) (fst (call_target call))) = Inr x" "inv s'"
      "facts s' = log_event (audit (call_event now call (call_type call)))
        (settle stored now (call_actor call) (fst (call_target call)) x
          ((facts s)\<lparr>cf_plans := cf_plans (facts s) @ ps, cf_commands := cf_commands (facts s) @ ks\<rparr>))"
    and t: "touch stored (facts s) (settle stored now (call_actor call) (fst (call_target call)) x
          ((facts s)\<lparr>cf_plans := cf_plans (facts s) @ ps, cf_commands := cf_commands (facts s) @ ks\<rparr>))"
    using decision_touch [OF ok valid] call_error_None [OF valid] now by blast
  from settle_touches [OF t] d show ?thesis
    by (simp add: settle_def split: option.split prod.split)
qed

lemma run_call_ran:
  assumes "run_call E R now call s = (Inr out, s')"
  shows "call_error call = None \<and> now \<noteq> 0 \<and> keyed_call E R now call s = (Inr out, s')"
proof (cases "call_error call")
  case None
  with assms have "keyed_call E R now call s = (Inr out, s')" by (simp add: run_call_keyed [OF ready])
  then show ?thesis using None by (auto simp: keyed_call_def)
qed (use assms in \<open>simp add: run_call_keyed [OF ready]\<close>)

theorem run_call_InrD:
  assumes inv: "inv s" and ok: "facts_ok (facts s)" and now: "stored now \<noteq> 0"
    and run: "run_call E R now call s = (Inr out, s')"
  shows "inv s' \<and> (touch stored)\<^sup>*\<^sup>* (facts s) (facts s') \<and>
    (\<exists>r. cf_receipts (facts s') (key_of E call) = Some r \<and> records E call out r)"
proof -
  from run_call_ran [OF run] have valid: "call_error call = None" and "now \<noteq> 0"
    and keyed: "keyed_call E R now call s = (Inr out, s')" by blast+
  show ?thesis
  proof (cases "cf_receipts (facts s) (key_of E call)")
    case (Some r)
    with keyed keyed_known [OF inv valid \<open>now \<noteq> 0\<close> Some] inv show ?thesis
      by (auto simp: records_def split: if_splits option.splits)
  next
    case None
    from keyed_fresh [OF inv valid \<open>now \<noteq> 0\<close> None] obtain r s1 where
      r: "inv s1" "(ir_actor r, ir_key r) = key_of E call" "ir_operation r = call_operation call"
        "ir_payload r = payload_of E call" "\<not> ir_completed r"
      and f1: "facts s1 = (facts s)\<lparr>cf_receipts := (cf_receipts (facts s))(key_of E call \<mapsto> r)\<rparr>"
      and eq: "keyed_call E R now call s = finished R r s (call_body R now call s1)"
      by (elim exE conjE) (rule that; assumption)
    from keyed eq have "finished R r s (call_body R now call s1) = (Inr out, s')" by simp
    then obtain s2 where body: "call_body R now call s1 = (Inr out, s2)"
      and fin: "cr_complete R (ir_id r) out s2 = (Inr (), s')"
      by (auto simp only: finished_Inr_iff)
    have t1: "touch stored (facts s) (facts s1)"
      unfolding f1 by (rule touch.receipt) (use None in auto)
    have ok1: "facts_ok (facts s1)" using touch_facts_ok [OF t1 ok] .
    note keeps = call_body_keeps [OF r(1) ok1 valid now body]
    obtain a k where key: "key_of E call = (a, k)" by (cases "key_of E call")
    have at: "cf_receipts (facts s2) (a, k) = Some r" using keeps by (simp add: f1 key)
    have last: "inv s' \<and> facts s' = (facts s2)\<lparr>cf_receipts := (cf_receipts (facts s2))((a, k) \<mapsto>
          r\<lparr>ir_completed := True, ir_result := Some out\<rparr>)\<rparr>"
      by (rule complete [OF _ at _ _ r(5) fin]) (use keeps r key in auto)
    have "touch stored (facts s2) (facts s')"
      using last at r(5) by (auto intro!: touch.receipt)
    then have "(touch stored)\<^sup>*\<^sup>* (facts s) (facts s')"
      using t1 keeps by (meson converse_rtranclp_into_rtranclp rtranclp.rtrancl_into_rtrancl)
    with last r call_body_part [OF body] show ?thesis by (simp add: key records_def)
  qed
qed

text \<open>A recorded call is answered from its receipt, at any later time.\<close>

lemma replayed:
  assumes "inv t" and "call_error call = None" and "now \<noteq> 0"
    and "cf_receipts (facts t) (key_of E call) = Some r" and "records E call out r"
  shows "run_call E R now call t = (Inr out, t)"
  using keyed_known [OF assms(1-4)] assms(2,5) by (auto simp: run_call_keyed [OF ready] records_def)

lemma conflicting:
  assumes "inv t" and "call_error call' = None" and "now \<noteq> 0"
    and "cf_receipts (facts t) (key_of E call') = Some r" and "records E call out r"
    and "call_operation call' \<noteq> call_operation call \<or> payload_of E call' \<noteq> payload_of E call"
  shows "run_call E R now call' t = (Inl CErrIdempotencyConflict, t)"
  using keyed_known [OF assms(1-4)] assms(2,5,6) by (auto simp: run_call_keyed [OF ready] records_def)

lemma refused:
  assumes inv: "inv s" and valid: "call_error call = None" and now: "now \<noteq> 0" and single: "\<not> is_batch call"
    and fresh: "cf_receipts (facts s) (key_of E call) = None"
    and dec: "spec_call call (cf_campaigns (facts s) (fst (call_target call))) = Inl e"
  shows "run_call E R now call s = (Inl e, s)"
proof -
  from keyed_fresh [OF inv valid now fresh] obtain r s1 where "inv s1"
    "cf_campaigns (facts s1) = cf_campaigns (facts s)"
    and run: "keyed_call E R now call s = finished R r s (call_body R now call s1)"
    by (elim exE conjE) simp
  then have "call_body R now call s1 = (Inl e, s1)" using call_body_Inl [OF _ single] dec by simp
  moreover have "classify e = e" using dec
    by (cases call) (auto simp: spec_call_def split: option.splits if_splits)
  ultimately show ?thesis using run valid by (simp add: run_call_keyed [OF ready] finished_def)
qed

end

end
