(* ===== verification/CampaignHistory.thy ===== *)
theory CampaignHistory
  imports CampaignRuns
begin

text \<open>
  Histories of the PostgreSQL store: the calls of the service, the historical imports, the
  foreign keys that other tables add and remove, and the events that other services append.
  Every step keeps the constraints of the schema and is a sequence of touches on the facts.
\<close>

section \<open>Failures write nothing\<close>

lemma keyed_call_Inl: "keyed_call E R now call s = (Inl e, s') \<Longrightarrow> s' = s"
  by (auto simp: keyed_call_def classified_def split: if_splits prod.splits sum.splits dest: within_Inl_restores)

lemma run_call_Inl:
  assumes "cr_ready R" and "run_call E R now call s = (Inl e, s')"
  shows "s' = s"
  using assms(2) by (auto simp: run_call_keyed [OF assms(1)] split: option.splits dest: keyed_call_Inl)

section \<open>Imports\<close>

lemma insert_historical_steps_InrD:
  "insert_historical_steps code ss db = (Inr u, db') \<Longrightarrow> insert_steps code ss db = (Inr u, db')"
proof (induction ss arbitrary: db)
  case (Cons s ss)
  then obtain db1 where "insert_step code s db = (Inr (), db1)" "insert_historical_steps code ss db1 = (Inr u, db')"
    by (auto simp: tx_iff InsertHistoricalCampaignStep_def split: if_splits)
  with Cons.IH show ?case by (auto simp: tx_iff)
qed simp

text \<open>The campaign that an import leaves behind.\<close>

definition imported :: "Campaign \<Rightarrow> Campaign" where
  "imported c = c\<lparr>cm_approval := ApprovalRejected, cm_runtime := RuntimePaused, cm_version := 1,
     cm_created := pg_micros (cm_created c), cm_updated := pg_micros (cm_updated c)\<rparr>"

lemma imported_sel [simp]:
  "cm_code (imported c) = cm_code c" "cm_approval (imported c) = ApprovalRejected"
  "cm_runtime (imported c) = RuntimePaused" "cm_version (imported c) = 1"
  by (simp_all add: imported_def)

lemma find_campaign_append:
  "find_campaign code (db\<lparr>cloud_campaigns := cloud_campaigns db @ [c]\<rparr>) =
    (case find_campaign code db of None \<Rightarrow> if cm_code c = code then Some c else None | Some x \<Rightarrow> Some x)"
  by (simp add: find_campaign_def find_append split: option.split)

lemma InsertHistoricalDefinition_InrD:
  assumes ok: "camp_db_ok db" and steps: "sorted (map st_index (hd_steps d))"
    and run: "InsertHistoricalDefinition d db = (Inr u, db')"
  shows "camp_db_ok db' \<and> campaign_at db (cm_code (hd_campaign d)) = None \<and>
    pg_facts db' = put_campaign (imported (hd_campaign d)) (hd_steps d) (pg_facts db)"
proof -
  let ?c = "imported (hd_campaign d)"
  let ?code = "cm_code (hd_campaign d)"
  let ?db1 = "db\<lparr>cloud_campaigns := cloud_campaigns db @ [?c]\<rparr>"
  from run have fresh: "find_campaign ?code db = None"
    and hist: "insert_historical_steps ?code (hd_steps d) ?db1 = (Inr u, db')"
    by (auto simp: InsertHistoricalDefinition_def InsertHistoricalCampaignDefinition_def imported_def tx_iff
        split: if_splits)
  have rows: "distinct (map (\<lambda>r. (fst r, st_index (snd r))) (campaign_steps ?db1))"
    using ok by (simp add: camp_db_ok_def)
  have "find_campaign ?code ?db1 \<noteq> None"
    using fresh by (simp add: find_campaign_append)
  note ins = insert_steps_InrD [OF insert_historical_steps_InrD [OF hist] rows this]
  have db': "db' = ?db1\<lparr>campaign_steps := campaign_steps db @ map (Pair ?code) (hd_steps d)\<rparr>"
    using ins by simp
  have texts: "list_all (\<lambda>s. pg_text (st_content s)) (hd_steps d)"
    and keys: "distinct (map (\<lambda>r. (fst r, st_index (snd r))) (campaign_steps db'))"
    using ins by blast+
  have none: "filter (\<lambda>r. fst r \<noteq> ?code) (campaign_steps db) = campaign_steps db"
    using ok fresh by (intro filter_True) (auto simp: camp_db_ok_def list_all_iff find_campaign_None)
  have find: "find_campaign code db' = (if code = ?code then Some ?c else find_campaign code db)" for code
    using fresh find_campaign_append [of code db ?c]
    by (auto simp: db' find_campaign_def split: option.splits)
  have steps_at: "steps_of code db' = (if code = ?code then hd_steps d else steps_of code db)" for code
  proof -
    have "campaign_steps db' = filter (\<lambda>r. fst r \<noteq> ?code) (campaign_steps db) @ map (Pair ?code) (hd_steps d)"
      unfolding none by (simp add: db')
    then show ?thesis unfolding steps_of_def by (simp only: steps_of_replaced [OF steps])
  qed
  have at: "campaign_at db' = (campaign_at db)(?code \<mapsto> (?c, hd_steps d))"
    by (rule ext) (simp add: campaign_at_def find steps_at)
  have codes: "map cm_code (cloud_campaigns db') = map cm_code (cloud_campaigns db) @ [?code]"
    by (simp add: db')
  have new: "?code \<notin> set (map cm_code (cloud_campaigns db))"
    using fresh by (simp only: find_campaign_None not_False_eq_True)
  have "camp_db_ok db'"
    unfolding camp_db_ok_def codes using ok texts keys new
    by (auto simp: camp_db_ok_def db' list_all_iff max_int64_def)
  moreover have "pg_facts db' = put_campaign ?c (hd_steps d) (pg_facts db)"
    by (simp add: pg_facts_def put_campaign_def at) (simp add: db' find_receipt_def)
  ultimately show ?thesis using fresh by (simp add: campaign_at_def)
qed

lemma validCampaign_imported:
  assumes "validCampaign c" and "pg_micros (cm_created c) \<noteq> 0" and "pg_micros (cm_updated c) \<noteq> 0"
  shows "validCampaign (imported c)"
  using assms by (simp add: validCampaign_def imported_def)

text \<open>A committed import either found its journal entry or admitted one campaign.\<close>

lemma historical_import_InrD:
  assumes ok: "camp_db_ok db" and run: "historical_import J d db = (Inr r, db')"
    and times: "pg_micros (cm_created (hd_campaign d)) \<noteq> 0" "pg_micros (cm_updated (hd_campaign d)) \<noteq> 0"
  shows "camp_db_ok db' \<and> (db' = db \<or>
    touch pg_micros (pg_facts db) (pg_facts db') \<and>
    pg_facts db' = put_campaign (imported (hd_campaign d)) (hd_steps d) (pg_facts db) \<and>
    campaign_at db (cm_code (hd_campaign d)) = None)"
proof (cases "hj_load J (hd_source d)")
  case (Inl e)
  with run show ?thesis by (simp add: historical_import_def split: if_splits)
next
  case (Inr known)
  show ?thesis
  proof (cases known)
    case (Some x)
    with Inr run ok show ?thesis by (auto simp: historical_import_def split: if_splits)
  next
    case None
    let ?d = "d\<lparr>hd_campaign := (hd_campaign d)\<lparr>cm_approval := ApprovalRejected,
                           cm_runtime := RuntimePaused, cm_version := 1\<rparr>\<rparr>"
    from run None Inr have valid: "validHistoricalDefinition d"
      and ins: "InsertHistoricalDefinition ?d db = (Inr (), db')"
      by (auto simp: historical_import_def Let_def tx_iff split: if_splits)
    have "sorted (map st_index (hd_steps ?d))"
      using valid by (simp add: validHistoricalDefinition_def validSteps_sorted)
    from InsertHistoricalDefinition_InrD [OF ok this ins]
    have d: "camp_db_ok db'" "campaign_at db (cm_code (hd_campaign d)) = None"
      "pg_facts db' = put_campaign (imported (hd_campaign d)) (hd_steps d) (pg_facts db)"
      by (simp_all add: imported_def)
    have "touch pg_micros (pg_facts db) (pg_facts db')"
      unfolding d(3)
      by (rule touch.admit)
        (use valid d times in \<open>simp_all add: validHistoricalDefinition_def validCampaign_imported\<close>)
    with d show ?thesis by blast
  qed
qed

section \<open>Histories\<close>

definition micros_set :: "HistoricalDefinition \<Rightarrow> bool" where
  "micros_set d \<longleftrightarrow> pg_micros (cm_created (hd_campaign d)) \<noteq> 0 \<and> pg_micros (cm_updated (hd_campaign d)) \<noteq> 0"

inductive camp_step :: "campaign_env \<Rightarrow> camp_db \<Rightarrow> camp_db \<Rightarrow> bool" for E where
  a_call: "pg_micros now \<noteq> 0 \<Longrightarrow> run_call E (pg_campaigns E) now call db = (r, db') \<Longrightarrow> camp_step E db db'"
| an_import: "micros_set d \<Longrightarrow> within (historical_import J d) db = (r, db') \<Longrightarrow> camp_step E db db'"
| a_reference: "camp_step E db (db\<lparr>campaign_refs := refs\<rparr>)"
| an_event: "AppendEvent row db = (r, db') \<Longrightarrow> camp_step E db db'"

inductive_cases camp_stepE: "camp_step E db db'"

abbreviation reachable_from :: "campaign_env \<Rightarrow> camp_db \<Rightarrow> camp_db \<Rightarrow> bool" where
  "reachable_from E \<equiv> (camp_step E)\<^sup>*\<^sup>*"

definition camp_inv :: "camp_db \<Rightarrow> bool" where
  "camp_inv db \<longleftrightarrow> camp_db_ok db \<and> facts_ok (pg_facts db)"

lemma camp_inv_empty: "camp_inv empty_camp_db"
  using empty_camp_db_ok
  by (auto simp: camp_inv_def facts_ok_def campaign_at_def find_campaign_def empty_camp_db_def)

lemma AppendEvent_touch:
  assumes ok: "camp_db_ok db" and run: "AppendEvent row db = (r, db')"
  shows "camp_db_ok db' \<and> (touch stored)\<^sup>*\<^sup>* (pg_facts db) (pg_facts db')"
proof (cases "List.find (\<lambda>r. ev_key r = ev_key row) (event_log db)")
  case (Some x)
  with run have "db' = db" by (auto simp: AppendEvent_def split: if_splits)
  with ok show ?thesis by simp
next
  case None
  with run have db': "db' = db\<lparr>event_log := event_log db @ [row\<lparr>ev_id := next_event db\<rparr>],
      next_event := next_event db + 1\<rparr>"
    by (auto simp: AppendEvent_def)
  have fresh: "row\<lparr>ev_id := 0\<rparr> \<notin> set (cf_events (pg_facts db))"
  proof
    assume "row\<lparr>ev_id := 0\<rparr> \<in> set (cf_events (pg_facts db))"
    then obtain e where e: "e \<in> set (event_log db)" "row\<lparr>ev_id := 0\<rparr> = e\<lparr>ev_id := 0\<rparr>" by auto
    from arg_cong [OF e(2), of ev_key] have "ev_key e = ev_key row" by simp
    with None e(1) show False by (auto simp: find_None_iff)
  qed
  have "campaign_at db' = campaign_at db" by (rule campaign_at_cong) (simp_all add: db')
  then have "pg_facts db' = log_event (row\<lparr>ev_id := 0\<rparr>) (pg_facts db)"
    using fresh by (simp add: pg_facts_def log_event_def) (simp add: db' find_receipt_def)
  moreover have "camp_db_ok db'" using ok unfolding camp_db_ok_def db' by auto
  ultimately show ?thesis using touch.note_event [of stored "pg_facts db" "row\<lparr>ev_id := 0\<rparr>"] by auto
qed

theorem camp_step_touches:
  assumes "camp_step E db db'" and inv: "camp_inv db"
  shows "camp_db_ok db' \<and> (touch pg_micros)\<^sup>*\<^sup>* (pg_facts db) (pg_facts db')"
  using assms(1)
proof cases
  case (a_call now call r)
  show ?thesis
  proof (cases r)
    case (Inl e)
    have "db' = db" using run_call_Inl [OF _ a_call(2) [unfolded Inl]] by simp
    with inv show ?thesis by (simp add: camp_inv_def)
  next
    case (Inr out)
    with a_call inv camp.run_call_InrD [where s = db and s' = db' and now = now and call = call and out = out and E = E] show ?thesis
      by (simp add: camp_inv_def)
  qed
next
  case (an_import d J r)
  show ?thesis
  proof (cases r)
    case (Inl e)
    have "db' = db" using an_import(2) by (auto simp only: Inl dest: within_Inl_restores)
    with inv show ?thesis by (simp add: camp_inv_def)
  next
    case (Inr out)
    with an_import have "historical_import J d db = (Inr out, db')" by (simp add: within_Inr_iff)
    with an_import(1) inv historical_import_InrD [of db J d out db'] show ?thesis
      by (auto simp: camp_inv_def micros_set_def)
  qed
next
  case (a_reference refs)
  have "campaign_at db' = campaign_at db" by (rule campaign_at_cong) (simp_all add: a_reference)
  then have "pg_facts db' = pg_facts db" by (simp add: pg_facts_def) (simp add: a_reference find_receipt_def)
  moreover have "camp_db_ok db'" using inv by (simp add: a_reference camp_inv_def camp_db_ok_def)
  ultimately show ?thesis by simp
next
  case (an_event row r)
  with inv show ?thesis using AppendEvent_touch [OF _ an_event] by (simp add: camp_inv_def)
qed

theorem reachable_touches:
  assumes "reachable_from E db db'" and "camp_inv db"
  shows "camp_inv db' \<and> (touch pg_micros)\<^sup>*\<^sup>* (pg_facts db) (pg_facts db')"
  using assms
proof (induction rule: rtranclp_induct)
  case (step b c)
  then have b: "camp_inv b" "(touch pg_micros)\<^sup>*\<^sup>* (pg_facts db) (pg_facts b)" by blast+
  with camp_step_touches [OF step.hyps(2)] have c: "camp_db_ok c" "(touch pg_micros)\<^sup>*\<^sup>* (pg_facts b) (pg_facts c)"
    by blast+
  with touches_facts_ok b(1) have "facts_ok (pg_facts c)" by (auto simp: camp_inv_def)
  with b c show ?case by (auto simp: camp_inv_def)
qed simp

section \<open>One committed call, exactly\<close>

text \<open>The rows a start adds, and no other call adds any.\<close>

definition plan_rows :: "camp_call \<Rightarrow> (Campaign \<times> Step list) option \<Rightarrow> Plan list \<Rightarrow> Command list \<Rightarrow> bool" where
  "plan_rows call target ps ks \<longleftrightarrow>
    (if is_start call
     then \<exists>p k. ps = [p] \<and> ks = [k] \<and> lp_code p = fst (call_target call) \<and>
       lp_version p = snd (call_target call) + 1 \<and>
       (\<exists>cur steps. target = Some (cur, steps) \<and> lp_steps p = int (length steps)) \<and>
       lc_plan k = lp_id p \<and> lc_code k = lp_code p \<and> \<not> lc_real_send k \<and> \<not> lc_executed k
     else ps = [] \<and> ks = [])"

context campaign_contract
begin

lemma committed:
  assumes inv: "inv s" and ok: "facts_ok (facts s)" and now: "stored now \<noteq> 0" and single: "\<not> is_batch call"
    and fresh: "cf_receipts (facts s) (key_of E call) = None"
    and run: "run_call E R now call s = (Inr out, s')"
  shows "\<exists>x ps ks r. spec_call call (cf_campaigns (facts s) (fst (call_target call))) = Inr x \<and>
    plan_rows call (cf_campaigns (facts s) (fst (call_target call))) ps ks \<and> records E call out r \<and>
    facts s' = (log_event (audit (call_event now call (call_type call)))
      (settle stored now (call_actor call) (fst (call_target call)) x
        ((facts s)\<lparr>cf_plans := cf_plans (facts s) @ ps, cf_commands := cf_commands (facts s) @ ks\<rparr>)))
      \<lparr>cf_receipts := (cf_receipts (facts s))(key_of E call \<mapsto> r)\<rparr>"
proof -
  from run_call_ran [OF run] have valid: "call_error call = None" and "now \<noteq> 0"
    and keyed: "keyed_call E R now call s = (Inr out, s')" by blast+
  from keyed_fresh [OF inv valid \<open>now \<noteq> 0\<close> fresh] obtain r s1 where
    r: "inv s1" "(ir_actor r, ir_key r) = key_of E call" "ir_operation r = call_operation call"
      "ir_payload r = payload_of E call" "\<not> ir_completed r"
    and f1: "facts s1 = (facts s)\<lparr>cf_receipts := (cf_receipts (facts s))(key_of E call \<mapsto> r)\<rparr>"
    and eq: "keyed_call E R now call s = finished R r s (call_body R now call s1)"
    by (elim exE conjE) (rule that; assumption)
  from keyed eq have "finished R r s (call_body R now call s1) = (Inr out, s')" by simp
  then obtain s2 where body: "call_body R now call s1 = (Inr out, s2)"
    and fin: "cr_complete R (ir_id r) out s2 = (Inr (), s')"
    by (auto simp only: finished_Inr_iff)
  have ok1: "facts_ok (facts s1)" using ok by (simp add: f1 facts_ok_def)
  have same: "cf_campaigns (facts s1) = cf_campaigns (facts s)" by (simp add: f1)
  from call_body_InrD [OF r(1) ok1 valid single body, unfolded same, folded plan_rows_def] obtain x ps ks where
    d: "spec_call call (cf_campaigns (facts s) (fst (call_target call))) = Inr x" "inv s2"
      "plan_rows call (cf_campaigns (facts s) (fst (call_target call))) ps ks"
    and f2: "facts s2 = log_event (audit (call_event now call (call_type call)))
        (settle stored now (call_actor call) (fst (call_target call)) x
          ((facts s1)\<lparr>cf_plans := cf_plans (facts s1) @ ps, cf_commands := cf_commands (facts s1) @ ks\<rparr>))"
    by (elim exE conjE) (rule that; assumption)
  obtain a k where key: "key_of E call = (a, k)" by (cases "key_of E call")
  have at: "cf_receipts (facts s2) (a, k) = Some r"
    by (simp add: f2 f1 key settle_def split: option.split)
  have "facts s' = (facts s2)\<lparr>cf_receipts := (cf_receipts (facts s2))((a, k) \<mapsto>
          r\<lparr>ir_completed := True, ir_result := Some out\<rparr>)\<rparr>"
    using complete [OF d(2) at _ _ r(5) fin] r key by auto
  moreover have "records E call out (r\<lparr>ir_completed := True, ir_result := Some out\<rparr>)"
    using r call_body_part [OF body] by (simp add: records_def)
  ultimately show ?thesis
    using d(1,3)
    by (intro exI [of _ x] exI [of _ ps] exI [of _ ks] exI [of _ "r\<lparr>ir_completed := True, ir_result := Some out\<rparr>"])
      (auto simp: f2 f1 key settle_def log_event_def put_campaign_def split: option.split)
qed

lemma batch_committed:
  assumes inv: "inv s" and ok: "facts_ok (facts s)" and now: "stored now \<noteq> 0"
    and fresh: "cf_receipts (facts s) (key_of E (CallBatchStart c)) = None"
    and run: "run_call E R now (CallBatchStart c) s = (Inr out, s')"
  shows "\<exists>b. out = batch_result b \<and> br_failed b = [] \<and>
    br_skipped b = filter (\<lambda>i. \<not> startable (facts s) i) (bc_items c) \<and>
    map (\<lambda>m. cm_code (mr_campaign m)) (br_started b) = map bi_code (filter (startable (facts s)) (bc_items c)) \<and>
    (\<forall>code. code \<notin> bi_code ` set (bc_items c) \<longrightarrow> cf_campaigns (facts s') code = cf_campaigns (facts s) code) \<and>
    (\<forall>i \<in> set (bc_items c). cf_campaigns (facts s') (bi_code i) = start_result stored (bc_actor c) now (facts s) i)"
proof -
  let ?call = "CallBatchStart c"
  from run_call_ran [OF run] have valid: "call_error ?call = None" and "now \<noteq> 0"
    and keyed: "keyed_call E R now ?call s = (Inr out, s')" by blast+
  from keyed_fresh [OF inv valid \<open>now \<noteq> 0\<close> fresh] obtain r s1 where
    r: "inv s1" "(ir_actor r, ir_key r) = key_of E ?call" "\<not> ir_completed r"
    and f1: "facts s1 = (facts s)\<lparr>cf_receipts := (cf_receipts (facts s))(key_of E ?call \<mapsto> r)\<rparr>"
    and eq: "keyed_call E R now ?call s = finished R r s (call_body R now ?call s1)"
    by (elim exE conjE) (rule that; assumption)
  from keyed eq have "finished R r s (call_body R now ?call s1) = (Inr out, s')" by simp
  then obtain s2 where body: "call_body R now ?call s1 = (Inr out, s2)"
    and fin: "cr_complete R (ir_id r) out s2 = (Inr (), s')"
    by (auto simp only: finished_Inr_iff)
  obtain b s3 where b: "batch_items R (bc_actor c) (bc_key c) now (bc_items c) empty_batch s1 = (b, s3)"
    by (cases "batch_items R (bc_actor c) (bc_key c) now (bc_items c) empty_batch s1")
  with body have out: "out = batch_result b" "br_failed b = []" "s3 = s2" by (auto split: if_splits)
  have ok1: "facts_ok (facts s1)" using ok by (simp add: f1 facts_ok_def)
  have "0 < bc_actor c" "distinct (map bi_code (bc_items c))"
    using valid by (auto simp: validBatch_def split: if_splits)
  note items = batch_items_InrD [OF r(1) ok1 \<open>0 < bc_actor c\<close> now \<open>distinct _\<close> b out(2)]
  have same: "startable (facts s1) = startable (facts s)"
    "start_result stored (bc_actor c) now (facts s1) = start_result stored (bc_actor c) now (facts s)"
    by (rule ext, rule startable_cong start_result_cong, simp add: f1)+
  obtain a k where key: "key_of E ?call = (a, k)" by (cases "key_of E ?call")
  have "inv s2" "cf_receipts (facts s2) (a, k) = Some r" using items out by (simp_all add: f1 key)
  then have "facts s' = (facts s2)\<lparr>cf_receipts := (cf_receipts (facts s2))((a, k) \<mapsto>
          r\<lparr>ir_completed := True, ir_result := Some out\<rparr>)\<rparr>"
    using complete [OF _ _ _ _ r(3) fin] r key by auto
  then have "cf_campaigns (facts s') = cf_campaigns (facts s2)" by simp
  moreover have "cf_campaigns (facts s1) = cf_campaigns (facts s)" by (simp add: f1)
  ultimately show ?thesis using items out
    by (intro exI [of _ b]) (simp add: same empty_batch_def)
qed

end

section \<open>Expected versions\<close>

text \<open>No later call on the campaign can expect the version: it is past, or nothing is allowed.\<close>

definition version_spent :: "string \<Rightarrow> int \<Rightarrow> campaign_facts \<Rightarrow> bool" where
  "version_spent code v f \<longleftrightarrow> (case cf_campaigns f code of None \<Rightarrow> True
   | Some (c, _) \<Rightarrow> v < cm_version c \<or> (cm_approval c = ApprovalRejected \<and> cm_runtime c = RuntimePaused))"

lemma version_spent_cong: "cf_campaigns g = cf_campaigns f \<Longrightarrow> version_spent code v g = version_spent code v f"
  by (simp add: version_spent_def)

lemma touch_version_spent:
  assumes "touch stored f f'" and ok: "facts_ok f" and spent: "version_spent code v f"
  shows "version_spent code v f'"
  using assms(1)
proof cases
  case (edit code' c steps steps' actor now)
  with spent facts_okD [OF ok edit(2)] show ?thesis
    by (auto simp: version_spent_def editable_def split: if_splits)
next
  case (decide code' c steps a actor now)
  with spent facts_okD [OF ok decide(2)] show ?thesis
    by (auto simp: version_spent_def editable_def split: if_splits)
next
  case (plan code' c steps actor now p k)
  with spent facts_okD [OF ok plan(2)] show ?thesis
    by (auto simp: version_spent_def split: if_splits)
next
  case (pause code' c steps actor now)
  with spent facts_okD [OF ok pause(2)] show ?thesis
    by (auto simp: version_spent_def split: if_splits)
next
  case (drop code' c steps)
  with spent show ?thesis by (auto simp: version_spent_def)
next
  case (admit c steps)
  with spent show ?thesis by (auto simp: version_spent_def)
qed (use spent in \<open>auto simp: version_spent_def\<close>)

lemma touches_version_spent:
  "(touch stored)\<^sup>*\<^sup>* f f' \<Longrightarrow> facts_ok f \<Longrightarrow> version_spent code v f \<Longrightarrow> version_spent code v f'"
proof (induction rule: rtranclp_induct)
  case (step g h)
  then show ?case using touch_version_spent touches_facts_ok by blast
qed simp

lemma spec_call_spent:
  assumes "version_spent (fst (call_target call)) (snd (call_target call)) f" and "\<not> is_batch call"
  shows "\<exists>e \<in> {CErrNotFound, CErrConflict, CErrStateConflict}.
    spec_call call (cf_campaigns f (fst (call_target call))) = Inl e"
proof (cases "cf_campaigns f (fst (call_target call))")
  case None
  then show ?thesis by (simp add: spec_call_def)
next
  case (Some y)
  obtain c steps where y: "y = (c, steps)" by (cases y)
  show ?thesis
  proof (cases "cm_version c = snd (call_target call)")
    case True
    with assms(1) Some y have "cm_approval c = ApprovalRejected" "cm_runtime c = RuntimePaused"
      by (auto simp: version_spent_def)
    with Some y True assms(2) show ?thesis by (cases call) (simp_all add: spec_call_def editable_def)
  qed (simp add: spec_call_def Some y)
qed

section \<open>The life of imported campaigns\<close>

definition at_rest :: "campaign_facts \<Rightarrow> bool" where
  "at_rest f \<longleftrightarrow> cf_plans f = [] \<and> (\<forall>code c steps. cf_campaigns f code = Some (c, steps) \<longrightarrow>
     cm_approval c = ApprovalRejected \<and> cm_runtime c = RuntimePaused \<and> cm_version c = 1)"

lemma at_restD:
  "at_rest f \<Longrightarrow> cf_campaigns f code = Some (c, steps) \<Longrightarrow>
   cm_approval c = ApprovalRejected \<and> cm_runtime c = RuntimePaused \<and> cm_version c = 1"
  unfolding at_rest_def by blast

lemma touch_at_rest:
  assumes "touch stored f f'" and rest: "at_rest f"
  shows "at_rest f'"
  using assms(1)
proof cases
  case (edit code c steps steps' actor now)
  with at_restD [OF rest edit(2)] show ?thesis by (simp add: editable_def)
next
  case (decide code c steps a actor now)
  with at_restD [OF rest decide(2)] show ?thesis by (simp add: editable_def)
next
  case (plan code c steps actor now p k)
  with at_restD [OF rest plan(2)] show ?thesis by simp
next
  case (pause code c steps actor now)
  with at_restD [OF rest pause(2)] show ?thesis by simp
qed (use rest in \<open>auto simp: at_rest_def split: if_splits\<close>)

lemma touches_at_rest: "(touch stored)\<^sup>*\<^sup>* f f' \<Longrightarrow> at_rest f \<Longrightarrow> at_rest f'"
  by (induction rule: rtranclp_induct) (auto intro: touch_at_rest)

lemma at_rest_spent: "at_rest f \<Longrightarrow> version_spent code v f"
  by (auto simp: at_rest_def version_spent_def split: option.split)

end
