(* ===== verification/CampaignProgress.thy ===== *)
theory CampaignProgress
  imports CampaignHistory
begin

text \<open>
  When a call on the PostgreSQL store commits: each write of an allowed call goes through,
  unless the version is at its maximum, a text cannot be stored, another table refers to the
  campaign, or the audit key is taken.
\<close>

section \<open>Single writes\<close>

definition storable :: "Step list \<Rightarrow> bool" where
  "storable steps \<longleftrightarrow> (\<forall>s \<in> set steps. pg_text (st_content s))"

lemma insert_steps_commits:
  assumes "find_campaign code db \<noteq> None" and "storable ss"
    and "\<And>s. s \<in> set ss \<Longrightarrow> 0 < st_index s \<and> 0 \<le> st_delay s \<and> st_content s \<noteq> []"
    and "distinct (map st_index ss)"
    and "\<And>r s. r \<in> set (campaign_steps db) \<Longrightarrow> s \<in> set ss \<Longrightarrow> fst r = code \<Longrightarrow> st_index (snd r) \<noteq> st_index s"
  shows "\<exists>db'. insert_steps code ss db = (Inr (), db')"
  using assms
proof (induction ss arbitrary: db)
  case (Cons s ss)
  let ?db = "db\<lparr>campaign_steps := campaign_steps db @ [(code, s)]\<rparr>"
  have "insert_step code s db = (Inr (), ?db)"
    using Cons.prems by (force simp: insert_step_def storable_def list_ex_iff)
  moreover have "\<exists>db'. insert_steps code ss ?db = (Inr (), db')"
  proof (rule Cons.IH)
    show "find_campaign code ?db \<noteq> None" using Cons.prems(1) by (simp add: find_campaign_def)
    show "storable ss" using Cons.prems(2) by (simp add: storable_def)
  qed (use Cons.prems(3-5) in \<open>fastforce+\<close>)
  ultimately show ?case by auto
qed simp

lemma validSteps_distinct: "validSteps steps \<Longrightarrow> distinct (map st_index steps)"
  by (auto simp: validSteps_def steps_from_iff distinct_conv_nth)

lemma validSteps_rows:
  assumes "validSteps steps" and "s \<in> set steps"
  shows "0 < st_index s \<and> 0 \<le> st_delay s \<and> st_content s \<noteq> []"
proof -
  from assms(2) obtain k where "k < length steps" "s = steps ! k" by (auto simp: in_set_conv_nth)
  with assms(1) have "st_index s = int k + 1" "validStepFields (st_delay s) (st_content s)"
    by (auto simp: validSteps_def steps_from_iff)
  then show ?thesis by (auto simp: validStepFields_def validDelay_def validContent_def)
qed

lemma pg_save_commits:
  assumes ok: "camp_db_ok db" and at: "campaign_at db (cm_code c) = Some (old, steps0)"
    and v: "cm_version c = inc64 (cm_version old)" "cm_version old < max_int64"
    and valid: "approval_valid (cm_approval c)" "runtime_valid (cm_runtime c)"
    and steps: "validSteps steps" "storable steps"
  shows "\<exists>db'. pg_save c steps db = (Inr (), db')"
proof -
  let ?hit = "\<lambda>row. cm_code row = cm_code c \<and> cm_version row = dec64 (cm_version c)"
  let ?db1 = "db\<lparr>cloud_campaigns := map (\<lambda>row. if ?hit row then saved_row c row else row) (cloud_campaigns db)\<rparr>"
  let ?db2 = "?db1\<lparr>campaign_steps := filter (\<lambda>r. fst r \<noteq> cm_code c) (campaign_steps db)\<rparr>"
  note old = pg_keyed [OF ok at]
  have row: "old \<in> set (cloud_campaigns db)" "cm_code old = cm_code c"
    using at find_campaign_Some [of "cm_code c" db old] by (auto simp: campaign_at_def)
  have dec: "dec64 (cm_version c) = cm_version old" and pos: "0 < cm_version c"
    using v old by (simp_all add: dec64_inc64) (simp add: inc64_less)
  have "update_campaign c db = (Inr (), ?db1)"
    using row dec pos valid by (auto simp: update_campaign_def Let_def list_ex_iff)
  moreover have "delete_steps (cm_code c) ?db1 = (Inr (), ?db2)" by (simp add: delete_steps_def)
  moreover have "\<exists>db'. insert_steps (cm_code c) steps ?db2 = (Inr (), db')"
  proof (rule insert_steps_commits)
    show "find_campaign (cm_code c) ?db2 \<noteq> None"
      using row by (simp add: find_campaign_None o_def saved_row_def image_iff) (rule bexI [of _ old], simp_all)
  qed (use steps validSteps_distinct validSteps_rows in auto)
  ultimately show ?thesis by (auto simp: pg_save_def)
qed

lemma trim_space_hex: "s \<noteq> [] \<Longrightarrow> trim_space (hex_encode s) \<noteq> []"
proof -
  assume "s \<noteq> []"
  then have "hex_encode s \<noteq> []" by (cases s) simp_all
  moreover have "is_lower_hex c \<Longrightarrow> byte c < 128 \<and> \<not> is_space [c]" for c
    by (auto simp: is_lower_hex_def is_digit_def in_range_def is_space_def)
  then have "\<forall>c \<in> set (hex_encode s). byte c < 128 \<and> \<not> is_space [c]"
    using hex_encode_lower [of s] by (auto simp only: list_all_iff)
  ultimately show ?thesis by (simp add: plain_text)
qed

definition audit_free :: "campaign_env \<Rightarrow> AuditEvent \<Rightarrow> camp_db \<Rightarrow> bool" where
  "audit_free E e db \<longleftrightarrow> ce_sha256 E (audit_key_text e) \<noteq> [] \<and>
     list_all (\<lambda>r. ev_key r \<noteq> ev_key (audit_row E 0 e)) (event_log db)"

lemma pg_append_commits:
  assumes "camp_db_ok db" and "av_at e \<noteq> 0" and "audit_free E e db"
  shows "\<exists>db'. pg_append E e db = (Inr (), db')"
proof -
  have "List.find (\<lambda>r. ev_key r = ev_key (audit_row E 0 e)) (event_log db) = None"
    using assms(3) by (auto simp: find_None_iff audit_free_def list_all_iff)
  then show ?thesis
    using assms by (auto simp: pg_append_def AppendEvent_def camp_db_ok_def audit_free_def trim_space_hex audit_row_def)
qed

lemma audit_events_cong:
  assumes "cf_events (pg_facts db') = cf_events (pg_facts db)"
  shows "audit_free E e db' = audit_free E e db"
proof -
  have "map ev_key (event_log db') = map ev_key (event_log db)"
    using arg_cong [OF assms, of "map ev_key"] by (simp add: o_def)
  then have "ev_key ` set (event_log db') = ev_key ` set (event_log db)" by (metis set_map)
  then have "(\<forall>r \<in> set (event_log db'). ev_key r \<noteq> k) = (\<forall>r \<in> set (event_log db). ev_key r \<noteq> k)" for k
    by (metis imageE imageI)
  then show ?thesis by (simp add: audit_free_def list_all_iff)
qed

lemma pg_delete_commits:
  assumes at: "campaign_at db code = Some (c, steps)" and "editable c" and "\<not> referenced code db"
  shows "\<exists>db'. pg_delete code (cm_version c) db = (Inr (), db')"
proof -
  have "c \<in> set (cloud_campaigns db)" "cm_code c = code"
    using at find_campaign_Some [of code db c] by (auto simp: campaign_at_def)
  with assms show ?thesis by (auto simp: pg_delete_def Let_def list_ex_iff editable_def)
qed

lemma pg_complete_commits:
  assumes "find_receipt a k db = Some r" and "\<not> ir_completed r"
  shows "\<exists>db'. pg_complete (ir_id r) out db = (Inr (), db')"
  using assms find_receipt_in [OF assms(1)] by (auto simp: pg_complete_def Let_def list_ex_iff)

section \<open>Whole calls\<close>

text \<open>The state in which the body of a call with a fresh key runs.\<close>

lemma pg_keyed_fresh:
  assumes ok: "camp_db_ok db" and valid: "call_error call = None" and now: "now \<noteq> 0"
    and fresh: "find_receipt (call_actor call) (ce_sha256 E (call_key call)) db = None"
  shows "\<exists>r rs n. let db1 = db\<lparr>op_receipts := rs, next_op_receipt := n\<rparr> in
    camp_db_ok db1 \<and> find_receipt (call_actor call) (ce_sha256 E (call_key call)) db1 = Some r \<and> \<not> ir_completed r \<and>
    run_call E (pg_campaigns E) now call db =
      finished (pg_campaigns E) r db (call_body (pg_campaigns E) now call db1)"
proof -
  let ?x = "reservation E now call"
  have "find_receipt (rv_actor ?x) (rv_key ?x) db = None" using fresh by (simp add: reservation_def)
  from pg_reserve_law [OF ok this] obtain r db1 where res: "pg_reserve ?x db = (Inr (r, False), db1)"
    and db1: "camp_db_ok db1" "\<not> ir_completed r"
    and f: "pg_facts db1 = (pg_facts db)\<lparr>cf_receipts := (cf_receipts (pg_facts db))((rv_actor ?x, rv_key ?x) \<mapsto> r)\<rparr>"
    by blast
  have "cf_receipts (pg_facts db1) (rv_actor ?x, rv_key ?x) = Some r" by (simp only: f) simp
  then have at: "find_receipt (call_actor call) (ce_sha256 E (call_key call)) db1 = Some r"
    by (simp add: reservation_def)
  obtain rs n where shape: "db1 = db\<lparr>op_receipts := rs, next_op_receipt := n\<rparr>"
    using res \<open>find_receipt (rv_actor ?x) (rv_key ?x) db = None\<close> by (auto simp: pg_reserve_def Let_def)
  have "keyed_call E (pg_campaigns E) now call db =
      finished (pg_campaigns E) r db (call_body (pg_campaigns E) now call db1)"
    using call_error_None [OF valid] res by (intro keyed_call_fresh [OF _ now]) simp_all
  then have "run_call E (pg_campaigns E) now call db =
      finished (pg_campaigns E) r db (call_body (pg_campaigns E) now call db1)"
    using valid by (simp add: run_call_keyed)
  with db1 at show ?thesis unfolding shape Let_def by blast
qed

text \<open>What an allowed call still needs of the store.\<close>

definition room_for :: "campaign_env \<Rightarrow> instant \<Rightarrow> camp_call \<Rightarrow> (Campaign \<times> Step list) option \<Rightarrow> camp_db \<Rightarrow> bool" where
  "room_for E now call x db \<longleftrightarrow> audit_free E (call_event now call (call_type call)) db \<and>
     (case x of None \<Rightarrow> \<not> referenced (fst (call_target call)) db
      | Some (_, steps) \<Rightarrow> snd (call_target call) < max_int64 \<and> storable steps)"

lemma saveAudit_commits:
  assumes ok: "camp_db_ok db" and at: "campaign_at db (cm_code c) = Some (old, steps0)"
    and v: "cm_version c = cm_version old" "cm_version old < max_int64"
    and valid: "approval_valid (cm_approval c)" "runtime_valid (cm_runtime c)" "same_identity old c"
    and steps: "validSteps steps" "storable steps" and now: "now \<noteq> 0"
    and free: "audit_free E \<lparr>av_type = ''cloud_campaign.'' @ ev, av_code = cm_code c, av_actor = actor, av_key = key, av_at = now\<rparr> db"
  shows "\<exists>v db'. saveAudit (pg_campaigns E) c steps actor ev key now db = (Inr v, db')"
proof -
  let ?c = "c\<lparr>cm_version := inc64 (cm_version c), cm_updated_by := actor, cm_updated := now\<rparr>"
  let ?e = "\<lparr>av_type = ''cloud_campaign.'' @ ev, av_code = cm_code c, av_actor = actor, av_key = key, av_at = now\<rparr>"
  obtain db1 where save: "pg_save ?c steps db = (Inr (), db1)"
    using pg_save_commits [OF ok, of ?c old steps0 steps] at v valid steps by auto
  have same: "same_identity old ?c" using valid(3) by (simp add: same_identity_def)
  have law: "camp_db_ok db1 \<and> 0 < cm_version ?c \<and>
      pg_facts db1 = put_campaign (?c\<lparr>cm_updated := pg_micros (cm_updated ?c)\<rparr>) steps (pg_facts db)"
    by (rule pg_save_law [OF ok _ same _ validSteps_sorted [OF steps(1)] save]) (use at v in simp_all)
  then have "camp_db_ok db1" by blast
  have "cf_events (pg_facts db1) = cf_events (pg_facts db)" using law by (simp only: put_campaign_sel)
  then have "audit_free E ?e db1 = audit_free E ?e db" by (rule audit_events_cong)
  with free have "audit_free E ?e db1" by blast
  then obtain db2 where "pg_append E ?e db1 = (Inr (), db2)"
    using pg_append_commits [OF \<open>camp_db_ok db1\<close>, of ?e E] now by auto
  with save have "saveAudit (pg_campaigns E) c steps actor ev key now db = (Inr (mutation_response ?c), db2)"
    by (simp add: saveAudit_def Let_def)
  then show ?thesis by blast
qed

lemma startDirect_commits:
  assumes inv: "camp_inv db" and at: "campaign_at db (bi_code item) = Some (cur, steps)"
    and go: "cm_version cur = bi_version item" "cm_approval cur = ApprovalApproved" "cm_runtime cur = RuntimeIdle" "steps \<noteq> []"
    and v: "cm_version cur < max_int64" and texts: "storable steps" and now: "now \<noteq> 0"
    and free: "audit_free E \<lparr>av_type = ev, av_code = cm_code cur, av_actor = actor, av_key = key, av_at = now\<rparr> db"
  shows "\<exists>v db'. startDirect (pg_campaigns E) ev item actor key now op db = (Inr v, db')"
proof -
  let ?c = "cur\<lparr>cm_runtime := RuntimePlanned, cm_updated_by := actor, cm_updated := now,
                         cm_version := inc64 (cm_version cur)\<rparr>"
  let ?e = "\<lparr>av_type = ev, av_code = cm_code cur, av_actor = actor, av_key = key, av_at = now\<rparr>"
  have ok: "camp_db_ok db" and valid: "cm_code cur = bi_code item" "validSteps steps"
    using inv facts_okD [of "pg_facts db" "bi_code item" cur steps] at by (simp_all add: camp_inv_def)
  have pos: "0 < inc64 (cm_version cur)" using pg_keyed [OF ok at] v by (simp add: inc64_less)
  have "find_campaign (cm_code ?c) db \<noteq> None" using at valid by (auto simp: campaign_at_def)
  then obtain p k db1 where plan: "pg_plan ?c (int (length steps)) op now db = (Inr (p, k), db1)"
    using pos go(4) by (auto simp: pg_plan_def Let_def)
  have law: "camp_db_ok db1" "validLocalPlanCommand p k ?c (int (length steps)) op now"
    and facts1: "pg_facts db1 = (pg_facts db)\<lparr>cf_plans := local_plans db @ [p\<lparr>lp_created := pg_micros now\<rparr>],
                     cf_commands := local_commands db @ [k\<lparr>lc_created := pg_micros now\<rparr>]\<rparr>"
    using pg_plan_law [OF ok plan] by blast+
  have "cf_campaigns (pg_facts db1) = campaign_at db" by (simp only: facts1) simp
  then have at1: "campaign_at db1 (cm_code ?c) = Some (cur, steps)" using at valid by simp
  obtain db2 where save: "pg_save ?c steps db1 = (Inr (), db2)"
    using pg_save_commits [OF law(1) at1, of steps] go v valid texts by auto
  have same: "same_identity cur ?c" by (simp add: same_identity_def)
  have law2: "camp_db_ok db2 \<and> 0 < cm_version ?c \<and>
      pg_facts db2 = put_campaign (?c\<lparr>cm_updated := pg_micros (cm_updated ?c)\<rparr>) steps (pg_facts db1)"
    by (rule pg_save_law [OF law(1) at1 same _ validSteps_sorted [OF valid(2)] save]) simp
  then have "cf_events (pg_facts db2) = cf_events (pg_facts db1)" by (simp only: put_campaign_sel)
  also have "\<dots> = cf_events (pg_facts db)" by (simp only: facts1) simp
  finally have "audit_free E ?e db2 = audit_free E ?e db" by (rule audit_events_cong)
  with free have "audit_free E ?e db2" by blast
  then obtain db3 where app: "pg_append E ?e db2 = (Inr (), db3)"
    using pg_append_commits [of db2 ?e E] law2 now by auto
  have "startDirect (pg_campaigns E) ev item actor key now op db =
      (Inr \<lparr>mr_campaign = ?c, mr_command = Some k, mr_plan = Some p, mr_projection = local_projection\<rparr>, db3)"
    using camp.startDirect_eq [OF ok, of E ev item actor key now op] at go plan law(2) save app by simp
  then show ?thesis by blast
qed

lemma delete_body_commits:
  assumes ok: "camp_db_ok db" and at: "campaign_at db (cm_code cur) = Some (cur, steps)" and "editable cur"
    and "\<not> referenced (cm_code cur) db" and now: "now \<noteq> 0"
    and free: "audit_free E \<lparr>av_type = call_type call, av_code = cm_code cur, av_actor = call_actor call,
      av_key = call_key call, av_at = now\<rparr> db"
  shows "\<exists>v db'. delete_body (pg_campaigns E) now call cur db = (Inr v, db')"
proof -
  let ?e = "\<lparr>av_type = call_type call, av_code = cm_code cur, av_actor = call_actor call,
      av_key = call_key call, av_at = now\<rparr>"
  obtain db1 where del: "pg_delete (cm_code cur) (cm_version cur) db = (Inr (), db1)"
    using pg_delete_commits [OF at assms(3,4)] by blast
  have law: "camp_db_ok db1" "pg_facts db1 = (pg_facts db)\<lparr>cf_campaigns := (campaign_at db)(cm_code cur := None)\<rparr>"
    using pg_delete_law [OF ok at del] by blast+
  have "cf_events (pg_facts db1) = cf_events (pg_facts db)" by (simp only: law(2)) simp
  then have "audit_free E ?e db1 = audit_free E ?e db" by (rule audit_events_cong)
  with free have "audit_free E ?e db1" by blast
  then obtain db2 where "pg_append E ?e db1 = (Inr (), db2)"
    using pg_append_commits [OF law(1), of ?e E] now by auto
  with del show ?thesis by (auto simp: delete_body_def)
qed

lemma call_body_commits:
  assumes inv: "camp_inv db" and valid: "call_error call = None" and single: "\<not> is_batch call" and now: "now \<noteq> 0"
    and dec: "spec_call call (campaign_at db (fst (call_target call))) = Inr x"
    and room: "room_for E now call x db"
  shows "\<exists>out db'. call_body (pg_campaigns E) now call db = (Inr out, db')"
proof -
  have ok: "camp_db_ok db" using inv by (simp add: camp_inv_def)
  obtain cur steps where at: "campaign_at db (fst (call_target call)) = Some (cur, steps)"
      "cm_version cur = snd (call_target call)" and body: "spec_body call (cur, steps) = Inr x"
    using dec by (auto simp: spec_call_def split: option.splits if_splits)
  have cur: "cm_code cur = fst (call_target call)" "validCampaign cur" "validSteps steps"
    using inv facts_okD [of "pg_facts db" "fst (call_target call)" cur steps] at by (simp_all add: camp_inv_def)
  have free: "audit_free E \<lparr>av_type = call_type call, av_code = cm_code cur, av_actor = call_actor call,
      av_key = call_key call, av_at = now\<rparr> db"
    using room cur by (simp add: room_for_def call_event_def)
  show ?thesis
  proof (cases "is_start call")
    case True
    then obtain c where call: "call = CallStart c" by (cases call) auto
    with body room cur have "\<exists>v db'. startDirect (pg_campaigns E) ''cloud_campaign.started''
        \<lparr>bi_code = vc_code c, bi_version = vc_version c\<rparr> (vc_actor c) (vc_key c) now CommandStart db = (Inr v, db')"
      using at by (intro startDirect_commits [OF inv, of _ cur steps])
        (auto simp: room_for_def call_event_def call_type_def now split: if_splits)
    then show ?thesis by (auto simp: call as_mutation_def)
  next
    case False
    have lock: "call_body (pg_campaigns E) now call db = locked_body (pg_campaigns E) now call (cur, steps) db"
      using at camp.lock_version_eq [OF ok, of E "fst (call_target call)" "snd (call_target call)"]
      by (simp add: call_body_locked [OF False single])
    show ?thesis
    proof (cases x)
      case None
      with body have "editable cur" using spec_body_delete by blast
      moreover have "\<not> referenced (cm_code cur) db" using room None cur by (simp add: room_for_def)
      ultimately have "\<exists>v db'. delete_body (pg_campaigns E) now call cur db = (Inr v, db')"
        using delete_body_commits [OF ok _ _ _ now free, of steps] at cur by simp
      then show ?thesis using body None by (simp add: lock locked_body_spec [OF False single])
    next
      case (Some y)
      obtain d steps' where y: "y = (d, steps')" by (cases y)
      have dec': "spec_body call (cur, steps) = Inr (Some (d, steps'))" using body Some y by simp
      have d: "same_identity cur d" "cm_version d = cm_version cur" "cm_code d = cm_code cur"
        using spec_body_same [OF dec'] by auto
      have status: "approval_valid (cm_approval d)" "runtime_valid (cm_runtime d)"
        using dec' cur(2) by (cases call; auto simp: validCampaign_def split: if_splits)+
      have "validSteps steps'" using spec_steps_valid [OF valid cur(3) dec'] .
      moreover have "storable steps'" "cm_version cur < max_int64"
        using room Some y at by (simp_all add: room_for_def)
      ultimately have "\<exists>v db'. saveAudit (pg_campaigns E) d steps' (call_actor call) (call_suffix call) (call_key call) now db = (Inr v, db')"
        using free at d status cur now
        by (intro saveAudit_commits [OF ok, of _ cur steps]) (simp_all add: call_type_def)
      then show ?thesis
        using body Some y by (auto simp: lock locked_body_spec [OF False single] as_mutation_def)
    qed
  qed
qed

theorem allowed_commits:
  assumes inv: "camp_inv db" and valid: "call_error call = None" and single: "\<not> is_batch call" and now: "pg_micros now \<noteq> 0"
    and fresh: "find_receipt (call_actor call) (ce_sha256 E (call_key call)) db = None"
    and dec: "spec_call call (campaign_at db (fst (call_target call))) = Inr x"
    and room: "room_for E now call x db"
  shows "\<exists>out db'. run_call E (pg_campaigns E) now call db = (Inr out, db')"
proof -
  have ok: "camp_db_ok db" using inv by (simp add: camp_inv_def)
  have "now \<noteq> 0" using now by (auto simp: pg_micros_def)
  from pg_keyed_fresh [OF ok valid this fresh, unfolded Let_def] obtain r rs n where
    one: "camp_db_ok (db\<lparr>op_receipts := rs, next_op_receipt := n\<rparr>)"
      "find_receipt (call_actor call) (ce_sha256 E (call_key call)) (db\<lparr>op_receipts := rs, next_op_receipt := n\<rparr>) = Some r"
      "\<not> ir_completed r"
    and run: "run_call E (pg_campaigns E) now call db = finished (pg_campaigns E) r db
      (call_body (pg_campaigns E) now call (db\<lparr>op_receipts := rs, next_op_receipt := n\<rparr>))"
    by blast
  let ?db1 = "db\<lparr>op_receipts := rs, next_op_receipt := n\<rparr>"
  have same: "campaign_at ?db1 = campaign_at db" by (rule campaign_at_cong) simp_all
  have inv1: "camp_inv ?db1"
    using inv one(1) by (simp add: camp_inv_def facts_ok_def same)
  have room1: "room_for E now call x ?db1"
    using room by (auto simp: room_for_def audit_free_def referenced_def split: option.splits prod.splits)
  have "\<exists>out db'. call_body (pg_campaigns E) now call ?db1 = (Inr out, db')"
    by (rule call_body_commits [OF inv1 valid single \<open>now \<noteq> 0\<close> _ room1]) (simp add: same dec)
  then obtain out db2 where body: "call_body (pg_campaigns E) now call ?db1 = (Inr out, db2)" by blast
  have "cf_receipts (pg_facts db2) = cf_receipts (pg_facts ?db1)"
    using camp.call_body_keeps [OF one(1) _ valid now body] inv1 by (simp add: camp_inv_def)
  from fun_cong [OF this, of "(call_actor call, ce_sha256 E (call_key call))"] one(2)
  have "find_receipt (call_actor call) (ce_sha256 E (call_key call)) db2 = Some r" by simp
  from pg_complete_commits [OF this one(3)] obtain db3 where "pg_complete (ir_id r) out db2 = (Inr (), db3)" by blast
  then have "finished (pg_campaigns E) r db (call_body (pg_campaigns E) now call ?db1) = (Inr out, db3)"
    by (auto simp: finished_Inr_iff body)
  with run show ?thesis by auto
qed

end
