(* ===== verification/CampaignProperties.thy ===== *)
theory CampaignProperties
  imports CampaignProgress
begin

text \<open>
  The properties of the campaign service over the PostgreSQL store: what a committed call
  does, when calls commit and when they are refused, replays, batches, and what holds of a
  campaign throughout its history.
\<close>

section \<open>A sample\<close>

definition camp_env0 :: campaign_env where
  "camp_env0 = \<lparr>ce_sha256 = (\<lambda>s. ''#'' @ s), ce_quote = (\<lambda>s. CHR 0x22 # s @ [CHR 0x22])\<rparr>"

definition draft0 :: Campaign where
  "draft0 = \<lparr>cm_code = ''spring'', cm_name = ''Spring'', cm_approval = ApprovalDraft, cm_runtime = RuntimeIdle,
     cm_version = 3, cm_created_by = 7, cm_updated_by = 7, cm_created = 1000, cm_updated = 2000\<rparr>"

definition approved0 :: Campaign where
  "approved0 = draft0\<lparr>cm_code := ''autumn'', cm_approval := ApprovalApproved\<rparr>"

definition step0 :: Step where
  "step0 = \<lparr>st_index = 1, st_delay = 60, st_content = ''hello''\<rparr>"

definition camp0 :: camp_db where
  "camp0 = empty_camp_db\<lparr>cloud_campaigns := [draft0, approved0],
     campaign_steps := [(''spring'', step0), (''autumn'', step0)]\<rparr>"

definition version0 :: "string \<Rightarrow> string \<Rightarrow> VersionedCommand" where
  "version0 code key = \<lparr>vc_code = code, vc_version = 3, vc_actor = 7, vc_key = key\<rparr>"

definition batch0 :: BatchStartCommand where
  "batch0 = \<lparr>bc_items = [\<lparr>bi_code = ''spring'', bi_version = 3\<rparr>, \<lparr>bi_code = ''autumn'', bi_version = 3\<rparr>],
     bc_actor = 7, bc_key = ''key-000000000001''\<rparr>"

definition approve0 :: camp_call where
  "approve0 = CallApprove (version0 ''spring'' ''key-000000000001'')"

lemma camp0_at: "campaign_at camp0 code =
    (if code = ''spring'' then Some (draft0, [step0])
     else if code = ''autumn'' then Some (approved0, [step0]) else None)"
  by (simp add: campaign_at_def find_campaign_def steps_of_def camp0_def empty_camp_db_def draft0_def approved0_def)

lemma camp0_tables: "local_plans camp0 = []" "local_commands camp0 = []" "event_log camp0 = []"
    "op_receipts camp0 = []" "campaign_refs camp0 = []"
  by (simp_all add: camp0_def empty_camp_db_def)

lemma camp0_valid: "validCampaign draft0" "validCampaign approved0" "validSteps [step0]"
  by code_simp+

lemma camp0_inv: "camp_inv camp0"
proof -
  have "camp_db_ok camp0" by code_simp
  moreover have "facts_ok (pg_facts camp0)"
    using camp0_valid by (auto simp: facts_ok_def camp0_at camp0_tables draft0_def approved0_def split: if_splits)
  ultimately show ?thesis by (simp add: camp_inv_def)
qed

lemma camp0_fresh: "find_receipt a k camp0 = None"
  by (simp add: find_receipt_def camp0_tables)

lemma camp0_storable: "storable [step0]"
  by code_simp

lemma camp0_free: "audit_free camp_env0 e camp0"
  by (simp add: audit_free_def camp0_tables camp_env0_def)

lemma now0: "pg_micros 5000 \<noteq> 0" "pg_micros 9000 \<noteq> 0"
  by code_simp+

lemma approve0_valid: "call_error approve0 = None"
  by code_simp

lemma approve0_decision: "spec_call approve0 (campaign_at camp0 (fst (call_target approve0))) =
    Inr (Some (draft0\<lparr>cm_approval := ApprovalApproved\<rparr>, [step0]))"
  by (simp add: approve0_def version0_def camp0_at spec_call_def draft0_def editable_def)

lemma approve0_runs: "\<exists>out db. run_call camp_env0 (pg_campaigns camp_env0) 5000 approve0 camp0 = (Inr out, db)"
proof (rule allowed_commits [OF camp0_inv approve0_valid _ now0(1) camp0_fresh approve0_decision])
  show "room_for camp_env0 5000 approve0 (Some (draft0\<lparr>cm_approval := ApprovalApproved\<rparr>, [step0])) camp0"
    by (simp add: room_for_def camp0_free camp0_storable approve0_def version0_def max_int64_def)
qed (simp add: approve0_def)

section \<open>Single calls\<close>

text \<open>
  C7. A call on one campaign that commits under a fresh idempotency key does exactly what its
  decision says: the campaign of its target becomes the decided one, with the version raised by
  one, no other campaign changes, a start adds one plan and one command that executes nothing
  and every other call adds none, and the audit event is in the event log.
\<close>

theorem committed_call_carries_out_decision:
  assumes "camp_inv db" and "pg_micros now \<noteq> 0" and "\<not> is_batch call"
    and "find_receipt (call_actor call) (ce_sha256 E (call_key call)) db = None"
    and "run_call E (pg_campaigns E) now call db = (Inr out, db')"
  shows "\<exists>x ps ks. spec_call call (campaign_at db (fst (call_target call))) = Inr x \<and>
    plan_rows call (campaign_at db (fst (call_target call))) ps ks \<and>
    campaign_at db' = (campaign_at db)(fst (call_target call) :=
      map_option (\<lambda>(c, steps). (bumped pg_micros (call_actor call) now c, steps)) x) \<and>
    local_plans db' = local_plans db @ ps \<and> local_commands db' = local_commands db @ ks \<and>
    audit_row E 0 (call_event now call (call_type call)) \<in> (\<lambda>r. r\<lparr>ev_id := 0\<rparr>) ` set (event_log db')"
proof -
  have "cf_receipts (pg_facts db) (key_of E call) = None" using assms(4) by (simp add: key_of_def)
  from camp.committed [where s = db, OF _ _ assms(2,3) this assms(5)] assms(1)
  obtain x ps ks r where dec: "spec_call call (campaign_at db (fst (call_target call))) = Inr x"
    and rows: "plan_rows call (campaign_at db (fst (call_target call))) ps ks"
    and f: "pg_facts db' = (log_event (audit_row E 0 (call_event now call (call_type call)))
      (settle pg_micros now (call_actor call) (fst (call_target call)) x
        ((pg_facts db)\<lparr>cf_plans := cf_plans (pg_facts db) @ ps, cf_commands := cf_commands (pg_facts db) @ ks\<rparr>)))
      \<lparr>cf_receipts := (cf_receipts (pg_facts db))(key_of E call \<mapsto> r)\<rparr>"
    by (auto simp: camp_inv_def)
  have code: "cm_code c = fst (call_target call)" if "x = Some (c, steps)" for c steps
  proof -
    from dec that obtain cur ss where "campaign_at db (fst (call_target call)) = Some (cur, ss)"
      "spec_body call (cur, ss) = Inr (Some (c, steps))"
      by (auto simp: spec_call_def split: option.splits if_splits)
    with spec_body_same [of call cur ss c steps] facts_okD [of "pg_facts db" _ cur ss] assms(1)
    show ?thesis by (simp add: camp_inv_def)
  qed
  have "cf_campaigns (pg_facts db') = (campaign_at db)(fst (call_target call) :=
      map_option (\<lambda>(c, steps). (bumped pg_micros (call_actor call) now c, steps)) x)"
    using code by (auto simp: f settle_def split: option.split prod.split)
  moreover have "cf_plans (pg_facts db') = local_plans db @ ps" "cf_commands (pg_facts db') = local_commands db @ ks"
    by (auto simp: f settle_def split: option.split prod.split)
  moreover have "audit_row E 0 (call_event now call (call_type call)) \<in> set (cf_events (pg_facts db'))"
    by (simp only: f) (simp add: log_event_def)
  ultimately show ?thesis
    using dec rows by (intro exI [of _ x] exI [of _ ps] exI [of _ ks]) simp
qed

theorem committed_call_carries_out_decision_witness:
  "\<exists>out db'. run_call camp_env0 (pg_campaigns camp_env0) 5000 approve0 camp0 = (Inr out, db') \<and>
    campaign_at db' ''spring'' = Some (draft0\<lparr>cm_approval := ApprovalApproved, cm_version := 4, cm_updated := 5000\<rparr>, [step0])"
proof -
  obtain out db where run: "run_call camp_env0 (pg_campaigns camp_env0) 5000 approve0 camp0 = (Inr out, db)"
    using approve0_runs by blast
  have "\<not> is_batch approve0" by (simp add: approve0_def)
  from committed_call_carries_out_decision [OF camp0_inv now0(1) this camp0_fresh run] approve0_decision
  have "campaign_at db (fst (call_target approve0)) =
    Some (bumped pg_micros (call_actor approve0) 5000 (draft0\<lparr>cm_approval := ApprovalApproved\<rparr>), [step0])"
    by auto
  then have "campaign_at db ''spring'' = Some (draft0\<lparr>cm_approval := ApprovalApproved, cm_version := 4, cm_updated := 5000\<rparr>, [step0])"
    by (simp add: approve0_def version0_def draft0_def bumped_def pg_micros_def)
  with run show ?thesis by blast
qed

text \<open>
  A call whose decision is to refuse is answered with exactly that error, and the store is
  left as it was: a missing campaign is not found, another version is a conflict, and a
  campaign in the wrong state is a state conflict.
\<close>

theorem refused_call_writes_nothing:
  assumes "camp_inv db" and "call_error call = None" and "now \<noteq> 0" and "\<not> is_batch call"
    and "find_receipt (call_actor call) (ce_sha256 E (call_key call)) db = None"
    and "spec_call call (campaign_at db (fst (call_target call))) = Inl e"
  shows "run_call E (pg_campaigns E) now call db = (Inl e, db)"
  using camp.refused [where s = db and E = E and Ea = E] assms by (simp add: camp_inv_def key_of_def)

theorem refused_call_writes_nothing_witness:
  "run_call camp_env0 (pg_campaigns camp_env0) 5000 (CallPause (version0 ''autumn'' ''key-000000000001'')) camp0
    = (Inl CErrStateConflict, camp0)"
proof (rule refused_call_writes_nothing [OF camp0_inv _ _ _ camp0_fresh])
  show "call_error (CallPause (version0 ''autumn'' ''key-000000000001'')) = None" by code_simp
qed (simp_all add: version0_def camp0_at spec_call_def approved0_def draft0_def)

text \<open>
  C23. A call whose decision allows it commits, when its idempotency key and its audit key are
  unused, its version is not the last one, its texts can be stored, and (for a deletion) no
  other table refers to the campaign.
\<close>

theorem allowed_call_commits:
  assumes "camp_inv db" and "call_error call = None" and "\<not> is_batch call" and "pg_micros now \<noteq> 0"
    and "find_receipt (call_actor call) (ce_sha256 E (call_key call)) db = None"
    and "spec_call call (campaign_at db (fst (call_target call))) = Inr x" and "room_for E now call x db"
  shows "\<exists>out db'. run_call E (pg_campaigns E) now call db = (Inr out, db')"
  using assms by (rule allowed_commits)

theorem allowed_call_commits_witness:
  "\<exists>out db'. run_call camp_env0 (pg_campaigns camp_env0) 5000
     (CallStart (version0 ''autumn'' ''key-000000000001'')) camp0 = (Inr out, db')"
proof (rule allowed_call_commits [OF camp0_inv _ _ now0(1) camp0_fresh])
  show "call_error (CallStart (version0 ''autumn'' ''key-000000000001'')) = None" by code_simp
  show "spec_call (CallStart (version0 ''autumn'' ''key-000000000001''))
      (campaign_at camp0 (fst (call_target (CallStart (version0 ''autumn'' ''key-000000000001''))))) =
    Inr (Some (approved0\<lparr>cm_runtime := RuntimePlanned\<rparr>, [step0]))"
    by (simp add: version0_def camp0_at spec_call_def approved0_def draft0_def)
  show "room_for camp_env0 5000 (CallStart (version0 ''autumn'' ''key-000000000001''))
      (Some (approved0\<lparr>cm_runtime := RuntimePlanned\<rparr>, [step0])) camp0"
    by (simp add: room_for_def camp0_free camp0_storable version0_def max_int64_def)
qed simp

text \<open>
  C26. Deleting a draft that another table refers to (a touch plan, one of its reviews or
  handoffs, the definition history) is answered with \<open>CErrUnavailable\<close>, as if the database were
  down, and never with a state conflict; the draft stays.
\<close>

theorem referenced_draft_delete_is_unavailable:
  assumes "camp_inv db" and "call_error (CallDelete c) = None" and "now \<noteq> 0"
    and "find_receipt (vc_actor c) (ce_sha256 E (vc_key c)) db = None"
    and "campaign_at db (vc_code c) = Some (cur, steps)" and "cm_version cur = vc_version c" and "editable cur"
    and "vc_code c \<in> set (campaign_refs db)"
  shows "run_call E (pg_campaigns E) now (CallDelete c) db = (Inl CErrUnavailable, db)"
proof -
  have ok: "camp_db_ok db" using assms(1) by (simp add: camp_inv_def)
  from pg_keyed_fresh [OF ok assms(2,3), of E] assms(4) obtain r rs n where
    one: "camp_db_ok (db\<lparr>op_receipts := rs, next_op_receipt := n\<rparr>)"
    and run: "run_call E (pg_campaigns E) now (CallDelete c) db = finished (pg_campaigns E) r db
      (call_body (pg_campaigns E) now (CallDelete c) (db\<lparr>op_receipts := rs, next_op_receipt := n\<rparr>))"
    by (auto simp: Let_def)
  let ?db = "db\<lparr>op_receipts := rs, next_op_receipt := n\<rparr>"
  have at: "campaign_at ?db (vc_code c) = Some (cur, steps)"
    using assms(5) campaign_at_cong [of ?db db] by simp
  have code: "cm_code cur = vc_code c" using pg_keyed [OF one at] by simp
  have "cur \<in> set (cloud_campaigns ?db)"
    using at find_campaign_Some [of "vc_code c" ?db cur] by (auto simp: campaign_at_def)
  then have "pg_delete (cm_code cur) (cm_version cur) ?db = (Inl CErrDependency, ?db)"
    using assms(7,8) code by (auto simp: pg_delete_def Let_def list_ex_iff editable_def referenced_def)
  moreover have "lock_version (pg_campaigns E) (vc_code c) (vc_version c) ?db = (Inr (cur, steps), ?db)"
    using camp.lock_version_eq [OF one, of E "vc_code c" "vc_version c"] at assms(6) by simp
  ultimately have "call_body (pg_campaigns E) now (CallDelete c) ?db = (Inl CErrDependency, ?db)"
    using assms(7) by simp
  with run show ?thesis by (simp add: finished_def)
qed

theorem referenced_draft_delete_is_unavailable_witness:
  "run_call camp_env0 (pg_campaigns camp_env0) 5000 (CallDelete (version0 ''spring'' ''key-000000000001''))
     (camp0\<lparr>campaign_refs := [''spring'']\<rparr>) =
   (Inl CErrUnavailable, camp0\<lparr>campaign_refs := [''spring'']\<rparr>)"
proof -
  let ?db = "camp0\<lparr>campaign_refs := [''spring'']\<rparr>"
  have at: "campaign_at ?db = campaign_at camp0" by (rule campaign_at_cong) simp_all
  have inv: "camp_inv ?db"
    using camp0_inv by (simp add: camp_inv_def facts_ok_def at camp_db_ok_def)
  show ?thesis
  proof (rule referenced_draft_delete_is_unavailable [OF inv, where cur = draft0 and steps = "[step0]"])
    show "call_error (CallDelete (version0 ''spring'' ''key-000000000001'')) = None" by code_simp
    show "find_receipt (vc_actor (version0 ''spring'' ''key-000000000001''))
        (ce_sha256 camp_env0 (vc_key (version0 ''spring'' ''key-000000000001''))) ?db = None"
      by (simp add: find_receipt_def camp0_tables)
  qed (simp_all add: version0_def at camp0_at, simp_all add: draft0_def editable_def)
qed

section \<open>Idempotency keys and batches\<close>

text \<open>
  C10. After a call has committed, repeating it under the same key, at any later time and
  whatever else has happened to the store, returns the recorded result and changes nothing;
  any other call under the key is an idempotency conflict and changes nothing.
\<close>

theorem committed_call_is_replayed:
  assumes "camp_inv db" and "pg_micros now \<noteq> 0" and "run_call E (pg_campaigns E) now call db = (Inr out, db1)"
    and "reachable_from E db1 db2" and "later_now \<noteq> 0"
  shows "run_call E (pg_campaigns E) later_now call db2 = (Inr out, db2) \<and>
    (\<forall>call'. call_error call' = None \<longrightarrow> key_of E call' = key_of E call \<longrightarrow>
       call_operation call' \<noteq> call_operation call \<or> payload_of E call' \<noteq> payload_of E call \<longrightarrow>
       run_call E (pg_campaigns E) later_now call' db2 = (Inl CErrIdempotencyConflict, db2))"
proof -
  have inv: "camp_db_ok db" "facts_ok (pg_facts db)" using assms(1) by (simp_all add: camp_inv_def)
  from camp.run_call_InrD [OF inv assms(2,3)] obtain r where one: "camp_db_ok db1"
    "(touch pg_micros)\<^sup>*\<^sup>* (pg_facts db) (pg_facts db1)" "cf_receipts (pg_facts db1) (key_of E call) = Some r"
    "records E call out r"
    by blast
  then have "camp_inv db1" using touches_facts_ok inv(2) by (auto simp: camp_inv_def)
  with reachable_touches [OF assms(4)] have two: "camp_inv db2" "(touch pg_micros)\<^sup>*\<^sup>* (pg_facts db1) (pg_facts db2)"
    by blast+
  have "ir_completed r" using one(4) by (simp add: records_def)
  then have at: "cf_receipts (pg_facts db2) (key_of E call) = Some r"
    using touches_receipt two(2) one(3) by blast
  have ok: "camp_db_ok db2" and valid: "call_error call = None"
    using two(1) camp.run_call_ran [OF assms(3)] by (simp_all add: camp_inv_def)
  have conflict: "run_call E (pg_campaigns E) later_now call' db2 = (Inl CErrIdempotencyConflict, db2)"
    if "call_error call' = None" "key_of E call' = key_of E call"
      "call_operation call' \<noteq> call_operation call \<or> payload_of E call' \<noteq> payload_of E call" for call'
    by (rule camp.conflicting [OF ok that(1) assms(5) _ one(4) that(3)]) (simp add: at that(2))
  with camp.replayed [OF ok valid assms(5) at one(4)] show ?thesis by blast
qed

theorem committed_call_is_replayed_witness:
  "\<exists>out db. run_call camp_env0 (pg_campaigns camp_env0) 5000 approve0 camp0 = (Inr out, db) \<and>
    run_call camp_env0 (pg_campaigns camp_env0) 9000 approve0 db = (Inr out, db) \<and>
    run_call camp_env0 (pg_campaigns camp_env0) 9000 (CallReject (version0 ''spring'' ''key-000000000001'')) db
      = (Inl CErrIdempotencyConflict, db)"
proof -
  obtain out db where run: "run_call camp_env0 (pg_campaigns camp_env0) 5000 approve0 camp0 = (Inr out, db)"
    using approve0_runs by blast
  have other: "call_error (CallReject (version0 ''spring'' ''key-000000000001'')) = None" by code_simp
  have key: "key_of camp_env0 (CallReject (version0 ''spring'' ''key-000000000001'')) = key_of camp_env0 approve0"
    and op: "call_operation (CallReject (version0 ''spring'' ''key-000000000001'')) \<noteq> call_operation approve0"
    by (simp_all add: key_of_def approve0_def version0_def)
  have "(9000 :: instant) \<noteq> 0" by simp
  from committed_call_is_replayed [OF camp0_inv now0(1) run rtranclp.rtrancl_refl this] other key op run
  show ?thesis by blast
qed

text \<open>
  A batch start that commits under a fresh key starts exactly the items whose campaign is
  approved, idle, not empty and at the expected version, in their order, and skips exactly the
  others; no item fails, each started campaign becomes planned with its version raised by one,
  and no other campaign changes.
\<close>

theorem batch_starts_the_startable:
  assumes "camp_inv db" and "pg_micros now \<noteq> 0"
    and "find_receipt (bc_actor c) (ce_sha256 E (bc_key c)) db = None"
    and "run_call E (pg_campaigns E) now (CallBatchStart c) db = (Inr out, db')"
  shows "\<exists>b. out = batch_result b \<and> br_failed b = [] \<and>
    br_skipped b = filter (\<lambda>i. \<not> startable (pg_facts db) i) (bc_items c) \<and>
    map (\<lambda>m. cm_code (mr_campaign m)) (br_started b) = map bi_code (filter (startable (pg_facts db)) (bc_items c)) \<and>
    (\<forall>code. code \<notin> bi_code ` set (bc_items c) \<longrightarrow> campaign_at db' code = campaign_at db code) \<and>
    (\<forall>i \<in> set (bc_items c). campaign_at db' (bi_code i) = start_result pg_micros (bc_actor c) now (pg_facts db) i)"
proof -
  have "cf_receipts (pg_facts db) (key_of E (CallBatchStart c)) = None" using assms(3) by (simp add: key_of_def)
  from camp.batch_committed [where s = db, OF _ _ assms(2) this assms(4)] assms(1)
  show ?thesis by (simp add: camp_inv_def)
qed

theorem batch_starts_the_startable_witness:
  "\<exists>b db'. run_call camp_env0 (pg_campaigns camp_env0) 5000 (CallBatchStart batch0) camp0 = (Inr (batch_result b), db') \<and>
    br_skipped b = [\<lparr>bi_code = ''spring'', bi_version = 3\<rparr>] \<and>
    campaign_at db' ''autumn'' = Some (approved0\<lparr>cm_runtime := RuntimePlanned, cm_version := 4, cm_updated := 5000\<rparr>, [step0])"
proof -
  have "\<not> isl (fst (run_call camp_env0 (pg_campaigns camp_env0) 5000 (CallBatchStart batch0) camp0))"
    by code_simp
  then obtain out db where run: "run_call camp_env0 (pg_campaigns camp_env0) 5000 (CallBatchStart batch0) camp0 = (Inr out, db)"
    by (cases "run_call camp_env0 (pg_campaigns camp_env0) 5000 (CallBatchStart batch0) camp0"; cases "fst (run_call camp_env0 (pg_campaigns camp_env0) 5000 (CallBatchStart batch0) camp0)") auto
  from batch_starts_the_startable [OF camp0_inv now0(1) camp0_fresh run] obtain b where b: "out = batch_result b"
    "br_skipped b = filter (\<lambda>i. \<not> startable (pg_facts camp0) i) (bc_items batch0)"
    "\<forall>i \<in> set (bc_items batch0). campaign_at db (bi_code i) = start_result pg_micros (bc_actor batch0) 5000 (pg_facts camp0) i"
    by blast
  have start: "startable (pg_facts camp0) \<lparr>bi_code = ''autumn'', bi_version = 3\<rparr>"
    "\<not> startable (pg_facts camp0) \<lparr>bi_code = ''spring'', bi_version = 3\<rparr>"
    by (simp_all add: startable_def camp0_at approved0_def draft0_def)
  have "campaign_at db ''autumn'' = start_result pg_micros 7 5000 (pg_facts camp0) \<lparr>bi_code = ''autumn'', bi_version = 3\<rparr>"
    using b(3) by (simp add: batch0_def)
  also have "\<dots> = Some (approved0\<lparr>cm_runtime := RuntimePlanned, cm_version := 4, cm_updated := 5000\<rparr>, [step0])"
    by (simp add: start_result_def start camp0_at) (simp add: bumped_def approved0_def draft0_def pg_micros_def)
  finally show ?thesis
    using run b(1,2) start by (intro exI [of _ b] exI [of _ db]) (simp add: batch0_def)
qed

section \<open>Histories\<close>

text \<open>
  C8. In every history of calls, imports, references and foreign events, from any store that
  satisfies the invariant, the constraints of the schema hold, no campaign has two plans, every
  plan belongs to an approved campaign that has left the idle state with the steps it was
  planned with, and no command sends or executes anything.
\<close>

theorem plans_stay_consistent:
  assumes "camp_inv db" and "reachable_from E db db'"
  shows "camp_db_ok db' \<and> distinct (map lp_code (local_plans db')) \<and>
    (\<forall>p \<in> set (local_plans db'). \<exists>c steps. campaign_at db' (lp_code p) = Some (c, steps) \<and>
       cm_approval c = ApprovalApproved \<and> cm_runtime c \<noteq> RuntimeIdle \<and>
       lp_version p \<le> cm_version c \<and> lp_steps p = int (length steps)) \<and>
    map lc_plan (local_commands db') = map lp_id (local_plans db') \<and>
    (\<forall>k \<in> set (local_commands db'). \<not> lc_real_send k \<and> \<not> lc_executed k)"
  using reachable_touches [OF assms(2,1)] by (simp add: camp_inv_def facts_ok_def)

theorem plans_stay_consistent_witness:
  "\<exists>out db'. run_call camp_env0 (pg_campaigns camp_env0) 5000 approve0 camp0 = (Inr out, db') \<and> camp_db_ok db'"
proof -
  obtain out db where run: "run_call camp_env0 (pg_campaigns camp_env0) 5000 approve0 camp0 = (Inr out, db)"
    using approve0_runs by blast
  then have "reachable_from camp_env0 camp0 db" using now0(1) by (blast intro: camp_step.a_call)
  from plans_stay_consistent [OF camp0_inv this] run show ?thesis by blast
qed

text \<open>
  C25. Whatever the history, the stored campaigns and steps satisfy the checks of the reader:
  the detail of a well-formed code is never unavailable, it is the stored campaign with its
  steps, or not found.
\<close>

theorem detail_is_always_well_formed:
  assumes "camp_inv db" and "reachable_from E db db'" and "validCode code"
  shows "svc_detail (pg_campaigns E) code db' = (case campaign_at db' code of
      None \<Rightarrow> (Inl CErrNotFound, db') | Some (c, steps) \<Rightarrow> (Inr (c, steps, local_projection), db')) \<and>
    (\<forall>c steps. campaign_at db' code = Some (c, steps) \<longrightarrow> validCampaign c \<and> validSteps steps)"
proof -
  have ok: "facts_ok (pg_facts db')" using reachable_touches [OF assms(2,1)] by (simp add: camp_inv_def)
  have valid: "validCampaign c \<and> validSteps steps" if "campaign_at db' code = Some (c, steps)" for c steps
    using facts_okD [OF ok, of code c steps] that by simp
  then show ?thesis
    using assms(3)
    by (auto simp: svc_detail_def classified_def within_def and_then_def pg_get_eq split: option.split)
qed

theorem detail_is_always_well_formed_witness:
  "svc_detail (pg_campaigns camp_env0) ''spring'' camp0 = (Inr (draft0, [step0], local_projection), camp0)"
proof -
  have "validCode ''spring''" by code_simp
  from detail_is_always_well_formed [OF camp0_inv rtranclp.rtrancl_refl this, of camp_env0]
  show ?thesis by (simp add: camp0_at)
qed

text \<open>
  A campaign that is no longer an idle draft is never deleted: at any later time it is
  still there with its name, creator and creation time, the same steps and the same approval,
  it is still not editable, its version has not gone back, and its runtime has only moved
  forward (idle, planned, paused).
\<close>

theorem frozen_campaign_only_moves_forward:
  assumes "camp_inv db" and "reachable_from E db db'" and "campaign_at db code = Some (c, steps)" and "\<not> editable c"
  shows "\<exists>c'. campaign_at db' code = Some (c', steps) \<and> same_identity c c' \<and> \<not> editable c' \<and>
    cm_approval c' = cm_approval c \<and> cm_version c \<le> cm_version c' \<and>
    runtime_rank (cm_runtime c) \<le> runtime_rank (cm_runtime c') \<and>
    (cm_version c' = cm_version c \<longrightarrow> c' = c)"
proof -
  have "facts_ok (pg_facts db)" using assms(1) by (simp add: camp_inv_def)
  moreover have "(touch pg_micros)\<^sup>*\<^sup>* (pg_facts db) (pg_facts db')" using reachable_touches [OF assms(2,1)] by blast
  ultimately obtain x' where "campaign_at db' code = Some x'" "later (c, steps) x'"
    using touches_frozen [of pg_micros "pg_facts db" "pg_facts db'" code "(c, steps)"] assms(3,4) by auto
  with assms(4) show ?thesis by (cases x') (auto simp: later_def)
qed

theorem frozen_campaign_only_moves_forward_witness:
  "\<exists>out db' c'. run_call camp_env0 (pg_campaigns camp_env0) 5000 approve0 camp0 = (Inr out, db') \<and>
    campaign_at db' ''autumn'' = Some (c', [step0]) \<and> cm_approval c' = ApprovalApproved"
proof -
  obtain out db where run: "run_call camp_env0 (pg_campaigns camp_env0) 5000 approve0 camp0 = (Inr out, db)"
    using approve0_runs by blast
  then have reach: "reachable_from camp_env0 camp0 db" using now0(1) by (blast intro: camp_step.a_call)
  have "\<not> editable approved0" and at: "campaign_at camp0 ''autumn'' = Some (approved0, [step0])"
    by (simp_all add: editable_def approved0_def camp0_at)
  from frozen_campaign_only_moves_forward [OF camp0_inv reach at this(1)] run show ?thesis
    by (auto simp: approved0_def)
qed

text \<open>
  C9. An expected version can be used once: after a call on a campaign has committed, every
  later call on that campaign that expects the same version under another key is refused
  without effect, at any later time, even when the campaign was deleted and its code was
  imported again.
\<close>

theorem expected_version_is_used_once:
  assumes "camp_inv db" and "pg_micros now \<noteq> 0" and "\<not> is_batch call"
    and "find_receipt (call_actor call) (ce_sha256 E (call_key call)) db = None"
    and "run_call E (pg_campaigns E) now call db = (Inr out, db1)" and "reachable_from E db1 db2"
    and "call_target call' = call_target call" and "\<not> is_batch call'" and "call_error call' = None"
    and "find_receipt (call_actor call') (ce_sha256 E (call_key call')) db2 = None" and "later_now \<noteq> 0"
  shows "\<exists>e \<in> {CErrNotFound, CErrConflict, CErrStateConflict}.
    run_call E (pg_campaigns E) later_now call' db2 = (Inl e, db2)"
proof -
  have "cf_receipts (pg_facts db) (key_of E call) = None" using assms(4) by (simp add: key_of_def)
  from camp.committed [where s = db, OF _ _ assms(2,3) this assms(5)] assms(1)
  obtain x ps ks r where dec: "spec_call call (campaign_at db (fst (call_target call))) = Inr x"
    and f: "pg_facts db1 = (log_event (audit_row E 0 (call_event now call (call_type call)))
      (settle pg_micros now (call_actor call) (fst (call_target call)) x
        ((pg_facts db)\<lparr>cf_plans := cf_plans (pg_facts db) @ ps, cf_commands := cf_commands (pg_facts db) @ ks\<rparr>)))
      \<lparr>cf_receipts := (cf_receipts (pg_facts db))(key_of E call \<mapsto> r)\<rparr>"
    by (auto simp: camp_inv_def)
  obtain cur ss where cur: "campaign_at db (fst (call_target call)) = Some (cur, ss)"
      "cm_version cur = snd (call_target call)" "spec_body call (cur, ss) = Inr x"
    using dec by (auto simp: spec_call_def split: option.splits if_splits)
  then have code: "cm_code cur = fst (call_target call)"
    using facts_okD [of "pg_facts db" _ cur ss] assms(1) by (simp add: camp_inv_def)
  have "version_spent (fst (call_target call)) (snd (call_target call)) (pg_facts db1)"
  proof (cases x)
    case (Some y)
    obtain d steps' where "y = (d, steps')" by (cases y)
    with Some spec_body_same [of call cur ss d steps'] cur code show ?thesis
      by (simp add: f version_spent_def settle_def)
  qed (simp add: f version_spent_def settle_def)
  moreover have inv1: "camp_inv db1"
    using camp_step_touches [OF camp_step.a_call [OF assms(2,5)] assms(1)] touches_facts_ok assms(1)
    by (auto simp: camp_inv_def)
  moreover note two = reachable_touches [OF assms(6) inv1]
  ultimately have "version_spent (fst (call_target call')) (snd (call_target call')) (pg_facts db2)"
    using touches_version_spent assms(7) by (auto simp: camp_inv_def)
  from spec_call_spent [OF this assms(8)] obtain e where
    e: "e \<in> {CErrNotFound, CErrConflict, CErrStateConflict}"
      "spec_call call' (cf_campaigns (pg_facts db2) (fst (call_target call'))) = Inl e" by blast
  have "cf_receipts (pg_facts db2) (key_of E call') = None" using assms(10) by (simp add: key_of_def)
  from camp.refused [OF _ assms(9,11,8) this e(2)] two e(1) show ?thesis by (auto simp: camp_inv_def)
qed

theorem expected_version_is_used_once_witness:
  "\<exists>out db' e. run_call camp_env0 (pg_campaigns camp_env0) 5000 approve0 camp0 = (Inr out, db') \<and>
    run_call camp_env0 (pg_campaigns camp_env0) 9000 (CallReject (version0 ''spring'' ''key-000000000002'')) db' = (Inl e, db')"
proof -
  let ?other = "CallReject (version0 ''spring'' ''key-000000000002'')"
  obtain out db where run: "run_call camp_env0 (pg_campaigns camp_env0) 5000 approve0 camp0 = (Inr out, db)"
    using approve0_runs by blast
  have single: "\<not> is_batch approve0" "\<not> is_batch ?other" and target: "call_target ?other = call_target approve0"
    by (simp_all add: approve0_def version0_def)
  have valid: "call_error ?other = None" by code_simp
  have "find_receipt (call_actor ?other) (ce_sha256 camp_env0 (call_key ?other))
      (snd (run_call camp_env0 (pg_campaigns camp_env0) 5000 approve0 camp0)) = None"
    by code_simp
  then have free: "find_receipt (call_actor ?other) (ce_sha256 camp_env0 (call_key ?other)) db = None"
    by (simp only: run snd_conv)
  have "(9000 :: instant) \<noteq> 0" by simp
  from expected_version_is_used_once [OF camp0_inv now0(1) single(1) camp0_fresh run rtranclp.rtrancl_refl
      target single(2) valid free this] run
  show ?thesis by blast
qed

text \<open>
  C24. From the empty database, whatever calls and historical imports have run, every campaign
  is rejected, paused and at version 1, there are no plans, and every well-formed call on one
  campaign under a fresh key is refused without effect: no campaign that the program can create
  can be edited, approved, started, paused or deleted.
\<close>

theorem imported_campaigns_never_move:
  assumes "reachable_from E empty_camp_db db" and "call_error call = None" and "\<not> is_batch call" and "now \<noteq> 0"
    and "find_receipt (call_actor call) (ce_sha256 E (call_key call)) db = None"
  shows "local_plans db = [] \<and>
    (\<forall>code c steps. campaign_at db code = Some (c, steps) \<longrightarrow>
       cm_approval c = ApprovalRejected \<and> cm_runtime c = RuntimePaused \<and> cm_version c = 1) \<and>
    (\<exists>e \<in> {CErrNotFound, CErrConflict, CErrStateConflict}. run_call E (pg_campaigns E) now call db = (Inl e, db))"
proof -
  have "at_rest (pg_facts empty_camp_db)"
    by (simp add: at_rest_def campaign_at_def find_campaign_def empty_camp_db_def)
  moreover note reach = reachable_touches [OF assms(1) camp_inv_empty]
  ultimately have rest: "at_rest (pg_facts db)" using touches_at_rest by blast
  from spec_call_spent [OF at_rest_spent [OF rest] assms(3)] obtain e where
    e: "e \<in> {CErrNotFound, CErrConflict, CErrStateConflict}"
      "spec_call call (cf_campaigns (pg_facts db) (fst (call_target call))) = Inl e" by blast
  have "cf_receipts (pg_facts db) (key_of E call) = None" using assms(5) by (simp add: key_of_def)
  from camp.refused [OF _ assms(2,4,3) this e(2)] reach e(1)
  have "\<exists>e \<in> {CErrNotFound, CErrConflict, CErrStateConflict}. run_call E (pg_campaigns E) now call db = (Inl e, db)"
    by (auto simp: camp_inv_def)
  with rest show ?thesis by (simp add: at_rest_def)
qed

definition import0 :: HistoricalDefinition where
  "import0 = \<lparr>hd_source = ''v1-17'', hd_digest = ''d'', hd_approval = ''approved'', hd_runtime = ''running'',
     hd_campaign = draft0\<lparr>cm_version := 1\<rparr>, hd_steps = [step0]\<rparr>"

definition journal0 :: historical_journal where
  "journal0 = \<lparr>hj_load = (\<lambda>_. Inr None), hj_record = (\<lambda>_. Inr ())\<rparr>"

theorem imported_campaigns_never_move_witness:
  "\<exists>db e. reachable_from camp_env0 empty_camp_db db \<and> campaign_at db ''spring'' \<noteq> None \<and>
    run_call camp_env0 (pg_campaigns camp_env0) 5000 approve0 db = (Inl e, db)"
proof -
  obtain r db where import: "within (historical_import journal0 import0) empty_camp_db = (r, db)" by fastforce
  have "micros_set import0" by code_simp
  then have reach: "reachable_from camp_env0 empty_camp_db db" using import by (blast intro: camp_step.an_import)
  have "campaign_at (snd (within (historical_import journal0 import0) empty_camp_db)) ''spring'' \<noteq> None"
    by code_simp
  moreover have "find_receipt (call_actor approve0) (ce_sha256 camp_env0 (call_key approve0))
      (snd (within (historical_import journal0 import0) empty_camp_db)) = None"
    by code_simp
  ultimately have db: "campaign_at db ''spring'' \<noteq> None"
    "find_receipt (call_actor approve0) (ce_sha256 camp_env0 (call_key approve0)) db = None"
    by (simp_all only: import snd_conv not_False_eq_True)
  have "\<not> is_batch approve0" by (simp add: approve0_def)
  from imported_campaigns_never_move [OF reach approve0_valid this _ db(2), of 5000] reach db(1)
  show ?thesis by auto
qed

end
