(* ===== verification/EventStore.thy ===== *)
theory EventStore
  imports EventLog
begin

text \<open>
  The store of events and deliveries (\<^verbatim>\<open>internal/events/store/appender.go\<close>, its queries, and the
  tables of migrations 00002 and 00025). \<open>event_table\<close> pairs a row of the log with its
  \<^verbatim>\<open>dispatched\<close> flag. The River queue is an argument: \<open>enq\<close> inserts a job with the given
  arguments in the caller's transaction and answers its identifier; its state is a component of
  the store, so that it is rolled back with the rest.
\<close>

record delivery =
  dl_event :: int
  dl_consumer :: string
  dl_status :: delivery_status
  dl_attempt :: int
  dl_job :: "int option"
  dl_owner :: "string option"
  dl_expires :: "instant option"
  dl_error :: "string option"
  dl_completed :: "instant option"

record 'q event_db =
  event_table :: "(event_row \<times> bool) list"
  delivery_table :: "delivery list"
  river :: 'q
  next_event_id :: int

type_synonym ('q, 'a) event_tx = "('q event_db, event_error, 'a) tx"
type_synonym 'q enqueue = "DeliveryJobArgs \<Rightarrow> 'q \<Rightarrow> (event_error + int) \<times> 'q"

definition max_int32 :: int where
  "max_int32 = 2 ^ 31 - 1"

section \<open>The log\<close>

definition find_event :: "int \<Rightarrow> 'q event_db \<Rightarrow> event_row option" where
  "find_event i db = List.find (\<lambda>r. ev_id r = i) (map fst (event_table db))"

definition event_of :: "event_env \<Rightarrow> Event \<Rightarrow> string \<Rightarrow> event_row" where
  "event_of N e payload = \<lparr>ev_id = 0, ev_type = en_type e,
     ev_customer = (if 0 < en_customer e then Some (en_customer e) else None),
     ev_payload = payload, ev_at = pg_micros (en_at e), ev_key = en_key e\<rparr>"

text \<open>
  The insertion with its conflict clause: a row with the same key and the same other columns
  answers its identifier, any other row with the key answers no row.
\<close>

definition log_append :: "event_row \<Rightarrow> ('q, int) event_tx" where
  "log_append row = (\<lambda>db.
     case List.find (\<lambda>r. ev_key (fst r) = ev_key row) (event_table db) of
       Some r \<Rightarrow> if (fst r)\<lparr>ev_id := 0\<rparr> = row\<lparr>ev_id := 0\<rparr> then (Inr (ev_id (fst r)), db)
                 else (Inl [EvIdempotencyConflict], db)
     | None \<Rightarrow> (Inr (next_event_id db), db\<lparr>
         event_table := event_table db @ [(row\<lparr>ev_id := next_event_id db\<rparr>, False)],
         next_event_id := next_event_id db + 1\<rparr>))"

definition appender_Append :: "event_env \<Rightarrow> Event \<Rightarrow> ('q, int) event_tx" where
  "appender_Append N e =
     (if \<not> valid_event N e then fail [EvInvalidEvent]
      else if \<not> pg_text (en_type e) \<or> \<not> pg_text (en_key e) then fail [EvDependency]
      else (case ee_jsonb N (en_payload e) of
        None \<Rightarrow> fail [EvDependency]
      | Some payload \<Rightarrow> log_append (event_of N e payload)))"

definition mark_dispatched :: "int list \<Rightarrow> 'q event_db \<Rightarrow> int \<times> 'q event_db" where
  "mark_dispatched ids db =
     (int (length (filter (\<lambda>(r, d). ev_id r \<in> set ids \<and> \<not> d) (event_table db))),
      db\<lparr>event_table := map (\<lambda>(r, d). (r, d \<or> ev_id r \<in> set ids)) (event_table db)\<rparr>)"

section \<open>Accepting deliveries\<close>

definition find_delivery :: "int \<Rightarrow> string \<Rightarrow> 'q event_db \<Rightarrow> delivery option" where
  "find_delivery e c db = List.find (\<lambda>d. dl_event d = e \<and> dl_consumer d = c) (delivery_table db)"

definition new_delivery :: "int \<Rightarrow> string \<Rightarrow> delivery" where
  "new_delivery e c = \<lparr>dl_event = e, dl_consumer = c, dl_status = DeliveryPending, dl_attempt = 0,
     dl_job = None, dl_owner = None, dl_expires = None, dl_error = None, dl_completed = None\<rparr>"

definition ReserveEventDelivery :: "int \<Rightarrow> string \<Rightarrow> ('q, unit) event_tx" where
  "ReserveEventDelivery e c = (\<lambda>db.
     if find_delivery e c db \<noteq> None then (Inl [EvNoRows], db)
     else if find_event e db = None \<or> \<not> pg_text c then (Inl [EvDependency], db)
     else (Inr (), db\<lparr>delivery_table := delivery_table db @ [new_delivery e c]\<rparr>))"

definition enqueue_job :: "'q enqueue \<Rightarrow> DeliveryJobArgs \<Rightarrow> ('q, int) event_tx" where
  "enqueue_job enq args = (\<lambda>db. case enq args (river db) of (r, q) \<Rightarrow> (r, db\<lparr>river := q\<rparr>))"

text \<open>The enqueuer of the runtime, over the River client.\<close>

definition registeredEnqueuer :: "'q enqueue \<Rightarrow> 'q enqueue" where
  "registeredEnqueuer client args = (\<lambda>q. case client args q of
     (Inl e, q') \<Rightarrow> (Inl (EvInvalidDelivery # e), q')
   | (Inr i, q') \<Rightarrow> if i \<le> 0 then (Inl [EvInvalidDelivery], q') else (Inr i, q'))"

text \<open>The job identifier is written once, and no two deliveries have the same one.\<close>

definition AcceptEventDelivery :: "int \<Rightarrow> int \<Rightarrow> string \<Rightarrow> ('q, int) event_tx" where
  "AcceptEventDelivery i e c = (\<lambda>db.
     (let hit = (\<lambda>d. dl_event d = e \<and> dl_consumer d = c \<and> (dl_job d = None \<or> dl_job d = Some i)) in
      if \<not> list_ex hit (delivery_table db) then (Inl [EvNoRows], db)
      else if i \<le> 0 \<or> list_ex (\<lambda>d. \<not> hit d \<and> dl_job d = Some i) (delivery_table db)
      then (Inl [EvDependency], db)
      else (Inr i, db\<lparr>delivery_table :=
        map (\<lambda>d. if hit d then d\<lparr>dl_job := Some i\<rparr> else d) (delivery_table db)\<rparr>)))"

definition deliv_accept :: "'q enqueue \<Rightarrow> int \<Rightarrow> string \<Rightarrow> ('q, unit) event_tx" where
  "deliv_accept enq e c = (\<lambda>db. case ReserveEventDelivery e c db of
     (Inl err, db1) \<Rightarrow>
       if error_is err EvNoRows
       then (case find_delivery e c db1 of
               None \<Rightarrow> (Inl [EvInvalidDelivery, EvNoRows], db1)
             | Some d \<Rightarrow> (case dl_job d of
                 None \<Rightarrow> (Inl [EvInvalidDelivery], db1)
               | Some i \<Rightarrow> if i \<le> 0 then (Inl [EvInvalidDelivery], db1) else (Inr (), db1)))
       else (Inl err, db1)
   | (Inr _, db1) \<Rightarrow>
       (case enqueue_job enq \<lparr>ja_event = e, ja_consumer = c\<rparr> db1 of
          (Inl err, db2) \<Rightarrow> (Inl err, db2)
        | (Inr i, db2) \<Rightarrow>
            (case AcceptEventDelivery i e c db2 of
               (Inl err, db3) \<Rightarrow> (Inl (EvInvalidDelivery # err), db3)
             | (Inr j, db3) \<Rightarrow> if j \<noteq> i then (Inl [EvInvalidDelivery], db3) else (Inr (), db3))))"

definition deliv_Accept :: "'q enqueue \<Rightarrow> int \<Rightarrow> string \<Rightarrow> ('q, unit) event_tx" where
  "deliv_Accept enq e c =
     (if e \<le> 0 \<or> \<not> validDeliveryName c then fail [EvInvalidDelivery]
      else and_then (deliv_accept enq e c) (\<lambda>_ db. (Inr (), snd (mark_dispatched [e] db))))"

section \<open>Dispatching\<close>

definition ids_limit :: "int \<Rightarrow> event_row list \<Rightarrow> int list" where
  "ids_limit n rows = take (nat n) (map ev_id (sort_key ev_id rows))"

definition ClaimEventsMissingDelivery :: "string \<Rightarrow> string \<Rightarrow> int \<Rightarrow> 'q event_db \<Rightarrow> int list" where
  "ClaimEventsMissingDelivery t c n db = ids_limit n
     (filter (\<lambda>r. ev_type r = t \<and> find_delivery (ev_id r) c db = None) (map fst (event_table db)))"

definition ClaimUndispatchedEvents :: "string list \<Rightarrow> int \<Rightarrow> 'q event_db \<Rightarrow> int list" where
  "ClaimUndispatchedEvents bound n db = ids_limit n
     (map fst (filter (\<lambda>(r, d). \<not> d \<and> ev_type r \<notin> set bound) (event_table db)))"

fun accept_events :: "'q enqueue \<Rightarrow> string \<Rightarrow> int list \<Rightarrow> ('q, unit) event_tx" where
  "accept_events enq c [] = ret ()"
| "accept_events enq c (e # es) =
     and_then (deliv_accept enq e c) (\<lambda>_ db.
       accept_events enq c es (snd (mark_dispatched [e] db)))"

text \<open>The loop over the bindings; the result is the number of accepted deliveries.\<close>

fun dispatch_bound :: "'q enqueue \<Rightarrow> DeliveryBinding list \<Rightarrow> int \<Rightarrow> ('q, int) event_tx" where
  "dispatch_bound enq [] n = ret 0"
| "dispatch_bound enq (b # bs) n = (\<lambda>db.
     if n = 0 then (Inr 0, db)
     else (let es = ClaimEventsMissingDelivery (bn_type b) (bn_consumer b) n db in
       and_then (accept_events enq (bn_consumer b) es) (\<lambda>_.
       and_then (dispatch_bound enq bs (n - int (length es))) (\<lambda>k.
       ret (int (length es) + k))) db))"

fun enqueue_events :: "'q enqueue \<Rightarrow> int list \<Rightarrow> ('q, unit) event_tx" where
  "enqueue_events enq [] = ret ()"
| "enqueue_events enq (e # es) =
     and_then (enqueue_job enq \<lparr>ja_event = e, ja_consumer = []\<rparr>) (\<lambda>_. enqueue_events enq es)"

definition dispatch_unbound :: "'q enqueue \<Rightarrow> string list \<Rightarrow> int \<Rightarrow> ('q, int) event_tx" where
  "dispatch_unbound enq bound n = (\<lambda>db.
     if n = 0 then (Inr 0, db)
     else (let es = ClaimUndispatchedEvents bound n db in
       and_then (enqueue_events enq es) (\<lambda>_ db1.
         if es = [] then (Inr 0, db1)
         else (let (k, db2) = mark_dispatched es db1 in
           if k \<noteq> int (length es) then (Inl [EvInvalidDelivery], db2) else (Inr k, db2))) db))"

record 'q delivery_repository =
  rp_enqueue :: "'q enqueue"
  rp_bindings :: "DeliveryBinding list"
  rp_batch :: int

definition newRuntimeRepository :: "'q enqueue \<Rightarrow> int \<Rightarrow> DeliveryBinding list \<Rightarrow> 'q delivery_repository option" where
  "newRuntimeRepository client batch bs =
     (if batch \<le> 0 \<or>
         \<not> list_all (\<lambda>b. validDeliveryName (bn_type b) \<and> validDeliveryName (bn_consumer b)) bs \<or>
         \<not> distinct (map (\<lambda>b. bn_type b @ CHR 0x00 # bn_consumer b) bs)
      then None else Some \<lparr>rp_enqueue = registeredEnqueuer client, rp_bindings = bs, rp_batch = batch\<rparr>)"

definition deliv_Dispatch :: "'q delivery_repository \<Rightarrow> ('q, int) event_tx" where
  "deliv_Dispatch P =
     (if rp_batch P \<le> 0 then fail [EvInvalidDelivery]
      else within (and_then (dispatch_bound (rp_enqueue P) (rp_bindings P) (rp_batch P)) (\<lambda>k.
        and_then (dispatch_unbound (rp_enqueue P) (map bn_type (rp_bindings P)) (rp_batch P - k)) (\<lambda>k'.
        ret (k + k')))))"

section \<open>Working on deliveries\<close>

definition deliv_Load :: "event_env \<Rightarrow> int \<Rightarrow> ('q, EventRecord) event_tx" where
  "deliv_Load N e = (\<lambda>db.
     if e \<le> 0 then (Inl [EvInvalidDelivery], db)
     else (case find_event e db of None \<Rightarrow> (Inl [EvNoRows], db) | Some r \<Rightarrow> (deliveryRecord N r, db)))"

definition update_delivery :: "int \<Rightarrow> string \<Rightarrow> (delivery \<Rightarrow> delivery) \<Rightarrow> 'q event_db \<Rightarrow> 'q event_db" where
  "update_delivery e c f db = db\<lparr>delivery_table :=
     map (\<lambda>d. if dl_event d = e \<and> dl_consumer d = c then f d else d) (delivery_table db)\<rparr>"

definition claimable :: "string \<Rightarrow> instant \<Rightarrow> delivery \<Rightarrow> bool" where
  "claimable owner now d \<longleftrightarrow> dl_status d = DeliveryPending \<or>
     (dl_status d = DeliveryProcessing \<and>
       (dl_owner d = Some owner \<or> (case dl_expires d of None \<Rightarrow> False | Some t \<Rightarrow> t \<le> pg_micros now)))"

definition claimed :: "string \<Rightarrow> instant \<Rightarrow> delivery \<Rightarrow> delivery" where
  "claimed owner until d = d\<lparr>dl_status := DeliveryProcessing, dl_attempt := dl_attempt d + 1,
     dl_owner := Some owner, dl_expires := Some (pg_micros until), dl_error := None\<rparr>"

definition hour :: int where
  "hour = 3600 * 10 ^ 9"

definition deliv_Claim ::
  "event_env \<Rightarrow> instant \<Rightarrow> int \<Rightarrow> string \<Rightarrow> string \<Rightarrow> int \<Rightarrow> ('q, DeliveryClaim) event_tx" where
  "deliv_Claim N now e c owner lease =
     (if e \<le> 0 \<or> \<not> validDeliveryName c \<or> \<not> validDeliveryName owner \<or> lease \<le> 0 \<or> hour < lease
      then fail [EvInvalidDelivery]
      else within (\<lambda>db.
        if \<not> pg_text owner \<or> \<not> pg_text c then (Inl [EvDependency], db)
        else (case find_delivery e c db of
          None \<Rightarrow> (Inl [EvInvalidDelivery, EvNoRows], db)
        | Some d \<Rightarrow>
            if claimable owner now d
            then (case find_event e db of
                    None \<Rightarrow> (Inl [EvLeaseActive], db)
                  | Some r \<Rightarrow>
                      if max_int32 \<le> dl_attempt d then (Inl [EvDependency], db)
                      else (let db1 = update_delivery e c (claimed owner (now + lease)) db in
                        case deliveryRecord N r of
                          Inl err \<Rightarrow> (Inl err, db1)
                        | Inr rec \<Rightarrow> (Inr \<lparr>cl_record = rec, cl_consumer = c, cl_owner = owner,
                            cl_status = DeliveryProcessing, cl_attempt = dl_attempt d + 1\<rparr>, db1)))
            else if delivery_over (dl_status d)
            then (Inr \<lparr>cl_record = no_record, cl_consumer = c, cl_owner = owner,
                       cl_status = dl_status d, cl_attempt = dl_attempt d\<rparr>, db)
            else (Inl [EvLeaseActive], db))))"

definition completed :: "instant \<Rightarrow> delivery \<Rightarrow> delivery" where
  "completed now d = d\<lparr>dl_status := DeliveryCompleted, dl_owner := None, dl_expires := None,
     dl_error := None, dl_completed := (case dl_completed d of None \<Rightarrow> Some now | Some t \<Rightarrow> Some t)\<rparr>"

text \<open>Completing runs in the transaction of the consumer.\<close>

definition deliv_Complete :: "instant \<Rightarrow> int \<Rightarrow> string \<Rightarrow> string \<Rightarrow> ('q, unit) event_tx" where
  "deliv_Complete now e c owner = (\<lambda>db.
     if e \<le> 0 \<or> \<not> validDeliveryName c \<or> \<not> validDeliveryName owner then (Inl [EvInvalidDelivery], db)
     else if \<not> pg_text owner \<or> \<not> pg_text c then (Inl [EvInvalidDelivery, EvDependency], db)
     else (case find_delivery e c db of
       None \<Rightarrow> (Inl [EvInvalidDelivery, EvNoRows], db)
     | Some d \<Rightarrow>
         if dl_status d = DeliveryCompleted \<or> (dl_status d = DeliveryProcessing \<and> dl_owner d = Some owner)
         then (Inr (), update_delivery e c (completed now) db)
         else (Inl [EvInvalidDelivery, EvNoRows], db)))"

definition given_back :: "delivery_status \<Rightarrow> string \<Rightarrow> instant \<Rightarrow> delivery \<Rightarrow> delivery" where
  "given_back target code now d = d\<lparr>dl_status := target, dl_owner := None, dl_expires := None,
     dl_error := Some code, dl_completed := (if target = DeliveryPending then dl_completed d else Some now)\<rparr>"

definition deliv_transition ::
  "instant \<Rightarrow> int \<Rightarrow> string \<Rightarrow> string \<Rightarrow> string \<Rightarrow> delivery_status \<Rightarrow> ('q, unit) event_tx" where
  "deliv_transition now e c owner code target =
     (if e \<le> 0 \<or> \<not> validDeliveryName c \<or> \<not> validDeliveryName owner \<or> \<not> validErrorCode code
      then fail [EvInvalidDelivery]
      else within (\<lambda>db.
        if target \<notin> {DeliveryPending, DeliveryFinalFailed, DeliveryOutcomeUnknown} then (Inl [EvInvalidDelivery], db)
        else if \<not> pg_text owner \<or> \<not> pg_text c \<or> \<not> pg_text code then (Inl [EvInvalidDelivery, EvDependency], db)
        else (case find_delivery e c db of
          None \<Rightarrow> (Inl [EvInvalidDelivery], db)
        | Some d \<Rightarrow>
            if dl_status d = DeliveryProcessing \<and> dl_owner d = Some owner
            then (Inr (), update_delivery e c (given_back target code now) db)
            else (Inl [EvInvalidDelivery], db))))"

definition deliv_Retry :: "instant \<Rightarrow> int \<Rightarrow> string \<Rightarrow> string \<Rightarrow> string \<Rightarrow> ('q, unit) event_tx" where
  "deliv_Retry now e c owner code = deliv_transition now e c owner code DeliveryPending"

definition deliv_FinalFail :: "instant \<Rightarrow> int \<Rightarrow> string \<Rightarrow> string \<Rightarrow> string \<Rightarrow> ('q, unit) event_tx" where
  "deliv_FinalFail now e c owner code = deliv_transition now e c owner code DeliveryFinalFailed"

definition deliv_OutcomeUnknown :: "instant \<Rightarrow> int \<Rightarrow> string \<Rightarrow> string \<Rightarrow> string \<Rightarrow> ('q, unit) event_tx" where
  "deliv_OutcomeUnknown now e c owner code = deliv_transition now e c owner code DeliveryOutcomeUnknown"

end
