(* ===== verification/EventWorker.thy ===== *)
theory EventWorker
  imports EventStore
begin

text \<open>
  Routing and working on deliveries (\<^verbatim>\<open>internal/events/dispatcher/jobs.go\<close>), and the consumer of
  campaign facts (\<^verbatim>\<open>internal/campaign/event_delivery.go\<close>). The store behind the worker is the
  interface \<open>delivery_runtime\<close>; each of its operations is a transaction of its own. The other
  consumers are arguments.
\<close>

section \<open>Interfaces\<close>

record 's delivery_runtime =
  rt_load :: "int \<Rightarrow> ('s, event_error, EventRecord) tx"
  rt_claim :: "int \<Rightarrow> string \<Rightarrow> string \<Rightarrow> int \<Rightarrow> ('s, event_error, DeliveryClaim) tx"
  rt_retry :: "int \<Rightarrow> string \<Rightarrow> string \<Rightarrow> string \<Rightarrow> ('s, event_error, unit) tx"
  rt_final_fail :: "int \<Rightarrow> string \<Rightarrow> string \<Rightarrow> string \<Rightarrow> ('s, event_error, unit) tx"
  rt_outcome_unknown :: "int \<Rightarrow> string \<Rightarrow> string \<Rightarrow> string \<Rightarrow> ('s, event_error, unit) tx"

text \<open>The runtime of the PostgreSQL store, at an instant of the worker and of the database.\<close>

definition pg_deliveries :: "event_env \<Rightarrow> instant \<Rightarrow> 'q event_db delivery_runtime" where
  "pg_deliveries N now = \<lparr>rt_load = deliv_Load N, rt_claim = deliv_Claim N now, rt_retry = deliv_Retry now,
     rt_final_fail = deliv_FinalFail now, rt_outcome_unknown = deliv_OutcomeUnknown now\<rparr>"

record 's subscriber =
  sb_types :: "string list"
  sb_consume :: "EventRecord \<Rightarrow> ('s, event_error, unit) tx"

record 's delivery_subscriber =
  ds_consumer :: string
  ds_types :: "string list"
  ds_consume :: "DeliveryClaim \<Rightarrow> ('s, event_error, unit) tx"

section \<open>The router\<close>

text \<open>Routes are in the order of registration; consumers are under their trimmed names.\<close>

record 's router =
  ro_routes :: "(string \<times> 's subscriber) list"
  ro_consumers :: "(string \<times> 's delivery_subscriber) list"

definition valid_types :: "string list \<Rightarrow> bool" where
  "valid_types ts \<longleftrightarrow> ts \<noteq> [] \<and> [] \<notin> set (map trim_space ts) \<and> distinct (map trim_space ts)"

definition NewRouter :: "'s subscriber list \<Rightarrow> event_error + 's router" where
  "NewRouter subs =
     (if \<not> list_all (\<lambda>sb. valid_types (sb_types sb)) subs then Inl [EvInvalidSubscriber]
      else Inr \<lparr>ro_routes = concat (map (\<lambda>sb. map (\<lambda>t. (trim_space t, sb)) (sb_types sb)) subs), ro_consumers = []\<rparr>)"

definition RegisterDelivery :: "'s router \<Rightarrow> 's delivery_subscriber \<Rightarrow> event_error + 's router" where
  "RegisterDelivery ro ds =
     (if trim_space (ds_consumer ds) = [] \<or> ds_types ds = [] \<or>
         map_of (ro_consumers ro) (trim_space (ds_consumer ds)) \<noteq> None \<or> \<not> valid_types (ds_types ds)
      then Inl [EvInvalidSubscriber]
      else Inr (ro\<lparr>ro_consumers := ro_consumers ro @ [(trim_space (ds_consumer ds), ds)]\<rparr>))"

text \<open>Every subscriber runs, and the errors are joined.\<close>

fun consume_all :: "EventRecord \<Rightarrow> 's subscriber list \<Rightarrow> event_error option \<Rightarrow> ('s, event_error, unit) tx" where
  "consume_all rec [] err = (\<lambda>s. (case err of None \<Rightarrow> Inr () | Some e \<Rightarrow> Inl e, s))"
| "consume_all rec (sb # sbs) err = (\<lambda>s. case sb_consume sb rec s of
     (Inr _, s') \<Rightarrow> consume_all rec sbs err s'
   | (Inl e, s') \<Rightarrow> consume_all rec sbs (Some ((case err of None \<Rightarrow> [] | Some e' \<Rightarrow> e') @ e)) s')"

definition subscribers :: "'s router \<Rightarrow> string \<Rightarrow> 's subscriber list" where
  "subscribers ro t = map snd (filter (\<lambda>(t', _). t' = t) (ro_routes ro))"

definition Router_Consume :: "'s router \<Rightarrow> EventRecord \<Rightarrow> ('s, event_error, unit) tx" where
  "Router_Consume ro rec =
     (if subscribers ro (en_type (er_event rec)) = [] then fail [EvNoSubscriber]
      else consume_all rec (subscribers ro (en_type (er_event rec))) None)"

definition Router_ConsumeDelivery :: "'s router \<Rightarrow> DeliveryClaim \<Rightarrow> ('s, event_error, unit) tx" where
  "Router_ConsumeDelivery ro claim =
     (if er_id (cl_record claim) \<le> 0 \<or> cl_consumer claim = [] then fail [EvInvalidSubscriber]
      else (case map_of (ro_consumers ro) (cl_consumer claim) of
        None \<Rightarrow> fail [EvNoSubscriber]
      | Some ds \<Rightarrow>
          if en_type (er_event (cl_record claim)) \<notin> set (ds_types ds)
          then fail (PoisonDelivery [EvOther ''type''])
          else ds_consume ds claim))"

section \<open>The worker\<close>

record delivery_job =
  jb_id :: int
  jb_args :: DeliveryJobArgs
  jb_attempt :: int
  jb_max :: int

definition minute :: int where
  "minute = 60 * 10 ^ 9"

definition job_owner :: "delivery_job \<Rightarrow> string" where
  "job_owner job = ''river:'' @ show_int (jb_id job)"

text \<open>What becomes of a claimed delivery whose consumer failed with \<open>e\<close>.\<close>

definition after_failure ::
  "'s delivery_runtime \<Rightarrow> delivery_job \<Rightarrow> DeliveryClaim \<Rightarrow> event_error \<Rightarrow> ('s, event_error, unit) tx" where
  "after_failure rt job claim e = (\<lambda>s.
     (let i = er_id (cl_record claim) in
      if error_is e EvOutcomeUnknown
      then rt_outcome_unknown rt i (cl_consumer claim) (cl_owner claim) ''outcome_unknown'' s
      else if error_is e EvPoison \<or> error_is e EvNoSubscriber
      then rt_final_fail rt i (cl_consumer claim) (cl_owner claim) ''poison'' s
      else if jb_max job \<le> jb_attempt job
      then rt_final_fail rt i (cl_consumer claim) (cl_owner claim) ''retry_exhausted'' s
      else (case rt_retry rt i (cl_consumer claim) (cl_owner claim) ''transient'' s of
              (Inl e', s') \<Rightarrow> (Inl (e @ e'), s')
            | (Inr _, s') \<Rightarrow> (Inl e, s'))))"

definition worker_Work :: "'s delivery_runtime \<Rightarrow> 's router \<Rightarrow> delivery_job \<Rightarrow> ('s, event_error, unit) tx" where
  "worker_Work rt ro job =
     (if ja_event (jb_args job) \<le> 0 then fail [EvInvalidDispatcher]
      else if ja_consumer (jb_args job) = []
      then and_then (rt_load rt (ja_event (jb_args job))) (Router_Consume ro)
      else and_then (rt_claim rt (ja_event (jb_args job)) (ja_consumer (jb_args job)) (job_owner job) minute)
        (\<lambda>claim. if delivery_over (cl_status claim) then ret ()
          else (\<lambda>s. case Router_ConsumeDelivery ro claim s of
                  (Inr _, s') \<Rightarrow> (Inr (), s')
                | (Inl e, s') \<Rightarrow> after_failure rt job claim e s')))"

section \<open>The consumer of campaign facts\<close>

definition EvCloudCampaignFact :: string where
  "EvCloudCampaignFact = ''cloud_campaign.fact_recorded''"

definition ConsumerCloudCampaignFact :: string where
  "ConsumerCloudCampaignFact = ''cloud-campaign.fact.v1''"

definition fact_consume :: "instant \<Rightarrow> DeliveryClaim \<Rightarrow> ('q, unit) event_tx" where
  "fact_consume now claim =
     (if er_id (cl_record claim) < 1 \<or> en_type (er_event (cl_record claim)) \<noteq> EvCloudCampaignFact \<or>
         cl_consumer claim \<noteq> ConsumerCloudCampaignFact \<or> cl_owner claim = [] \<or> cl_status claim \<noteq> DeliveryProcessing
      then fail [EvUnavailable]
      else within (deliv_Complete now (er_id (cl_record claim)) (cl_consumer claim) (cl_owner claim)))"

definition FactDeliveryConsumer :: "instant \<Rightarrow> 'q event_db delivery_subscriber" where
  "FactDeliveryConsumer now = \<lparr>ds_consumer = ConsumerCloudCampaignFact, ds_types = [EvCloudCampaignFact],
     ds_consume = fact_consume now\<rparr>"

end
