(* ===== verification/EventFacts.thy ===== *)
theory EventFacts
  imports EventWorker
begin

text \<open>
  What the operations on deliveries keep: the constraints of the two tables (\<open>event_db_ok\<close>), and
  what can become of a delivery (\<open>deliv_later\<close>). A history is a list of operations, run one
  transaction after the other.
\<close>

named_theorems event_ok_intros "operations that keep the constraints of the event store"

section \<open>The constraints of the tables\<close>

fun delivery_shape :: "delivery_status \<Rightarrow> string option \<Rightarrow> instant option \<Rightarrow> string option \<Rightarrow> instant option \<Rightarrow> bool" where
  "delivery_shape DeliveryPending owner expires err done_at = (owner = None \<and> expires = None \<and> done_at = None)"
| "delivery_shape DeliveryProcessing owner expires err done_at = (owner \<noteq> None \<and> expires \<noteq> None \<and> err = None \<and> done_at = None)"
| "delivery_shape DeliveryCompleted owner expires err done_at = (owner = None \<and> expires = None \<and> err = None \<and> done_at \<noteq> None)"
| "delivery_shape _ owner expires err done_at = (owner = None \<and> expires = None \<and> err \<noteq> None \<and> done_at \<noteq> None)"

definition delivery_ok :: "delivery \<Rightarrow> bool" where
  "delivery_ok d \<longleftrightarrow> delivery_shape (dl_status d) (dl_owner d) (dl_expires d) (dl_error d) (dl_completed d) \<and>
     0 \<le> dl_attempt d \<and> dl_attempt d \<le> max_int32 \<and> (\<exists>i>0. dl_job d = Some i)"

definition event_db_ok :: "'q event_db \<Rightarrow> bool" where
  "event_db_ok db \<longleftrightarrow>
     distinct (map (ev_id \<circ> fst) (event_table db)) \<and> distinct (map (ev_key \<circ> fst) (event_table db)) \<and>
     (\<forall>r \<in> set (event_table db). 0 < ev_id (fst r) \<and> ev_id (fst r) < next_event_id db) \<and> 0 < next_event_id db \<and>
     distinct (map (\<lambda>d. (dl_event d, dl_consumer d)) (delivery_table db)) \<and>
     distinct (map dl_job (delivery_table db)) \<and>
     (\<forall>d \<in> set (delivery_table db). delivery_ok d \<and> find_event (dl_event d) db \<noteq> None)"

section \<open>Finding deliveries\<close>

lemma find_delivery_Some:
  "find_delivery e c db = Some d \<Longrightarrow> d \<in> set (delivery_table db) \<and> dl_event d = e \<and> dl_consumer d = c"
  by (auto simp: find_delivery_def find_Some_iff)

lemma find_delivery_in:
  assumes "event_db_ok db" and "d \<in> set (delivery_table db)"
  shows "find_delivery (dl_event d) (dl_consumer d) db = Some d"
proof (cases "find_delivery (dl_event d) (dl_consumer d) db")
  case None
  with assms(2) show ?thesis by (auto simp: find_delivery_def find_None_iff)
next
  case (Some x)
  with find_delivery_Some [OF Some] assms show ?thesis
    by (auto simp: event_db_ok_def distinct_map dest: inj_onD)
qed

lemma find_delivery_None:
  "find_delivery e c db = None \<longleftrightarrow> (e, c) \<notin> (\<lambda>d. (dl_event d, dl_consumer d)) ` set (delivery_table db)"
  by (auto simp: find_delivery_def find_None_iff image_iff)

lemma find_delivery_cong:
  "delivery_table db' = delivery_table db \<Longrightarrow> find_delivery e c db' = find_delivery e c db"
  by (simp add: find_delivery_def)

lemma find_event_cong:
  "map fst (event_table db') = map fst (event_table db) \<Longrightarrow> find_event e db' = find_event e db"
  by (simp add: find_event_def)

text \<open>Updates that keep the key of a delivery.\<close>

definition keeps_key :: "(delivery \<Rightarrow> delivery) \<Rightarrow> bool" where
  "keeps_key f \<longleftrightarrow> (\<forall>d. dl_event (f d) = dl_event d \<and> dl_consumer (f d) = dl_consumer d \<and> dl_job (f d) = dl_job d)"

lemma keeps_key_updates [simp]:
  "keeps_key (claimed owner until)" "keeps_key (completed now)" "keeps_key (given_back target code now)"
  by (simp_all add: keeps_key_def claimed_def completed_def given_back_def)

lemma find_update_delivery:
  assumes "keeps_key f"
  shows "find_delivery e' c' (update_delivery e c f db) =
    (if e' = e \<and> c' = c then map_option f (find_delivery e c db) else find_delivery e' c' db)"
proof -
  let ?g = "\<lambda>d. if dl_event d = e \<and> dl_consumer d = c then f d else d"
  have "find_delivery e' c' (update_delivery e c f db) = map_option ?g (find_delivery e' c' db)"
    using assms by (simp add: find_delivery_def update_delivery_def find_map_same keeps_key_def)
  then show ?thesis
    by (cases "find_delivery e' c' db") (auto dest: find_delivery_Some)
qed

lemma event_db_ok_update:
  assumes ok: "event_db_ok db" and key: "keeps_key f" and at: "find_delivery e c db = Some d" and new: "delivery_ok (f d)"
  shows "event_db_ok (update_delivery e c f db)"
proof -
  let ?g = "\<lambda>d. if dl_event d = e \<and> dl_consumer d = c then f d else d"
  let ?db = "update_delivery e c f db"
  have tables: "delivery_table ?db = map ?g (delivery_table db)" "event_table ?db = event_table db"
    "next_event_id ?db = next_event_id db"
    by (simp_all add: update_delivery_def)
  have keys: "map (\<lambda>d. (dl_event d, dl_consumer d)) (map ?g (delivery_table db)) = map (\<lambda>d. (dl_event d, dl_consumer d)) (delivery_table db)"
    "map dl_job (map ?g (delivery_table db)) = map dl_job (delivery_table db)"
    using key by (auto simp: keeps_key_def)
  have events: "find_event i ?db = find_event i db" for i
    by (rule find_event_cong) (simp add: update_delivery_def)
  have "delivery_ok x' \<and> find_event (dl_event x') db \<noteq> None" if x': "x' \<in> set (map ?g (delivery_table db))" for x'
  proof -
    from x' obtain x where x: "x \<in> set (delivery_table db)" "x' = ?g x" by auto
    have "x = d" if "dl_event x = e" "dl_consumer x = c"
      using find_delivery_in [OF ok x(1)] that at by simp
    with x new ok key show ?thesis by (auto simp: event_db_ok_def keeps_key_def)
  qed
  then show ?thesis using ok unfolding event_db_ok_def tables events keys by blast
qed

section \<open>What can become of a delivery\<close>

definition deliv_later :: "delivery option \<Rightarrow> delivery option \<Rightarrow> bool" where
  "deliv_later x x' \<longleftrightarrow> (case x of None \<Rightarrow> True
   | Some d \<Rightarrow> (\<exists>d'. x' = Some d' \<and> dl_job d' = dl_job d \<and> dl_attempt d \<le> dl_attempt d' \<and>
       (delivery_over (dl_status d) \<longrightarrow> d' = d)))"

lemma deliv_later_refl [simp]: "deliv_later x x"
  by (simp add: deliv_later_def split: option.split)

lemma deliv_later_trans: "deliv_later x y \<Longrightarrow> deliv_later y z \<Longrightarrow> deliv_later x z"
  by (fastforce simp: deliv_later_def split: option.splits)

definition deliveries_later :: "'q event_db \<Rightarrow> 'q event_db \<Rightarrow> bool" where
  "deliveries_later db db' \<longleftrightarrow> (\<forall>e c. deliv_later (find_delivery e c db) (find_delivery e c db'))"

lemma deliveries_later_refl [simp]: "deliveries_later db db"
  by (simp add: deliveries_later_def)

lemma deliveries_later_trans: "deliveries_later db db' \<Longrightarrow> deliveries_later db' db'' \<Longrightarrow> deliveries_later db db''"
  unfolding deliveries_later_def using deliv_later_trans by blast

lemma deliveries_later_update:
  assumes "keeps_key f" and "find_delivery e c db = Some d" and "deliv_later (Some d) (Some (f d))"
  shows "deliveries_later db (update_delivery e c f db)"
  using assms by (simp add: deliveries_later_def find_update_delivery)

lemma delivery_okD: "event_db_ok db \<Longrightarrow> find_delivery e c db = Some d \<Longrightarrow> delivery_ok d"
  using find_delivery_Some [of e c db d] by (simp add: event_db_ok_def)

section \<open>Working operations\<close>

lemma claimed_ok: "delivery_ok d \<Longrightarrow> claimable owner now d \<Longrightarrow> dl_attempt d < max_int32 \<Longrightarrow> delivery_ok (claimed owner until d)"
  by (cases "dl_status d") (auto simp: delivery_ok_def claimed_def claimable_def)

lemma completed_ok: "delivery_ok d \<Longrightarrow> dl_status d = DeliveryCompleted \<or> dl_status d = DeliveryProcessing \<Longrightarrow> delivery_ok (completed now d)"
  by (auto simp: delivery_ok_def completed_def split: option.split)

lemma completed_again: "delivery_ok d \<Longrightarrow> dl_status d = DeliveryCompleted \<Longrightarrow> completed now d = d"
  by (auto simp: delivery_ok_def completed_def)

lemma given_back_ok:
  "delivery_ok d \<Longrightarrow> dl_status d = DeliveryProcessing \<Longrightarrow>
   target \<in> {DeliveryPending, DeliveryFinalFailed, DeliveryOutcomeUnknown} \<Longrightarrow> delivery_ok (given_back target code now d)"
  by (auto simp: delivery_ok_def given_back_def)

lemma claimable_not_over: "claimable owner now d \<Longrightarrow> \<not> delivery_over (dl_status d)"
  by (auto simp: claimable_def)

lemma claimed_later: "claimable owner now d \<Longrightarrow> deliv_later (Some d) (Some (claimed owner until d))"
  using claimable_not_over by (auto simp: deliv_later_def claimed_def)

lemma completed_later:
  "delivery_ok d \<Longrightarrow> dl_status d = DeliveryCompleted \<or> dl_status d = DeliveryProcessing \<Longrightarrow>
   deliv_later (Some d) (Some (completed now d))"
  using completed_again by (auto simp: deliv_later_def) (auto simp: completed_def)

lemma given_back_later: "dl_status d = DeliveryProcessing \<Longrightarrow> deliv_later (Some d) (Some (given_back target code now d))"
  by (auto simp: deliv_later_def given_back_def)

definition fine :: "'q event_db \<Rightarrow> 'q event_db \<Rightarrow> bool" where
  "fine db db' \<longleftrightarrow> event_db_ok db' \<and> deliveries_later db db'"

lemma fine_refl: "event_db_ok db \<Longrightarrow> fine db db"
  by (simp add: fine_def)

lemma fine_trans: "fine db db' \<Longrightarrow> (event_db_ok db' \<Longrightarrow> fine db' db'') \<Longrightarrow> fine db db''"
  using deliveries_later_trans by (auto simp: fine_def)

lemma fine_update:
  "event_db_ok db \<Longrightarrow> keeps_key f \<Longrightarrow> find_delivery e c db = Some d \<Longrightarrow> delivery_ok (f d) \<Longrightarrow>
   deliv_later (Some d) (Some (f d)) \<Longrightarrow> fine db (update_delivery e c f db)"
  by (simp add: fine_def event_db_ok_update deliveries_later_update)

text \<open>The operations of the worker, as what they need and what they do.\<close>

lemma deliv_Claim_InrD:
  assumes "deliv_Claim N now e c owner lease db = (Inr claim, db')"
  shows "\<exists>d. find_delivery e c db = Some d \<and> cl_consumer claim = c \<and> cl_owner claim = owner \<and>
    (if claimable owner now d
     then dl_attempt d < max_int32 \<and> db' = update_delivery e c (claimed owner (now + lease)) db \<and>
       cl_status claim = DeliveryProcessing \<and> cl_attempt claim = dl_attempt d + 1 \<and> er_id (cl_record claim) = e
     else delivery_over (dl_status d) \<and> db' = db \<and> cl_status claim = dl_status d)"
proof -
  have id: "er_id rec = ev_id r" if "deliveryRecord N r = Inr rec" for r rec
    using that by (auto simp: deliveryRecord_def split: if_splits)
  have ev: "ev_id r = e" if "find_event e db = Some r" for r
    using that by (auto simp: find_event_def find_Some_iff)
  from assms id ev show ?thesis
    by (auto simp: deliv_Claim_def within_Inr_iff Let_def split: if_splits option.splits sum.splits)
qed

lemma deliv_Claim_Inl: "deliv_Claim N now e c owner lease db = (Inl err, db') \<Longrightarrow> db' = db"
  by (auto simp: deliv_Claim_def split: if_splits dest: within_Inl_restores)

lemma deliv_Complete_iff:
  "deliv_Complete now e c owner db = (Inr u, db') \<longleftrightarrow>
   0 < e \<and> validDeliveryName c \<and> validDeliveryName owner \<and> pg_text owner \<and> pg_text c \<and>
   (\<exists>d. find_delivery e c db = Some d \<and> (dl_status d = DeliveryCompleted \<or>
      (dl_status d = DeliveryProcessing \<and> dl_owner d = Some owner)) \<and> db' = update_delivery e c (completed now) db)"
  by (auto simp: deliv_Complete_def split: option.splits if_splits)

lemma deliv_Complete_Inl: "deliv_Complete now e c owner db = (Inl err, db') \<Longrightarrow> db' = db"
  by (auto simp: deliv_Complete_def split: option.splits if_splits)

lemma deliv_transition_iff:
  "deliv_transition now e c owner code target db = (Inr u, db') \<longleftrightarrow>
   0 < e \<and> validDeliveryName c \<and> validDeliveryName owner \<and> validErrorCode code \<and>
   target \<in> {DeliveryPending, DeliveryFinalFailed, DeliveryOutcomeUnknown} \<and> pg_text owner \<and> pg_text c \<and> pg_text code \<and>
   (\<exists>d. find_delivery e c db = Some d \<and> dl_status d = DeliveryProcessing \<and> dl_owner d = Some owner \<and>
      db' = update_delivery e c (given_back target code now) db)"
  by (auto simp: deliv_transition_def within_Inr_iff split: option.splits if_splits)

lemma deliv_transition_Inl: "deliv_transition now e c owner code target db = (Inl err, db') \<Longrightarrow> db' = db"
  by (auto simp: deliv_transition_def split: if_splits dest: within_Inl_restores)

lemma deliv_Claim_fine:
  assumes "event_db_ok db" and "deliv_Claim N now e c owner lease db = (r, db')"
  shows "fine db db'"
proof (cases r)
  case (Inl err)
  with assms deliv_Claim_Inl fine_refl show ?thesis by blast
next
  case (Inr claim)
  with deliv_Claim_InrD assms(2) obtain d where d: "find_delivery e c db = Some d"
    "if claimable owner now d then dl_attempt d < max_int32 \<and> db' = update_delivery e c (claimed owner (now + lease)) db
     else db' = db" by (metis (no_types, lifting))
  with assms(1) delivery_okD [OF assms(1) d(1)] show ?thesis
    by (auto intro!: fine_update fine_refl claimed_ok claimed_later split: if_splits)
qed

lemma deliv_Complete_fine:
  assumes "event_db_ok db" and "deliv_Complete now e c owner db = (r, db')"
  shows "fine db db'"
proof (cases r)
  case (Inl err)
  with assms deliv_Complete_Inl fine_refl show ?thesis by blast
next
  case (Inr u)
  with assms(2) deliv_Complete_iff obtain d where d: "find_delivery e c db = Some d"
    "dl_status d = DeliveryCompleted \<or> dl_status d = DeliveryProcessing" "db' = update_delivery e c (completed now) db" by metis
  with assms(1) delivery_okD [OF assms(1) d(1)] show ?thesis
    by (auto intro!: fine_update completed_ok completed_later)
qed

lemma deliv_transition_fine:
  assumes "event_db_ok db" and "deliv_transition now e c owner code target db = (r, db')"
  shows "fine db db'"
proof (cases r)
  case (Inl err)
  with assms deliv_transition_Inl fine_refl show ?thesis by blast
next
  case (Inr u)
  with assms(2) deliv_transition_iff obtain d where d: "find_delivery e c db = Some d" "dl_status d = DeliveryProcessing"
    "target \<in> {DeliveryPending, DeliveryFinalFailed, DeliveryOutcomeUnknown}"
    "db' = update_delivery e c (given_back target code now) db" by metis
  with assms(1) delivery_okD [OF assms(1) d(1)] show ?thesis
    by (auto intro!: fine_update given_back_ok given_back_later)
qed

section \<open>Accepting and dispatching\<close>

definition with_delivery :: "int \<Rightarrow> string \<Rightarrow> int \<Rightarrow> 'q \<Rightarrow> 'q event_db \<Rightarrow> 'q event_db" where
  "with_delivery e c i q db = db\<lparr>river := q,
     delivery_table := delivery_table db @ [(new_delivery e c)\<lparr>dl_job := Some i\<rparr>]\<rparr>"

lemma new_delivery_sel [simp]:
  "dl_event (new_delivery e c) = e" "dl_consumer (new_delivery e c) = c" "dl_status (new_delivery e c) = DeliveryPending"
  "dl_attempt (new_delivery e c) = 0" "dl_job (new_delivery e c) = None"
  by (simp_all add: new_delivery_def)

lemma accept_fresh_row:
  assumes fresh: "find_delivery e c db = None" and table: "delivery_table db2 = delivery_table db @ [new_delivery e c]"
  shows "AcceptEventDelivery i e c db2 =
    (if i \<le> 0 \<or> Some i \<in> dl_job ` set (delivery_table db) then (Inl [EvDependency], db2)
     else (Inr i, db2\<lparr>delivery_table := delivery_table db @ [(new_delivery e c)\<lparr>dl_job := Some i\<rparr>]\<rparr>))"
proof -
  let ?hit = "\<lambda>d. dl_event d = e \<and> dl_consumer d = c \<and> (dl_job d = None \<or> dl_job d = Some i)"
  have other: "\<not> (dl_event d = e \<and> dl_consumer d = c)" if "d \<in> set (delivery_table db)" for d
    using fresh that by (auto simp: find_delivery_def find_None_iff)
  then have "map (\<lambda>d. if ?hit d then d\<lparr>dl_job := Some i\<rparr> else d) (delivery_table db) = delivery_table db"
    by (intro map_idI) auto
  moreover have "list_ex (\<lambda>d. \<not> ?hit d \<and> dl_job d = Some i) (delivery_table db) \<longleftrightarrow> Some i \<in> dl_job ` set (delivery_table db)"
    using other by (auto simp: list_ex_iff image_iff) metis+
  ultimately show ?thesis by (simp add: AcceptEventDelivery_def Let_def table)
qed

lemma deliv_accept_eq:
  "deliv_accept enq e c db = (case find_delivery e c db of
     Some d \<Rightarrow> (case dl_job d of None \<Rightarrow> (Inl [EvInvalidDelivery], db)
                | Some i \<Rightarrow> if i \<le> 0 then (Inl [EvInvalidDelivery], db) else (Inr (), db))
   | None \<Rightarrow>
       if find_event e db = None \<or> \<not> pg_text c then (Inl [EvDependency], db)
       else let db1 = db\<lparr>delivery_table := delivery_table db @ [new_delivery e c]\<rparr> in
         (case enq \<lparr>ja_event = e, ja_consumer = c\<rparr> (river db) of
            (Inl err, q) \<Rightarrow> (Inl err, db1\<lparr>river := q\<rparr>)
          | (Inr i, q) \<Rightarrow> if i \<le> 0 \<or> Some i \<in> dl_job ` set (delivery_table db)
              then (Inl [EvInvalidDelivery, EvDependency], db1\<lparr>river := q\<rparr>)
              else (Inr (), with_delivery e c i q db)))"
proof (cases "find_delivery e c db")
  case None
  show ?thesis
    using accept_fresh_row [OF None, of "db\<lparr>delivery_table := delivery_table db @ [new_delivery e c], river := q\<rparr>" for q]
    by (auto simp: deliv_accept_def ReserveEventDelivery_def None error_is_def enqueue_job_def Let_def with_delivery_def
        split: prod.split sum.split)
next
  case (Some d)
  then show ?thesis
    by (simp add: deliv_accept_def ReserveEventDelivery_def error_is_def split: option.split)
qed

lemma deliv_accept_InrD:
  assumes "deliv_accept enq e c db = (Inr u, db')"
  shows "(find_delivery e c db \<noteq> None \<and> db' = db) \<or>
    (find_delivery e c db = None \<and> find_event e db \<noteq> None \<and>
     (\<exists>i q. enq \<lparr>ja_event = e, ja_consumer = c\<rparr> (river db) = (Inr i, q) \<and> 0 < i \<and>
        Some i \<notin> dl_job ` set (delivery_table db) \<and> db' = with_delivery e c i q db))"
  using assms by (auto simp: deliv_accept_eq Let_def split: option.splits if_splits prod.splits sum.splits)

lemma find_with_delivery:
  "find_delivery e' c' (with_delivery e c i q db) = (case find_delivery e' c' db of
     None \<Rightarrow> if e' = e \<and> c' = c then Some ((new_delivery e c)\<lparr>dl_job := Some i\<rparr>) else None | Some d \<Rightarrow> Some d)"
  by (auto simp: find_delivery_def with_delivery_def find_append split: option.split)

lemma with_delivery_fine:
  assumes ok: "event_db_ok db" and fresh: "find_delivery e c db = None" and at: "find_event e db \<noteq> None"
    and i: "0 < i" "Some i \<notin> dl_job ` set (delivery_table db)"
  shows "fine db (with_delivery e c i q db)"
proof -
  let ?n = "(new_delivery e c)\<lparr>dl_job := Some i\<rparr>"
  have new: "delivery_ok ?n"
    using i by (simp add: delivery_ok_def new_delivery_def max_int32_def)
  have events: "find_event x (with_delivery e c i q db) = find_event x db" for x
    by (rule find_event_cong) (simp add: with_delivery_def)
  have tables: "delivery_table (with_delivery e c i q db) = delivery_table db @ [?n]"
    "event_table (with_delivery e c i q db) = event_table db" "next_event_id (with_delivery e c i q db) = next_event_id db"
    by (simp_all add: with_delivery_def)
  have "event_db_ok (with_delivery e c i q db)"
    using ok fresh at i new unfolding event_db_ok_def tables events find_delivery_None by auto
  moreover have "deliveries_later db (with_delivery e c i q db)"
    by (auto simp: deliveries_later_def deliv_later_def find_with_delivery split: option.split)
  ultimately show ?thesis by (simp add: fine_def)
qed

lemma deliv_accept_fine:
  assumes "event_db_ok db" and "deliv_accept enq e c db = (Inr u, db')"
  shows "fine db db'"
  using deliv_accept_InrD [OF assms(2)] assms(1) by (auto intro: fine_refl with_delivery_fine)

lemma fine_events:
  assumes ok: "event_db_ok db" and ids: "map (ev_id \<circ> fst) (event_table db') = map (ev_id \<circ> fst) (event_table db)"
    and rows: "map fst (event_table db') = map fst (event_table db)"
    and same: "delivery_table db' = delivery_table db" "next_event_id db' = next_event_id db"
  shows "fine db db'"
proof -
  have events: "find_event x db' = find_event x db" for x using rows by (rule find_event_cong)
  have "map (ev_key \<circ> fst) (event_table db') = map (ev_key \<circ> fst) (event_table db)"
    using arg_cong [OF rows, of "map ev_key"] by simp
  moreover have "fst ` set (event_table db') = fst ` set (event_table db)"
    using arg_cong [OF rows, of set] by simp
  then have "(\<forall>x \<in> fst ` set (event_table db'). P x) \<longleftrightarrow> (\<forall>x \<in> fst ` set (event_table db). P x)" for P
    by (simp only:)
  then have "(\<forall>r \<in> set (event_table db'). P (fst r)) \<longleftrightarrow> (\<forall>r \<in> set (event_table db). P (fst r))" for P
    by (simp only: ball_simps)
  from this [of "\<lambda>r. 0 < ev_id r \<and> ev_id r < next_event_id db"]
  have "(\<forall>r \<in> set (event_table db'). 0 < ev_id (fst r) \<and> ev_id (fst r) < next_event_id db) \<longleftrightarrow>
      (\<forall>r \<in> set (event_table db). 0 < ev_id (fst r) \<and> ev_id (fst r) < next_event_id db)" .
  ultimately have "event_db_ok db'"
    using ok unfolding event_db_ok_def ids same events by simp
  then show ?thesis
    using find_delivery_cong [OF same(1)] by (simp add: fine_def deliveries_later_def)
qed

lemma mark_dispatched_rows [simp]:
  "map fst (event_table (snd (mark_dispatched ids db))) = map fst (event_table db)"
  "delivery_table (snd (mark_dispatched ids db)) = delivery_table db"
  "next_event_id (snd (mark_dispatched ids db)) = next_event_id db" "river (snd (mark_dispatched ids db)) = river db"
  by (simp_all add: mark_dispatched_def split_def)

lemma mark_dispatched_fine: "event_db_ok db \<Longrightarrow> fine db (snd (mark_dispatched ids db))"
  by (rule fine_events) (auto simp: mark_dispatched_def split_def)

lemma enqueue_job_fine: "event_db_ok db \<Longrightarrow> enqueue_job enq args db = (r, db') \<Longrightarrow> fine db db'"
  by (rule fine_events) (auto simp: enqueue_job_def split: prod.splits)

lemma accept_events_fine:
  "event_db_ok db \<Longrightarrow> accept_events enq c es db = (Inr u, db') \<Longrightarrow> fine db db'"
proof (induction es arbitrary: db)
  case (Cons e es)
  then obtain db1 where one: "deliv_accept enq e c db = (Inr (), db1)"
    and rest: "accept_events enq c es (snd (mark_dispatched [e] db1)) = (Inr u, db')"
    by (auto simp: tx_iff)
  have f1: "fine db db1" using deliv_accept_fine [OF Cons.prems(1) one] .
  then have f2: "fine db1 (snd (mark_dispatched [e] db1))" by (intro mark_dispatched_fine) (simp add: fine_def)
  then have "fine (snd (mark_dispatched [e] db1)) db'" using Cons.IH [OF _ rest] by (simp add: fine_def)
  with f1 f2 show ?case using fine_trans by blast
qed (auto intro: fine_refl)

lemma dispatch_bound_fine:
  "event_db_ok db \<Longrightarrow> dispatch_bound enq bs n db = (Inr k, db') \<Longrightarrow> fine db db'"
proof (induction bs arbitrary: n db k)
  case (Cons b bs)
  show ?case
  proof (cases "n = 0")
    case False
    with Cons.prems obtain db1 k' m where one: "accept_events enq (bn_consumer b) (ClaimEventsMissingDelivery (bn_type b) (bn_consumer b) n db) db = (Inr (), db1)"
      and rest: "dispatch_bound enq bs m db1 = (Inr k', db')"
      by (auto simp: Let_def tx_iff)
    have "fine db db1" using accept_events_fine [OF Cons.prems(1) one] .
    then show ?thesis using Cons.IH [OF _ rest] fine_trans by blast
  qed (use Cons.prems in \<open>auto intro: fine_refl\<close>)
qed (auto intro: fine_refl)

lemma enqueue_events_fine:
  "event_db_ok db \<Longrightarrow> enqueue_events enq es db = (Inr u, db') \<Longrightarrow> fine db db'"
proof (induction es arbitrary: db)
  case (Cons e es)
  then obtain i db1 where one: "enqueue_job enq \<lparr>ja_event = e, ja_consumer = []\<rparr> db = (Inr i, db1)"
    and rest: "enqueue_events enq es db1 = (Inr u, db')"
    by (auto simp: tx_iff)
  then show ?case using Cons.IH [OF _ rest] enqueue_job_fine [OF Cons.prems(1) one] fine_trans by blast
qed (auto intro: fine_refl)

lemma dispatch_unbound_fine:
  assumes "event_db_ok db" and "dispatch_unbound enq bound n db = (Inr k, db')"
  shows "fine db db'"
proof (cases "n = 0")
  case False
  let ?es = "ClaimUndispatchedEvents bound n db"
  from assms(2) False obtain db1 where one: "enqueue_events enq ?es db = (Inr (), db1)"
    and "db' = db1 \<or> db' = snd (mark_dispatched ?es db1)"
    by (auto simp: dispatch_unbound_def Let_def tx_iff split: if_splits prod.splits)
  then show ?thesis
    using enqueue_events_fine [OF assms(1) one] mark_dispatched_fine fine_trans by blast
qed (use assms in \<open>auto simp: dispatch_unbound_def intro: fine_refl\<close>)

lemma deliv_Dispatch_fine:
  assumes "event_db_ok db" and "deliv_Dispatch P db = (r, db')"
  shows "fine db db'"
proof (cases r)
  case (Inl err)
  with assms have "db' = db"
    by (auto simp: deliv_Dispatch_def split: if_splits dest: within_Inl_restores)
  with assms fine_refl show ?thesis by blast
next
  case (Inr k)
  with assms(2) obtain db1 k1 k2 m where one: "dispatch_bound (rp_enqueue P) (rp_bindings P) (rp_batch P) db = (Inr k1, db1)"
    and two: "dispatch_unbound (rp_enqueue P) (map bn_type (rp_bindings P)) m db1 = (Inr k2, db')"
    by (auto simp: deliv_Dispatch_def tx_iff split: if_splits)
  show ?thesis
    using dispatch_bound_fine [OF assms(1) one] dispatch_unbound_fine [OF _ two] fine_trans by blast
qed

end
