(* ===== verification/EventHistory.thy ===== *)
theory EventHistory
  imports EventFacts
begin

text \<open>
  Histories of the event store: the operations of producers, of the dispatcher and of workers,
  in any order, each as one transaction. What a history keeps, and what a lease protects.
\<close>

section \<open>Operations\<close>

datatype event_op =
    OpAppend Event
  | OpAccept int string
  | OpDispatch
  | OpClaim instant int string string int
  | OpComplete instant int string string
  | OpBack instant int string string string delivery_status

fun event_exec :: "event_env \<Rightarrow> 'q delivery_repository \<Rightarrow> event_op \<Rightarrow> 'q event_db \<Rightarrow> 'q event_db" where
  "event_exec N P (OpAppend e) db = snd (within (appender_Append N e) db)"
| "event_exec N P (OpAccept e c) db = snd (within (deliv_Accept (rp_enqueue P) e c) db)"
| "event_exec N P OpDispatch db = snd (deliv_Dispatch P db)"
| "event_exec N P (OpClaim now e c owner lease) db = snd (deliv_Claim N now e c owner lease db)"
| "event_exec N P (OpComplete now e c owner) db = snd (within (deliv_Complete now e c owner) db)"
| "event_exec N P (OpBack now e c owner code target) db = snd (deliv_transition now e c owner code target db)"

definition event_run :: "event_env \<Rightarrow> 'q delivery_repository \<Rightarrow> event_op list \<Rightarrow> 'q event_db \<Rightarrow> 'q event_db" where
  "event_run N P ops db = fold (event_exec N P) ops db"

definition empty_event_db :: "'q \<Rightarrow> 'q event_db" where
  "empty_event_db q = \<lparr>event_table = [], delivery_table = [], river = q, next_event_id = 1\<rparr>"

lemma empty_event_db_ok: "event_db_ok (empty_event_db q)"
  by (simp add: event_db_ok_def empty_event_db_def)

lemma log_append_fine:
  assumes ok: "event_db_ok db" and run: "log_append row db = (Inr i, db')"
  shows "fine db db'"
proof (cases "List.find (\<lambda>r. ev_key (fst r) = ev_key row) (event_table db)")
  case (Some r)
  with run have "db' = db" by (auto simp: log_append_def split: if_splits)
  with ok show ?thesis by (simp add: fine_refl)
next
  case None
  let ?r = "row\<lparr>ev_id := next_event_id db\<rparr>"
  from None run have db': "db' = db\<lparr>event_table := event_table db @ [(?r, False)], next_event_id := next_event_id db + 1\<rparr>"
    by (auto simp: log_append_def)
  have events: "find_event x db' = (case find_event x db of None \<Rightarrow> if next_event_id db = x then Some ?r else None | Some y \<Rightarrow> Some y)" for x
    by (simp add: find_event_def db' find_append split: option.split)
  then have keep: "find_event x db \<noteq> None \<Longrightarrow> find_event x db' \<noteq> None" for x
    by (auto split: option.splits)
  have key: "ev_key row \<notin> (ev_key \<circ> fst) ` set (event_table db)"
    using None by (auto simp: find_None_iff image_iff)
  have small: "ev_id (fst r) < next_event_id db" if "r \<in> set (event_table db)" for r
    using ok that by (simp add: event_db_ok_def)
  have "distinct (map (ev_id \<circ> fst) (event_table db'))"
    using ok small by (fastforce simp: db' event_db_ok_def)
  moreover have "distinct (map (ev_key \<circ> fst) (event_table db'))"
    using ok key by (simp add: db' event_db_ok_def)
  moreover have "\<forall>r \<in> set (event_table db'). 0 < ev_id (fst r) \<and> ev_id (fst r) < next_event_id db'"
    using ok small by (fastforce simp: db' event_db_ok_def)
  moreover have "delivery_table db' = delivery_table db" "0 < next_event_id db'"
    using ok by (simp_all add: db' event_db_ok_def)
  ultimately have "event_db_ok db'"
    using ok keep unfolding event_db_ok_def by simp
  then show ?thesis
    using find_delivery_cong [of db' db] \<open>delivery_table db' = _\<close> by (simp add: fine_def deliveries_later_def)
qed

lemma event_exec_fine:
  assumes ok: "event_db_ok db"
  shows "fine db (event_exec N P x db)"
proof (cases x)
  case (OpAppend e)
  show ?thesis
  proof (cases "appender_Append N e db")
    case (Pair r db')
    show ?thesis
    proof (cases r)
      case (Inr i)
      with Pair have "\<exists>row. log_append row db = (Inr i, db')"
        by (auto simp: appender_Append_def split: if_splits option.splits)
      with log_append_fine [OF ok] OpAppend Pair Inr show ?thesis by auto
    qed (use ok Pair OpAppend in \<open>simp add: fine_refl\<close>)
  qed
next
  case (OpAccept e c)
  show ?thesis
  proof (cases "deliv_Accept (rp_enqueue P) e c db")
    case (Pair r db')
    show ?thesis
    proof (cases r)
      case (Inr u)
      with Pair obtain db1 where one: "deliv_accept (rp_enqueue P) e c db = (Inr (), db1)"
        and two: "db' = snd (mark_dispatched [e] db1)"
        by (auto simp: deliv_Accept_def tx_iff split: if_splits)
      have "fine db db'"
        using deliv_accept_fine [OF ok one] unfolding two by (rule fine_trans) (rule mark_dispatched_fine)
      with OpAccept Pair Inr show ?thesis by simp
    qed (use ok Pair OpAccept in \<open>simp add: fine_refl\<close>)
  qed
next
  case OpDispatch
  then show ?thesis using deliv_Dispatch_fine [OF ok, of P] by (cases "deliv_Dispatch P db") simp
next
  case (OpClaim now e c owner lease)
  then show ?thesis using deliv_Claim_fine [OF ok, of N now e c owner lease]
    by (cases "deliv_Claim N now e c owner lease db") simp
next
  case (OpComplete now e c owner)
  show ?thesis
  proof (cases "deliv_Complete now e c owner db")
    case (Pair r db')
    then show ?thesis using deliv_Complete_fine [OF ok Pair] ok OpComplete
      by (cases r) (simp_all add: fine_refl)
  qed
next
  case (OpBack now e c owner code target)
  then show ?thesis using deliv_transition_fine [OF ok, of now e c owner code target]
    by (cases "deliv_transition now e c owner code target db") simp
qed

theorem event_run_fine: "event_db_ok db \<Longrightarrow> fine db (event_run N P ops db)"
proof (induction ops arbitrary: db)
  case (Cons x xs)
  note one = event_exec_fine [OF Cons.prems, of N P x]
  then have "fine (event_exec N P x db) (event_run N P xs (event_exec N P x db))"
    by (intro Cons.IH) (simp add: fine_def)
  with one have "fine db (event_run N P xs (event_exec N P x db))" using fine_trans by blast
  then show ?case by (simp add: event_run_def)
qed (simp add: event_run_def fine_refl)

text \<open>The log only grows: its rows are never changed or removed.\<close>

definition log_grows :: "'q event_db \<Rightarrow> 'q event_db \<Rightarrow> bool" where
  "log_grows db db' \<longleftrightarrow> (\<exists>new. map fst (event_table db') = map fst (event_table db) @ new)"

lemma log_grows_same: "map fst (event_table db') = map fst (event_table db) \<Longrightarrow> log_grows db db'"
  by (simp add: log_grows_def)

lemma log_grows_trans: "log_grows db db' \<Longrightarrow> log_grows db' db'' \<Longrightarrow> log_grows db db''"
  by (force simp: log_grows_def)

lemma find_event_grows: "log_grows db db' \<Longrightarrow> find_event e db = Some r \<Longrightarrow> find_event e db' = Some r"
  by (auto simp: log_grows_def find_event_def find_append)

text \<open>
  Accepting and dispatching only add pending deliveries that have their job: the other
  deliveries and the rows of the log stay as they are.
\<close>

definition dispatched :: "'q event_db \<Rightarrow> 'q event_db \<Rightarrow> bool" where
  "dispatched db db' \<longleftrightarrow> map fst (event_table db') = map fst (event_table db) \<and>
     (\<forall>e c. find_delivery e c db' = find_delivery e c db \<or>
        (find_delivery e c db = None \<and> (\<exists>i. find_delivery e c db' = Some ((new_delivery e c)\<lparr>dl_job := Some i\<rparr>))))"

lemma dispatched_refl [simp]: "dispatched db db"
  by (simp add: dispatched_def)

lemma dispatched_trans: "dispatched db db' \<Longrightarrow> dispatched db' db'' \<Longrightarrow> dispatched db db''"
  unfolding dispatched_def by (metis option.distinct(1))

lemma dispatched_same:
  "map fst (event_table db') = map fst (event_table db) \<Longrightarrow> delivery_table db' = delivery_table db \<Longrightarrow> dispatched db db'"
  using find_delivery_cong [of db' db] by (simp add: dispatched_def)

lemma dispatched_keeps: "dispatched db db' \<Longrightarrow> find_delivery e c db = Some d \<Longrightarrow> find_delivery e c db' = Some d"
  unfolding dispatched_def by (metis option.distinct(1))

lemma dispatched_grows: "dispatched db db' \<Longrightarrow> log_grows db db'"
  by (simp add: dispatched_def log_grows_same)

lemma deliv_accept_dispatched:
  assumes "deliv_accept enq e c db = (Inr u, db')"
  shows "dispatched db db'"
proof -
  have "dispatched db (with_delivery e c i q db)" for i q
  proof -
    have "event_table (with_delivery e c i q db) = event_table db" by (simp add: with_delivery_def)
    then show ?thesis unfolding dispatched_def find_with_delivery by (auto split: option.split)
  qed
  with deliv_accept_InrD [OF assms] show ?thesis by auto
qed

lemma accept_events_dispatched: "accept_events enq c es db = (Inr u, db') \<Longrightarrow> dispatched db db'"
proof (induction es arbitrary: db)
  case (Cons e es)
  then obtain db1 where one: "deliv_accept enq e c db = (Inr (), db1)"
    and rest: "accept_events enq c es (snd (mark_dispatched [e] db1)) = (Inr u, db')"
    by (auto simp: tx_iff)
  have "dispatched db1 (snd (mark_dispatched [e] db1))" by (rule dispatched_same) simp_all
  with deliv_accept_dispatched [OF one] Cons.IH [OF rest] dispatched_trans show ?case by blast
qed simp

lemma dispatch_bound_dispatched: "dispatch_bound enq bs n db = (Inr k, db') \<Longrightarrow> dispatched db db'"
proof (induction bs arbitrary: n db k)
  case (Cons b bs)
  show ?case
  proof (cases "n = 0")
    case False
    with Cons.prems obtain db1 k' m where one: "accept_events enq (bn_consumer b) (ClaimEventsMissingDelivery (bn_type b) (bn_consumer b) n db) db = (Inr (), db1)"
      and rest: "dispatch_bound enq bs m db1 = (Inr k', db')"
      by (auto simp: Let_def tx_iff)
    from accept_events_dispatched [OF one] Cons.IH [OF rest] show ?thesis by (rule dispatched_trans)
  qed (use Cons.prems in auto)
qed simp

lemma enqueue_events_keeps:
  "enqueue_events enq es db = (Inr u, db') \<Longrightarrow> delivery_table db' = delivery_table db \<and> event_table db' = event_table db"
proof (induction es arbitrary: db)
  case (Cons x es)
  then obtain i db1 where one: "enqueue_job enq \<lparr>ja_event = x, ja_consumer = []\<rparr> db = (Inr i, db1)"
    and rest: "enqueue_events enq es db1 = (Inr u, db')"
    by (auto simp: tx_iff)
  from one have "delivery_table db1 = delivery_table db \<and> event_table db1 = event_table db"
    by (auto simp: enqueue_job_def split: prod.splits)
  with Cons.IH [OF rest] show ?case by simp
qed simp

lemma dispatch_unbound_dispatched:
  assumes "dispatch_unbound enq bound n db = (Inr k, db')"
  shows "dispatched db db'"
proof (cases "n = 0")
  case False
  with assms obtain db1 where one: "enqueue_events enq (ClaimUndispatchedEvents bound n db) db = (Inr (), db1)"
    and "db' = db1 \<or> db' = snd (mark_dispatched (ClaimUndispatchedEvents bound n db) db1)"
    by (auto simp: dispatch_unbound_def Let_def tx_iff split: if_splits prod.splits)
  with enqueue_events_keeps [OF one] show ?thesis by (auto intro: dispatched_same)
qed (use assms in \<open>simp add: dispatch_unbound_def\<close>)

lemma deliv_Dispatch_dispatched:
  assumes "deliv_Dispatch P db = (r, db')"
  shows "dispatched db db'"
proof (cases r)
  case (Inl err)
  with assms have "db' = db" by (auto simp: deliv_Dispatch_def split: if_splits dest: within_Inl_restores)
  then show ?thesis by simp
next
  case (Inr k)
  with assms(1) obtain db1 k1 k2 m where one: "dispatch_bound (rp_enqueue P) (rp_bindings P) (rp_batch P) db = (Inr k1, db1)"
    and two: "dispatch_unbound (rp_enqueue P) (map bn_type (rp_bindings P)) m db1 = (Inr k2, db')"
    by (auto simp: deliv_Dispatch_def tx_iff split: if_splits)
  from dispatch_bound_dispatched [OF one] dispatch_unbound_dispatched [OF two] show ?thesis by (rule dispatched_trans)
qed

lemma within_log:
  assumes "\<And>v db'. m db = (Inr v, db') \<Longrightarrow> log_grows db db'"
  shows "log_grows db (snd (within m db))"
proof (cases "m db")
  case (Pair r db')
  with assms show ?thesis by (cases r) (auto intro: log_grows_same)
qed

lemma event_exec_log: "log_grows db (event_exec N P x db)"
proof (cases x)
  case (OpAppend e)
  have "log_grows db db'" if "appender_Append N e db = (Inr i, db')" for i db'
    using that by (auto simp: appender_Append_def log_append_def log_grows_def split: if_splits option.splits)
  then show ?thesis unfolding OpAppend event_exec.simps by (rule within_log)
next
  case (OpAccept e c)
  have "log_grows db db'" if "deliv_Accept (rp_enqueue P) e c db = (Inr u, db')" for u db'
    using that by (auto simp: deliv_Accept_def tx_iff intro!: log_grows_same dest!: deliv_accept_dispatched
        simp: dispatched_def split: if_splits)
  then show ?thesis unfolding OpAccept event_exec.simps by (rule within_log)
next
  case OpDispatch
  then show ?thesis using deliv_Dispatch_dispatched [of P db] by (cases "deliv_Dispatch P db") (auto intro: dispatched_grows)
next
  case (OpClaim now e c owner lease)
  have "log_grows db db'" if "deliv_Claim N now e c owner lease db = (r, db')" for r db'
    using that deliv_Claim_Inl [of N now e c owner lease db] deliv_Claim_InrD [of N now e c owner lease db]
    by (cases r) (fastforce intro!: log_grows_same simp: update_delivery_def split: if_splits)+
  with OpClaim show ?thesis by (cases "deliv_Claim N now e c owner lease db") simp
next
  case (OpComplete now e c owner)
  have "log_grows db db'" if "deliv_Complete now e c owner db = (Inr u, db')" for u db'
    using that by (auto simp: deliv_Complete_iff update_delivery_def intro!: log_grows_same)
  then show ?thesis unfolding OpComplete event_exec.simps by (rule within_log)
next
  case (OpBack now e c owner code target)
  have "log_grows db db'" if "deliv_transition now e c owner code target db = (r, db')" for r db'
    using that deliv_transition_Inl [of now e c owner code target db] deliv_transition_iff [of now e c owner code target db]
    by (cases r) (fastforce intro!: log_grows_same simp: update_delivery_def)+
  with OpBack show ?thesis by (cases "deliv_transition now e c owner code target db") simp
qed

lemma event_run_log: "log_grows db (event_run N P ops db)"
proof (induction ops arbitrary: db)
  case (Cons x xs)
  from log_grows_trans [OF event_exec_log [of db N P x] Cons.IH] show ?case by (simp add: event_run_def)
qed (simp add: event_run_def log_grows_same)

section \<open>Leases\<close>

text \<open>The delivery is held by an owner under the lease it claimed.\<close>

definition held :: "int \<Rightarrow> string \<Rightarrow> string \<Rightarrow> instant \<Rightarrow> int \<Rightarrow> 'q event_db \<Rightarrow> bool" where
  "held e c owner until n db \<longleftrightarrow> (\<exists>d. find_delivery e c db = Some d \<and> dl_status d = DeliveryProcessing \<and>
     dl_owner d = Some owner \<and> dl_expires d = Some (pg_micros until) \<and> dl_attempt d = n)"

text \<open>What others may do in the meantime: anything but act for the owner, before the lease ends.\<close>

fun by_others :: "int \<Rightarrow> string \<Rightarrow> string \<Rightarrow> instant \<Rightarrow> event_op \<Rightarrow> bool" where
  "by_others e c owner until (OpClaim now e' c' owner' lease) = (e' \<noteq> e \<or> c' \<noteq> c \<or> (owner' \<noteq> owner \<and> pg_micros now < pg_micros until))"
| "by_others e c owner until (OpComplete now e' c' owner') = (e' \<noteq> e \<or> c' \<noteq> c \<or> owner' \<noteq> owner)"
| "by_others e c owner until (OpBack now e' c' owner' code target) = (e' \<noteq> e \<or> c' \<noteq> c \<or> owner' \<noteq> owner)"
| "by_others e c owner until _ = True"

text \<open>An operation on other deliveries leaves the delivery as it is.\<close>

lemma update_delivery_keeps:
  "keeps_key f \<Longrightarrow> e' \<noteq> e \<or> c' \<noteq> c \<Longrightarrow> find_delivery e c (update_delivery e' c' f db) = find_delivery e c db"
  by (auto simp: find_update_delivery)

lemma held_cong: "find_delivery e c db' = find_delivery e c db \<Longrightarrow> held e c owner until n db' = held e c owner until n db"
  by (simp add: held_def)

lemma event_exec_held:
  assumes held: "held e c owner until n db" and others: "by_others e c owner until x"
  shows "held e c owner until n (event_exec N P x db)"
proof -
  from held obtain d where d: "find_delivery e c db = Some d" "dl_status d = DeliveryProcessing"
    "dl_owner d = Some owner" "dl_expires d = Some (pg_micros until)" "dl_attempt d = n" by (auto simp: held_def)
  have keep: "held e c owner until n db'" if "find_delivery e c db' = find_delivery e c db" for db' :: "'a event_db"
    using held held_cong [OF that] by blast
  show ?thesis
  proof (cases x)
    case (OpAppend ev)
    have "delivery_table (snd (appender_Append N ev db)) = delivery_table db"
      by (auto simp: appender_Append_def log_append_def split: option.split)
    then have "find_delivery e c (event_exec N P x db) = find_delivery e c db"
      by (auto simp: OpAppend within_def intro: find_delivery_cong split: prod.splits sum.splits)
    then show ?thesis by (rule keep)
  next
    case (OpAccept e' c')
    show ?thesis
    proof (cases "deliv_Accept (rp_enqueue P) e' c' db")
      case (Pair r db')
      show ?thesis
      proof (cases r)
        case (Inr u)
        with Pair obtain db1 where one: "deliv_accept (rp_enqueue P) e' c' db = (Inr (), db1)"
          and "delivery_table db' = delivery_table db1"
          by (auto simp: deliv_Accept_def tx_iff split: if_splits)
        then have "find_delivery e c db' = find_delivery e c db1" by (intro find_delivery_cong)
        with dispatched_keeps [OF deliv_accept_dispatched [OF one] d(1)] d(1) keep [of db'] OpAccept Pair Inr show ?thesis by simp
      qed (use Pair OpAccept held in simp)
    qed
  next
    case OpDispatch
    show ?thesis
      by (rule keep) (use dispatched_keeps [OF deliv_Dispatch_dispatched, of P db _ _ e c d] d(1) OpDispatch in \<open>cases "deliv_Dispatch P db"; simp\<close>)
  next
    case (OpClaim now e' c' owner' lease)
    show ?thesis
    proof (cases "deliv_Claim N now e' c' owner' lease db")
      case (Pair r db')
      have "find_delivery e c db' = find_delivery e c db"
      proof (cases r)
        case (Inl err)
        with Pair deliv_Claim_Inl show ?thesis by blast
      next
        case (Inr claim)
        from deliv_Claim_InrD [OF Pair [unfolded Inr]] obtain d' where d': "find_delivery e' c' db = Some d'"
          "if claimable owner' now d' then db' = update_delivery e' c' (claimed owner' (now + lease)) db else db' = db"
          by (metis (no_types, lifting))
        show ?thesis
        proof (cases "e' = e \<and> c' = c")
          case True
          with d d' others OpClaim have "\<not> claimable owner' now d'" by (auto simp: claimable_def)
          with d'(2) show ?thesis by simp
        next
          case False
          with d'(2) show ?thesis by (auto simp: update_delivery_keeps split: if_splits)
        qed
      qed
      with OpClaim Pair keep show ?thesis by simp
    qed
  next
    case (OpComplete now e' c' owner')
    show ?thesis
    proof (cases "deliv_Complete now e' c' owner' db")
      case (Pair r db')
      show ?thesis
      proof (cases r)
        case (Inr u)
        from Pair [unfolded Inr] deliv_Complete_iff obtain d' where d': "find_delivery e' c' db = Some d'"
          "dl_status d' = DeliveryCompleted \<or> (dl_status d' = DeliveryProcessing \<and> dl_owner d' = Some owner')"
          "db' = update_delivery e' c' (completed now) db" by metis
        then have "e' \<noteq> e \<or> c' \<noteq> c" using d others OpComplete by auto
        then have "find_delivery e c db' = find_delivery e c db" using d'(3) by (simp add: update_delivery_keeps)
        with OpComplete Pair Inr keep show ?thesis by simp
      qed (use Pair OpComplete held in simp)
    qed
  next
    case (OpBack now e' c' owner' code target)
    show ?thesis
    proof (cases "deliv_transition now e' c' owner' code target db")
      case (Pair r db')
      have "find_delivery e c db' = find_delivery e c db"
      proof (cases r)
        case (Inl err)
        with Pair deliv_transition_Inl show ?thesis by blast
      next
        case (Inr u)
        from Pair [unfolded Inr] deliv_transition_iff obtain d' where d': "find_delivery e' c' db = Some d'"
          "dl_owner d' = Some owner'" "db' = update_delivery e' c' (given_back target code now) db" by metis
        then have "e' \<noteq> e \<or> c' \<noteq> c" using d others OpBack by auto
        then show ?thesis using d'(3) by (simp add: update_delivery_keeps)
      qed
      with OpBack Pair keep show ?thesis by simp
    qed
  qed
qed

lemma event_run_held:
  "held e c owner until n db \<Longrightarrow> list_all (by_others e c owner until) ops \<Longrightarrow> held e c owner until n (event_run N P ops db)"
proof (induction ops arbitrary: db)
  case (Cons x xs)
  then have "held e c owner until n (event_run N P xs (event_exec N P x db))"
    by (intro Cons.IH) (simp_all add: event_exec_held)
  then show ?case by (simp add: event_run_def)
qed (simp add: event_run_def)

end
