(* ===== verification/EventDispatch.thy ===== *)
theory EventDispatch
  imports EventHistory
begin

text \<open>
  What one run of the dispatcher achieves, over a queue that answers every insertion: it works
  off the backlog by its batch size, and by no less. \<open>jobs\<close> observes the jobs that the queue has
  been given, with their identifiers.
\<close>

section \<open>The queue\<close>

text \<open>
  River inserts a job with a new positive identifier, or answers a job that already has the
  arguments (its unique option).
\<close>

definition river_ok :: "'q enqueue \<Rightarrow> ('q \<Rightarrow> (int \<times> DeliveryJobArgs) list) \<Rightarrow> bool" where
  "river_ok enq jobs \<longleftrightarrow> (\<forall>args q. \<exists>i q'. enq args q = (Inr i, q') \<and> 0 < i \<and>
     ((i, args) \<in> set (jobs q) \<and> jobs q' = jobs q \<or>
      i \<notin> fst ` set (jobs q) \<and> jobs q' = jobs q @ [(i, args)]))"

text \<open>Every delivery has its job, and every job for a consumer has its delivery.\<close>

definition jobs_match :: "('q \<Rightarrow> (int \<times> DeliveryJobArgs) list) \<Rightarrow> 'q event_db \<Rightarrow> bool" where
  "jobs_match jobs db \<longleftrightarrow>
     (\<forall>d \<in> set (delivery_table db). \<exists>i. dl_job d = Some i \<and>
        (i, \<lparr>ja_event = dl_event d, ja_consumer = dl_consumer d\<rparr>) \<in> set (jobs (river db))) \<and>
     (\<forall>a \<in> snd ` set (jobs (river db)). ja_consumer a \<noteq> [] \<longrightarrow> find_delivery (ja_event a) (ja_consumer a) db \<noteq> None)"

definition ready_store :: "('q \<Rightarrow> (int \<times> DeliveryJobArgs) list) \<Rightarrow> 'q event_db \<Rightarrow> bool" where
  "ready_store jobs db \<longleftrightarrow> event_db_ok db \<and> jobs_match jobs db"

definition consumer_ok :: "string \<Rightarrow> bool" where
  "consumer_ok c \<longleftrightarrow> validDeliveryName c \<and> pg_text c"

lemma consumer_ok_not_Nil: "consumer_ok c \<Longrightarrow> c \<noteq> []"
  by (auto simp: consumer_ok_def validDeliveryName_def)

section \<open>Accepting\<close>

lemma deliv_accept_commits:
  assumes ok: "ready_store jobs db" and queue: "river_ok enq jobs" and at: "find_event e db \<noteq> None" and c: "consumer_ok c"
    and fresh: "find_delivery e c db = None"
  shows "\<exists>db'. deliv_accept enq e c db = (Inr (), db') \<and> ready_store jobs db' \<and> event_table db' = event_table db \<and>
    (\<forall>e' c'. find_delivery e' c' db' = None \<longleftrightarrow> find_delivery e' c' db = None \<and> (e', c') \<noteq> (e, c))"
proof -
  let ?a = "\<lparr>ja_event = e, ja_consumer = c\<rparr>"
  have match: "jobs_match jobs db" and eok: "event_db_ok db" using ok by (simp_all add: ready_store_def)
  have "?a \<notin> snd ` set (jobs (river db))"
    using match fresh consumer_ok_not_Nil [OF c] by (force simp: jobs_match_def)
  with queue obtain i q where enq: "enq ?a (river db) = (Inr i, q)" "0 < i" "i \<notin> fst ` set (jobs (river db))"
    "jobs q = jobs (river db) @ [(i, ?a)]"
    unfolding river_ok_def by (metis (no_types, lifting) image_eqI snd_conv)
  have new: "Some i \<notin> dl_job ` set (delivery_table db)"
    using match enq(3) by (force simp: jobs_match_def)
  have run: "deliv_accept enq e c db = (Inr (), with_delivery e c i q db)"
    using fresh at c enq(1,2) new by (auto simp: deliv_accept_eq consumer_ok_def Let_def)
  have "event_db_ok (with_delivery e c i q db)"
    using with_delivery_fine [OF eok fresh at enq(2) new] by (simp add: fine_def)
  moreover have "jobs_match jobs (with_delivery e c i q db)"
  proof -
    have "river (with_delivery e c i q db) = q" "delivery_table (with_delivery e c i q db) =
        delivery_table db @ [(new_delivery e c)\<lparr>dl_job := Some i\<rparr>]"
      by (simp_all add: with_delivery_def)
    with match enq(4) show ?thesis
      by (fastforce simp: jobs_match_def find_with_delivery split: option.split)
  qed
  moreover have "event_table (with_delivery e c i q db) = event_table db" by (simp add: with_delivery_def)
  ultimately show ?thesis using run
    by (intro exI [of _ "with_delivery e c i q db"]) (auto simp: ready_store_def find_with_delivery split: option.splits)
qed

lemma ready_mark_dispatched: "ready_store jobs db \<Longrightarrow> ready_store jobs (snd (mark_dispatched ids db))"
  using mark_dispatched_fine [of db ids] find_delivery_cong [of "snd (mark_dispatched ids db)" db]
  by (simp add: ready_store_def jobs_match_def fine_def)

definition flagged :: "int list \<Rightarrow> (event_row \<times> bool) list \<Rightarrow> (event_row \<times> bool) list" where
  "flagged es table = map (\<lambda>(r, d). (r, d \<or> ev_id r \<in> set es)) table"

lemma flagged_Nil [simp]: "flagged [] table = table"
  by (simp add: flagged_def split_def)

lemma flagged_fst [simp]: "map fst (flagged es table) = map fst table"
  by (simp add: flagged_def split_def)

lemma flagged_flagged [simp]: "flagged es (flagged es' table) = flagged (es' @ es) table"
  by (auto simp: flagged_def)

lemma mark_dispatched_table: "event_table (snd (mark_dispatched es db)) = flagged es (event_table db)"
  by (simp add: mark_dispatched_def flagged_def)

lemma accept_events_commits:
  assumes "ready_store jobs db" and "river_ok enq jobs" and "consumer_ok c" and "distinct es"
    and "\<And>e. e \<in> set es \<Longrightarrow> find_event e db \<noteq> None \<and> find_delivery e c db = None"
  shows "\<exists>db'. accept_events enq c es db = (Inr (), db') \<and> ready_store jobs db' \<and>
    event_table db' = flagged es (event_table db) \<and>
    (\<forall>e' c'. find_delivery e' c' db' = None \<longleftrightarrow> find_delivery e' c' db = None \<and> \<not> (c' = c \<and> e' \<in> set es))"
  using assms
proof (induction es arbitrary: db)
  case (Cons e es)
  have here: "find_event e db \<noteq> None" "find_delivery e c db = None" using Cons.prems(5) by simp_all
  from deliv_accept_commits [OF Cons.prems(1,2) here(1) Cons.prems(3) here(2)] obtain db1 where
    one: "deliv_accept enq e c db = (Inr (), db1)" "ready_store jobs db1" "event_table db1 = event_table db"
      "\<And>e' c'. find_delivery e' c' db1 = None \<longleftrightarrow> find_delivery e' c' db = None \<and> (e', c') \<noteq> (e, c)" by blast
  let ?db2 = "snd (mark_dispatched [e] db1)"
  have found: "find_delivery e' c' ?db2 = find_delivery e' c' db1" for e' c' by (rule find_delivery_cong) simp
  have event: "find_event e' ?db2 = find_event e' db" for e' by (rule find_event_cong) (simp add: one(3))
  have "\<exists>db'. accept_events enq c es ?db2 = (Inr (), db') \<and> ready_store jobs db' \<and>
    event_table db' = flagged es (event_table ?db2) \<and>
    (\<forall>e' c'. find_delivery e' c' db' = None \<longleftrightarrow> find_delivery e' c' ?db2 = None \<and> \<not> (c' = c \<and> e' \<in> set es))"
  proof (rule Cons.IH)
    show "ready_store jobs ?db2" using one(2) by (rule ready_mark_dispatched)
    fix e' assume "e' \<in> set es"
    then show "find_event e' ?db2 \<noteq> None \<and> find_delivery e' c ?db2 = None"
      using Cons.prems(5) [of e'] Cons.prems(4) by (auto simp: event found one(4))
  qed (use Cons.prems in simp_all)
  with one show ?case by (auto simp: found mark_dispatched_table)
qed simp

section \<open>The backlog\<close>

definition missing_rows :: "DeliveryBinding \<Rightarrow> 'q event_db \<Rightarrow> event_row list" where
  "missing_rows b db = filter (\<lambda>r. ev_type r = bn_type b \<and> find_delivery (ev_id r) (bn_consumer b) db = None)
     (map fst (event_table db))"

definition missing :: "DeliveryBinding list \<Rightarrow> 'q event_db \<Rightarrow> int" where
  "missing bs db = (\<Sum>b\<leftarrow>bs. int (length (missing_rows b db)))"

definition undispatched_rows :: "string list \<Rightarrow> 'q event_db \<Rightarrow> event_row list" where
  "undispatched_rows bound db = map fst (filter (\<lambda>(r, d). \<not> d \<and> ev_type r \<notin> set bound) (event_table db))"

definition backlog :: "'q delivery_repository \<Rightarrow> 'q event_db \<Rightarrow> int" where
  "backlog P db = missing (rp_bindings P) db + int (length (undispatched_rows (map bn_type (rp_bindings P)) db))"

lemma claim_missing: "ClaimEventsMissingDelivery (bn_type b) (bn_consumer b) n db = ids_limit n (missing_rows b db)"
  by (simp add: ClaimEventsMissingDelivery_def missing_rows_def)

lemma claim_undispatched: "ClaimUndispatchedEvents bound n db = ids_limit n (undispatched_rows bound db)"
  by (simp add: ClaimUndispatchedEvents_def undispatched_rows_def)

lemma ids_limit_facts:
  assumes "distinct (map ev_id rows)"
  shows "distinct (ids_limit n rows)" and "set (ids_limit n rows) \<subseteq> ev_id ` set rows"
    and "length (ids_limit n rows) = min (nat n) (length rows)"
proof -
  have "distinct (map ev_id (sort_key ev_id rows))"
    using assms by (simp add: distinct_map)
  then show "distinct (ids_limit n rows)" by (simp add: ids_limit_def)
  show "set (ids_limit n rows) \<subseteq> ev_id ` set rows"
    by (auto simp: ids_limit_def dest: in_set_takeD)
  show "length (ids_limit n rows) = min (nat n) (length rows)" by (simp add: ids_limit_def min.commute)
qed

lemma length_filter_in:
  assumes "distinct (map ev_id rows)" and "distinct es" and "set es \<subseteq> ev_id ` set rows"
  shows "length (filter (\<lambda>r. ev_id r \<in> set es) rows) = length es"
proof -
  have inj: "inj_on ev_id (set rows)" using assms(1) by (simp add: distinct_map)
  have "card {r \<in> set rows. ev_id r \<in> set es} = card (ev_id ` {r \<in> set rows. ev_id r \<in> set es})"
    using inj by (intro card_image [symmetric]) (auto simp: inj_on_def)
  also have "ev_id ` {r \<in> set rows. ev_id r \<in> set es} = set es" using assms(3) by auto
  finally show ?thesis
    using assms(1,2) by (simp add: distinct_map distinct_length_filter Int_def conj_commute distinct_card)
qed

lemma length_filter_ids:
  assumes "distinct (map ev_id rows)" and "distinct es" and "set es \<subseteq> ev_id ` set rows"
  shows "length (filter (\<lambda>r. ev_id r \<notin> set es) rows) = length rows - length es"
  using sum_length_filter_compl [of "\<lambda>r. ev_id r \<in> set es" rows] length_filter_in [OF assms] by simp

lemma rows_distinct: "event_db_ok db \<Longrightarrow> distinct (map ev_id (map fst (event_table db)))"
  by (simp add: event_db_ok_def)

lemma find_event_row:
  assumes "event_db_ok db" and "r \<in> fst ` set (event_table db)"
  shows "find_event (ev_id r) db = Some r"
proof -
  have "find_event (ev_id r) db \<noteq> None" using assms(2) by (auto simp: find_event_def find_None_iff)
  then obtain x where x: "find_event (ev_id r) db = Some x" by blast
  then have "x \<in> fst ` set (event_table db)" "ev_id x = ev_id r" by (auto simp: find_event_def find_Some_iff)
  moreover have "inj_on ev_id (fst ` set (event_table db))" using rows_distinct [OF assms(1)] by (simp only: distinct_map set_map)
  ultimately have "x = r" using assms(2) by (auto dest: inj_onD)
  with x show ?thesis by simp
qed

lemma missing_distinct: "event_db_ok db \<Longrightarrow> distinct (map ev_id (missing_rows b db))"
  unfolding missing_rows_def by (intro distinct_map_filter rows_distinct)

section \<open>The bindings\<close>

text \<open>Working off one binding: its first missing deliveries are created, and nothing else changes.\<close>

lemma accept_missing:
  assumes ok: "ready_store jobs db" and queue: "river_ok enq jobs" and c: "consumer_ok (bn_consumer b)"
    and es: "es = ids_limit n (missing_rows b db)"
  shows "\<exists>db'. accept_events enq (bn_consumer b) es db = (Inr (), db') \<and> ready_store jobs db' \<and>
    event_table db' = flagged es (event_table db) \<and>
    missing_rows b db' = filter (\<lambda>r. ev_id r \<notin> set es) (missing_rows b db) \<and>
    (\<forall>b'. b' \<noteq> b \<longrightarrow> missing_rows b' db' = missing_rows b' db)"
proof -
  have eok: "event_db_ok db" using ok by (simp add: ready_store_def)
  note ids = ids_limit_facts [OF missing_distinct [OF eok], of n b, folded es]
  have from_row: "\<exists>r \<in> fst ` set (event_table db). ev_id r = e \<and> ev_type r = bn_type b \<and> find_delivery e (bn_consumer b) db = None"
    if "e \<in> set es" for e
    using ids(2) that by (force simp: missing_rows_def)
  have "find_event e db \<noteq> None \<and> find_delivery e (bn_consumer b) db = None" if "e \<in> set es" for e
    using from_row [OF that] find_event_row [OF eok] by force
  from accept_events_commits [OF ok queue c ids(1) this] obtain db' where
    run: "accept_events enq (bn_consumer b) es db = (Inr (), db')" "ready_store jobs db'"
      "event_table db' = flagged es (event_table db)"
    and after: "\<And>e' c'. find_delivery e' c' db' = None \<longleftrightarrow> find_delivery e' c' db = None \<and> \<not> (c' = bn_consumer b \<and> e' \<in> set es)"
    by blast
  have rows: "map fst (event_table db') = map fst (event_table db)" by (simp add: run(3))
  have "missing_rows b db' = filter (\<lambda>r. ev_id r \<notin> set es) (missing_rows b db)"
    unfolding missing_rows_def rows by (auto simp: after intro: filter_cong)
  moreover have "missing_rows b' db' = missing_rows b' db" if "b' \<noteq> b" for b'
  proof -
    have "\<not> (bn_consumer b' = bn_consumer b \<and> ev_id r \<in> set es)"
      if r: "r \<in> fst ` set (event_table db)" "ev_type r = bn_type b'" for r
    proof
      assume both: "bn_consumer b' = bn_consumer b \<and> ev_id r \<in> set es"
      with from_row obtain r' where "r' \<in> fst ` set (event_table db)" "ev_id r' = ev_id r" "ev_type r' = bn_type b" by blast
      with find_event_row [OF eok] r have "bn_type b' = bn_type b" by (metis option.inject)
      with both \<open>b' \<noteq> b\<close> show False by (simp add: DeliveryBinding.equality)
    qed
    then show ?thesis unfolding missing_rows_def rows by (intro filter_cong) (auto simp: after)
  qed
  ultimately show ?thesis using run by blast
qed

lemma undispatched_flagged:
  assumes "event_table db' = flagged es (event_table db)"
  shows "undispatched_rows bound db' = filter (\<lambda>r. ev_id r \<notin> set es) (undispatched_rows bound db)"
proof -
  have "map fst (filter (\<lambda>(r, d). \<not> d \<and> ev_type r \<notin> set bound) (flagged es T)) =
    filter (\<lambda>r. ev_id r \<notin> set es) (map fst (filter (\<lambda>(r, d). \<not> d \<and> ev_type r \<notin> set bound) T))" for T
    by (induction T) (auto simp: flagged_def split: prod.split)
  then show ?thesis by (simp add: undispatched_rows_def assms)
qed

lemma undispatched_other:
  assumes ok: "event_db_ok db" and b: "bn_type b \<in> set bound" and es: "set es \<subseteq> ev_id ` set (missing_rows b db)"
    and table: "event_table db' = flagged es (event_table db)"
  shows "undispatched_rows bound db' = undispatched_rows bound db"
proof -
  have "ev_id r \<notin> set es" if "r \<in> set (undispatched_rows bound db)" for r
  proof
    assume "ev_id r \<in> set es"
    with es obtain r' where "r' \<in> fst ` set (event_table db)" "ev_id r' = ev_id r" "ev_type r' = bn_type b"
      unfolding missing_rows_def by fastforce
    moreover have "r \<in> fst ` set (event_table db)" "ev_type r \<notin> set bound"
      using that by (force simp: undispatched_rows_def)+
    ultimately show False using find_event_row [OF ok] b by (metis option.inject)
  qed
  then show ?thesis by (simp add: undispatched_flagged [OF table] filter_id_conv)
qed

lemma missing_Nil [simp]: "missing [] db = 0"
  by (simp add: missing_def)

lemma missing_Cons [simp]: "missing (b # bs) db = int (length (missing_rows b db)) + missing bs db"
  by (simp add: missing_def)

lemma missing_nonneg: "0 \<le> missing bs db"
  by (induction bs) simp_all

lemma dispatch_bound_commits:
  assumes "ready_store jobs db" and "river_ok enq jobs" and "list_all (consumer_ok \<circ> bn_consumer) bs"
    and "distinct bs" and "0 \<le> n"
  shows "\<exists>db'. dispatch_bound enq bs n db = (Inr (min n (missing bs db)), db') \<and> ready_store jobs db' \<and>
    map fst (event_table db') = map fst (event_table db) \<and>
    missing bs db' = missing bs db - min n (missing bs db) \<and>
    (\<forall>b. b \<notin> set bs \<longrightarrow> missing_rows b db' = missing_rows b db) \<and>
    (\<forall>bound. bn_type ` set bs \<subseteq> set bound \<longrightarrow> undispatched_rows bound db' = undispatched_rows bound db)"
  using assms
proof (induction bs arbitrary: n db)
  case (Cons b bs)
  show ?case
  proof (cases "n = 0")
    case True
    with Cons.prems(1) missing_nonneg [of "b # bs" db] show ?thesis by (intro exI [of _ db]) simp
  next
    case False
    define es where "es = ids_limit n (missing_rows b db)"
    have eok: "event_db_ok db" using Cons.prems(1) by (simp add: ready_store_def)
    note ids = ids_limit_facts [OF missing_distinct [OF eok], of n b, folded es_def]
    have "consumer_ok (bn_consumer b)" using Cons.prems(3) by simp
    from accept_missing [OF Cons.prems(1,2) this es_def] obtain db1 where one: "accept_events enq (bn_consumer b) es db = (Inr (), db1)"
      "ready_store jobs db1" "event_table db1 = flagged es (event_table db)"
      "missing_rows b db1 = filter (\<lambda>r. ev_id r \<notin> set es) (missing_rows b db)"
      and others: "\<And>b'. b' \<noteq> b \<Longrightarrow> missing_rows b' db1 = missing_rows b' db" by blast
    have left: "int (length (missing_rows b db1)) = int (length (missing_rows b db)) - int (length es)"
      using length_filter_ids [OF missing_distinct [OF eok] ids(1,2)] ids(3) by (simp add: one(4) of_nat_diff)
    have len: "int (length es) = min n (int (length (missing_rows b db)))" using ids(3) Cons.prems(5) by simp
    have rest: "missing bs db1 = missing bs db"
    proof -
      have "missing_rows b' db1 = missing_rows b' db" if "b' \<in> set bs" for b'
        by (rule others) (use Cons.prems(4) that in auto)
      then show ?thesis unfolding missing_def by (intro arg_cong [of _ _ sum_list] map_cong) simp_all
    qed
    have "\<exists>db'. dispatch_bound enq bs (n - int (length es)) db1 = (Inr (min (n - int (length es)) (missing bs db1)), db') \<and>
        ready_store jobs db' \<and> map fst (event_table db') = map fst (event_table db1) \<and>
        missing bs db' = missing bs db1 - min (n - int (length es)) (missing bs db1) \<and>
        (\<forall>b. b \<notin> set bs \<longrightarrow> missing_rows b db' = missing_rows b db1) \<and>
        (\<forall>bound. bn_type ` set bs \<subseteq> set bound \<longrightarrow> undispatched_rows bound db' = undispatched_rows bound db1)"
      by (rule Cons.IH) (use Cons.prems one(2) len in simp_all)
    then obtain db' where two: "dispatch_bound enq bs (n - int (length es)) db1 = (Inr (min (n - int (length es)) (missing bs db1)), db')"
      "ready_store jobs db'" "map fst (event_table db') = map fst (event_table db1)"
      "missing bs db' = missing bs db1 - min (n - int (length es)) (missing bs db1)"
      and kept: "\<And>b. b \<notin> set bs \<Longrightarrow> missing_rows b db' = missing_rows b db1"
      and waiting: "\<And>bound. bn_type ` set bs \<subseteq> set bound \<Longrightarrow> undispatched_rows bound db' = undispatched_rows bound db1"
      by blast
    have count: "int (length es) + min (n - int (length es)) (missing bs db) = min n (missing (b # bs) db)"
      using len missing_nonneg [of bs db] by auto
    have "dispatch_bound enq (b # bs) n db = (Inr (min n (missing (b # bs) db)), db')"
      using False one(1) two(1) count by (simp add: claim_missing Let_def es_def [symmetric] rest tx_iff)
    moreover have "missing (b # bs) db' = missing (b # bs) db - min n (missing (b # bs) db)"
      using two(4) kept [of b] left rest count Cons.prems(4) by simp
    moreover have "missing_rows b' db' = missing_rows b' db" if "b' \<notin> set (b # bs)" for b'
      using that kept others by simp
    moreover have "undispatched_rows bound db' = undispatched_rows bound db" if "bn_type ` set (b # bs) \<subseteq> set bound" for bound
      using that waiting undispatched_other [OF eok _ ids(2) one(3)] by simp
    ultimately show ?thesis using two(2,3) one(3) by simp
  qed
qed simp

section \<open>Events without a binding\<close>

lemma enqueue_events_commits:
  "ready_store jobs db \<Longrightarrow> river_ok enq jobs \<Longrightarrow> \<exists>db'. enqueue_events enq es db = (Inr (), db') \<and> ready_store jobs db'"
proof (induction es arbitrary: db)
  case (Cons e es)
  let ?a = "\<lparr>ja_event = e, ja_consumer = []\<rparr>"
  obtain i q where enq: "enq ?a (river db) = (Inr i, q)" "jobs q = jobs (river db) \<or> jobs q = jobs (river db) @ [(i, ?a)]"
    using Cons.prems(2) unfolding river_ok_def by (metis (no_types, lifting))
  let ?db = "db\<lparr>river := q\<rparr>"
  have one: "enqueue_job enq ?a db = (Inr i, ?db)" by (simp add: enqueue_job_def enq(1))
  have "event_db_ok ?db" using enqueue_job_fine [OF _ one] Cons.prems(1) by (simp add: ready_store_def fine_def)
  moreover have "jobs_match jobs ?db"
    using Cons.prems(1) enq(2) find_delivery_cong [of ?db db] by (fastforce simp: ready_store_def jobs_match_def)
  ultimately have "ready_store jobs ?db" by (simp add: ready_store_def)
  from Cons.IH [OF this Cons.prems(2)] one show ?case by (auto simp: tx_iff)
qed simp

lemma dispatch_unbound_commits:
  assumes ok: "ready_store jobs db" and queue: "river_ok enq jobs" and n: "0 \<le> n"
    and k_def: "k = min n (int (length (undispatched_rows bound db)))"
  shows "\<exists>db'. dispatch_unbound enq bound n db = (Inr k, db') \<and> ready_store jobs db' \<and>
    map fst (event_table db') = map fst (event_table db) \<and> delivery_table db' = delivery_table db \<and>
    int (length (undispatched_rows bound db')) = int (length (undispatched_rows bound db)) - k"
proof (cases "n = 0")
  case True
  with ok show ?thesis by (intro exI [of _ db]) (simp add: dispatch_unbound_def k_def)
next
  case False
  let ?rows = "undispatched_rows bound db"
  define es where "es = ids_limit n ?rows"
  define open_rows where "open_rows = map fst (filter (\<lambda>(r, d). \<not> d) (event_table db))"
  have eok: "event_db_ok db" using ok by (simp add: ready_store_def)
  have "distinct (map ev_id (map fst (filter p (event_table db))))" for p
    using eok by (simp add: event_db_ok_def distinct_map_filter)
  then have distinct: "distinct (map ev_id ?rows)" "distinct (map ev_id open_rows)"
    by (simp_all only: undispatched_rows_def open_rows_def)
  note ids = ids_limit_facts [OF distinct(1), of n, folded es_def]
  have len: "int (length es) = k" using ids(3) n by (simp add: k_def)
  have inside: "set es \<subseteq> ev_id ` set open_rows"
    using ids(2) by (force simp: undispatched_rows_def open_rows_def)
  obtain db1 where one: "enqueue_events enq es db = (Inr (), db1)" "ready_store jobs db1"
    using enqueue_events_commits [OF ok queue] by blast
  note same = enqueue_events_keeps [OF one(1)]
  let ?db' = "snd (mark_dispatched es db1)"
  have count: "fst (mark_dispatched es db1) = k"
  proof -
    have "length (filter (\<lambda>(r, d). ev_id r \<in> set es \<and> \<not> d) T) =
        length (filter (\<lambda>r. ev_id r \<in> set es) (map fst (filter (\<lambda>(r, d). \<not> d) T)))" for T :: "(event_row \<times> bool) list"
      by (induction T) (auto split: prod.split)
    then show ?thesis
      using length_filter_in [OF distinct(2) ids(1) inside] len same by (simp add: mark_dispatched_def open_rows_def)
  qed
  have flags: "event_table ?db' = flagged es (event_table db)" using same by (simp add: mark_dispatched_table)
  have "int (length (undispatched_rows bound ?db')) = int (length ?rows) - k"
    using length_filter_ids [OF distinct(1) ids(1,2)] ids(3) len by (simp add: undispatched_flagged [OF flags] of_nat_diff)
  moreover have "dispatch_unbound enq bound n db = (Inr k, if es = [] then db1 else ?db')"
    using False one(1) count len
    by (cases "mark_dispatched es db1") (auto simp: dispatch_unbound_def claim_undispatched Let_def es_def [symmetric] tx_iff)
  moreover have "undispatched_rows bound db1 = ?rows" using same by (simp add: undispatched_rows_def)
  ultimately show ?thesis
    using one(2) same flags ready_mark_dispatched [OF one(2), of es] len
    by (intro exI [of _ "if es = [] then db1 else ?db'"]) auto
qed

section \<open>One run\<close>

lemma river_ok_registered:
  assumes "river_ok client jobs"
  shows "river_ok (registeredEnqueuer client) jobs"
proof -
  have "registeredEnqueuer client args q = (Inr i, q')" if "client args q = (Inr i, q')" "0 < i" for args q i q'
    using that by (simp add: registeredEnqueuer_def)
  with assms show ?thesis unfolding river_ok_def by (metis (no_types, lifting))
qed

lemma newRuntimeRepository_SomeD:
  assumes "newRuntimeRepository client batch bs = Some P"
  shows "rp_enqueue P = registeredEnqueuer client \<and> rp_bindings P = bs \<and> rp_batch P = batch \<and> 0 < batch \<and>
    distinct bs \<and> list_all (\<lambda>b. validDeliveryName (bn_type b) \<and> validDeliveryName (bn_consumer b)) bs"
  using assms by (auto simp: newRuntimeRepository_def distinct_map split: if_splits)

lemma missing_cong: "map fst (event_table db') = map fst (event_table db) \<Longrightarrow> delivery_table db' = delivery_table db \<Longrightarrow>
  missing bs db' = missing bs db"
  using find_delivery_cong [of db' db] by (simp add: missing_def missing_rows_def)

theorem deliv_Dispatch_progress:
  assumes P: "newRuntimeRepository client batch bs = Some P" and queue: "river_ok client jobs"
    and names: "list_all (pg_text \<circ> bn_consumer) bs" and ok: "ready_store jobs db"
  shows "\<exists>db'. deliv_Dispatch P db = (Inr (min batch (backlog P db)), db') \<and> ready_store jobs db' \<and>
    backlog P db' = backlog P db - min batch (backlog P db)"
proof -
  note P' = newRuntimeRepository_SomeD [OF P]
  have queue': "river_ok (rp_enqueue P) jobs" using river_ok_registered [OF queue] P' by simp
  have consumers: "list_all (consumer_ok \<circ> bn_consumer) (rp_bindings P)"
    using P' names by (simp add: consumer_ok_def list_all_iff)
  have distinct: "distinct (rp_bindings P)" "0 \<le> rp_batch P" using P' by simp_all
  let ?bound = "map bn_type (rp_bindings P)"
  define k where "k = min batch (missing bs db)"
  from dispatch_bound_commits [OF ok queue' consumers distinct] P' obtain db1 where
    one: "dispatch_bound (rp_enqueue P) (rp_bindings P) (rp_batch P) db = (Inr k, db1)" "ready_store jobs db1"
      "missing bs db1 = missing bs db - k" "undispatched_rows ?bound db1 = undispatched_rows ?bound db"
    unfolding k_def by (metis (no_types, lifting) list.set_map subset_refl)
  define m where "m = min (batch - k) (int (length (undispatched_rows ?bound db)))"
  have "0 \<le> rp_batch P - k" using P' by (simp add: k_def)
  from dispatch_unbound_commits [OF one(2) queue' this refl, of ?bound] obtain db' where
    two: "dispatch_unbound (rp_enqueue P) ?bound (rp_batch P - k) db1 = (Inr m, db')" "ready_store jobs db'"
      "map fst (event_table db') = map fst (event_table db1)" "delivery_table db' = delivery_table db1"
      "int (length (undispatched_rows ?bound db')) = int (length (undispatched_rows ?bound db1)) - m"
    using P' by (auto simp: one(4) m_def)
  have sum: "k + m = min batch (backlog P db)"
    using P' missing_nonneg [of bs db] by (auto simp: k_def m_def backlog_def)
  have "deliv_Dispatch P db = (Inr (k + m), db')"
    using P' one(1) two(1) by (auto simp: deliv_Dispatch_def tx_iff)
  moreover have "backlog P db' = backlog P db - (k + m)"
    using P' two(5) one(3,4) missing_cong [OF two(3,4), of bs] by (simp add: backlog_def)
  ultimately show ?thesis using two(2) sum by simp
qed

text \<open>Any number of events is worked off by runs of the dispatcher, and then a run does nothing.\<close>

fun dispatch_runs :: "nat \<Rightarrow> 'q delivery_repository \<Rightarrow> 'q event_db \<Rightarrow> 'q event_db" where
  "dispatch_runs 0 P db = db"
| "dispatch_runs (Suc m) P db = dispatch_runs m P (snd (deliv_Dispatch P db))"

lemma dispatch_runs_dispatched: "dispatched db (dispatch_runs m P db)"
proof (induction m arbitrary: db)
  case (Suc m)
  have "dispatched db (snd (deliv_Dispatch P db))"
    using deliv_Dispatch_dispatched [of P db] by (cases "deliv_Dispatch P db") simp
  then show ?case using Suc.IH dispatched_trans by fastforce
qed simp

lemma dispatch_runs_drain:
  assumes P: "newRuntimeRepository client batch bs = Some P" and queue: "river_ok client jobs"
    and names: "list_all (pg_text \<circ> bn_consumer) bs"
  shows "ready_store jobs db \<Longrightarrow> ready_store jobs (dispatch_runs m P db) \<and>
    backlog P (dispatch_runs m P db) = max 0 (backlog P db - int m * batch)"
proof (induction m arbitrary: db)
  case 0
  then show ?case using missing_nonneg [of "rp_bindings P" db] by (simp add: backlog_def)
next
  case (Suc m)
  from deliv_Dispatch_progress [OF P queue names Suc.prems] obtain db' where
    one: "deliv_Dispatch P db = (Inr (min batch (backlog P db)), db')" "ready_store jobs db'"
      "backlog P db' = backlog P db - min batch (backlog P db)" by blast
  have pos: "0 < batch" "0 \<le> int m * batch" using newRuntimeRepository_SomeD [OF P] by auto
  have suc: "int (Suc m) * batch = batch + int m * batch" by (simp add: algebra_simps)
  have "0 \<le> backlog P db" using missing_nonneg [of "rp_bindings P" db] by (simp add: backlog_def)
  with pos have "max 0 (backlog P db' - int m * batch) = max 0 (backlog P db - int (Suc m) * batch)"
    unfolding suc one(3) by linarith
  with Suc.IH [OF one(2)] one(1) show ?case by simp
qed

text \<open>With no backlog left, every event has what it needs.\<close>

lemma no_backlogD:
  assumes "backlog P db = 0" and "(r, f) \<in> set (event_table db)"
  shows "b \<in> set (rp_bindings P) \<Longrightarrow> ev_type r = bn_type b \<Longrightarrow> find_delivery (ev_id r) (bn_consumer b) db \<noteq> None"
    and "ev_type r \<notin> bn_type ` set (rp_bindings P) \<Longrightarrow> f"
proof -
  have zero: "missing (rp_bindings P) db = 0" "undispatched_rows (map bn_type (rp_bindings P)) db = []"
    using assms(1) missing_nonneg [of "rp_bindings P" db] by (auto simp: backlog_def simp flip: length_0_conv)
  have none: "missing_rows b db = []" if "missing bs db = 0" "b \<in> set bs" for b bs
    using that
  proof (induction bs)
    case (Cons x xs)
    then show ?case using missing_nonneg [of xs db] by (auto simp flip: length_0_conv)
  qed simp
  show "find_delivery (ev_id r) (bn_consumer b) db \<noteq> None" if "b \<in> set (rp_bindings P)" "ev_type r = bn_type b"
    using none [OF zero(1) that(1)] that(2) assms(2) by (force simp: missing_rows_def filter_empty_conv)
  show "f" if "ev_type r \<notin> bn_type ` set (rp_bindings P)"
    using zero(2) that assms(2) by (auto simp: undispatched_rows_def filter_empty_conv)
qed

end
