(* ===== verification/EventDelivery.thy ===== *)
theory EventDelivery
  imports EventHistory
begin

text \<open>
  The worker over the contract of its runtime (the locale \<open>delivery_contract\<close>, interpreted on
  the PostgreSQL store), and the dispatcher over a queue that gives every new job its own
  identifier (\<open>river_ok\<close>).
\<close>

section \<open>The contract of the runtime\<close>

type_synonym delivery_view = "int \<Rightarrow> string \<Rightarrow> delivery option"

definition names_ok :: "int \<Rightarrow> string \<Rightarrow> string \<Rightarrow> bool" where
  "names_ok e c owner \<longleftrightarrow> 0 < e \<and> validDeliveryName c \<and> validDeliveryName owner \<and> pg_text owner \<and> pg_text c"

definition put_delivery :: "int \<Rightarrow> string \<Rightarrow> delivery \<Rightarrow> delivery_view \<Rightarrow> delivery_view" where
  "put_delivery e c d V = V(e := (V e)(c \<mapsto> d))"

lemma put_delivery_same [simp]: "put_delivery e c d V e c = Some d"
  by (simp add: put_delivery_def)

definition code_ok :: "string \<Rightarrow> bool" where
  "code_ok code \<longleftrightarrow> validErrorCode code \<and> pg_text code"

locale delivery_contract =
  fixes rt :: "'s delivery_runtime"
    and view :: "'s \<Rightarrow> delivery_view"
    and now :: instant
  assumes claim: "rt_claim rt e c owner lease s = (Inr claim, s') \<Longrightarrow>
      \<exists>d. view s e c = Some d \<and> names_ok e c owner \<and> cl_consumer claim = c \<and> cl_owner claim = owner \<and>
        (if claimable owner now d
         then view s' = put_delivery e c (claimed owner (now + lease) d) (view s) \<and>
           cl_status claim = DeliveryProcessing \<and> er_id (cl_record claim) = e
         else delivery_over (dl_status d) \<and> s' = s \<and> cl_status claim = dl_status d)"
    and claim_error: "rt_claim rt e c owner lease s = (Inl err, s') \<Longrightarrow> s' = s"
    and retry: "\<lbrakk>view s e c = Some d; dl_status d = DeliveryProcessing; dl_owner d = Some owner; names_ok e c owner;
        code_ok code\<rbrakk> \<Longrightarrow>
      \<exists>s'. rt_retry rt e c owner code s = (Inr (), s') \<and>
        view s' = put_delivery e c (given_back DeliveryPending code now d) (view s)"
    and final_fail: "\<lbrakk>view s e c = Some d; dl_status d = DeliveryProcessing; dl_owner d = Some owner; names_ok e c owner;
        code_ok code\<rbrakk> \<Longrightarrow>
      \<exists>s'. rt_final_fail rt e c owner code s = (Inr (), s') \<and>
        view s' = put_delivery e c (given_back DeliveryFinalFailed code now d) (view s)"
    and outcome_unknown: "\<lbrakk>view s e c = Some d; dl_status d = DeliveryProcessing; dl_owner d = Some owner; names_ok e c owner;
        code_ok code\<rbrakk> \<Longrightarrow>
      \<exists>s'. rt_outcome_unknown rt e c owner code s = (Inr (), s') \<and>
        view s' = put_delivery e c (given_back DeliveryOutcomeUnknown code now d) (view s)"

text \<open>A consumer that succeeds has settled its delivery, and one that fails has not touched it.\<close>

definition settles :: "('s \<Rightarrow> delivery_view) \<Rightarrow> 's delivery_subscriber \<Rightarrow> bool" where
  "settles view ds \<longleftrightarrow> (\<forall>claim s r s'. ds_consume ds claim s = (r, s') \<longrightarrow> cl_status claim = DeliveryProcessing \<longrightarrow>
     (case r of Inr _ \<Rightarrow> \<exists>d. view s' (er_id (cl_record claim)) (cl_consumer claim) = Some d \<and> delivery_over (dl_status d)
      | Inl _ \<Rightarrow> view s' (er_id (cl_record claim)) (cl_consumer claim) = view s (er_id (cl_record claim)) (cl_consumer claim)))"

lemma settlesD:
  assumes "settles view ds" and "ds_consume ds claim s = (r, s')" and "cl_status claim = DeliveryProcessing"
  shows "case r of Inr _ \<Rightarrow> \<exists>d. view s' (er_id (cl_record claim)) (cl_consumer claim) = Some d \<and> delivery_over (dl_status d)
    | Inl _ \<Rightarrow> view s' (er_id (cl_record claim)) (cl_consumer claim) = view s (er_id (cl_record claim)) (cl_consumer claim)"
  using assms unfolding settles_def by blast

lemma worker_codes: "code_ok ''outcome_unknown''" "code_ok ''poison''" "code_ok ''retry_exhausted''" "code_ok ''transient''"
  by code_simp+

context delivery_contract
begin

lemma failure_settles:
  assumes at: "view s e c = Some d" "dl_status d = DeliveryProcessing" "dl_owner d = Some (cl_owner claim)"
    and names: "names_ok e c (cl_owner claim)" and claim: "er_id (cl_record claim) = e" "cl_consumer claim = c"
    and run: "after_failure rt job claim err s = (r, s')"
  shows "\<exists>d'. view s' e c = Some d' \<and> dl_status d' \<noteq> DeliveryProcessing \<and> (r = Inr () \<longleftrightarrow> delivery_over (dl_status d'))"
proof -
  note acts = outcome_unknown [OF at names worker_codes(1)] final_fail [OF at names worker_codes(2)]
    final_fail [OF at names worker_codes(3)] retry [OF at names worker_codes(4)]
  consider "error_is err EvOutcomeUnknown"
    | "\<not> error_is err EvOutcomeUnknown" "error_is err EvPoison \<or> error_is err EvNoSubscriber"
    | "\<not> error_is err EvOutcomeUnknown" "\<not> (error_is err EvPoison \<or> error_is err EvNoSubscriber)" "jb_max job \<le> jb_attempt job"
    | "\<not> error_is err EvOutcomeUnknown" "\<not> (error_is err EvPoison \<or> error_is err EvNoSubscriber)" "\<not> jb_max job \<le> jb_attempt job"
    by blast
  then show ?thesis
  proof cases
    case 1
    with run acts(1) claim show ?thesis by (auto simp: after_failure_def given_back_def)
  next
    case 2
    with run acts(2) claim show ?thesis by (auto simp: after_failure_def given_back_def)
  next
    case 3
    with run acts(3) claim show ?thesis by (auto simp: after_failure_def given_back_def)
  next
    case 4
    with run acts(4) claim show ?thesis by (auto simp: after_failure_def given_back_def)
  qed
qed

theorem work_settles:
  assumes ro: "\<And>ds. ds \<in> snd ` set (ro_consumers ro) \<Longrightarrow> settles view ds"
    and job: "0 < ja_event (jb_args job)" "ja_consumer (jb_args job) \<noteq> []"
    and run: "worker_Work rt ro job s = (r, s')"
  shows "(s' = s \<and> r \<noteq> Inr ()) \<or>
    (\<exists>d'. view s' (ja_event (jb_args job)) (ja_consumer (jb_args job)) = Some d' \<and>
       dl_status d' \<noteq> DeliveryProcessing \<and> (r = Inr () \<longleftrightarrow> delivery_over (dl_status d')))"
proof -
  let ?e = "ja_event (jb_args job)" and ?c = "ja_consumer (jb_args job)"
  obtain r1 s1 where cl: "rt_claim rt ?e ?c (job_owner job) minute s = (r1, s1)"
    by (cases "rt_claim rt ?e ?c (job_owner job) minute s")
  show ?thesis
  proof (cases r1)
    case (Inl err)
    with run cl job claim_error [OF cl [unfolded Inl]] show ?thesis by (auto simp: worker_Work_def and_then_def)
  next
    case (Inr cm)
    from claim [OF cl [unfolded Inr]] obtain d where d: "view s ?e ?c = Some d" "names_ok ?e ?c (job_owner job)"
        "cl_consumer cm = ?c" "cl_owner cm = job_owner job"
      and br: "if claimable (job_owner job) now d
         then view s1 = put_delivery ?e ?c (claimed (job_owner job) (now + minute) d) (view s) \<and>
           cl_status cm = DeliveryProcessing \<and> er_id (cl_record cm) = ?e
         else delivery_over (dl_status d) \<and> s1 = s \<and> cl_status cm = dl_status d" by blast
    show ?thesis
    proof (cases "claimable (job_owner job) now d")
      case False
      with br run cl Inr job d show ?thesis by (auto simp: worker_Work_def)
    next
      case True
      with br have at: "view s1 ?e ?c = Some (claimed (job_owner job) (now + minute) d)"
        and cm: "cl_status cm = DeliveryProcessing" "er_id (cl_record cm) = ?e" by simp_all
      obtain r2 s2 where con: "Router_ConsumeDelivery ro cm s1 = (r2, s2)"
        by (cases "Router_ConsumeDelivery ro cm s1")
      have settled: "case r2 of Inr _ \<Rightarrow> \<exists>d. view s2 ?e ?c = Some d \<and> delivery_over (dl_status d) | Inl _ \<Rightarrow> view s2 ?e ?c = view s1 ?e ?c"
      proof (cases "\<exists>ds. map_of (ro_consumers ro) ?c = Some ds \<and> en_type (er_event (cl_record cm)) \<in> set (ds_types ds)")
        case False
        with con cm d job show ?thesis
          by (auto simp: Router_ConsumeDelivery_def split: option.splits if_splits)
      next
        case True
        then obtain ds where ds: "map_of (ro_consumers ro) ?c = Some ds" "en_type (er_event (cl_record cm)) \<in> set (ds_types ds)" by blast
        then have "settles view ds" using ro map_of_SomeD [OF ds(1)] by force
        moreover have "ds_consume ds cm s1 = (r2, s2)" using con ds cm d job by (simp add: Router_ConsumeDelivery_def)
        ultimately show ?thesis using settlesD [of view ds cm s1 r2 s2] cm(1) unfolding cm(2) d(3) by blast
      qed
      show ?thesis
      proof (cases r2)
        case (Inr u)
        with run cl \<open>r1 = Inr cm\<close> con cm job settled show ?thesis by (auto simp: worker_Work_def)
      next
        case (Inl err)
        have at2: "view s2 ?e ?c = Some (claimed (job_owner job) (now + minute) d)" using settled Inl at by simp
        from run cl \<open>r1 = Inr cm\<close> con cm job Inl have "after_failure rt job cm err s2 = (r, s')"
          by (simp add: worker_Work_def)
        from failure_settles [OF at2 _ _ _ cm(2) d(3) this] d show ?thesis by (simp add: claimed_def)
      qed
    qed
  qed
qed

end

section \<open>The store honours the contract\<close>

definition deliv_view :: "'q event_db \<Rightarrow> delivery_view" where
  "deliv_view db = (\<lambda>e c. find_delivery e c db)"

lemma deliv_view_update:
  "keeps_key f \<Longrightarrow> find_delivery e c db = Some d \<Longrightarrow>
   deliv_view (update_delivery e c f db) = put_delivery e c (f d) (deliv_view db)"
  by (auto simp: fun_eq_iff deliv_view_def put_delivery_def find_update_delivery)

lemma deliv_Claim_names: "deliv_Claim N now e c owner lease db = (Inr claim, db') \<Longrightarrow> names_ok e c owner"
  by (auto simp: deliv_Claim_def names_ok_def within_Inr_iff split: if_splits)

lemma pg_transition_law:
  assumes "deliv_view db e c = Some d" and "dl_status d = DeliveryProcessing" and "dl_owner d = Some owner"
    and "names_ok e c owner" and "code_ok code"
    and target: "target \<in> {DeliveryPending, DeliveryFinalFailed, DeliveryOutcomeUnknown}"
  shows "\<exists>db'. deliv_transition now e c owner code target db = (Inr (), db') \<and>
    deliv_view db' = put_delivery e c (given_back target code now d) (deliv_view db)"
proof -
  have at: "find_delivery e c db = Some d" using assms(1) by (simp add: deliv_view_def)
  have "deliv_transition now e c owner code target db = (Inr (), update_delivery e c (given_back target code now) db)"
    using assms at unfolding deliv_transition_iff names_ok_def code_ok_def by blast
  with deliv_view_update [OF _ at] show ?thesis by auto
qed

interpretation pg_deliv: delivery_contract "pg_deliveries N now" deliv_view now for N now
proof (unfold_locales, goal_cases)
  case (1 e c owner lease s cm s')
  then have run: "deliv_Claim N now e c owner lease s = (Inr cm, s')" by (simp add: pg_deliveries_def)
  from deliv_Claim_InrD [OF run] obtain d where d: "find_delivery e c s = Some d" "cl_consumer cm = c" "cl_owner cm = owner"
    and br: "if claimable owner now d
     then dl_attempt d < max_int32 \<and> s' = update_delivery e c (claimed owner (now + lease)) s \<and>
       cl_status cm = DeliveryProcessing \<and> cl_attempt cm = dl_attempt d + 1 \<and> er_id (cl_record cm) = e
     else delivery_over (dl_status d) \<and> s' = s \<and> cl_status cm = dl_status d" by blast
  then show ?case
    using deliv_Claim_names [OF run] deliv_view_update [OF _ d(1), of "claimed owner (now + lease)"]
    by (intro exI [of _ d]) (auto simp: deliv_view_def)
next
  case (2 e c owner lease s err s')
  then show ?case by (auto simp: pg_deliveries_def dest: deliv_Claim_Inl)
next
  case (3 s e c d owner code)
  then show ?case using pg_transition_law [OF 3] by (simp add: pg_deliveries_def deliv_Retry_def)
next
  case (4 s e c d owner code)
  then show ?case using pg_transition_law [OF 4] by (simp add: pg_deliveries_def deliv_FinalFail_def)
next
  case (5 s e c d owner code)
  then show ?case using pg_transition_law [OF 5] by (simp add: pg_deliveries_def deliv_OutcomeUnknown_def)
qed

text \<open>Jobs name themselves as owners.\<close>

lemma job_owner_ok:
  assumes "0 \<le> jb_id job" and "jb_id job \<le> max_int64"
  shows "validDeliveryName (job_owner job) \<and> pg_text (job_owner job)"
proof -
  have prefix: "\<forall>c \<in> set ''river:''. byte c < 128 \<and> \<not> is_space [c]" by code_simp
  have nul: "CHR 0x00 \<notin> set ''river:''" "\<not> is_digit (CHR 0x00)" by code_simp+
  note digits = show_int_digits [OF assms(1)]
  have "\<forall>c \<in> set (job_owner job). byte c < 128 \<and> \<not> is_space [c]"
    using prefix digits digit_plain by (auto simp: job_owner_def)
  note plain = plain_text [OF this]
  have "nat (jb_id job) < 10 ^ 19" using assms by (simp add: max_int64_def nat_less_iff)
  then have "length (show_int (jb_id job)) \<le> 19" using assms length_show_nat [of _ 19] by (simp add: show_int_def)
  then have "length (job_owner job) \<le> 200" by (simp add: job_owner_def)
  moreover have "CHR 0x00 \<notin> set (job_owner job)" using nul digits by (auto simp: job_owner_def)
  ultimately show ?thesis using plain by (simp add: validDeliveryName_def pg_text_def) (simp add: job_owner_def)
qed

text \<open>The consumer of campaign facts settles its deliveries.\<close>

lemma fact_consumer_settles: "settles deliv_view (FactDeliveryConsumer now)"
  unfolding settles_def
proof (intro allI impI)
  fix claim and s s' :: "'q event_db" and r
  assume run: "ds_consume (FactDeliveryConsumer now) claim s = (r, s')" and "cl_status claim = DeliveryProcessing"
  let ?e = "er_id (cl_record claim)" and ?c = "cl_consumer claim"
  show "case r of Inr _ \<Rightarrow> \<exists>d. deliv_view s' ?e ?c = Some d \<and> delivery_over (dl_status d) | Inl _ \<Rightarrow> deliv_view s' ?e ?c = deliv_view s ?e ?c"
  proof (cases r)
    case (Inl err)
    with run have "s' = s"
      by (auto simp: FactDeliveryConsumer_def fact_consume_def split: if_splits dest: within_Inl_restores)
    with Inl show ?thesis by simp
  next
    case (Inr u)
    with run have "deliv_Complete now ?e ?c (cl_owner claim) s = (Inr u, s')"
      by (auto simp: FactDeliveryConsumer_def fact_consume_def within_Inr_iff split: if_splits)
    then obtain d where "find_delivery ?e ?c s = Some d" "s' = update_delivery ?e ?c (completed now) s"
      using deliv_Complete_iff by metis
    then have "deliv_view s' ?e ?c = Some (completed now d)" by (simp add: deliv_view_def find_update_delivery)
    with Inr show ?thesis by (simp add: completed_def)
  qed
qed

text \<open>A job for a pending campaign fact completes it, whatever else the router has.\<close>

lemma fact_job_completes:
  assumes event: "find_event e db = Some r" "deliveryRecord N r = Inr rec" "ev_type r = EvCloudCampaignFact" "0 < e"
    and at: "find_delivery e ConsumerCloudCampaignFact db = Some d" "dl_status d = DeliveryPending" "dl_attempt d < max_int32"
    and router: "map_of (ro_consumers ro) ConsumerCloudCampaignFact = Some (FactDeliveryConsumer done_at)"
    and job: "jb_args job = \<lparr>ja_event = e, ja_consumer = ConsumerCloudCampaignFact\<rparr>" "0 \<le> jb_id job" "jb_id job \<le> max_int64"
  shows "\<exists>db'. worker_Work (pg_deliveries N now) ro job db = (Inr (), db') \<and>
    find_delivery e ConsumerCloudCampaignFact db' =
      Some (completed done_at (claimed (job_owner job) (now + minute) d))"
proof -
  let ?c = ConsumerCloudCampaignFact and ?o = "job_owner job"
  let ?d = "claimed ?o (now + minute) d"
  let ?cm = "\<lparr>cl_record = rec, cl_consumer = ?c, cl_owner = ?o, cl_status = DeliveryProcessing, cl_attempt = dl_attempt d + 1\<rparr>"
  have owner: "validDeliveryName ?o" "pg_text ?o" using job_owner_ok [OF job(2,3)] by simp_all
  have c: "validDeliveryName ?c" "pg_text ?c" by code_simp+
  have "?o \<noteq> []" "?c \<noteq> []" using owner c by (auto simp: validDeliveryName_def)
  have lease: "0 < minute" "minute \<le> hour" by (simp_all add: minute_def hour_def)
  have rec: "er_id rec = e" "en_type (er_event rec) = EvCloudCampaignFact"
    using event by (auto simp: deliveryRecord_def find_event_def find_Some_iff split: if_splits)
  define db1 where "db1 = update_delivery e ?c (claimed ?o (now + minute)) db"
  have "deliv_Claim N now e ?c ?o minute db = (Inr ?cm, db1)"
    using owner c lease event at by (simp add: deliv_Claim_def claimable_def Let_def db1_def)
  moreover have at1: "find_delivery e ?c db1 = Some ?d" by (simp add: db1_def find_update_delivery at(1))
  have "deliv_Complete done_at e ?c ?o db1 = (Inr (), update_delivery e ?c (completed done_at) db1)"
    using at1 owner c event(4) unfolding deliv_Complete_iff by (simp add: claimed_def)
  then have "ds_consume (FactDeliveryConsumer done_at) ?cm db1 = (Inr (), update_delivery e ?c (completed done_at) db1)"
    using rec event(4) \<open>?o \<noteq> []\<close> by (simp add: FactDeliveryConsumer_def fact_consume_def)
  then have "Router_ConsumeDelivery ro ?cm db1 = (Inr (), update_delivery e ?c (completed done_at) db1)"
    using rec event(4) router \<open>?c \<noteq> []\<close> by (simp add: Router_ConsumeDelivery_def) (simp add: FactDeliveryConsumer_def)
  ultimately have "worker_Work (pg_deliveries N now) ro job db = (Inr (), update_delivery e ?c (completed done_at) db1)"
    using event(4) \<open>?c \<noteq> []\<close> by (simp add: worker_Work_def job(1) pg_deliveries_def)
  with at1 show ?thesis by (simp add: find_update_delivery)
qed

end
