(* ===== verification/EventProperties.thy ===== *)
theory EventProperties
  imports EventDispatch EventDelivery CampaignProperties
begin

text \<open>
  The properties of event delivery: histories, leases, dispatching, jobs, and the way of a
  campaign fact from the log to its consumer.
\<close>

section \<open>Samples\<close>

definition event_env0 :: event_env where
  "event_env0 = \<lparr>ee_json_valid = (\<lambda>_. True), ee_jsonb = Some\<rparr>"

definition list_river :: "(int \<times> DeliveryJobArgs) list enqueue" where
  "list_river args q = (case List.find (\<lambda>x. snd x = args \<and> 0 < fst x) q of
     Some x \<Rightarrow> (Inr (fst x), q)
   | None \<Rightarrow> (let i = foldr max (map fst q) 0 + 1 in (Inr i, q @ [(i, args)])))"

lemma below_foldr_max: "x \<in> set xs \<Longrightarrow> x \<le> foldr max xs (0::int)"
  by (induction xs) auto

lemma foldr_max_nonneg: "0 \<le> foldr max xs (0::int)"
  by (induction xs) auto

lemma list_river_ok: "river_ok list_river (\<lambda>q. q)"
  unfolding river_ok_def
proof (intro allI)
  fix args and q :: "(int \<times> DeliveryJobArgs) list"
  let ?i = "foldr max (map fst q) 0 + 1"
  have fresh: "?i \<notin> fst ` set q" using below_foldr_max [of ?i "map fst q"] by auto
  show "\<exists>i q'. list_river args q = (Inr i, q') \<and> 0 < i \<and>
      ((i, args) \<in> set q \<and> q' = q \<or> i \<notin> fst ` set q \<and> q' = q @ [(i, args)])"
  proof (cases "List.find (\<lambda>x. snd x = args \<and> 0 < fst x) q")
    case None
    with fresh foldr_max_nonneg [of "map fst q"] show ?thesis by (simp add: list_river_def Let_def)
  next
    case (Some x)
    then have "x \<in> set q" "snd x = args" "0 < fst x" by (auto simp: find_Some_iff)
    with Some show ?thesis by (intro exI [of _ "fst x"] exI [of _ q]) (auto simp: list_river_def)
  qed
qed

definition fact_row0 :: event_row where
  "fact_row0 = \<lparr>ev_id = 1, ev_type = EvCloudCampaignFact, ev_customer = None, ev_payload = ''{}'', ev_at = 5000, ev_key = ''k''\<rparr>"

definition events0 :: "(int \<times> DeliveryJobArgs) list event_db" where
  "events0 = \<lparr>event_table = [(fact_row0, False)], delivery_table = [], river = [], next_event_id = 2\<rparr>"

definition fact_binding :: DeliveryBinding where
  "fact_binding = \<lparr>bn_type = EvCloudCampaignFact, bn_consumer = ConsumerCloudCampaignFact\<rparr>"

definition repository0 :: "(int \<times> DeliveryJobArgs) list delivery_repository" where
  "repository0 = \<lparr>rp_enqueue = registeredEnqueuer list_river, rp_bindings = [fact_binding], rp_batch = 100\<rparr>"

definition fact_args :: "int \<Rightarrow> DeliveryJobArgs" where
  "fact_args e = \<lparr>ja_event = e, ja_consumer = ConsumerCloudCampaignFact\<rparr>"

definition job0 :: delivery_job where
  "job0 = \<lparr>jb_id = 7, jb_args = fact_args 1, jb_attempt = 1, jb_max = 5\<rparr>"

lemma events0_ok: "event_db_ok events0"
  by (simp add: event_db_ok_def events0_def fact_row0_def)

lemma events0_find: "find_event e events0 = (if e = 1 then Some fact_row0 else None)" "find_delivery e c events0 = None"
  by (simp_all add: find_event_def find_delivery_def events0_def fact_row0_def)

lemma events0_ready: "ready_store (\<lambda>q. q) events0"
  using events0_ok by (simp add: ready_store_def jobs_match_def events0_def)

lemma fact_names: "validDeliveryName EvCloudCampaignFact" "validDeliveryName ConsumerCloudCampaignFact" "pg_text ConsumerCloudCampaignFact"
  by code_simp+

lemma repository0_new: "newRuntimeRepository list_river 100 [fact_binding] = Some repository0"
  by (simp add: newRuntimeRepository_def repository0_def fact_binding_def fact_names)

lemma events0_backlog: "backlog repository0 events0 = 1"
  by (simp add: backlog_def missing_def missing_rows_def undispatched_rows_def repository0_def fact_binding_def
      events0_find, simp add: events0_def fact_row0_def)

lemma job0_range: "0 \<le> (7::int)" "(7::int) \<le> max_int64"
  by (simp_all add: max_int64_def)

section \<open>Histories\<close>



section \<open>Leases\<close>

text \<open>
  C13. A worker that has claimed a delivery keeps it against all others until its lease ends:
  whatever appends, acceptances, dispatches and calls of other owners have happened in between, it
  still completes the delivery, under the attempt it claimed, while the completion and the giving back of
  any other owner are refused at any time, and its claim before the lease ends.
\<close>

theorem lease_excludes_others:
  assumes "deliv_Claim N now e c owner lease db = (Inr claim, db1)" and "cl_status claim = DeliveryProcessing"
    and "list_all (by_others e c owner (now + lease)) ops"
  shows "\<exists>d. find_delivery e c (event_run N P ops db1) = Some d \<and> dl_attempt d = cl_attempt claim \<and>
    deliv_Complete t e c owner (event_run N P ops db1) =
      (Inr (), update_delivery e c (completed t) (event_run N P ops db1)) \<and>
    (\<forall>other. other \<noteq> owner \<longrightarrow>
      (\<exists>err. deliv_Complete t e c other (event_run N P ops db1) = (Inl err, event_run N P ops db1)) \<and>
      (\<forall>code target. \<exists>err. deliv_transition t e c other code target (event_run N P ops db1) = (Inl err, event_run N P ops db1)) \<and>
      (pg_micros t < pg_micros (now + lease) \<longrightarrow>
        (\<forall>l. \<exists>err. deliv_Claim N t e c other l (event_run N P ops db1) = (Inl err, event_run N P ops db1))))"
proof -
  from deliv_Claim_InrD [OF assms(1)] obtain d0 where d0: "find_delivery e c db = Some d0"
    and br: "if claimable owner now d0
     then dl_attempt d0 < max_int32 \<and> db1 = update_delivery e c (claimed owner (now + lease)) db \<and>
       cl_status claim = DeliveryProcessing \<and> cl_attempt claim = dl_attempt d0 + 1 \<and> er_id (cl_record claim) = e
     else delivery_over (dl_status d0) \<and> db1 = db \<and> cl_status claim = dl_status d0" by blast
  have names: "names_ok e c owner" by (rule deliv_Claim_names [OF assms(1)])
  have "claimable owner now d0" using br assms(2) by (cases "dl_status d0") (auto split: if_splits)
  with br d0 have "held e c owner (now + lease) (cl_attempt claim) db1"
    by (simp add: held_def find_update_delivery claimed_def)
  from event_run_held [OF this assms(3), of N P]
  obtain d where d: "find_delivery e c (event_run N P ops db1) = Some d" "dl_status d = DeliveryProcessing"
    "dl_owner d = Some owner" "dl_expires d = Some (pg_micros (now + lease))" "dl_attempt d = cl_attempt claim"
    by (auto simp: held_def)
  let ?db = "event_run N P ops db1"
  have "deliv_Complete t e c owner ?db = (Inr (), update_delivery e c (completed t) ?db)"
    using d names unfolding deliv_Complete_iff names_ok_def by blast
  moreover have "\<exists>err. deliv_Complete t e c other ?db = (Inl err, ?db)" if "other \<noteq> owner" for other
    using that d deliv_Complete_iff [of t e c other ?db "()"] deliv_Complete_Inl [of t e c other ?db]
    by (cases "deliv_Complete t e c other ?db"; cases "fst (deliv_Complete t e c other ?db)") auto
  moreover have "\<exists>err. deliv_transition t e c other code target ?db = (Inl err, ?db)" if "other \<noteq> owner" for other code target
    using that d deliv_transition_iff [of t e c other code target ?db "()"] deliv_transition_Inl [of t e c other code target ?db]
    by (cases "deliv_transition t e c other code target ?db"; cases "fst (deliv_transition t e c other code target ?db)") auto
  moreover have "\<exists>err. deliv_Claim N t e c other l ?db = (Inl err, ?db)"
    if "other \<noteq> owner" "pg_micros t < pg_micros (now + lease)" for other l
  proof (cases "deliv_Claim N t e c other l ?db")
    case (Pair r db2)
    have "\<not> claimable other t d" "\<not> delivery_over (dl_status d)" using that d by (simp_all add: claimable_def)
    with Pair d(1) deliv_Claim_InrD [of N t e c other l ?db _ db2] deliv_Claim_Inl [of N t e c other l ?db _ db2]
    show ?thesis by (cases r) auto
  qed
  ultimately show ?thesis using d by blast
qed

definition claimed0 :: "(int \<times> DeliveryJobArgs) list event_db" where
  "claimed0 = event_run event_env0 repository0 [OpDispatch] events0"

theorem lease_excludes_others_witness:
  "\<exists>claim db1 d. deliv_Claim event_env0 9000 1 ConsumerCloudCampaignFact ''w1'' minute claimed0 = (Inr claim, db1) \<and>
    find_delivery 1 ConsumerCloudCampaignFact
      (event_run event_env0 repository0 [OpClaim 9500 1 ConsumerCloudCampaignFact ''w2'' minute, OpDispatch] db1) = Some d \<and>
    dl_attempt d = 1"
proof -
  have "case deliv_Claim event_env0 9000 1 ConsumerCloudCampaignFact ''w1'' minute claimed0 of
      (Inr claim, db1) \<Rightarrow> cl_status claim = DeliveryProcessing \<and> cl_attempt claim = 1 | _ \<Rightarrow> False"
    by code_simp
  then obtain claim db1 where run: "deliv_Claim event_env0 9000 1 ConsumerCloudCampaignFact ''w1'' minute claimed0 = (Inr claim, db1)"
    and claim: "cl_status claim = DeliveryProcessing" "cl_attempt claim = 1"
    by (auto split: prod.splits sum.splits)
  have "list_all (by_others 1 ConsumerCloudCampaignFact ''w1'' (9000 + minute))
      [OpClaim 9500 1 ConsumerCloudCampaignFact ''w2'' minute, OpDispatch]" by code_simp
  from lease_excludes_others [OF run claim(1) this] run claim(2) show ?thesis by metis
qed

section \<open>Dispatching\<close>

text \<open>
  C14. Over a queue that answers every insertion, one run of the dispatcher works off exactly the smaller
  of its batch size and its backlog, and after enough runs nothing is left: every event of a bound
  type has, for each consumer of the type, a delivery whose job is in the queue, and every other event is
  marked as dispatched.
\<close>

theorem dispatch_works_off_backlog:
  assumes "newRuntimeRepository client batch bs = Some P" and "river_ok client jobs"
    and "list_all (pg_text \<circ> bn_consumer) bs" and "ready_store jobs db"
  shows "(\<exists>db'. deliv_Dispatch P db = (Inr (min batch (backlog P db)), db') \<and>
      backlog P db' = backlog P db - min batch (backlog P db)) \<and>
    (backlog P db \<le> int m * batch \<longrightarrow> (\<forall>(r, f) \<in> set (event_table (dispatch_runs m P db)).
      (\<forall>b \<in> set bs. ev_type r = bn_type b \<longrightarrow> (\<exists>d i. find_delivery (ev_id r) (bn_consumer b) (dispatch_runs m P db) = Some d \<and>
        dl_job d = Some i \<and> (i, \<lparr>ja_event = ev_id r, ja_consumer = bn_consumer b\<rparr>) \<in> set (jobs (river (dispatch_runs m P db))))) \<and>
      (ev_type r \<notin> bn_type ` set bs \<longrightarrow> f)))"
proof (rule conjI)
  show "\<exists>db'. deliv_Dispatch P db = (Inr (min batch (backlog P db)), db') \<and>
      backlog P db' = backlog P db - min batch (backlog P db)"
    using deliv_Dispatch_progress [OF assms] by blast
  let ?db = "dispatch_runs m P db"
  have bs: "rp_bindings P = bs" using newRuntimeRepository_SomeD [OF assms(1)] by blast
  note drain = dispatch_runs_drain [OF assms(1-3), of db m]
  have job: "\<exists>i. dl_job d = Some i \<and> (i, \<lparr>ja_event = e, ja_consumer = c\<rparr>) \<in> set (jobs (river ?db))"
    if "find_delivery e c ?db = Some d" for e c d
    using drain assms(4) find_delivery_Some [OF that] by (auto simp: ready_store_def jobs_match_def)
  show "backlog P db \<le> int m * batch \<longrightarrow> (\<forall>(r, f) \<in> set (event_table ?db).
      (\<forall>b \<in> set bs. ev_type r = bn_type b \<longrightarrow> (\<exists>d i. find_delivery (ev_id r) (bn_consumer b) ?db = Some d \<and>
        dl_job d = Some i \<and> (i, \<lparr>ja_event = ev_id r, ja_consumer = bn_consumer b\<rparr>) \<in> set (jobs (river ?db)))) \<and>
      (ev_type r \<notin> bn_type ` set bs \<longrightarrow> f))"
  proof (intro impI ballI, clarify)
    fix r f
    assume "backlog P db \<le> int m * batch" and row: "(r, f) \<in> set (event_table ?db)"
    then have zero: "backlog P ?db = 0" using drain assms(4) by simp
    note found = no_backlogD(1) [OF zero row, unfolded bs]
    show "(\<forall>b \<in> set bs. ev_type r = bn_type b \<longrightarrow> (\<exists>d i. find_delivery (ev_id r) (bn_consumer b) ?db = Some d \<and>
        dl_job d = Some i \<and> (i, \<lparr>ja_event = ev_id r, ja_consumer = bn_consumer b\<rparr>) \<in> set (jobs (river ?db)))) \<and>
      (ev_type r \<notin> bn_type ` set bs \<longrightarrow> f)"
      using found job no_backlogD(2) [OF zero row, unfolded bs] by blast
  qed
qed

theorem dispatch_works_off_backlog_witness:
  "\<exists>db'. deliv_Dispatch repository0 events0 = (Inr 1, db') \<and> backlog repository0 db' = 0"
  using dispatch_works_off_backlog [OF repository0_new list_river_ok _ events0_ready, of 1] events0_backlog
  by (simp add: fact_binding_def fact_names)

section \<open>Jobs\<close>

text \<open>
  C34. A delivery job never leaves its delivery in processing: either it could not claim the delivery, and fails
  with the store as it was, or the delivery is settled when the job succeeds and pending again when it
  fails, so that the job is retried exactly when the delivery is open. This holds for every router whose
  consumers settle a delivery when they succeed and leave it alone when they fail.
\<close>

theorem job_settles_its_delivery:
  assumes "\<And>ds. ds \<in> snd ` set (ro_consumers ro) \<Longrightarrow> settles deliv_view ds"
    and "0 < ja_event (jb_args job)" and "ja_consumer (jb_args job) \<noteq> []"
    and "worker_Work (pg_deliveries N now) ro job db = (r, db')"
  shows "(db' = db \<and> r \<noteq> Inr ()) \<or>
    (\<exists>d. find_delivery (ja_event (jb_args job)) (ja_consumer (jb_args job)) db' = Some d \<and>
       dl_status d \<noteq> DeliveryProcessing \<and> (r = Inr () \<longleftrightarrow> delivery_over (dl_status d)))"
  using pg_deliv.work_settles [OF assms] by (simp add: deliv_view_def)

definition fact_router :: "instant \<Rightarrow> 'q event_db router" where
  "fact_router now = \<lparr>ro_routes = [], ro_consumers = [(ConsumerCloudCampaignFact, FactDeliveryConsumer now)]\<rparr>"

theorem job_settles_its_delivery_witness:
  "\<exists>r db'. worker_Work (pg_deliveries event_env0 9000) (fact_router 9000) job0 claimed0 = (r, db') \<and>
    (r = Inr () \<longrightarrow> (\<exists>d. find_delivery 1 ConsumerCloudCampaignFact db' = Some d \<and> delivery_over (dl_status d)))"
proof -
  obtain r db' where run: "worker_Work (pg_deliveries event_env0 9000) (fact_router 9000) job0 claimed0 = (r, db')"
    by (cases "worker_Work (pg_deliveries event_env0 9000) (fact_router 9000) job0 claimed0")
  have "settles deliv_view ds" if "ds \<in> snd ` set (ro_consumers (fact_router 9000))" for ds :: "(int \<times> DeliveryJobArgs) list event_db delivery_subscriber"
    using that fact_consumer_settles by (simp add: fact_router_def)
  moreover have "0 < ja_event (jb_args job0)" "ja_consumer (jb_args job0) \<noteq> []"
    by (simp_all add: job0_def fact_args_def ConsumerCloudCampaignFact_def)
  ultimately have "(db' = claimed0 \<and> r \<noteq> Inr ()) \<or>
    (\<exists>d. find_delivery (ja_event (jb_args job0)) (ja_consumer (jb_args job0)) db' = Some d \<and>
       dl_status d \<noteq> DeliveryProcessing \<and> (r = Inr () \<longleftrightarrow> delivery_over (dl_status d)))"
    using run by (rule job_settles_its_delivery)
  then show ?thesis using run by (auto simp: job0_def fact_args_def)
qed

section \<open>Campaign facts\<close>

lemma audit_event_of_call:
  assumes "camp_inv db" and "pg_micros now \<noteq> 0" and "\<not> is_batch call"
    and "find_receipt (call_actor call) (ce_sha256 E (call_key call)) db = None"
    and "run_call E (pg_campaigns E) now call db = (Inr out, db')"
  obtains r where "r \<in> set (event_log db')" and "r\<lparr>ev_id := 0\<rparr> = audit_row E 0 (call_event now call (call_type call))"
proof -
  have "cf_receipts (pg_facts db) (key_of E call) = None" using assms(4) by (simp add: key_of_def)
  from camp.committed [where s = db, OF _ _ assms(2,3) this assms(5)] assms(1)
  obtain f r where f: "pg_facts db' = (log_event (audit_row E 0 (call_event now call (call_type call))) f)\<lparr>cf_receipts := r\<rparr>"
    by (auto simp: camp_inv_def)
  have "audit_row E 0 (call_event now call (call_type call)) \<in> set (cf_events (pg_facts db'))"
    by (simp only: f) (simp add: log_event_def)
  then show thesis using that by force
qed

lemma audit_record:
  assumes r: "r\<lparr>ev_id := 0\<rparr> = audit_row E 0 (call_event now call t)" and "0 < ev_id r" and "pg_micros now \<noteq> 0"
    and sha: "ce_sha256 E (audit_key_text (call_event now call t)) \<noteq> []"
    and "ee_json_valid N (audit_payload E (call_event now call t))"
  shows "ev_type r = EvCloudCampaignFact" and "\<exists>rec. deliveryRecord N r = Inr rec"
proof -
  have fields: "ev_type r = EvCloudCampaignFact" "ev_payload r = audit_payload E (call_event now call t)" "ev_at r = pg_micros now"
    "ev_key r = hex_encode (ce_sha256 E (audit_key_text (call_event now call t)))"
    using arg_cong [OF r, of ev_type] arg_cong [OF r, of ev_payload] arg_cong [OF r, of ev_at] arg_cong [OF r, of ev_key]
    by (simp_all add: audit_row_def EvCloudCampaignFact_def call_event_def)
  have "ev_key r \<noteq> []" using sha fields(4) by (cases "ce_sha256 E (audit_key_text (call_event now call t))") simp_all
  with fields assms fact_names show "\<exists>rec. deliveryRecord N r = Inr rec" by (simp add: deliveryRecord_def)
  show "ev_type r = EvCloudCampaignFact" by (rule fields(1))
qed

lemma fact_row_consumed:
  assumes ready: "ready_store jobs db" and idle: "\<forall>d \<in> set (delivery_table db). dl_status d = DeliveryPending \<and> dl_attempt d = 0"
    and P: "newRuntimeRepository client batch bs = Some P" "river_ok client jobs" "list_all (pg_text \<circ> bn_consumer) bs"
    and bound: "fact_binding \<in> set bs" and enough: "backlog P db \<le> int m * batch"
    and row0: "r \<in> fst ` set (event_table db)" and type: "ev_type r = EvCloudCampaignFact" and rec: "deliveryRecord N r = Inr rec"
    and router: "map_of (ro_consumers ro) ConsumerCloudCampaignFact = Some (FactDeliveryConsumer done_at)"
  shows "\<exists>i. (i, fact_args (ev_id r)) \<in> set (jobs (river (dispatch_runs m P db))) \<and>
    (\<forall>job. jb_args job = fact_args (ev_id r) \<and> 0 \<le> jb_id job \<and> jb_id job \<le> max_int64 \<longrightarrow>
      (\<exists>db' d. worker_Work (pg_deliveries N work_at) ro job (dispatch_runs m P db) = (Inr (), db') \<and>
        find_delivery (ev_id r) ConsumerCloudCampaignFact db' = Some d \<and> dl_status d = DeliveryCompleted \<and>
        dl_attempt d = 1 \<and> dl_completed d = Some done_at))"
proof -
  let ?db = "dispatch_runs m P db"
  have drain: "ready_store jobs ?db" "backlog P ?db = 0"
    using dispatch_runs_drain [OF P ready, of m] enough by simp_all
  have ok: "event_db_ok db" "event_db_ok ?db" "jobs_match jobs ?db" using ready drain by (simp_all add: ready_store_def)
  have disp: "dispatched db ?db" by (rule dispatch_runs_dispatched)
  have row: "r \<in> fst ` set (event_table ?db)" using row0 disp by (metis dispatched_def set_map)
  have pos: "0 < ev_id r" using ok(1) row0 by (auto simp: event_db_ok_def)
  from row obtain f where "(r, f) \<in> set (event_table ?db)" by force
  with no_backlogD(1) [OF drain(2) this, of fact_binding] newRuntimeRepository_SomeD [OF P(1)] bound type
  obtain d where d: "find_delivery (ev_id r) ConsumerCloudCampaignFact ?db = Some d"
    by (auto simp: fact_binding_def)
  have fresh: "dl_status d = DeliveryPending \<and> dl_attempt d = 0"
  proof (cases "find_delivery (ev_id r) ConsumerCloudCampaignFact db")
    case None
    moreover have "find_delivery (ev_id r) ConsumerCloudCampaignFact ?db = find_delivery (ev_id r) ConsumerCloudCampaignFact db \<or>
        (\<exists>i. find_delivery (ev_id r) ConsumerCloudCampaignFact ?db =
          Some ((new_delivery (ev_id r) ConsumerCloudCampaignFact)\<lparr>dl_job := Some i\<rparr>))"
      using disp unfolding dispatched_def by blast
    ultimately show ?thesis using d by auto
  next
    case (Some d0)
    with d dispatched_keeps [OF disp Some] idle find_delivery_Some [OF Some] show ?thesis by auto
  qed
  have in_d: "d \<in> set (delivery_table ?db)" "dl_event d = ev_id r" "dl_consumer d = ConsumerCloudCampaignFact"
    using find_delivery_Some [OF d] by simp_all
  then have "delivery_ok d" using ok(2) by (simp add: event_db_ok_def)
  with fresh have none: "dl_completed d = None" by (simp add: delivery_ok_def)
  from ok(3) in_d obtain i where i: "(i, fact_args (ev_id r)) \<in> set (jobs (river ?db))"
    by (auto simp: jobs_match_def fact_args_def)
  have work: "\<exists>db' d. worker_Work (pg_deliveries N work_at) ro job ?db = (Inr (), db') \<and>
        find_delivery (ev_id r) ConsumerCloudCampaignFact db' = Some d \<and> dl_status d = DeliveryCompleted \<and>
        dl_attempt d = 1 \<and> dl_completed d = Some done_at"
    if job: "jb_args job = fact_args (ev_id r) \<and> 0 \<le> jb_id job \<and> jb_id job \<le> max_int64" for job
  proof -
    have "dl_attempt d < max_int32" using fresh by (simp add: max_int32_def)
    from fact_job_completes [OF find_event_row [OF ok(2) row] rec type pos d _ this router, of job work_at] job fresh
    obtain db' where "worker_Work (pg_deliveries N work_at) ro job ?db = (Inr (), db')"
      "find_delivery (ev_id r) ConsumerCloudCampaignFact db' =
        Some (completed done_at (claimed (job_owner job) (work_at + minute) d))"
      by (auto simp: fact_args_def)
    with fresh none show ?thesis by (simp add: completed_def claimed_def)
  qed
  show ?thesis using i work by blast
qed

text \<open>
  C33. What a committed campaign call records reaches its consumer. Let the event log be what a
  call under a fresh idempotency key left behind, with no delivery job run yet. After enough runs of a
  dispatcher that has the campaign binding, the job for the audit event of the call is in the queue, and the job,
  worked on by a router that has the consumer of campaign facts, succeeds and leaves the delivery
  completed at its first attempt.
\<close>

theorem campaign_fact_is_consumed:
  assumes "camp_inv cdb" and "pg_micros now \<noteq> 0" and "\<not> is_batch call"
    and "find_receipt (call_actor call) (ce_sha256 E (call_key call)) cdb = None"
    and "run_call E (pg_campaigns E) now call cdb = (Inr out, cdb')"
    and log: "map fst (event_table db) = event_log cdb'" and ready: "ready_store jobs db"
    and idle: "\<forall>d \<in> set (delivery_table db). dl_status d = DeliveryPending \<and> dl_attempt d = 0"
    and P: "newRuntimeRepository client batch bs = Some P" "river_ok client jobs" "list_all (pg_text \<circ> bn_consumer) bs"
    and bound: "fact_binding \<in> set bs" and enough: "backlog P db \<le> int m * batch"
    and sha: "\<forall>t. ce_sha256 E t \<noteq> []" and json: "ee_json_valid N (audit_payload E (call_event now call (call_type call)))"
    and router: "map_of (ro_consumers ro) ConsumerCloudCampaignFact = Some (FactDeliveryConsumer done_at)"
  shows "\<exists>r i. r \<in> set (event_log cdb') \<and> r\<lparr>ev_id := 0\<rparr> = audit_row E 0 (call_event now call (call_type call)) \<and>
    (i, fact_args (ev_id r)) \<in> set (jobs (river (dispatch_runs m P db))) \<and>
    (\<forall>job. jb_args job = fact_args (ev_id r) \<and> 0 \<le> jb_id job \<and> jb_id job \<le> max_int64 \<longrightarrow>
      (\<exists>db' d. worker_Work (pg_deliveries N work_at) ro job (dispatch_runs m P db) = (Inr (), db') \<and>
        find_delivery (ev_id r) ConsumerCloudCampaignFact db' = Some d \<and> dl_status d = DeliveryCompleted \<and>
        dl_attempt d = 1 \<and> dl_completed d = Some done_at))"
proof -
  obtain r where r: "r \<in> set (event_log cdb')" "r\<lparr>ev_id := 0\<rparr> = audit_row E 0 (call_event now call (call_type call))"
    by (rule audit_event_of_call [OF assms(1-5)])
  have row: "r \<in> fst ` set (event_table db)" using r(1) log by (metis set_map)
  then have "0 < ev_id r" using ready by (auto simp: ready_store_def event_db_ok_def)
  from audit_record [OF r(2) this assms(2) sha [rule_format] json] obtain rec where
    rec: "ev_type r = EvCloudCampaignFact" "deliveryRecord N r = Inr rec" by blast
  from fact_row_consumed [OF ready idle P bound enough row rec router, of work_at] r show ?thesis by blast
qed

definition facts_store :: "camp_db \<Rightarrow> (int \<times> DeliveryJobArgs) list event_db" where
  "facts_store cdb = \<lparr>event_table = map (\<lambda>r. (r, False)) (event_log cdb), delivery_table = [], river = [],
     next_event_id = next_event cdb\<rparr>"

theorem campaign_fact_is_consumed_witness:
  "\<exists>out cdb' (r::event_row) db'. run_call camp_env0 (pg_campaigns camp_env0) 5000 approve0 camp0 = (Inr out, cdb') \<and>
    worker_Work (pg_deliveries event_env0 9000) (fact_router 9500) (job0\<lparr>jb_args := fact_args (ev_id r)\<rparr>)
      (dispatch_runs 1 repository0 (facts_store cdb')) = (Inr (), db')"
proof -
  have "case run_call camp_env0 (pg_campaigns camp_env0) 5000 approve0 camp0 of
      (Inr _, cdb) \<Rightarrow> map ev_id (event_log cdb) = [1] \<and> map ev_type (event_log cdb) = [EvCloudCampaignFact] \<and> next_event cdb = 2
    | _ \<Rightarrow> False" by code_simp
  then obtain out cdb' where run: "run_call camp_env0 (pg_campaigns camp_env0) 5000 approve0 camp0 = (Inr out, cdb')"
    and log: "map ev_id (event_log cdb') = [1]" "map ev_type (event_log cdb') = [EvCloudCampaignFact]" "next_event cdb' = 2"
    by (auto split: prod.splits sum.splits)
  from log obtain r0 where r0: "event_log cdb' = [r0]" "ev_id r0 = 1" "ev_type r0 = EvCloudCampaignFact" by auto
  let ?db = "facts_store cdb'"
  have "event_db_ok ?db" by (simp add: event_db_ok_def facts_store_def r0 log(3))
  then have ready: "ready_store (\<lambda>q. q) ?db" by (simp add: ready_store_def jobs_match_def facts_store_def)
  have backlog: "backlog repository0 ?db \<le> int 1 * 100"
    by (simp add: backlog_def missing_def missing_rows_def undispatched_rows_def repository0_def facts_store_def r0 fact_binding_def)
  have names: "list_all (pg_text \<circ> bn_consumer) [fact_binding]" by (simp add: fact_binding_def fact_names)
  have sha: "\<forall>t. ce_sha256 camp_env0 t \<noteq> []" by (simp add: camp_env0_def)
  have json: "ee_json_valid event_env0 (audit_payload camp_env0 (call_event 5000 approve0 (call_type approve0)))"
    by (simp add: event_env0_def)
  have single: "\<not> is_batch approve0" by (simp add: approve0_def)
  have table: "map fst (event_table ?db) = event_log cdb'" and none: "\<forall>d \<in> set (delivery_table ?db). dl_status d = DeliveryPending \<and> dl_attempt d = 0"
    by (simp_all add: facts_store_def r0)
  have router: "map_of (ro_consumers (fact_router 9500)) ConsumerCloudCampaignFact = Some (FactDeliveryConsumer 9500)"
    by (simp add: fact_router_def)
  have at: "fact_binding \<in> set [fact_binding]" by simp
  from campaign_fact_is_consumed [OF camp0_inv now0(1) single camp0_fresh run table ready none repository0_new list_river_ok
      names at backlog sha json router, of 9000] obtain r :: event_row where
    "\<forall>job. jb_args job = fact_args (ev_id r) \<and> 0 \<le> jb_id job \<and> jb_id job \<le> max_int64 \<longrightarrow>
      (\<exists>db' d. worker_Work (pg_deliveries event_env0 9000) (fact_router 9500) job (dispatch_runs 1 repository0 ?db) = (Inr (), db') \<and>
        find_delivery (ev_id r) ConsumerCloudCampaignFact db' = Some d \<and> dl_status d = DeliveryCompleted \<and>
        dl_attempt d = 1 \<and> dl_completed d = Some 9500)" by (elim exE conjE) (rule that; assumption)
  then have "\<exists>db'. worker_Work (pg_deliveries event_env0 9000) (fact_router 9500) (job0\<lparr>jb_args := fact_args (ev_id r)\<rparr>)
      (dispatch_runs 1 repository0 ?db) = (Inr (), db')"
    using job0_range by (auto dest!: spec [of _ "job0\<lparr>jb_args := fact_args (ev_id r)\<rparr>"] simp: job0_def)
  with run show ?thesis by blast
qed

section \<open>Events without a consumer\<close>




end
