(* ===== verification/MigrationTypes.thy ===== *)
theory MigrationTypes
  imports GoText
begin

text \<open>
  The harness of data migrations: manifests, policies, sources, rows, checkpoints and receipts
  (\<^verbatim>\<open>internal/migration/model.go\<close>, \<^verbatim>\<open>ports.go\<close>, \<^verbatim>\<open>registry.go\<close>).

  A digest is a string of 32 bytes. SHA-256 and the JSON text of a manifest are arguments. The
  adapters are arguments too: an adapter's source is a function from a request to the rows that
  it offers and its own verdict, and a mapper is a function of a row.
\<close>

datatype mig_error =
    MErrInvalidManifest | MErrUnknownAdapter | MErrUnknownPolicy | MErrSourceDrift | MErrUnboundedStream
  | MErrSourcePayloadConflict | MErrLeaseFenced | MErrTargetTampered | MErrInvalidRun | MErrDependency
  | MErrOther string

section \<open>Digests\<close>

type_synonym digest = string

definition zero_digest :: digest where
  "zero_digest = replicate 32 (CHR 0x00)"

section \<open>Manifests\<close>

definition families :: "string list" where
  "families = [''contact'', ''identity'', ''wecom'', ''campaign'', ''outbound'', ''automation'', ''survey'', ''media'',
     ''radar'', ''commerce'', ''payment'', ''entitlement'', ''product'', ''operations'', ''platform'']"

definition family_valid :: "string \<Rightarrow> bool" where
  "family_valid f \<longleftrightarrow> f \<in> set families"

definition mode_valid :: "string \<Rightarrow> bool" where
  "mode_valid m \<longleftrightarrow> m = ''snapshot'' \<or> m = ''incremental''"

datatype disposition =
    DispositionImport | DispositionArchive | DispositionQuarantine | DispositionSkip | DispositionRebuild
  | DispositionReset | DispositionOther string

fun disposition_text :: "disposition \<Rightarrow> string" where
  "disposition_text DispositionImport = ''import''"
| "disposition_text DispositionArchive = ''archive''"
| "disposition_text DispositionQuarantine = ''quarantine''"
| "disposition_text DispositionSkip = ''skip''"
| "disposition_text DispositionRebuild = ''rebuild''"
| "disposition_text DispositionReset = ''reset''"
| "disposition_text (DispositionOther s) = s"

fun disposition_valid :: "disposition \<Rightarrow> bool" where
  "disposition_valid (DispositionOther s) = False"
| "disposition_valid _ = True"

text \<open>The dispositions that write to the target through the mapper.\<close>

fun importing :: "disposition \<Rightarrow> bool" where
  "importing DispositionImport = True"
| "importing DispositionRebuild = True"
| "importing DispositionReset = True"
| "importing _ = False"

record TableSpec =
  ts_id :: string
  ts_source :: string
  ts_schema :: digest
  ts_mapping :: digest
  ts_policy_digest :: digest
  ts_primary_key :: string
  ts_watermark :: string
  ts_mode :: string
  ts_policy :: string

definition spec_valid :: "TableSpec \<Rightarrow> bool" where
  "spec_valid t \<longleftrightarrow> ts_id t \<noteq> [] \<and> ts_source t \<noteq> [] \<and> ts_schema t \<noteq> zero_digest \<and> ts_mapping t \<noteq> zero_digest \<and>
     ts_policy_digest t \<noteq> zero_digest \<and> ts_primary_key t \<noteq> [] \<and> ts_watermark t \<noteq> [] \<and> mode_valid (ts_mode t) \<and>
     ts_policy t \<noteq> []"

record AdapterManifest =
  am_id :: string
  am_family :: string
  am_source :: string
  am_schema :: digest
  am_tables :: "TableSpec list"

definition manifest_valid :: "AdapterManifest \<Rightarrow> bool" where
  "manifest_valid m \<longleftrightarrow> am_id m \<noteq> [] \<and> family_valid (am_family m) \<and> am_source m \<noteq> [] \<and> am_schema m \<noteq> zero_digest \<and>
     am_tables m \<noteq> [] \<and> list_all spec_valid (am_tables m) \<and> distinct (map ts_id (am_tables m))"

record mig_env =
  me_sha256 :: "string \<Rightarrow> digest"
  me_manifest :: "AdapterManifest \<Rightarrow> string"

definition manifest_digest :: "mig_env \<Rightarrow> AdapterManifest \<Rightarrow> mig_error + digest" where
  "manifest_digest E m =
     (if \<not> manifest_valid m then Inl MErrInvalidManifest
      else Inr (me_sha256 E (me_manifest E m)))"

record Policy =
  po_id :: string
  po_disposition :: disposition

definition policy_valid :: "Policy \<Rightarrow> bool" where
  "policy_valid p \<longleftrightarrow> po_id p \<noteq> [] \<and> disposition_valid (po_disposition p)"

definition policy_digest :: "mig_env \<Rightarrow> Policy \<Rightarrow> mig_error + digest" where
  "policy_digest E p =
     (if \<not> policy_valid p then Inl MErrUnknownPolicy
      else Inr (me_sha256 E (po_id p @ CHR 0x00 # disposition_text (po_disposition p))))"

section \<open>Sources\<close>

record UpperBound =
  ub_value :: string
  ub_empty :: bool

definition bound_valid :: "UpperBound \<Rightarrow> bool" where
  "bound_valid b \<longleftrightarrow> (ub_empty b \<longleftrightarrow> ub_value b = [])"

record TableBound =
  tb_table :: string
  tb_source :: string
  tb_schema :: digest
  tb_bound :: UpperBound

record SourcePreflight =
  sp_identity :: string
  sp_schema :: digest
  sp_bounds :: "TableBound list"

record SourceRow =
  sr_cursor :: string
  sr_key :: string
  sr_payload :: string
  sr_field :: digest

definition row_valid :: "SourceRow \<Rightarrow> bool" where
  "row_valid r \<longleftrightarrow> sr_cursor r \<noteq> [] \<and> sr_key r \<noteq> [] \<and> sr_field r \<noteq> zero_digest"

record MappedRow =
  mp_operation :: string
  mp_payload :: string
  mp_digest :: digest

text \<open>
  A stream hands its rows to the caller one by one, stops with the caller's error when there is
  one, and otherwise ends with an error of its own or with the flag that it is complete.
\<close>

record AdapterDefinition =
  ad_manifest :: AdapterManifest
  ad_preflight :: "mig_error + SourcePreflight"
  ad_stream :: "TableSpec \<Rightarrow> UpperBound \<Rightarrow> string \<Rightarrow> int \<Rightarrow> SourceRow list \<times> (mig_error + bool)"
  ad_mapping :: "string \<Rightarrow> digest"
  ad_map :: "TableSpec \<Rightarrow> SourceRow \<Rightarrow> mig_error + MappedRow"
  ad_compare :: "string \<Rightarrow> string \<Rightarrow> mig_error + int"

section \<open>Registries\<close>

type_synonym mapping_registry = "(string \<times> AdapterDefinition) list"
type_synonym policy_registry = "(string \<times> Policy) list"

fun add_definitions :: "mapping_registry \<Rightarrow> AdapterDefinition list \<Rightarrow> mig_error + mapping_registry" where
  "add_definitions reg [] = Inr reg"
| "add_definitions reg (d # ds) =
     (if \<not> manifest_valid (ad_manifest d) \<or> map_of reg (am_id (ad_manifest d)) \<noteq> None then Inl MErrInvalidManifest
      else add_definitions (reg @ [(am_id (ad_manifest d), d)]) ds)"

definition NewStaticMappingRegistry :: "AdapterDefinition list \<Rightarrow> mig_error + mapping_registry" where
  "NewStaticMappingRegistry ds = add_definitions [] ds"

fun add_policies :: "policy_registry \<Rightarrow> Policy list \<Rightarrow> mig_error + policy_registry" where
  "add_policies reg [] = Inr reg"
| "add_policies reg (p # ps) =
     (if \<not> policy_valid p \<or> map_of reg (po_id p) \<noteq> None then Inl MErrUnknownPolicy
      else add_policies (reg @ [(po_id p, p)]) ps)"

definition NewStaticPolicyRegistry :: "Policy list \<Rightarrow> mig_error + policy_registry" where
  "NewStaticPolicyRegistry ps = add_policies [] ps"

section \<open>Runs\<close>

record LeaseFence =
  lf_run :: string
  lf_generation :: int
  lf_token :: digest
  lf_expires :: instant

definition fence_valid :: "LeaseFence \<Rightarrow> bool" where
  "fence_valid f \<longleftrightarrow> lf_run f \<noteq> [] \<and> 0 < lf_generation f \<and> lf_token f \<noteq> zero_digest \<and> lf_expires f \<noteq> 0"

text \<open>The empty cursor is the absent one.\<close>

record TableCheckpoint =
  tc_source :: string
  tc_schema :: digest
  tc_bound :: UpperBound
  tc_cursor :: string
  tc_processed :: int
  tc_complete :: bool

datatype run_phase = PhaseRunning | PhaseCompleted | PhaseReconciled

record RunState =
  rs_id :: string
  rs_adapter :: string
  rs_source :: string
  rs_schema :: digest
  rs_manifest :: digest
  rs_phase :: run_phase
  rs_tables :: "(string \<times> TableCheckpoint) list"

record StartRun =
  sn_id :: string
  sn_adapter :: string
  sn_source :: string
  sn_schema :: digest
  sn_manifest :: digest
  sn_bounds :: "TableBound list"

section \<open>Receipts\<close>

record RowReceipt =
  wr_adapter :: string
  wr_table :: string
  wr_key :: digest
  wr_payload :: digest
  wr_field :: digest
  wr_disposition :: disposition
  wr_mapping :: digest
  wr_policy :: digest
  wr_operation :: string
  wr_mutation :: digest

record ResultReceipt =
  re_run :: string
  re_row :: RowReceipt
  re_outcome :: disposition
  re_mutation :: digest

record Quarantine =
  qu_adapter :: string
  qu_table :: string
  qu_key :: digest
  qu_payload :: digest
  qu_field :: digest
  qu_reason :: string

record Archive =
  ar_adapter :: string
  ar_table :: string
  ar_key :: digest
  ar_payload :: digest
  ar_field :: digest

record ReconciliationReceipt =
  rc_run :: string
  rc_source_rows :: int
  rc_result_rows :: int
  rc_verified :: int
  rc_comparison :: digest

record Readiness =
  rd_run :: string
  rd_phase :: run_phase
  rd_ready :: bool
  rd_pending :: int
  rd_processed :: int
  rd_results :: int
  rd_quarantined :: int
  rd_reconciled :: bool

end
