(* ===== verification/MigrationStore.thy ===== *)
theory MigrationStore
  imports MigrationTypes EventLog
begin

text \<open>
  The PostgreSQL store of the harness (\<^verbatim>\<open>internal/migration/store/repository.go\<close>, its queries, and
  the tables and triggers of migration 00076), and the registry of target operations
  (\<^verbatim>\<open>store/target.go\<close>). \<open>mg_target\<close> holds the tables of the domains, which the
  operations of the registry change. Each operation takes the instant of the database.

  The errors of statements follow \<open>translate\<close>: an error whose message has the word lease (those
  of the lease table and of the fence guard) is \<open>MErrLeaseFenced\<close>, a second row receipt for a
  key is \<open>MErrSourcePayloadConflict\<close>, every other constraint is \<open>MErrTargetTampered\<close>, and a
  text that PostgreSQL cannot store is \<open>MErrDependency\<close>.
\<close>

section \<open>Tables\<close>

record run_row =
  gr_id :: string
  gr_adapter :: string
  gr_source :: string
  gr_schema :: digest
  gr_manifest :: digest
  gr_phase :: run_phase
  gr_completed :: "instant option"
  gr_reconciled :: "instant option"

record table_row =
  tr_run :: string
  tr_table :: string
  tr_ordinal :: nat
  tr_point :: TableCheckpoint
  tr_lease :: "(int \<times> digest) option"

record lease_row =
  lr_run :: string
  lr_generation :: int
  lr_fence :: digest
  lr_acquired :: instant
  lr_expires :: instant
  lr_active :: bool
  lr_retired :: "instant option"

record 'w mig_db =
  mg_runs :: "run_row list"
  mg_tables :: "table_row list"
  mg_leases :: "lease_row list"
  mg_receipts :: "RowReceipt list"
  mg_results :: "ResultReceipt list"
  mg_quarantines :: "(string \<times> Quarantine) list"
  mg_archives :: "(string \<times> Archive) list"
  mg_reconciliations :: "ReconciliationReceipt list"
  mg_target :: 'w

type_synonym ('w, 'a) mig_tx = "('w mig_db, mig_error, 'a) tx"

definition run_text :: "nat \<Rightarrow> string \<Rightarrow> bool" where
  "run_text n s \<longleftrightarrow> s \<noteq> [] \<and> rune_count s \<le> n"

section \<open>Runs\<close>

definition find_run :: "string \<Rightarrow> 'w mig_db \<Rightarrow> run_row option" where
  "find_run i db = List.find (\<lambda>r. gr_id r = i) (mg_runs db)"

definition run_tables :: "string \<Rightarrow> 'w mig_db \<Rightarrow> table_row list" where
  "run_tables i db = sort_key tr_ordinal (filter (\<lambda>t. tr_run t = i) (mg_tables db))"

definition loadWith :: "string \<Rightarrow> 'w mig_db \<Rightarrow> mig_error + RunState" where
  "loadWith i db =
     (if i = [] then Inl MErrInvalidRun
      else if \<not> pg_text i then Inl MErrDependency
      else (case find_run i db of
        None \<Rightarrow> Inl MErrInvalidRun
      | Some r \<Rightarrow>
          if run_tables i db = [] then Inl MErrTargetTampered
          else Inr \<lparr>rs_id = gr_id r, rs_adapter = gr_adapter r, rs_source = gr_source r, rs_schema = gr_schema r,
            rs_manifest = gr_manifest r, rs_phase = gr_phase r,
            rs_tables = map (\<lambda>t. (tr_table t, tr_point t)) (run_tables i db)\<rparr>))"

definition mig_Load :: "string \<Rightarrow> ('w, RunState) mig_tx" where
  "mig_Load i = (\<lambda>db. (loadWith i db, db))"

definition new_point :: "TableBound \<Rightarrow> TableCheckpoint" where
  "new_point b = \<lparr>tc_source = tb_source b, tc_schema = tb_schema b, tc_bound = tb_bound b, tc_cursor = [],
     tc_processed = 0, tc_complete = False\<rparr>"

text \<open>
  The registration of a table, with its guard: the run is running, it has never had a lease, and
  the ordinals are consecutive.
\<close>

definition InsertRunTable :: "string \<Rightarrow> nat \<Rightarrow> TableBound \<Rightarrow> ('w, unit) mig_tx" where
  "InsertRunTable i k b = (\<lambda>db.
     if \<not> pg_text (tb_table b) \<or> \<not> pg_text (tb_source b) then (Inl MErrDependency, db)
     else if map_option gr_phase (find_run i db) \<noteq> Some PhaseRunning \<or> i \<in> lr_run ` set (mg_leases db) \<or>
       k \<noteq> length (run_tables i db) \<or> \<not> run_text 256 (tb_table b) \<or> \<not> run_text 512 (tb_source b) \<or>
       tb_table b \<in> tr_table ` set (run_tables i db)
     then (Inl MErrTargetTampered, db)
     else (Inr (), db\<lparr>mg_tables := mg_tables db @ [\<lparr>tr_run = i, tr_table = tb_table b, tr_ordinal = k,
       tr_point = new_point b, tr_lease = None\<rparr>]\<rparr>))"

fun insert_tables :: "string \<Rightarrow> nat \<Rightarrow> TableBound list \<Rightarrow> ('w, unit) mig_tx" where
  "insert_tables i k [] = ret ()"
| "insert_tables i k (b # bs) =
     (if tb_table b = [] \<or> tb_source b = [] \<or> tb_schema b = zero_digest \<or> \<not> bound_valid (tb_bound b)
      then fail MErrInvalidRun
      else and_then (InsertRunTable i k b) (\<lambda>_. insert_tables i (Suc k) bs))"

definition new_run :: "StartRun \<Rightarrow> run_row" where
  "new_run s = \<lparr>gr_id = sn_id s, gr_adapter = sn_adapter s, gr_source = sn_source s, gr_schema = sn_schema s,
     gr_manifest = sn_manifest s, gr_phase = PhaseRunning, gr_completed = None, gr_reconciled = None\<rparr>"

definition sameBounds :: "RunState \<Rightarrow> TableBound list \<Rightarrow> bool" where
  "sameBounds st bs \<longleftrightarrow> length (rs_tables st) = length bs \<and>
     list_all (\<lambda>b. case map_of (rs_tables st) (tb_table b) of
         None \<Rightarrow> False
       | Some c \<Rightarrow> tc_source c = tb_source b \<and> tc_schema c = tb_schema b \<and> tc_bound c = tb_bound b) bs"

definition mig_Open :: "StartRun \<Rightarrow> ('w, RunState) mig_tx" where
  "mig_Open s = (\<lambda>db.
     if sn_id s = [] \<or> sn_adapter s = [] \<or> sn_source s = [] \<or> sn_schema s = zero_digest \<or>
        sn_manifest s = zero_digest \<or> sn_bounds s = []
     then (Inl MErrInvalidRun, db)
     else if \<not> pg_text (sn_id s) \<or> \<not> pg_text (sn_adapter s) \<or> \<not> pg_text (sn_source s)
     then (Inl MErrDependency, db)
     else if \<not> run_text 128 (sn_id s) \<or> \<not> run_text 128 (sn_adapter s) \<or> \<not> run_text 512 (sn_source s)
     then (Inl MErrTargetTampered, db)
     else (case find_run (sn_id s) db of
       None \<Rightarrow> and_then (insert_tables (sn_id s) 0 (sn_bounds s)) (\<lambda>_. mig_Load (sn_id s))
         (db\<lparr>mg_runs := mg_runs db @ [new_run s]\<rparr>)
     | Some _ \<Rightarrow> (case loadWith (sn_id s) db of
         Inl e \<Rightarrow> (Inl e, db)
       | Inr st \<Rightarrow>
           if rs_adapter st \<noteq> sn_adapter s \<or> rs_source st \<noteq> sn_source s \<or> rs_schema st \<noteq> sn_schema s \<or>
              rs_manifest st \<noteq> sn_manifest s \<or> \<not> sameBounds st (sn_bounds s)
           then (Inl MErrSourceDrift, db)
           else if rs_phase st \<noteq> PhaseRunning then (Inl MErrInvalidRun, db)
           else (Inr st, db))))"

section \<open>Leases\<close>

definition is_lease :: "LeaseFence \<Rightarrow> lease_row \<Rightarrow> bool" where
  "is_lease f l \<longleftrightarrow> lr_run l = lf_run f \<and> lr_generation l = lf_generation f \<and> lr_fence l = lf_token f"

definition active_fence :: "instant \<Rightarrow> LeaseFence \<Rightarrow> 'w mig_db \<Rightarrow> bool" where
  "active_fence now f db \<longleftrightarrow> list_ex (\<lambda>l. is_lease f l \<and> lr_active l \<and> now < lr_expires l) (mg_leases db)"

definition active_lease :: "string \<Rightarrow> 'w mig_db \<Rightarrow> lease_row option" where
  "active_lease i db = List.find (\<lambda>l. lr_run l = i \<and> lr_active l) (mg_leases db)"

definition next_generation :: "string \<Rightarrow> 'w mig_db \<Rightarrow> int" where
  "next_generation i db = foldr max (map lr_generation (filter (\<lambda>l. lr_run l = i) (mg_leases db))) 0 + 1"

definition retire :: "instant \<Rightarrow> (lease_row \<Rightarrow> bool) \<Rightarrow> 'w mig_db \<Rightarrow> 'w mig_db" where
  "retire now hit db = db\<lparr>mg_leases :=
     map (\<lambda>l. if hit l \<and> lr_active l then l\<lparr>lr_active := False, lr_retired := Some now\<rparr> else l) (mg_leases db)\<rparr>"

text \<open>\<open>token\<close> is what the random source answers, or nothing when it fails.\<close>

definition mig_AcquireLease ::
  "instant \<Rightarrow> digest option \<Rightarrow> string \<Rightarrow> instant \<Rightarrow> int \<Rightarrow> ('w, LeaseFence) mig_tx" where
  "mig_AcquireLease db_now token i now ttl = (\<lambda>db.
     if i = [] \<or> now = 0 \<or> ttl \<le> 0 then (Inl MErrInvalidRun, db)
     else if \<not> pg_text i then (Inl MErrDependency, db)
     else (case find_run i db of
       None \<Rightarrow> (Inl MErrInvalidRun, db)
     | Some r \<Rightarrow>
         if gr_phase r = PhaseReconciled then (Inl MErrInvalidRun, db)
         else (case (case active_lease i db of
             None \<Rightarrow> Inr db
           | Some l \<Rightarrow> if db_now < lr_expires l then Inl MErrLeaseFenced
               else Inr (retire db_now (\<lambda>l'. lr_run l' = i \<and> lr_generation l' = lr_generation l) db)) of
           Inl e \<Rightarrow> (Inl e, db)
         | Inr db1 \<Rightarrow> (case token of
             None \<Rightarrow> (Inl (MErrOther ''entropy''), db1)
           | Some t \<Rightarrow>
               (let n = next_generation i db; until = pg_micros (db_now + ttl) in
                if max_int64 < n \<or> length t \<noteq> 32 \<or> t \<in> lr_fence ` set (mg_leases db) \<or> until \<le> db_now
                then (Inl MErrLeaseFenced, db1)
                else (Inr \<lparr>lf_run = i, lf_generation = n, lf_token = t, lf_expires = db_now + ttl\<rparr>,
                  db1\<lparr>mg_leases := mg_leases db1 @ [\<lparr>lr_run = i, lr_generation = n, lr_fence = t, lr_acquired = db_now,
                    lr_expires = until, lr_active = True, lr_retired = None\<rparr>]\<rparr>))))))"

definition mig_RenewLease ::
  "instant \<Rightarrow> LeaseFence \<Rightarrow> instant \<Rightarrow> int \<Rightarrow> ('w, LeaseFence) mig_tx" where
  "mig_RenewLease db_now f now ttl = (\<lambda>db.
     if \<not> fence_valid f \<or> now = 0 \<or> ttl \<le> 0 then (Inl MErrLeaseFenced, db)
     else (case List.find (\<lambda>l. is_lease f l \<and> lr_active l) (mg_leases db) of
       None \<Rightarrow> (Inl MErrLeaseFenced, db)
     | Some l \<Rightarrow>
         if lr_expires l \<le> db_now then (Inl MErrLeaseFenced, db)
         else if db_now + ttl \<le> lr_expires l then (Inr (f\<lparr>lf_expires := lr_expires l\<rparr>), db)
         else if pg_micros (db_now + ttl) \<le> lr_expires l then (Inl MErrLeaseFenced, db)
         else (Inr (f\<lparr>lf_expires := db_now + ttl\<rparr>), db\<lparr>mg_leases :=
           map (\<lambda>l'. if is_lease f l' \<and> lr_active l' then l'\<lparr>lr_expires := pg_micros (db_now + ttl)\<rparr> else l')
             (mg_leases db)\<rparr>)))"

section \<open>Checkpoints and phases\<close>

text \<open>
  The update of a checkpoint with its guard: the run is running, the number of rows does not go
  down, the cursor moves exactly when rows were added, and a complete table does not change. A
  checkpoint has a cursor exactly when it has rows.
\<close>

definition checkpoint_guard :: "run_phase option \<Rightarrow> table_row \<Rightarrow> table_row \<Rightarrow> bool" where
  "checkpoint_guard phase old new \<longleftrightarrow> phase = Some PhaseRunning \<and>
     tc_processed (tr_point old) \<le> tc_processed (tr_point new) \<and>
     (tc_processed (tr_point old) < tc_processed (tr_point new) \<longrightarrow> tc_cursor (tr_point new) \<noteq> []) \<and>
     (tc_processed (tr_point old) = tc_processed (tr_point new) \<longrightarrow> tc_cursor (tr_point new) = tc_cursor (tr_point old)) \<and>
     (tc_complete (tr_point old) \<longrightarrow> new = old)"

definition checkpoint_valid :: "TableCheckpoint \<Rightarrow> bool" where
  "checkpoint_valid c \<longleftrightarrow> 0 \<le> tc_processed c \<and> tc_processed c \<le> max_int64 \<and>
     (tc_processed c = 0 \<longleftrightarrow> tc_cursor c = [])"

definition find_table :: "string \<Rightarrow> string \<Rightarrow> 'w mig_db \<Rightarrow> table_row option" where
  "find_table i t db = List.find (\<lambda>r. tr_run r = i \<and> tr_table r = t) (mg_tables db)"

definition put_table :: "table_row \<Rightarrow> 'w mig_db \<Rightarrow> 'w mig_db" where
  "put_table new db = db\<lparr>mg_tables :=
     map (\<lambda>r. if tr_run r = tr_run new \<and> tr_table r = tr_table new then new else r) (mg_tables db)\<rparr>"

definition mig_Advance :: "instant \<Rightarrow> LeaseFence \<Rightarrow> string \<Rightarrow> TableCheckpoint \<Rightarrow> ('w, unit) mig_tx" where
  "mig_Advance now f t c = (\<lambda>db.
     if \<not> fence_valid f \<or> t = [] \<or> \<not> bound_valid (tc_bound c) then (Inl MErrInvalidRun, db)
     else if \<not> pg_text (lf_run f) \<or> \<not> pg_text t \<or> \<not> pg_text (tc_cursor c) \<or> \<not> pg_text (tc_source c)
     then (Inl MErrDependency, db)
     else (case find_table (lf_run f) t db of
       None \<Rightarrow> (Inl MErrLeaseFenced, db)
     | Some old \<Rightarrow>
         if \<not> active_fence now f db \<or> tc_bound (tr_point old) \<noteq> tc_bound c \<or>
            tc_schema (tr_point old) \<noteq> tc_schema c \<or> tc_source (tr_point old) \<noteq> tc_source c
         then (Inl MErrLeaseFenced, db)
         else (let new = old\<lparr>tr_point := c, tr_lease := Some (lf_generation f, lf_token f)\<rparr> in
           if \<not> checkpoint_guard (map_option gr_phase (find_run (lf_run f) db)) old new \<or> \<not> checkpoint_valid c
           then (Inl MErrTargetTampered, db)
           else (Inr (), put_table new db))))"

definition set_phase :: "string \<Rightarrow> run_phase \<Rightarrow> instant \<Rightarrow> 'w mig_db \<Rightarrow> 'w mig_db" where
  "set_phase i p now db = db\<lparr>mg_runs := map (\<lambda>r.
     if gr_id r \<noteq> i then r
     else if p = PhaseCompleted then r\<lparr>gr_phase := PhaseCompleted, gr_completed := Some now\<rparr>
     else r\<lparr>gr_phase := p, gr_reconciled := Some now\<rparr>) (mg_runs db)\<rparr>"

text \<open>The guard of a run: its tables are complete, or it has a reconciliation receipt.\<close>

definition phase_allowed :: "string \<Rightarrow> run_phase \<Rightarrow> 'w mig_db \<Rightarrow> bool" where
  "phase_allowed i p db \<longleftrightarrow>
     (if p = PhaseCompleted
      then map_option gr_phase (find_run i db) = Some PhaseRunning \<and>
        list_all (\<lambda>t. tr_run t = i \<longrightarrow> tc_complete (tr_point t)) (mg_tables db)
      else map_option gr_phase (find_run i db) = Some PhaseCompleted \<and>
        i \<in> rc_run ` set (mg_reconciliations db)) \<and>
     active_lease i db = None"

definition mig_finish :: "instant \<Rightarrow> LeaseFence \<Rightarrow> run_phase \<Rightarrow> ('w, unit) mig_tx" where
  "mig_finish now f p = (\<lambda>db.
     if \<not> fence_valid f \<or> \<not> active_fence now f db then (Inl MErrLeaseFenced, db)
     else (let db1 = retire now (is_lease f) db in
       if \<not> phase_allowed (lf_run f) p db1 then (Inl MErrTargetTampered, db1)
       else (Inr (), set_phase (lf_run f) p now db1)))"

definition mig_Finish :: "instant \<Rightarrow> LeaseFence \<Rightarrow> ('w, unit) mig_tx" where
  "mig_Finish now f = mig_finish now f PhaseCompleted"

definition mig_MarkReconciled :: "instant \<Rightarrow> LeaseFence \<Rightarrow> ('w, unit) mig_tx" where
  "mig_MarkReconciled now f = mig_finish now f PhaseReconciled"

section \<open>Facts\<close>

text \<open>
  The facts are inserted under a guard that the fence is active, and are never changed. The
  columns that name the lease of a fact are not kept.
\<close>

definition row_key :: "RowReceipt \<Rightarrow> string \<times> string \<times> digest" where
  "row_key r = (wr_adapter r, wr_table r, wr_key r)"

definition find_row_receipt :: "string \<Rightarrow> string \<Rightarrow> digest \<Rightarrow> 'w mig_db \<Rightarrow> RowReceipt option" where
  "find_row_receipt a t k db = List.find (\<lambda>r. row_key r = (a, t, k)) (mg_receipts db)"

definition mig_FindRowReceipt :: "string \<Rightarrow> string \<Rightarrow> digest \<Rightarrow> ('w, RowReceipt option) mig_tx" where
  "mig_FindRowReceipt a t k = (\<lambda>db.
     if \<not> pg_text a \<or> \<not> pg_text t then (Inl MErrDependency, db) else (Inr (find_row_receipt a t k db), db))"

definition receipt_text :: "RowReceipt \<Rightarrow> bool" where
  "receipt_text r \<longleftrightarrow> pg_text (wr_adapter r) \<and> pg_text (wr_table r) \<and> pg_text (wr_operation r) \<and>
     pg_text (disposition_text (wr_disposition r))"

definition receipt_columns :: "RowReceipt \<Rightarrow> bool" where
  "receipt_columns r \<longleftrightarrow> disposition_valid (wr_disposition r) \<and> rune_count (wr_operation r) \<le> 128 \<and>
     (importing (wr_disposition r) \<longleftrightarrow> wr_operation r \<noteq> [])"

definition mig_AppendRowReceipt :: "instant \<Rightarrow> LeaseFence \<Rightarrow> RowReceipt \<Rightarrow> ('w, unit) mig_tx" where
  "mig_AppendRowReceipt now f r = (\<lambda>db.
     if \<not> receipt_text r \<or> \<not> pg_text (lf_run f) then (Inl MErrDependency, db)
     else if \<not> active_fence now f db then (Inl MErrLeaseFenced, db)
     else if \<not> receipt_columns r then (Inl MErrTargetTampered, db)
     else if row_key r \<in> row_key ` set (mg_receipts db) then (Inl MErrSourcePayloadConflict, db)
     else (Inr (), db\<lparr>mg_receipts := mg_receipts db @ [r]\<rparr>))"

definition mig_Quarantine :: "instant \<Rightarrow> LeaseFence \<Rightarrow> Quarantine \<Rightarrow> ('w, unit) mig_tx" where
  "mig_Quarantine now f q = (\<lambda>db.
     if \<not> pg_text (qu_adapter q) \<or> \<not> pg_text (qu_table q) \<or> \<not> pg_text (qu_reason q) \<or> \<not> pg_text (lf_run f)
     then (Inl MErrDependency, db)
     else if \<not> active_fence now f db then (Inl MErrLeaseFenced, db)
     else if \<not> run_text 256 (qu_reason q) \<or>
       (lf_run f, qu_adapter q, qu_table q, qu_key q) \<in>
         (\<lambda>(i, x). (i, qu_adapter x, qu_table x, qu_key x)) ` set (mg_quarantines db)
     then (Inl MErrTargetTampered, db)
     else (Inr (), db\<lparr>mg_quarantines := mg_quarantines db @ [(lf_run f, q)]\<rparr>))"

definition mig_Archive :: "instant \<Rightarrow> LeaseFence \<Rightarrow> Archive \<Rightarrow> ('w, unit) mig_tx" where
  "mig_Archive now f a = (\<lambda>db.
     if \<not> pg_text (ar_adapter a) \<or> \<not> pg_text (ar_table a) \<or> \<not> pg_text (lf_run f) then (Inl MErrDependency, db)
     else if \<not> active_fence now f db then (Inl MErrLeaseFenced, db)
     else if (lf_run f, ar_adapter a, ar_table a, ar_key a) \<in>
       (\<lambda>(i, x). (i, ar_adapter x, ar_table x, ar_key x)) ` set (mg_archives db)
     then (Inl MErrTargetTampered, db)
     else (Inr (), db\<lparr>mg_archives := mg_archives db @ [(lf_run f, a)]\<rparr>))"

section \<open>Results of a run\<close>

definition result_key :: "ResultReceipt \<Rightarrow> string \<times> string \<times> string \<times> digest" where
  "result_key r = (re_run r, row_key (re_row r))"

definition find_result :: "string \<Rightarrow> string \<Rightarrow> string \<Rightarrow> digest \<Rightarrow> 'w mig_db \<Rightarrow> ResultReceipt option" where
  "find_result i a t k db = List.find (\<lambda>r. result_key r = (i, a, t, k)) (mg_results db)"

definition mig_FindResultReceipt ::
  "string \<Rightarrow> string \<Rightarrow> string \<Rightarrow> digest \<Rightarrow> ('w, ResultReceipt option) mig_tx" where
  "mig_FindResultReceipt i a t k = (\<lambda>db.
     if \<not> pg_text i \<or> \<not> pg_text a \<or> \<not> pg_text t then (Inl MErrDependency, db)
     else (Inr (find_result i a t k db), db))"

text \<open>The row of a result has one mutation digest, that of its row receipt.\<close>

definition mig_AppendResultReceipt :: "instant \<Rightarrow> LeaseFence \<Rightarrow> ResultReceipt \<Rightarrow> ('w, unit) mig_tx" where
  "mig_AppendResultReceipt now f r = (\<lambda>db.
     if \<not> pg_text (re_run r) \<or> \<not> receipt_text (re_row r) \<or> \<not> pg_text (disposition_text (re_outcome r))
     then (Inl MErrDependency, db)
     else if \<not> active_fence now (f\<lparr>lf_run := re_run r\<rparr>) db then (Inl MErrLeaseFenced, db)
     else if re_outcome r \<noteq> wr_disposition (re_row r) \<or> result_key r \<in> result_key ` set (mg_results db) \<or>
       re_row r \<notin> set (mg_receipts db)
     then (Inl MErrTargetTampered, db)
     else (Inr (), db\<lparr>mg_results := mg_results db @ [r\<lparr>re_mutation := wr_mutation (re_row r)\<rparr>]\<rparr>))"

text \<open>The callers count the results of a run; the order of the list is that of their insertion.\<close>

definition run_results :: "string \<Rightarrow> 'w mig_db \<Rightarrow> ResultReceipt list" where
  "run_results i db = filter (\<lambda>r. re_run r = i) (mg_results db)"

definition mig_ListResultReceipts :: "string \<Rightarrow> ('w, ResultReceipt list) mig_tx" where
  "mig_ListResultReceipts i = (\<lambda>db.
     if \<not> pg_text i then (Inl MErrDependency, db) else (Inr (run_results i db), db))"

definition mig_AppendReconciliationReceipt ::
  "instant \<Rightarrow> LeaseFence \<Rightarrow> ReconciliationReceipt \<Rightarrow> ('w, unit) mig_tx" where
  "mig_AppendReconciliationReceipt now f r = (\<lambda>db.
     if \<not> pg_text (rc_run r) then (Inl MErrDependency, db)
     else if \<not> active_fence now (f\<lparr>lf_run := rc_run r\<rparr>) db then (Inl MErrLeaseFenced, db)
     else if rc_source_rows r \<noteq> rc_result_rows r \<or> rc_result_rows r \<noteq> rc_verified r \<or>
       rc_source_rows r < 0 \<or> max_int64 < rc_source_rows r \<or> rc_run r \<in> rc_run ` set (mg_reconciliations db)
     then (Inl MErrTargetTampered, db)
     else (Inr (), db\<lparr>mg_reconciliations := mg_reconciliations db @ [r]\<rparr>))"

definition mig_Readiness :: "string \<Rightarrow> ('w, Readiness) mig_tx" where
  "mig_Readiness i = (\<lambda>db.
     if \<not> pg_text i then (Inl MErrDependency, db)
     else (case find_run i db of
       None \<Rightarrow> (Inl MErrInvalidRun, db)
     | Some r \<Rightarrow>
         (let ts = run_tables i db; done = sum_list (map (tc_processed \<circ> tr_point) ts);
            pending = int (length (filter (\<lambda>t. \<not> tc_complete (tr_point t)) ts));
            results = int (length (run_results i db));
            quarantined = int (length (filter (\<lambda>x. wr_disposition (re_row x) = DispositionQuarantine) (run_results i db)));
            reconciled = i \<in> rc_run ` set (mg_reconciliations db)
          in if ts = [] then (Inl MErrInvalidRun, db)
             else if max_int64 < done then (Inl MErrDependency, db)
             else (Inr \<lparr>rd_run = i, rd_phase = gr_phase r,
               rd_ready = (gr_phase r = PhaseReconciled \<and> pending = 0 \<and> done = results \<and> quarantined = 0 \<and> reconciled),
               rd_pending = pending, rd_processed = done, rd_results = results, rd_quarantined = quarantined,
               rd_reconciled = reconciled\<rparr>, db))))"

section \<open>The operations of the target\<close>

text \<open>
  The operations belong to the domains: an operation changes their tables and a verification
  reads them.
\<close>

type_synonym 'w ApplyOperation = "LeaseFence \<Rightarrow> string \<Rightarrow> 'w \<Rightarrow> mig_error + 'w"
type_synonym 'w VerifyOperation = "ResultReceipt \<Rightarrow> 'w \<Rightarrow> mig_error + unit"

record 'w TargetRegistry =
  tg_apply :: "(string \<times> 'w ApplyOperation) list"
  tg_verify :: "(string \<times> 'w VerifyOperation) list"

fun register_target ::
  "(string \<times> 'w VerifyOperation option) list \<Rightarrow> (string \<times> 'w ApplyOperation option) list \<Rightarrow> 'w TargetRegistry \<Rightarrow>
   mig_error + 'w TargetRegistry" where
  "register_target vs [] reg = Inr reg"
| "register_target vs ((name, op) # ops) reg =
     (case (op, map_of vs name) of
       (Some f, Some (Some v)) \<Rightarrow>
         if name = [] then Inl MErrInvalidManifest
         else register_target vs ops (reg\<lparr>tg_apply := tg_apply reg @ [(name, f)], tg_verify := tg_verify reg @ [(name, v)]\<rparr>)
     | _ \<Rightarrow> Inl MErrInvalidManifest)"

definition NewTargetRegistry ::
  "(string \<times> 'w ApplyOperation option) list \<Rightarrow> (string \<times> 'w VerifyOperation option) list \<Rightarrow> mig_error + 'w TargetRegistry" where
  "NewTargetRegistry ops vs =
     (case register_target vs ops \<lparr>tg_apply = [], tg_verify = []\<rparr> of
       Inl e \<Rightarrow> Inl e
     | Inr reg \<Rightarrow> if tg_apply reg = [] \<or> length (tg_apply reg) \<noteq> length vs then Inl MErrInvalidManifest else Inr reg)"

definition target_apply :: "'w TargetRegistry \<Rightarrow> LeaseFence \<Rightarrow> MappedRow \<Rightarrow> 'w \<Rightarrow> mig_error + 'w" where
  "target_apply reg f m w =
     (if mp_operation m = [] \<or> mp_digest m = zero_digest then Inl MErrInvalidRun
      else (case map_of (tg_apply reg) (mp_operation m) of
        None \<Rightarrow> Inl MErrInvalidRun
      | Some op \<Rightarrow> op f (mp_payload m) w))"

definition target_Apply :: "'w TargetRegistry \<Rightarrow> LeaseFence \<Rightarrow> MappedRow \<Rightarrow> ('w, unit) mig_tx" where
  "target_Apply reg f m = (\<lambda>db. case target_apply reg f m (mg_target db) of
     Inl e \<Rightarrow> (Inl e, db) | Inr w \<Rightarrow> (Inr (), db\<lparr>mg_target := w\<rparr>))"

definition target_VerifyResultReceipt :: "'w TargetRegistry \<Rightarrow> ResultReceipt \<Rightarrow> ('w, unit) mig_tx" where
  "target_VerifyResultReceipt reg r = (\<lambda>db.
     if wr_operation (re_row r) = []
     then (if importing (wr_disposition (re_row r)) then Inl MErrTargetTampered else Inr (), db)
     else (case map_of (tg_verify reg) (wr_operation (re_row r)) of
       None \<Rightarrow> (Inl MErrTargetTampered, db)
     | Some v \<Rightarrow> (v r (mg_target db), db)))"

end
