(* ===== verification/MigrationService.thy ===== *)
theory MigrationService
  imports MigrationStore
begin

text \<open>
  The run and the reconciliation of a migration (\<^verbatim>\<open>internal/migration/service.go\<close>) over the
  interfaces of \<^verbatim>\<open>ports.go\<close>.

  A run is a sequence of units of work on a database that other processes change too: before the
  unit number \<open>k\<close> the others have turned the database \<open>d\<close> into \<open>os_between k d\<close>, and
  \<open>os_stamp k\<close> says what the unit meets: the instant of the database (one for the whole unit),
  the clock of the service, the random token, and whether the unit commits, is rolled back, or
  commits and loses its answer.
\<close>

section \<open>Units of work\<close>

datatype commit = Committed | RolledBack | AnswerLost

record mig_stamp =
  st_now :: instant
  st_clock :: instant
  st_token :: "digest option"
  st_commit :: commit

record 'd mig_outside =
  os_stamp :: "nat \<Rightarrow> mig_stamp"
  os_between :: "nat \<Rightarrow> 'd \<Rightarrow> 'd"

record 'd mig_world =
  wd_db :: 'd
  wd_tick :: nat

type_synonym ('d, 'a) mig_run = "('d mig_world, mig_error, 'a) tx"

definition unit_of_work ::
  "'d mig_outside \<Rightarrow> (mig_stamp \<Rightarrow> ('d, mig_error, 'a) tx) \<Rightarrow> ('d, 'a) mig_run" where
  "unit_of_work U body = (\<lambda>w.
     let k = wd_tick w; s = os_stamp U k; d = os_between U k (wd_db w) in
     case body s d of
       (Inl e, _) \<Rightarrow> (Inl e, \<lparr>wd_db = d, wd_tick = Suc k\<rparr>)
     | (Inr v, d') \<Rightarrow> (case st_commit s of
         Committed \<Rightarrow> (Inr v, \<lparr>wd_db = d', wd_tick = Suc k\<rparr>)
       | RolledBack \<Rightarrow> (Inl MErrDependency, \<lparr>wd_db = d, wd_tick = Suc k\<rparr>)
       | AnswerLost \<Rightarrow> (Inl MErrDependency, \<lparr>wd_db = d', wd_tick = Suc k\<rparr>)))"

section \<open>Ports and configuration\<close>

record 'd mig_ports =
  mp_Open :: "StartRun \<Rightarrow> ('d, mig_error, RunState) tx"
  mp_Load :: "string \<Rightarrow> ('d, mig_error, RunState) tx"
  mp_AcquireLease :: "mig_stamp \<Rightarrow> string \<Rightarrow> instant \<Rightarrow> int \<Rightarrow> ('d, mig_error, LeaseFence) tx"
  mp_RenewLease :: "mig_stamp \<Rightarrow> LeaseFence \<Rightarrow> instant \<Rightarrow> int \<Rightarrow> ('d, mig_error, LeaseFence) tx"
  mp_Advance :: "mig_stamp \<Rightarrow> LeaseFence \<Rightarrow> string \<Rightarrow> TableCheckpoint \<Rightarrow> ('d, mig_error, unit) tx"
  mp_Finish :: "mig_stamp \<Rightarrow> LeaseFence \<Rightarrow> ('d, mig_error, unit) tx"
  mp_MarkReconciled :: "mig_stamp \<Rightarrow> LeaseFence \<Rightarrow> ('d, mig_error, unit) tx"
  mp_FindRowReceipt :: "string \<Rightarrow> string \<Rightarrow> digest \<Rightarrow> ('d, mig_error, RowReceipt option) tx"
  mp_AppendRowReceipt :: "mig_stamp \<Rightarrow> LeaseFence \<Rightarrow> RowReceipt \<Rightarrow> ('d, mig_error, unit) tx"
  mp_FindResultReceipt :: "string \<Rightarrow> string \<Rightarrow> string \<Rightarrow> digest \<Rightarrow> ('d, mig_error, ResultReceipt option) tx"
  mp_AppendResultReceipt :: "mig_stamp \<Rightarrow> LeaseFence \<Rightarrow> ResultReceipt \<Rightarrow> ('d, mig_error, unit) tx"
  mp_ListResultReceipts :: "string \<Rightarrow> ('d, mig_error, ResultReceipt list) tx"
  mp_Apply :: "LeaseFence \<Rightarrow> MappedRow \<Rightarrow> ('d, mig_error, unit) tx"
  mp_Quarantine :: "mig_stamp \<Rightarrow> LeaseFence \<Rightarrow> Quarantine \<Rightarrow> ('d, mig_error, unit) tx"
  mp_Archive :: "mig_stamp \<Rightarrow> LeaseFence \<Rightarrow> Archive \<Rightarrow> ('d, mig_error, unit) tx"
  mp_AppendReconciliation :: "mig_stamp \<Rightarrow> LeaseFence \<Rightarrow> ReconciliationReceipt \<Rightarrow> ('d, mig_error, unit) tx"
  mp_Verify :: "ResultReceipt \<Rightarrow> ('d, mig_error, unit) tx"

definition pg_ports :: "'w TargetRegistry \<Rightarrow> 'w mig_db mig_ports" where
  "pg_ports reg = \<lparr>mp_Open = mig_Open, mp_Load = mig_Load,
     mp_AcquireLease = (\<lambda>s. mig_AcquireLease (st_now s) (st_token s)),
     mp_RenewLease = (\<lambda>s. mig_RenewLease (st_now s)), mp_Advance = (\<lambda>s. mig_Advance (st_now s)),
     mp_Finish = (\<lambda>s. mig_Finish (st_now s)), mp_MarkReconciled = (\<lambda>s. mig_MarkReconciled (st_now s)),
     mp_FindRowReceipt = mig_FindRowReceipt, mp_AppendRowReceipt = (\<lambda>s. mig_AppendRowReceipt (st_now s)),
     mp_FindResultReceipt = mig_FindResultReceipt,
     mp_AppendResultReceipt = (\<lambda>s. mig_AppendResultReceipt (st_now s)),
     mp_ListResultReceipts = mig_ListResultReceipts, mp_Apply = target_Apply reg,
     mp_Quarantine = (\<lambda>s. mig_Quarantine (st_now s)), mp_Archive = (\<lambda>s. mig_Archive (st_now s)),
     mp_AppendReconciliation = (\<lambda>s. mig_AppendReconciliationReceipt (st_now s)),
     mp_Verify = target_VerifyResultReceipt reg\<rparr>"

record mig_service =
  sv_env :: mig_env
  sv_mappings :: mapping_registry
  sv_policies :: policy_registry
  sv_ttl :: int
  sv_limit :: int

text \<open>A minute, in nanoseconds.\<close>

definition defaultLeaseTTL :: int where
  "defaultLeaseTTL = 60000000000"

definition defaultStreamLimit :: int where
  "defaultStreamLimit = 500"

definition NewMigrationService :: "mig_env \<Rightarrow> mapping_registry \<Rightarrow> policy_registry \<Rightarrow> mig_service" where
  "NewMigrationService E ms ps = \<lparr>sv_env = E, sv_mappings = ms, sv_policies = ps, sv_ttl = defaultLeaseTTL,
     sv_limit = defaultStreamLimit\<rparr>"

section \<open>Receipts of a row\<close>

definition bare_receipt ::
  "mig_env \<Rightarrow> AdapterDefinition \<Rightarrow> TableSpec \<Rightarrow> Policy \<Rightarrow> SourceRow \<Rightarrow> RowReceipt" where
  "bare_receipt E D t p row = \<lparr>wr_adapter = am_id (ad_manifest D), wr_table = ts_id t, wr_key = me_sha256 E (sr_key row),
     wr_payload = me_sha256 E (sr_payload row), wr_field = sr_field row, wr_disposition = po_disposition p,
     wr_mapping = ts_mapping t, wr_policy = ts_policy_digest t, wr_operation = [], wr_mutation = zero_digest\<rparr>"

definition receiptMutation :: "mig_env \<Rightarrow> RowReceipt \<Rightarrow> digest" where
  "receiptMutation E r = me_sha256 E (wr_adapter r @ CHR 0x00 # wr_table r @ CHR 0x00 #
     disposition_text (wr_disposition r) @ CHR 0x00 # wr_operation r @ CHR 0x00 # wr_key r @ wr_payload r @
     wr_field r @ wr_mapping r @ wr_policy r)"

definition result_of :: "string \<Rightarrow> RowReceipt \<Rightarrow> ResultReceipt" where
  "result_of i r = \<lparr>re_run = i, re_row = r, re_outcome = wr_disposition r, re_mutation = wr_mutation r\<rparr>"

definition appendRunReceipt ::
  "'d mig_ports \<Rightarrow> mig_stamp \<Rightarrow> LeaseFence \<Rightarrow> RowReceipt \<Rightarrow> ('d, mig_error, bool) tx" where
  "appendRunReceipt P s f r =
     and_then (mp_FindResultReceipt P (lf_run f) (wr_adapter r) (wr_table r) (wr_key r)) (\<lambda>found.
       case found of
         Some x \<Rightarrow> if x \<noteq> result_of (lf_run f) r then fail MErrTargetTampered else ret False
       | None \<Rightarrow> and_then (mp_AppendResultReceipt P s f (result_of (lf_run f) r)) (\<lambda>_. ret True))"

definition same_row :: "RowReceipt \<Rightarrow> RowReceipt \<Rightarrow> bool" where
  "same_row r r' \<longleftrightarrow> wr_payload r = wr_payload r' \<and> wr_field r = wr_field r' \<and>
     wr_disposition r = wr_disposition r' \<and> wr_mapping r = wr_mapping r' \<and> wr_policy r = wr_policy r'"

text \<open>
  What the disposition does with a new row: the operation and the mutation of its receipt. A
  mutation that is zero is replaced by the digest of the receipt.
\<close>

definition dispose ::
  "'d mig_ports \<Rightarrow> mig_stamp \<Rightarrow> AdapterDefinition \<Rightarrow> TableSpec \<Rightarrow> LeaseFence \<Rightarrow> SourceRow \<Rightarrow> RowReceipt \<Rightarrow>
   ('d, mig_error, string \<times> digest) tx" where
  "dispose P s D t f row r = (case wr_disposition r of
       DispositionArchive \<Rightarrow> and_then (mp_Archive P s f \<lparr>ar_adapter = wr_adapter r, ar_table = wr_table r,
         ar_key = wr_key r, ar_payload = wr_payload r, ar_field = wr_field r\<rparr>) (\<lambda>_. ret ([], zero_digest))
     | DispositionQuarantine \<Rightarrow> and_then (mp_Quarantine P s f \<lparr>qu_adapter = wr_adapter r, qu_table = wr_table r,
         qu_key = wr_key r, qu_payload = wr_payload r, qu_field = wr_field r, qu_reason = ''policy''\<rparr>)
         (\<lambda>_. ret ([], zero_digest))
     | DispositionSkip \<Rightarrow> ret ([], zero_digest)
     | DispositionOther _ \<Rightarrow> fail MErrUnknownPolicy
     | _ \<Rightarrow> and_then (liftE (ad_map D t row)) (\<lambda>m.
         if mp_operation m = [] \<or> mp_digest m = zero_digest then fail MErrInvalidRun
         else and_then (mp_Apply P f m) (\<lambda>_. ret (mp_operation m, mp_digest m))))"

definition with_mutation :: "mig_env \<Rightarrow> RowReceipt \<Rightarrow> string \<Rightarrow> digest \<Rightarrow> RowReceipt" where
  "with_mutation E r op mut = (let r1 = r\<lparr>wr_operation := op, wr_mutation := mut\<rparr> in
     if mut = zero_digest then r1\<lparr>wr_mutation := receiptMutation E r1\<rparr> else r1)"

text \<open>The answer: whether the run has a new result, whether the row is a replay, its disposition.\<close>

definition applyRow ::
  "mig_env \<Rightarrow> 'd mig_ports \<Rightarrow> mig_stamp \<Rightarrow> AdapterDefinition \<Rightarrow> TableSpec \<Rightarrow> Policy \<Rightarrow> LeaseFence \<Rightarrow> SourceRow \<Rightarrow>
   ('d, mig_error, bool \<times> bool \<times> disposition) tx" where
  "applyRow E P s D t p f row =
     (if \<not> fence_valid f then fail MErrLeaseFenced
      else (let r = bare_receipt E D t p row in
        and_then (mp_FindRowReceipt P (wr_adapter r) (wr_table r) (wr_key r)) (\<lambda>found. case found of
          Some old \<Rightarrow>
            if \<not> same_row old r then fail MErrSourcePayloadConflict
            else if wr_mutation old = zero_digest then fail MErrTargetTampered
            else and_then (appendRunReceipt P s f old) (\<lambda>recorded. ret (recorded, True, wr_disposition old))
        | None \<Rightarrow>
            and_then (dispose P s D t f row r) (\<lambda>(op, mut). let r' = with_mutation E r op mut in
              and_then (mp_AppendRowReceipt P s f r') (\<lambda>_.
              and_then (appendRunReceipt P s f r') (\<lambda>recorded. ret (recorded, False, po_disposition p)))))))"

section \<open>A page of a table\<close>

record RunResult =
  rr_imported :: int
  rr_archived :: int
  rr_quarantined :: int
  rr_skipped :: int
  rr_rebuilt :: int
  rr_reset :: int
  rr_replayed :: int

definition no_result :: RunResult where
  "no_result = \<lparr>rr_imported = 0, rr_archived = 0, rr_quarantined = 0, rr_skipped = 0, rr_rebuilt = 0, rr_reset = 0,
     rr_replayed = 0\<rparr>"

fun incrementRunResult :: "disposition \<Rightarrow> RunResult \<Rightarrow> RunResult" where
  "incrementRunResult DispositionImport r = r\<lparr>rr_imported := rr_imported r + 1\<rparr>"
| "incrementRunResult DispositionArchive r = r\<lparr>rr_archived := rr_archived r + 1\<rparr>"
| "incrementRunResult DispositionQuarantine r = r\<lparr>rr_quarantined := rr_quarantined r + 1\<rparr>"
| "incrementRunResult DispositionSkip r = r\<lparr>rr_skipped := rr_skipped r + 1\<rparr>"
| "incrementRunResult DispositionRebuild r = r\<lparr>rr_rebuilt := rr_rebuilt r + 1\<rparr>"
| "incrementRunResult DispositionReset r = r\<lparr>rr_reset := rr_reset r + 1\<rparr>"
| "incrementRunResult (DispositionOther _) r = r"

definition count_row :: "bool \<Rightarrow> bool \<Rightarrow> disposition \<Rightarrow> RunResult \<Rightarrow> RunResult" where
  "count_row recorded replayed d r =
     (if replayed then r\<lparr>rr_replayed := rr_replayed r + 1\<rparr>
      else if recorded then incrementRunResult d r else r)"

definition find_policy :: "mig_service \<Rightarrow> TableSpec \<Rightarrow> mig_error + Policy" where
  "find_policy sv t = (case map_of (sv_policies sv) (ts_policy t) of
     None \<Rightarrow> Inl MErrUnknownPolicy
   | Some p \<Rightarrow> if policy_valid p then Inr p else Inl MErrUnknownPolicy)"

text \<open>A row continues the stream when the adapter orders its cursor after the last one.\<close>

definition continues :: "AdapterDefinition \<Rightarrow> string \<Rightarrow> string \<Rightarrow> bool" where
  "continues D after c \<longleftrightarrow> after = [] \<or> (case ad_compare D after c of Inl _ \<Rightarrow> False | Inr k \<Rightarrow> k < 0)"

definition next_point :: "TableCheckpoint \<Rightarrow> SourceRow \<Rightarrow> bool \<Rightarrow> TableCheckpoint" where
  "next_point c row recorded = c\<lparr>tc_cursor := sr_cursor row,
     tc_processed := (if recorded then tc_processed c + 1 else tc_processed c)\<rparr>"

record page_state =
  pa_point :: TableCheckpoint
  pa_seen :: int
  pa_result :: RunResult

definition row_unit ::
  "mig_service \<Rightarrow> 'd mig_ports \<Rightarrow> AdapterDefinition \<Rightarrow> TableSpec \<Rightarrow> Policy \<Rightarrow> LeaseFence \<Rightarrow> SourceRow \<Rightarrow>
   TableCheckpoint \<Rightarrow> mig_stamp \<Rightarrow> ('d, mig_error, bool \<times> bool \<times> disposition) tx" where
  "row_unit sv P D t p f row c s =
     and_then (applyRow (sv_env sv) P s D t p f row) (\<lambda>(recorded, replayed, d).
       and_then (mp_Advance P s f (ts_id t) (next_point c row recorded)) (\<lambda>_. ret (recorded, replayed, d)))"

definition take_row ::
  "mig_service \<Rightarrow> 'd mig_ports \<Rightarrow> 'd mig_outside \<Rightarrow> AdapterDefinition \<Rightarrow> TableSpec \<Rightarrow> LeaseFence \<Rightarrow>
   SourceRow \<Rightarrow> page_state \<Rightarrow> ('d, page_state) mig_run" where
  "take_row sv P U D t f row st =
     (if sv_limit sv < pa_seen st + 1 \<or> \<not> row_valid row \<or> \<not> continues D (tc_cursor (pa_point st)) (sr_cursor row)
      then fail MErrUnboundedStream
      else and_then (liftE (find_policy sv t)) (\<lambda>p.
        and_then (unit_of_work U (row_unit sv P D t p f row (pa_point st))) (\<lambda>(recorded, replayed, d).
          ret \<lparr>pa_point = next_point (pa_point st) row recorded, pa_seen = pa_seen st + 1,
            pa_result = count_row recorded replayed d (pa_result st)\<rparr>)))"

fun feed :: "('r \<Rightarrow> 's \<Rightarrow> ('d, 's) mig_run) \<Rightarrow> 'r list \<Rightarrow> 's \<Rightarrow> ('d, 's) mig_run" where
  "feed k [] st = ret st"
| "feed k (r # rs) st = and_then (k r st) (feed k rs)"

definition streamed ::
  "('r \<Rightarrow> 's \<Rightarrow> ('d, 's) mig_run) \<Rightarrow> 'r list \<times> (mig_error + bool) \<Rightarrow> 's \<Rightarrow> ('d, 's \<times> bool) mig_run" where
  "streamed k offer st =
     and_then (feed k (fst offer) st) (\<lambda>st'. and_then (liftE (snd offer)) (\<lambda>complete. ret (st', complete)))"

definition run_page ::
  "mig_service \<Rightarrow> 'd mig_ports \<Rightarrow> 'd mig_outside \<Rightarrow> AdapterDefinition \<Rightarrow> TableSpec \<Rightarrow>
   TableCheckpoint \<times> LeaseFence \<times> RunResult \<Rightarrow> ('d, TableCheckpoint \<times> LeaseFence \<times> RunResult) mig_run" where
  "run_page sv P U D t = (\<lambda>(c, f, res).
     and_then (unit_of_work U (\<lambda>s. mp_RenewLease P s f (st_clock s) (sv_ttl sv))) (\<lambda>f'.
     and_then (streamed (take_row sv P U D t f') (ad_stream D t (tc_bound c) (tc_cursor c) (sv_limit sv))
       \<lparr>pa_point = c, pa_seen = 0, pa_result = res\<rparr>) (\<lambda>(st, complete).
       if pa_seen st = 0 \<and> \<not> complete then fail MErrUnboundedStream
       else (let c' = (pa_point st)\<lparr>tc_complete := complete\<rparr> in
         and_then (unit_of_work U (\<lambda>s. mp_Advance P s f' (ts_id t) c')) (\<lambda>_. ret (c', f', pa_result st))))))"

partial_function (option) runTable ::
  "mig_service \<Rightarrow> 'd mig_ports \<Rightarrow> 'd mig_outside \<Rightarrow> AdapterDefinition \<Rightarrow> TableSpec \<Rightarrow>
   TableCheckpoint \<times> LeaseFence \<times> RunResult \<Rightarrow> 'd mig_world \<Rightarrow>
   ((mig_error + TableCheckpoint \<times> LeaseFence \<times> RunResult) \<times> 'd mig_world) option" where
  "runTable sv P U D t st w =
     (if tc_complete (fst st) then Some (Inr st, w)
      else (case run_page sv P U D t st w of
        (Inl e, w') \<Rightarrow> Some (Inl e, w')
      | (Inr st', w') \<Rightarrow> runTable sv P U D t st' w'))"

declare runTable.simps [code]

section \<open>A run\<close>

fun fixed_bounds_index :: "TableBound list \<Rightarrow> (string \<times> TableBound) list \<Rightarrow> mig_error + (string \<times> TableBound) list" where
  "fixed_bounds_index [] acc = Inr acc"
| "fixed_bounds_index (b # bs) acc =
     (if tb_table b = [] \<or> tb_source b = [] \<or> \<not> bound_valid (tb_bound b) \<or> map_of acc (tb_table b) \<noteq> None
      then Inl MErrSourceDrift else fixed_bounds_index bs ((tb_table b, b) # acc))"

fun fixed_bounds_of :: "(string \<times> TableBound) list \<Rightarrow> TableSpec list \<Rightarrow> mig_error + TableBound list" where
  "fixed_bounds_of m [] = Inr []"
| "fixed_bounds_of m (t # ts) =
     (case map_of m (ts_id t) of
       None \<Rightarrow> Inl MErrSourceDrift
     | Some b \<Rightarrow>
         if tb_source b \<noteq> ts_source t \<or> tb_schema b \<noteq> ts_schema t then Inl MErrSourceDrift
         else (case fixed_bounds_of m ts of
           Inl e \<Rightarrow> Inl e
         | Inr rest \<Rightarrow> Inr (\<lparr>tb_table = ts_id t, tb_source = tb_source b, tb_schema = tb_schema b,
             tb_bound = tb_bound b\<rparr> # rest)))"

definition fixedBounds :: "AdapterManifest \<Rightarrow> SourcePreflight \<Rightarrow> mig_error + TableBound list" where
  "fixedBounds m pf =
     (if length (sp_bounds pf) \<noteq> length (am_tables m) then Inl MErrSourceDrift
      else (case fixed_bounds_index (sp_bounds pf) [] of
        Inl e \<Rightarrow> Inl e
      | Inr byTable \<Rightarrow> fixed_bounds_of byTable (am_tables m)))"

fun check_tables :: "mig_service \<Rightarrow> AdapterDefinition \<Rightarrow> TableSpec list \<Rightarrow> mig_error + unit" where
  "check_tables sv D [] = Inr ()"
| "check_tables sv D (t # ts) =
     (if ad_mapping D (ts_id t) \<noteq> ts_mapping t then Inl MErrSourceDrift
      else (case find_policy sv t of
        Inl e \<Rightarrow> Inl e
      | Inr p \<Rightarrow>
          if policy_digest (sv_env sv) p \<noteq> Inr (ts_policy_digest t) then Inl MErrSourceDrift
          else check_tables sv D ts))"

text \<open>Everything that a run checks before its first unit of work: its adapter and its start.\<close>

definition prepare_run :: "mig_service \<Rightarrow> string \<Rightarrow> string \<Rightarrow> mig_error + AdapterDefinition \<times> StartRun" where
  "prepare_run sv i a =
     (if i = [] \<or> a = [] \<or> sv_ttl sv \<le> 0 \<or> sv_limit sv < 1 then Inl MErrInvalidRun
      else (case map_of (sv_mappings sv) a of
        None \<Rightarrow> Inl MErrUnknownAdapter
      | Some D \<Rightarrow> (let m = ad_manifest D in
          if am_id m \<noteq> a \<or> \<not> manifest_valid m then Inl MErrInvalidManifest
          else (case check_tables sv D (am_tables m) of
            Inl e \<Rightarrow> Inl e
          | Inr _ \<Rightarrow> (case ad_preflight D of
              Inl e \<Rightarrow> Inl e
            | Inr pf \<Rightarrow>
                if sp_identity pf \<noteq> am_source m \<or> sp_schema pf \<noteq> am_schema m then Inl MErrSourceDrift
                else (case fixedBounds m pf of
                  Inl e \<Rightarrow> Inl e
                | Inr bs \<Rightarrow> (case manifest_digest (sv_env sv) m of
                    Inl e \<Rightarrow> Inl e
                  | Inr dg \<Rightarrow> Inr (D, \<lparr>sn_id = i, sn_adapter = a, sn_source = am_source m, sn_schema = am_schema m,
                      sn_manifest = dg, sn_bounds = bs\<rparr>))))))))"

definition open_unit ::
  "mig_service \<Rightarrow> 'd mig_ports \<Rightarrow> StartRun \<Rightarrow> mig_stamp \<Rightarrow> ('d, mig_error, RunState \<times> LeaseFence) tx" where
  "open_unit sv P start s =
     and_then (mp_Open P start) (\<lambda>state.
       and_then (mp_AcquireLease P s (sn_id start) (st_clock s) (sv_ttl sv)) (\<lambda>f. ret (state, f)))"

fun run_each ::
  "mig_service \<Rightarrow> 'd mig_ports \<Rightarrow> 'd mig_outside \<Rightarrow> AdapterDefinition \<Rightarrow> RunState \<Rightarrow> TableSpec list \<Rightarrow>
   LeaseFence \<times> RunResult \<Rightarrow> 'd mig_world \<Rightarrow> ((mig_error + LeaseFence \<times> RunResult) \<times> 'd mig_world) option" where
  "run_each sv P U D state [] st w = Some (Inr st, w)"
| "run_each sv P U D state (t # ts) st w =
     (case map_of (rs_tables state) (ts_id t) of
       None \<Rightarrow> Some (Inl MErrInvalidRun, w)
     | Some c \<Rightarrow>
         if tc_complete c then run_each sv P U D state ts st w
         else (case runTable sv P U D t (c, st) w of
           None \<Rightarrow> None
         | Some (Inl e, w') \<Rightarrow> Some (Inl e, w')
         | Some (Inr (c', st'), w') \<Rightarrow> run_each sv P U D state ts st' w'))"

definition Run ::
  "mig_service \<Rightarrow> 'd mig_ports \<Rightarrow> 'd mig_outside \<Rightarrow> string \<Rightarrow> string \<Rightarrow> 'd mig_world \<Rightarrow>
   ((mig_error + RunResult) \<times> 'd mig_world) option" where
  "Run sv P U i a w =
     (case prepare_run sv i a of
       Inl e \<Rightarrow> Some (Inl e, w)
     | Inr (D, start) \<Rightarrow> (case unit_of_work U (open_unit sv P start) w of
         (Inl e, w1) \<Rightarrow> Some (Inl e, w1)
       | (Inr (state, f), w1) \<Rightarrow> (case run_each sv P U D state (am_tables (ad_manifest D)) (f, no_result) w1 of
           None \<Rightarrow> None
         | Some (Inl e, w2) \<Rightarrow> Some (Inl e, w2)
         | Some (Inr (f', res), w2) \<Rightarrow> (case unit_of_work U (\<lambda>s. mp_Finish P s f') w2 of
             (Inl e, w3) \<Rightarrow> Some (Inl e, w3)
           | (Inr _, w3) \<Rightarrow> Some (Inr res, w3)))))"

end
