(* ===== verification/MigrationReconcile.thy ===== *)
theory MigrationReconcile
  imports MigrationService
begin

text \<open>
  The reconciliation of a completed run with its source
  (\<^verbatim>\<open>internal/migration/service.go\<close>): every row of the source has the expected receipts, the
  target verifies each, and the counts agree. \<open>rp_written\<close> is what was written to the hash of
  the comparison.
\<close>

definition expectedReceipt ::
  "mig_env \<Rightarrow> AdapterDefinition \<Rightarrow> TableSpec \<Rightarrow> Policy \<Rightarrow> SourceRow \<Rightarrow> mig_error + RowReceipt" where
  "expectedReceipt E D t p row = (let r = bare_receipt E D t p row in
     if importing (po_disposition p)
     then (case ad_map D t row of
         Inl e \<Rightarrow> Inl e
       | Inr m \<Rightarrow>
           if mp_operation m = [] \<or> mp_digest m = zero_digest then Inl MErrInvalidRun
           else Inr (r\<lparr>wr_operation := mp_operation m, wr_mutation := mp_digest m\<rparr>))
     else Inr (r\<lparr>wr_mutation := receiptMutation E r\<rparr>))"

definition sameUpperBound :: "UpperBound \<Rightarrow> UpperBound \<Rightarrow> bool" where
  "sameUpperBound l r \<longleftrightarrow> ub_empty l = ub_empty r \<and> ub_value l = ub_value r"

definition resultReceiptKey :: "string \<Rightarrow> string \<Rightarrow> digest \<Rightarrow> string" where
  "resultReceiptKey a t k = a @ CHR 0x00 # t @ CHR 0x00 # k"

definition comparison_text :: "ResultReceipt \<Rightarrow> string" where
  "comparison_text x = (let r = re_row x in
     resultReceiptKey (wr_adapter r) (wr_table r) (wr_key r) @ CHR 0x00 # wr_payload r @ wr_field r @ wr_mapping r @
     wr_policy r @ wr_mutation r @ disposition_text (wr_disposition r) @ CHR 0x00 # wr_operation r)"

record replay_state =
  rp_after :: string
  rp_seen :: int
  rp_rows :: int
  rp_total :: int
  rp_written :: string

definition verify_unit :: "'d mig_ports \<Rightarrow> string \<Rightarrow> RowReceipt \<Rightarrow> ('d, mig_error, ResultReceipt) tx" where
  "verify_unit P i r =
     and_then (mp_FindRowReceipt P (wr_adapter r) (wr_table r) (wr_key r)) (\<lambda>stored.
     if stored \<noteq> Some r then fail MErrTargetTampered
     else and_then (mp_FindResultReceipt P i (wr_adapter r) (wr_table r) (wr_key r)) (\<lambda>found.
       if found \<noteq> Some (result_of i r) then fail MErrTargetTampered
       else and_then (mp_Verify P (result_of i r)) (\<lambda>_. ret (result_of i r))))"

definition verify_row ::
  "mig_service \<Rightarrow> 'd mig_ports \<Rightarrow> 'd mig_outside \<Rightarrow> AdapterDefinition \<Rightarrow> string \<Rightarrow> TableSpec \<Rightarrow> Policy \<Rightarrow>
   SourceRow \<Rightarrow> replay_state \<Rightarrow> ('d, replay_state) mig_run" where
  "verify_row sv P U D i t p row st =
     (if sv_limit sv < rp_seen st + 1 \<or> \<not> row_valid row \<or> \<not> continues D (rp_after st) (sr_cursor row)
      then fail MErrUnboundedStream
      else and_then (liftE (expectedReceipt (sv_env sv) D t p row)) (\<lambda>r.
        and_then (unit_of_work U (\<lambda>_. verify_unit P i r)) (\<lambda>x.
          ret \<lparr>rp_after = sr_cursor row, rp_seen = rp_seen st + 1, rp_rows = rp_rows st + 1,
            rp_total = rp_total st + 1, rp_written = rp_written st @ comparison_text x\<rparr>)))"

definition verify_page ::
  "mig_service \<Rightarrow> 'd mig_ports \<Rightarrow> 'd mig_outside \<Rightarrow> AdapterDefinition \<Rightarrow> string \<Rightarrow> TableSpec \<Rightarrow> Policy \<Rightarrow> UpperBound \<Rightarrow>
   LeaseFence \<times> replay_state \<Rightarrow> ('d, bool \<times> LeaseFence \<times> replay_state) mig_run" where
  "verify_page sv P U D i t p ub = (\<lambda>(f, st).
     and_then (unit_of_work U (\<lambda>s. mp_RenewLease P s f (st_clock s) (sv_ttl sv))) (\<lambda>f'.
     and_then (streamed (verify_row sv P U D i t p) (ad_stream D t ub (rp_after st) (sv_limit sv)) (st\<lparr>rp_seen := 0\<rparr>))
       (\<lambda>(st', complete).
         if rp_seen st' = 0 \<and> \<not> complete then fail MErrUnboundedStream else ret (complete, f', st'))))"

partial_function (option) verify_pages ::
  "mig_service \<Rightarrow> 'd mig_ports \<Rightarrow> 'd mig_outside \<Rightarrow> AdapterDefinition \<Rightarrow> string \<Rightarrow> TableSpec \<Rightarrow> Policy \<Rightarrow> UpperBound \<Rightarrow>
   LeaseFence \<times> replay_state \<Rightarrow> 'd mig_world \<Rightarrow> ((mig_error + LeaseFence \<times> replay_state) \<times> 'd mig_world) option" where
  "verify_pages sv P U D i t p ub st w =
     (case verify_page sv P U D i t p ub st w of
       (Inl e, w') \<Rightarrow> Some (Inl e, w')
     | (Inr (complete, st'), w') \<Rightarrow>
         if complete then Some (Inr st', w') else verify_pages sv P U D i t p ub st' w')"

declare verify_pages.simps [code]

text \<open>A table starts from no cursor and no rows; the total runs over all tables.\<close>

definition table_start :: "replay_state \<Rightarrow> replay_state" where
  "table_start st = st\<lparr>rp_after := [], rp_rows := 0\<rparr>"

definition table_agrees :: "TableCheckpoint \<Rightarrow> replay_state \<Rightarrow> bool" where
  "table_agrees c st \<longleftrightarrow> rp_rows st = tc_processed c \<and> (0 < rp_rows st \<longrightarrow> rp_after st = tc_cursor c) \<and>
     (rp_rows st = 0 \<longrightarrow> tc_cursor c = [])"

definition verify_table_policy ::
  "mig_service \<Rightarrow> RunState \<Rightarrow> TableBound list \<Rightarrow> TableSpec \<Rightarrow> mig_error + TableCheckpoint \<times> Policy" where
  "verify_table_policy sv state bs t =
     (case (map_of (rs_tables state) (ts_id t), map_of (rev (map (\<lambda>b. (tb_table b, tb_bound b)) bs)) (ts_id t)) of
       (Some c, Some ub) \<Rightarrow>
         if tc_source c \<noteq> ts_source t \<or> tc_schema c \<noteq> ts_schema t \<or> \<not> tc_complete c \<or>
            \<not> sameUpperBound (tc_bound c) ub
         then Inl MErrSourceDrift
         else (case find_policy sv t of
           Inl e \<Rightarrow> Inl e
         | Inr p \<Rightarrow>
             if policy_digest (sv_env sv) p \<noteq> Inr (ts_policy_digest t) then Inl MErrSourceDrift else Inr (c, p))
     | _ \<Rightarrow> Inl MErrSourceDrift)"

fun verify_tables ::
  "mig_service \<Rightarrow> 'd mig_ports \<Rightarrow> 'd mig_outside \<Rightarrow> AdapterDefinition \<Rightarrow> RunState \<Rightarrow> TableBound list \<Rightarrow> TableSpec list \<Rightarrow>
   LeaseFence \<times> replay_state \<Rightarrow> 'd mig_world \<Rightarrow> ((mig_error + LeaseFence \<times> replay_state) \<times> 'd mig_world) option" where
  "verify_tables sv P U D state bs [] st w = Some (Inr st, w)"
| "verify_tables sv P U D state bs (t # ts) (f, st) w =
     (case verify_table_policy sv state bs t of
       Inl e \<Rightarrow> Some (Inl e, w)
     | Inr (c, p) \<Rightarrow> (case verify_pages sv P U D (rs_id state) t p (tc_bound c) (f, table_start st) w of
         None \<Rightarrow> None
       | Some (Inl e, w') \<Rightarrow> Some (Inl e, w')
       | Some (Inr (f', st'), w') \<Rightarrow>
           if \<not> table_agrees c st' then Some (Inl MErrTargetTampered, w')
           else verify_tables sv P U D state bs ts (f', st') w'))"

definition replay_start :: replay_state where
  "replay_start = \<lparr>rp_after = [], rp_seen = 0, rp_rows = 0, rp_total = 0, rp_written = []\<rparr>"

definition prepare_reconcile :: "mig_service \<Rightarrow> RunState \<Rightarrow> mig_error + AdapterDefinition \<times> TableBound list" where
  "prepare_reconcile sv state =
     (case map_of (sv_mappings sv) (rs_adapter state) of
       None \<Rightarrow> Inl MErrUnknownAdapter
     | Some D \<Rightarrow> (let m = ad_manifest D in
         if manifest_digest (sv_env sv) m \<noteq> Inr (rs_manifest state) \<or> am_source m \<noteq> rs_source state \<or>
            am_schema m \<noteq> rs_schema state \<or> \<not> list_all (\<lambda>t. ad_mapping D (ts_id t) = ts_mapping t) (am_tables m)
         then Inl MErrSourceDrift
         else (case ad_preflight D of
           Inl e \<Rightarrow> Inl e
         | Inr pf \<Rightarrow>
             if sp_identity pf \<noteq> rs_source state \<or> sp_schema pf \<noteq> rs_schema state then Inl MErrSourceDrift
             else (case fixedBounds m pf of Inl e \<Rightarrow> Inl e | Inr bs \<Rightarrow> Inr (D, bs)))))"

definition reconcileSource ::
  "mig_service \<Rightarrow> 'd mig_ports \<Rightarrow> 'd mig_outside \<Rightarrow> RunState \<Rightarrow> LeaseFence \<Rightarrow> 'd mig_world \<Rightarrow>
   ((mig_error + LeaseFence \<times> replay_state) \<times> 'd mig_world) option" where
  "reconcileSource sv P U state f w =
     (case prepare_reconcile sv state of
       Inl e \<Rightarrow> Some (Inl e, w)
     | Inr (D, bs) \<Rightarrow> verify_tables sv P U D state bs (am_tables (ad_manifest D)) (f, replay_start) w)"

definition settle_unit ::
  "mig_service \<Rightarrow> 'd mig_ports \<Rightarrow> string \<Rightarrow> LeaseFence \<Rightarrow> replay_state \<Rightarrow> int \<Rightarrow> mig_stamp \<Rightarrow> ('d, mig_error, unit) tx" where
  "settle_unit sv P i f st results s =
     and_then (mp_AppendReconciliation P s f \<lparr>rc_run = i, rc_source_rows = rp_total st, rc_result_rows = results,
         rc_verified = rp_total st, rc_comparison = me_sha256 (sv_env sv) (rp_written st)\<rparr>)
       (\<lambda>_. mp_MarkReconciled P s f)"

definition Reconcile ::
  "mig_service \<Rightarrow> 'd mig_ports \<Rightarrow> 'd mig_outside \<Rightarrow> string \<Rightarrow> 'd mig_world \<Rightarrow>
   ((mig_error + unit) \<times> 'd mig_world) option" where
  "Reconcile sv P U i w =
     (if i = [] \<or> sv_ttl sv \<le> 0 \<or> sv_limit sv < 1 then Some (Inl MErrInvalidRun, w)
      else (case unit_of_work U (\<lambda>_. mp_Load P i) w of
        (Inl e, w1) \<Rightarrow> Some (Inl e, w1)
      | (Inr state, w1) \<Rightarrow>
          if rs_phase state \<noteq> PhaseCompleted then Some (Inl MErrTargetTampered, w1)
          else (case unit_of_work U (\<lambda>s. mp_AcquireLease P s i (st_clock s) (sv_ttl sv)) w1 of
            (Inl e, w2) \<Rightarrow> Some (Inl e, w2)
          | (Inr f, w2) \<Rightarrow> (case reconcileSource sv P U state f w2 of
              None \<Rightarrow> None
            | Some (Inl e, w3) \<Rightarrow> Some (Inl e, w3)
            | Some (Inr (f', st), w3) \<Rightarrow> (case unit_of_work U (\<lambda>_. mp_ListResultReceipts P i) w3 of
                (Inl e, w4) \<Rightarrow> Some (Inl e, w4)
              | (Inr xs, w4) \<Rightarrow>
                  if int (length xs) \<noteq> rp_total st then Some (Inl MErrTargetTampered, w4)
                  else (case unit_of_work U (settle_unit sv P i f' st (int (length xs))) w4 of
                    (Inl e, w5) \<Rightarrow> Some (Inl e, w5)
                  | (Inr _, w5) \<Rightarrow> Some (Inr (), w5)))))))"

end
