(* ===== verification/MigrationFacts.thy ===== *)
theory MigrationFacts
  imports MigrationReconcile
begin

text \<open>
  What each operation of the migration store leaves behind when it succeeds, and the invariant of
  the tables: leases are unique and a run has at most one active one, facts are unique, and a
  result is about a row receipt that is there.
\<close>

named_theorems mig_D "what a successful operation of the store found and left"

section \<open>Leases\<close>

definition holds :: "digest \<Rightarrow> string \<Rightarrow> 'w mig_db \<Rightarrow> bool" where
  "holds tok i db \<longleftrightarrow> (\<exists>l \<in> set (mg_leases db). lr_fence l = tok \<and> lr_run l = i \<and> lr_active l)"

definition issued :: "digest \<Rightarrow> string \<Rightarrow> 'w mig_db \<Rightarrow> bool" where
  "issued tok i db \<longleftrightarrow> (\<exists>l \<in> set (mg_leases db). lr_fence l = tok \<and> lr_run l = i)"

lemma holds_issued: "holds tok i db \<Longrightarrow> issued tok i db"
  unfolding holds_def issued_def by blast

lemma active_fence_holds: "active_fence now f db \<Longrightarrow> holds (lf_token f) (lf_run f) db"
  unfolding active_fence_def holds_def is_lease_def list_ex_iff by blast

definition known_run :: "string \<Rightarrow> 'w mig_db \<Rightarrow> bool" where
  "known_run i db \<longleftrightarrow> i \<in> gr_id ` set (mg_runs db)"

lemma find_run_None: "find_run i db = None \<longleftrightarrow> \<not> known_run i db"
  unfolding find_run_def known_run_def find_None_iff by blast

lemma find_run_Some: "find_run i db = Some r \<Longrightarrow> known_run i db \<and> gr_id r = i \<and> r \<in> set (mg_runs db)"
  unfolding find_run_def known_run_def find_Some_iff by force

definition leases_ok :: "'w mig_db \<Rightarrow> bool" where
  "leases_ok db \<longleftrightarrow> distinct (map lr_fence (mg_leases db)) \<and>
     (\<forall>l \<in> set (mg_leases db). \<forall>l' \<in> set (mg_leases db).
        lr_run l = lr_run l' \<and> lr_active l \<and> lr_active l' \<longrightarrow> l = l') \<and>
     (\<forall>l \<in> set (mg_leases db). known_run (lr_run l) db)"

lemma one_holder:
  assumes "leases_ok db" "holds a i db" "holds b i db"
  shows "a = b"
  using assms unfolding leases_ok_def holds_def by blast

lemma holds_run: "leases_ok db \<Longrightarrow> holds tok i db \<Longrightarrow> known_run i db"
  unfolding leases_ok_def holds_def by blast

definition lease_step :: "lease_row \<Rightarrow> lease_row \<Rightarrow> bool" where
  "lease_step l l' \<longleftrightarrow> lr_fence l' = lr_fence l \<and> lr_run l' = lr_run l \<and> (lr_active l' \<longrightarrow> lr_active l)"

text \<open>Renewing, and retiring: a map over the leases that keeps who they are and activates none.\<close>

lemma map_leases:
  assumes ok: "leases_ok db" and runs: "mg_runs db' = mg_runs db"
    and leases: "mg_leases db' = map g (mg_leases db)" and g: "\<And>l. lease_step l (g l)"
  shows "leases_ok db'" and "issued tok i db' = issued tok i db" and "holds tok i db' \<Longrightarrow> holds tok i db"
proof -
  have g': "lr_fence (g l) = lr_fence l" "lr_run (g l) = lr_run l" "lr_active (g l) \<Longrightarrow> lr_active l" for l
    using g [of l] unfolding lease_step_def by blast+
  have "map lr_fence (map g (mg_leases db)) = map lr_fence (mg_leases db)" using g' by simp
  then show "leases_ok db'"
    using ok unfolding leases_ok_def leases set_map ball_simps known_run_def runs
    by (simp only: g') (metis g'(3))
  show "issued tok i db' = issued tok i db" unfolding issued_def leases by (simp add: g')
  show "holds tok i db' \<Longrightarrow> holds tok i db" unfolding holds_def leases using g' by auto
qed

text \<open>The next number of a lease is larger than the numbers of the run.\<close>

lemma foldr_max: "x \<in> set xs \<Longrightarrow> x \<le> foldr max xs (0 :: int)"
  by (induction xs) auto

lemma next_generation_fresh:
  "l \<in> set (mg_leases db) \<Longrightarrow> lr_run l = i \<Longrightarrow> lr_generation l < next_generation i db"
  unfolding next_generation_def using foldr_max [of "lr_generation l"] by force

section \<open>Facts\<close>

definition receipts_ok :: "'w mig_db \<Rightarrow> bool" where
  "receipts_ok db \<longleftrightarrow> distinct (map row_key (mg_receipts db)) \<and> distinct (map result_key (mg_results db)) \<and>
     (\<forall>x \<in> set (mg_results db). re_row x \<in> set (mg_receipts db) \<and> x = result_of (re_run x) (re_row x)) \<and>
     (\<forall>r \<in> set (mg_receipts db). receipt_columns r)"

definition appends :: "'w mig_db \<Rightarrow> 'w mig_db \<Rightarrow> bool" where
  "appends db db' \<longleftrightarrow> (\<exists>rs. mg_receipts db' = mg_receipts db @ rs) \<and> (\<exists>xs. mg_results db' = mg_results db @ xs) \<and>
     (\<exists>qs. mg_quarantines db' = mg_quarantines db @ qs) \<and> (\<exists>as. mg_archives db' = mg_archives db @ as) \<and>
     (\<exists>cs. mg_reconciliations db' = mg_reconciliations db @ cs) \<and> (\<forall>i. known_run i db \<longrightarrow> known_run i db') \<and>
     (\<forall>tok i. issued tok i db \<longrightarrow> issued tok i db')"

lemma grows_refl: "appends db db"
  unfolding appends_def by simp

lemma grows_trans: "appends a b \<Longrightarrow> appends b c \<Longrightarrow> appends a c"
  unfolding appends_def by force

lemma grows_find_receipt:
  "appends db db' \<Longrightarrow> find_row_receipt a t k db = Some r \<Longrightarrow> find_row_receipt a t k db' = Some r"
  unfolding appends_def find_row_receipt_def by (auto simp: find_append)

lemma grows_find_result:
  "appends db db' \<Longrightarrow> find_result i a t k db = Some r \<Longrightarrow> find_result i a t k db' = Some r"
  unfolding appends_def find_result_def by (auto simp: find_append)

lemma find_receiptD:
  "find_row_receipt a t k db = Some r \<Longrightarrow> r \<in> set (mg_receipts db) \<and> row_key r = (a, t, k)"
  unfolding find_row_receipt_def find_Some_iff by force

lemma find_resultD:
  "find_result i a t k db = Some x \<Longrightarrow> x \<in> set (mg_results db) \<and> result_key x = (i, a, t, k)"
  unfolding find_result_def find_Some_iff by force

lemma find_receipt_None: "find_row_receipt a t k db = None \<Longrightarrow> (a, t, k) \<notin> row_key ` set (mg_receipts db)"
  unfolding find_row_receipt_def find_None_iff by force

section \<open>Single operations\<close>

lemma AppendRowReceiptD [mig_D]:
  assumes "mig_AppendRowReceipt now f r db = (Inr v, db')"
  shows "active_fence now f db \<and> receipt_columns r \<and> row_key r \<notin> row_key ` set (mg_receipts db) \<and>
    db' = db\<lparr>mg_receipts := mg_receipts db @ [r]\<rparr>"
  using assms unfolding mig_AppendRowReceipt_def by (simp split: if_splits)

lemma AppendResultReceiptD [mig_D]:
  assumes "mig_AppendResultReceipt now f (result_of i r) db = (Inr v, db')"
  shows "active_fence now (f\<lparr>lf_run := i\<rparr>) db \<and> result_key (result_of i r) \<notin> result_key ` set (mg_results db) \<and>
    r \<in> set (mg_receipts db) \<and> db' = db\<lparr>mg_results := mg_results db @ [result_of i r]\<rparr>"
  using assms unfolding mig_AppendResultReceipt_def result_of_def by (simp split: if_splits)

lemma QuarantineD [mig_D]:
  assumes "mig_Quarantine now f q db = (Inr v, db')"
  shows "active_fence now f db \<and> db' = db\<lparr>mg_quarantines := mg_quarantines db @ [(lf_run f, q)]\<rparr>"
  using assms unfolding mig_Quarantine_def by (simp split: if_splits)

lemma ArchiveD [mig_D]:
  assumes "mig_Archive now f a db = (Inr v, db')"
  shows "active_fence now f db \<and> db' = db\<lparr>mg_archives := mg_archives db @ [(lf_run f, a)]\<rparr>"
  using assms unfolding mig_Archive_def by (simp split: if_splits)

lemma target_ApplyD [mig_D]:
  assumes "target_Apply reg f m db = (Inr v, db')"
  obtains w where "target_apply reg f m (mg_target db) = Inr w" "db' = db\<lparr>mg_target := w\<rparr>"
  using assms unfolding target_Apply_def by (auto split: sum.splits)

lemma AdvanceD:
  assumes "mig_Advance now f t c db = (Inr v, db')"
  obtains old where "find_table (lf_run f) t db = Some old" "active_fence now f db" "fence_valid f"
    "checkpoint_guard (map_option gr_phase (find_run (lf_run f) db)) old
       (old\<lparr>tr_point := c, tr_lease := Some (lf_generation f, lf_token f)\<rparr>)"
    "checkpoint_valid c"
    "tc_bound c = tc_bound (tr_point old) \<and> tc_schema c = tc_schema (tr_point old) \<and> tc_source c = tc_source (tr_point old)"
    "db' = put_table (old\<lparr>tr_point := c, tr_lease := Some (lf_generation f, lf_token f)\<rparr>) db"
  using assms unfolding mig_Advance_def by (auto simp: Let_def split: if_splits option.splits)

lemma finishD:
  assumes "mig_finish now f p db = (Inr v, db')"
  shows "fence_valid f" "active_fence now f db" "phase_allowed (lf_run f) p (retire now (is_lease f) db)"
    "db' = set_phase (lf_run f) p now (retire now (is_lease f) db)"
  using assms unfolding mig_finish_def by (simp_all add: Let_def split: if_splits)

lemma RenewD:
  assumes "mig_RenewLease now f c ttl db = (Inr f', db')"
  obtains g where "lf_run f' = lf_run f \<and> lf_token f' = lf_token f \<and> lf_generation f' = lf_generation f"
    "holds (lf_token f) (lf_run f) db" "\<And>l. lease_step l (g l) \<and> lr_active (g l) = lr_active l"
    "db' = db\<lparr>mg_leases := map g (mg_leases db)\<rparr>"
proof -
  obtain l where l: "List.find (\<lambda>l. is_lease f l \<and> lr_active l) (mg_leases db) = Some l"
    using assms unfolding mig_RenewLease_def by (auto split: if_splits option.splits)
  then have holds: "holds (lf_token f) (lf_run f) db"
    unfolding holds_def is_lease_def find_Some_iff by force
  have res: "f' = f\<lparr>lf_expires := lr_expires l\<rparr> \<and> db' = db \<or>
      f' = f\<lparr>lf_expires := now + ttl\<rparr> \<and> db' = db\<lparr>mg_leases := map (\<lambda>l'. if is_lease f l' \<and> lr_active l'
        then l'\<lparr>lr_expires := pg_micros (now + ttl)\<rparr> else l') (mg_leases db)\<rparr>"
    using assms l unfolding mig_RenewLease_def by (auto split: if_splits)
  then show ?thesis
  proof
    assume "f' = f\<lparr>lf_expires := lr_expires l\<rparr> \<and> db' = db"
    then show ?thesis using that [of "\<lambda>l. l"] holds by (simp add: lease_step_def)
  next
    assume r: "f' = f\<lparr>lf_expires := now + ttl\<rparr> \<and> db' = db\<lparr>mg_leases := map (\<lambda>l'. if is_lease f l' \<and> lr_active l'
        then l'\<lparr>lr_expires := pg_micros (now + ttl)\<rparr> else l') (mg_leases db)\<rparr>"
    show ?thesis
      by (rule that [of "\<lambda>l'. if is_lease f l' \<and> lr_active l' then l'\<lparr>lr_expires := pg_micros (now + ttl)\<rparr> else l'"])
        (use r holds in \<open>simp_all add: lease_step_def\<close>)
  qed
qed

lemma AppendReconciliationD:
  assumes "mig_AppendReconciliationReceipt now f r db = (Inr v, db')"
  shows "active_fence now (f\<lparr>lf_run := rc_run r\<rparr>) db \<and> rc_run r \<notin> rc_run ` set (mg_reconciliations db) \<and>
    rc_source_rows r = rc_result_rows r \<and> rc_result_rows r = rc_verified r \<and>
    db' = db\<lparr>mg_reconciliations := mg_reconciliations db @ [r]\<rparr>"
  using assms unfolding mig_AppendReconciliationReceipt_def by (simp split: if_splits)

lemma AcquireD:
  assumes "mig_AcquireLease now token i c ttl db = (Inr f, db')" and ok: "leases_ok db"
  obtains g l where "token = Some (lf_token f)" "lf_run f = i" "known_run i db"
    "lf_token f \<notin> lr_fence ` set (mg_leases db)" "map_option gr_phase (find_run i db) \<noteq> Some PhaseReconciled"
    "\<And>x. lease_step x (g x)" "\<And>x. lr_run x \<noteq> i \<Longrightarrow> g x = x"
    "\<And>x. x \<in> set (mg_leases db) \<Longrightarrow> lr_run x = i \<Longrightarrow> \<not> lr_active (g x)"
    "lr_run l = i" "lr_fence l = lf_token f" "lr_active l" "lr_generation l = next_generation i db"
    "db' = db\<lparr>mg_leases := map g (mg_leases db) @ [l]\<rparr>"
proof -
  obtain r where r: "find_run i db = Some r" "gr_phase r \<noteq> PhaseReconciled"
    using assms(1) unfolding mig_AcquireLease_def by (auto split: if_splits option.splits)
  note known = find_run_Some [OF r(1)]
  define g :: "lease_row \<Rightarrow> lease_row" where "g = (case active_lease i db of
      None \<Rightarrow> (\<lambda>x. x)
    | Some a \<Rightarrow> (\<lambda>x. if (lr_run x = i \<and> lr_generation x = lr_generation a) \<and> lr_active x
        then x\<lparr>lr_active := False, lr_retired := Some now\<rparr> else x))"
  let ?db1 = "db\<lparr>mg_leases := map g (mg_leases db)\<rparr>"
  have step: "lease_step x (g x)" for x unfolding g_def lease_step_def by (simp split: option.splits)
  have other: "lr_run x \<noteq> i \<Longrightarrow> g x = x" for x unfolding g_def by (simp split: option.splits)
  have gone: "\<not> lr_active (g x)" if x: "x \<in> set (mg_leases db)" "lr_run x = i" for x
  proof (cases "active_lease i db")
    case None
    then have "\<not> lr_active x" using x unfolding active_lease_def find_None_iff by simp
    then show ?thesis using None unfolding g_def by simp
  next
    case (Some a)
    then have a: "a \<in> set (mg_leases db)" "lr_run a = i" "lr_active a"
      unfolding active_lease_def find_Some_iff by force+
    have "lr_active x \<Longrightarrow> x = a" using ok a x unfolding leases_ok_def by blast
    then show ?thesis using Some x unfolding g_def by auto
  qed
  have tried: "(case active_lease i db of
      None \<Rightarrow> Inr db
    | Some l \<Rightarrow> if now < lr_expires l then Inl MErrLeaseFenced
        else Inr (retire now (\<lambda>l'. lr_run l' = i \<and> lr_generation l' = lr_generation l) db)) = Inr ?db1"
    using assms(1) r unfolding mig_AcquireLease_def g_def retire_def
    by (auto split: if_splits option.splits)
  have fences: "lr_fence ` set (mg_leases db) = lr_fence ` set (map g (mg_leases db))"
    using step unfolding lease_step_def by (simp add: image_image)
  have gens: "next_generation i ?db1 = next_generation i db"
  proof -
    have "lr_generation (g x) = lr_generation x \<and> lr_run (g x) = lr_run x" for x
      unfolding g_def by (simp split: option.splits)
    then show ?thesis unfolding next_generation_def by (simp add: filter_map o_def)
  qed
  obtain tok where tok: "token = Some tok"
    using assms(1) r unfolding mig_AcquireLease_def tried by (auto split: if_splits option.splits)
  define l where "l = \<lparr>lr_run = i, lr_generation = next_generation i db, lr_fence = tok, lr_acquired = now,
    lr_expires = pg_micros (now + ttl), lr_active = True, lr_retired = None\<rparr>"
  have res: "tok \<notin> lr_fence ` set (mg_leases db)" "lf_run f = i" "lf_token f = tok"
      "db' = db\<lparr>mg_leases := map g (mg_leases db) @ [l]\<rparr>"
    using assms(1) r tok unfolding mig_AcquireLease_def tried l_def
    by (simp_all add: Let_def gens fences split: if_splits) auto
  show ?thesis
    by (rule that [of g l]) (use res known step other gone tok r in \<open>simp_all add: l_def\<close>)
qed

end
