(* ===== verification/MigrationUnits.thy ===== *)
theory MigrationUnits
  imports MigrationFacts
begin

text \<open>
  What the units of a run leave behind when they commit: the row that was applied, its receipt,
  its result and the checkpoint.
\<close>

lemma pg_ports_simps [simp]:
  "mp_Open (pg_ports reg) = mig_Open" "mp_Load (pg_ports reg) = mig_Load"
  "mp_AcquireLease (pg_ports reg) s = mig_AcquireLease (st_now s) (st_token s)"
  "mp_RenewLease (pg_ports reg) s = mig_RenewLease (st_now s)"
  "mp_Advance (pg_ports reg) s = mig_Advance (st_now s)" "mp_Finish (pg_ports reg) s = mig_Finish (st_now s)"
  "mp_MarkReconciled (pg_ports reg) s = mig_MarkReconciled (st_now s)"
  "mp_FindRowReceipt (pg_ports reg) = mig_FindRowReceipt"
  "mp_AppendRowReceipt (pg_ports reg) s = mig_AppendRowReceipt (st_now s)"
  "mp_FindResultReceipt (pg_ports reg) = mig_FindResultReceipt"
  "mp_AppendResultReceipt (pg_ports reg) s = mig_AppendResultReceipt (st_now s)"
  "mp_ListResultReceipts (pg_ports reg) = mig_ListResultReceipts" "mp_Apply (pg_ports reg) = target_Apply reg"
  "mp_Quarantine (pg_ports reg) s = mig_Quarantine (st_now s)" "mp_Archive (pg_ports reg) s = mig_Archive (st_now s)"
  "mp_AppendReconciliation (pg_ports reg) s = mig_AppendReconciliationReceipt (st_now s)"
  "mp_Verify (pg_ports reg) = target_VerifyResultReceipt reg"
  by (simp_all add: pg_ports_def)

text \<open>The tables that the work on one row leaves alone.\<close>

definition same_control :: "'w mig_db \<Rightarrow> 'w mig_db \<Rightarrow> bool" where
  "same_control db db' \<longleftrightarrow> mg_runs db' = mg_runs db \<and> mg_tables db' = mg_tables db \<and>
     mg_leases db' = mg_leases db \<and> mg_reconciliations db' = mg_reconciliations db"

lemma disposeD:
  assumes "dispose (pg_ports reg) s D t f row r db = (Inr (op, mut), db')"
  obtains qs as w where
    "db' = db\<lparr>mg_quarantines := mg_quarantines db @ qs, mg_archives := mg_archives db @ as, mg_target := w\<rparr>"
    "if importing (wr_disposition r)
     then \<exists>m. ad_map D t row = Inr m \<and> target_apply reg f m (mg_target db) = Inr w \<and> op = mp_operation m \<and>
       mut = mp_digest m \<and> mut \<noteq> zero_digest
     else w = mg_target db \<and> op = [] \<and> mut = zero_digest"
proof -
  note found = that
  have target: thesis
    if d: "importing (wr_disposition r)" and m: "ad_map D t row = Inr m" "mp_digest m \<noteq> zero_digest"
      "op = mp_operation m" "mut = mp_digest m" "target_Apply reg f m db = (Inr (), db')" for m
  proof -
    obtain w where "target_apply reg f m (mg_target db) = Inr w" "db' = db\<lparr>mg_target := w\<rparr>"
      by (rule target_ApplyD [OF m(5)])
    then show thesis using found [where qs = "[]" and as = "[]" and w = w] d m by simp
  qed
  show thesis
  proof (cases "wr_disposition r")
    case DispositionArchive
    with assms obtain a where "mig_Archive (st_now s) f a db = (Inr (), db')" "op = []" "mut = zero_digest"
      unfolding dispose_def by (auto simp: tx_iff)
    then show ?thesis
      using that [where qs = "[]" and as = "[(lf_run f, a)]" and w = "mg_target db"] DispositionArchive ArchiveD by fastforce
  next
    case DispositionQuarantine
    with assms obtain q where "mig_Quarantine (st_now s) f q db = (Inr (), db')" "op = []" "mut = zero_digest"
      unfolding dispose_def by (auto simp: tx_iff)
    then show ?thesis
      using that [where qs = "[(lf_run f, q)]" and as = "[]" and w = "mg_target db"] DispositionQuarantine QuarantineD by fastforce
  next
    case DispositionSkip
    with assms show ?thesis using that [where qs = "[]" and as = "[]" and w = "mg_target db"] unfolding dispose_def by simp
  qed (use assms target in \<open>auto simp: dispose_def tx_iff split: if_splits\<close>)
qed

lemma FindRowReceipt_iff [tx_iff]:
  "mig_FindRowReceipt a t k db = (Inr v, db') \<longleftrightarrow> pg_text a \<and> pg_text t \<and> v = find_row_receipt a t k db \<and> db' = db"
  unfolding mig_FindRowReceipt_def by auto

lemma FindResultReceipt_iff [tx_iff]:
  "mig_FindResultReceipt i a t k db = (Inr v, db') \<longleftrightarrow>
     pg_text i \<and> pg_text a \<and> pg_text t \<and> v = find_result i a t k db \<and> db' = db"
  unfolding mig_FindResultReceipt_def by auto

lemma appendRunReceiptD:
  assumes "appendRunReceipt (pg_ports reg) s f r db = (Inr recorded, db')"
  shows "if recorded
    then active_fence (st_now s) f db \<and> result_key (result_of (lf_run f) r) \<notin> result_key ` set (mg_results db) \<and>
      r \<in> set (mg_receipts db) \<and> db' = db\<lparr>mg_results := mg_results db @ [result_of (lf_run f) r]\<rparr>
    else db' = db \<and> find_result (lf_run f) (wr_adapter r) (wr_table r) (wr_key r) db = Some (result_of (lf_run f) r)"
proof -
  have f: "f\<lparr>lf_run := lf_run f\<rparr> = f" by simp
  show ?thesis
    using assms AppendResultReceiptD [of "st_now s" f "lf_run f" r db "()" db'] unfolding f
    unfolding appendRunReceipt_def
    by (auto simp: tx_iff split: if_splits option.splits)
qed

lemma with_mutation_same:
  "row_key (with_mutation E r op mut) = row_key r" "same_row (with_mutation E r op mut) r'= same_row r r'"
  "wr_operation (with_mutation E r op mut) = op" "wr_disposition (with_mutation E r op mut) = wr_disposition r"
  "mut \<noteq> zero_digest \<Longrightarrow> wr_mutation (with_mutation E r op mut) = mut"
  unfolding with_mutation_def row_key_def same_row_def by (simp_all add: Let_def)

text \<open>
  A row that was applied: its receipt \<open>r\<close> was there already, and then the target is left alone; or
  it is new, and then the target was changed by the row's operation when the disposition imports.
\<close>

definition row_applied ::
  "'w TargetRegistry \<Rightarrow> LeaseFence \<Rightarrow> RowReceipt \<Rightarrow> bool \<Rightarrow> 'w mig_db \<Rightarrow> 'w mig_db \<Rightarrow> bool" where
  "row_applied reg f r replayed db db' \<longleftrightarrow>
     (if replayed
      then r \<in> set (mg_receipts db) \<and> mg_receipts db' = mg_receipts db \<and> mg_target db' = mg_target db
      else row_key r \<notin> row_key ` set (mg_receipts db) \<and> mg_receipts db' = mg_receipts db @ [r] \<and> receipt_columns r \<and>
        (if importing (wr_disposition r)
         then \<exists>m. target_apply reg f m (mg_target db) = Inr (mg_target db') \<and>
           wr_operation r = mp_operation m \<and> wr_mutation r = mp_digest m
         else mg_target db' = mg_target db))"

definition result_noted :: "string \<Rightarrow> RowReceipt \<Rightarrow> bool \<Rightarrow> 'w mig_db \<Rightarrow> 'w mig_db \<Rightarrow> bool" where
  "result_noted i r recorded db db' \<longleftrightarrow>
     (if recorded
      then result_key (result_of i r) \<notin> result_key ` set (mg_results db) \<and>
        mg_results db' = mg_results db @ [result_of i r]
      else mg_results db' = mg_results db \<and> result_of i r \<in> set (mg_results db))"

lemma applyRowD:
  assumes "applyRow E (pg_ports reg) s D t p f row db = (Inr (recorded, replayed, d), db')"
  obtains r qs as where "row_applied reg f r replayed db db'" "result_noted (lf_run f) r recorded db db'"
    "row_key r = row_key (bare_receipt E D t p row)" "same_row r (bare_receipt E D t p row)" "fence_valid f"
    "same_control db db'" "d = wr_disposition r" "mg_quarantines db' = mg_quarantines db @ qs"
    "mg_archives db' = mg_archives db @ as" "r \<in> set (mg_receipts db')"
    "replayed \<or> recorded \<Longrightarrow> replayed \<or> active_fence (st_now s) f db"
proof -
  let ?b = "bare_receipt E D t p row"
  have valid: "fence_valid f" using assms unfolding applyRow_def by (auto split: if_splits)
  show thesis
  proof (cases "find_row_receipt (wr_adapter ?b) (wr_table ?b) (wr_key ?b) db")
    case (Some old)
    with assms have a: "same_row old ?b" "appendRunReceipt (pg_ports reg) s f old db = (Inr recorded, db')"
        "replayed" "d = wr_disposition old"
      unfolding applyRow_def by (auto simp: Let_def tx_iff split: if_splits)
    note n = appendRunReceiptD [OF a(2)]
    note old = find_receiptD [OF Some]
    have "result_noted (lf_run f) old recorded db db'"
      using n unfolding result_noted_def by (auto split: if_splits dest: find_resultD)
    moreover have "row_applied reg f old replayed db db'" "same_control db db'"
        "mg_quarantines db' = mg_quarantines db @ []" "mg_archives db' = mg_archives db @ []"
        "old \<in> set (mg_receipts db')"
      using n a(3) old unfolding row_applied_def same_control_def by (auto split: if_splits)
    moreover have "row_key old = row_key ?b" using old unfolding row_key_def by simp
    ultimately show ?thesis using that a valid by blast
  next
    case None
    with assms valid obtain op mut db1 db2 where a:
        "dispose (pg_ports reg) s D t f row ?b db = (Inr (op, mut), db1)"
        "mig_AppendRowReceipt (st_now s) f (with_mutation E ?b op mut) db1 = (Inr (), db2)"
        "appendRunReceipt (pg_ports reg) s f (with_mutation E ?b op mut) db2 = (Inr recorded, db')"
        "\<not> replayed" "d = po_disposition p"
      unfolding applyRow_def by (auto simp: Let_def tx_iff split: if_splits)
    obtain qs as w where e:
        "db1 = db\<lparr>mg_quarantines := mg_quarantines db @ qs, mg_archives := mg_archives db @ as, mg_target := w\<rparr>"
        "if importing (wr_disposition ?b)
         then \<exists>m. ad_map D t row = Inr m \<and> target_apply reg f m (mg_target db) = Inr w \<and> op = mp_operation m \<and>
           mut = mp_digest m \<and> mut \<noteq> zero_digest
         else w = mg_target db \<and> op = [] \<and> mut = zero_digest"
      by (rule disposeD [OF a(1)])
    let ?r = "with_mutation E ?b op mut"
    note m = AppendRowReceiptD [OF a(2)]
    note n = appendRunReceiptD [OF a(3)]
    have kept: "mg_receipts db1 = mg_receipts db" "mg_results db1 = mg_results db" "mg_target db1 = w"
        "mg_quarantines db1 = mg_quarantines db @ qs" "mg_archives db1 = mg_archives db @ as"
        "mg_leases db1 = mg_leases db" "same_control db db1"
      unfolding e(1) same_control_def by simp_all
    have fence: "active_fence (st_now s) f db" using m kept unfolding active_fence_def by simp
    have last: "mg_receipts db' = mg_receipts db2" "mg_target db' = mg_target db2" "same_control db2 db'"
        "mg_quarantines db' = mg_quarantines db2" "mg_archives db' = mg_archives db2"
      using n unfolding same_control_def by (auto split: if_splits)
    have "row_applied reg f ?r replayed db db'"
      using m last kept a(4) e(2) unfolding row_applied_def
      by (auto simp: with_mutation_same split: if_splits)
    moreover have "result_noted (lf_run f) ?r recorded db db'"
      using n m kept unfolding result_noted_def by (auto split: if_splits dest: find_resultD)
    moreover have "same_control db db'" "mg_quarantines db' = mg_quarantines db @ qs"
        "mg_archives db' = mg_archives db @ as" "?r \<in> set (mg_receipts db')"
      using m last kept unfolding same_control_def by auto
    moreover have "row_key ?r = row_key ?b" "same_row ?r ?b" "d = wr_disposition ?r"
      using a(5) by (simp_all add: with_mutation_same) (simp_all add: same_row_def bare_receipt_def)
    ultimately show ?thesis using that fence valid by blast
  qed
qed

lemma row_unitD:
  assumes "row_unit sv (pg_ports reg) D t p f row c s db = (Inr (recorded, replayed, d), db')"
  obtains db1 where "applyRow (sv_env sv) (pg_ports reg) s D t p f row db = (Inr (recorded, replayed, d), db1)"
    "mig_Advance (st_now s) f (ts_id t) (next_point c row recorded) db1 = (Inr (), db')"
  using assms unfolding row_unit_def by (auto simp: tx_iff)

end
