(* ===== verification/MigrationHistory.thy ===== *)
theory MigrationHistory
  imports MigrationUnits
begin

text \<open>
  The histories of the migration tables: every unit that the services commit, in any order, by
  any number of processes with any configuration. A unit that uses a lease is labelled with its
  token and run.
\<close>

section \<open>Opening a run\<close>

definition fresh_table :: "string \<Rightarrow> nat \<Rightarrow> TableBound \<Rightarrow> table_row" where
  "fresh_table i k b = \<lparr>tr_run = i, tr_table = tb_table b, tr_ordinal = k, tr_point = new_point b, tr_lease = None\<rparr>"

fun fresh_tables :: "string \<Rightarrow> nat \<Rightarrow> TableBound list \<Rightarrow> table_row list" where
  "fresh_tables i k [] = []"
| "fresh_tables i k (b # bs) = fresh_table i k b # fresh_tables i (Suc k) bs"

lemma fresh_tables_props:
  "map tr_table (fresh_tables i k bs) = map tb_table bs"
  "map tr_point (fresh_tables i k bs) = map new_point bs"
  "t \<in> set (fresh_tables i k bs) \<Longrightarrow> tr_run t = i"
  by (induction bs arbitrary: k) (auto simp: fresh_table_def)

lemma run_tables_set: "set (run_tables i db) = {t \<in> set (mg_tables db). tr_run t = i}"
  unfolding run_tables_def by auto

lemma insert_tablesD:
  "insert_tables i k bs db = (Inr u, db') \<Longrightarrow>
   db' = db\<lparr>mg_tables := mg_tables db @ fresh_tables i k bs\<rparr> \<and> distinct (map tb_table bs) \<and>
   (\<forall>b \<in> set bs. tb_table b \<notin> tr_table ` set (run_tables i db) \<and> tb_table b \<noteq> [] \<and> bound_valid (tb_bound b))"
proof (induction bs arbitrary: k db)
  case Nil
  then show ?case by simp
next
  case (Cons b bs)
  then obtain db1 where a: "InsertRunTable i k b db = (Inr (), db1)" "insert_tables i (Suc k) bs db1 = (Inr u, db')"
      "tb_table b \<noteq> []" "bound_valid (tb_bound b)"
    by (auto simp: tx_iff split: if_splits)
  then have b: "db1 = db\<lparr>mg_tables := mg_tables db @ [fresh_table i k b]\<rparr>"
      "tb_table b \<notin> tr_table ` set (run_tables i db)"
    unfolding InsertRunTable_def fresh_table_def by (simp_all split: if_splits)
  have "set (run_tables i db1) = insert (fresh_table i k b) (set (run_tables i db))"
    unfolding run_tables_set b(1) by (auto simp: fresh_table_def)
  then show ?case using Cons.IH [OF a(2)] a(3,4) b by (auto simp: fresh_table_def)
qed

lemma loadWithD:
  assumes "loadWith i db = Inr st"
  obtains r where "find_run i db = Some r" "rs_id st = i" "rs_phase st = gr_phase r" "rs_adapter st = gr_adapter r"
    "rs_tables st = map (\<lambda>t. (tr_table t, tr_point t)) (run_tables i db)"
proof -
  obtain r where r: "find_run i db = Some r"
    using assms unfolding loadWith_def by (auto split: if_splits option.splits)
  with assms find_run_Some [OF r] show thesis
    unfolding loadWith_def by (auto intro!: that split: if_splits)
qed

lemma OpenD:
  assumes "mig_Open s db = (Inr st, db')"
  shows "loadWith (sn_id s) db' = Inr st" "rs_phase st = PhaseRunning"
    "known_run (sn_id s) db \<Longrightarrow> db' = db \<and> sameBounds st (sn_bounds s)"
    "\<not> known_run (sn_id s) db \<Longrightarrow>
      db' = db\<lparr>mg_runs := mg_runs db @ [new_run s], mg_tables := mg_tables db @ fresh_tables (sn_id s) 0 (sn_bounds s)\<rparr> \<and>
      distinct (map tb_table (sn_bounds s))"
proof -
  let ?db1 = "db\<lparr>mg_runs := mg_runs db @ [new_run s]\<rparr>"
  have new: "loadWith (sn_id s) db' = Inr st \<and> rs_phase st = PhaseRunning \<and>
      db' = db\<lparr>mg_runs := mg_runs db @ [new_run s], mg_tables := mg_tables db @ fresh_tables (sn_id s) 0 (sn_bounds s)\<rparr> \<and>
      distinct (map tb_table (sn_bounds s))" if n: "find_run (sn_id s) db = None"
  proof -
    from n assms have a: "and_then (insert_tables (sn_id s) 0 (sn_bounds s)) (\<lambda>_. mig_Load (sn_id s)) ?db1 = (Inr st, db')"
      unfolding mig_Open_def by (simp split: if_splits)
    then have i: "insert_tables (sn_id s) 0 (sn_bounds s) ?db1 = (Inr (), db')" and l: "loadWith (sn_id s) db' = Inr st"
      by (auto simp: tx_iff mig_Load_def)
    note d = insert_tablesD [OF i]
    have "find_run (sn_id s) db' = Some (new_run s)"
      using n d unfolding find_run_def by (simp add: find_append) (simp add: new_run_def)
    with l have "rs_phase st = PhaseRunning" by (auto elim!: loadWithD simp: new_run_def)
    then show ?thesis using l d by simp
  qed
  have old: "loadWith (sn_id s) db' = Inr st \<and> rs_phase st = PhaseRunning \<and> db' = db \<and> sameBounds st (sn_bounds s)"
    if o: "find_run (sn_id s) db = Some r" for r
    using assms o unfolding mig_Open_def by (auto split: if_splits sum.splits)
  have "loadWith (sn_id s) db' = Inr st \<and> rs_phase st = PhaseRunning"
    using new old by (cases "find_run (sn_id s) db") blast+
  then show "loadWith (sn_id s) db' = Inr st" "rs_phase st = PhaseRunning" by blast+
  show "known_run (sn_id s) db \<Longrightarrow> db' = db \<and> sameBounds st (sn_bounds s)"
    using old find_run_None [of "sn_id s" db] by (cases "find_run (sn_id s) db") blast+
  show "db' = db\<lparr>mg_runs := mg_runs db @ [new_run s], mg_tables := mg_tables db @ fresh_tables (sn_id s) 0 (sn_bounds s)\<rparr> \<and>
      distinct (map tb_table (sn_bounds s))" if "\<not> known_run (sn_id s) db"
    using new [unfolded find_run_None, OF that] by blast
qed

section \<open>Steps\<close>

inductive mig_step ::
  "'w TargetRegistry \<Rightarrow> (digest \<times> string) option \<Rightarrow> 'w mig_db \<Rightarrow> 'w mig_db \<Rightarrow> bool" for reg where
  opened: "mig_Open start db = (Inr st, db') \<Longrightarrow> mig_step reg None db db'"
| acquired: "mig_AcquireLease now token i c ttl db = (Inr f, db') \<Longrightarrow> mig_step reg None db db'"
| renewed: "mig_RenewLease now f c ttl db = (Inr f', db') \<Longrightarrow> mig_step reg (Some (lf_token f, lf_run f)) db db'"
| row: "row_unit sv (pg_ports reg) D t p f src c s db = (Inr v, db') \<Longrightarrow> mig_step reg (Some (lf_token f, lf_run f)) db db'"
| advanced: "mig_Advance now f t c db = (Inr v, db') \<Longrightarrow> mig_step reg (Some (lf_token f, lf_run f)) db db'"
| finished: "mig_Finish now f db = (Inr v, db') \<Longrightarrow> mig_step reg (Some (lf_token f, lf_run f)) db db'"
| settled: "settle_unit sv (pg_ports reg) (lf_run f) f st n s db = (Inr v, db') \<Longrightarrow>
    mig_step reg (Some (lf_token f, lf_run f)) db db'"

text \<open>
  Opening a run and taking its lease is one unit; it is two steps of the history, so that a
  history of steps covers every history of units.
\<close>

definition some_step :: "'w TargetRegistry \<Rightarrow> 'w mig_db \<Rightarrow> 'w mig_db \<Rightarrow> bool" where
  "some_step reg db db' \<longleftrightarrow> (\<exists>l. mig_step reg l db db')"

definition other_step :: "'w TargetRegistry \<Rightarrow> digest \<times> string \<Rightarrow> 'w mig_db \<Rightarrow> 'w mig_db \<Rightarrow> bool" where
  "other_step reg l db db' \<longleftrightarrow> (\<exists>l'. l' \<noteq> Some l \<and> mig_step reg l' db db')"

section \<open>The invariant\<close>

definition tables_ok :: "'w mig_db \<Rightarrow> bool" where
  "tables_ok db \<longleftrightarrow> distinct (map gr_id (mg_runs db)) \<and>
     distinct (map (\<lambda>t. (tr_run t, tr_table t)) (mg_tables db)) \<and>
     tr_run ` set (mg_tables db) \<subseteq> gr_id ` set (mg_runs db) \<and>
     re_run ` set (mg_results db) \<subseteq> gr_id ` set (mg_runs db)"

definition mig_good :: "'w mig_db \<Rightarrow> bool" where
  "mig_good db \<longleftrightarrow> leases_ok db \<and> tables_ok db \<and> receipts_ok db"

text \<open>The part of the database that belongs to a run.\<close>

definition run_view ::
  "string \<Rightarrow> 'w mig_db \<Rightarrow> run_row option \<times> table_row list \<times> ResultReceipt list \<times> ReconciliationReceipt list" where
  "run_view i db = (find_run i db, filter (\<lambda>t. tr_run t = i) (mg_tables db), run_results i db,
     filter (\<lambda>r. rc_run r = i) (mg_reconciliations db))"

section \<open>Each kind of step\<close>

text \<open>What a step may do to the database: the contract that every unit keeps.\<close>

definition runs_kept :: "'w mig_db \<Rightarrow> 'w mig_db \<Rightarrow> bool" where
  "runs_kept db db' \<longleftrightarrow> (\<forall>i r. find_run i db = Some r \<longrightarrow> (\<exists>r'. find_run i db' = Some r' \<and>
     gr_adapter r' = gr_adapter r \<and> gr_source r' = gr_source r \<and> gr_manifest r' = gr_manifest r))"

lemma runs_kept_same: "mg_runs db' = mg_runs db \<Longrightarrow> runs_kept db db'"
  unfolding runs_kept_def find_run_def by simp

lemma runs_kept_trans: "runs_kept a b \<Longrightarrow> runs_kept b c \<Longrightarrow> runs_kept a c"
  unfolding runs_kept_def by metis

definition safe_step :: "(digest \<times> string) option \<Rightarrow> 'w mig_db \<Rightarrow> 'w mig_db \<Rightarrow> bool" where
  "safe_step l db db' \<longleftrightarrow> mig_good db' \<and> appends db db' \<and> runs_kept db db' \<and>
     (\<forall>tok i. issued tok i db \<longrightarrow> holds tok i db' \<longrightarrow> holds tok i db) \<and>
     (\<forall>i. known_run i db \<longrightarrow> (\<forall>tok. l \<noteq> Some (tok, i)) \<longrightarrow> run_view i db' = run_view i db) \<and>
     (\<forall>tok i. l = Some (tok, i) \<longrightarrow> holds tok i db)"

lemma safe_stepI:
  assumes "mig_good db'" "appends db db'" "runs_kept db db'" "\<And>tok j. issued tok j db \<Longrightarrow> holds tok j db' \<Longrightarrow> holds tok j db"
    "\<And>j. j \<noteq> i \<Longrightarrow> known_run j db \<Longrightarrow> run_view j db' = run_view j db" "holds tok i db"
  shows "safe_step (Some (tok, i)) db db'"
  using assms unfolding safe_step_def by auto

lemma safe_step_trans:
  assumes "safe_step l a b" "safe_step l b c"
  shows "safe_step l a c"
proof -
  have g: "mig_good c" "appends a b" "appends b c" using assms unfolding safe_step_def by blast+
  have "runs_kept a c" by (rule runs_kept_trans [of a b]) (use assms in \<open>simp_all add: safe_step_def\<close>)
  moreover
  have "issued tok i a \<Longrightarrow> issued tok i b" "known_run i a \<Longrightarrow> known_run i b" for tok i
    using g(2) unfolding appends_def by blast+
  ultimately show ?thesis using assms g(1) grows_trans [OF g(2,3)] unfolding safe_step_def by simp
qed

lemma run_view_same:
  "mg_runs db' = mg_runs db \<Longrightarrow> mg_tables db' = mg_tables db \<Longrightarrow> mg_results db' = mg_results db \<Longrightarrow>
   mg_reconciliations db' = mg_reconciliations db \<Longrightarrow> run_view i db' = run_view i db"
  unfolding run_view_def find_run_def run_results_def by simp

lemma leases_mapped_safe:
  assumes good: "mig_good db" and db': "db' = db\<lparr>mg_leases := map g (mg_leases db)\<rparr>" and g: "\<And>l. lease_step l (g l)"
    and l: "\<And>tok i. l = Some (tok, i) \<Longrightarrow> holds tok i db"
  shows "safe_step l db db'"
proof -
  have ok: "leases_ok db" "tables_ok db" "receipts_ok db" using good unfolding mig_good_def by blast+
  have runs: "mg_runs db' = mg_runs db" and leases: "mg_leases db' = map g (mg_leases db)" unfolding db' by simp_all
  note m = map_leases [OF ok(1) runs leases g]
  have "mig_good db'"
    using m(1) ok unfolding mig_good_def tables_ok_def receipts_ok_def known_run_def db' by simp
  moreover have "appends db db'" using m(2) unfolding appends_def by (simp add: db' known_run_def)
  moreover have "run_view i db' = run_view i db" for i by (rule run_view_same) (simp_all add: db')
  moreover have "runs_kept db db'" by (rule runs_kept_same [OF runs])
  ultimately show ?thesis using m(3) l unfolding safe_step_def by blast
qed

lemma acquired_safe:
  assumes good: "mig_good db" and a: "mig_AcquireLease now token i c ttl db = (Inr f, db')"
  shows "safe_step None db db'" and "holds (lf_token f) i db'" and "lf_run f = i" and "run_view j db' = run_view j db"
    and "token = Some (lf_token f)" and "lf_token f \<notin> lr_fence ` set (mg_leases db)"
proof -
  have ok: "leases_ok db" "tables_ok db" "receipts_ok db" using good unfolding mig_good_def by blast+
  obtain g l where p: "lf_run f = i" "known_run i db" "lf_token f \<notin> lr_fence ` set (mg_leases db)"
      "\<And>x. lease_step x (g x)" "\<And>x. x \<in> set (mg_leases db) \<Longrightarrow> lr_run x = i \<Longrightarrow> \<not> lr_active (g x)"
      "lr_run l = i" "lr_fence l = lf_token f" "lr_active l" "token = Some (lf_token f)"
      "db' = db\<lparr>mg_leases := map g (mg_leases db) @ [l]\<rparr>"
    by (rule AcquireD [OF a ok(1)]) (rule that)
  let ?m = "db\<lparr>mg_leases := map g (mg_leases db)\<rparr>"
  note m = map_leases [where db' = ?m and g = g, OF ok(1) _ _ p(4), simplified]
  have leases: "mg_leases db' = mg_leases ?m @ [l]" unfolding p(10) by simp
  have fences: "lr_fence ` set (mg_leases ?m) = lr_fence ` set (mg_leases db)"
    using p(4) unfolding lease_step_def by (simp add: image_image)
  have known: "known_run j db' = known_run j db" "known_run j ?m = known_run j db" for j
    unfolding known_run_def p(10) by simp_all
  have idle: "\<not> lr_active x" if "x \<in> set (mg_leases ?m)" "lr_run x = i" for x
    using that p(4,5) unfolding lease_step_def by auto
  have "leases_ok db'"
    unfolding leases_ok_def
  proof (intro conjI ballI impI)
    show "distinct (map lr_fence (mg_leases db'))"
      using m(1) p(3,7) fences [symmetric] unfolding leases_ok_def leases map_append distinct_append
      by (simp add: image_image)
    fix x assume x: "x \<in> set (mg_leases db')"
    show "known_run (lr_run x) db'"
      using x m(1) p(2,6) unfolding leases_ok_def leases known by auto
    fix y assume y: "y \<in> set (mg_leases db')" and both: "lr_run x = lr_run y \<and> lr_active x \<and> lr_active y"
    have "x = l \<or> x \<in> set (mg_leases ?m)" "y = l \<or> y \<in> set (mg_leases ?m)"
      using x y unfolding leases set_append by auto
    then show "x = y" using idle p(6) both m(1) unfolding leases_ok_def by metis
  qed
  then have "mig_good db'"
    using ok unfolding mig_good_def tables_ok_def receipts_ok_def known unfolding p(10) by simp
  moreover have "appends db db'"
    using m(2) unfolding appends_def known unfolding issued_def leases by (auto simp: p(10))
  moreover have held: "holds tok j db" if "issued tok j db" "holds tok j db'" for tok j
  proof -
    have "tok \<noteq> lf_token f" using that(1) p(3) unfolding issued_def by force
    then have "holds tok j ?m" using that(2) p(7) unfolding holds_def leases by auto
    then show ?thesis using m(3) by simp
  qed
  moreover show view: "run_view j db' = run_view j db" for j by (rule run_view_same) (simp_all add: p(10))
  moreover have "runs_kept db db'" by (rule runs_kept_same) (simp add: p(10))
  ultimately show "safe_step None db db'" unfolding safe_step_def by blast
  show "holds (lf_token f) i db'" using p(6-8) unfolding holds_def leases by auto
  show "lf_run f = i" "token = Some (lf_token f)" "lf_token f \<notin> lr_fence ` set (mg_leases db)" using p by blast+
qed

lemma opened_safe:
  assumes good: "mig_good db" and o: "mig_Open s db = (Inr st, db')"
  shows "safe_step None db db'"
proof (cases "known_run (sn_id s) db")
  case True
  then show ?thesis using OpenD(3) [OF o] good grows_refl runs_kept_same [of db db] unfolding safe_step_def by auto
next
  case new: False
  note d = OpenD(4) [OF o new]
  let ?ts = "fresh_tables (sn_id s) 0 (sn_bounds s)"
  have ok: "leases_ok db" "tables_ok db" "receipts_ok db" using good unfolding mig_good_def by blast+
  have known: "known_run j db' \<longleftrightarrow> j = sn_id s \<or> known_run j db" for j
    using d unfolding known_run_def by (auto simp: new_run_def)
  have old: "tr_run t \<noteq> sn_id s" if "t \<in> set (mg_tables db)" for t
    using that ok(2) new unfolding tables_ok_def known_run_def by force
  have "map (\<lambda>t. (tr_run t, tr_table t)) ?ts = map (Pair (sn_id s)) (map tb_table (sn_bounds s))"
    unfolding fresh_tables_props(1) [of "sn_id s" 0, symmetric] map_map
    by (rule map_cong) (auto dest: fresh_tables_props(3))
  then have "distinct (map (\<lambda>t. (tr_run t, tr_table t)) ?ts)"
    using d by (simp add: distinct_map inj_on_def)
  moreover have "(tr_run t, tr_table t) \<noteq> (tr_run t', tr_table t')" if "t \<in> set (mg_tables db)" "t' \<in> set ?ts" for t t'
    using old [OF that(1)] fresh_tables_props(3) [OF that(2)] by simp
  moreover have "tr_run ` set ?ts \<subseteq> {sn_id s}" using fresh_tables_props(3) by blast
  moreover have "distinct (map gr_id (mg_runs db @ [new_run s]))"
    using ok(2) new unfolding tables_ok_def known_run_def by (simp add: new_run_def)
  ultimately have "tables_ok db'"
    using ok(2) d unfolding tables_ok_def by (auto simp: new_run_def)
  moreover have "leases_ok db'" using ok(1) d known unfolding leases_ok_def by simp
  moreover have "receipts_ok db'" using ok(3) d unfolding receipts_ok_def by simp
  moreover have "appends db db'" using d known unfolding appends_def issued_def by simp
  moreover have "run_view j db' = run_view j db" if j: "known_run j db" for j
  proof -
    have "j \<noteq> sn_id s" using j new by blast
    then have "find_run j db' = find_run j db" "filter (\<lambda>t. tr_run t = j) ?ts = []"
      using d fresh_tables_props(3) unfolding find_run_def
      by (auto simp: find_append new_run_def filter_empty_conv split: option.splits)
    then show ?thesis using d unfolding run_view_def run_results_def by simp
  qed
  moreover have "holds tok j db" if "holds tok j db'" for tok j
    using that d unfolding holds_def by simp
  moreover have "runs_kept db db'"
    using d unfolding runs_kept_def find_run_def by (simp add: find_append)
  ultimately show ?thesis unfolding safe_step_def mig_good_def by blast
qed

text \<open>A checkpoint that moves.\<close>

lemma put_table_keys:
  "map (\<lambda>t. (tr_run t, tr_table t)) (mg_tables (put_table new db)) = map (\<lambda>t. (tr_run t, tr_table t)) (mg_tables db)"
  unfolding put_table_def by simp

lemma filter_put:
  "tr_run new \<noteq> i \<Longrightarrow> filter (\<lambda>t. tr_run t = i)
     (map (\<lambda>r. if tr_run r = tr_run new \<and> tr_table r = tr_table new then new else r) ts) = filter (\<lambda>t. tr_run t = i) ts"
  by (induction ts) auto

lemma put_table_other:
  "tr_run new \<noteq> i \<Longrightarrow> filter (\<lambda>t. tr_run t = i) (mg_tables (put_table new db)) = filter (\<lambda>t. tr_run t = i) (mg_tables db)"
  unfolding put_table_def by (simp add: filter_put)

lemma put_table_same:
  "mg_runs (put_table new db) = mg_runs db" "mg_leases (put_table new db) = mg_leases db"
  "mg_receipts (put_table new db) = mg_receipts db" "mg_results (put_table new db) = mg_results db"
  "mg_quarantines (put_table new db) = mg_quarantines db" "mg_archives (put_table new db) = mg_archives db"
  "mg_reconciliations (put_table new db) = mg_reconciliations db" "mg_target (put_table new db) = mg_target db"
  unfolding put_table_def by simp_all

lemma find_tableD: "find_table i t db = Some r \<Longrightarrow> r \<in> set (mg_tables db) \<and> tr_run r = i \<and> tr_table r = t"
  unfolding find_table_def find_Some_iff by force

lemma advanced_safe:
  assumes good: "mig_good db" and a: "mig_Advance now f t c db = (Inr v, db')"
  shows "safe_step (Some (lf_token f, lf_run f)) db db'"
proof -
  obtain old where o: "find_table (lf_run f) t db = Some old" "active_fence now f db"
      "db' = put_table (old\<lparr>tr_point := c, tr_lease := Some (lf_generation f, lf_token f)\<rparr>) db"
    by (rule AdvanceD [OF a])
  let ?new = "old\<lparr>tr_point := c, tr_lease := Some (lf_generation f, lf_token f)\<rparr>"
  note old = find_tableD [OF o(1)]
  note same = put_table_same [of ?new db, folded o(3)]
  have known: "known_run j db' = known_run j db" for j unfolding known_run_def same by simp
  have "(\<lambda>t. (tr_run t, tr_table t)) ` set (mg_tables db') = (\<lambda>t. (tr_run t, tr_table t)) ` set (mg_tables db)"
    using arg_cong [OF put_table_keys [of ?new db], of set] unfolding o(3) by simp
  from arg_cong [OF this, of "image fst"] have "tr_run ` set (mg_tables db') = tr_run ` set (mg_tables db)"
    by (simp add: image_image)
  then have "tables_ok db'"
    using good unfolding mig_good_def tables_ok_def same unfolding o(3) put_table_keys by simp
  then have "mig_good db'"
    using good unfolding mig_good_def leases_ok_def receipts_ok_def known same by blast
  moreover have "appends db db'" unfolding appends_def known unfolding issued_def same by simp
  moreover have "run_view j db' = run_view j db" if "j \<noteq> lf_run f" for j
    using that put_table_other [of ?new j db] old
    unfolding run_view_def find_run_def run_results_def same unfolding o(3) by simp
  moreover have "holds tok j db' = holds tok j db" for tok j unfolding holds_def same by simp
  moreover have "runs_kept db db'" by (rule runs_kept_same [OF same(1)])
  ultimately show ?thesis using active_fence_holds [OF o(2)] by (intro safe_stepI) simp_all
qed

text \<open>A row that is applied.\<close>

lemma facts_kept:
  assumes ok: "receipts_ok db" and r: "row_applied reg f r replayed db db'" "result_noted i r recorded db db'"
    and mem: "r \<in> set (mg_receipts db')"
  shows "receipts_ok db'"
proof -
  have receipts: "distinct (map row_key (mg_receipts db')) \<and> (\<forall>x \<in> set (mg_receipts db'). receipt_columns x) \<and>
      set (mg_receipts db) \<subseteq> set (mg_receipts db')"
    using ok r(1) unfolding receipts_ok_def row_applied_def by (auto split: if_splits)
  have keys: "result_key ` set (mg_results db) \<union> {result_key (result_of i r)} = result_key ` set (mg_results db')"
      "distinct (map result_key (mg_results db'))"
    using ok r(2) unfolding receipts_ok_def result_noted_def by (auto split: if_splits)
  have "x \<in> set (mg_results db) \<or> x = result_of i r" if "x \<in> set (mg_results db')" for x
    using r(2) that unfolding result_noted_def by (auto split: if_splits)
  moreover have "re_row (result_of i r) = r" "re_run (result_of i r) = i" by (simp_all add: result_of_def)
  ultimately have "re_row x \<in> set (mg_receipts db') \<and> x = result_of (re_run x) (re_row x)"
    if "x \<in> set (mg_results db')" for x
    using that ok receipts mem unfolding receipts_ok_def by (metis subsetD)
  then show ?thesis using receipts keys(2) unfolding receipts_ok_def by blast
qed

lemma applied_safe:
  assumes good: "mig_good db" and a: "applyRow E (pg_ports reg) s D t p f row db = (Inr (recorded, replayed, d), db')"
    and held: "holds (lf_token f) (lf_run f) db"
  shows "safe_step (Some (lf_token f, lf_run f)) db db'"
proof -
  have ok: "leases_ok db" "tables_ok db" "receipts_ok db" using good unfolding mig_good_def by blast+
  obtain r qs as where e: "row_applied reg f r replayed db db'" "result_noted (lf_run f) r recorded db db'"
      "same_control db db'" "mg_quarantines db' = mg_quarantines db @ qs" "mg_archives db' = mg_archives db @ as"
      "r \<in> set (mg_receipts db')"
    by (rule applyRowD [OF a])
  note same = e(3) [unfolded same_control_def]
  have known: "known_run j db' = known_run j db" for j unfolding known_run_def using same by simp
  have "known_run (lf_run f) db" by (rule holds_run [OF ok(1) held])
  then have "lf_run f \<in> gr_id ` set (mg_runs db)" unfolding known_run_def .
  then have "re_run ` set (mg_results db') \<subseteq> gr_id ` set (mg_runs db)"
    using e(2) ok(2) unfolding result_noted_def tables_ok_def by (auto simp: result_of_def split: if_splits)
  then have "mig_good db'"
    using facts_kept [OF ok(3) e(1,2,6)] ok(1,2) same unfolding mig_good_def leases_ok_def tables_ok_def known by simp
  moreover have "appends db db'"
    using e same unfolding appends_def known row_applied_def result_noted_def issued_def by (auto split: if_splits)
  moreover have "run_view j db' = run_view j db" if "j \<noteq> lf_run f" for j
  proof -
    have "run_results j db' = run_results j db"
      using e(2) that unfolding run_results_def result_noted_def by (auto simp: result_of_def split: if_splits)
    then show ?thesis using same unfolding run_view_def find_run_def by simp
  qed
  moreover have "holds tok j db' = holds tok j db" for tok j using same unfolding holds_def by simp
  moreover have "runs_kept db db'" by (rule runs_kept_same) (use same in simp)
  ultimately show ?thesis using held by (intro safe_stepI) simp_all
qed

text \<open>The end of a run, and of its reconciliation.\<close>

lemma find_set_phase:
  "find_run j (set_phase i p now db) = (if j = i then map_option (\<lambda>r. if p = PhaseCompleted
     then r\<lparr>gr_phase := PhaseCompleted, gr_completed := Some now\<rparr> else r\<lparr>gr_phase := p, gr_reconciled := Some now\<rparr>)
     (find_run j db) else find_run j db)"
proof -
  define g :: "run_row \<Rightarrow> run_row" where "g = (\<lambda>r. if gr_id r \<noteq> i then r
     else if p = PhaseCompleted then r\<lparr>gr_phase := PhaseCompleted, gr_completed := Some now\<rparr>
     else r\<lparr>gr_phase := p, gr_reconciled := Some now\<rparr>)"
  have "find_run j (set_phase i p now db) = map_option g (find_run j db)"
    unfolding find_run_def set_phase_def g_def [symmetric] by (simp add: find_map_same g_def)
  then show ?thesis
    using find_run_Some [of j db] by (cases "find_run j db") (auto simp: g_def)
qed

lemma finish_safe:
  assumes good: "mig_good db" and a: "mig_finish now f p db = (Inr v, db')"
  shows "safe_step (Some (lf_token f, lf_run f)) db db'"
proof -
  note d = finishD [OF a]
  let ?r = "retire now (is_lease f) db"
  define g where "g = (\<lambda>l. if is_lease f l \<and> lr_active l then l\<lparr>lr_active := False, lr_retired := Some now\<rparr> else l)"
  have r: "?r = db\<lparr>mg_leases := map g (mg_leases db)\<rparr>" unfolding retire_def g_def by simp
  have "lease_step l (g l)" for l unfolding g_def lease_step_def by simp
  then have s: "safe_step (Some (lf_token f, lf_run f)) db ?r"
    by (rule leases_mapped_safe [OF good r]) (use active_fence_holds [OF d(2)] in auto)
  then have good1: "mig_good ?r" and grows1: "appends db ?r" unfolding safe_step_def by blast+
  have same: "mg_leases db' = mg_leases ?r" "mg_tables db' = mg_tables ?r" "mg_receipts db' = mg_receipts ?r"
      "mg_results db' = mg_results ?r" "mg_quarantines db' = mg_quarantines ?r" "mg_archives db' = mg_archives ?r"
      "mg_reconciliations db' = mg_reconciliations ?r"
    unfolding d(4) set_phase_def by simp_all
  have ids: "map gr_id (mg_runs db') = map gr_id (mg_runs ?r)"
    unfolding d(4) set_phase_def by simp
  have known: "known_run j db' = known_run j ?r" for j
    using arg_cong [OF ids, of set] unfolding known_run_def by simp
  have "gr_id ` set (mg_runs db') = gr_id ` set (mg_runs ?r)" using arg_cong [OF ids, of set] by simp
  then have "tables_ok db'" using good1 ids unfolding mig_good_def tables_ok_def same by simp
  then have "mig_good db'" using good1 unfolding mig_good_def leases_ok_def receipts_ok_def known same by blast
  moreover have "appends db db'"
    by (rule grows_trans [OF grows1]) (simp add: appends_def known issued_def same)
  moreover have "run_view j db' = run_view j db" if j: "j \<noteq> lf_run f" "known_run j db" for j
  proof -
    have "find_run j db' = find_run j ?r" unfolding d(4) find_set_phase using j(1) by simp
    then have "run_view j db' = run_view j ?r" unfolding run_view_def run_results_def same by simp
    also have "\<dots> = run_view j db" using s j unfolding safe_step_def by blast
    finally show ?thesis .
  qed
  moreover have "holds tok j db" if "issued tok j db" "holds tok j db'" for tok j
    using that s unfolding safe_step_def holds_def same by blast
  moreover have "runs_kept ?r db'" unfolding runs_kept_def d(4) find_set_phase by simp
  then have "runs_kept db db'" using runs_kept_trans s unfolding safe_step_def by blast
  ultimately show ?thesis using active_fence_holds [OF d(2)] by (intro safe_stepI) blast+
qed

lemma settled_safe:
  assumes good: "mig_good db" and a: "settle_unit sv (pg_ports reg) (lf_run f) f st n s db = (Inr v, db')"
  shows "safe_step (Some (lf_token f, lf_run f)) db db'"
proof -
  obtain r db1 where r: "mig_AppendReconciliationReceipt (st_now s) f r db = (Inr (), db1)" "rc_run r = lf_run f"
      "mig_finish (st_now s) f PhaseReconciled db1 = (Inr (), db')"
    using a unfolding settle_unit_def by (auto simp: tx_iff mig_MarkReconciled_def)
  note d = AppendReconciliationD [OF r(1), unfolded r(2)]
  have fence: "active_fence (st_now s) f db" using d by simp
  have same: "mg_runs db1 = mg_runs db" "mg_tables db1 = mg_tables db" "mg_leases db1 = mg_leases db"
      "mg_receipts db1 = mg_receipts db" "mg_results db1 = mg_results db" "mg_quarantines db1 = mg_quarantines db"
      "mg_archives db1 = mg_archives db" "mg_reconciliations db1 = mg_reconciliations db @ [r]"
    using d by simp_all
  have known: "known_run j db1 = known_run j db" for j unfolding known_run_def same by simp
  have "mig_good db1"
    using good unfolding mig_good_def leases_ok_def tables_ok_def receipts_ok_def known same by blast
  moreover have "appends db db1" unfolding appends_def known issued_def same by simp
  moreover have "run_view j db1 = run_view j db" if "j \<noteq> lf_run f" for j
    using that r(2) unfolding run_view_def find_run_def run_results_def same by simp
  moreover have "holds tok j db1 = holds tok j db" for tok j unfolding holds_def same by simp
  moreover have "runs_kept db db1" by (rule runs_kept_same [OF same(1)])
  ultimately have "safe_step (Some (lf_token f, lf_run f)) db db1"
    using active_fence_holds [OF fence] by (intro safe_stepI) simp_all
  moreover have "safe_step (Some (lf_token f, lf_run f)) db1 db'"
    by (rule finish_safe [OF \<open>mig_good db1\<close> r(3)])
  ultimately show ?thesis by (rule safe_step_trans)
qed

lemma row_safe:
  assumes good: "mig_good db" and a: "row_unit sv (pg_ports reg) D t p f row c s db = (Inr v, db')"
  shows "safe_step (Some (lf_token f, lf_run f)) db db'"
proof -
  obtain recorded replayed d where v: "v = (recorded, replayed, d)" by (cases v)
  obtain db1 where u: "applyRow (sv_env sv) (pg_ports reg) s D t p f row db = (Inr (recorded, replayed, d), db1)"
      "mig_Advance (st_now s) f (ts_id t) (next_point c row recorded) db1 = (Inr (), db')"
    by (rule row_unitD [OF a [unfolded v]])
  have "mg_leases db1 = mg_leases db"
    by (rule applyRowD [OF u(1)]) (simp add: same_control_def)
  moreover have "holds (lf_token f) (lf_run f) db1"
    by (rule AdvanceD [OF u(2)]) (rule active_fence_holds)
  ultimately have "holds (lf_token f) (lf_run f) db" unfolding holds_def by simp
  then have s: "safe_step (Some (lf_token f, lf_run f)) db db1" by (rule applied_safe [OF good u(1)])
  then have "mig_good db1" unfolding safe_step_def by blast
  then show ?thesis using safe_step_trans [OF s] advanced_safe [OF _ u(2)] by blast
qed

lemma renewed_safe:
  assumes good: "mig_good db" and a: "mig_RenewLease now f c ttl db = (Inr f', db')"
  shows "safe_step (Some (lf_token f, lf_run f)) db db'"
proof -
  obtain g where g: "holds (lf_token f) (lf_run f) db" "\<And>l. lease_step l (g l) \<and> lr_active (g l) = lr_active l"
      "db' = db\<lparr>mg_leases := map g (mg_leases db)\<rparr>"
    by (rule RenewD [OF a]) (use that in blast)
  show ?thesis by (rule leases_mapped_safe [OF good g(3)]) (use g in auto)
qed

theorem mig_step_safe: "mig_step reg l db db' \<Longrightarrow> mig_good db \<Longrightarrow> safe_step l db db'"
  by (induction rule: mig_step.induct)
    (auto intro: opened_safe acquired_safe(1) renewed_safe row_safe advanced_safe finish_safe settled_safe
      simp: mig_Finish_def)

end
