(* ===== verification/MigrationContract.thy ===== *)
theory MigrationContract
  imports MigrationHistory
begin

text \<open>
  The contract of fenced leases, as an interface: a history of steps, some of them labelled with
  the lease that they use. Whoever holds a lease sees no change of what it guards but its own, a
  lease that was lost is lost for good, and no step uses a lease that is not held. The migration
  tables provide it.
\<close>

section \<open>The interface\<close>

locale fenced_history =
  fixes step :: "'l option \<Rightarrow> 'd \<Rightarrow> 'd \<Rightarrow> bool"
    and good :: "'d \<Rightarrow> bool"
    and held :: "'l \<Rightarrow> 'd \<Rightarrow> bool"
    and given :: "'l \<Rightarrow> 'd \<Rightarrow> bool"
    and view :: "'l \<Rightarrow> 'd \<Rightarrow> 'v"
  assumes step_good: "good d \<Longrightarrow> step l d d' \<Longrightarrow> good d'"
    and step_given: "good d \<Longrightarrow> step l d d' \<Longrightarrow> given a d \<Longrightarrow> given a d'"
    and step_held: "good d \<Longrightarrow> step l d d' \<Longrightarrow> given a d \<Longrightarrow> held a d' \<Longrightarrow> held a d"
    and step_view: "good d \<Longrightarrow> step l d d' \<Longrightarrow> held a d \<Longrightarrow> l \<noteq> Some a \<Longrightarrow> view a d' = view a d"
    and step_own: "good d \<Longrightarrow> step (Some a) d d' \<Longrightarrow> held a d"
begin

definition any_step :: "'d \<Rightarrow> 'd \<Rightarrow> bool" where
  "any_step d d' \<longleftrightarrow> (\<exists>l. step l d d')"

definition step_of_others :: "'l \<Rightarrow> 'd \<Rightarrow> 'd \<Rightarrow> bool" where
  "step_of_others a d d' \<longleftrightarrow> (\<exists>l. l \<noteq> Some a \<and> step l d d')"

lemma any_good: "any_step\<^sup>*\<^sup>* d d' \<Longrightarrow> good d \<Longrightarrow> good d'"
  by (induction rule: rtranclp_induct) (auto simp: any_step_def intro: step_good)

lemma any_given:
  assumes "any_step\<^sup>*\<^sup>* d d'" "good d" "given a d"
  shows "given a d'"
  using assms
proof (induction rule: rtranclp_induct)
  case (step y z)
  have "good y" using any_good step.hyps(1) step.prems(1) by blast
  then show ?case using step unfolding any_step_def by (blast dest: step_given)
qed

lemma any_held:
  assumes "any_step\<^sup>*\<^sup>* d d'" "good d" "given a d" "held a d'"
  shows "held a d"
  using assms
proof (induction rule: rtranclp_induct)
  case (step y z)
  have "good y" "given a y" using any_good any_given step.hyps(1) step.prems by blast+
  then show ?case using step unfolding any_step_def by (blast dest: step_held)
qed

lemma lost_for_good:
  assumes "any_step\<^sup>*\<^sup>* d d'" "good d" "given a d" "\<not> held a d"
  shows "\<not> held a d'" and "\<not> step (Some a) d' d''"
  using assms any_held any_good step_own by blast+

lemma others_any: "(step_of_others a)\<^sup>*\<^sup>* d d' \<Longrightarrow> any_step\<^sup>*\<^sup>* d d'"
  by (erule rtranclp_mono [THEN predicate2D, rotated]) (auto simp: step_of_others_def any_step_def)

lemma others_view:
  assumes "(step_of_others a)\<^sup>*\<^sup>* d d'" "good d" "given a d" "held a d'"
  shows "held a d" and "view a d' = view a d" and "good d'" and "given a d'"
proof -
  show "held a d" "good d'" "given a d'"
    using assms others_any any_held any_good any_given by blast+
  show "view a d' = view a d"
    using assms
  proof (induction rule: rtranclp_induct)
    case (step y z)
    then have y: "good y" "given a y" using others_any any_good any_given by blast+
    then have "held a y" using step unfolding step_of_others_def by (blast dest: step_held)
    then show ?case using step y unfolding step_of_others_def by (metis step_view)
  qed simp
qed

end

section \<open>The migration tables provide it\<close>

lemma safe_stepD:
  assumes "safe_step l db db'"
  shows "mig_good db'" "appends db db'" "issued tok i db \<Longrightarrow> holds tok i db' \<Longrightarrow> holds tok i db"
    "known_run i db \<Longrightarrow> (\<And>tok. l \<noteq> Some (tok, i)) \<Longrightarrow> run_view i db' = run_view i db"
    "l = Some (tok, i) \<Longrightarrow> holds tok i db" "runs_kept db db'"
  using assms unfolding safe_step_def by blast+

lemma holds_known: "mig_good db \<Longrightarrow> holds tok i db \<Longrightarrow> known_run i db"
  unfolding mig_good_def by (blast intro: holds_run)

interpretation fenced: fenced_history "mig_step reg" mig_good "\<lambda>(tok, i). holds tok i" "\<lambda>(tok, i). issued tok i"
    "\<lambda>(tok, i). run_view i"
  for reg :: "'w TargetRegistry"
proof (unfold_locales, goal_cases)
  case (1 d l d')
  then show ?case using mig_step_safe safe_stepD(1) by blast
next
  case (2 d l d' a)
  then show ?case using safe_stepD(2) [OF mig_step_safe] unfolding appends_def by (cases a) blast
next
  case (3 d l d' a)
  then show ?case using safe_stepD(3) [OF mig_step_safe] by (cases a) blast
next
  case (4 d l d' a)
  obtain tok i where a: "a = (tok, i)" by (cases a)
  note s = mig_step_safe [OF 4(2,1)]
  have held: "holds tok i d" using 4(3) a by simp
  have "l \<noteq> Some (tok', i)" for tok'
    using 4(1,4) a safe_stepD(5) [OF s] held one_holder unfolding mig_good_def by blast
  then show ?case using safe_stepD(4) [OF s] holds_known [OF 4(1) held] a by simp
next
  case (5 d a d')
  then show ?case using safe_stepD(5) [OF mig_step_safe] by (cases a) blast
qed

lemma fenced_steps:
  "fenced.any_step reg = some_step reg" "fenced.step_of_others reg a = other_step reg a"
  unfolding fenced.any_step_def fenced.step_of_others_def some_step_def other_step_def by (intro ext; blast)+

definition grown :: "'w mig_db \<Rightarrow> 'w mig_db \<Rightarrow> bool" where
  "grown db db' \<longleftrightarrow> mig_good db' \<and> appends db db' \<and> runs_kept db db'"

lemma grown_trans: "grown a b \<Longrightarrow> grown b c \<Longrightarrow> grown a c"
  unfolding grown_def by (blast intro: grows_trans runs_kept_trans)

lemma grown_refl: "mig_good db \<Longrightarrow> grown db db"
  unfolding grown_def by (simp add: grows_refl runs_kept_same)

lemma step_grown: "mig_step reg l db db' \<Longrightarrow> mig_good db \<Longrightarrow> grown db db'"
  unfolding grown_def by (blast dest: mig_step_safe safe_stepD)

lemma others_grow: "(other_step reg a)\<^sup>*\<^sup>* db db' \<Longrightarrow> mig_good db \<Longrightarrow> grown db db'"
proof (induction rule: rtranclp_induct)
  case (step y z)
  then obtain l where "mig_step reg l y z" unfolding other_step_def by blast
  moreover have "grown db y" using step by blast
  ultimately show ?case using step_grown grown_trans unfolding grown_def by blast
qed (rule grown_refl)

section \<open>The target\<close>

text \<open>
  Applying a log of mapped rows, each under a fence; and the log that a database stands for: one
  entry for each row receipt that imports, in the order of the receipts.
\<close>

fun replay_target :: "'w TargetRegistry \<Rightarrow> (LeaseFence \<times> MappedRow) list \<Rightarrow> 'w \<Rightarrow> mig_error + 'w" where
  "replay_target reg [] w = Inr w"
| "replay_target reg ((f, m) # log) w =
     (case target_apply reg f m w of Inl e \<Rightarrow> Inl e | Inr w' \<Rightarrow> replay_target reg log w')"

lemma replay_append:
  "replay_target reg log w = Inr v \<Longrightarrow> target_apply reg f m v = Inr v' \<Longrightarrow>
   replay_target reg (log @ [(f, m)]) w = Inr v'"
  by (induction log arbitrary: w) (auto split: sum.splits)

definition log_of :: "'w mig_db \<Rightarrow> (string \<times> digest) list" where
  "log_of db = map (\<lambda>r. (wr_operation r, wr_mutation r)) (filter (\<lambda>r. importing (wr_disposition r)) (mg_receipts db))"

definition target_is_log :: "'w TargetRegistry \<Rightarrow> 'w \<Rightarrow> 'w mig_db \<Rightarrow> bool" where
  "target_is_log reg w0 db \<longleftrightarrow> (\<exists>log. replay_target reg log w0 = Inr (mg_target db) \<and>
     map (\<lambda>(f, m). (mp_operation m, mp_digest m)) log = log_of db)"

definition empty_mig :: "'w \<Rightarrow> 'w mig_db" where
  "empty_mig w = \<lparr>mg_runs = [], mg_tables = [], mg_leases = [], mg_receipts = [], mg_results = [],
     mg_quarantines = [], mg_archives = [], mg_reconciliations = [], mg_target = w\<rparr>"

lemma empty_mig_good: "mig_good (empty_mig w)"
  unfolding mig_good_def leases_ok_def tables_ok_def receipts_ok_def empty_mig_def by simp

text \<open>Every step but the work on a row leaves the target and the row receipts alone.\<close>

lemma finish_target: "mig_finish now f p db = (Inr v, db') \<Longrightarrow> mg_target db' = mg_target db \<and> mg_receipts db' = mg_receipts db"
  by (auto dest!: finishD(4) simp: set_phase_def retire_def)

lemma mig_step_target:
  assumes "mig_step reg l db db'" and good: "mig_good db" and log: "target_is_log reg w0 db"
  shows "target_is_log reg w0 db'"
proof -
  have same: ?thesis if "mg_target db' = mg_target db \<and> mg_receipts db' = mg_receipts db"
    using log that unfolding target_is_log_def log_of_def by simp
  show ?thesis
    using assms(1)
  proof cases
    case (opened start st)
    then show ?thesis using OpenD(3,4) [OF opened(2)] by (intro same) (cases "known_run (sn_id start) db"; simp)
  next
    case (acquired now token i c ttl f)
    have "leases_ok db" using good unfolding mig_good_def by blast
    then show ?thesis by (rule AcquireD [OF acquired(2)]) (rule same, simp)
  next
    case (renewed now f c ttl f')
    show ?thesis by (rule RenewD [OF renewed(2)]) (rule same, simp)
  next
    case (row sv D t p f src c s v)
    obtain recorded replayed d where v: "v = (recorded, replayed, d)" by (cases v)
    obtain db1 where u: "applyRow (sv_env sv) (pg_ports reg) s D t p f src db = (Inr (recorded, replayed, d), db1)"
        "mig_Advance (st_now s) f (ts_id t) (next_point c src recorded) db1 = (Inr (), db')"
      by (rule row_unitD [OF row(2) [unfolded v]])
    have same1: "mg_target db' = mg_target db1" "mg_receipts db' = mg_receipts db1"
      by (rule AdvanceD [OF u(2)], simp add: put_table_same)+
    obtain r where r: "row_applied reg f r replayed db db1" by (rule applyRowD [OF u(1)])
    obtain log where log: "replay_target reg log w0 = Inr (mg_target db)"
        "map (\<lambda>(f, m). (mp_operation m, mp_digest m)) log = log_of db"
      using log unfolding target_is_log_def by blast
    show ?thesis
    proof (cases "\<not> replayed \<and> importing (wr_disposition r)")
      case True
      then obtain m where m: "target_apply reg f m (mg_target db) = Inr (mg_target db')"
          "wr_operation r = mp_operation m" "wr_mutation r = mp_digest m" "mg_receipts db' = mg_receipts db @ [r]"
        using r same1 unfolding row_applied_def by auto
      then show ?thesis
        using replay_append [OF log(1) m(1)] log(2) True unfolding target_is_log_def log_of_def
        by (intro exI [of _ "log @ [(f, m)]"]) simp
    next
      case False
      then have "mg_target db' = mg_target db" "log_of db' = log_of db"
        using r same1 unfolding row_applied_def log_of_def by (auto split: if_splits)
      then show ?thesis using log unfolding target_is_log_def by auto
    qed
  next
    case (advanced now f t c v)
    show ?thesis by (rule AdvanceD [OF advanced(2)]) (rule same, simp add: put_table_same)
  next
    case (finished now f v)
    then show ?thesis using finish_target unfolding mig_Finish_def by (intro same) blast
  next
    case (settled sv f st n s v)
    then obtain r db1 where "mig_AppendReconciliationReceipt (st_now s) f r db = (Inr (), db1)"
        "mig_finish (st_now s) f PhaseReconciled db1 = (Inr (), db')"
      unfolding settle_unit_def by (auto simp: tx_iff mig_MarkReconciled_def)
    then show ?thesis using AppendReconciliationD finish_target by (intro same) fastforce
  qed
qed

lemma history_target:
  assumes "(some_step reg)\<^sup>*\<^sup>* (empty_mig w0) db"
  shows "mig_good db \<and> target_is_log reg w0 db"
  using assms
proof (induction rule: rtranclp_induct)
  case base
  have "target_is_log reg w0 (empty_mig w0)"
    unfolding target_is_log_def log_of_def empty_mig_def by (intro exI [of _ "[]"]) simp
  then show ?case by (intro conjI empty_mig_good)
next
  case (step y z)
  then show ?case using mig_step_target mig_step_safe safe_stepD(1) unfolding some_step_def by metis
qed

end
