(* ===== verification/MigrationReturns.thy ===== *)
theory MigrationReturns
  imports MigrationContract
begin

text \<open>
  A run and a reconciliation return, whatever the ports answer and whatever the other processes
  do, when every stream offers rows of lower and lower rank: below a fixed upper bound there are
  only finitely many cursors after a given one.
\<close>

definition finite_stream :: "int \<Rightarrow> AdapterDefinition \<Rightarrow> bool" where
  "finite_stream limit D \<longleftrightarrow> (\<forall>t ub. \<exists>rank :: string \<Rightarrow> nat. \<forall>after.
     \<forall>row \<in> set (fst (ad_stream D t ub after limit)). rank (sr_cursor row) < rank after)"

lemma feed_invariant:
  assumes "feed k rows st w = (Inr st', w')" and "I 0 st"
    and "\<And>n st w st' w'. n < length rows \<Longrightarrow> I n st \<Longrightarrow> k (rows ! n) st w = (Inr st', w') \<Longrightarrow> I (Suc n) st'"
  shows "I (length rows) st'"
  using assms
proof (induction rows arbitrary: st w I)
  case (Cons r rs)
  then obtain st1 w1 where "k r st w = (Inr st1, w1)" "feed k rs st1 w1 = (Inr st', w')" by (auto simp: tx_iff)
  then show ?case
    using Cons.IH [of st1 w1 "\<lambda>n. I (Suc n)"] Cons.prems(2) Cons.prems(3) [of 0] Cons.prems(3) [of "Suc _"] by fastforce
qed simp

lemma take_rowD:
  assumes "take_row sv P U D t f row st w = (Inr st', w')"
  shows "pa_seen st' = pa_seen st + 1" "tc_cursor (pa_point st') = sr_cursor row"
    "tc_bound (pa_point st') = tc_bound (pa_point st)"
  using assms unfolding take_row_def next_point_def
  by (auto simp: tx_iff split: if_splits)

lemma streamed_Inr:
  "streamed k offer st w = (Inr v, w') \<longleftrightarrow>
     feed k (fst offer) st w = (Inr (fst v), w') \<and> snd offer = Inr (snd v)"
  unfolding streamed_def by (cases v) (auto simp: tx_iff)

lemma run_page_Inr:
  assumes "run_page sv P U D t (c, f, res) w = (Inr (c', f', res'), w')"
  shows "\<exists>w1 w2 st complete.
     unit_of_work U (\<lambda>s. mp_RenewLease P s f (st_clock s) (sv_ttl sv)) w = (Inr f', w1) \<and>
     feed (take_row sv P U D t f') (fst (ad_stream D t (tc_bound c) (tc_cursor c) (sv_limit sv)))
       \<lparr>pa_point = c, pa_seen = 0, pa_result = res\<rparr> w1 = (Inr st, w2) \<and>
     snd (ad_stream D t (tc_bound c) (tc_cursor c) (sv_limit sv)) = Inr complete \<and>
     \<not> (pa_seen st = 0 \<and> \<not> complete) \<and> c' = (pa_point st)\<lparr>tc_complete := complete\<rparr> \<and> res' = pa_result st \<and>
     unit_of_work U (\<lambda>s. mp_Advance P s f' (ts_id t) c') w2 = (Inr (), w')"
proof -
  obtain w1 w2 st complete where
      "unit_of_work U (\<lambda>s. mp_RenewLease P s f (st_clock s) (sv_ttl sv)) w = (Inr f', w1)"
      "streamed (take_row sv P U D t f') (ad_stream D t (tc_bound c) (tc_cursor c) (sv_limit sv))
        \<lparr>pa_point = c, pa_seen = 0, pa_result = res\<rparr> w1 = (Inr (st, complete), w2)"
      "\<not> (pa_seen st = 0 \<and> \<not> complete)" "c' = (pa_point st)\<lparr>tc_complete := complete\<rparr>" "res' = pa_result st"
      "unit_of_work U (\<lambda>s. mp_Advance P s f' (ts_id t) c') w2 = (Inr (), w')"
    using assms unfolding run_page_def Let_def prod.case
    by (elim and_then_eq_InrE) (simp split: prod.splits if_splits, elim and_then_eq_InrE, simp)
  then show ?thesis unfolding streamed_Inr fst_conv snd_conv by blast
qed

lemma run_pageD:
  assumes "run_page sv P U D t (c, f, res) w = (Inr (c', f', res'), w')"
    and rank: "\<forall>row \<in> set (fst (ad_stream D t (tc_bound c) (tc_cursor c) (sv_limit sv))). rank (sr_cursor row) < rank (tc_cursor c)"
  shows "tc_bound c' = tc_bound c" "tc_complete c' \<or> rank (tc_cursor c') < (rank (tc_cursor c) :: nat)"
proof -
  let ?rows = "fst (ad_stream D t (tc_bound c) (tc_cursor c) (sv_limit sv))"
  obtain w1 st complete w2 where p:
      "feed (take_row sv P U D t f') ?rows \<lparr>pa_point = c, pa_seen = 0, pa_result = res\<rparr> w1 = (Inr st, w2)"
      "\<not> (pa_seen st = 0 \<and> \<not> complete)" "c' = (pa_point st)\<lparr>tc_complete := complete\<rparr>"
    using run_page_Inr [OF assms(1)] by blast
  have "pa_seen st = int (length ?rows) \<and> tc_bound (pa_point st) = tc_bound c \<and>
      (length ?rows = 0 \<or> tc_cursor (pa_point st) = sr_cursor (?rows ! (length ?rows - 1)))"
    by (rule feed_invariant [OF p(1), where I = "\<lambda>n st. pa_seen st = int n \<and> tc_bound (pa_point st) = tc_bound c \<and>
      (n = 0 \<or> tc_cursor (pa_point st) = sr_cursor (?rows ! (n - 1)))"]) (simp, use take_rowD in fastforce)
  then show "tc_bound c' = tc_bound c" "tc_complete c' \<or> rank (tc_cursor c') < rank (tc_cursor c)"
    using p(2,3) rank by auto
qed

lemma runTable_returns:
  assumes rank: "\<And>after. \<forall>row \<in> set (fst (ad_stream D t ub after (sv_limit sv))). rank (sr_cursor row) < (rank after :: nat)"
    and "tc_bound c = ub"
  shows "runTable sv P U D t (c, f, res) w \<noteq> None"
  using assms(2)
proof (induction "rank (tc_cursor c)" arbitrary: c f res w rule: less_induct)
  case less
  show ?case
  proof (cases "tc_complete c")
    case True
    then show ?thesis by (subst runTable.simps) simp
  next
    case False
    obtain out w1 where p: "run_page sv P U D t (c, f, res) w = (out, w1)" by fastforce
    show ?thesis
    proof (cases out)
      case (Inl e)
      then show ?thesis using p False by (subst runTable.simps) simp
    next
      case (Inr v)
      obtain c' f' res' where v: "v = (c', f', res')" by (cases v)
      note page = run_pageD [OF p [unfolded Inr v], of rank]
      have nxt: "tc_bound c' = ub" "tc_complete c' \<or> rank (tc_cursor c') < rank (tc_cursor c)"
        using page rank less.prems by simp_all
      have "runTable sv P U D t (c', f', res') w1 \<noteq> None"
        using nxt less.hyps [of c'] by (cases "tc_complete c'") (subst runTable.simps, simp, blast)
      then show ?thesis using p Inr v False by (subst runTable.simps) simp
    qed
  qed
qed

lemma run_each_returns:
  assumes "finite_stream (sv_limit sv) D"
  shows "run_each sv P U D state ts st w \<noteq> None"
proof (induction ts arbitrary: st w)
  case (Cons t ts)
  show ?case
  proof (cases "map_of (rs_tables state) (ts_id t)")
    case (Some c)
    obtain rank where "\<And>after. \<forall>row \<in> set (fst (ad_stream D t (tc_bound c) after (sv_limit sv))).
        rank (sr_cursor row) < (rank after :: nat)"
      using assms unfolding finite_stream_def by blast
    then have "runTable sv P U D t (c, fst st, snd st) w \<noteq> None" by (rule runTable_returns) simp
    then show ?thesis using Some Cons.IH by (auto split: sum.splits)
  qed simp
qed simp

lemma verify_rowD:
  assumes "verify_row sv P U D i t p row st w = (Inr st', w')"
  shows "rp_seen st' = rp_seen st + 1" "rp_after st' = sr_cursor row" "rp_rows st' = rp_rows st + 1"
    "rp_total st' = rp_total st + 1"
  using assms unfolding verify_row_def by (auto simp: tx_iff split: if_splits)

lemma verify_pageD:
  assumes "verify_page sv P U D i t p ub (f, st) w = (Inr (complete, f', st'), w')"
    and rank: "\<forall>row \<in> set (fst (ad_stream D t ub (rp_after st) (sv_limit sv))). rank (sr_cursor row) < rank (rp_after st)"
  shows "complete \<or> rank (rp_after st') < (rank (rp_after st) :: nat)"
proof -
  let ?rows = "fst (ad_stream D t ub (rp_after st) (sv_limit sv))"
  obtain w1 w2 where p: "feed (verify_row sv P U D i t p) ?rows (st\<lparr>rp_seen := 0\<rparr>) w1 = (Inr st', w2)"
      "\<not> (rp_seen st' = 0 \<and> \<not> complete)"
    using assms(1) unfolding verify_page_def streamed_def by (auto simp: tx_iff split: if_splits)
  have "rp_seen st' = int (length ?rows) \<and>
      (length ?rows = 0 \<or> rp_after st' = sr_cursor (?rows ! (length ?rows - 1)))"
    by (rule feed_invariant [OF p(1), where I = "\<lambda>n st. rp_seen st = int n \<and>
      (n = 0 \<or> rp_after st = sr_cursor (?rows ! (n - 1)))"]) (simp, use verify_rowD in fastforce)
  then show ?thesis using p(2) rank by auto
qed

lemma verify_pages_returns:
  assumes rank: "\<And>after. \<forall>row \<in> set (fst (ad_stream D t ub after (sv_limit sv))). rank (sr_cursor row) < (rank after :: nat)"
  shows "verify_pages sv P U D i t p ub (f, st) w \<noteq> None"
proof (induction "rank (rp_after st)" arbitrary: f st w rule: less_induct)
  case less
  obtain out w1 where p: "verify_page sv P U D i t p ub (f, st) w = (out, w1)" by fastforce
  show ?case
  proof (cases out)
    case (Inl e)
    then show ?thesis using p by (subst verify_pages.simps) simp
  next
    case (Inr v)
    obtain complete f' st' where v: "v = (complete, f', st')" by (cases v)
    have "complete \<or> rank (rp_after st') < rank (rp_after st)"
      by (rule verify_pageD [OF p [unfolded Inr v]]) (rule rank)
    then show ?thesis using p Inr v less.hyps [of st' f' w1] by (subst verify_pages.simps) auto
  qed
qed

lemma verify_tables_returns:
  assumes "finite_stream (sv_limit sv) D"
  shows "verify_tables sv P U D state bs ts st w \<noteq> None"
proof (induction ts arbitrary: st w)
  case (Cons t ts)
  obtain f rs where st: "st = (f, rs)" by (cases st)
  show ?case
  proof (cases "verify_table_policy sv state bs t")
    case (Inr v)
    obtain c p where v: "v = (c, p)" by (cases v)
    obtain rank where "\<And>after. \<forall>row \<in> set (fst (ad_stream D t (tc_bound c) after (sv_limit sv))).
        rank (sr_cursor row) < (rank after :: nat)"
      using assms unfolding finite_stream_def by blast
    then have "verify_pages sv P U D (rs_id state) t p (tc_bound c) (f, table_start rs) w \<noteq> None"
      by (rule verify_pages_returns)
    then show ?thesis using Inr v st Cons.IH by (auto split: sum.splits)
  qed (simp add: st)
qed simp

definition finite_sources :: "mig_service \<Rightarrow> bool" where
  "finite_sources sv \<longleftrightarrow> (\<forall>(a, D) \<in> set (sv_mappings sv). finite_stream (sv_limit sv) D)"

lemma Run_returns:
  assumes "finite_sources sv"
  shows "Run sv P U i a w \<noteq> None"
proof (cases "prepare_run sv i a")
  case (Inr v)
  obtain D start where v: "v = (D, start)" by (cases v)
  have "map_of (sv_mappings sv) a = Some D"
    using Inr unfolding v prepare_run_def by (auto simp: Let_def split: if_splits option.splits sum.splits)
  then have "finite_stream (sv_limit sv) D"
    using assms map_of_SomeD unfolding finite_sources_def by fastforce
  then have "(run_each sv P U D state ts st w' = None) = False" for state ts st w'
    using run_each_returns by blast
  then show ?thesis
    using Inr v unfolding Run_def by (auto simp del: not_None_eq split: prod.splits sum.splits option.splits)
qed (simp add: Run_def)

lemma Reconcile_returns:
  assumes "finite_sources sv"
  shows "Reconcile sv P U i w \<noteq> None"
proof -
  have "(reconcileSource sv P U state f w' = None) = False" for state f w'
  proof (cases "prepare_reconcile sv state")
    case (Inr v)
    obtain D bs where v: "v = (D, bs)" by (cases v)
    have "map_of (sv_mappings sv) (rs_adapter state) = Some D"
      using Inr unfolding v prepare_reconcile_def by (auto simp: Let_def split: if_splits option.splits sum.splits)
    then have "finite_stream (sv_limit sv) D"
      using assms map_of_SomeD unfolding finite_sources_def by fastforce
    from verify_tables_returns [OF this] show ?thesis using Inr v unfolding reconcileSource_def by simp
  qed (simp add: reconcileSource_def)
  then show ?thesis
    unfolding Reconcile_def by (auto simp del: not_None_eq split: prod.splits sum.splits option.splits)
qed

end
