(* ===== verification/MigrationTracking.thy ===== *)
theory MigrationTracking
  imports MigrationReturns
begin

text \<open>
  How far a run has come with its source: the checkpoint of every table stands after a prefix of
  the table's rows, and the results of the run for the table are those of the prefix, in order.
\<close>

section \<open>Sources\<close>

definition cursor_at :: "SourceRow list \<Rightarrow> nat \<Rightarrow> string" where
  "cursor_at rows n = (if n = 0 then [] else sr_cursor (rows ! (n - 1)))"

text \<open>
  A source lists \<open>rows\<close>: the cursors differ, and after the cursor of the n-th row it offers the
  rows from there on, as many as it likes, and says that it is complete only when it offered all.
\<close>

definition source_rows ::
  "mig_service \<Rightarrow> AdapterDefinition \<Rightarrow> TableSpec \<Rightarrow> UpperBound \<Rightarrow> SourceRow list \<Rightarrow> bool" where
  "source_rows sv D t ub rows \<longleftrightarrow> distinct ([] # map sr_cursor rows) \<and>
     list_all (\<lambda>n. let offer = ad_stream D t ub (cursor_at rows n) (sv_limit sv) in
       fst offer = take (length (fst offer)) (drop n rows) \<and>
       (snd offer = Inr True \<longrightarrow> length rows \<le> n + length (fst offer))) [0..<Suc (length rows)]"

lemma source_rowsD:
  assumes "source_rows sv D t ub rows" "n \<le> length rows"
  shows "fst (ad_stream D t ub (cursor_at rows n) (sv_limit sv)) =
      take (length (fst (ad_stream D t ub (cursor_at rows n) (sv_limit sv)))) (drop n rows)"
    "snd (ad_stream D t ub (cursor_at rows n) (sv_limit sv)) = Inr True \<Longrightarrow>
      length rows \<le> n + length (fst (ad_stream D t ub (cursor_at rows n) (sv_limit sv)))"
  using assms unfolding source_rows_def list_all_iff Let_def by (auto simp del: upt_Suc)

lemma cursor_moves:
  assumes "source_rows sv D t ub rows" "n < length rows"
  shows "sr_cursor (rows ! n) \<noteq> cursor_at rows n" "sr_cursor (rows ! n) = cursor_at rows (Suc n)"
proof -
  have d: "distinct (map sr_cursor rows)" "[] \<notin> sr_cursor ` set rows"
    using assms(1) unfolding source_rows_def by simp_all
  show "sr_cursor (rows ! n) \<noteq> cursor_at rows n"
  proof (cases n)
    case 0
    then show ?thesis using d(2) assms(2) unfolding cursor_at_def by (metis image_eqI nth_mem)
  next
    case (Suc k)
    then show ?thesis using d(1) assms(2) unfolding cursor_at_def by (auto simp: distinct_conv_nth)
  qed
qed (simp add: cursor_at_def)

section \<open>Where a run stands\<close>

definition point_at :: "SourceRow list \<Rightarrow> TableCheckpoint \<Rightarrow> nat \<Rightarrow> bool" where
  "point_at rows c n \<longleftrightarrow> n \<le> length rows \<and> tc_processed c = int n \<and> tc_cursor c = cursor_at rows n \<and>
     (tc_complete c \<longrightarrow> n = length rows)"

definition row_result ::
  "mig_env \<Rightarrow> AdapterDefinition \<Rightarrow> TableSpec \<Rightarrow> Policy \<Rightarrow> string \<Rightarrow> SourceRow \<Rightarrow> ResultReceipt \<Rightarrow> bool" where
  "row_result E D t p i row x \<longleftrightarrow> x = result_of i (re_row x) \<and>
     row_key (re_row x) = row_key (bare_receipt E D t p row) \<and> same_row (re_row x) (bare_receipt E D t p row)"

definition table_results :: "string \<Rightarrow> string \<Rightarrow> 'w mig_db \<Rightarrow> ResultReceipt list" where
  "table_results i t db = filter (\<lambda>x. wr_table (re_row x) = t) (run_results i db)"

definition tracked ::
  "mig_service \<Rightarrow> AdapterDefinition \<Rightarrow> (string \<Rightarrow> UpperBound) \<Rightarrow> (string \<Rightarrow> SourceRow list) \<Rightarrow> string \<Rightarrow> TableSpec \<Rightarrow>
   TableCheckpoint \<Rightarrow> 'w mig_db \<Rightarrow> bool" where
  "tracked sv D ub rows i t c db \<longleftrightarrow> (\<exists>n r p. find_policy sv t = Inr p \<and> find_table i (ts_id t) db = Some r \<and>
     tr_point r = c \<and> tc_bound c = ub (ts_id t) \<and> point_at (rows (ts_id t)) c n \<and>
     list_all2 (row_result (sv_env sv) D t p i) (take n (rows (ts_id t))) (table_results i (ts_id t) db))"

definition all_tracked ::
  "mig_service \<Rightarrow> AdapterDefinition \<Rightarrow> (string \<Rightarrow> UpperBound) \<Rightarrow> (string \<Rightarrow> SourceRow list) \<Rightarrow> string \<Rightarrow>
   (string \<Rightarrow> TableCheckpoint) \<Rightarrow> 'w mig_db \<Rightarrow> bool" where
  "all_tracked sv D ub rows i pts db \<longleftrightarrow>
     (\<forall>t \<in> set (am_tables (ad_manifest D)). tracked sv D ub rows i t (pts (ts_id t)) db)"

text \<open>It is a matter of the run's own part of the database.\<close>

lemma find_in_filter: "List.find (\<lambda>x. P x \<and> Q x) xs = List.find Q (filter P xs)"
  by (induction xs) auto

lemma find_table_view: "find_table i t db = List.find (\<lambda>r. tr_table r = t) (filter (\<lambda>r. tr_run r = i) (mg_tables db))"
  unfolding find_table_def by (rule find_in_filter)

lemma all_tracked_view:
  assumes "run_view i db' = run_view i db"
  shows "all_tracked sv D ub rows i pts db' = all_tracked sv D ub rows i pts db"
  using assms unfolding all_tracked_def tracked_def find_table_view table_results_def run_view_def by simp

section \<open>Operations of the run\<close>

lemma find_put_table:
  "find_table i t (put_table new db) = (if i = tr_run new \<and> t = tr_table new
     then map_option (\<lambda>_. new) (find_table i t db) else find_table i t db)"
proof -
  have "find_table i t (put_table new db) =
      map_option (\<lambda>r. if tr_run r = tr_run new \<and> tr_table r = tr_table new then new else r) (find_table i t db)"
    unfolding find_table_def put_table_def by (simp add: find_map_same)
  then show ?thesis by (cases "find_table i t db") (auto dest: find_tableD)
qed

lemma distinct_tables:
  "manifest_valid m \<Longrightarrow> t \<in> set (am_tables m) \<Longrightarrow> t' \<in> set (am_tables m) \<Longrightarrow> ts_id t = ts_id t' \<Longrightarrow> t = t'"
  unfolding manifest_valid_def by (auto simp: distinct_map dest: inj_onD)

text \<open>
  A checkpoint of one table that moves to the point \<open>c\<close>, with the results that the table then
  has; the other tables stay where they are.
\<close>

lemma tracked_moves:
  assumes all: "all_tracked sv D ub rows i pts db" and m: "manifest_valid (ad_manifest D)"
    and t: "t \<in> set (am_tables (ad_manifest D))"
    and adv: "mig_Advance now f (ts_id t) c db1 = (Inr v, db')" and f: "lf_run f = i"
    and tables: "mg_tables db1 = mg_tables db"
    and others: "\<And>t'. t' \<noteq> ts_id t \<Longrightarrow> table_results i t' db1 = table_results i t' db"
    and pol: "find_policy sv t = Inr p" and b: "tc_bound c = ub (ts_id t)" and pt: "point_at (rows (ts_id t)) c n"
    and res: "list_all2 (row_result (sv_env sv) D t p i) (take n (rows (ts_id t))) (table_results i (ts_id t) db1)"
  shows "all_tracked sv D ub rows i (pts(ts_id t := c)) db'"
proof -
  obtain old where o: "find_table i (ts_id t) db1 = Some old"
      "db' = put_table (old\<lparr>tr_point := c, tr_lease := Some (lf_generation f, lf_token f)\<rparr>) db1"
    by (rule AdvanceD [OF adv, unfolded f]) (rule that)
  let ?new = "old\<lparr>tr_point := c, tr_lease := Some (lf_generation f, lf_token f)\<rparr>"
  have new: "tr_run ?new = i" "tr_table ?new = ts_id t" "tr_point ?new = c" using find_tableD [OF o(1)] by simp_all
  have results: "table_results i t' db' = table_results i t' db1" for t'
    unfolding table_results_def run_results_def o(2) put_table_same ..
  have "tracked sv D ub rows i t' ((pts(ts_id t := c)) (ts_id t')) db'" if t': "t' \<in> set (am_tables (ad_manifest D))" for t'
  proof (cases "ts_id t' = ts_id t")
    case True
    then have "t' = t" using distinct_tables [OF m t' t] by simp
    moreover have "find_table i (ts_id t) db' = Some ?new" using o(1) new unfolding o(2) find_put_table by simp
    ultimately show ?thesis using pol b pt res new(3) results unfolding tracked_def by auto
  next
    case False
    then have "find_table i (ts_id t') db' = find_table i (ts_id t') db"
      using new unfolding o(2) find_put_table unfolding find_table_def tables by simp
    moreover have "table_results i (ts_id t') db' = table_results i (ts_id t') db" using results others False by simp
    ultimately show ?thesis using all t' False unfolding all_tracked_def tracked_def by simp
  qed
  then show ?thesis unfolding all_tracked_def by blast
qed

lemma trackedD:
  assumes "all_tracked sv D ub rows i pts db" "t \<in> set (am_tables (ad_manifest D))" "find_policy sv t = Inr p"
  obtains n r where "find_table i (ts_id t) db = Some r" "tr_point r = pts (ts_id t)"
    "tc_bound (pts (ts_id t)) = ub (ts_id t)" "point_at (rows (ts_id t)) (pts (ts_id t)) n"
    "list_all2 (row_result (sv_env sv) D t p i) (take n (rows (ts_id t))) (table_results i (ts_id t) db)"
  using assms unfolding all_tracked_def tracked_def by auto

text \<open>A page that is complete only when every row was offered.\<close>

lemma advance_tracked:
  assumes all: "all_tracked sv D ub rows i pts db" and m: "manifest_valid (ad_manifest D)"
    and t: "t \<in> set (am_tables (ad_manifest D))" and pol: "find_policy sv t = Inr p"
    and adv: "mig_Advance now f (ts_id t) ((pts (ts_id t))\<lparr>tc_complete := complete\<rparr>) db = (Inr v, db')" and f: "lf_run f = i"
    and fin: "complete \<Longrightarrow> tc_processed (pts (ts_id t)) = int (length (rows (ts_id t)))"
  shows "all_tracked sv D ub rows i (pts(ts_id t := (pts (ts_id t))\<lparr>tc_complete := complete\<rparr>)) db'"
proof -
  obtain n r where r: "tc_bound (pts (ts_id t)) = ub (ts_id t)" "point_at (rows (ts_id t)) (pts (ts_id t)) n"
      "list_all2 (row_result (sv_env sv) D t p i) (take n (rows (ts_id t))) (table_results i (ts_id t) db)"
    by (rule trackedD [OF all t pol])
  show ?thesis
    by (rule tracked_moves [OF all m t adv f _ _ pol, where n = n]) (use r fin in \<open>auto simp: point_at_def\<close>)
qed

lemma row_tracked:
  assumes all: "all_tracked sv D ub rows i pts db" and m: "manifest_valid (ad_manifest D)"
    and t: "t \<in> set (am_tables (ad_manifest D))" and pol: "find_policy sv t = Inr p"
    and unit: "row_unit sv (pg_ports reg) D t p f (rows (ts_id t) ! n) (pts (ts_id t)) s db = (Inr (recorded, replayed, d), db')"
    and f: "lf_run f = i" and src: "source_rows sv D t u (rows (ts_id t))"
    and n: "n < length (rows (ts_id t))" "tc_processed (pts (ts_id t)) = int n"
  shows "recorded" and "all_tracked sv D ub rows i (pts(ts_id t := next_point (pts (ts_id t)) (rows (ts_id t) ! n) True)) db'"
proof -
  let ?c = "pts (ts_id t)" and ?row = "rows (ts_id t) ! n"
  obtain k r0 where r0: "find_table i (ts_id t) db = Some r0" "tr_point r0 = ?c" "tc_bound ?c = ub (ts_id t)"
      "point_at (rows (ts_id t)) ?c k"
      "list_all2 (row_result (sv_env sv) D t p i) (take k (rows (ts_id t))) (table_results i (ts_id t) db)"
    by (rule trackedD [OF all t pol])
  have k: "k = n" using r0(4) n(2) unfolding point_at_def by simp
  obtain db1 where u: "applyRow (sv_env sv) (pg_ports reg) s D t p f ?row db = (Inr (recorded, replayed, d), db1)"
      "mig_Advance (st_now s) f (ts_id t) (next_point ?c ?row recorded) db1 = (Inr (), db')"
    by (rule row_unitD [OF unit])
  obtain r where r: "result_noted i r recorded db db1" "row_key r = row_key (bare_receipt (sv_env sv) D t p ?row)"
      "same_row r (bare_receipt (sv_env sv) D t p ?row)" "same_control db db1"
    by (rule applyRowD [OF u(1), unfolded f])
  have tables: "mg_tables db1 = mg_tables db" using r(4) unfolding same_control_def by simp
  obtain old where old: "find_table i (ts_id t) db1 = Some old"
      "checkpoint_guard (map_option gr_phase (find_run i db1)) old
        (old\<lparr>tr_point := next_point ?c ?row recorded, tr_lease := Some (lf_generation f, lf_token f)\<rparr>)"
    by (rule AdvanceD [OF u(2), unfolded f])
  have "tr_point old = ?c" using old(1) r0(1,2) tables unfolding find_table_def by simp
  note guard = old(2) [unfolded checkpoint_guard_def this]
  have cursor: "sr_cursor ?row \<noteq> tc_cursor ?c" "sr_cursor ?row = cursor_at (rows (ts_id t)) (Suc n)"
    using cursor_moves [OF src n(1)] r0(4) k unfolding point_at_def by simp_all
  show rec: recorded using guard cursor(1) unfolding next_point_def by (auto split: if_splits)
  have open_: "\<not> tc_complete ?c"
  proof
    assume "tc_complete ?c"
    then have "old\<lparr>tr_point := next_point ?c ?row recorded, tr_lease := Some (lf_generation f, lf_token f)\<rparr> = old"
      using guard by blast
    from arg_cong [OF this, of "\<lambda>r. tc_cursor (tr_point r)"] show False
      using cursor(1) \<open>tr_point old = ?c\<close> unfolding next_point_def by simp
  qed
  have "wr_table r = ts_id t" using r(2) unfolding row_key_def bare_receipt_def by simp
  then have results: "table_results i t' db1 = table_results i t' db @ (if t' = ts_id t then [result_of i r] else [])" for t'
    using r(1) rec unfolding result_noted_def table_results_def run_results_def by (simp add: result_of_def)
  have "row_result (sv_env sv) D t p i ?row (result_of i r)"
    using r(2,3) unfolding row_result_def by (simp add: result_of_def)
  then have "list_all2 (row_result (sv_env sv) D t p i) (take (Suc n) (rows (ts_id t))) (table_results i (ts_id t) db1)"
    using r0(5) k n(1) unfolding results by (simp add: take_Suc_conv_app_nth list_all2_appendI)
  moreover have "point_at (rows (ts_id t)) (next_point ?c ?row True) (Suc n)"
    using n cursor(2) open_ unfolding point_at_def next_point_def by simp
  ultimately show "all_tracked sv D ub rows i (pts(ts_id t := next_point ?c ?row True)) db'"
    using u(2) rec r0(3) results
    by (intro tracked_moves [OF all m t _ f tables _ pol]) (simp_all add: next_point_def)
qed

end
