(* ===== verification/MigrationRuns.thy ===== *)
theory MigrationRuns
  imports MigrationTracking
begin

text \<open>
  A run among other processes. The others may do anything to the database that the services do,
  with any lease but the one that this run was given.
\<close>

section \<open>Units among others\<close>

definition among_others :: "'w TargetRegistry \<Rightarrow> 'w mig_db mig_outside \<Rightarrow> digest \<Rightarrow> string \<Rightarrow> bool" where
  "among_others reg U tok i \<longleftrightarrow> (\<forall>k d. (other_step reg (tok, i))\<^sup>*\<^sup>* d (os_between U k d))"

definition standing :: "('w mig_db \<Rightarrow> bool) \<Rightarrow> digest \<Rightarrow> string \<Rightarrow> 'w mig_db mig_world \<Rightarrow> bool" where
  "standing Q tok i w \<longleftrightarrow> mig_good (wd_db w) \<and> issued tok i (wd_db w) \<and> (holds tok i (wd_db w) \<longrightarrow> Q (wd_db w))"

lemma standing_mono: "standing Q tok i w \<Longrightarrow> (\<And>d. Q d \<Longrightarrow> Q' d) \<Longrightarrow> standing Q' tok i w"
  unfolding standing_def by blast

lemma standingI: "mig_good (wd_db w) \<Longrightarrow> issued tok i (wd_db w) \<Longrightarrow> Q (wd_db w) \<Longrightarrow> standing Q tok i w"
  unfolding standing_def by blast

definition view_stable :: "string \<Rightarrow> ('w mig_db \<Rightarrow> bool) \<Rightarrow> bool" where
  "view_stable i Q \<longleftrightarrow> (\<forall>d d'. run_view i d' = run_view i d \<longrightarrow> Q d \<longrightarrow> Q d')"

lemma all_tracked_stable: "view_stable i (all_tracked sv D ub rows i pts)"
  unfolding view_stable_def using all_tracked_view by blast

lemma unit_cases:
  assumes "unit_of_work U body w = (out, w')"
  obtains e d where "out = Inl e" "body (os_stamp U (wd_tick w)) (os_between U (wd_tick w) (wd_db w)) = (Inl e, d)"
      "wd_db w' = os_between U (wd_tick w) (wd_db w)"
  | v d where "body (os_stamp U (wd_tick w)) (os_between U (wd_tick w) (wd_db w)) = (Inr v, d)"
      "out = Inr v \<and> wd_db w' = d \<or> out = Inl MErrDependency \<and> wd_db w' \<in> {d, os_between U (wd_tick w) (wd_db w)}"
  using assms unfolding unit_of_work_def by (auto simp: Let_def split: prod.splits sum.splits commit.splits)

lemma among_others_view:
  assumes rely: "among_others reg U tok i" and w: "standing Q tok i w" and d: "d = os_between U k (wd_db w)"
    and stable: "view_stable i Q"
  shows "mig_good d" "issued tok i d" "holds tok i d \<Longrightarrow> Q d"
proof -
  have o: "(other_step reg (tok, i))\<^sup>*\<^sup>* (wd_db w) d" using rely unfolding among_others_def d by blast
  have g: "mig_good (wd_db w)" "issued tok i (wd_db w)" using w unfolding standing_def by blast+
  from others_grow [OF o g(1)] show "mig_good d" "issued tok i d" using g(2) unfolding grown_def appends_def by blast+
  show "Q d" if "holds tok i d"
  proof -
    have h: "holds tok i (wd_db w)" "run_view i d = run_view i (wd_db w)"
      using fenced.others_view [where a = "(tok, i)" and reg = reg, unfolded fenced_steps, OF o g(1)] g(2) that by simp_all
    then show ?thesis using stable w unfolding standing_def view_stable_def by blast
  qed
qed

lemma unit_keeps:
  assumes rely: "among_others reg U tok i" and w: "standing Q tok i w"
    and stable: "view_stable i Q"
    and own: "\<And>s d v d'. body s d = (Inr v, d') \<Longrightarrow> mig_step reg (Some (tok, i)) d d'"
    and eff: "\<And>s d v d'. mig_good d \<Longrightarrow> Q d \<Longrightarrow> body s d = (Inr v, d') \<Longrightarrow> Q' v d'"
    and u: "unit_of_work U body w = (out, w')"
  shows "case out of Inl e \<Rightarrow> standing (\<lambda>d. Q d \<or> (\<exists>v. Q' v d)) tok i w'
    | Inr v \<Rightarrow> mig_good (wd_db w') \<and> issued tok i (wd_db w') \<and> Q' v (wd_db w')"
proof -
  let ?d = "os_between U (wd_tick w) (wd_db w)"
  note before = among_others_view [OF rely w refl stable]
  show ?thesis
    using u
  proof (cases rule: unit_cases)
    case (1 e d)
    then show ?thesis using before unfolding standing_def by simp
  next
    case (2 v d)
    note s = mig_step_safe [OF own [OF 2(1)] before(1)]
    have "Q' v d" using eff [OF before(1) _ 2(1)] before(3) safe_stepD(5) [OF s] by blast
    moreover have "mig_good d" "issued tok i d" using safe_stepD(1,2) [OF s] before(2) unfolding appends_def by blast+
    ultimately show ?thesis using 2(2) before unfolding standing_def by auto
  qed
qed

section \<open>Pages\<close>

abbreviation is_ours :: "digest \<Rightarrow> string \<Rightarrow> LeaseFence \<Rightarrow> bool" where
  "is_ours tok i f \<equiv> lf_token f = tok \<and> lf_run f = i"

definition some_tracked ::
  "mig_service \<Rightarrow> AdapterDefinition \<Rightarrow> (string \<Rightarrow> UpperBound) \<Rightarrow> (string \<Rightarrow> SourceRow list) \<Rightarrow> string \<Rightarrow> 'w mig_db \<Rightarrow> bool" where
  "some_tracked sv D ub rows i db \<longleftrightarrow> (\<exists>pts. all_tracked sv D ub rows i pts db)"

text \<open>What is fixed for a run: its adapter, the rows of its source, and its lease.\<close>

definition run_setting ::
  "mig_service \<Rightarrow> 'w TargetRegistry \<Rightarrow> 'w mig_db mig_outside \<Rightarrow> AdapterDefinition \<Rightarrow> (string \<Rightarrow> UpperBound) \<Rightarrow>
   (string \<Rightarrow> SourceRow list) \<Rightarrow> digest \<Rightarrow> string \<Rightarrow> bool" where
  "run_setting sv reg U D ub rows tok i \<longleftrightarrow> among_others reg U tok i \<and> manifest_valid (ad_manifest D) \<and>
     (\<forall>t \<in> set (am_tables (ad_manifest D)). source_rows sv D t (ub (ts_id t)) (rows (ts_id t)))"

lemma renew_keeps:
  assumes set: "run_setting sv reg U D ub rows tok i" and w: "standing (all_tracked sv D ub rows i pts) tok i w"
    and f: "is_ours tok i f"
    and u: "unit_of_work U (\<lambda>s. mp_RenewLease (pg_ports reg) s f (st_clock s) ttl) w = (out, w')"
  shows "case out of Inl e \<Rightarrow> standing (all_tracked sv D ub rows i pts) tok i w'
    | Inr f' \<Rightarrow> standing (all_tracked sv D ub rows i pts) tok i w' \<and> is_ours tok i f'"
proof -
  have r: "is_ours tok i f' \<and> run_view i d' = run_view i d"
    if b: "mig_RenewLease (st_now s) f (st_clock s) ttl d = (Inr f', d')" for s d f' d'
  proof -
    obtain g where "lf_run f' = lf_run f \<and> lf_token f' = lf_token f" "d' = d\<lparr>mg_leases := map g (mg_leases d)\<rparr>"
      by (rule RenewD [OF b]) blast
    then show ?thesis using f run_view_same [of d' d i] by simp
  qed
  have rely: "among_others reg U tok i" using set unfolding run_setting_def by blast
  have "case out of Inl e \<Rightarrow> standing (\<lambda>d. all_tracked sv D ub rows i pts d \<or>
        (\<exists>f'. is_ours tok i f' \<and> all_tracked sv D ub rows i pts d)) tok i w'
      | Inr f' \<Rightarrow> mig_good (wd_db w') \<and> issued tok i (wd_db w') \<and>
        (is_ours tok i f' \<and> all_tracked sv D ub rows i pts (wd_db w'))"
  proof (rule unit_keeps [where Q' = "\<lambda>f' d. is_ours tok i f' \<and> all_tracked sv D ub rows i pts d",
      OF rely w all_tracked_stable _ _ u])
    fix s d f' d' assume b: "mp_RenewLease (pg_ports reg) s f (st_clock s) ttl d = (Inr f', d')"
    show "mig_step reg (Some (tok, i)) d d'" using mig_step.renewed [OF b [unfolded pg_ports_simps]] f by simp
    assume "all_tracked sv D ub rows i pts d"
    then show "is_ours tok i f' \<and> all_tracked sv D ub rows i pts d'"
      using r [OF b [unfolded pg_ports_simps]] all_tracked_view by blast
  qed
  then show ?thesis unfolding standing_def by (auto split: sum.splits)
qed

lemma take_row_keeps:
  assumes set: "run_setting sv reg U D ub rows tok i" and t: "t \<in> set (am_tables (ad_manifest D))"
    and w: "standing (all_tracked sv D ub rows i pts) tok i w" and f: "is_ours tok i f"
    and st: "pa_point st = pts (ts_id t)" "point_at (rows (ts_id t)) (pts (ts_id t)) n" "\<not> tc_complete (pts (ts_id t))"
    and n: "n < length (rows (ts_id t))"
    and u: "take_row sv (pg_ports reg) U D t f (rows (ts_id t) ! n) st w = (out, w')"
  shows "case out of Inl e \<Rightarrow> standing (some_tracked sv D ub rows i) tok i w'
    | Inr st' \<Rightarrow> (let c = next_point (pts (ts_id t)) (rows (ts_id t) ! n) True in
        standing (all_tracked sv D ub rows i (pts(ts_id t := c))) tok i w' \<and> pa_point st' = c \<and>
        pa_seen st' = pa_seen st + 1 \<and> point_at (rows (ts_id t)) c (Suc n))"
proof -
  let ?row = "rows (ts_id t) ! n" and ?c = "pts (ts_id t)"
  let ?next = "next_point ?c ?row True"
  have rely: "among_others reg U tok i" and m: "manifest_valid (ad_manifest D)"
    and src: "source_rows sv D t (ub (ts_id t)) (rows (ts_id t))"
    using set t unfolding run_setting_def by blast+
  have weak: "standing (some_tracked sv D ub rows i) tok i w"
    by (rule standing_mono [OF w]) (auto simp: some_tracked_def)
  have pt: "point_at (rows (ts_id t)) ?next (Suc n)"
    using st n cursor_moves(2) [OF src n] unfolding point_at_def next_point_def by simp
  show ?thesis
  proof (cases "\<exists>p. find_policy sv t = Inr p \<and> \<not> (sv_limit sv < pa_seen st + 1 \<or> \<not> row_valid ?row \<or>
      \<not> continues D (tc_cursor (pa_point st)) (sr_cursor ?row))")
    case False
    then have "isl out \<and> w' = w" using u unfolding take_row_def by (cases "find_policy sv t") (auto split: if_splits)
    then show ?thesis using weak by (auto split: sum.splits)
  next
    case True
    then obtain p where p: "find_policy sv t = Inr p" and go: "\<not> (sv_limit sv < pa_seen st + 1 \<or> \<not> row_valid ?row \<or>
        \<not> continues D (tc_cursor (pa_point st)) (sr_cursor ?row))" by blast
    let ?Q' = "\<lambda>(v :: bool \<times> bool \<times> disposition) d. fst v \<and> all_tracked sv D ub rows i (pts(ts_id t := ?next)) d"
    obtain o1 where o1: "unit_of_work U (row_unit sv (pg_ports reg) D t p f ?row ?c) w = (o1, w')"
        "out = (case o1 of Inl e \<Rightarrow> Inl e | Inr (recorded, replayed, d) \<Rightarrow>
          Inr \<lparr>pa_point = next_point ?c ?row recorded, pa_seen = pa_seen st + 1,
            pa_result = count_row recorded replayed d (pa_result st)\<rparr>)"
      using u p go unfolding take_row_def st(1) by (auto simp: and_then_def split: prod.splits sum.splits)
    have "case o1 of Inl e \<Rightarrow> standing (\<lambda>d. all_tracked sv D ub rows i pts d \<or> (\<exists>v. ?Q' v d)) tok i w'
        | Inr v \<Rightarrow> mig_good (wd_db w') \<and> issued tok i (wd_db w') \<and> ?Q' v (wd_db w')"
    proof (rule unit_keeps [where Q' = ?Q', OF rely w all_tracked_stable _ _ o1(1)])
      fix s d v d' assume b: "row_unit sv (pg_ports reg) D t p f ?row ?c s d = (Inr v, d')"
      show "mig_step reg (Some (tok, i)) d d'" using mig_step.row [OF b] f by simp
      obtain recorded replayed x where v: "v = (recorded, replayed, x)" by (cases v)
      assume "mig_good d" "all_tracked sv D ub rows i pts d"
      then show "?Q' v d'"
        using row_tracked [where rows = rows and pts = pts and n = n and i = i and ub = ub, OF _ m t p b [unfolded v] _ src n] f st(2) unfolding v point_at_def by simp
    qed
    then show ?thesis
      using o1(2) pt unfolding Let_def standing_def some_tracked_def by (auto split: sum.splits prod.splits)
  qed
qed

lemma feed_keeps:
  assumes set: "run_setting sv reg U D ub rows tok i" and t: "t \<in> set (am_tables (ad_manifest D))" and f: "is_ours tok i f"
  shows "standing (all_tracked sv D ub rows i pts) tok i w \<Longrightarrow> pa_point st = pts (ts_id t) \<Longrightarrow>
    point_at (rows (ts_id t)) (pts (ts_id t)) n \<Longrightarrow> \<not> tc_complete (pts (ts_id t)) \<Longrightarrow>
    feed (take_row sv (pg_ports reg) U D t f) (take m (drop n (rows (ts_id t)))) st w = (out, w') \<Longrightarrow>
    case out of Inl e \<Rightarrow> standing (some_tracked sv D ub rows i) tok i w'
    | Inr st' \<Rightarrow> \<exists>c k. standing (all_tracked sv D ub rows i (pts(ts_id t := c))) tok i w' \<and> pa_point st' = c \<and>
        k = length (take m (drop n (rows (ts_id t)))) \<and> pa_seen st' = pa_seen st + int k \<and>
        point_at (rows (ts_id t)) c (n + k) \<and> \<not> tc_complete c \<and> tc_bound c = tc_bound (pts (ts_id t))"
proof (induction m arbitrary: n pts st w)
  case 0
  then show ?case by (auto intro: exI [of _ "pts (ts_id t)"])
next
  case (Suc m)
  let ?R = "rows (ts_id t)"
  show ?case
  proof (cases "n < length ?R")
    case False
    then show ?thesis using Suc.prems by (auto intro: exI [of _ "pts (ts_id t)"])
  next
    case True
    then have split: "take (Suc m) (drop n ?R) = ?R ! n # take m (drop (Suc n) ?R)"
      by (simp add: Cons_nth_drop_Suc [symmetric])
    obtain o1 w1 where o1: "take_row sv (pg_ports reg) U D t f (?R ! n) st w = (o1, w1)" by fastforce
    note row = take_row_keeps [OF set t Suc.prems(1) f Suc.prems(2-4) True o1]
    show ?thesis
    proof (cases o1)
      case (Inl e)
      then show ?thesis using row o1 Suc.prems(5) unfolding split by auto
    next
      case (Inr st1)
      let ?c = "next_point (pts (ts_id t)) (?R ! n) True"
      have r: "standing (all_tracked sv D ub rows i (pts(ts_id t := ?c))) tok i w1" "pa_point st1 = ?c"
          "pa_seen st1 = pa_seen st + 1" "point_at ?R ?c (Suc n)"
        using row Inr by (auto simp: Let_def)
      have rest: "feed (take_row sv (pg_ports reg) U D t f) (take m (drop (Suc n) ?R)) st1 w1 = (out, w')"
        using Suc.prems(5) o1 Inr unfolding split by simp
      have c: "\<not> tc_complete ?c" "tc_bound ?c = tc_bound (pts (ts_id t))"
        using Suc.prems(4) unfolding next_point_def by simp_all
      let ?p = "pts(ts_id t := ?c)"
      have "pa_point st1 = ?p (ts_id t)" "point_at ?R (?p (ts_id t)) (Suc n)" "\<not> tc_complete (?p (ts_id t))"
        using r c by simp_all
      from Suc.IH [OF r(1) this rest] show ?thesis
        using r(3) c True unfolding split fun_upd_upd fun_upd_same
        by (cases out) (simp_all del: fun_upd_apply)
    qed
  qed
qed

text \<open>A page keeps the run tracked, and when it is complete then the table is.\<close>

lemma run_page_keeps:
  assumes set: "run_setting sv reg U D ub rows tok i" and t: "t \<in> set (am_tables (ad_manifest D))" and f: "is_ours tok i f"
    and w: "standing (all_tracked sv D ub rows i pts) tok i w"
    and c: "pts (ts_id t) = c" "point_at (rows (ts_id t)) c n" "\<not> tc_complete c" "tc_bound c = ub (ts_id t)"
    and page: "run_page sv (pg_ports reg) U D t (c, f, res) w = (out, w')"
  shows "case out of Inl e \<Rightarrow> standing (some_tracked sv D ub rows i) tok i w'
    | Inr (c', f', res') \<Rightarrow> (\<exists>n'. standing (all_tracked sv D ub rows i (pts(ts_id t := c'))) tok i w' \<and> is_ours tok i f' \<and>
        point_at (rows (ts_id t)) c' n' \<and> tc_bound c' = ub (ts_id t) \<and> (tc_complete c' \<or> n < n'))"
proof -
  let ?R = "rows (ts_id t)" and ?W = "standing (some_tracked sv D ub rows i) tok i"
  let ?offer = "ad_stream D t (tc_bound c) (tc_cursor c) (sv_limit sv)"
  have rely: "among_others reg U tok i" and m: "manifest_valid (ad_manifest D)" and src: "source_rows sv D t (ub (ts_id t)) ?R"
    using set t unfolding run_setting_def by blast+
  have weak: "standing (all_tracked sv D ub rows i p) tok i w \<Longrightarrow> ?W w" for p w
    by (erule standing_mono) (auto simp: some_tracked_def)
  obtain o1 w1 where o1: "unit_of_work U (\<lambda>s. mp_RenewLease (pg_ports reg) s f (st_clock s) (sv_ttl sv)) w = (o1, w1)"
    by fastforce
  note renew = renew_keeps [OF set w f o1]
  show ?thesis
  proof (cases o1)
    case (Inl e)
    then show ?thesis using page renew o1 weak unfolding run_page_def by auto
  next
    case (Inr f')
    have w1: "standing (all_tracked sv D ub rows i pts) tok i w1" and f': "is_ours tok i f'" using renew Inr by auto
    have cursor: "tc_cursor c = cursor_at ?R n" "n \<le> length ?R" using c(2) unfolding point_at_def by blast+
    have offer: "fst ?offer = take (length (fst ?offer)) (drop n ?R)"
        "snd ?offer = Inr True \<Longrightarrow> length ?R \<le> n + length (fst ?offer)"
      using source_rowsD [OF src cursor(2)] unfolding cursor(1) c(4) by blast+
    let ?st = "\<lparr>pa_point = c, pa_seen = 0, pa_result = res\<rparr>"
    obtain o2 w2 where o2: "feed (take_row sv (pg_ports reg) U D t f') (fst ?offer) ?st w1 = (o2, w2)" by fastforce
    have fed: "case o2 of Inl e \<Rightarrow> ?W w2
      | Inr st' \<Rightarrow> \<exists>c' k. standing (all_tracked sv D ub rows i (pts(ts_id t := c'))) tok i w2 \<and> pa_point st' = c' \<and>
        k = length (take (length (fst ?offer)) (drop n ?R)) \<and> pa_seen st' = pa_seen ?st + int k \<and>
        point_at ?R c' (n + k) \<and> \<not> tc_complete c' \<and> tc_bound c' = tc_bound (pts (ts_id t))"
      by (rule feed_keeps [OF set t f' w1]) (use c o2 offer(1) in simp_all)
    show ?thesis
    proof (cases "\<exists>st complete. o2 = Inr st \<and> snd ?offer = Inr complete \<and> \<not> (pa_seen st = 0 \<and> \<not> complete)")
      case False
      then have "isl out \<and> w' = w2"
        using page o1 o2 Inr unfolding run_page_def streamed_def
        by (auto simp: and_then_def split: sum.splits prod.splits if_splits)
      moreover have "?W w2" using fed weak by (auto split: sum.splits)
      ultimately show ?thesis by (auto split: sum.splits)
    next
      case True
      then obtain st complete where st: "o2 = Inr st" "snd ?offer = Inr complete" "\<not> (pa_seen st = 0 \<and> \<not> complete)"
        by blast
      let ?c = "pa_point st" and ?k = "length (fst ?offer)"
      have k: "length (take ?k (drop n ?R)) = ?k" using offer(1) by metis
      have p: "standing (all_tracked sv D ub rows i (pts(ts_id t := ?c))) tok i w2" "point_at ?R ?c (n + ?k)"
          "\<not> tc_complete ?c" "tc_bound ?c = ub (ts_id t)"
        using fed st(1) c(1,4) k by auto
      let ?c' = "?c\<lparr>tc_complete := complete\<rparr>" and ?pts = "pts(ts_id t := ?c)"
      obtain o3 where o3: "unit_of_work U (\<lambda>s. mp_Advance (pg_ports reg) s f' (ts_id t) ?c') w2 = (o3, w')"
          "out = (case o3 of Inl e \<Rightarrow> Inl e | Inr _ \<Rightarrow> Inr (?c', f', pa_result st))"
        using page o1 o2 Inr st unfolding run_page_def streamed_def
        by (auto simp: and_then_def Let_def split: sum.splits prod.splits if_splits)
      have all: "complete \<Longrightarrow> n + ?k = length ?R"
        using offer(2) st(2) k cursor(2) by auto
      have pt: "point_at ?R ?c' (n + ?k)" using p(2,3) all unfolding point_at_def by simp
      have more_: "complete \<or> n < n + ?k" using fed st k by auto
      have "case o3 of Inl e \<Rightarrow> standing (\<lambda>d. all_tracked sv D ub rows i ?pts d \<or>
            (\<exists>v :: unit. all_tracked sv D ub rows i (pts(ts_id t := ?c')) d)) tok i w'
          | Inr v \<Rightarrow> mig_good (wd_db w') \<and> issued tok i (wd_db w') \<and> all_tracked sv D ub rows i (pts(ts_id t := ?c')) (wd_db w')"
      proof (rule unit_keeps [where Q' = "\<lambda>_. all_tracked sv D ub rows i (pts(ts_id t := ?c'))",
          OF rely p(1) all_tracked_stable _ _ o3(1)])
        fix s d v d' assume b: "mp_Advance (pg_ports reg) s f' (ts_id t) ?c' d = (Inr v, d')"
        show "mig_step reg (Some (tok, i)) d d'" using mig_step.advanced [OF b [unfolded pg_ports_simps]] f' by simp
        assume a: "all_tracked sv D ub rows i ?pts d"
        then obtain q where q: "find_policy sv t = Inr q" using t unfolding all_tracked_def tracked_def by blast
        have "all_tracked sv D ub rows i (?pts(ts_id t := (?pts (ts_id t))\<lparr>tc_complete := complete\<rparr>)) d'"
          by (rule advance_tracked [OF a m t q, where f = f' and now = "st_now s"])
            (use b f' p(2) all in \<open>simp_all add: point_at_def\<close>)
        then show "all_tracked sv D ub rows i (pts(ts_id t := ?c')) d'" by simp
      qed
      then show ?thesis
        using o3(2) pt p(4) f' more_ unfolding standing_def some_tracked_def by (auto split: sum.splits)
    qed
  qed
qed

section \<open>Tables\<close>

text \<open>A checkpoint in memory that stands in the rows of its table.\<close>

definition fits ::
  "(string \<Rightarrow> UpperBound) \<Rightarrow> (string \<Rightarrow> SourceRow list) \<Rightarrow> TableSpec \<Rightarrow> TableCheckpoint \<Rightarrow> bool" where
  "fits ub rows t c \<longleftrightarrow> tc_bound c = ub (ts_id t) \<and> (\<exists>n. point_at (rows (ts_id t)) c n)"

lemma runTable_keeps:
  assumes set: "run_setting sv reg U D ub rows tok i" and t: "t \<in> set (am_tables (ad_manifest D))"
  shows "is_ours tok i f \<Longrightarrow> standing (all_tracked sv D ub rows i pts) tok i w \<Longrightarrow> pts (ts_id t) = c \<Longrightarrow>
    point_at (rows (ts_id t)) c n \<Longrightarrow> tc_bound c = ub (ts_id t) \<Longrightarrow>
    \<exists>out w'. runTable sv (pg_ports reg) U D t (c, f, res) w = Some (out, w') \<and>
      (case out of Inl e \<Rightarrow> standing (some_tracked sv D ub rows i) tok i w'
      | Inr (c', f', res') \<Rightarrow> standing (all_tracked sv D ub rows i (pts(ts_id t := c'))) tok i w' \<and> is_ours tok i f' \<and>
          fits ub rows t c' \<and> tc_complete c')"
proof (induction "length (rows (ts_id t)) - n" arbitrary: n pts c f res w rule: less_induct)
  case less
  show ?case
  proof (cases "tc_complete c")
    case True
    then show ?thesis
      using less.prems by (subst runTable.simps) (auto simp: fits_def fun_upd_idem)
  next
    case False
    obtain out w1 where p: "run_page sv (pg_ports reg) U D t (c, f, res) w = (out, w1)" by fastforce
    note page = run_page_keeps [OF set t less.prems(1-4) False less.prems(5) p]
    show ?thesis
    proof (cases out)
      case (Inl e)
      then show ?thesis using p page False by (subst runTable.simps) simp
    next
      case (Inr v)
      obtain c' f' res' where v: "v = (c', f', res')" by (cases v)
      obtain n' where q: "standing (all_tracked sv D ub rows i (pts(ts_id t := c'))) tok i w1" "is_ours tok i f'"
          "point_at (rows (ts_id t)) c' n'" "tc_bound c' = ub (ts_id t)" "tc_complete c' \<or> n < n'"
        using page Inr v by auto
      have same: "(pts(ts_id t := c'))(ts_id t := x) = pts(ts_id t := x)" for x by simp
      have "\<exists>out w'. runTable sv (pg_ports reg) U D t (c', f', res') w1 = Some (out, w') \<and>
          (case out of Inl e \<Rightarrow> standing (some_tracked sv D ub rows i) tok i w'
          | Inr (c', f', res') \<Rightarrow> standing (all_tracked sv D ub rows i (pts(ts_id t := c'))) tok i w' \<and> is_ours tok i f' \<and>
              fits ub rows t c' \<and> tc_complete c')"
      proof (cases "tc_complete c'")
        case True
        then show ?thesis using q by (subst runTable.simps) (auto simp: fits_def)
      next
        case False
        then have "length (rows (ts_id t)) - n' < length (rows (ts_id t)) - n"
          using q(3,5) unfolding point_at_def by auto
        from less.hyps [OF this q(2,1) fun_upd_same q(3,4)] show ?thesis unfolding same .
      qed
      then show ?thesis using p Inr v False by (subst runTable.simps) simp
    qed
  qed
qed

lemma run_each_keeps:
  assumes set: "run_setting sv reg U D ub rows tok i"
  shows "set ts \<subseteq> set (am_tables (ad_manifest D)) \<Longrightarrow> distinct (map ts_id ts) \<Longrightarrow> is_ours tok i f \<Longrightarrow>
    standing (all_tracked sv D ub rows i pts) tok i w \<Longrightarrow>
    (\<And>t. t \<in> set ts \<Longrightarrow> fits ub rows t (pts (ts_id t)) \<and> map_of (rs_tables state) (ts_id t) = Some (pts (ts_id t))) \<Longrightarrow>
    \<exists>out w'. run_each sv (pg_ports reg) U D state ts (f, res) w = Some (out, w') \<and>
      (case out of Inl e \<Rightarrow> standing (some_tracked sv D ub rows i) tok i w'
      | Inr (f', res') \<Rightarrow> \<exists>pts'. standing (all_tracked sv D ub rows i pts') tok i w' \<and> is_ours tok i f' \<and>
          (\<forall>t \<in> set ts. tc_complete (pts' (ts_id t))) \<and> (\<forall>x. x \<notin> ts_id ` set ts \<longrightarrow> pts' x = pts x))"
proof (induction ts arbitrary: pts f res w)
  case Nil
  then show ?case by auto
next
  case (Cons t ts)
  let ?c = "pts (ts_id t)"
  have t: "t \<in> set (am_tables (ad_manifest D))" "ts_id t \<notin> ts_id ` set ts" "map_of (rs_tables state) (ts_id t) = Some ?c"
    using Cons.prems by simp_all
  have rest: "set ts \<subseteq> set (am_tables (ad_manifest D))" "distinct (map ts_id ts)" using Cons.prems by simp_all
  show ?case
  proof (cases "tc_complete ?c")
    case True
    have "fits ub rows u (pts (ts_id u)) \<and> map_of (rs_tables state) (ts_id u) = Some (pts (ts_id u))" if "u \<in> set ts" for u
      using that by (intro Cons.prems(5)) simp
    from Cons.IH [OF rest Cons.prems(3,4) this] obtain out w' where o:
        "run_each sv (pg_ports reg) U D state ts (f, res) w = Some (out, w')"
        "case out of Inl e \<Rightarrow> standing (some_tracked sv D ub rows i) tok i w'
        | Inr (f', res') \<Rightarrow> \<exists>pts'. standing (all_tracked sv D ub rows i pts') tok i w' \<and> is_ours tok i f' \<and>
          (\<forall>t \<in> set ts. tc_complete (pts' (ts_id t))) \<and> (\<forall>x. x \<notin> ts_id ` set ts \<longrightarrow> pts' x = pts x)"
      by blast
    then show ?thesis using t True by (cases out) auto
  next
    case False
    obtain n where n: "point_at (rows (ts_id t)) ?c n" "tc_bound ?c = ub (ts_id t)"
      using Cons.prems(5) unfolding fits_def by auto
    obtain o1 w1 where o1: "runTable sv (pg_ports reg) U D t (?c, f, res) w = Some (o1, w1)"
        "case o1 of Inl e \<Rightarrow> standing (some_tracked sv D ub rows i) tok i w1
        | Inr (c', f', res') \<Rightarrow> standing (all_tracked sv D ub rows i (pts(ts_id t := c'))) tok i w1 \<and> is_ours tok i f' \<and>
          fits ub rows t c' \<and> tc_complete c'"
      using runTable_keeps [OF set t(1) Cons.prems(3,4) refl n] by blast
    show ?thesis
    proof (cases o1)
      case (Inl e)
      then show ?thesis using o1 t False by simp
    next
      case (Inr v)
      obtain c' f' res' where v: "v = (c', f', res')" by (cases v)
      let ?pts = "pts(ts_id t := c')"
      have s: "standing (all_tracked sv D ub rows i ?pts) tok i w1" "is_ours tok i f'" "tc_complete c'"
        using o1(2) Inr v by simp_all
      have "fits ub rows u (?pts (ts_id u)) \<and> map_of (rs_tables state) (ts_id u) = Some (?pts (ts_id u))"
        if "u \<in> set ts" for u
        using that t(2) Cons.prems(5) [of u] by (metis fun_upd_other image_eqI list.set_intros(2))
      from Cons.IH [OF rest s(2,1) this] obtain out w' where o:
          "run_each sv (pg_ports reg) U D state ts (f', res') w1 = Some (out, w')"
          "case out of Inl e \<Rightarrow> standing (some_tracked sv D ub rows i) tok i w'
          | Inr (f', res') \<Rightarrow> \<exists>pts'. standing (all_tracked sv D ub rows i pts') tok i w' \<and> is_ours tok i f' \<and>
            (\<forall>t \<in> set ts. tc_complete (pts' (ts_id t))) \<and> (\<forall>x. x \<notin> ts_id ` set ts \<longrightarrow> pts' x = ?pts x)"
        by blast
      have "run_each sv (pg_ports reg) U D state (t # ts) (f, res) w = Some (out, w')"
        using o(1) o1(1) Inr v t(3) False by simp
      moreover have "case out of Inl e \<Rightarrow> standing (some_tracked sv D ub rows i) tok i w'
        | Inr (f', res') \<Rightarrow> \<exists>pts'. standing (all_tracked sv D ub rows i pts') tok i w' \<and> is_ours tok i f' \<and>
          (\<forall>u \<in> set (t # ts). tc_complete (pts' (ts_id u))) \<and> (\<forall>x. x \<notin> ts_id ` set (t # ts) \<longrightarrow> pts' x = pts x)"
      proof (cases out)
        case (Inr v)
        then obtain f2 res2 pts' where p: "v = (f2, res2)" "standing (all_tracked sv D ub rows i pts') tok i w'" "is_ours tok i f2"
            "\<forall>u \<in> set ts. tc_complete (pts' (ts_id u))" "\<forall>x. x \<notin> ts_id ` set ts \<longrightarrow> pts' x = ?pts x"
          using o(2) by (cases v) auto
        have "pts' (ts_id t) = c'" using p(5) t(2) by simp
        then show ?thesis
          unfolding Inr p(1) sum.case prod.case using p s(3) by (intro exI [of _ pts']) auto
      qed (use o(2) in simp)
      ultimately show ?thesis by blast
    qed
  qed
qed

end
