(* ===== verification/MigrationOutcome.thy ===== *)
theory MigrationOutcome
  imports MigrationRuns
begin

text \<open>
  The outcome of a whole run: how its checkpoints start, in a new run and in one that is resumed,
  and what holds when it returns.
\<close>

definition table_bound :: "TableBound list \<Rightarrow> string \<Rightarrow> UpperBound" where
  "table_bound bs x = (case map_of (map (\<lambda>b. (tb_table b, tb_bound b)) bs) x of
     Some u \<Rightarrow> u | None \<Rightarrow> \<lparr>ub_value = [], ub_empty = True\<rparr>)"

lemma table_bound_in:
  assumes "distinct (map tb_table bs)" "b \<in> set bs"
  shows "table_bound bs (tb_table b) = tb_bound b"
proof -
  have "map_of (map (\<lambda>b. (tb_table b, tb_bound b)) bs) (tb_table b) = Some (tb_bound b)"
    by (rule map_of_is_SomeI) (use assms in \<open>simp_all add: o_def\<close>)
  then show ?thesis unfolding table_bound_def by simp
qed

section \<open>What was checked before the first unit\<close>

lemma fixed_bounds_tables: "fixed_bounds_of m ts = Inr bs \<Longrightarrow> map tb_table bs = map ts_id ts"
  by (induction ts arbitrary: bs) (auto split: option.splits if_splits sum.splits)

lemma check_tables_policy: "check_tables sv D ts = Inr u \<Longrightarrow> t \<in> set ts \<Longrightarrow> \<exists>p. find_policy sv t = Inr p"
  by (induction ts) (auto split: if_splits sum.splits)

lemma prepare_runD:
  assumes "prepare_run sv i a = Inr (D, start)"
  shows "manifest_valid (ad_manifest D)" "sn_id start = i" "map tb_table (sn_bounds start) = map ts_id (am_tables (ad_manifest D))"
    "t \<in> set (am_tables (ad_manifest D)) \<Longrightarrow> \<exists>p. find_policy sv t = Inr p"
    "map_of (sv_mappings sv) a = Some D" "sn_adapter start = a" "am_id (ad_manifest D) = a"
  using assms fixed_bounds_tables check_tables_policy unfolding prepare_run_def fixedBounds_def
  by (auto simp: Let_def split: if_splits option.splits sum.splits)

section \<open>The checkpoints that a run starts from\<close>

lemma load_point:
  assumes l: "loadWith i db = Inr st" and ok: "tables_ok db" and r: "find_table i x db = Some r"
  shows "map_of (rs_tables st) x = Some (tr_point r)"
proof -
  have keys: "distinct (map (\<lambda>t. (tr_run t, tr_table t)) (mg_tables db))" using ok unfolding tables_ok_def by blast
  have set: "set (run_tables i db) = {t \<in> set (mg_tables db). tr_run t = i}" by (rule run_tables_set)
  have "distinct (run_tables i db)"
    using keys unfolding run_tables_def by (simp add: distinct_map)
  moreover have "inj_on tr_table (set (run_tables i db))"
    using keys unfolding set distinct_map inj_on_def by auto
  ultimately have "distinct (map fst (map (\<lambda>t. (tr_table t, tr_point t)) (run_tables i db)))"
    by (simp add: distinct_map o_def)
  moreover have "rs_tables st = map (\<lambda>t. (tr_table t, tr_point t)) (run_tables i db)" by (rule loadWithD [OF l])
  moreover have "(x, tr_point r) \<in> set (map (\<lambda>t. (tr_table t, tr_point t)) (run_tables i db))"
    using find_tableD [OF r] set by force
  ultimately show ?thesis using map_of_is_SomeI by metis
qed

lemma fresh_find:
  "b \<in> set bs \<Longrightarrow> distinct (map tb_table bs) \<Longrightarrow>
   \<exists>r. List.find (\<lambda>r. tr_run r = i \<and> tr_table r = tb_table b) (fresh_tables i k bs) = Some r \<and> tr_point r = new_point b"
  by (induction bs arbitrary: k) (auto simp: fresh_table_def)

lemma all_tracked_same:
  assumes "mg_tables db' = mg_tables db" "mg_results db' = mg_results db"
  shows "all_tracked sv D ub rows i pts db' = all_tracked sv D ub rows i pts db"
  using assms unfolding all_tracked_def tracked_def find_table_def table_results_def run_results_def by simp

lemma opened_points:
  assumes good: "mig_good d" and prep: "prepare_run sv i a = Inr (D, start)" and o: "mig_Open start d = (Inr st, d1)"
    and resume: "known_run i d \<Longrightarrow> some_tracked sv D (table_bound (sn_bounds start)) rows i d"
  shows "\<exists>pts. all_tracked sv D (table_bound (sn_bounds start)) rows i pts d1 \<and>
    (\<forall>t \<in> set (am_tables (ad_manifest D)). map_of (rs_tables st) (ts_id t) = Some (pts (ts_id t)))"
proof -
  let ?ub = "table_bound (sn_bounds start)" and ?ts = "am_tables (ad_manifest D)"
  note p = prepare_runD [OF prep]
  have safe: "safe_step None d d1" by (rule opened_safe [OF good o])
  have ok: "tables_ok d1" using safe_stepD(1) [OF safe] unfolding mig_good_def by blast
  have load: "loadWith i d1 = Inr st" using OpenD(1) [OF o] p(2) by simp
  have "\<exists>pts. all_tracked sv D ?ub rows i pts d1"
  proof (cases "known_run i d")
    case True
    then show ?thesis using resume OpenD(3) [OF o] p(2) unfolding some_tracked_def by auto
  next
    case False
    let ?bs = "sn_bounds start"
    have n: "d1 = d\<lparr>mg_runs := mg_runs d @ [new_run start], mg_tables := mg_tables d @ fresh_tables i 0 ?bs\<rparr>"
        "distinct (map tb_table ?bs)"
      using OpenD(4) [OF o] False p(2) by simp_all
    have old: "i \<notin> tr_run ` set (mg_tables d)" "i \<notin> re_run ` set (mg_results d)"
      using good False unfolding mig_good_def tables_ok_def known_run_def by blast+
    define pts where "pts = (\<lambda>x. new_point (THE b. b \<in> set ?bs \<and> tb_table b = x))"
    have "tracked sv D ?ub rows i t (pts (ts_id t)) d1" if t: "t \<in> set ?ts" for t
    proof -
      obtain b where b: "b \<in> set ?bs" "tb_table b = ts_id t"
        using t p(3) by (metis (no_types, lifting) imageE image_eqI list.set_map)
      have "(THE b. b \<in> set ?bs \<and> tb_table b = ts_id t) = b"
        by (rule the_equality) (use b n(2) in \<open>auto simp: distinct_map inj_on_def\<close>)
      then have pts: "pts (ts_id t) = new_point b" unfolding pts_def by simp
      have "List.find (\<lambda>r. tr_run r = i \<and> tr_table r = ts_id t) (mg_tables d) = None"
        using old(1) unfolding find_None_iff by auto
      then obtain r where r: "find_table i (ts_id t) d1 = Some r" "tr_point r = new_point b"
        using fresh_find [OF b(1) n(2), of i 0] b(2) unfolding find_table_def n(1) by (auto simp: find_append)
      have "run_results i d1 = []"
        using old(2) unfolding run_results_def n(1) by (auto simp: filter_empty_conv)
      then have "table_results i (ts_id t) d1 = []" unfolding table_results_def by simp
      moreover have "point_at (rows (ts_id t)) (new_point b) 0" unfolding point_at_def new_point_def cursor_at_def by simp
      moreover have "tc_bound (new_point b) = ?ub (ts_id t)"
        using table_bound_in [OF n(2) b(1)] b(2) unfolding new_point_def by simp
      ultimately show ?thesis using p(4) [OF t] r unfolding tracked_def pts by fastforce
    qed
    then show ?thesis unfolding all_tracked_def by blast
  qed
  then obtain pts where pts: "all_tracked sv D ?ub rows i pts d1" by blast
  moreover have "map_of (rs_tables st) (ts_id t) = Some (pts (ts_id t))" if "t \<in> set ?ts" for t
  proof -
    have "tracked sv D ?ub rows i t (pts (ts_id t)) d1" using pts that unfolding all_tracked_def by blast
    then obtain r where r: "find_table i (ts_id t) d1 = Some r" "tr_point r = pts (ts_id t)"
      unfolding tracked_def by blast
    show ?thesis using load_point [OF load ok r(1)] unfolding r(2) .
  qed
  ultimately show ?thesis by blast
qed

lemma tracked_fits: "all_tracked sv D ub rows i pts db \<Longrightarrow> t \<in> set (am_tables (ad_manifest D)) \<Longrightarrow> fits ub rows t (pts (ts_id t))"
  unfolding all_tracked_def tracked_def fits_def by blast

lemma open_unit_starts:
  assumes good: "mig_good d" and prep: "prepare_run sv i a = Inr (D, start)"
    and u: "open_unit sv (pg_ports reg) start s d = (Inr (st, f), d')" and tok: "st_token s = Some tok"
    and resume: "known_run i d \<Longrightarrow> some_tracked sv D (table_bound (sn_bounds start)) rows i d"
  shows "mig_good d'" "issued tok i d'" "is_ours tok i f"
    "\<exists>pts. all_tracked sv D (table_bound (sn_bounds start)) rows i pts d' \<and>
      (\<forall>t \<in> set (am_tables (ad_manifest D)). map_of (rs_tables st) (ts_id t) = Some (pts (ts_id t)))"
proof -
  note p = prepare_runD [OF prep]
  obtain d1 where o: "mig_Open start d = (Inr st, d1)"
      and a: "mig_AcquireLease (st_now s) (st_token s) i (st_clock s) (sv_ttl sv) d1 = (Inr f, d')"
    using u p(2) unfolding open_unit_def by (auto simp: tx_iff)
  have good1: "mig_good d1" using opened_safe [OF good o] safe_stepD(1) by blast
  note s = acquired_safe [OF good1 a]
  show "mig_good d'" using s(1) safe_stepD(1) by blast
  show "issued tok i d'" "is_ours tok i f" using s(2,3,5) tok holds_issued by auto
  show "\<exists>pts. all_tracked sv D (table_bound (sn_bounds start)) rows i pts d' \<and>
      (\<forall>t \<in> set (am_tables (ad_manifest D)). map_of (rs_tables st) (ts_id t) = Some (pts (ts_id t)))"
    using opened_points [OF good prep o resume] all_tracked_view [OF s(4)] by blast
qed

section \<open>The outcome\<close>

definition run_done ::
  "mig_service \<Rightarrow> AdapterDefinition \<Rightarrow> (string \<Rightarrow> SourceRow list) \<Rightarrow> string \<Rightarrow> 'w mig_db \<Rightarrow> bool" where
  "run_done sv D rows i db \<longleftrightarrow> map_option gr_phase (find_run i db) = Some PhaseCompleted \<and>
     (\<forall>t \<in> set (am_tables (ad_manifest D)). \<exists>p r. find_policy sv t = Inr p \<and> find_table i (ts_id t) db = Some r \<and>
       tc_complete (tr_point r) \<and> tc_processed (tr_point r) = int (length (rows (ts_id t))) \<and>
       list_all2 (row_result (sv_env sv) D t p i) (rows (ts_id t)) (table_results i (ts_id t) db))"

lemma tracked_done:
  assumes all: "all_tracked sv D ub rows i pts db" and complete: "\<forall>t \<in> set (am_tables (ad_manifest D)). tc_complete (pts (ts_id t))"
    and phase: "map_option gr_phase (find_run i db) = Some PhaseCompleted"
  shows "run_done sv D rows i db"
proof -
  have "\<exists>p r. find_policy sv t = Inr p \<and> find_table i (ts_id t) db = Some r \<and> tc_complete (tr_point r) \<and>
      tc_processed (tr_point r) = int (length (rows (ts_id t))) \<and>
      list_all2 (row_result (sv_env sv) D t p i) (rows (ts_id t)) (table_results i (ts_id t) db)"
    if t: "t \<in> set (am_tables (ad_manifest D))" for t
  proof -
    obtain n r p where r: "find_policy sv t = Inr p" "find_table i (ts_id t) db = Some r" "tr_point r = pts (ts_id t)"
        "point_at (rows (ts_id t)) (pts (ts_id t)) n"
        "list_all2 (row_result (sv_env sv) D t p i) (take n (rows (ts_id t))) (table_results i (ts_id t) db)"
      using all t unfolding all_tracked_def tracked_def by blast
    have "n = length (rows (ts_id t))" "tc_processed (pts (ts_id t)) = int n"
      using r(4) complete t unfolding point_at_def by auto
    then show ?thesis using r complete t by auto
  qed
  then show ?thesis using phase unfolding run_done_def by blast
qed

lemma finish_phase:
  assumes "mig_Finish now f d = (Inr v, d')"
  shows "map_option gr_phase (find_run (lf_run f) d') = Some PhaseCompleted" "mg_tables d' = mg_tables d" "mg_results d' = mg_results d"
proof -
  note f = finishD [OF assms [unfolded mig_Finish_def]]
  have "find_run (lf_run f) (retire now (is_lease f) d) \<noteq> None"
    using f(3) unfolding phase_allowed_def by auto
  then show "map_option gr_phase (find_run (lf_run f) d') = Some PhaseCompleted"
    unfolding f(4) find_set_phase by auto
  show "mg_tables d' = mg_tables d" "mg_results d' = mg_results d"
    unfolding f(4) set_phase_def retire_def by simp_all
qed

lemma finish_done:
  assumes set: "run_setting sv reg U D ub rows tok i" and w: "standing (all_tracked sv D ub rows i pts) tok i w"
    and f: "is_ours tok i f" and complete: "\<forall>t \<in> set (am_tables (ad_manifest D)). tc_complete (pts (ts_id t))"
    and u: "unit_of_work U (\<lambda>s. mp_Finish (pg_ports reg) s f) w = (out, w')"
  shows "case out of Inl e \<Rightarrow> standing (some_tracked sv D ub rows i) tok i w'
    | Inr _ \<Rightarrow> mig_good (wd_db w') \<and> run_done sv D rows i (wd_db w')"
proof -
  let ?Q' = "\<lambda>(v :: unit) d. all_tracked sv D ub rows i pts d \<and> run_done sv D rows i d"
  have rely: "among_others reg U tok i" using set unfolding run_setting_def by blast
  have "case out of Inl e \<Rightarrow> standing (\<lambda>d. all_tracked sv D ub rows i pts d \<or> (\<exists>v. ?Q' v d)) tok i w'
      | Inr v \<Rightarrow> mig_good (wd_db w') \<and> issued tok i (wd_db w') \<and> ?Q' v (wd_db w')"
  proof (rule unit_keeps [where Q' = ?Q', OF rely w all_tracked_stable _ _ u])
    fix s d v d' assume b: "mp_Finish (pg_ports reg) s f d = (Inr v, d')"
    show "mig_step reg (Some (tok, i)) d d'" using mig_step.finished [OF b [unfolded pg_ports_simps]] f by simp
    assume a: "all_tracked sv D ub rows i pts d"
    note p = finish_phase [OF b [unfolded pg_ports_simps]]
    have "all_tracked sv D ub rows i pts d'" using a all_tracked_same [OF p(2,3)] by blast
    then show "?Q' v d'" using tracked_done [OF _ complete] p(1) f by simp
  qed
  then show ?thesis unfolding standing_def some_tracked_def by (auto split: sum.splits)
qed

lemma Run_outcome:
  assumes prep: "prepare_run sv i a = Inr (D, start)"
    and good: "mig_good (os_between U (wd_tick w) (wd_db w))" and tok: "st_token (os_stamp U (wd_tick w)) = Some tok"
    and set: "run_setting sv reg U D (table_bound (sn_bounds start)) rows tok i"
    and resume: "known_run i (os_between U (wd_tick w) (wd_db w)) \<Longrightarrow>
      some_tracked sv D (table_bound (sn_bounds start)) rows i (os_between U (wd_tick w) (wd_db w))"
  shows "\<exists>out w'. Run sv (pg_ports reg) U i a w = Some (out, w') \<and> mig_good (wd_db w') \<and>
    (case out of
      Inl e \<Rightarrow> holds tok i (wd_db w') \<longrightarrow> some_tracked sv D (table_bound (sn_bounds start)) rows i (wd_db w')
    | Inr res \<Rightarrow> run_done sv D rows i (wd_db w'))"
proof -
  let ?ub = "table_bound (sn_bounds start)" and ?d = "os_between U (wd_tick w) (wd_db w)" and ?ts = "am_tables (ad_manifest D)"
  let ?W = "standing (some_tracked sv D ?ub rows i) tok i"
  have weak: "standing (all_tracked sv D ?ub rows i pts) tok i w \<Longrightarrow> ?W w" for pts w
    by (erule standing_mono) (auto simp: some_tracked_def)
  have W: "?W w' \<Longrightarrow> mig_good (wd_db w') \<and> (holds tok i (wd_db w') \<longrightarrow> some_tracked sv D ?ub rows i (wd_db w'))" for w'
    unfolding standing_def by blast
  note p = prepare_runD [OF prep]
  have ids: "distinct (map ts_id ?ts)" using p(1) unfolding manifest_valid_def by blast
  obtain o1 w1 where o1: "unit_of_work U (open_unit sv (pg_ports reg) start) w = (o1, w1)" by fastforce
  have met: "holds tok i ?d \<Longrightarrow> some_tracked sv D ?ub rows i ?d" using resume holds_known [OF good] by blast
  have opened: "case o1 of Inl e \<Rightarrow> mig_good (wd_db w1) \<and> (holds tok i (wd_db w1) \<longrightarrow> some_tracked sv D ?ub rows i (wd_db w1))
      | Inr (st, f) \<Rightarrow> is_ours tok i f \<and> (\<exists>pts. standing (all_tracked sv D ?ub rows i pts) tok i w1 \<and>
          (\<forall>t \<in> set ?ts. map_of (rs_tables st) (ts_id t) = Some (pts (ts_id t)) \<and> fits ?ub rows t (pts (ts_id t))))"
    using o1
  proof (cases rule: unit_cases)
    case (1 e d)
    then show ?thesis using good met by auto
  next
    case (2 v d)
    obtain st f where v: "v = (st, f)" by (cases v)
    note s = open_unit_starts [OF good prep 2(1) [unfolded v] tok resume]
    then obtain pts where pts: "all_tracked sv D ?ub rows i pts d"
        "\<forall>t \<in> set ?ts. map_of (rs_tables st) (ts_id t) = Some (pts (ts_id t))" by blast
    from 2(2) show ?thesis
    proof
      assume c: "o1 = Inr v \<and> wd_db w1 = d"
      then have "standing (all_tracked sv D ?ub rows i pts) tok i w1" using s pts unfolding standing_def by simp
      then show ?thesis using c v s(3) pts(2) tracked_fits [OF pts(1)] by auto
    next
      assume c: "o1 = Inl MErrDependency \<and> wd_db w1 \<in> {d, ?d}"
      have "some_tracked sv D ?ub rows i d" using pts(1) unfolding some_tracked_def by blast
      then show ?thesis using c good met s(1) by auto
    qed
  qed
  show ?thesis
  proof (cases o1)
    case (Inl e)
    then show ?thesis using opened o1 prep unfolding Run_def by simp
  next
    case (Inr v)
    obtain st f where v: "v = (st, f)" by (cases v)
    obtain pts where s: "is_ours tok i f" "standing (all_tracked sv D ?ub rows i pts) tok i w1"
        "\<And>t. t \<in> set ?ts \<Longrightarrow> fits ?ub rows t (pts (ts_id t)) \<and> map_of (rs_tables st) (ts_id t) = Some (pts (ts_id t))"
      using opened Inr v by auto
    obtain o2 w2 where o2: "run_each sv (pg_ports reg) U D st ?ts (f, no_result) w1 = Some (o2, w2)"
        "case o2 of Inl e \<Rightarrow> ?W w2
        | Inr (f', res') \<Rightarrow> \<exists>pts'. standing (all_tracked sv D ?ub rows i pts') tok i w2 \<and> is_ours tok i f' \<and>
          (\<forall>t \<in> set ?ts. tc_complete (pts' (ts_id t))) \<and> (\<forall>x. x \<notin> ts_id ` set ?ts \<longrightarrow> pts' x = pts x)"
      using run_each_keeps [OF set subset_refl ids s] by blast
    show ?thesis
    proof (cases o2)
      case (Inl e)
      then show ?thesis using o2 o1 Inr v prep W unfolding Run_def by simp
    next
      case r: (Inr u)
      obtain f' res' where u: "u = (f', res')" by (cases u)
      obtain pts' where t: "standing (all_tracked sv D ?ub rows i pts') tok i w2" "is_ours tok i f'"
          "\<forall>t \<in> set ?ts. tc_complete (pts' (ts_id t))"
        using o2(2) r u by auto
      obtain o3 w3 where o3: "unit_of_work U (\<lambda>s. mp_Finish (pg_ports reg) s f') w2 = (o3, w3)" by fastforce
      note fin = finish_done [OF set t o3]
      have "Run sv (pg_ports reg) U i a w = Some (case o3 of Inl e \<Rightarrow> Inl e | Inr _ \<Rightarrow> Inr res', w3)"
        using o1 o2(1) o3 Inr v r u prep unfolding Run_def by (cases o3) simp_all
      then show ?thesis using fin W by (cases o3) auto
    qed
  qed
qed

text \<open>The keys of the rows of a run that is done differ, because the keys of its results do.\<close>

lemma done_keys:
  assumes good: "mig_good db" and fin: "run_done sv D rows i db" and t: "t \<in> set (am_tables (ad_manifest D))"
  shows "distinct (map (\<lambda>row. me_sha256 (sv_env sv) (sr_key row)) (rows (ts_id t)))"
proof -
  obtain p where all: "list_all2 (row_result (sv_env sv) D t p i) (rows (ts_id t)) (table_results i (ts_id t) db)"
    using fin t unfolding run_done_def by blast
  have "distinct (map result_key (mg_results db))" using good unfolding mig_good_def receipts_ok_def by blast
  then have "distinct (map result_key (table_results i (ts_id t) db))"
    unfolding table_results_def run_results_def by (simp add: distinct_map inj_on_def)
  moreover have "map result_key (table_results i (ts_id t) db) =
      map (\<lambda>k. (i, am_id (ad_manifest D), ts_id t, k)) (map (\<lambda>row. me_sha256 (sv_env sv) (sr_key row)) (rows (ts_id t)))"
  proof -
    have "result_key x = (i, am_id (ad_manifest D), ts_id t, me_sha256 (sv_env sv) (sr_key row))"
      if "row_result (sv_env sv) D t p i row x" for row x
    proof -
      have x: "x = result_of i (re_row x)" "row_key (re_row x) = row_key (bare_receipt (sv_env sv) D t p row)"
        using that unfolding row_result_def by blast+
      have "result_key x = (i, row_key (re_row x))"
        by (subst x(1)) (simp add: result_key_def result_of_def)
      then show ?thesis unfolding x(2) by (simp add: row_key_def bare_receipt_def)
    qed
    with all show ?thesis by (induction rule: list_all2_induct) auto
  qed
  ultimately have "distinct (map (\<lambda>k. (i, am_id (ad_manifest D), ts_id t, k)) (map (\<lambda>row. me_sha256 (sv_env sv) (sr_key row)) (rows (ts_id t))))"
    by (simp only:)
  then show ?thesis using distinct_map [of _ "map (\<lambda>row. me_sha256 (sv_env sv) (sr_key row)) (rows (ts_id t))"] by blast
qed

end
