(* ===== verification/MigrationVerified.thy ===== *)
theory MigrationVerified
  imports MigrationOutcome
begin

text \<open>
  What a reconciliation has shown when it returns without an error: the results of the run are
  the expected ones of its source, row by row, and no others.
\<close>

section \<open>Units that read\<close>

definition reads :: "(mig_stamp \<Rightarrow> ('d, mig_error, 'a) tx) \<Rightarrow> bool" where
  "reads body \<longleftrightarrow> (\<forall>s d v d'. body s d = (Inr v, d') \<longrightarrow> d' = d)"

definition steps_only :: "'w TargetRegistry \<Rightarrow> (mig_stamp \<Rightarrow> ('w mig_db, mig_error, 'a) tx) \<Rightarrow> bool" where
  "steps_only reg body \<longleftrightarrow> (\<forall>s d v d'. body s d = (Inr v, d') \<longrightarrow> d' = d \<or> (\<exists>l. mig_step reg l d d'))"

lemma reads_steps: "reads body \<Longrightarrow> steps_only reg body"
  unfolding reads_def steps_only_def by blast

text \<open>What a unit that succeeded met and left.\<close>

lemma unit_succeeds:
  assumes rely: "among_others reg U tok i" and good: "mig_good (wd_db w)" and body: "steps_only reg body"
    and u: "unit_of_work U body w = (Inr v, w')"
  obtains s d where "body s d = (Inr v, wd_db w')" "grown (wd_db w) d" "grown d (wd_db w')" "mig_good d"
    "(other_step reg (tok, i))\<^sup>*\<^sup>* (wd_db w) d" "s = os_stamp U (wd_tick w)"
proof -
  let ?d = "os_between U (wd_tick w) (wd_db w)"
  have o: "(other_step reg (tok, i))\<^sup>*\<^sup>* (wd_db w) ?d" using rely unfolding among_others_def by blast
  have g: "grown (wd_db w) ?d" by (rule others_grow [OF o good])
  have b: "body (os_stamp U (wd_tick w)) ?d = (Inr v, wd_db w')"
    using u by (cases rule: unit_cases) auto
  then have "grown ?d (wd_db w')"
    using body g step_grown grown_refl unfolding steps_only_def grown_def by metis
  then show thesis using that b g o unfolding grown_def by blast
qed

lemma unit_grown:
  assumes rely: "among_others reg U tok i" and good: "mig_good (wd_db w)" and body: "steps_only reg body"
    and u: "unit_of_work U body w = (Inr v, w')"
  shows "grown (wd_db w) (wd_db w')"
  by (rule unit_succeeds [OF assms]) (rule grown_trans)

section \<open>Rows\<close>

definition verified :: "mig_env \<Rightarrow> AdapterDefinition \<Rightarrow> TableSpec \<Rightarrow> Policy \<Rightarrow> string \<Rightarrow> SourceRow \<Rightarrow> 'w mig_db \<Rightarrow> bool" where
  "verified E D t p i row db \<longleftrightarrow> (\<exists>r. expectedReceipt E D t p row = Inr r \<and>
     find_row_receipt (wr_adapter r) (wr_table r) (wr_key r) db = Some r \<and>
     find_result i (wr_adapter r) (wr_table r) (wr_key r) db = Some (result_of i r))"

lemma verified_grown: "verified E D t p i row db \<Longrightarrow> grown db db' \<Longrightarrow> verified E D t p i row db'"
  unfolding verified_def grown_def using grows_find_receipt grows_find_result by blast

lemma target_verify_reads: "target_VerifyResultReceipt reg x d = (v, d') \<Longrightarrow> d' = d"
  unfolding target_VerifyResultReceipt_def by (auto split: if_splits option.splits)

lemma verify_unit_reads: "reads (\<lambda>_. verify_unit (pg_ports reg) i r)"
  unfolding reads_def verify_unit_def
  by (auto simp: tx_iff split: if_splits dest: target_verify_reads)

lemma verify_row_verifies:
  assumes rely: "among_others reg U tok i'" and good: "mig_good (wd_db w)"
    and v: "verify_row sv (pg_ports reg) U D i t p row st w = (Inr st', w')"
  shows "grown (wd_db w) (wd_db w')" "verified (sv_env sv) D t p i row (wd_db w')"
proof -
  obtain r x where r: "expectedReceipt (sv_env sv) D t p row = Inr r"
      and u: "unit_of_work U (\<lambda>_. verify_unit (pg_ports reg) i r) w = (Inr x, w')"
    using v unfolding verify_row_def by (auto simp: tx_iff split: if_splits)
  show "grown (wd_db w) (wd_db w')" by (rule unit_grown [OF rely good reads_steps [OF verify_unit_reads] u])
  obtain s d where d: "verify_unit (pg_ports reg) i r d = (Inr x, wd_db w')"
    by (rule unit_succeeds [OF rely good reads_steps [OF verify_unit_reads] u])
  then have "wd_db w' = d" using verify_unit_reads [of reg i r] unfolding reads_def by blast
  then show "verified (sv_env sv) D t p i row (wd_db w')"
    using d r unfolding verify_unit_def verified_def by (auto simp: tx_iff split: if_splits)
qed

lemma feed_verifies:
  assumes rely: "among_others reg U tok i'"
  shows "mig_good (wd_db w) \<Longrightarrow> feed (verify_row sv (pg_ports reg) U D i t p) rs st w = (Inr st', w') \<Longrightarrow>
    grown (wd_db w) (wd_db w') \<and> (\<forall>row \<in> set rs. verified (sv_env sv) D t p i row (wd_db w')) \<and>
    rp_seen st' = rp_seen st + int (length rs) \<and> rp_rows st' = rp_rows st + int (length rs) \<and>
    rp_total st' = rp_total st + int (length rs) \<and> rp_after st' = (if rs = [] then rp_after st else sr_cursor (last rs))"
proof (induction rs arbitrary: st w)
  case Nil
  then show ?case by (simp add: grown_refl)
next
  case (Cons r rs)
  then obtain st1 w1 where a: "verify_row sv (pg_ports reg) U D i t p r st w = (Inr st1, w1)"
      "feed (verify_row sv (pg_ports reg) U D i t p) rs st1 w1 = (Inr st', w')"
    by (auto simp: tx_iff)
  note row = verify_row_verifies [OF rely Cons.prems(1) a(1)]
  have "mig_good (wd_db w1)" using row(1) unfolding grown_def by blast
  note ih = Cons.IH [OF this a(2)]
  have "grown (wd_db w) (wd_db w')" using row(1) ih grown_trans by blast
  moreover have "verified (sv_env sv) D t p i r (wd_db w')" using row(2) ih verified_grown by blast
  ultimately show ?case using ih verify_rowD [OF a(1)] by simp
qed

section \<open>Pages and tables\<close>

lemma renew_reads:
  assumes rely: "among_others reg U tok i'" and good: "mig_good (wd_db w)"
    and u: "unit_of_work U (\<lambda>s. mp_RenewLease (pg_ports reg) s f (st_clock s) ttl) w = (Inr f', w')"
  shows "grown (wd_db w) (wd_db w')" "lf_token f' = lf_token f" "lf_run f' = lf_run f"
proof -
  have body: "steps_only reg (\<lambda>s. mp_RenewLease (pg_ports reg) s f (st_clock s) ttl)"
    unfolding steps_only_def by (auto intro: mig_step.renewed)
  show "grown (wd_db w) (wd_db w')" by (rule unit_grown [OF rely good body u])
  obtain s d where b: "mp_RenewLease (pg_ports reg) s f (st_clock s) ttl d = (Inr f', wd_db w')"
    by (rule unit_succeeds [OF rely good body u])
  show "lf_token f' = lf_token f" "lf_run f' = lf_run f" by (rule RenewD [OF b [unfolded pg_ports_simps]], simp)+
qed

lemma verify_pages_verifies:
  assumes rely: "among_others reg U tok i'" and src: "source_rows sv D t ub R"
  shows "mig_good (wd_db w) \<Longrightarrow> rp_after st = cursor_at R n \<Longrightarrow> n \<le> length R \<Longrightarrow>
    verify_pages sv (pg_ports reg) U D i t p ub (f, st) w = Some (Inr (f', st'), w') \<Longrightarrow>
    grown (wd_db w) (wd_db w') \<and> (\<forall>row \<in> set (drop n R). verified (sv_env sv) D t p i row (wd_db w')) \<and>
    rp_rows st' = rp_rows st + int (length R - n) \<and> rp_total st' = rp_total st + int (length R - n) \<and>
    lf_token f' = lf_token f \<and> lf_run f' = lf_run f"
proof (induction "length R - n" arbitrary: n f st w rule: less_induct)
  case less
  obtain complete f1 st1 w1 where p: "verify_page sv (pg_ports reg) U D i t p ub (f, st) w = (Inr (complete, f1, st1), w1)"
      and rest: "if complete then (f', st') = (f1, st1) \<and> w' = w1
        else verify_pages sv (pg_ports reg) U D i t p ub (f1, st1) w1 = Some (Inr (f', st'), w')"
    using less.prems(4) by (subst (asm) verify_pages.simps) (auto split: prod.splits sum.splits if_splits)
  let ?offer = "ad_stream D t ub (rp_after st) (sv_limit sv)"
  obtain w0 where r: "unit_of_work U (\<lambda>s. mp_RenewLease (pg_ports reg) s f (st_clock s) (sv_ttl sv)) w = (Inr f1, w0)"
      and fd: "feed (verify_row sv (pg_ports reg) U D i t p) (fst ?offer) (st\<lparr>rp_seen := 0\<rparr>) w0 = (Inr st1, w1)"
      and verdict: "snd ?offer = Inr complete" "\<not> (rp_seen st1 = 0 \<and> \<not> complete)"
    using p unfolding verify_page_def by (auto simp: tx_iff streamed_Inr split: if_splits)
  note renew = renew_reads [OF rely less.prems(1) r]
  have good0: "mig_good (wd_db w0)" using renew(1) unfolding grown_def by blast
  note fed = feed_verifies [OF rely good0 fd]
  let ?k = "length (fst ?offer)"
  have offer: "fst ?offer = take ?k (drop n R)" "snd ?offer = Inr True \<Longrightarrow> length R \<le> n + ?k"
    using source_rowsD [OF src less.prems(3)] unfolding less.prems(2) by blast+
  have k: "n + ?k \<le> length R" using arg_cong [OF offer(1), of length] less.prems(3) by simp
  have g: "grown (wd_db w) (wd_db w1)" using renew(1) fed grown_trans by blast
  show ?case
  proof (cases complete)
    case True
    then have "n + ?k = length R" using offer(2) verdict(1) k by simp
    then have "fst ?offer = drop n R" "length R - n = ?k" using offer(1) by simp_all
    then show ?thesis using True rest fed renew g by simp
  next
    case False
    then have pos: "?k \<noteq> 0" using verdict(2) fed by auto
    have len: "0 < ?k" "n < n + ?k" "length R - (n + ?k) < length R - n" using pos k by linarith+
    have "last (fst ?offer) = R ! (n + ?k - 1)"
    proof -
      have "last (fst ?offer) = fst ?offer ! (?k - 1)" using pos by (intro last_conv_nth) auto
      also have "\<dots> = take ?k (drop n R) ! (?k - 1)" using offer(1) by simp
      also have "\<dots> = R ! (n + (?k - 1))" using k len by simp
      finally show ?thesis using len by simp
    qed
    then have after: "rp_after st1 = cursor_at R (n + ?k)" using fed pos unfolding cursor_at_def by auto
    have good1: "mig_good (wd_db w1)" using fed unfolding grown_def by blast
    have pages: "verify_pages sv (pg_ports reg) U D i t p ub (f1, st1) w1 = Some (Inr (f', st'), w')" using rest False by simp
    note ih = less.hyps [OF len(3) good1 after k pages]
    have "drop n R = fst ?offer @ drop (n + ?k) R"
      using offer(1) by (metis append_take_drop_id drop_drop add.commute)
    moreover have "\<forall>row \<in> set (fst ?offer). verified (sv_env sv) D t p i row (wd_db w')"
      using fed ih verified_grown by blast
    moreover have "grown (wd_db w) (wd_db w')" using g ih grown_trans by blast
    ultimately show ?thesis using ih fed renew k by (auto simp: of_nat_diff)
  qed
qed

lemma verify_tables_verifies:
  assumes rely: "among_others reg U tok i'" and src: "\<And>t. t \<in> set ts \<Longrightarrow> source_rows sv D t (table_bound bs (ts_id t)) (rows (ts_id t))"
    and bounds: "distinct (map tb_table bs)"
  shows "mig_good (wd_db w) \<Longrightarrow> verify_tables sv (pg_ports reg) U D state bs ts (f, st) w = Some (Inr (f', st'), w') \<Longrightarrow>
    grown (wd_db w) (wd_db w') \<and> lf_token f' = lf_token f \<and> lf_run f' = lf_run f \<and>
    rp_total st' = rp_total st + (\<Sum>t\<leftarrow>ts. int (length (rows (ts_id t)))) \<and>
    (\<forall>t \<in> set ts. \<exists>p. find_policy sv t = Inr p \<and>
       (\<forall>row \<in> set (rows (ts_id t)). verified (sv_env sv) D t p (rs_id state) row (wd_db w')))"
  using src
proof (induction ts arbitrary: f st w)
  case Nil
  then show ?case by (simp add: grown_refl)
next
  case (Cons t ts)
  obtain c p where cp: "verify_table_policy sv state bs t = Inr (c, p)"
    using Cons.prems(2) by (auto split: sum.splits)
  obtain f1 st1 w1 where pages:
      "verify_pages sv (pg_ports reg) U D (rs_id state) t p (tc_bound c) (f, table_start st) w = Some (Inr (f1, st1), w1)"
      and rest: "verify_tables sv (pg_ports reg) U D state bs ts (f1, st1) w1 = Some (Inr (f', st'), w')"
    using Cons.prems(2) cp by (auto split: option.splits prod.splits sum.splits if_splits)
  have pol: "find_policy sv t = Inr p" and ub: "tc_bound c = table_bound bs (ts_id t)"
  proof -
    have "map_of (rev (map (\<lambda>b. (tb_table b, tb_bound b)) bs)) = map_of (map (\<lambda>b. (tb_table b, tb_bound b)) bs)"
      by (subst map_of_inject_set) (use bounds in \<open>simp_all add: o_def rev_map [symmetric]\<close>)
    then show "find_policy sv t = Inr p" "tc_bound c = table_bound bs (ts_id t)"
      using cp unfolding verify_table_policy_def table_bound_def sameUpperBound_def
      by (auto split: option.splits if_splits sum.splits)
  qed
  have src: "source_rows sv D t (tc_bound c) (rows (ts_id t))" using Cons.prems(3) ub by simp
  have start: "rp_after (table_start st) = cursor_at (rows (ts_id t)) 0" "rp_total (table_start st) = rp_total st"
    unfolding table_start_def cursor_at_def by simp_all
  note page = verify_pages_verifies [OF rely src Cons.prems(1) start(1) _ pages]
  have good1: "mig_good (wd_db w1)" using page unfolding grown_def by simp
  have ih: "grown (wd_db w1) (wd_db w') \<and> lf_token f' = lf_token f1 \<and> lf_run f' = lf_run f1 \<and>
    rp_total st' = rp_total st1 + (\<Sum>t\<leftarrow>ts. int (length (rows (ts_id t)))) \<and>
    (\<forall>t \<in> set ts. \<exists>p. find_policy sv t = Inr p \<and>
       (\<forall>row \<in> set (rows (ts_id t)). verified (sv_env sv) D t p (rs_id state) row (wd_db w')))"
    by (rule Cons.IH [OF good1 rest]) (use Cons.prems(3) in simp)
  have "\<forall>row \<in> set (rows (ts_id t)). verified (sv_env sv) D t p (rs_id state) row (wd_db w')"
    using page ih verified_grown by simp blast
  moreover have "grown (wd_db w) (wd_db w')" using page ih grown_trans by simp blast
  ultimately show ?case using page ih pol start(2) by auto
qed

section \<open>The whole reconciliation\<close>

text \<open>The results that a run of the adapter \<open>D\<close> must have for the rows of its source.\<close>

definition expected_results ::
  "mig_service \<Rightarrow> AdapterDefinition \<Rightarrow> (string \<Rightarrow> SourceRow list) \<Rightarrow> string \<Rightarrow> (mig_error + ResultReceipt) list" where
  "expected_results sv D rows i = concat (map (\<lambda>t. map (\<lambda>row. case find_policy sv t of
       Inl e \<Rightarrow> Inl e
     | Inr p \<Rightarrow> map_sum (\<lambda>e. e) (result_of i) (expectedReceipt (sv_env sv) D t p row)) (rows (ts_id t)))
     (am_tables (ad_manifest D)))"

lemma settleD:
  assumes "settle_unit sv (pg_ports reg) i f st n s d = (Inr v, d')" and "lf_run f = i"
  shows "mig_step reg (Some (lf_token f, i)) d d'" "mg_results d' = mg_results d"
    "map_option gr_phase (find_run i d') = Some PhaseReconciled" "i \<in> rc_run ` set (mg_reconciliations d')"
proof -
  show "mig_step reg (Some (lf_token f, i)) d d'" using mig_step.settled [of sv reg f st n s d v d'] assms by simp
  obtain r d1 where r: "mig_AppendReconciliationReceipt (st_now s) f r d = (Inr (), d1)" "rc_run r = i"
      "mig_finish (st_now s) f PhaseReconciled d1 = (Inr (), d')"
    using assms(1) unfolding settle_unit_def by (auto simp: tx_iff mig_MarkReconciled_def)
  note a = AppendReconciliationD [OF r(1)] and b = finishD [OF r(3), unfolded assms(2)]
  show "mg_results d' = mg_results d" unfolding b(4) set_phase_def retire_def using a by simp
  have "find_run i (retire (st_now s) (is_lease f) d1) \<noteq> None" using b(3) unfolding phase_allowed_def by auto
  then show "map_option gr_phase (find_run i d') = Some PhaseReconciled" unfolding b(4) find_set_phase by auto
  show "i \<in> rc_run ` set (mg_reconciliations d')"
    using r(2) a unfolding b(4) set_phase_def retire_def by simp
qed

lemma run_results_view: "run_view i d' = run_view i d \<Longrightarrow> run_results i d' = run_results i d"
  unfolding run_view_def by simp

lemma ReconcileD:
  assumes "Reconcile sv P U i w = Some (Inr (), w')"
  obtains state w1 f w2 f' st w3 xs w4 where
    "unit_of_work U (\<lambda>_. mp_Load P i) w = (Inr state, w1)"
    "unit_of_work U (\<lambda>s. mp_AcquireLease P s i (st_clock s) (sv_ttl sv)) w1 = (Inr f, w2)"
    "reconcileSource sv P U state f w2 = Some (Inr (f', st), w3)"
    "unit_of_work U (\<lambda>_. mp_ListResultReceipts P i) w3 = (Inr xs, w4)"
    "int (length xs) = rp_total st"
    "unit_of_work U (settle_unit sv P i f' st (int (length xs))) w4 = (Inr (), w')"
  using assms unfolding Reconcile_def by (auto split: if_splits prod.splits sum.splits option.splits)

lemma unit_tick: "unit_of_work U body w = (out, w') \<Longrightarrow> wd_tick w' = Suc (wd_tick w)"
  unfolding unit_of_work_def by (auto simp: Let_def split: prod.splits sum.splits commit.splits)

lemma reconcile_start:
  assumes rely: "among_others reg U tok i" and tok: "st_token (os_stamp U (Suc (wd_tick w))) = Some tok"
    and good: "mig_good (wd_db w)" and load: "unit_of_work U (\<lambda>_. mp_Load (pg_ports reg) i) w = (Inr state, w1)"
    and acq: "unit_of_work U (\<lambda>s. mp_AcquireLease (pg_ports reg) s i (st_clock s) ttl) w1 = (Inr f, w2)"
  shows "grown (wd_db w) (wd_db w2)" "is_ours tok i f" "issued tok i (wd_db w2)" "rs_id state = i"
    "\<exists>r. find_run i (wd_db w2) = Some r \<and> rs_adapter state = gr_adapter r"
proof -
  have l: "steps_only reg (\<lambda>_. mp_Load (pg_ports reg) i)"
    unfolding steps_only_def by (simp add: mig_Load_def)
  have a: "steps_only reg (\<lambda>s. mp_AcquireLease (pg_ports reg) s i (st_clock s) ttl)"
    unfolding steps_only_def by (auto intro: mig_step.acquired)
  have g1: "grown (wd_db w) (wd_db w1)" by (rule unit_grown [OF rely good l load])
  then have good1: "mig_good (wd_db w1)" unfolding grown_def by blast
  have g2: "grown (wd_db w1) (wd_db w2)" by (rule unit_grown [OF rely good1 a acq])
  show "grown (wd_db w) (wd_db w2)" by (rule grown_trans [OF g1 g2])
  obtain s d where d: "mp_AcquireLease (pg_ports reg) s i (st_clock s) ttl d = (Inr f, wd_db w2)" "mig_good d"
      "s = os_stamp U (wd_tick w1)"
    by (rule unit_succeeds [OF rely good1 a acq])
  note lease = acquired_safe [OF d(2) d(1) [unfolded pg_ports_simps]]
  show "is_ours tok i f" "issued tok i (wd_db w2)"
    using lease(2,3,5) d(3) unit_tick [OF load] tok holds_issued by auto
  obtain s0 d0 where d0: "mp_Load (pg_ports reg) i d0 = (Inr state, wd_db w1)"
    by (rule unit_succeeds [OF rely good l load])
  then have loaded: "loadWith i (wd_db w1) = Inr state" by (auto simp: mig_Load_def)
  obtain r where r: "find_run i (wd_db w1) = Some r" "rs_adapter state = gr_adapter r" "rs_id state = i"
    by (rule loadWithD [OF loaded])
  then show "rs_id state = i" "\<exists>r. find_run i (wd_db w2) = Some r \<and> rs_adapter state = gr_adapter r"
    using g2 unfolding grown_def runs_kept_def by fastforce+
qed

lemma reconcile_source:
  assumes rely: "among_others reg U tok i'" and good: "mig_good (wd_db w)"
    and D: "map_of (sv_mappings sv) (rs_adapter state) = Some D"
    and bs: "ad_preflight D = Inr pf" "fixedBounds (ad_manifest D) pf = Inr bs"
    and src: "\<And>t. t \<in> set (am_tables (ad_manifest D)) \<Longrightarrow> source_rows sv D t (table_bound bs (ts_id t)) (rows (ts_id t))"
    and run: "reconcileSource sv (pg_ports reg) U state f w = Some (Inr (f', st), w')"
  shows "grown (wd_db w) (wd_db w')" "lf_token f' = lf_token f" "lf_run f' = lf_run f"
    "rp_total st = (\<Sum>t\<leftarrow>am_tables (ad_manifest D). int (length (rows (ts_id t))))"
    "manifest_valid (ad_manifest D)"
    "\<forall>t \<in> set (am_tables (ad_manifest D)). \<exists>p. find_policy sv t = Inr p \<and>
       (\<forall>row \<in> set (rows (ts_id t)). verified (sv_env sv) D t p (rs_id state) row (wd_db w'))"
proof -
  obtain D' bs' where prep: "prepare_reconcile sv state = Inr (D', bs')"
      and tables: "verify_tables sv (pg_ports reg) U D' state bs' (am_tables (ad_manifest D')) (f, replay_start) w = Some (Inr (f', st), w')"
    using run unfolding reconcileSource_def by (auto split: sum.splits)
  have same: "D' = D" "bs' = bs" and valid: "manifest_valid (ad_manifest D)"
    using prep D bs unfolding prepare_reconcile_def manifest_digest_def
    by (auto simp: Let_def split: if_splits option.splits sum.splits)
  have "map tb_table bs = map ts_id (am_tables (ad_manifest D))"
    using bs(2) fixed_bounds_tables unfolding fixedBounds_def by (auto split: if_splits sum.splits)
  then have "distinct (map tb_table bs)" using valid unfolding manifest_valid_def by simp
  note v = verify_tables_verifies [OF rely src this good tables [unfolded same]]
  show "grown (wd_db w) (wd_db w')" "lf_token f' = lf_token f" "lf_run f' = lf_run f" "manifest_valid (ad_manifest D)"
    "rp_total st = (\<Sum>t\<leftarrow>am_tables (ad_manifest D). int (length (rows (ts_id t))))"
    "\<forall>t \<in> set (am_tables (ad_manifest D)). \<exists>p. find_policy sv t = Inr p \<and>
       (\<forall>row \<in> set (rows (ts_id t)). verified (sv_env sv) D t p (rs_id state) row (wd_db w'))"
    using v valid by (simp_all add: replay_start_def)
qed

text \<open>The results that were counted are the results at the end: the lease was held in between.\<close>

lemma reconcile_end:
  assumes rely: "among_others reg U tok i" and good: "mig_good (wd_db w)" and given: "issued tok i (wd_db w)"
    and f: "is_ours tok i f" and list: "unit_of_work U (\<lambda>_. mp_ListResultReceipts (pg_ports reg) i) w = (Inr xs, w1)"
    and settle: "unit_of_work U (settle_unit sv (pg_ports reg) i f st n) w1 = (Inr (), w')"
  shows "grown (wd_db w) (wd_db w')" "run_results i (wd_db w') = xs"
    "map_option gr_phase (find_run i (wd_db w')) = Some PhaseReconciled" "i \<in> rc_run ` set (mg_reconciliations (wd_db w'))"
proof -
  have l: "steps_only reg (\<lambda>_. mp_ListResultReceipts (pg_ports reg) i)"
    unfolding steps_only_def by (auto simp: mig_ListResultReceipts_def split: if_splits)
  have s: "steps_only reg (settle_unit sv (pg_ports reg) i f st n)"
    unfolding steps_only_def using settleD(1) f by blast
  have g1: "grown (wd_db w) (wd_db w1)" by (rule unit_grown [OF rely good l list])
  then have good1: "mig_good (wd_db w1)" "issued tok i (wd_db w1)" using given unfolding grown_def appends_def by blast+
  have g2: "grown (wd_db w1) (wd_db w')" by (rule unit_grown [OF rely good1(1) s settle])
  show "grown (wd_db w) (wd_db w')" by (rule grown_trans [OF g1 g2])
  obtain s0 d0 where "mp_ListResultReceipts (pg_ports reg) i d0 = (Inr xs, wd_db w1)"
    by (rule unit_succeeds [OF rely good l list])
  then have xs: "xs = run_results i (wd_db w1)" by (auto simp: mig_ListResultReceipts_def split: if_splits)
  obtain s1 d where d: "settle_unit sv (pg_ports reg) i f st n s1 d = (Inr (), wd_db w')" "mig_good d"
      "(other_step reg (tok, i))\<^sup>*\<^sup>* (wd_db w1) d"
    by (rule unit_succeeds [OF rely good1(1) s settle])
  note e = settleD [OF d(1)]
  have f': "lf_run f = i" "lf_token f = tok" using f by blast+
  have held: "holds tok i d" using e(1) [OF f'(1)] safe_stepD(5) [OF mig_step_safe [OF _ d(2)]] f'(2) by blast
  have "run_view i d = run_view i (wd_db w1)"
    using fenced.others_view(2) [where a = "(tok, i)" and reg = reg, unfolded fenced_steps, OF d(3) good1(1)] good1(2) held by simp
  then have "run_results i d = xs" using run_results_view xs by simp
  then show "run_results i (wd_db w') = xs" using e(2) [OF f'(1)] unfolding run_results_def by simp
  show "map_option gr_phase (find_run i (wd_db w')) = Some PhaseReconciled" "i \<in> rc_run ` set (mg_reconciliations (wd_db w'))"
    using e(3,4) [OF f'(1)] by blast+
qed

lemma Reconcile_verifies:
  assumes rely: "among_others reg U tok i" and tok: "st_token (os_stamp U (Suc (wd_tick w))) = Some tok"
    and good: "mig_good (wd_db w)" and D: "map_of (sv_mappings sv) a = Some D"
    and bs: "ad_preflight D = Inr pf" "fixedBounds (ad_manifest D) pf = Inr bs"
    and src: "\<And>t. t \<in> set (am_tables (ad_manifest D)) \<Longrightarrow> source_rows sv D t (table_bound bs (ts_id t)) (rows (ts_id t))"
    and run: "Reconcile sv (pg_ports reg) U i w = Some (Inr (), w')"
    and adapter: "map_option gr_adapter (find_run i (wd_db w)) = Some a"
  shows "mig_good (wd_db w')" "map_option gr_phase (find_run i (wd_db w')) = Some PhaseReconciled"
    "i \<in> rc_run ` set (mg_reconciliations (wd_db w'))" "manifest_valid (ad_manifest D)"
    "int (length (run_results i (wd_db w'))) = (\<Sum>t\<leftarrow>am_tables (ad_manifest D). int (length (rows (ts_id t))))"
    "\<And>t. t \<in> set (am_tables (ad_manifest D)) \<Longrightarrow> \<exists>p. find_policy sv t = Inr p \<and>
       (\<forall>row \<in> set (rows (ts_id t)). verified (sv_env sv) D t p i row (wd_db w'))"
proof -
  obtain state w1 f w2 f' st w3 xs w4 where u:
      "unit_of_work U (\<lambda>_. mp_Load (pg_ports reg) i) w = (Inr state, w1)"
      "unit_of_work U (\<lambda>s. mp_AcquireLease (pg_ports reg) s i (st_clock s) (sv_ttl sv)) w1 = (Inr f, w2)"
      "reconcileSource sv (pg_ports reg) U state f w2 = Some (Inr (f', st), w3)"
      "unit_of_work U (\<lambda>_. mp_ListResultReceipts (pg_ports reg) i) w3 = (Inr xs, w4)"
      "int (length xs) = rp_total st"
      "unit_of_work U (settle_unit sv (pg_ports reg) i f' st (int (length xs))) w4 = (Inr (), w')"
    by (rule ReconcileD [OF run])
  note start = reconcile_start [OF rely tok good u(1,2)]
  have good2: "mig_good (wd_db w2)" using start(1) unfolding grown_def by blast
  obtain r where "find_run i (wd_db w2) = Some r" "rs_adapter state = gr_adapter r" using start(5) by blast
  then have "rs_adapter state = a" using adapter start(1) unfolding grown_def runs_kept_def by fastforce
  then have D': "map_of (sv_mappings sv) (rs_adapter state) = Some D" using D by simp
  note source = reconcile_source [OF rely good2 D' bs src u(3)]
  have good3: "mig_good (wd_db w3)" "issued tok i (wd_db w3)"
    using source(1) start(3) unfolding grown_def appends_def by blast+
  have f': "is_ours tok i f'" using source(2,3) start(2) by simp
  note fin = reconcile_end [OF rely good3 f' u(4,6)]
  show "mig_good (wd_db w')" using fin(1) unfolding grown_def by blast
  show "map_option gr_phase (find_run i (wd_db w')) = Some PhaseReconciled" "i \<in> rc_run ` set (mg_reconciliations (wd_db w'))"
    "manifest_valid (ad_manifest D)" by (rule fin source)+
  show "int (length (run_results i (wd_db w'))) = (\<Sum>t\<leftarrow>am_tables (ad_manifest D). int (length (rows (ts_id t))))"
    using fin(2) u(5) source(4) by simp
  show "\<exists>p. find_policy sv t = Inr p \<and> (\<forall>row \<in> set (rows (ts_id t)). verified (sv_env sv) D t p i row (wd_db w'))"
    if "t \<in> set (am_tables (ad_manifest D))" for t
    using that source(6) fin(1) verified_grown unfolding start(4) by blast
qed

text \<open>When no two rows of a table have the same key then there is no other result.\<close>

lemma verified_expected:
  assumes "find_policy sv t = Inr p" "verified (sv_env sv) D t p i row db"
  obtains r where "expectedReceipt (sv_env sv) D t p row = Inr r" "result_of i r \<in> set (run_results i db)"
    "row_key r = (am_id (ad_manifest D), ts_id t, me_sha256 (sv_env sv) (sr_key row))"
proof -
  obtain r where r: "expectedReceipt (sv_env sv) D t p row = Inr r"
      "find_result i (wr_adapter r) (wr_table r) (wr_key r) db = Some (result_of i r)"
    using assms(2) unfolding verified_def by blast
  have "row_key r = (am_id (ad_manifest D), ts_id t, me_sha256 (sv_env sv) (sr_key row))"
    using r(1) unfolding expectedReceipt_def bare_receipt_def row_key_def
    by (auto simp: Let_def split: if_splits sum.splits)
  moreover have "result_of i r \<in> set (run_results i db)"
    using find_resultD [OF r(2)] unfolding run_results_def by (simp add: result_of_def)
  ultimately show thesis using r(1) that by blast
qed

definition distinct_keys :: "mig_env \<Rightarrow> AdapterDefinition \<Rightarrow> (string \<Rightarrow> SourceRow list) \<Rightarrow> bool" where
  "distinct_keys E D rows \<longleftrightarrow> list_all (\<lambda>t. distinct (map (\<lambda>row. me_sha256 E (sr_key row)) (rows (ts_id t)))) (am_tables (ad_manifest D))"

definition row_keys ::
  "mig_env \<Rightarrow> AdapterDefinition \<Rightarrow> (string \<Rightarrow> SourceRow list) \<Rightarrow> string \<Rightarrow> (string \<times> string \<times> string \<times> digest) list" where
  "row_keys E D rows i = concat (map (\<lambda>t. map (\<lambda>row. (i, am_id (ad_manifest D), ts_id t, me_sha256 E (sr_key row))) (rows (ts_id t)))
     (am_tables (ad_manifest D)))"

lemma distinct_row_keys:
  assumes "manifest_valid (ad_manifest D)" "distinct_keys E D rows"
  shows "distinct (row_keys E D rows i)"
proof -
  have all: "distinct (concat (map (\<lambda>t. map (\<lambda>row. (i, m, ts_id t, me_sha256 E (sr_key row))) (rows (ts_id t))) ts))"
    if "distinct (map ts_id ts)" "list_all (\<lambda>t. distinct (map (\<lambda>row. me_sha256 E (sr_key row)) (rows (ts_id t)))) ts" for ts :: "TableSpec list" and m
    using that
  proof (induction ts)
    case (Cons t ts)
    have keyed: "distinct (map (\<lambda>k. (i, m, ts_id t, k)) ks)" if "distinct ks" for ks :: "digest list"
      using that by (simp add: distinct_map inj_on_def)
    have "distinct (map (\<lambda>k. (i, m, ts_id t, k)) (map (\<lambda>row. me_sha256 E (sr_key row)) (rows (ts_id t))))"
      by (rule keyed) (use Cons.prems(2) in simp)
    then have "distinct (map (\<lambda>row. (i, m, ts_id t, me_sha256 E (sr_key row))) (rows (ts_id t)))"
      by (simp add: o_def)
    moreover have "distinct (concat (map (\<lambda>t. map (\<lambda>row. (i, m, ts_id t, me_sha256 E (sr_key row))) (rows (ts_id t))) ts))"
      using Cons by simp
    moreover have "set (map (\<lambda>row. (i, m, ts_id t, me_sha256 E (sr_key row))) (rows (ts_id t))) \<inter>
        set (concat (map (\<lambda>t. map (\<lambda>row. (i, m, ts_id t, me_sha256 E (sr_key row))) (rows (ts_id t))) ts)) = {}"
      (is "?A \<inter> ?B = {}")
    proof (rule equals0I)
      fix x assume x: "x \<in> ?A \<inter> ?B"
      then have "fst (snd (snd x)) = ts_id t" by auto
      moreover have "fst (snd (snd x)) \<in> ts_id ` set ts" using x by auto
      ultimately show False using Cons.prems(1) by simp
    qed
    ultimately show ?case unfolding list.map concat.simps distinct_append by (intro conjI)
  qed simp
  show ?thesis
    unfolding row_keys_def by (rule all) (use assms in \<open>simp_all add: manifest_valid_def distinct_keys_def\<close>)
qed

lemma expected_verified:
  assumes "find_policy sv t = Inr p" "\<forall>row \<in> set rs. verified (sv_env sv) D t p i row db"
  defines "xs \<equiv> map (\<lambda>row. case find_policy sv t of
       Inl e \<Rightarrow> Inl e | Inr p \<Rightarrow> map_sum (\<lambda>e. e) (result_of i) (expectedReceipt (sv_env sv) D t p row)) rs"
  shows "map (\<lambda>x. result_key (projr x)) xs = map (\<lambda>row. (i, am_id (ad_manifest D), ts_id t, me_sha256 (sv_env sv) (sr_key row))) rs"
    "set xs \<subseteq> Inr ` set (run_results i db)"
proof -
  have row: "\<exists>r. expectedReceipt (sv_env sv) D t p row = Inr r \<and> result_of i r \<in> set (run_results i db) \<and>
      result_key (result_of i r) = (i, am_id (ad_manifest D), ts_id t, me_sha256 (sv_env sv) (sr_key row))"
    if r: "row \<in> set rs" for row
  proof -
    have v: "verified (sv_env sv) D t p i row db" using assms(2) r by blast
    show ?thesis by (rule verified_expected [OF assms(1) v]) (simp add: result_key_def result_of_def)
  qed
  show "map (\<lambda>x. result_key (projr x)) xs = map (\<lambda>row. (i, am_id (ad_manifest D), ts_id t, me_sha256 (sv_env sv) (sr_key row))) rs"
    unfolding xs_def map_map by (rule map_cong [OF refl]) (use row assms(1) in fastforce)
  show "set xs \<subseteq> Inr ` set (run_results i db)" unfolding xs_def using row assms(1) by fastforce
qed

lemma results_are_expected:
  assumes m: "manifest_valid (ad_manifest D)" and keys: "distinct_keys (sv_env sv) D rows"
    and v: "\<And>t. t \<in> set (am_tables (ad_manifest D)) \<Longrightarrow> \<exists>p. find_policy sv t = Inr p \<and>
       (\<forall>row \<in> set (rows (ts_id t)). verified (sv_env sv) D t p i row db)"
    and n: "int (length (run_results i db)) = (\<Sum>t\<leftarrow>am_tables (ad_manifest D). int (length (rows (ts_id t))))"
  shows "Inr ` set (run_results i db) = set (expected_results sv D rows i)"
proof -
  let ?xs = "expected_results sv D rows i"
  have part: "map (\<lambda>x. result_key (projr x)) (concat (map F ts)) = concat (map G ts) \<and> set (concat (map F ts)) \<subseteq> S"
    if "\<And>t. t \<in> set ts \<Longrightarrow> map (\<lambda>x. result_key (projr x)) (F t) = G t \<and> set (F t) \<subseteq> S"
    for F :: "TableSpec \<Rightarrow> (mig_error + ResultReceipt) list" and G S ts
    using that by (induction ts) auto
  have xs: "map (\<lambda>x. result_key (projr x)) ?xs = row_keys (sv_env sv) D rows i" "set ?xs \<subseteq> Inr ` set (run_results i db)"
  proof -
    have "map (\<lambda>x. result_key (projr x)) ?xs = row_keys (sv_env sv) D rows i \<and> set ?xs \<subseteq> Inr ` set (run_results i db)"
      unfolding expected_results_def row_keys_def
    proof (rule part)
      fix t assume "t \<in> set (am_tables (ad_manifest D))"
      from v [OF this] obtain p where p: "find_policy sv t = Inr p"
          "\<forall>row \<in> set (rows (ts_id t)). verified (sv_env sv) D t p i row db" by blast
      show "map (\<lambda>x. result_key (projr x)) (map (\<lambda>row. case find_policy sv t of
           Inl e \<Rightarrow> Inl e | Inr p \<Rightarrow> map_sum (\<lambda>e. e) (result_of i) (expectedReceipt (sv_env sv) D t p row)) (rows (ts_id t))) =
           map (\<lambda>row. (i, am_id (ad_manifest D), ts_id t, me_sha256 (sv_env sv) (sr_key row))) (rows (ts_id t)) \<and>
         set (map (\<lambda>row. case find_policy sv t of
           Inl e \<Rightarrow> Inl e | Inr p \<Rightarrow> map_sum (\<lambda>e. e) (result_of i) (expectedReceipt (sv_env sv) D t p row)) (rows (ts_id t)))
           \<subseteq> Inr ` set (run_results i db)"
        by (intro conjI; rule expected_verified [OF p])
    qed
    then show "map (\<lambda>x. result_key (projr x)) ?xs = row_keys (sv_env sv) D rows i" "set ?xs \<subseteq> Inr ` set (run_results i db)"
      by blast+
  qed
  have "distinct (map (\<lambda>x. result_key (projr x)) ?xs)" unfolding xs(1) by (rule distinct_row_keys [OF m keys])
  then have "distinct ?xs" unfolding distinct_map by blast
  then have "card (set ?xs) = length ?xs" by (rule distinct_card)
  also have "length ?xs = length (run_results i db)"
  proof -
    have "int (length (concat (map (\<lambda>t. map (F t) (rows (ts_id t))) ts))) = (\<Sum>t\<leftarrow>ts. int (length (rows (ts_id t))))"
      for F :: "TableSpec \<Rightarrow> SourceRow \<Rightarrow> mig_error + ResultReceipt" and ts
      by (induction ts) auto
    then have "int (length ?xs) = (\<Sum>t\<leftarrow>am_tables (ad_manifest D). int (length (rows (ts_id t))))"
      unfolding expected_results_def .
    then show ?thesis using n by simp
  qed
  finally have "card (Inr ` set (run_results i db) :: (mig_error + ResultReceipt) set) \<le> card (set ?xs)"
    using card_image_le [of "set (run_results i db)" "Inr :: _ \<Rightarrow> mig_error + ResultReceipt"] card_length [of "run_results i db"] by simp
  from card_seteq [OF _ xs(2) this] show ?thesis by simp
qed

end
