(* ===== verification/MigrationSample.thy ===== *)
theory MigrationSample
  imports MigrationVerified
begin

text \<open>
  A small migration that the properties are tried on: one table of two rows, imported into a
  target that is a list of texts, in pages of one row, on a quiet database.
\<close>

definition sample_digest :: "string \<Rightarrow> digest" where
  "sample_digest s = CHR ''#'' # s"

definition sample_mig_env :: mig_env where
  "sample_mig_env = \<lparr>me_sha256 = sample_digest, me_manifest = am_id\<rparr>"

definition sample_import :: Policy where
  "sample_import = \<lparr>po_id = ''take'', po_disposition = DispositionImport\<rparr>"

definition sample_table :: TableSpec where
  "sample_table = \<lparr>ts_id = ''people'', ts_source = ''src'', ts_schema = sample_digest ''schema'',
     ts_mapping = sample_digest ''mapping'', ts_policy_digest = sample_digest (''take'' @ CHR 0x00 # ''import''),
     ts_primary_key = ''id'', ts_watermark = ''id'', ts_mode = ''snapshot'', ts_policy = ''take''\<rparr>"

definition sample_manifest :: AdapterManifest where
  "sample_manifest = \<lparr>am_id = ''v1'', am_family = ''contact'', am_source = ''legacy'', am_schema = sample_digest ''schema'',
     am_tables = [sample_table]\<rparr>"

definition sample_row :: "string \<Rightarrow> string \<Rightarrow> SourceRow" where
  "sample_row cursor key = \<lparr>sr_cursor = cursor, sr_key = key, sr_payload = key, sr_field = sample_digest ''fields''\<rparr>"

definition sample_upper :: UpperBound where
  "sample_upper = \<lparr>ub_value = ''22'', ub_empty = False\<rparr>"

text \<open>A cursor of the sample is longer than the cursors before it.\<close>

definition sample_stream :: "SourceRow \<Rightarrow> SourceRow \<Rightarrow> string \<Rightarrow> SourceRow list \<times> (mig_error + bool)" where
  "sample_stream one two after =
     (if after = [] then ([one], Inr False) else if after = ''1'' then ([two], Inr True) else ([], Inr True))"

definition sample_adapter :: "SourceRow \<Rightarrow> SourceRow \<Rightarrow> AdapterDefinition" where
  "sample_adapter one two = \<lparr>ad_manifest = sample_manifest,
     ad_preflight = Inr \<lparr>sp_identity = ''legacy'', sp_schema = sample_digest ''schema'',
       sp_bounds = [\<lparr>tb_table = ''people'', tb_source = ''src'', tb_schema = sample_digest ''schema'', tb_bound = sample_upper\<rparr>]\<rparr>,
     ad_stream = (\<lambda>_ _ after _. sample_stream one two after), ad_mapping = (\<lambda>_. sample_digest ''mapping''),
     ad_map = (\<lambda>_ row. Inr \<lparr>mp_operation = ''put'', mp_payload = sr_payload row, mp_digest = sample_digest (sr_payload row)\<rparr>),
     ad_compare = (\<lambda>l r. Inr (int (length l) - int (length r)))\<rparr>"

definition sample_one :: SourceRow where "sample_one = sample_row ''1'' ''ann''"
definition sample_two :: SourceRow where "sample_two = sample_row ''22'' ''bob''"

definition sample_service :: "SourceRow \<Rightarrow> SourceRow \<Rightarrow> mig_service" where
  "sample_service one two = NewMigrationService sample_mig_env [(''v1'', sample_adapter one two)] [(''take'', sample_import)]"

definition sample_target :: "string list TargetRegistry" where
  "sample_target = \<lparr>tg_apply = [(''put'', \<lambda>f payload w. Inr (w @ [payload]))], tg_verify = [(''put'', \<lambda>r w. Inr ())]\<rparr>"

definition sample_token :: "nat \<Rightarrow> digest" where
  "sample_token k = replicate k (CHR ''a'') @ replicate (32 - k) (CHR ''b'')"

definition sample_stamp :: "nat \<Rightarrow> mig_stamp" where
  "sample_stamp k = \<lparr>st_now = 1000 + int k * 1000, st_clock = 5, st_token = Some (sample_token k), st_commit = Committed\<rparr>"

definition sample_outside :: "string list mig_db mig_outside" where
  "sample_outside = \<lparr>os_stamp = sample_stamp, os_between = (\<lambda>_ d. d)\<rparr>"

definition sample_world :: "string list mig_db mig_world" where
  "sample_world = \<lparr>wd_db = empty_mig [], wd_tick = 0\<rparr>"

definition sample_start :: StartRun where
  "sample_start = \<lparr>sn_id = ''run'', sn_adapter = ''v1'', sn_source = ''legacy'', sn_schema = sample_digest ''schema'',
     sn_manifest = sample_digest ''v1'',
     sn_bounds = [\<lparr>tb_table = ''people'', tb_source = ''src'', tb_schema = sample_digest ''schema'', tb_bound = sample_upper\<rparr>]\<rparr>"

text \<open>What the run of the sample leaves behind.\<close>

definition sample_receipt :: "string \<Rightarrow> RowReceipt" where
  "sample_receipt key = \<lparr>wr_adapter = ''v1'', wr_table = ''people'', wr_key = sample_digest key, wr_payload = sample_digest key,
     wr_field = sample_digest ''fields'', wr_disposition = DispositionImport, wr_mapping = sample_digest ''mapping'',
     wr_policy = sample_digest (''take'' @ CHR 0x00 # ''import''), wr_operation = ''put'', wr_mutation = sample_digest key\<rparr>"

definition sample_done :: "string list mig_db" where
  "sample_done = \<lparr>
     mg_runs = [(new_run sample_start)\<lparr>gr_phase := PhaseCompleted, gr_completed := Some 8000\<rparr>],
     mg_tables = [\<lparr>tr_run = ''run'', tr_table = ''people'', tr_ordinal = 0, tr_point = (new_point (hd (sn_bounds sample_start)))
       \<lparr>tc_cursor := ''22'', tc_processed := 2, tc_complete := True\<rparr>, tr_lease = Some (1, sample_token 0)\<rparr>],
     mg_leases = [\<lparr>lr_run = ''run'', lr_generation = 1, lr_fence = sample_token 0, lr_acquired = 1000,
       lr_expires = 60000005000, lr_active = False, lr_retired = Some 8000\<rparr>],
     mg_receipts = [sample_receipt ''ann'', sample_receipt ''bob''],
     mg_results = [result_of ''run'' (sample_receipt ''ann''), result_of ''run'' (sample_receipt ''bob'')],
     mg_quarantines = [], mg_archives = [], mg_reconciliations = [], mg_target = [''ann'', ''bob'']\<rparr>"

definition sample_end :: "string list mig_db mig_world" where
  "sample_end = \<lparr>wd_db = sample_done, wd_tick = 8\<rparr>"

definition sample_result :: RunResult where
  "sample_result = no_result\<lparr>rr_imported := 2\<rparr>"

lemma sample_checked:
  "manifest_valid sample_manifest"
  "check_tables (sample_service one two) (sample_adapter one two) [sample_table] = Inr ()"
  "fixedBounds sample_manifest \<lparr>sp_identity = ''legacy'', sp_schema = sample_digest ''schema'',
     sp_bounds = sn_bounds sample_start\<rparr> = Inr (sn_bounds sample_start)"
  "manifest_digest sample_mig_env sample_manifest = Inr (sample_digest ''v1'')"
  by code_simp+

lemma sample_prepared:
  "prepare_run (sample_service one two) ''run'' ''v1'' = Inr (sample_adapter one two, sample_start)"
proof -
  have m: "ad_manifest (sample_adapter one two) = sample_manifest"
      "ad_preflight (sample_adapter one two) = Inr \<lparr>sp_identity = ''legacy'', sp_schema = sample_digest ''schema'',
        sp_bounds = sn_bounds sample_start\<rparr>"
    by (simp_all add: sample_adapter_def sample_start_def)
  have n: "am_id sample_manifest = ''v1''" "am_tables sample_manifest = [sample_table]" "am_source sample_manifest = ''legacy''"
      "am_schema sample_manifest = sample_digest ''schema''"
    by (simp_all add: sample_manifest_def)
  have sv: "sv_ttl (sample_service one two) = 60000000000" "sv_limit (sample_service one two) = 500"
      "sv_env (sample_service one two) = sample_mig_env"
      "map_of (sv_mappings (sample_service one two)) ''v1'' = Some (sample_adapter one two)"
    by (simp_all add: sample_service_def NewMigrationService_def defaultLeaseTTL_def defaultStreamLimit_def)
  show ?thesis
    unfolding prepare_run_def sv by (simp add: m n sv sample_checked Let_def del: check_tables.simps)
      (simp add: sample_start_def)
qed

lemma sample_quiet: "among_others reg sample_outside tok i"
  unfolding among_others_def sample_outside_def by simp

end
