(* ===== verification/MigrationProperties.thy ===== *)
theory MigrationProperties
  imports MigrationSample
begin

text \<open>
  The properties of the migration harness: what a run and a reconciliation achieve among other
  processes, what no history can break, and that both return.
\<close>

section \<open>Facts about the sample\<close>

definition sample_rows :: "string \<Rightarrow> SourceRow list" where
  "sample_rows t = (if t = ''people'' then [sample_one, sample_two] else [])"

abbreviation sample_run :: mig_service where
  "sample_run \<equiv> sample_service sample_one sample_two"

abbreviation sample_source :: AdapterDefinition where
  "sample_source \<equiv> sample_adapter sample_one sample_two"

lemma sample_tables: "am_tables (ad_manifest (sample_adapter one two)) = [sample_table]"
  by (simp add: sample_adapter_def sample_manifest_def)

lemma sample_bound: "table_bound (sn_bounds sample_start) (ts_id sample_table) = sample_upper"
  by code_simp

lemma sample_setting:
  "run_setting sample_run sample_target sample_outside sample_source (table_bound (sn_bounds sample_start)) sample_rows tok i"
proof -
  have "manifest_valid (ad_manifest sample_source)" using prepare_runD(1) [OF sample_prepared] .
  moreover have "source_rows sample_run sample_source sample_table sample_upper (sample_rows (ts_id sample_table))"
    by code_simp
  ultimately show ?thesis
    unfolding run_setting_def sample_tables by (simp add: sample_quiet sample_bound)
qed

lemma sample_finite: "finite_sources sample_run"
proof -
  have "\<forall>row \<in> set (fst (sample_stream sample_one sample_two after)). 2 - length (sr_cursor row) < 2 - length after" for after
    by (simp add: sample_stream_def sample_one_def sample_two_def sample_row_def)
  then have "finite_stream limit sample_source" for limit
    unfolding finite_stream_def by (intro allI exI [of _ "\<lambda>c. 2 - length c"]) (simp add: sample_adapter_def)
  then show ?thesis by (simp add: finite_sources_def sample_service_def NewMigrationService_def)
qed

text \<open>
  C15. However many processes run and reconcile migrations, with whatever configurations and in
  whatever order their units commit: a source row has at most one receipt, a run has at most one
  result for a row and it is about a receipt that is there, a run has at most one active lease,
  and the target is exactly what one application for each importing receipt makes of it, in the
  order of the receipts. So no row is ever imported twice, and none without a receipt.
\<close>

theorem rows_are_imported_exactly_once:
  assumes "(some_step reg)\<^sup>*\<^sup>* (empty_mig w0) db"
  shows "distinct (map row_key (mg_receipts db)) \<and> distinct (map result_key (mg_results db)) \<and>
    re_row ` set (mg_results db) \<subseteq> set (mg_receipts db) \<and> (\<forall>a b i. holds a i db \<longrightarrow> holds b i db \<longrightarrow> a = b) \<and>
    (\<exists>log. replay_target reg log w0 = Inr (mg_target db) \<and>
       map (\<lambda>(f, m). (mp_operation m, mp_digest m)) log = log_of db)"
proof -
  have good: "mig_good db" and log: "target_is_log reg w0 db" using history_target [OF assms] by blast+
  then have leases: "leases_ok db" and facts: "receipts_ok db" unfolding mig_good_def by blast+
  show ?thesis
    using facts log one_holder [OF leases] unfolding receipts_ok_def target_is_log_def by blast
qed

definition sample_opened :: "string list mig_db" where
  "sample_opened = snd (mig_Open sample_start (empty_mig []))"

definition sample_leased :: "string list mig_db" where
  "sample_leased = snd (mig_AcquireLease 1000 (Some (sample_token 3)) ''run'' 5 60000 sample_opened)"

definition sample_fence :: LeaseFence where
  "sample_fence = \<lparr>lf_run = ''run'', lf_generation = 1, lf_token = sample_token 3, lf_expires = 61000\<rparr>"

definition sample_moved :: "string list mig_db" where
  "sample_moved = snd (row_unit sample_run (pg_ports sample_target) sample_source sample_table sample_import sample_fence
     sample_one (new_point (hd (sn_bounds sample_start))) (sample_stamp 1) sample_leased)"

lemma sample_history:
  "(some_step sample_target)\<^sup>*\<^sup>* (empty_mig []) sample_leased" "some_step sample_target sample_leased sample_moved"
proof -
  have "\<not> isl (fst (mig_Open sample_start (empty_mig [] :: string list mig_db)))" by code_simp
  then have a: "some_step sample_target (empty_mig []) sample_opened"
    unfolding some_step_def sample_opened_def
    by (cases "mig_Open sample_start (empty_mig [] :: string list mig_db)"; cases "fst (mig_Open sample_start (empty_mig [] :: string list mig_db))")
      (auto intro: mig_step.opened)
  have "\<not> isl (fst (mig_AcquireLease 1000 (Some (sample_token 3)) ''run'' 5 60000 sample_opened))" by code_simp
  then have b: "some_step sample_target sample_opened sample_leased"
    unfolding some_step_def sample_leased_def
    by (cases "mig_AcquireLease 1000 (Some (sample_token 3)) ''run'' 5 60000 sample_opened";
        cases "fst (mig_AcquireLease 1000 (Some (sample_token 3)) ''run'' 5 60000 sample_opened)")
      (auto intro: mig_step.acquired)
  show "(some_step sample_target)\<^sup>*\<^sup>* (empty_mig []) sample_leased"
    using a b by (meson converse_rtranclp_into_rtranclp rtranclp.rtrancl_refl)
  let ?u = "row_unit sample_run (pg_ports sample_target) sample_source sample_table sample_import sample_fence
     sample_one (new_point (hd (sn_bounds sample_start))) (sample_stamp 1) sample_leased"
  have "\<not> isl (fst ?u)" by code_simp
  then show "some_step sample_target sample_leased sample_moved"
    unfolding some_step_def sample_moved_def by (cases ?u; cases "fst ?u") (auto intro: mig_step.row)
qed

theorem rows_are_imported_exactly_once_witness:
  "length (mg_receipts sample_moved) = 1 \<and> mg_target sample_moved = [''ann''] \<and>
   (\<exists>log. replay_target sample_target log [] = Inr [''ann''] \<and>
      map (\<lambda>(f, m). (mp_operation m, mp_digest m)) log = log_of sample_moved)"
proof -
  have n: "length (mg_receipts sample_moved) = 1" "mg_target sample_moved = [''ann'']" by code_simp+
  show ?thesis
    using rows_are_imported_exactly_once [OF rtranclp.rtrancl_into_rtrancl [OF sample_history]] n by simp
qed

text \<open>
  C16. Whoever else works on the database, with any lease but the run's own: a run of an adapter
  whose source lists its rows ends. When it returns a result then the run is completed and every
  table has exactly one result for each row of the source, in the order of the source and for
  that row's key and payload. When it fails while its lease is still active then every
  checkpoint stands after a prefix of the rows whose results are there, which is what a run
  needs to be resumed. The run may be new, or resumed from such a state.
\<close>

theorem run_does_what_its_source_says:
  assumes "prepare_run sv i a = Inr (D, start)"
    and "mig_good (os_between U (wd_tick w) (wd_db w))"
    and "st_token (os_stamp U (wd_tick w)) = Some tok"
    and "run_setting sv reg U D (table_bound (sn_bounds start)) rows tok i"
    and "known_run i (os_between U (wd_tick w) (wd_db w)) \<Longrightarrow>
      some_tracked sv D (table_bound (sn_bounds start)) rows i (os_between U (wd_tick w) (wd_db w))"
  shows "\<exists>out w'. Run sv (pg_ports reg) U i a w = Some (out, w') \<and> mig_good (wd_db w') \<and>
    (case out of
      Inl e \<Rightarrow> holds tok i (wd_db w') \<longrightarrow> some_tracked sv D (table_bound (sn_bounds start)) rows i (wd_db w')
    | Inr res \<Rightarrow> run_done sv D rows i (wd_db w'))"
  by (rule Run_outcome [OF assms])

lemma sample_met:
  "mig_good (os_between sample_outside (wd_tick sample_world) (wd_db sample_world))"
  "\<not> known_run i (os_between sample_outside (wd_tick sample_world) (wd_db sample_world))"
  "st_token (os_stamp sample_outside (wd_tick sample_world)) = Some (sample_token 0)"
  using empty_mig_good by (simp_all add: sample_outside_def sample_world_def known_run_def empty_mig_def sample_stamp_def)

lemma sample_ran:
  "Run sample_run (pg_ports sample_target) sample_outside ''run'' ''v1'' sample_world = Some (Inr sample_result, sample_end)"
  by code_simp

theorem run_does_what_its_source_says_witness:
  "run_done sample_run sample_source sample_rows ''run'' (wd_db sample_end) \<and> mig_good (wd_db sample_end)"
proof -
  note r = run_does_what_its_source_says [OF sample_prepared sample_met(1,3) sample_setting]
  show ?thesis using r sample_met(2) sample_ran by auto
qed

text \<open>
  C37. A run and a reconciliation return, for any ports and any work of other processes, when
  the streams of the registered adapters are finite: the rows that a stream offers after a
  cursor have cursors of lower rank.
\<close>

theorem run_and_reconcile_return:
  assumes "finite_sources sv"
  shows "Run sv P U i a w \<noteq> None \<and> Reconcile sv P U i w \<noteq> None"
  using Run_returns [OF assms] Reconcile_returns [OF assms] by blast

theorem run_and_reconcile_return_witness:
  "Run sample_run (pg_ports sample_target) sample_outside ''run'' ''v1'' sample_world \<noteq> None \<and>
   Reconcile sample_run (pg_ports sample_target) sample_outside ''run'' sample_world \<noteq> None"
  by (rule run_and_reconcile_return [OF sample_finite])

text \<open>
  A lease that was issued before another lease of its run was acquired is refused from then
  on, in every later state and at every instant, for every operation that needs a lease.
\<close>

theorem superseded_migration_lease_is_refused:
  assumes "mig_good db0" and "issued (lf_token f) (lf_run f) db0"
    and "mig_AcquireLease now0 token (lf_run f) c0 ttl0 db0 = (Inr g, db)"
    and "(some_step reg)\<^sup>*\<^sup>* db db'"
  shows "isl (fst (mig_RenewLease now f c ttl db')) \<and> isl (fst (mig_Advance now f t p db')) \<and>
    isl (fst (mig_AppendRowReceipt now f r db')) \<and> isl (fst (mig_AppendResultReceipt now f (result_of (lf_run f) r) db')) \<and>
    isl (fst (mig_Quarantine now f q db')) \<and> isl (fst (mig_Archive now f x db')) \<and>
    isl (fst (mig_Finish now f db')) \<and> isl (fst (mig_MarkReconciled now f db'))"
proof -
  note a = acquired_safe [OF assms(1,3)]
  have good: "mig_good db" using safe_stepD(1) [OF a(1)] .
  have new: "lf_token g \<noteq> lf_token f"
    using assms(2) a(6) unfolding issued_def by force
  have given: "issued (lf_token f) (lf_run f) db"
    using safe_stepD(2) [OF a(1)] assms(2) unfolding appends_def by blast
  have "\<not> holds (lf_token f) (lf_run f) db"
    using one_holder a(2) new good unfolding mig_good_def by blast
  then have lost: "\<not> holds (lf_token f) (lf_run f) db'"
    using fenced.lost_for_good(1) [where a = "(lf_token f, lf_run f)" and reg = reg, unfolded fenced_steps, OF assms(4) good] given
    by simp
  then have idle: "\<not> active_fence now f db'" using active_fence_holds by blast
  have f: "f\<lparr>lf_run := lf_run f\<rparr> = f" by simp
  have refused: "isl (fst m)" if "\<And>v d. m \<noteq> (Inr v, d)" for m :: "(mig_error + 'x) \<times> 'w mig_db"
    using that by (cases m; cases "fst m") auto
  have renew: "mig_RenewLease now f c ttl db' \<noteq> (Inr v, d)" for v d using lost RenewD by metis
  have advance: "mig_Advance now f t p db' \<noteq> (Inr v, d)" for v d using idle AdvanceD by metis
  show ?thesis
    unfolding mig_Finish_def mig_MarkReconciled_def
    by (intro conjI; rule refused)
      (use renew advance idle finishD(2) AppendRowReceiptD AppendResultReceiptD [unfolded f] QuarantineD ArchiveD f in \<open>metis+\<close>)
qed

definition sample_taken :: "(mig_error + LeaseFence) \<times> string list mig_db" where
  "sample_taken = mig_AcquireLease 70000 (Some (sample_token 4)) ''run'' 5 60000 sample_leased"

theorem superseded_migration_lease_is_refused_witness:
  "isl (fst (mig_RenewLease 72000 sample_fence 5 60000 (snd sample_taken))) \<and>
   isl (fst (mig_Finish 72000 sample_fence (snd sample_taken))) \<and>
   \<not> isl (fst (mig_RenewLease 72000 (projr (fst sample_taken)) 5 60000 (snd sample_taken)))"
proof -
  have good: "mig_good sample_leased" using history_target [OF sample_history(1)] by blast
  have t: "\<not> isl (fst sample_taken)" "\<not> isl (fst (mig_RenewLease 72000 (projr (fst sample_taken)) 5 60000 (snd sample_taken)))"
    "list_ex (\<lambda>l. lr_fence l = lf_token sample_fence \<and> lr_run l = lf_run sample_fence) (mg_leases sample_leased)"
    by code_simp+
  have a: "mig_AcquireLease 70000 (Some (sample_token 4)) ''run'' 5 60000 sample_leased = (Inr (projr (fst sample_taken)), snd sample_taken)"
    using t(1) unfolding sample_taken_def
    by (cases "mig_AcquireLease 70000 (Some (sample_token 4)) ''run'' 5 60000 sample_leased") (auto simp: isl_def)
  have i: "issued (lf_token sample_fence) (lf_run sample_fence) sample_leased"
    using t(3) unfolding issued_def list_ex_iff .
  have "lf_run sample_fence = ''run''" by (simp add: sample_fence_def)
  then show ?thesis
    using superseded_migration_lease_is_refused [OF good i, where reg = sample_target and db' = "snd sample_taken", OF _ rtranclp.rtrancl_refl]
      a t(2) by simp
qed











end
