(* ===== verification/CouponTypes.thy ===== *)
theory CouponTypes
  imports EventStore
begin

text \<open>
  Coupons and claims (\<^verbatim>\<open>internal/coupon/port/port.go\<close>), and the validity of coupons
  (\<^verbatim>\<open>internal/coupon/app/service.go\<close>).

  The fields of a coupon that are columns of its rules are the record \<open>CouponRules\<close>. SHA-256,
  the quoting of JSON strings, RFC 3339 and the pattern match of PostgreSQL are arguments. A
  receipt keeps its result as a value: the column holds its JSON, and the texts in it were read
  from text columns, so that decoding gives the value back. An instant has a JSON text when its
  year is between 0 and 9999.
\<close>

datatype coupon_error =
    CpInvalidCoupon | CpInvalidTarget | CpNotFound | CpConflict | CpRulesFrozen | CpUnavailable | CpNotClaimable
  | CpDependency

fun coupon_classify :: "coupon_error \<Rightarrow> coupon_error" where
  "coupon_classify CpDependency = CpUnavailable"
| "coupon_classify e = e"

section \<open>Coupons and claims\<close>

record CouponRules =
  cu_name :: string
  cu_discount :: int
  cu_total :: int
  cu_per_user :: int
  cu_claim_from :: instant
  cu_claim_until :: instant
  cu_mode :: string
  cu_use_from :: "instant option"
  cu_use_until :: "instant option"
  cu_days :: "int option"
  cu_instructions :: string

record Coupon =
  co_id :: int
  co_rules :: CouponRules
  co_targets :: "string list"
  co_currency :: string
  co_status :: string
  co_availability :: string
  co_issued :: int
  co_created_by :: int
  co_updated_by :: int
  co_version :: int
  co_history :: bool
  co_created :: instant
  co_updated :: instant

record UpsertCommand =
  uc_coupon :: Coupon
  uc_actor :: int
  uc_key :: string

record CouponClaim =
  cc_id :: int
  cc_coupon :: int
  cc_customer :: int
  cc_number :: int
  cc_ref :: string
  cc_status :: string
  cc_at :: instant

record CouponPage =
  pg_items :: "Coupon list"
  pg_total :: int
  pg_limit :: int
  pg_offset :: int

record ClaimPage =
  cg_items :: "CouponClaim list"
  cg_total :: int
  cg_limit :: int
  cg_offset :: int

record SidebarCoupon =
  sc_coupon :: int
  sc_name :: string
  sc_ref :: string
  sc_at :: instant
  sc_status :: string

text \<open>Claims and redemptions of the former system; the identifier is 0 before they are stored.\<close>

record HistoricalClaim =
  hk_id :: int
  hk_source :: int
  hk_source_coupon :: int
  hk_coupon :: int
  hk_customer :: "int option"
  hk_number :: string
  hk_status :: string
  hk_discount :: int
  hk_currency :: string
  hk_from :: instant
  hk_until :: instant
  hk_at :: instant
  hk_reserved :: "instant option"
  hk_consumed :: "instant option"
  hk_expired :: "instant option"
  hk_created :: instant
  hk_updated :: instant

record HistoricalRedemption =
  hm_id :: int
  hm_source :: int
  hm_source_claim :: int
  hm_source_order :: int
  hm_claim :: int
  hm_order :: "int option"
  hm_trade :: string
  hm_status :: string
  hm_original :: int
  hm_discount :: int
  hm_payable :: int
  hm_currency :: string
  hm_until :: instant
  hm_reason :: string
  hm_reserved :: instant
  hm_consumed :: "instant option"
  hm_released :: "instant option"
  hm_created :: instant
  hm_updated :: instant

section \<open>Receipts\<close>

datatype coupon_result = CouponResult Coupon | ClaimResult CouponClaim

record CouponReceipt =
  cr_id :: int
  cr_operation :: string
  cr_scope :: string
  cr_key :: string
  cr_payload :: string
  cr_completed :: bool
  cr_result :: "coupon_result option"

record CouponReservation =
  cs_operation :: string
  cs_scope :: string
  cs_key :: string
  cs_payload :: string

definition receiptMatches :: "CouponReceipt \<Rightarrow> CouponReservation \<Rightarrow> bool" where
  "receiptMatches r x \<longleftrightarrow> 0 < cr_id r \<and> cr_operation r = cs_operation x \<and> cr_scope r = cs_scope x \<and> cr_key r = cs_key x"

section \<open>Validity\<close>

definition option_all :: "('a \<Rightarrow> bool) \<Rightarrow> 'a option \<Rightarrow> bool" where
  "option_all P x = (case x of None \<Rightarrow> True | Some v \<Rightarrow> P v)"

text \<open>The instants before the year 10000 and from the year 0, in nanoseconds.\<close>

definition json_instant :: "instant \<Rightarrow> bool" where
  "json_instant t \<longleftrightarrow> - 31622400000000000 \<le> t \<and> t < 315537897600000000000"

definition canonical_rules :: "CouponRules \<Rightarrow> CouponRules" where
  "canonical_rules r = r\<lparr>cu_name := trim_space (cu_name r), cu_instructions := trim_space (cu_instructions r),
     cu_claim_from := pg_micros (cu_claim_from r), cu_claim_until := pg_micros (cu_claim_until r),
     cu_use_from := map_option pg_micros (cu_use_from r), cu_use_until := map_option pg_micros (cu_use_until r)\<rparr>"

definition validity_ok :: "CouponRules \<Rightarrow> bool" where
  "validity_ok r \<longleftrightarrow>
     (if cu_mode r = ''fixed_range''
      then (case (cu_use_from r, cu_use_until r) of (Some a, Some b) \<Rightarrow> a < b | _ \<Rightarrow> False) \<and> cu_days r = None
      else cu_mode r = ''relative_days'' \<and> cu_use_from r = None \<and> cu_use_until r = None \<and>
        (case cu_days r of None \<Rightarrow> False | Some d \<Rightarrow> 1 \<le> d))"

definition rules_ok :: "CouponRules \<Rightarrow> string list \<Rightarrow> bool" where
  "rules_ok r targets \<longleftrightarrow> cu_name r \<noteq> [] \<and> length (cu_name r) \<le> 45 \<and> 1 \<le> cu_discount r \<and> 1 \<le> cu_total r \<and>
     1 \<le> cu_per_user r \<and> cu_per_user r \<le> cu_total r \<and> cu_claim_from r < cu_claim_until r \<and>
     length (cu_instructions r) \<le> 200 \<and> 1 \<le> length targets \<and> length targets \<le> 100 \<and> validity_ok r"

fun target_ids :: "string list \<Rightarrow> string list \<Rightarrow> coupon_error + int list" where
  "target_ids seen [] = Inr []"
| "target_ids seen (ref # refs) =
     (if ref \<in> set seen then Inl CpInvalidTarget
      else (case split_on (CHR '':'') ref of
        [kind, number] \<Rightarrow>
          if kind \<noteq> ''standard_product'' then Inl CpInvalidTarget
          else (case parse_int64 number of
            None \<Rightarrow> Inl CpInvalidTarget
          | Some i \<Rightarrow>
              if i < 1 \<or> number \<noteq> show_int i then Inl CpInvalidTarget
              else (case target_ids (ref # seen) refs of Inl e \<Rightarrow> Inl e | Inr ids \<Rightarrow> Inr (i # ids)))
      | _ \<Rightarrow> Inl CpInvalidTarget))"

definition normalize :: "UpsertCommand \<Rightarrow> coupon_error + UpsertCommand \<times> int list" where
  "normalize input = (let c = (uc_coupon input)\<lparr>co_rules := canonical_rules (co_rules (uc_coupon input)),
       co_currency := ''CNY'', co_status := ''draft''\<rparr> in
     if \<not> rules_ok (co_rules c) (co_targets c) then Inl CpInvalidCoupon
     else (case target_ids [] (co_targets c) of
       Inl e \<Rightarrow> Inl e
     | Inr ids \<Rightarrow> Inr (input\<lparr>uc_coupon := c\<rparr>, ids)))"

definition validStored :: "Coupon \<Rightarrow> bool" where
  "validStored c \<longleftrightarrow> 1 \<le> co_id c \<and> 1 \<le> co_created_by c \<and> 1 \<le> co_updated_by c \<and> 1 \<le> co_version c \<and>
     co_created c \<noteq> 0 \<and> co_updated c \<noteq> 0 \<and>
     \<not> isl (normalize \<lparr>uc_coupon = c, uc_actor = co_updated_by c, uc_key = replicate 16 (CHR ''v'')\<rparr>)"

definition withAvailability :: "Coupon \<Rightarrow> instant \<Rightarrow> Coupon" where
  "withAvailability c now = c\<lparr>co_availability :=
     (if co_status c \<noteq> ''published'' then co_status c
      else if cu_total (co_rules c) \<le> co_issued c then ''sold_out''
      else if now < cu_claim_from (co_rules c) then ''scheduled''
      else if cu_claim_until (co_rules c) \<le> now then ''ended''
      else ''active'')\<rparr>"

text \<open>Of the rules of a claimed coupon, only the number of coupons may grow.\<close>

definition claimedUpdateAllowed :: "Coupon \<Rightarrow> Coupon \<Rightarrow> bool" where
  "claimedUpdateAllowed old new \<longleftrightarrow> cu_total (co_rules old) \<le> cu_total (co_rules new) \<and>
     (co_rules old)\<lparr>cu_total := 0\<rparr> = (co_rules new)\<lparr>cu_total := 0\<rparr> \<and> co_targets old = co_targets new"

definition validClaim :: "CouponClaim \<Rightarrow> bool" where
  "validClaim c \<longleftrightarrow> 0 < cc_id c \<and> 0 < cc_coupon c \<and> 0 < cc_customer c \<and> 0 < cc_number c \<and>
     take 3 (cc_ref c) = ''cp_'' \<and> cc_status c = ''claimed'' \<and> cc_at c \<noteq> 0"

definition validBoardKey :: "string \<Rightarrow> bool" where
  "validBoardKey k \<longleftrightarrow> 16 \<le> length k \<and> length k \<le> 128 \<and> trim_space k = k"

definition validBase64URLToken :: "string \<Rightarrow> bool" where
  "validBase64URLToken t \<longleftrightarrow> list_all (\<lambda>c. in_range 65 90 c \<or> in_range 97 122 c \<or> in_range 48 57 c \<or>
     c = CHR ''-'' \<or> c = CHR ''_'') t"

definition validOpaqueBrowserToken :: "string \<Rightarrow> bool" where
  "validOpaqueBrowserToken t \<longleftrightarrow> length t = 43 \<and> trim_space t = t \<and> validBase64URLToken t"

text \<open>A blank and the two characters for copy, each of three bytes.\<close>

definition copy_suffix :: string where
  "copy_suffix = [CHR '' '', CHR 0xE5, CHR 0x89, CHR 0xAF, CHR 0xE6, CHR 0x9C, CHR 0xAC]"

text \<open>A conversion of a string to runes and back writes a replacement for each invalid byte.\<close>

definition rune_text :: "string \<Rightarrow> string" where
  "rune_text r = (if length r = 1 \<and> 128 \<le> byte (hd r) then [CHR 0xEF, CHR 0xBF, CHR 0xBD] else r)"

definition copiedCouponName :: "string \<Rightarrow> string" where
  "copiedCouponName name = concat (map rune_text (take 42 (runes (trim_space name)))) @ copy_suffix"

section \<open>Texts\<close>

record coupon_env =
  cn_sha256 :: "string \<Rightarrow> string"
  cn_quote :: "string \<Rightarrow> string"
  cn_rfc3339 :: "instant \<Rightarrow> string"
  cn_ilike :: "string \<Rightarrow> string \<Rightarrow> bool"
  cn_events :: event_env

definition json_object :: "coupon_env \<Rightarrow> (string \<times> string) list \<Rightarrow> string" where
  "json_object E kvs = ''{'' @ join_with '','' (map (\<lambda>(k, v). cn_quote E k @ '':'' @ v) kvs) @ ''}''"

definition json_opt :: "('a \<Rightarrow> string) \<Rightarrow> 'a option \<Rightarrow> string" where
  "json_opt f x = (case x of None \<Rightarrow> ''null'' | Some v \<Rightarrow> f v)"

definition json_at :: "coupon_env \<Rightarrow> instant \<Rightarrow> string" where
  "json_at E t = cn_quote E (cn_rfc3339 E t)"

text \<open>The members of a coupon; a list of targets that is absent is null.\<close>

definition coupon_members :: "coupon_env \<Rightarrow> Coupon \<Rightarrow> (string \<times> string) list" where
  "coupon_members E c = (let r = co_rules c in
     [(''id'', show_int (co_id c)), (''name'', cn_quote E (cu_name r)),
      (''discount_amount_total'', show_int (cu_discount r)), (''currency'', cn_quote E (co_currency c)),
      (''status'', cn_quote E (co_status c)), (''availability_status'', cn_quote E (co_availability c)),
      (''total_issue_limit'', show_int (cu_total r)), (''per_user_issue_limit'', show_int (cu_per_user r)),
      (''issued_count'', show_int (co_issued c)), (''claim_starts_at'', json_at E (cu_claim_from r)),
      (''claim_ends_at'', json_at E (cu_claim_until r)), (''validity_mode'', cn_quote E (cu_mode r)),
      (''use_starts_at'', json_opt (json_at E) (cu_use_from r)), (''use_ends_at'', json_opt (json_at E) (cu_use_until r)),
      (''relative_validity_days'', json_opt show_int (cu_days r)), (''instructions'', cn_quote E (cu_instructions r)),
      (''target_refs'', if co_targets c = [] then ''null'' else ''['' @ join_with '','' (map (cn_quote E) (co_targets c)) @ '']''),
      (''created_by'', show_int (co_created_by c)), (''updated_by'', show_int (co_updated_by c)),
      (''version'', show_int (co_version c))] @
     (if co_history c then [(''history_only'', ''true'')] else []) @
     [(''created_at'', json_at E (co_created c)), (''updated_at'', json_at E (co_updated c))])"

definition coupon_marshals :: "Coupon \<Rightarrow> bool" where
  "coupon_marshals c \<longleftrightarrow> list_all json_instant [cu_claim_from (co_rules c), cu_claim_until (co_rules c), co_created c, co_updated c] \<and>
     option_all json_instant (cu_use_from (co_rules c)) \<and> option_all json_instant (cu_use_until (co_rules c))"

text \<open>The error of the encoder is dropped, so a command with such an instant has no text.\<close>

definition mutation_text :: "coupon_env \<Rightarrow> string \<Rightarrow> UpsertCommand \<Rightarrow> string \<Rightarrow> string" where
  "mutation_text E operation c desired =
     (if \<not> coupon_marshals (uc_coupon c) then []
      else json_object E [(''Operation'', cn_quote E operation),
        (''Command'', json_object E (coupon_members E (uc_coupon c) @
           [(''Actor'', show_int (uc_actor c)), (''IdempotencyKey'', cn_quote E (uc_key c))])),
        (''Desired'', cn_quote E desired)])"

definition board_text :: "coupon_env \<Rightarrow> int \<Rightarrow> string \<Rightarrow> string" where
  "board_text E i operation = json_object E [(''coupon_id'', show_int i), (''operation'', cn_quote E operation)]"

definition claim_text :: "coupon_env \<Rightarrow> int \<Rightarrow> int \<Rightarrow> string" where
  "claim_text E i customer = json_object E [(''CouponID'', show_int i), (''Customer'', show_int customer)]"

definition admin_scope :: "int \<Rightarrow> string" where
  "admin_scope actor = ''admin:'' @ show_int actor"

definition customer_scope :: "int \<Rightarrow> string" where
  "customer_scope customer = ''customer:'' @ show_int customer"

text \<open>The digest from which the reference of a claim and the key of its event are made.\<close>

definition claim_digest :: "coupon_env \<Rightarrow> string \<Rightarrow> int \<Rightarrow> string" where
  "claim_digest E key customer = cn_sha256 E (''coupon-claim'' @ CHR 0x00 # key @ CHR 0x00 # show_int customer)"

definition claim_ref :: "coupon_env \<Rightarrow> string \<Rightarrow> int \<Rightarrow> string" where
  "claim_ref E key customer = ''cp_'' @ hex_encode (take 16 (claim_digest E key customer))"

text \<open>The conversion to a 32-bit integer.\<close>

definition wrap32 :: "int \<Rightarrow> int" where
  "wrap32 v = (v + 2 ^ 31) mod 2 ^ 32 - 2 ^ 31"

end
