(* ===== verification/CouponStore.thy ===== *)
theory CouponStore
  imports CouponTypes
begin

text \<open>
  The PostgreSQL store of coupons (\<^verbatim>\<open>internal/coupon/store/repository.go\<close>, its queries, and the
  tables, checks and triggers of migrations 00033, 00036, 00059 and 00112).

  The errors of statements follow \<open>unavailable\<close>: no row is \<open>CpNotFound\<close>, a unique constraint
  \<open>CpConflict\<close>, the guards of claimed coupons and of receipts \<open>CpRulesFrozen\<close>, and everything
  else \<open>CpDependency\<close>. The products belong to another domain: what its reader answers and which
  rows the foreign key finds are arguments. The events go to the log of \<open>EventStore\<close>.
\<close>

section \<open>Tables\<close>

record coupon_row =
  cw_id :: int
  cw_rules :: CouponRules
  cw_status :: string
  cw_issued :: int
  cw_first_claim :: "instant option"
  cw_created_by :: int
  cw_updated_by :: int
  cw_version :: int
  cw_created :: instant
  cw_updated :: instant

record coupon_target =
  xt_coupon :: int
  xt_position :: nat
  xt_ref :: string
  xt_product :: int

text \<open>A payment identity session or a sidebar grant.\<close>

record coupon_token =
  xk_digest :: string
  xk_customer :: int
  xk_expires :: instant
  xk_revoked :: "instant option"
  xk_replaced :: "instant option"

record coupon_marker =
  xm_coupon :: int
  xm_source :: int
  xm_status :: string

record 'q coupon_db =
  cp_coupons :: "coupon_row list"
  cp_targets :: "coupon_target list"
  cp_total :: int
  cp_receipts :: "CouponReceipt list"
  cp_claims :: "CouponClaim list"
  cp_markers :: "coupon_marker list"
  cp_sessions :: "coupon_token list"
  cp_grants :: "coupon_token list"
  cp_events :: "'q event_db"
  cp_next_coupon :: int
  cp_next_receipt :: int
  cp_next_claim :: int
  cp_old_claims :: "HistoricalClaim list"
  cp_old_redemptions :: "HistoricalRedemption list"
  cp_next_old_claim :: int
  cp_next_old_redemption :: int

type_synonym ('q, 'a) coupon_tx = "('q coupon_db, coupon_error, 'a) tx"

record CouponProduct =
  pd_id :: int
  pd_currency :: string
  pd_price :: int

record product_view =
  pv_get :: "int \<Rightarrow> CouponProduct option"
  pv_exists :: "int \<Rightarrow> bool"

section \<open>Checks\<close>

definition btrimmed :: "string \<Rightarrow> bool" where
  "btrimmed s \<longleftrightarrow> s = [] \<or> hd s \<noteq> CHR '' '' \<and> last s \<noteq> CHR '' ''"

definition coupon_row_ok :: "coupon_row \<Rightarrow> bool" where
  "coupon_row_ok w \<longleftrightarrow> (let r = cw_rules w in
     btrimmed (cu_name r) \<and> cu_name r \<noteq> [] \<and> rune_count (cu_name r) \<le> 45 \<and> 0 < cu_discount r \<and>
     cw_status w \<in> {''draft'', ''published'', ''stopped'', ''archived''} \<and>
     0 < cu_total r \<and> 0 < cu_per_user r \<and> cu_per_user r \<le> cu_total r \<and> 0 \<le> cw_issued w \<and> cw_issued w \<le> cu_total r \<and>
     cu_claim_from r < cu_claim_until r \<and> validity_ok r \<and>
     btrimmed (cu_instructions r) \<and> rune_count (cu_instructions r) \<le> 200 \<and>
     (cw_issued w = 0 \<longleftrightarrow> cw_first_claim w = None) \<and> 0 < cw_created_by w \<and> 0 < cw_updated_by w \<and>
     0 < cw_version w \<and> cw_created w \<le> cw_updated w)"

text \<open>The guard of claimed rules.\<close>

definition coupon_frozen :: "coupon_row \<Rightarrow> coupon_row \<Rightarrow> bool" where
  "coupon_frozen old new \<longleftrightarrow> 0 < cw_issued old \<and>
     ((cw_rules new)\<lparr>cu_total := 0\<rparr> \<noteq> (cw_rules old)\<lparr>cu_total := 0\<rparr> \<or> cu_total (cw_rules new) < cu_total (cw_rules old))"

section \<open>Reading\<close>

definition find_coupon :: "int \<Rightarrow> 'q coupon_db \<Rightarrow> coupon_row option" where
  "find_coupon i db = List.find (\<lambda>w. cw_id w = i) (cp_coupons db)"

definition targets_of :: "int \<Rightarrow> 'q coupon_db \<Rightarrow> string list" where
  "targets_of i db = map xt_ref (sort_key xt_position (filter (\<lambda>t. xt_coupon t = i) (cp_targets db)))"

definition mapCoupon :: "'q coupon_db \<Rightarrow> coupon_row \<Rightarrow> Coupon" where
  "mapCoupon db w = \<lparr>co_id = cw_id w, co_rules = cw_rules w, co_targets = targets_of (cw_id w) db,
     co_currency = ''CNY'', co_status = cw_status w, co_availability = [], co_issued = cw_issued w,
     co_created_by = cw_created_by w, co_updated_by = cw_updated_by w, co_version = cw_version w,
     co_history = False, co_created = cw_created w, co_updated = cw_updated w\<rparr>"

definition coupon_matches :: "coupon_env \<Rightarrow> string \<Rightarrow> string \<Rightarrow> coupon_row \<Rightarrow> bool" where
  "coupon_matches E search status w \<longleftrightarrow>
     (search = [] \<or> cn_ilike E (cu_name (cw_rules w)) (''%'' @ search @ ''%'')) \<and> (status = [] \<or> cw_status w = status)"

definition cpn_List :: "coupon_env \<Rightarrow> int \<Rightarrow> int \<Rightarrow> string \<Rightarrow> string \<Rightarrow> ('q, Coupon list) coupon_tx" where
  "cpn_List E limit offset search status = (\<lambda>db.
     if \<not> pg_text search \<or> \<not> pg_text status then (Inl CpDependency, db)
     else (Inr (map (mapCoupon db) (take (nat limit) (drop (nat offset)
       (sort_key cw_id (filter (coupon_matches E search status) (cp_coupons db)))))), db))"

definition cpn_Count :: "coupon_env \<Rightarrow> string \<Rightarrow> string \<Rightarrow> ('q, int) coupon_tx" where
  "cpn_Count E search status = (\<lambda>db.
     if \<not> pg_text search \<or> \<not> pg_text status then (Inl CpDependency, db)
     else (Inr (if search = [] \<and> status = [] then cp_total db
       else int (length (filter (coupon_matches E search status) (cp_coupons db)))), db))"

definition cpn_Get :: "int \<Rightarrow> ('q, Coupon) coupon_tx" where
  "cpn_Get i = (\<lambda>db. case find_coupon i db of
     None \<Rightarrow> (Inl CpNotFound, db)
   | Some w \<Rightarrow> (Inr ((mapCoupon db w)\<lparr>co_history := i \<in> xm_coupon ` set (cp_markers db)\<rparr>), db))"

definition cpn_Lock :: "int \<Rightarrow> ('q, Coupon) coupon_tx" where
  "cpn_Lock i = cpn_Get i"

section \<open>Writing coupons\<close>

definition new_coupon_row :: "int \<Rightarrow> CouponRules \<Rightarrow> int \<Rightarrow> instant \<Rightarrow> coupon_row" where
  "new_coupon_row i r actor now = \<lparr>cw_id = i, cw_rules = r, cw_status = ''draft'', cw_issued = 0, cw_first_claim = None,
     cw_created_by = actor, cw_updated_by = actor, cw_version = 1, cw_created = pg_micros now, cw_updated = pg_micros now\<rparr>"

definition rules_text :: "CouponRules \<Rightarrow> bool" where
  "rules_text r \<longleftrightarrow> pg_text (cu_name r) \<and> pg_text (cu_mode r) \<and> pg_text (cu_instructions r)"

definition insert_coupon :: "coupon_row \<Rightarrow> ('q, unit) coupon_tx" where
  "insert_coupon w = (\<lambda>db.
     if \<not> rules_text (cw_rules w) \<or> \<not> coupon_row_ok w then (Inl CpDependency, db)
     else (Inr (), db\<lparr>cp_coupons := cp_coupons db @ [w], cp_next_coupon := cp_next_coupon db + 1\<rparr>))"

text \<open>An update of one coupon, with its guard and checks; the answer is the number of rows.\<close>

definition update_coupon ::
  "int \<Rightarrow> (coupon_row \<Rightarrow> bool) \<Rightarrow> (coupon_row \<Rightarrow> coupon_row) \<Rightarrow> ('q, int) coupon_tx" where
  "update_coupon i hit f = (\<lambda>db. case find_coupon i db of
     None \<Rightarrow> (Inr 0, db)
   | Some w \<Rightarrow>
       if \<not> hit w then (Inr 0, db)
       else if max_int64 < cw_version (f w) then (Inl CpDependency, db)
       else if coupon_frozen w (f w) then (Inl CpRulesFrozen, db)
       else if \<not> coupon_row_ok (f w) then (Inl CpDependency, db)
       else (Inr 1, db\<lparr>cp_coupons := map (\<lambda>w'. if cw_id w' = i then f w' else w') (cp_coupons db)\<rparr>))"

definition delete_targets :: "int \<Rightarrow> ('q, unit) coupon_tx" where
  "delete_targets i = (\<lambda>db.
     if (\<exists>t \<in> set (cp_targets db). xt_coupon t = i) \<and> (case find_coupon i db of None \<Rightarrow> False | Some w \<Rightarrow> 0 < cw_issued w)
     then (Inl CpRulesFrozen, db)
     else (Inr (), db\<lparr>cp_targets := filter (\<lambda>t. xt_coupon t \<noteq> i) (cp_targets db)\<rparr>))"

definition target_ref_ok :: "string \<Rightarrow> bool" where
  "target_ref_ok s \<longleftrightarrow> take 17 s = ''standard_product:'' \<and> drop 17 s \<noteq> [] \<and> hd (drop 17 s) \<noteq> CHR ''0'' \<and>
     list_all is_digit (drop 17 s)"

definition insert_target :: "product_view \<Rightarrow> coupon_target \<Rightarrow> ('q, unit) coupon_tx" where
  "insert_target V t = (\<lambda>db.
     if \<not> pg_text (xt_ref t) then (Inl CpDependency, db)
     else (case find_coupon (xt_coupon t) db of
       None \<Rightarrow> (Inl CpDependency, db)
     | Some w \<Rightarrow>
         if 0 < cw_issued w then (Inl CpRulesFrozen, db)
         else if xt_product t \<le> 0 \<or> \<not> target_ref_ok (xt_ref t) then (Inl CpDependency, db)
         else if (\<exists>t' \<in> set (cp_targets db). xt_coupon t' = xt_coupon t \<and>
             (xt_position t' = xt_position t \<or> xt_ref t' = xt_ref t))
         then (Inl CpConflict, db)
         else if \<not> pv_exists V (xt_product t) then (Inl CpDependency, db)
         else (Inr (), db\<lparr>cp_targets := cp_targets db @ [t]\<rparr>)))"

fun insert_targets :: "product_view \<Rightarrow> int \<Rightarrow> nat \<Rightarrow> (string \<times> int) list \<Rightarrow> ('q, unit) coupon_tx" where
  "insert_targets V i k [] = ret ()"
| "insert_targets V i k ((ref, p) # rest) =
     and_then (insert_target V \<lparr>xt_coupon = i, xt_position = k, xt_ref = ref, xt_product = p\<rparr>)
       (\<lambda>_. insert_targets V i (Suc k) rest)"

definition replaceTargets :: "product_view \<Rightarrow> int \<Rightarrow> string list \<Rightarrow> int list \<Rightarrow> ('q, unit) coupon_tx" where
  "replaceTargets V i refs ids =
     (if length refs \<noteq> length ids then fail CpUnavailable
      else and_then (delete_targets i) (\<lambda>_. insert_targets V i 0 (zip refs ids)))"

definition increment_count :: "('q, unit) coupon_tx" where
  "increment_count = (\<lambda>db.
     if cp_total db + 1 < 1 \<or> max_int64 < cp_total db + 1 then (Inl CpUnavailable, db)
     else (Inr (), db\<lparr>cp_total := cp_total db + 1\<rparr>))"

definition decrement_count :: "('q, unit) coupon_tx" where
  "decrement_count = (\<lambda>db.
     if cp_total db \<le> 0 then (Inl CpNotFound, db) else (Inr (), db\<lparr>cp_total := cp_total db - 1\<rparr>))"

definition cpn_Create :: "product_view \<Rightarrow> instant \<Rightarrow> UpsertCommand \<Rightarrow> int list \<Rightarrow> ('q, Coupon) coupon_tx" where
  "cpn_Create V now c ids = (\<lambda>db. let i = cp_next_coupon db in
     and_then (insert_coupon (new_coupon_row i (co_rules (uc_coupon c)) (uc_actor c) now)) (\<lambda>_.
     and_then (replaceTargets V i (co_targets (uc_coupon c)) ids) (\<lambda>_.
     and_then increment_count (\<lambda>_. cpn_Get i))) db)"

definition updated_row :: "instant \<Rightarrow> UpsertCommand \<Rightarrow> coupon_row \<Rightarrow> coupon_row" where
  "updated_row now c w = w\<lparr>cw_rules := co_rules (uc_coupon c), cw_updated_by := uc_actor c,
     cw_version := cw_version w + 1, cw_updated := pg_micros now\<rparr>"

definition cpn_Update :: "product_view \<Rightarrow> instant \<Rightarrow> UpsertCommand \<Rightarrow> int list \<Rightarrow> ('q, Coupon) coupon_tx" where
  "cpn_Update V now c ids = (let i = co_id (uc_coupon c) in
     if \<not> rules_text (co_rules (uc_coupon c)) then fail CpDependency
     else and_then (update_coupon i (\<lambda>_. True) (updated_row now c)) (\<lambda>_.
       and_then (cpn_Get i) (\<lambda>current.
       and_then (if co_targets current \<noteq> co_targets (uc_coupon c)
                 then replaceTargets V i (co_targets (uc_coupon c)) ids else ret ()) (\<lambda>_. cpn_Get i))))"

definition status_row :: "instant \<Rightarrow> string \<Rightarrow> int \<Rightarrow> coupon_row \<Rightarrow> coupon_row" where
  "status_row now status actor w = w\<lparr>cw_status := status, cw_updated_by := actor, cw_version := cw_version w + 1,
     cw_updated := pg_micros now\<rparr>"

definition cpn_SetStatus :: "instant \<Rightarrow> int \<Rightarrow> string \<Rightarrow> int \<Rightarrow> ('q, Coupon) coupon_tx" where
  "cpn_SetStatus now i status actor =
     and_then (update_coupon i (\<lambda>_. True) (status_row now status actor)) (\<lambda>_. cpn_Get i)"

text \<open>The row goes with its targets; claims and markers refer to it.\<close>

definition cpn_DeleteDraft :: "int \<Rightarrow> ('q, unit) coupon_tx" where
  "cpn_DeleteDraft i =
     and_then (\<lambda>db. case find_coupon i db of
       None \<Rightarrow> (Inl CpNotFound, db)
     | Some w \<Rightarrow>
         if cw_status w \<noteq> ''draft'' \<or> cw_issued w \<noteq> 0 then (Inl CpNotFound, db)
         else if i \<in> cc_coupon ` set (cp_claims db) \<or> i \<in> xm_coupon ` set (cp_markers db) then (Inl CpDependency, db)
         else (Inr (), db\<lparr>cp_coupons := filter (\<lambda>w. cw_id w \<noteq> i) (cp_coupons db),
           cp_targets := filter (\<lambda>t. xt_coupon t \<noteq> i) (cp_targets db)\<rparr>)) (\<lambda>_. decrement_count)"

section \<open>Receipts\<close>

definition find_coupon_receipt :: "string \<Rightarrow> string \<Rightarrow> string \<Rightarrow> 'q coupon_db \<Rightarrow> CouponReceipt option" where
  "find_coupon_receipt operation scope key db =
     List.find (\<lambda>r. cr_operation r = operation \<and> cr_scope r = scope \<and> cr_key r = key) (cp_receipts db)"

definition receipt_columns_ok :: "CouponReservation \<Rightarrow> bool" where
  "receipt_columns_ok x \<longleftrightarrow>
     cs_operation x \<in> {''create'', ''update'', ''publish'', ''stop'', ''archive'', ''delete'', ''copy'', ''claim''} \<and>
     btrimmed (cs_scope x) \<and> cs_scope x \<noteq> [] \<and> rune_count (cs_scope x) \<le> 200 \<and>
     length (cs_key x) = 32 \<and> length (cs_payload x) = 32"

definition cpn_Reserve :: "CouponReservation \<Rightarrow> ('q, CouponReceipt \<times> bool) coupon_tx" where
  "cpn_Reserve x = (\<lambda>db.
     if \<not> receipt_columns_ok x then (Inl CpDependency, db)
     else (case find_coupon_receipt (cs_operation x) (cs_scope x) (cs_key x) db of
       Some r \<Rightarrow> (Inr (r, False), db)
     | None \<Rightarrow>
         (let r = \<lparr>cr_id = cp_next_receipt db, cr_operation = cs_operation x, cr_scope = cs_scope x, cr_key = cs_key x,
            cr_payload = cs_payload x, cr_completed = False, cr_result = None\<rparr>
          in (Inr (r, True), db\<lparr>cp_receipts := cp_receipts db @ [r], cp_next_receipt := cp_next_receipt db + 1\<rparr>))))"

definition cpn_Complete :: "int \<Rightarrow> coupon_result \<Rightarrow> ('q, CouponReceipt) coupon_tx" where
  "cpn_Complete i result = (\<lambda>db. case List.find (\<lambda>r. cr_id r = i \<and> \<not> cr_completed r) (cp_receipts db) of
     None \<Rightarrow> (Inl CpNotFound, db)
   | Some r \<Rightarrow> (Inr (r\<lparr>cr_completed := True, cr_result := Some result\<rparr>), db\<lparr>cp_receipts :=
       map (\<lambda>r. if cr_id r = i \<and> \<not> cr_completed r then r\<lparr>cr_completed := True, cr_result := Some result\<rparr> else r)
         (cp_receipts db)\<rparr>))"

section \<open>Claims\<close>

definition claims_of :: "int \<Rightarrow> int \<Rightarrow> 'q coupon_db \<Rightarrow> CouponClaim list" where
  "claims_of i customer db = filter (\<lambda>c. cc_coupon c = i \<and> cc_customer c = customer) (cp_claims db)"

definition cpn_ListClaims :: "int \<Rightarrow> int \<Rightarrow> int \<Rightarrow> ('q, CouponClaim list) coupon_tx" where
  "cpn_ListClaims i limit offset = (\<lambda>db. (Inr (take (nat limit) (drop (nat offset)
     (sort_key cc_id (filter (\<lambda>c. cc_coupon c = i) (cp_claims db))))), db))"

definition cpn_CountClaims :: "int \<Rightarrow> ('q, int) coupon_tx" where
  "cpn_CountClaims i = (\<lambda>db. (Inr (int (length (filter (\<lambda>c. cc_coupon c = i) (cp_claims db)))), db))"

definition cpn_CountCustomerClaims :: "int \<Rightarrow> int \<Rightarrow> ('q, int) coupon_tx" where
  "cpn_CountCustomerClaims i customer = (\<lambda>db. (Inr (int (length (claims_of i customer db))), db))"

definition claim_ref_ok :: "string \<Rightarrow> bool" where
  "claim_ref_ok s \<longleftrightarrow> take 3 s = ''cp_'' \<and> 19 \<le> length s \<and> length s \<le> 67 \<and>
     list_all (\<lambda>c. in_range 65 90 c \<or> in_range 97 122 c \<or> in_range 48 57 c \<or> c = CHR ''_'' \<or> c = CHR ''-'') (drop 3 s)"

definition cpn_CreateClaim :: "instant \<Rightarrow> int \<Rightarrow> int \<Rightarrow> int \<Rightarrow> string \<Rightarrow> ('q, CouponClaim) coupon_tx" where
  "cpn_CreateClaim now i customer number ref = (\<lambda>db.
     if customer \<le> 0 \<or> number \<le> 0 \<or> \<not> claim_ref_ok ref then (Inl CpDependency, db)
     else if (\<exists>c \<in> set (cp_claims db). (cc_coupon c = i \<and> cc_customer c = customer \<and> cc_number c = number) \<or> cc_ref c = ref)
     then (Inl CpConflict, db)
     else if find_coupon i db = None then (Inl CpDependency, db)
     else (let c = \<lparr>cc_id = cp_next_claim db, cc_coupon = i, cc_customer = customer, cc_number = number, cc_ref = ref,
            cc_status = ''claimed'', cc_at = pg_micros now\<rparr>
       in (Inr c, db\<lparr>cp_claims := cp_claims db @ [c], cp_next_claim := cp_next_claim db + 1\<rparr>)))"

definition issued_row :: "instant \<Rightarrow> coupon_row \<Rightarrow> coupon_row" where
  "issued_row now w = w\<lparr>cw_issued := cw_issued w + 1,
     cw_first_claim := (case cw_first_claim w of None \<Rightarrow> Some (pg_micros now) | Some t \<Rightarrow> Some t),
     cw_version := cw_version w + 1, cw_updated := pg_micros now\<rparr>"

definition cpn_IncrementIssued :: "instant \<Rightarrow> int \<Rightarrow> ('q, unit) coupon_tx" where
  "cpn_IncrementIssued now i =
     and_then (update_coupon i (\<lambda>w. cw_issued w < cu_total (cw_rules w)) (issued_row now))
       (\<lambda>n. if n = 0 then fail CpNotFound else ret ())"

definition coupon_open :: "instant \<Rightarrow> int \<Rightarrow> 'q coupon_db \<Rightarrow> coupon_row \<Rightarrow> bool" where
  "coupon_open now customer db w \<longleftrightarrow> cw_status w = ''published'' \<and> cw_issued w < cu_total (cw_rules w) \<and>
     cu_claim_from (cw_rules w) \<le> pg_micros now \<and> pg_micros now < cu_claim_until (cw_rules w) \<and>
     int (length (claims_of (cw_id w) customer db)) < cu_per_user (cw_rules w)"

definition cpn_ListAvailable :: "instant \<Rightarrow> string \<Rightarrow> int \<Rightarrow> int \<Rightarrow> ('q, Coupon list) coupon_tx" where
  "cpn_ListAvailable now target customer limit = (\<lambda>db.
     if \<not> pg_text target then (Inl CpDependency, db)
     else (Inr (map (mapCoupon db) (take (nat limit) (sort_key cw_id
       (filter (\<lambda>w. target \<in> set (targets_of (cw_id w) db) \<and> coupon_open now customer db w) (cp_coupons db))))), db))"

definition find_token :: "string \<Rightarrow> instant \<Rightarrow> coupon_token list \<Rightarrow> coupon_token option" where
  "find_token digest now tokens = List.find (\<lambda>k. xk_digest k = digest \<and> pg_micros now < xk_expires k \<and>
     xk_revoked k = None \<and> xk_replaced k = None) tokens"

definition resolve_token :: "string \<Rightarrow> instant \<Rightarrow> coupon_token list \<Rightarrow> coupon_error + int" where
  "resolve_token digest now tokens = (case find_token digest now tokens of
     None \<Rightarrow> Inl CpNotFound
   | Some k \<Rightarrow> if xk_customer k < 1 then Inl CpUnavailable else Inr (xk_customer k))"

definition cpn_ResolvePaymentIdentitySession :: "instant \<Rightarrow> string \<Rightarrow> ('q, int) coupon_tx" where
  "cpn_ResolvePaymentIdentitySession now digest = (\<lambda>db. (resolve_token digest now (cp_sessions db), db))"

definition cpn_ResolveSidebarGrant :: "instant \<Rightarrow> string \<Rightarrow> ('q, int) coupon_tx" where
  "cpn_ResolveSidebarGrant now digest = (\<lambda>db. (resolve_token digest now (cp_grants db), db))"

definition sidebar_of :: "'q coupon_db \<Rightarrow> CouponClaim \<Rightarrow> SidebarCoupon option" where
  "sidebar_of db c = map_option (\<lambda>w. \<lparr>sc_coupon = cw_id w, sc_name = cu_name (cw_rules w), sc_ref = cc_ref c,
     sc_at = cc_at c, sc_status = cw_status w\<rparr>) (find_coupon (cc_coupon c) db)"

definition cpn_ListSidebarClaims :: "int \<Rightarrow> int \<Rightarrow> ('q, SidebarCoupon list) coupon_tx" where
  "cpn_ListSidebarClaims customer limit = (\<lambda>db. (Inr (take (nat limit) (List.map_filter (sidebar_of db)
     (rev (sort_key cc_id (filter (\<lambda>c. cc_customer c = customer) (cp_claims db)))))), db))"

end
