(* ===== verification/CouponService.thy ===== *)
theory CouponService
  imports CouponStore
begin

text \<open>
  The coupon service (\<^verbatim>\<open>internal/coupon/app/service.go\<close>). \<open>E\<close> holds the functions of the standard
  library and of the database, \<open>V\<close> what the products are during the call, \<open>now\<close> what the clock
  says.
\<close>

section \<open>Units of work with a receipt\<close>

definition coupon_classified :: "('q, 'a) coupon_tx \<Rightarrow> ('q, 'a) coupon_tx" where
  "coupon_classified m = (\<lambda>db. case m db of (Inl e, db') \<Rightarrow> (Inl (coupon_classify e), db') | (Inr v, db') \<Rightarrow> (Inr v, db'))"

text \<open>
  A call with an idempotency key reserves its receipt; a receipt that was there is answered again
  (\<open>again\<close>, when it holds a result of the call), and a new one is completed with the result.
\<close>

definition with_coupon_receipt ::
  "CouponReservation \<Rightarrow> (coupon_result \<Rightarrow> 'r option) \<Rightarrow> ('r \<Rightarrow> coupon_result) \<Rightarrow> ('r \<Rightarrow> bool) \<Rightarrow> ('q, 'r) coupon_tx \<Rightarrow>
   ('q, 'r) coupon_tx" where
  "with_coupon_receipt x again result marshals body =
     and_then (cpn_Reserve x) (\<lambda>(r, owned).
       if \<not> receiptMatches r x \<or> cr_payload r \<noteq> cs_payload x then fail CpConflict
       else if \<not> owned
       then (case (if cr_completed r then Option.bind (cr_result r) again else None) of
           None \<Rightarrow> fail CpUnavailable | Some v \<Rightarrow> ret v)
       else and_then body (\<lambda>v.
         if \<not> marshals v then fail CpDependency
         else (\<lambda>db. case cpn_Complete (cr_id r) (result v) db of
             (Inl _, db') \<Rightarrow> (Inl CpUnavailable, db')
           | (Inr r', db') \<Rightarrow>
               if cr_completed r' \<and> cr_result r' = Some (result v) then (Inr v, db') else (Inl CpUnavailable, db'))))"

fun coupon_again :: "coupon_result \<Rightarrow> Coupon option" where
  "coupon_again (CouponResult c) = (if validStored c then Some c else None)"
| "coupon_again (ClaimResult _) = None"

fun claim_again :: "coupon_result \<Rightarrow> CouponClaim option" where
  "claim_again (ClaimResult c) = (if validClaim c then Some c else None)"
| "claim_again (CouponResult _) = None"

section \<open>Events\<close>

definition coupon_event_type :: "string \<Rightarrow> string" where
  "coupon_event_type operation =
     (if operation = ''create'' then ''coupon.created'' else if operation = ''update'' then ''coupon.updated''
      else if operation = ''publish'' then ''coupon.published'' else if operation = ''stop'' then ''coupon.stopped''
      else if operation = ''archive'' then ''coupon.archived'' else if operation = ''delete'' then ''coupon.deleted''
      else if operation = ''copy'' then ''coupon.copied'' else [])"

definition append_coupon_event :: "coupon_env \<Rightarrow> Event \<Rightarrow> ('q, unit) coupon_tx" where
  "append_coupon_event E e = (\<lambda>db. case appender_Append (cn_events E) e (cp_events db) of
     (Inl _, l) \<Rightarrow> (Inl CpDependency, db\<lparr>cp_events := l\<rparr>) | (Inr _, l) \<Rightarrow> (Inr (), db\<lparr>cp_events := l\<rparr>))"

definition status_event :: "coupon_env \<Rightarrow> instant \<Rightarrow> string \<Rightarrow> Coupon \<Rightarrow> int \<Rightarrow> string \<Rightarrow> Event" where
  "status_event E now operation c actor digest = \<lparr>en_type = coupon_event_type operation, en_customer = 0,
     en_payload = json_object E [(''coupon_id'', show_int (co_id c)), (''actor'', show_int actor), (''status'', cn_quote E (co_status c))],
     en_at = now, en_key = ''coupon.'' @ operation @ '':'' @ hex_encode digest\<rparr>"

definition mutation_event :: "coupon_env \<Rightarrow> instant \<Rightarrow> string \<Rightarrow> Coupon \<Rightarrow> int \<Rightarrow> string \<Rightarrow> Event" where
  "mutation_event E now operation c actor key = status_event E now operation c actor
     (cn_sha256 E (admin_scope actor @ CHR 0x00 # operation @ CHR 0x00 # key))"

definition board_event :: "coupon_env \<Rightarrow> instant \<Rightarrow> string \<Rightarrow> Coupon \<Rightarrow> int \<Rightarrow> string \<Rightarrow> Event" where
  "board_event E now operation c actor key = status_event E now operation c actor
     (cn_sha256 E (''coupon.'' @ operation @ CHR 0x00 # key))"

definition claim_event :: "coupon_env \<Rightarrow> instant \<Rightarrow> string \<Rightarrow> CouponClaim \<Rightarrow> Event" where
  "claim_event E now key c = \<lparr>en_type = ''coupon.claimed'', en_customer = cc_customer c,
     en_payload = json_object E [(''coupon_id'', show_int (cc_coupon c)), (''claim_ref'', cn_quote E (cc_ref c))],
     en_at = now, en_key = ''coupon.claim:'' @ hex_encode (claim_digest E key (cc_customer c))\<rparr>"

section \<open>Creating, updating, publishing and stopping\<close>

text \<open>The products of a coupon exist, are sold in its currency, and cost more than it takes off.\<close>

fun validate_products :: "product_view \<Rightarrow> int \<Rightarrow> int list \<Rightarrow> string list \<Rightarrow> coupon_error + unit" where
  "validate_products V discount seen [] = Inr ()"
| "validate_products V discount seen (ref # refs) =
     (case split_on (CHR '':'') ref of
        [kind, number] \<Rightarrow> (case parse_int64 number of
          None \<Rightarrow> Inl CpInvalidTarget
        | Some i \<Rightarrow>
            if i < 1 \<or> i \<in> set seen then Inl CpInvalidTarget
            else (case pv_get V i of
              None \<Rightarrow> Inl CpInvalidTarget
            | Some p \<Rightarrow>
                if pd_id p \<noteq> i \<or> pd_currency p \<noteq> ''CNY'' \<or> pd_price p \<le> discount then Inl CpInvalidTarget
                else validate_products V discount (i # seen) refs))
      | _ \<Rightarrow> Inl CpInvalidTarget)"

definition validateProducts :: "product_view \<Rightarrow> Coupon \<Rightarrow> coupon_error + unit" where
  "validateProducts V c = validate_products V (cu_discount (co_rules c)) [] (co_targets c)"

text \<open>Whether an update of the locked coupon is refused.\<close>

definition update_refused :: "bool \<Rightarrow> Coupon \<Rightarrow> Coupon \<Rightarrow> coupon_error option" where
  "update_refused draftOnly old new =
     (if co_history old then Some CpConflict
      else if draftOnly
      then (if co_status old \<noteq> ''draft'' \<or> co_issued old \<noteq> 0 then Some CpConflict else None)
      else if co_status old \<noteq> ''draft'' \<and> co_issued old = 0 then Some CpConflict
      else if 0 < co_issued old \<and> \<not> claimedUpdateAllowed old new then Some CpRulesFrozen
      else None)"

definition set_status_body ::
  "product_view \<Rightarrow> instant \<Rightarrow> string \<Rightarrow> int \<Rightarrow> string \<Rightarrow> int \<Rightarrow> ('q, Coupon \<times> bool) coupon_tx" where
  "set_status_body V now operation i desired actor =
     and_then (cpn_Lock i) (\<lambda>old.
       if co_status old = desired then ret (old, False)
       else if operation = ''publish'' \<and> co_status old \<noteq> ''draft'' \<or> operation = ''stop'' \<and> co_status old \<noteq> ''published''
       then fail CpConflict
       else and_then (if operation = ''publish'' then liftE (validateProducts V old) else ret ()) (\<lambda>_.
         and_then (cpn_SetStatus now i desired actor) (\<lambda>c. ret (c, True))))"

definition mutate_body ::
  "product_view \<Rightarrow> instant \<Rightarrow> string \<Rightarrow> UpsertCommand \<Rightarrow> int list \<Rightarrow> string \<Rightarrow> bool \<Rightarrow> ('q, Coupon \<times> bool) coupon_tx" where
  "mutate_body V now operation c ids desired draftOnly =
     (if operation = ''create'' then and_then (cpn_Create V now c ids) (\<lambda>r. ret (r, True))
      else if operation = ''update''
      then and_then (cpn_Lock (co_id (uc_coupon c))) (\<lambda>old.
        case update_refused draftOnly old (uc_coupon c) of
          Some e \<Rightarrow> fail e
        | None \<Rightarrow> and_then (cpn_Update V now c ids) (\<lambda>r. ret (r, True)))
      else if operation = ''publish'' \<or> operation = ''stop''
      then set_status_body V now operation (co_id (uc_coupon c)) desired (uc_actor c)
      else fail CpInvalidCoupon)"

definition announced :: "coupon_env \<Rightarrow> Event \<Rightarrow> bool \<Rightarrow> 'r \<Rightarrow> ('q, 'r) coupon_tx" where
  "announced E e changed r = (if changed then and_then (append_coupon_event E e) (\<lambda>_. ret r) else ret r)"

definition mutation_reservation :: "coupon_env \<Rightarrow> string \<Rightarrow> UpsertCommand \<Rightarrow> string \<Rightarrow> CouponReservation" where
  "mutation_reservation E operation c desired = \<lparr>cs_operation = operation, cs_scope = admin_scope (uc_actor c),
     cs_key = cn_sha256 E (uc_key c), cs_payload = cn_sha256 E (mutation_text E operation c desired)\<rparr>"

definition coupon_mutate ::
  "coupon_env \<Rightarrow> product_view \<Rightarrow> instant \<Rightarrow> string \<Rightarrow> UpsertCommand \<Rightarrow> string \<Rightarrow> bool \<Rightarrow> ('q, Coupon) coupon_tx" where
  "coupon_mutate E V now operation input desired draftOnly =
     (let writes = (operation = ''create'' \<or> operation = ''update'') in
      if uc_actor input < 1 \<or> length (uc_key input) < (if writes then 16 else 1) \<or> 128 < length (uc_key input) \<or>
         trim_space (uc_key input) \<noteq> uc_key input
      then fail CpInvalidCoupon
      else if now = 0 then fail CpUnavailable
      else (case (if writes then normalize input else Inr (input, [])) of
        Inl e \<Rightarrow> fail e
      | Inr (c, ids) \<Rightarrow>
          coupon_classified (within (with_coupon_receipt (mutation_reservation E operation c desired) coupon_again CouponResult coupon_marshals
            (and_then (mutate_body V now operation c ids desired draftOnly) (\<lambda>(r, changed).
               if \<not> validStored r then fail CpUnavailable
               else let r' = withAvailability r now in
                 announced E (mutation_event E now operation r' (uc_actor input) (uc_key input)) changed r'))))))"

definition blank_rules :: CouponRules where
  "blank_rules = \<lparr>cu_name = [], cu_discount = 0, cu_total = 0, cu_per_user = 0, cu_claim_from = 0, cu_claim_until = 0,
     cu_mode = [], cu_use_from = None, cu_use_until = None, cu_days = None, cu_instructions = []\<rparr>"

text \<open>A command that names a coupon only.\<close>

definition status_command :: "int \<Rightarrow> int \<Rightarrow> string \<Rightarrow> UpsertCommand" where
  "status_command i actor key = \<lparr>uc_coupon = \<lparr>co_id = i, co_rules = blank_rules, co_targets = [], co_currency = [],
     co_status = [], co_availability = [], co_issued = 0, co_created_by = 0, co_updated_by = 0, co_version = 0,
     co_history = False, co_created = 0, co_updated = 0\<rparr>, uc_actor = actor, uc_key = key\<rparr>"

definition coupon_Create :: "coupon_env \<Rightarrow> product_view \<Rightarrow> instant \<Rightarrow> UpsertCommand \<Rightarrow> ('q, Coupon) coupon_tx" where
  "coupon_Create E V now input =
     coupon_mutate E V now ''create'' (input\<lparr>uc_coupon := (uc_coupon input)\<lparr>co_id := 0\<rparr>\<rparr>) [] False"

definition coupon_Update :: "coupon_env \<Rightarrow> product_view \<Rightarrow> instant \<Rightarrow> UpsertCommand \<Rightarrow> ('q, Coupon) coupon_tx" where
  "coupon_Update E V now input =
     (if co_id (uc_coupon input) < 1 then fail CpNotFound else coupon_mutate E V now ''update'' input [] False)"

definition coupon_UpdateDraft :: "coupon_env \<Rightarrow> product_view \<Rightarrow> instant \<Rightarrow> UpsertCommand \<Rightarrow> ('q, Coupon) coupon_tx" where
  "coupon_UpdateDraft E V now input =
     (if co_id (uc_coupon input) < 1 then fail CpNotFound else coupon_mutate E V now ''update'' input [] True)"

definition coupon_Publish :: "coupon_env \<Rightarrow> product_view \<Rightarrow> instant \<Rightarrow> int \<Rightarrow> int \<Rightarrow> string \<Rightarrow> ('q, Coupon) coupon_tx" where
  "coupon_Publish E V now i actor key = coupon_mutate E V now ''publish'' (status_command i actor key) ''published'' False"

definition coupon_Stop :: "coupon_env \<Rightarrow> product_view \<Rightarrow> instant \<Rightarrow> int \<Rightarrow> int \<Rightarrow> string \<Rightarrow> ('q, Coupon) coupon_tx" where
  "coupon_Stop E V now i actor key = coupon_mutate E V now ''stop'' (status_command i actor key) ''stopped'' False"

section \<open>The board: archiving, deleting and copying\<close>

definition board_reservation :: "coupon_env \<Rightarrow> string \<Rightarrow> int \<Rightarrow> int \<Rightarrow> string \<Rightarrow> CouponReservation" where
  "board_reservation E operation i actor key = \<lparr>cs_operation = operation, cs_scope = admin_scope actor,
     cs_key = cn_sha256 E key, cs_payload = cn_sha256 E (board_text E i operation)\<rparr>"

definition boardMutation ::
  "coupon_env \<Rightarrow> instant \<Rightarrow> string \<Rightarrow> int \<Rightarrow> int \<Rightarrow> string \<Rightarrow> ('q, Coupon \<times> bool) coupon_tx \<Rightarrow> ('q, Coupon) coupon_tx" where
  "boardMutation E now operation i actor key work =
     (if i < 1 \<or> actor < 1 \<or> \<not> validBoardKey key then fail CpInvalidCoupon
      else coupon_classified (within (with_coupon_receipt (board_reservation E operation i actor key) coupon_again CouponResult coupon_marshals
        (and_then work (\<lambda>(r, changed).
           if \<not> validStored r then fail CpUnavailable
           else announced E (board_event E now operation r actor key) changed r)))))"

definition archive_body :: "instant \<Rightarrow> int \<Rightarrow> int \<Rightarrow> ('q, Coupon \<times> bool) coupon_tx" where
  "archive_body now i actor = and_then (cpn_Lock i) (\<lambda>old.
     if co_history old then fail CpConflict
     else if co_status old = ''archived'' then ret (withAvailability old now, False)
     else if co_status old \<notin> {''draft'', ''published'', ''stopped''} then fail CpConflict
     else and_then (cpn_SetStatus now i ''archived'' actor) (\<lambda>c. ret (withAvailability c now, True)))"

definition delete_coupon_body :: "instant \<Rightarrow> int \<Rightarrow> ('q, Coupon \<times> bool) coupon_tx" where
  "delete_coupon_body now i = and_then (cpn_Lock i) (\<lambda>old.
     if co_status old \<noteq> ''draft'' \<or> co_issued old \<noteq> 0 then fail CpConflict
     else and_then (cpn_DeleteDraft i) (\<lambda>_.
       ret ((withAvailability old now)\<lparr>co_status := ''deleted'', co_availability := ''deleted''\<rparr>, True)))"

definition copy_command :: "Coupon \<Rightarrow> int \<Rightarrow> string \<Rightarrow> UpsertCommand" where
  "copy_command old actor key = (let c = status_command 0 actor key in c\<lparr>uc_coupon := (uc_coupon c)\<lparr>
     co_rules := (co_rules old)\<lparr>cu_name := copiedCouponName (cu_name (co_rules old))\<rparr>, co_targets := co_targets old\<rparr>\<rparr>)"

definition copy_body :: "product_view \<Rightarrow> instant \<Rightarrow> int \<Rightarrow> int \<Rightarrow> string \<Rightarrow> ('q, Coupon \<times> bool) coupon_tx" where
  "copy_body V now i actor key = and_then (cpn_Lock i) (\<lambda>old.
     if co_history old then fail CpConflict
     else (case normalize (copy_command old actor key) of
       Inl e \<Rightarrow> fail e
     | Inr (c, ids) \<Rightarrow> and_then (cpn_Create V now c ids) (\<lambda>r. ret (withAvailability r now, True))))"

definition coupon_Archive :: "coupon_env \<Rightarrow> instant \<Rightarrow> int \<Rightarrow> int \<Rightarrow> string \<Rightarrow> ('q, Coupon) coupon_tx" where
  "coupon_Archive E now i actor key = boardMutation E now ''archive'' i actor key (archive_body now i actor)"

definition coupon_Delete :: "coupon_env \<Rightarrow> instant \<Rightarrow> int \<Rightarrow> int \<Rightarrow> string \<Rightarrow> ('q, Coupon) coupon_tx" where
  "coupon_Delete E now i actor key = boardMutation E now ''delete'' i actor key (delete_coupon_body now i)"

definition coupon_Copy :: "coupon_env \<Rightarrow> product_view \<Rightarrow> instant \<Rightarrow> int \<Rightarrow> int \<Rightarrow> string \<Rightarrow> ('q, Coupon) coupon_tx" where
  "coupon_Copy E V now i actor key = boardMutation E now ''copy'' i actor key (copy_body V now i actor key)"

section \<open>Claiming\<close>

definition claim_reservation :: "coupon_env \<Rightarrow> int \<Rightarrow> int \<Rightarrow> string \<Rightarrow> CouponReservation" where
  "claim_reservation E i customer key = \<lparr>cs_operation = ''claim'', cs_scope = customer_scope customer,
     cs_key = cn_sha256 E key, cs_payload = cn_sha256 E (claim_text E i customer)\<rparr>"

definition claim_body :: "coupon_env \<Rightarrow> instant \<Rightarrow> int \<Rightarrow> int \<Rightarrow> string \<Rightarrow> ('q, CouponClaim) coupon_tx" where
  "claim_body E now i customer key =
     and_then (cpn_Lock i) (\<lambda>old.
       if co_availability (withAvailability old now) \<noteq> ''active'' then fail CpNotClaimable
       else and_then (cpn_CountCustomerClaims i customer) (\<lambda>count.
         if cu_per_user (co_rules old) \<le> count \<or> cu_total (co_rules old) \<le> co_issued old then fail CpConflict
         else and_then (cpn_CreateClaim now i customer (wrap32 (count + 1)) (claim_ref E key customer)) (\<lambda>c.
           and_then (cpn_IncrementIssued now i) (\<lambda>_.
           and_then (append_coupon_event E (claim_event E now key c)) (\<lambda>_. ret c)))))"

definition coupon_Claim :: "coupon_env \<Rightarrow> instant \<Rightarrow> int \<Rightarrow> int \<Rightarrow> string \<Rightarrow> ('q, CouponClaim) coupon_tx" where
  "coupon_Claim E now i customer key =
     (if i < 1 \<or> customer < 1 \<or> \<not> validBoardKey key then fail CpInvalidCoupon
      else coupon_classified (within (with_coupon_receipt (claim_reservation E i customer key) claim_again ClaimResult (\<lambda>c. json_instant (cc_at c))
        (claim_body E now i customer key))))"

section \<open>Reading\<close>

definition coupon_List ::
  "coupon_env \<Rightarrow> instant \<Rightarrow> int \<Rightarrow> int \<Rightarrow> string \<Rightarrow> string \<Rightarrow> ('q, CouponPage) coupon_tx" where
  "coupon_List E now limit0 offset search0 status0 =
     (let limit = (if limit0 = 0 then 50 else limit0); search = trim_space search0; status = trim_space status0 in
      if limit < 1 \<or> 200 < limit \<or> offset < 0 \<or> 1000000 < offset \<or> 80 < length search \<or> 32 < length status \<or>
         status \<notin> {[], ''draft'', ''published'', ''stopped'', ''archived''}
      then fail CpInvalidCoupon
      else and_then (coupon_classified (within (and_then (cpn_List E limit offset search status) (\<lambda>items.
          and_then (cpn_Count E search status) (\<lambda>total. ret (items, total)))))) (\<lambda>(items, total).
        if total < 0 \<or> limit < int (length items) \<or> \<not> list_all validStored items then fail CpUnavailable
        else ret \<lparr>pg_items = map (\<lambda>c. withAvailability c now) items, pg_total = total, pg_limit = limit, pg_offset = offset\<rparr>))"

definition coupon_Get :: "instant \<Rightarrow> int \<Rightarrow> ('q, Coupon) coupon_tx" where
  "coupon_Get now i =
     (if i < 1 then fail CpNotFound
      else and_then (coupon_classified (within (cpn_Get i))) (\<lambda>c.
        if \<not> validStored c then fail CpUnavailable else ret (withAvailability c now)))"

definition coupon_ListClaims :: "int \<Rightarrow> int \<Rightarrow> int \<Rightarrow> ('q, ClaimPage) coupon_tx" where
  "coupon_ListClaims i limit offset =
     (if i < 1 \<or> limit < 1 \<or> 200 < limit \<or> offset < 0 then fail CpInvalidCoupon
      else coupon_classified (within (and_then (cpn_Get i) (\<lambda>_.
        and_then (cpn_ListClaims i limit offset) (\<lambda>items.
        and_then (cpn_CountClaims i) (\<lambda>total.
          ret \<lparr>cg_items = items, cg_total = total, cg_limit = limit, cg_offset = offset\<rparr>))))))"

definition coupon_ListAvailable :: "instant \<Rightarrow> string \<Rightarrow> int \<Rightarrow> ('q, Coupon list) coupon_tx" where
  "coupon_ListAvailable now target0 customer = (let target = trim_space target0 in
     if target = [] \<or> 200 < length target \<or> customer < 1 then fail CpInvalidTarget
     else and_then (coupon_classified (within (cpn_ListAvailable now target customer 200))) (\<lambda>items.
       ret (map (\<lambda>c. withAvailability c now) items)))"

text \<open>Every failure to resolve a token has one answer.\<close>

definition coupon_ResolvePaymentIdentitySession :: "coupon_env \<Rightarrow> instant \<Rightarrow> string \<Rightarrow> ('q, int) coupon_tx" where
  "coupon_ResolvePaymentIdentitySession E now token =
     (if \<not> validOpaqueBrowserToken token then fail CpNotClaimable
      else (\<lambda>db. case within (cpn_ResolvePaymentIdentitySession now (cn_sha256 E token)) db of
        (Inl _, db') \<Rightarrow> (Inl CpNotClaimable, db')
      | (Inr c, db') \<Rightarrow> if c < 1 then (Inl CpNotClaimable, db') else (Inr c, db')))"

definition coupon_ResolveSidebarGrant :: "coupon_env \<Rightarrow> instant \<Rightarrow> string \<Rightarrow> ('q, int) coupon_tx" where
  "coupon_ResolveSidebarGrant E now token =
     (if \<not> validOpaqueBrowserToken token then fail CpNotClaimable
      else (\<lambda>db. case within (cpn_ResolveSidebarGrant now (cn_sha256 E token)) db of
        (Inl _, db') \<Rightarrow> (Inl CpNotClaimable, db')
      | (Inr c, db') \<Rightarrow> if c < 1 then (Inl CpNotClaimable, db') else (Inr c, db')))"

definition coupon_ListSidebarCoupons :: "int \<Rightarrow> ('q, SidebarCoupon list) coupon_tx" where
  "coupon_ListSidebarCoupons customer =
     (if customer < 1 then fail CpInvalidCoupon
      else and_then (coupon_classified (within (cpn_ListSidebarClaims customer 100))) (\<lambda>items.
        if list_ex (\<lambda>s. sc_coupon s < 1 \<or> trim_space (sc_name s) = [] \<or> sc_ref s = [] \<or> sc_at s = 0) items
        then fail CpUnavailable else ret items))"

end
