(* ===== verification/CouponImport.thy ===== *)
theory CouponImport
  imports CouponService
begin

text \<open>
  The import of historical coupon definitions (\<^verbatim>\<open>internal/coupon/app/history.go\<close>,
  \<^verbatim>\<open>internal/coupon/store/history.go\<close>). The journal belongs to the importer and is an argument: what
  it holds under a source identifier, and what recording a receipt answers. The caller's
  transaction is \<open>within\<close>, around the import.
\<close>

datatype history_error = HiInvalid | HiConflict | HiUnavailable

record CouponDefinition =
  hx_coupon :: Coupon
  hx_source :: int
  hx_status :: string
  hx_first_claim :: "instant option"

record CouponHistoryReceipt =
  hv_source :: string
  hv_payload :: string
  hv_target :: int
  hv_digest :: string
  hv_replayed :: bool

record coupon_journal =
  cj_load :: "string \<Rightarrow> string \<Rightarrow> history_error + CouponHistoryReceipt option"
  cj_record :: "string \<Rightarrow> CouponHistoryReceipt \<Rightarrow> history_error + unit"

section \<open>Validity\<close>

definition historicalTime :: "instant \<Rightarrow> bool" where
  "historicalTime t \<longleftrightarrow> 0 < t \<and> json_instant t"

text \<open>The receiver's times are whole microseconds afterwards.\<close>

definition normalizeHistoricalDefinition :: "CouponDefinition \<Rightarrow> CouponDefinition" where
  "normalizeHistoricalDefinition h = (let c = hx_coupon h; r = co_rules c in
     h\<lparr>hx_first_claim := map_option pg_micros (hx_first_claim h),
       hx_coupon := c\<lparr>co_availability := ''archived'', co_created := pg_micros (co_created c), co_updated := pg_micros (co_updated c),
         co_rules := r\<lparr>cu_claim_from := pg_micros (cu_claim_from r), cu_claim_until := pg_micros (cu_claim_until r),
           cu_use_from := map_option pg_micros (cu_use_from r), cu_use_until := map_option pg_micros (cu_use_until r)\<rparr>\<rparr>\<rparr>)"

definition target_number :: "string \<Rightarrow> int option" where
  "target_number ref = (if take 17 ref \<noteq> ''standard_product:'' then None
     else (case parse_int64 (drop 17 ref) of
       None \<Rightarrow> None | Some i \<Rightarrow> if i < 1 \<or> drop 17 ref \<noteq> show_int i then None else Some i))"

definition validHistoricalCoupon :: "CouponDefinition \<Rightarrow> bool" where
  "validHistoricalCoupon h = (let c = hx_coupon h; r = co_rules c in
     co_id c = 0 \<and> 1 \<le> hx_source h \<and> co_status c = ''archived'' \<and> co_version c = 1 \<and> co_history c \<and>
     1 \<le> co_created_by c \<and> co_updated_by c = co_created_by c \<and> co_currency c = ''CNY'' \<and>
     cu_name r \<noteq> [] \<and> trim_space (cu_name r) = cu_name r \<and> rune_count (cu_name r) \<le> 45 \<and>
     trim_space (cu_instructions r) = cu_instructions r \<and> rune_count (cu_instructions r) \<le> 200 \<and>
     pg_text (cu_name r) \<and> pg_text (cu_instructions r) \<and> pg_text (hx_status h) \<and>
     1 \<le> cu_discount r \<and> 1 \<le> cu_total r \<and> 1 \<le> cu_per_user r \<and> cu_per_user r \<le> cu_total r \<and>
     0 \<le> co_issued c \<and> co_issued c \<le> cu_total r \<and> (co_issued c = 0 \<longleftrightarrow> hx_first_claim h = None) \<and>
     list_all historicalTime [cu_claim_from r, cu_claim_until r, co_created c, co_updated c] \<and>
     cu_claim_from r < cu_claim_until r \<and> co_created c \<le> co_updated c \<and>
     option_all historicalTime (cu_use_from r) \<and> option_all historicalTime (cu_use_until r) \<and>
     option_all historicalTime (hx_first_claim h) \<and>
     1 \<le> length (co_targets c) \<and> length (co_targets c) \<le> 100 \<and> validity_ok r \<and>
     list_all (\<lambda>ref. target_number ref \<noteq> None) (co_targets c) \<and> distinct (co_targets c))"

section \<open>The store\<close>

definition historical_row :: "int \<Rightarrow> Coupon \<Rightarrow> coupon_row" where
  "historical_row i c = \<lparr>cw_id = i, cw_rules = co_rules c, cw_status = ''archived'', cw_issued = 0, cw_first_claim = None,
     cw_created_by = co_created_by c, cw_updated_by = co_created_by c, cw_version = 1,
     cw_created = pg_micros (co_created c), cw_updated = pg_micros (co_updated c)\<rparr>"

fun insert_history_targets :: "product_view \<Rightarrow> int \<Rightarrow> nat \<Rightarrow> string list \<Rightarrow> ('q, unit) coupon_tx" where
  "insert_history_targets V i k [] = ret ()"
| "insert_history_targets V i k (ref # refs) =
     (case target_number ref of
       None \<Rightarrow> fail CpInvalidTarget
     | Some p \<Rightarrow> and_then (insert_target V \<lparr>xt_coupon = i, xt_position = k, xt_ref = ref, xt_product = p\<rparr>)
         (\<lambda>_. insert_history_targets V i (Suc k) refs))"

text \<open>The facts of the claims come after the targets, which a claimed coupon would refuse.\<close>

definition restore_facts :: "int \<Rightarrow> int \<Rightarrow> instant option \<Rightarrow> ('q, unit) coupon_tx" where
  "restore_facts i issued first =
     and_then (update_coupon i (\<lambda>w. cw_status w = ''archived'' \<and> cw_issued w = 0 \<and> cw_first_claim w = None)
       (\<lambda>w. w\<lparr>cw_issued := issued, cw_first_claim := map_option pg_micros first\<rparr>))
       (\<lambda>n. if n = 1 then ret () else fail CpUnavailable)"

definition insert_marker :: "coupon_marker \<Rightarrow> ('q, unit) coupon_tx" where
  "insert_marker m = (\<lambda>db.
     if \<not> pg_text (xm_status m) \<or> xm_source m \<le> 0 then (Inl CpDependency, db)
     else if (\<exists>m' \<in> set (cp_markers db). xm_coupon m' = xm_coupon m \<or> xm_source m' = xm_source m) then (Inl CpConflict, db)
     else if find_coupon (xm_coupon m) db = None then (Inl CpDependency, db)
     else (Inr (), db\<lparr>cp_markers := cp_markers db @ [m]\<rparr>))"

definition GetHistoricalDefinition :: "int \<Rightarrow> ('q, CouponDefinition) coupon_tx" where
  "GetHistoricalDefinition i = (\<lambda>db.
     case (List.find (\<lambda>m. xm_coupon m = i) (cp_markers db), find_coupon i db) of
       (Some m, Some w) \<Rightarrow> and_then (cpn_Get i) (\<lambda>c. ret \<lparr>hx_coupon = c\<lparr>co_availability := ''archived''\<rparr>, hx_source = xm_source m,
         hx_status = xm_status m, hx_first_claim = cw_first_claim w\<rparr>) db
     | _ \<Rightarrow> (Inl CpNotFound, db))"

definition CreateHistoricalDefinition :: "product_view \<Rightarrow> CouponDefinition \<Rightarrow> ('q, CouponDefinition) coupon_tx" where
  "CreateHistoricalDefinition V h = (\<lambda>db. let i = cp_next_coupon db; c = hx_coupon h in
     and_then (insert_coupon (historical_row i c)) (\<lambda>_.
     and_then (insert_history_targets V i 0 (co_targets c)) (\<lambda>_.
     and_then (restore_facts i (co_issued c) (hx_first_claim h)) (\<lambda>_.
     and_then (insert_marker \<lparr>xm_coupon = i, xm_source = hx_source h, xm_status = hx_status h\<rparr>) (\<lambda>_.
     and_then increment_count (\<lambda>_. GetHistoricalDefinition i))))) db)"

section \<open>The import\<close>

definition historical_text :: "coupon_env \<Rightarrow> CouponDefinition \<Rightarrow> string" where
  "historical_text E h = json_object E (coupon_members E (hx_coupon h) @
     [(''source_coupon_id'', show_int (hx_source h)), (''original_status'', cn_quote E (hx_status h)),
      (''first_claim_at'', json_opt (json_at E) (hx_first_claim h))])"

definition HistoricalDefinitionTargetDigest :: "coupon_env \<Rightarrow> CouponDefinition \<Rightarrow> string" where
  "HistoricalDefinitionTargetDigest E h = cn_sha256 E (''coupon_history'' @ CHR 0x00 # ''definitions'' @ CHR 0x00 #
     historical_text E (normalizeHistoricalDefinition h))"

definition expected_digest :: "coupon_env \<Rightarrow> CouponDefinition \<Rightarrow> int \<Rightarrow> string" where
  "expected_digest E h i = HistoricalDefinitionTargetDigest E (h\<lparr>hx_coupon := (hx_coupon h)\<lparr>co_id := i\<rparr>\<rparr>)"

text \<open>Of the store's errors, only the one of a malformed target is an error of the record.\<close>

definition history_access :: "('q, 'a) coupon_tx \<Rightarrow> ('q coupon_db, history_error, 'a) tx" where
  "history_access m = (\<lambda>db. case m db of
     (Inl e, db') \<Rightarrow> (Inl (if e = CpInvalidTarget then HiInvalid else HiUnavailable), db') | (Inr h, db') \<Rightarrow> (Inr h, db'))"

text \<open>
  \<open>access\<close> creates the record for identifier 0 and reads it for any other; it answers the
  identifier and the digest of what is stored.
\<close>

definition importHistory ::
  "coupon_journal \<Rightarrow> string \<Rightarrow> string \<Rightarrow> string \<Rightarrow> (int \<Rightarrow> string) \<Rightarrow> (int \<Rightarrow> ('q coupon_db, history_error, int \<times> string) tx) \<Rightarrow>
   ('q coupon_db, history_error, CouponHistoryReceipt) tx" where
  "importHistory J kind source payload expected access =
     (if source = [] \<or> trim_space source \<noteq> source \<or> \<not> pg_text source \<or> payload = replicate 32 (CHR 0x00) then fail HiInvalid
      else (case cj_load J kind source of
        Inl e \<Rightarrow> fail e
      | Inr (Some r) \<Rightarrow>
          if hv_source r \<noteq> source \<or> hv_payload r \<noteq> payload \<or> hv_target r < 1 \<or> hv_digest r \<noteq> expected (hv_target r)
          then fail HiConflict
          else and_then (access (hv_target r)) (\<lambda>(i, d).
            if i \<noteq> hv_target r \<or> d \<noteq> hv_digest r then fail HiConflict else ret (r\<lparr>hv_replayed := True\<rparr>))
      | Inr None \<Rightarrow>
          and_then (access 0) (\<lambda>(i, d).
            if i < 1 \<or> d \<noteq> expected i then fail HiConflict
            else let r = \<lparr>hv_source = source, hv_payload = payload, hv_target = i, hv_digest = d, hv_replayed = False\<rparr> in
              and_then (liftE (cj_record J kind r)) (\<lambda>_. ret r))))"

definition definition_access ::
  "coupon_env \<Rightarrow> product_view \<Rightarrow> CouponDefinition \<Rightarrow> int \<Rightarrow> ('q coupon_db, history_error, int \<times> string) tx" where
  "definition_access E V h i = history_access
     (and_then (if i = 0 then CreateHistoricalDefinition V h else GetHistoricalDefinition i) (\<lambda>a.
       ret (co_id (hx_coupon a), HistoricalDefinitionTargetDigest E a)))"

definition ImportDefinition ::
  "coupon_env \<Rightarrow> product_view \<Rightarrow> coupon_journal \<Rightarrow> string \<Rightarrow> string \<Rightarrow> CouponDefinition \<Rightarrow>
   ('q coupon_db, history_error, CouponHistoryReceipt) tx" where
  "ImportDefinition E V J source payload h0 = (let h = normalizeHistoricalDefinition h0 in
     if \<not> validHistoricalCoupon h then fail HiInvalid
     else importHistory J ''definitions'' source payload (expected_digest E h) (definition_access E V h))"

end
