(* ===== verification/CouponRecords.thy ===== *)
theory CouponRecords
  imports CouponImport
begin

text \<open>
  The import of the former claims and redemptions of imported coupons, and the reader of the
  imported history (\<^verbatim>\<open>internal/coupon/app/history.go\<close>, \<^verbatim>\<open>internal/coupon/store/history.go\<close>). The
  customers and orders that the foreign keys find belong to other domains and are arguments.
\<close>

record coupon_world =
  kw_customer :: "int \<Rightarrow> bool"
  kw_order :: "int \<Rightarrow> bool"

section \<open>Validity\<close>

definition normalizeHistoricalClaim :: "HistoricalClaim \<Rightarrow> HistoricalClaim" where
  "normalizeHistoricalClaim c = c\<lparr>hk_from := pg_micros (hk_from c), hk_until := pg_micros (hk_until c), hk_at := pg_micros (hk_at c),
     hk_created := pg_micros (hk_created c), hk_updated := pg_micros (hk_updated c),
     hk_reserved := map_option pg_micros (hk_reserved c), hk_consumed := map_option pg_micros (hk_consumed c),
     hk_expired := map_option pg_micros (hk_expired c)\<rparr>"

definition normalizeHistoricalRedemption :: "HistoricalRedemption \<Rightarrow> HistoricalRedemption" where
  "normalizeHistoricalRedemption m = m\<lparr>hm_until := pg_micros (hm_until m), hm_reserved := pg_micros (hm_reserved m),
     hm_created := pg_micros (hm_created m), hm_updated := pg_micros (hm_updated m),
     hm_consumed := map_option pg_micros (hm_consumed m), hm_released := map_option pg_micros (hm_released m)\<rparr>"

definition historicalOptionalID :: "int option \<Rightarrow> bool" where
  "historicalOptionalID x \<longleftrightarrow> option_all (\<lambda>i. 0 < i) x"

definition validHistoricalClaim :: "HistoricalClaim \<Rightarrow> bool" where
  "validHistoricalClaim c \<longleftrightarrow> hk_id c = 0 \<and> 1 \<le> hk_source c \<and> 1 \<le> hk_source_coupon c \<and> 1 \<le> hk_coupon c \<and>
     historicalOptionalID (hk_customer c) \<and> hk_currency c = ''CNY'' \<and> 0 \<le> hk_discount c \<and>
     pg_text (hk_number c) \<and> pg_text (hk_status c) \<and>
     list_all historicalTime [hk_from c, hk_until c, hk_at c, hk_created c, hk_updated c] \<and>
     option_all historicalTime (hk_reserved c) \<and> option_all historicalTime (hk_consumed c) \<and> option_all historicalTime (hk_expired c)"

definition validHistoricalRedemption :: "HistoricalRedemption \<Rightarrow> bool" where
  "validHistoricalRedemption m \<longleftrightarrow> hm_id m = 0 \<and> 1 \<le> hm_source m \<and> 1 \<le> hm_source_claim m \<and> 1 \<le> hm_source_order m \<and>
     1 \<le> hm_claim m \<and> historicalOptionalID (hm_order m) \<and> hm_currency m = ''CNY'' \<and>
     0 \<le> hm_original m \<and> 0 \<le> hm_discount m \<and> 0 \<le> hm_payable m \<and>
     pg_text (hm_trade m) \<and> pg_text (hm_status m) \<and> pg_text (hm_reason m) \<and>
     list_all historicalTime [hm_until m, hm_reserved m, hm_created m, hm_updated m] \<and>
     option_all historicalTime (hm_consumed m) \<and> option_all historicalTime (hm_released m)"

section \<open>Digests\<close>

definition claim_record_text :: "coupon_env \<Rightarrow> HistoricalClaim \<Rightarrow> string" where
  "claim_record_text E c = json_object E
     [(''id'', show_int (hk_id c)), (''source_claim_id'', show_int (hk_source c)), (''source_coupon_id'', show_int (hk_source_coupon c)),
      (''coupon_id'', show_int (hk_coupon c)), (''customer_id'', json_opt show_int (hk_customer c)), (''claim_no'', cn_quote E (hk_number c)),
      (''status'', cn_quote E (hk_status c)), (''discount_amount_total'', show_int (hk_discount c)), (''currency'', cn_quote E (hk_currency c)),
      (''valid_from'', json_at E (hk_from c)), (''valid_until'', json_at E (hk_until c)), (''claimed_at'', json_at E (hk_at c)),
      (''reserved_at'', json_opt (json_at E) (hk_reserved c)), (''consumed_at'', json_opt (json_at E) (hk_consumed c)),
      (''expired_at'', json_opt (json_at E) (hk_expired c)), (''created_at'', json_at E (hk_created c)), (''updated_at'', json_at E (hk_updated c))]"

definition redemption_text :: "coupon_env \<Rightarrow> HistoricalRedemption \<Rightarrow> string" where
  "redemption_text E m = json_object E
     [(''id'', show_int (hm_id m)), (''source_redemption_id'', show_int (hm_source m)), (''source_claim_id'', show_int (hm_source_claim m)),
      (''source_order_id'', show_int (hm_source_order m)), (''claim_history_id'', show_int (hm_claim m)),
      (''order_id'', json_opt show_int (hm_order m)), (''out_trade_no'', cn_quote E (hm_trade m)), (''status'', cn_quote E (hm_status m)),
      (''original_amount_total'', show_int (hm_original m)), (''discount_amount_total'', show_int (hm_discount m)),
      (''payable_amount_total'', show_int (hm_payable m)), (''currency'', cn_quote E (hm_currency m)),
      (''reserved_until'', json_at E (hm_until m)), (''release_reason'', cn_quote E (hm_reason m)), (''reserved_at'', json_at E (hm_reserved m)),
      (''consumed_at'', json_opt (json_at E) (hm_consumed m)), (''released_at'', json_opt (json_at E) (hm_released m)),
      (''created_at'', json_at E (hm_created m)), (''updated_at'', json_at E (hm_updated m))]"

definition HistoricalClaimTargetDigest :: "coupon_env \<Rightarrow> HistoricalClaim \<Rightarrow> string" where
  "HistoricalClaimTargetDigest E c = cn_sha256 E (''coupon_history'' @ CHR 0x00 # ''claims'' @ CHR 0x00 #
     claim_record_text E (normalizeHistoricalClaim c))"

definition HistoricalRedemptionTargetDigest :: "coupon_env \<Rightarrow> HistoricalRedemption \<Rightarrow> string" where
  "HistoricalRedemptionTargetDigest E m = cn_sha256 E (''coupon_history'' @ CHR 0x00 # ''redemptions'' @ CHR 0x00 #
     redemption_text E (normalizeHistoricalRedemption m))"

section \<open>The store\<close>

definition stored_claim :: "int \<Rightarrow> HistoricalClaim \<Rightarrow> HistoricalClaim" where
  "stored_claim i c = (normalizeHistoricalClaim c)\<lparr>hk_id := i\<rparr>"

definition stored_redemption :: "int \<Rightarrow> HistoricalRedemption \<Rightarrow> HistoricalRedemption" where
  "stored_redemption i m = (normalizeHistoricalRedemption m)\<lparr>hm_id := i\<rparr>"

definition CreateHistoricalClaim :: "coupon_world \<Rightarrow> HistoricalClaim \<Rightarrow> ('q, HistoricalClaim) coupon_tx" where
  "CreateHistoricalClaim W c = (\<lambda>db.
     if \<not> pg_text (hk_number c) \<or> \<not> pg_text (hk_status c) \<or> \<not> pg_text (hk_currency c) \<or> hk_source c \<le> 0 \<or> hk_source_coupon c \<le> 0 \<or>
        hk_discount c < 0 \<or> hk_currency c \<noteq> ''CNY''
     then (Inl CpDependency, db)
     else if hk_source c \<in> hk_source ` set (cp_old_claims db) then (Inl CpConflict, db)
     else if hk_coupon c \<notin> xm_coupon ` set (cp_markers db) \<or> \<not> option_all (kw_customer W) (hk_customer c) then (Inl CpDependency, db)
     else (let c' = stored_claim (cp_next_old_claim db) c in
       (Inr c', db\<lparr>cp_old_claims := cp_old_claims db @ [c'], cp_next_old_claim := cp_next_old_claim db + 1\<rparr>)))"

definition GetHistoricalClaim :: "int \<Rightarrow> ('q, HistoricalClaim) coupon_tx" where
  "GetHistoricalClaim i = (\<lambda>db. case List.find (\<lambda>c. hk_id c = i) (cp_old_claims db) of
     None \<Rightarrow> (Inl CpNotFound, db) | Some c \<Rightarrow> (Inr c, db))"

definition CreateHistoricalRedemption :: "coupon_world \<Rightarrow> HistoricalRedemption \<Rightarrow> ('q, HistoricalRedemption) coupon_tx" where
  "CreateHistoricalRedemption W m = (\<lambda>db.
     if \<not> pg_text (hm_trade m) \<or> \<not> pg_text (hm_status m) \<or> \<not> pg_text (hm_currency m) \<or> \<not> pg_text (hm_reason m) \<or>
        hm_source m \<le> 0 \<or> hm_source_claim m \<le> 0 \<or> hm_source_order m \<le> 0 \<or>
        hm_original m < 0 \<or> hm_discount m < 0 \<or> hm_payable m < 0 \<or> hm_currency m \<noteq> ''CNY''
     then (Inl CpDependency, db)
     else if hm_source m \<in> hm_source ` set (cp_old_redemptions db) then (Inl CpConflict, db)
     else if hm_claim m \<notin> hk_id ` set (cp_old_claims db) \<or> \<not> option_all (kw_order W) (hm_order m) then (Inl CpDependency, db)
     else (let m' = stored_redemption (cp_next_old_redemption db) m in
       (Inr m', db\<lparr>cp_old_redemptions := cp_old_redemptions db @ [m'], cp_next_old_redemption := cp_next_old_redemption db + 1\<rparr>)))"

definition GetHistoricalRedemption :: "int \<Rightarrow> ('q, HistoricalRedemption) coupon_tx" where
  "GetHistoricalRedemption i = (\<lambda>db. case List.find (\<lambda>m. hm_id m = i) (cp_old_redemptions db) of
     None \<Rightarrow> (Inl CpNotFound, db) | Some m \<Rightarrow> (Inr m, db))"

section \<open>The imports\<close>

text \<open>A claim belongs to an imported coupon from the same source, a redemption to such a claim.\<close>

definition claim_access ::
  "coupon_env \<Rightarrow> coupon_world \<Rightarrow> HistoricalClaim \<Rightarrow> int \<Rightarrow> ('q coupon_db, history_error, int \<times> string) tx" where
  "claim_access E W c i = and_then (history_access (GetHistoricalDefinition (hk_coupon c))) (\<lambda>parent.
     if co_id (hx_coupon parent) \<noteq> hk_coupon c \<or> hx_source parent \<noteq> hk_source_coupon c \<or> \<not> co_history (hx_coupon parent) \<or>
        co_status (hx_coupon parent) \<noteq> ''archived''
     then fail HiConflict
     else history_access (and_then (if i = 0 then CreateHistoricalClaim W c else GetHistoricalClaim i) (\<lambda>a.
       ret (hk_id a, HistoricalClaimTargetDigest E a))))"

definition redemption_access ::
  "coupon_env \<Rightarrow> coupon_world \<Rightarrow> HistoricalRedemption \<Rightarrow> int \<Rightarrow> ('q coupon_db, history_error, int \<times> string) tx" where
  "redemption_access E W m i = and_then (history_access (GetHistoricalClaim (hm_claim m))) (\<lambda>parent.
     if hk_id parent \<noteq> hm_claim m \<or> hk_source parent \<noteq> hm_source_claim m then fail HiConflict
     else history_access (and_then (if i = 0 then CreateHistoricalRedemption W m else GetHistoricalRedemption i) (\<lambda>a.
       ret (hm_id a, HistoricalRedemptionTargetDigest E a))))"

definition ImportClaim ::
  "coupon_env \<Rightarrow> coupon_world \<Rightarrow> coupon_journal \<Rightarrow> string \<Rightarrow> string \<Rightarrow> HistoricalClaim \<Rightarrow>
   ('q coupon_db, history_error, CouponHistoryReceipt) tx" where
  "ImportClaim E W J source payload c0 = (let c = normalizeHistoricalClaim c0 in
     if \<not> validHistoricalClaim c then fail HiInvalid
     else importHistory J ''claims'' source payload (\<lambda>i. HistoricalClaimTargetDigest E (c\<lparr>hk_id := i\<rparr>)) (claim_access E W c))"

definition ImportRedemption ::
  "coupon_env \<Rightarrow> coupon_world \<Rightarrow> coupon_journal \<Rightarrow> string \<Rightarrow> string \<Rightarrow> HistoricalRedemption \<Rightarrow>
   ('q coupon_db, history_error, CouponHistoryReceipt) tx" where
  "ImportRedemption E W J source payload m0 = (let m = normalizeHistoricalRedemption m0 in
     if \<not> validHistoricalRedemption m then fail HiInvalid
     else importHistory J ''redemptions'' source payload (\<lambda>i. HistoricalRedemptionTargetDigest E (m\<lparr>hm_id := i\<rparr>)) (redemption_access E W m))"

section \<open>The reader\<close>

text \<open>An error of the reader is its own, or the store's.\<close>

datatype history_read_error = ReadInvalid | ReadStore coupon_error

definition read_page :: "('q, 'a) coupon_tx \<Rightarrow> ('q coupon_db, history_read_error, 'a) tx" where
  "read_page m = (\<lambda>db. case within m db of (Inl e, db') \<Rightarrow> (Inl (ReadStore e), db') | (Inr v, db') \<Rightarrow> (Inr v, db'))"

definition valid_page :: "int \<Rightarrow> int \<Rightarrow> bool" where
  "valid_page limit offset \<longleftrightarrow> 1 \<le> limit \<and> limit \<le> 100 \<and> 0 \<le> offset"

definition page_of :: "int \<Rightarrow> int \<Rightarrow> 'a list \<Rightarrow> 'a list" where
  "page_of limit offset xs = take (nat limit) (drop (nat offset) xs)"

fun get_definitions :: "int list \<Rightarrow> ('q, CouponDefinition list) coupon_tx" where
  "get_definitions [] = ret []"
| "get_definitions (i # is) = and_then (GetHistoricalDefinition i) (\<lambda>h. and_then (get_definitions is) (\<lambda>hs. ret (h # hs)))"

definition ListHistoricalDefinitions ::
  "int \<Rightarrow> int \<Rightarrow> ('q coupon_db, history_read_error, CouponDefinition list \<times> int) tx" where
  "ListHistoricalDefinitions limit offset =
     (if \<not> valid_page limit offset then fail ReadInvalid
      else read_page (\<lambda>db. and_then (get_definitions (page_of limit offset (sort (map xm_coupon (cp_markers db))))) (\<lambda>items.
        ret (items, int (length (cp_markers db)))) db))"

definition ListHistoricalClaims ::
  "int \<Rightarrow> int \<Rightarrow> int \<Rightarrow> ('q coupon_db, history_read_error, HistoricalClaim list \<times> int) tx" where
  "ListHistoricalClaims i limit offset =
     (if \<not> valid_page limit offset \<or> i < 1 then fail ReadInvalid
      else read_page (and_then (GetHistoricalDefinition i) (\<lambda>_ db.
        let cs = filter (\<lambda>c. hk_coupon c = i) (cp_old_claims db) in
        (Inr (page_of limit offset (sort_key hk_id cs), int (length cs)), db))))"

definition ListHistoricalRedemptions ::
  "int \<Rightarrow> int \<Rightarrow> int \<Rightarrow> ('q coupon_db, history_read_error, HistoricalRedemption list \<times> int) tx" where
  "ListHistoricalRedemptions i limit offset =
     (if \<not> valid_page limit offset \<or> i < 1 then fail ReadInvalid
      else read_page (and_then (GetHistoricalDefinition i) (\<lambda>_ db.
        let ms = filter (\<lambda>m. \<exists>c \<in> set (cp_old_claims db). hk_id c = hm_claim m \<and> hk_coupon c = i) (cp_old_redemptions db) in
        (Inr (page_of limit offset (sort_key hm_id ms), int (length ms)), db))))"

end
