(* ===== verification/CouponMachine.thy ===== *)
theory CouponMachine
  imports CouponRecords
begin

text \<open>
  The abstract machine of coupons: what one committed call can do to the coupons, their targets,
  claims and markers (\<open>coupon_core\<close>), as the relation \<open>coupon_change\<close>; the invariant of the
  machine, and what never changes once a coupon has left its draft.
\<close>

record coupon_core =
  ko_coupons :: "coupon_row list"
  ko_targets :: "coupon_target list"
  ko_total :: int
  ko_claims :: "CouponClaim list"
  ko_markers :: "coupon_marker list"
  ko_next :: int
  ko_next_claim :: int

definition core_of :: "'q coupon_db \<Rightarrow> coupon_core" where
  "core_of db = \<lparr>ko_coupons = cp_coupons db, ko_targets = cp_targets db, ko_total = cp_total db, ko_claims = cp_claims db,
     ko_markers = cp_markers db, ko_next = cp_next_coupon db, ko_next_claim = cp_next_claim db\<rparr>"

section \<open>Views of the core\<close>

definition row_of :: "int \<Rightarrow> coupon_core \<Rightarrow> coupon_row option" where
  "row_of i k = List.find (\<lambda>w. cw_id w = i) (ko_coupons k)"

definition put_row :: "coupon_row \<Rightarrow> coupon_core \<Rightarrow> coupon_core" where
  "put_row w k = k\<lparr>ko_coupons := map (\<lambda>w'. if cw_id w' = cw_id w then w else w') (ko_coupons k)\<rparr>"

definition rows_targets :: "int \<Rightarrow> coupon_core \<Rightarrow> coupon_target list" where
  "rows_targets i k = filter (\<lambda>t. xt_coupon t = i) (ko_targets k)"

definition rows_claims :: "int \<Rightarrow> coupon_core \<Rightarrow> CouponClaim list" where
  "rows_claims i k = filter (\<lambda>c. cc_coupon c = i) (ko_claims k)"

definition customers_claims :: "int \<Rightarrow> int \<Rightarrow> coupon_core \<Rightarrow> CouponClaim list" where
  "customers_claims i customer k = filter (\<lambda>c. cc_coupon c = i \<and> cc_customer c = customer) (ko_claims k)"

definition marked :: "int \<Rightarrow> coupon_core \<Rightarrow> bool" where
  "marked i k \<longleftrightarrow> i \<in> xm_coupon ` set (ko_markers k)"

text \<open>The rules that are frozen: all but the number of coupons.\<close>

definition frozen_rules :: "coupon_row \<Rightarrow> CouponRules" where
  "frozen_rules w = (cw_rules w)\<lparr>cu_total := 0\<rparr>"

definition coupon_move :: "(string \<times> string) set" where
  "coupon_move = {(''draft'', ''published''), (''published'', ''stopped''), (''draft'', ''archived''),
     (''published'', ''archived''), (''stopped'', ''archived'')}"

section \<open>The machine\<close>

text \<open>The columns that only the creation of a coupon writes.\<close>

definition same_coupon :: "coupon_row \<Rightarrow> coupon_row \<Rightarrow> bool" where
  "same_coupon w w' \<longleftrightarrow> cw_id w' = cw_id w \<and> cw_created_by w' = cw_created_by w \<and> cw_created w' = cw_created w"

inductive coupon_change :: "coupon_core \<Rightarrow> coupon_core \<Rightarrow> bool" where
  kept: "coupon_change k k"
| created: "coupon_change k (k\<lparr>ko_coupons := ko_coupons k @ [w], ko_targets := ko_targets k @ ts, ko_total := ko_total k + 1,
      ko_next := ko_next k + 1\<rparr>)"
  if "cw_id w = ko_next k" "cw_status w = ''draft''" "cw_issued w = 0" "coupon_row_ok w" "\<forall>t \<in> set ts. xt_coupon t = cw_id w"
| edited: "coupon_change k ((put_row w' k)\<lparr>ko_targets := ts\<rparr>)"
  if "row_of i k = Some w" "\<not> marked i k" "same_coupon w w'" "cw_status w' = cw_status w" "cw_issued w' = cw_issued w"
    "coupon_row_ok w'" "\<forall>j. j \<noteq> i \<longrightarrow> filter (\<lambda>t. xt_coupon t = j) ts = rows_targets j k"
    "if cw_issued w = 0 then cw_status w = ''draft'' \<and> (\<forall>t \<in> set ts. t \<notin> set (ko_targets k) \<longrightarrow> xt_coupon t = i)
     else ts = ko_targets k \<and> frozen_rules w' = frozen_rules w \<and> cu_total (cw_rules w) \<le> cu_total (cw_rules w')"
| moved: "coupon_change k (put_row w' k)"
  if "row_of i k = Some w" "same_coupon w w'" "cw_rules w' = cw_rules w" "cw_issued w' = cw_issued w"
    "coupon_row_ok w'" "(cw_status w, cw_status w') \<in> coupon_move" "marked i k \<longrightarrow> cw_status w' = ''archived''"
| removed: "coupon_change k (k\<lparr>ko_coupons := filter (\<lambda>w. cw_id w \<noteq> i) (ko_coupons k),
      ko_targets := filter (\<lambda>t. xt_coupon t \<noteq> i) (ko_targets k), ko_total := ko_total k - 1\<rparr>)"
  if "row_of i k = Some w" "cw_status w = ''draft''" "cw_issued w = 0" "rows_claims i k = []" "\<not> marked i k"
| claimed: "coupon_change k ((put_row w' k)\<lparr>ko_claims := ko_claims k @ [c], ko_next_claim := ko_next_claim k + 1\<rparr>)"
  if "row_of i k = Some w" "cw_status w = ''published''" "cw_issued w < cu_total (cw_rules w)"
    "int (length (customers_claims i customer k)) < cu_per_user (cw_rules w)"
    "same_coupon w w'" "cw_rules w' = cw_rules w" "cw_status w' = cw_status w" "cw_issued w' = cw_issued w + 1" "coupon_row_ok w'"
    "cc_id c = ko_next_claim k" "cc_coupon c = i" "cc_customer c = customer" "0 < customer"
    "cc_number c = int (length (customers_claims i customer k)) + 1" "cc_ref c \<notin> cc_ref ` set (ko_claims k)"
| imported: "coupon_change k (k\<lparr>ko_coupons := ko_coupons k @ [w], ko_targets := ko_targets k @ ts, ko_total := ko_total k + 1,
      ko_markers := ko_markers k @ [m], ko_next := ko_next k + 1\<rparr>)"
  if "cw_id w = ko_next k" "cw_status w = ''archived''" "coupon_row_ok w" "\<forall>t \<in> set ts. xt_coupon t = cw_id w" "xm_coupon m = cw_id w"

section \<open>The invariant\<close>

definition numbered :: "CouponClaim list \<Rightarrow> bool" where
  "numbered cs \<longleftrightarrow> map cc_number cs = map (\<lambda>n. int n + 1) [0..<length cs]"

definition core_keys :: "coupon_core \<Rightarrow> bool" where
  "core_keys k \<longleftrightarrow> distinct (map cw_id (ko_coupons k)) \<and>
     (\<forall>w \<in> set (ko_coupons k). coupon_row_ok w \<and> 0 < cw_id w \<and> cw_id w < ko_next k) \<and> 0 < ko_next k \<and>
     ko_total k = int (length (ko_coupons k)) \<and> (\<forall>t \<in> set (ko_targets k). xt_coupon t < ko_next k) \<and>
     (\<forall>m \<in> set (ko_markers k). xm_coupon m < ko_next k)"

definition core_claims :: "coupon_core \<Rightarrow> bool" where
  "core_claims k \<longleftrightarrow>
     (\<forall>c \<in> set (ko_claims k). row_of (cc_coupon c) k \<noteq> None \<and> cc_id c < ko_next_claim k) \<and>
     distinct (map cc_ref (ko_claims k)) \<and> distinct (map cc_id (ko_claims k)) \<and> 0 < ko_next_claim k"

text \<open>An imported coupon keeps the number of its former claims, which are not there.\<close>

definition row_counts :: "coupon_core \<Rightarrow> coupon_row \<Rightarrow> bool" where
  "row_counts k w \<longleftrightarrow>
     (if marked (cw_id w) k then cw_status w = ''archived'' \<and> rows_claims (cw_id w) k = []
      else cw_issued w = int (length (rows_claims (cw_id w) k)) \<and> (cw_status w = ''draft'' \<longrightarrow> cw_issued w = 0)) \<and>
     (\<forall>customer. numbered (customers_claims (cw_id w) customer k) \<and>
        int (length (customers_claims (cw_id w) customer k)) \<le> cu_per_user (cw_rules w))"

definition core_ok :: "coupon_core \<Rightarrow> bool" where
  "core_ok k \<longleftrightarrow> core_keys k \<and> core_claims k \<and> (\<forall>w \<in> set (ko_coupons k). row_counts k w)"

lemma row_of_Some: "row_of i k = Some w \<Longrightarrow> w \<in> set (ko_coupons k) \<and> cw_id w = i"
  by (auto simp: row_of_def find_Some_iff)

lemma row_of_in: "distinct (map cw_id (ko_coupons k)) \<Longrightarrow> w \<in> set (ko_coupons k) \<Longrightarrow> row_of (cw_id w) k = Some w"
proof (cases "row_of (cw_id w) k")
  case None
  moreover assume "w \<in> set (ko_coupons k)"
  ultimately show ?thesis by (auto simp: row_of_def find_None_iff)
next
  case (Some v)
  assume "distinct (map cw_id (ko_coupons k))" "w \<in> set (ko_coupons k)"
  with row_of_Some [OF Some] show ?thesis using Some by (auto simp: distinct_map dest: inj_onD)
qed

lemma row_of_new: "\<forall>w \<in> set (ko_coupons k). cw_id w < n \<Longrightarrow> n \<le> i \<Longrightarrow> row_of i k = None"
  by (auto simp: row_of_def find_None_iff)

lemma row_of_put: "row_of i (put_row w k) = (if i = cw_id w \<and> row_of i k \<noteq> None then Some w else row_of i k)"
proof -
  have "List.find (\<lambda>v. cw_id v = i) (map (\<lambda>v. if cw_id v = cw_id w then w else v) xs) =
      (if i = cw_id w \<and> List.find (\<lambda>v. cw_id v = i) xs \<noteq> None then Some w else List.find (\<lambda>v. cw_id v = i) xs)" for xs
    by (induction xs) auto
  then show ?thesis by (cases "i = cw_id w") (auto simp: row_of_def put_row_def)
qed

lemma ids_put: "map cw_id (ko_coupons (put_row w k)) = map cw_id (ko_coupons k)"
  by (auto simp: put_row_def)

lemma rows_put:
  assumes "v \<in> set (ko_coupons (put_row w k))"
  shows "v = w \<or> v \<in> set (ko_coupons k) \<and> cw_id v \<noteq> cw_id w"
  using assms by (auto simp: put_row_def split: if_splits)

lemma put_row_fields [simp]:
  "ko_targets (put_row w k) = ko_targets k" "ko_total (put_row w k) = ko_total k" "ko_claims (put_row w k) = ko_claims k"
  "ko_markers (put_row w k) = ko_markers k" "ko_next (put_row w k) = ko_next k" "ko_next_claim (put_row w k) = ko_next_claim k"
  "length (ko_coupons (put_row w k)) = length (ko_coupons k)"
  by (simp_all add: put_row_def)

section \<open>The invariant is kept\<close>

lemma core_okD:
  assumes "core_ok k" and "row_of i k = Some w"
  shows "coupon_row_ok w" and "0 < i" and "i < ko_next k" and "row_counts k w"
  using assms row_of_Some [OF assms(2)] unfolding core_ok_def core_keys_def by blast+

lemma views_put [simp]:
  "marked i (put_row w k) = marked i k" "rows_claims i (put_row w k) = rows_claims i k"
  "customers_claims i c (put_row w k) = customers_claims i c k" "row_counts (put_row w k) v = row_counts k v"
  by (simp_all add: marked_def rows_claims_def customers_claims_def row_counts_def)

lemma core_keys_put:
  assumes ok: "core_keys k" and at: "row_of (cw_id w) k = Some v" and row: "coupon_row_ok w"
  shows "core_keys (put_row w k)"
proof -
  have id: "0 < cw_id w \<and> cw_id w < ko_next k" using row_of_Some [OF at] ok by (auto simp: core_keys_def)
  have "\<forall>x \<in> set (ko_coupons (put_row w k)). coupon_row_ok x \<and> 0 < cw_id x \<and> cw_id x < ko_next k"
  proof
    fix x assume "x \<in> set (ko_coupons (put_row w k))"
    then consider "x = w" | "x \<in> set (ko_coupons k)" using rows_put by blast
    then show "coupon_row_ok x \<and> 0 < cw_id x \<and> cw_id x < ko_next k"
      by cases (use id row ok in \<open>simp_all add: core_keys_def\<close>)
  qed
  then show ?thesis using ok unfolding core_keys_def ids_put put_row_fields by blast
qed

lemma core_claims_put: "core_claims k \<Longrightarrow> core_claims (put_row w k)"
  by (simp add: core_claims_def row_of_put)

text \<open>A change of one row keeps the invariant when its facts about the row do.\<close>

lemma core_ok_put:
  assumes ok: "core_ok k" and at: "row_of (cw_id w) k = Some v" and row: "coupon_row_ok w" and counts: "row_counts k w"
  shows "core_ok (put_row w k)"
proof -
  have "\<forall>x \<in> set (ko_coupons (put_row w k)). row_counts k x"
    using rows_put counts ok unfolding core_ok_def by blast
  then show ?thesis
    using core_keys_put [OF _ at row] core_claims_put ok unfolding core_ok_def by simp
qed

lemma row_counts_cong:
  assumes "marked (cw_id w) k' = marked (cw_id w) k" and "rows_claims (cw_id w) k' = rows_claims (cw_id w) k"
    and "\<And>c. customers_claims (cw_id w) c k' = customers_claims (cw_id w) c k"
  shows "row_counts k' w = row_counts k w"
  using assms by (simp add: row_counts_def)

lemma counts_same:
  assumes "row_counts k w" and "same_coupon w w'" and "cw_issued w' = cw_issued w"
    and "cu_per_user (cw_rules w') = cu_per_user (cw_rules w)"
    and "marked (cw_id w) k \<longrightarrow> cw_status w' = ''archived''" and "cw_status w' = ''draft'' \<longrightarrow> cw_status w = ''draft''"
  shows "row_counts k w'"
  using assms unfolding row_counts_def same_coupon_def by (auto split: if_splits)

text \<open>A coupon without claims may change its rules.\<close>

lemma counts_unclaimed:
  assumes "row_counts k w" and "same_coupon w w'" and "cw_issued w = 0" and "cw_issued w' = 0"
    and "\<not> marked (cw_id w) k" and "coupon_row_ok w'"
  shows "row_counts k w'"
proof -
  have "rows_claims (cw_id w) k = []" using assms(1,3,5) unfolding row_counts_def by simp
  then have "customers_claims (cw_id w) c k = []" for c
    by (auto simp: rows_claims_def customers_claims_def filter_empty_conv)
  moreover have "0 < cu_per_user (cw_rules w')" using assms(6) by (simp add: coupon_row_ok_def Let_def)
  ultimately show ?thesis
    using assms \<open>rows_claims (cw_id w) k = []\<close> unfolding row_counts_def same_coupon_def by (simp add: numbered_def)
qed

text \<open>A new coupon has no claims, and a removed one had none.\<close>

lemma no_claims_beyond:
  assumes "core_ok k" and "ko_next k \<le> i"
  shows "rows_claims i k = []" and "customers_claims i c k = []" and "\<not> marked i k" and "row_of i k = None"
proof -
  have "\<forall>w \<in> set (ko_coupons k). cw_id w < i" using assms by (force simp: core_ok_def core_keys_def)
  then show none: "row_of i k = None" by (auto simp: row_of_def find_None_iff)
  have "cc_coupon x \<noteq> i" if "x \<in> set (ko_claims k)" for x
    using assms that none by (auto simp: core_ok_def core_claims_def)
  then show "rows_claims i k = []" "customers_claims i c k = []"
    by (auto simp: rows_claims_def customers_claims_def filter_empty_conv)
  show "\<not> marked i k" using assms by (force simp: core_ok_def core_keys_def marked_def)
qed

lemma core_ok_add:
  assumes ok: "core_ok k" and id: "cw_id w = ko_next k" and row: "coupon_row_ok w"
    and ts: "\<forall>t \<in> set ts. xt_coupon t = cw_id w" and ms: "\<forall>m \<in> set ms. xm_coupon m = cw_id w"
    and kind: "if ms = [] then cw_issued w = 0 else cw_status w = ''archived''"
  shows "core_ok (k\<lparr>ko_coupons := ko_coupons k @ [w], ko_targets := ko_targets k @ ts, ko_total := ko_total k + 1,
    ko_markers := ko_markers k @ ms, ko_next := ko_next k + 1\<rparr>)" (is "core_ok ?k")
proof -
  note new = no_claims_beyond [OF ok order_refl]
  have keys: "core_keys ?k" using ok id row ts ms by (fastforce simp: core_ok_def core_keys_def)
  have rows: "row_of i ?k = (case row_of i k of None \<Rightarrow> if i = cw_id w then Some w else None | Some v \<Rightarrow> Some v)" for i
    by (simp add: row_of_def find_append split: option.split)
  have claims: "core_claims ?k" using ok by (fastforce simp: core_ok_def core_claims_def rows split: option.splits)
  have same: "rows_claims i ?k = rows_claims i k" "customers_claims i c ?k = customers_claims i c k" for i c
    by (simp_all add: rows_claims_def customers_claims_def)
  have marks: "marked i ?k \<longleftrightarrow> marked i k \<or> (ms \<noteq> [] \<and> i = cw_id w)" for i
    using ms by (cases ms) (auto simp: marked_def)
  have "row_counts ?k w"
    using new kind row unfolding row_counts_def same marks id by (auto simp: numbered_def coupon_row_ok_def Let_def)
  moreover have "row_counts ?k v" if "v \<in> set (ko_coupons k)" for v
  proof -
    have "cw_id v \<noteq> cw_id w" using ok that id by (auto simp: core_ok_def core_keys_def)
    moreover have "row_counts k v" using ok that by (simp add: core_ok_def)
    ultimately show ?thesis unfolding row_counts_def same marks by auto
  qed
  ultimately show ?thesis using keys claims unfolding core_ok_def by simp
qed

lemma length_without:
  "distinct (map f xs) \<Longrightarrow> x \<in> set xs \<Longrightarrow> length (filter (\<lambda>y. f y \<noteq> f x) xs) = length xs - 1"
proof (induction xs)
  case (Cons a xs)
  show ?case
  proof (cases "x = a")
    case True
    have "filter (\<lambda>y. f y \<noteq> f a) xs = xs" by (rule filter_True) (use Cons.prems(1) in \<open>auto simp: image_iff\<close>)
    with True show ?thesis by simp
  next
    case False
    then have "x \<in> set xs" using Cons.prems(2) by simp
    moreover from this have "f x \<noteq> f a" using Cons.prems(1) by (auto simp: image_iff)
    moreover have "length xs \<noteq> 0" using \<open>x \<in> set xs\<close> by auto
    ultimately show ?thesis using Cons by auto
  qed
qed simp

lemma core_ok_remove:
  assumes ok: "core_ok k" and at: "row_of i k = Some w" and none: "rows_claims i k = []"
  shows "core_ok (k\<lparr>ko_coupons := filter (\<lambda>w. cw_id w \<noteq> i) (ko_coupons k),
      ko_targets := filter (\<lambda>t. xt_coupon t \<noteq> i) (ko_targets k), ko_total := ko_total k - 1\<rparr>)" (is "core_ok ?k")
proof -
  have w: "w \<in> set (ko_coupons k)" "cw_id w = i" using row_of_Some [OF at] by auto
  have dist: "distinct (map cw_id (ko_coupons k))" using ok by (simp add: core_ok_def core_keys_def)
  have len: "length (filter (\<lambda>w. cw_id w \<noteq> i) (ko_coupons k)) = length (ko_coupons k) - 1" "0 < length (ko_coupons k)"
    using length_without [OF dist w(1)] w by (auto simp: length_pos_if_in_set)
  have "int (length (ko_coupons k) - 1) = int (length (ko_coupons k)) - 1" using len(2) by linarith
  then have keys: "core_keys ?k" using ok dist len(1)
    by (simp add: core_ok_def core_keys_def distinct_map_filter)
  have rows: "row_of j ?k = row_of j k" if "j \<noteq> i" for j
    using that by (simp add: row_of_def) (rule find_filter_same; simp)
  have "cc_coupon c \<noteq> i" if "c \<in> set (ko_claims k)" for c
    using none that by (auto simp: rows_claims_def filter_empty_conv)
  then have claims: "core_claims ?k" using ok rows by (fastforce simp: core_ok_def core_claims_def)
  have same: "rows_claims j ?k = rows_claims j k" "customers_claims j c ?k = customers_claims j c k" "marked j ?k = marked j k" for j c
    by (simp_all add: rows_claims_def customers_claims_def marked_def)
  have "row_counts ?k v = row_counts k v" for v by (rule row_counts_cong) (fact same)+
  then show ?thesis using ok keys claims unfolding core_ok_def by simp
qed

section \<open>Every change keeps the invariant\<close>

lemma numbered_snoc:
  "numbered cs \<Longrightarrow> cc_number c = int (length cs) + 1 \<Longrightarrow> numbered (cs @ [c])"
  by (simp add: numbered_def)

lemma core_ok_claim:
  assumes ok: "core_ok k" and at: "row_of i k = Some w" and c: "cc_id c = ko_next_claim k" "cc_coupon c = i" "cc_customer c = customer"
      "cc_number c = int (length (customers_claims i customer k)) + 1" "cc_ref c \<notin> cc_ref ` set (ko_claims k)"
    and room: "int (length (customers_claims i customer k)) < cu_per_user (cw_rules w)" "cw_status w = ''published''"
    and w': "same_coupon w w'" "cw_rules w' = cw_rules w" "cw_status w' = cw_status w" "cw_issued w' = cw_issued w + 1" "coupon_row_ok w'"
  shows "core_ok ((put_row w' k)\<lparr>ko_claims := ko_claims k @ [c], ko_next_claim := ko_next_claim k + 1\<rparr>)" (is "core_ok ?k")
proof -
  have w: "cw_id w = i" "w \<in> set (ko_coupons k)" using row_of_Some [OF at] by auto
  have id: "cw_id w' = i" using w w'(1) by (simp add: same_coupon_def)
  have put: "core_keys (put_row w' k)" "core_claims (put_row w' k)"
    using core_keys_put [of k w' w] core_claims_put ok at id w' by (auto simp: core_ok_def)
  have keys: "core_keys ?k" using put by (simp add: core_keys_def)
  have rows: "row_of j ?k = row_of j (put_row w' k)" for j by (simp add: row_of_def)
  have claims: "core_claims ?k"
    using put(2) c at id unfolding core_claims_def rows by (auto simp: row_of_put)
  have marks: "marked j ?k = marked j k" for j by (simp add: marked_def)
  have cl: "rows_claims j ?k = rows_claims j k @ (if j = i then [c] else [])"
    "customers_claims j u ?k = customers_claims j u k @ (if j = i \<and> u = customer then [c] else [])" for j u
    using c by (auto simp: rows_claims_def customers_claims_def)
  have counts: "row_counts k w" using ok w by (simp add: core_ok_def)
  have unmarked: "\<not> marked i k" using counts room(2) w by (auto simp: row_counts_def)
  have "row_counts ?k w'"
    using counts unmarked c room w' unfolding row_counts_def marks cl id w(1) by (auto intro: numbered_snoc)
  moreover have "row_counts ?k v" if "v \<in> set (ko_coupons k)" "cw_id v \<noteq> i" for v
  proof -
    have "row_counts k v" using ok that by (simp add: core_ok_def)
    then show ?thesis using that(2) unfolding row_counts_def marks cl by auto
  qed
  ultimately have "\<forall>v \<in> set (ko_coupons ?k). row_counts ?k v"
    using rows_put [of _ w' k] id by auto
  then show ?thesis using keys claims by (simp add: core_ok_def)
qed

theorem coupon_change_ok: "coupon_change k k' \<Longrightarrow> core_ok k \<Longrightarrow> core_ok k'"
proof (induction rule: coupon_change.induct)
  case (created w k ts)
  show ?case using core_ok_add [OF created(6,1,4,5), of "[]"] created(3) by simp
next
  case (edited i k w w' ts)
  have ok: "core_ok (put_row w' k)"
  proof (rule core_ok_put [where v = w])
    show "row_of (cw_id w') k = Some w" using edited(1,3) row_of_Some [OF edited(1)] by (simp add: same_coupon_def)
    have counts: "row_counts k w" using core_okD(4) edited by blast
    have id: "cw_id w = i" using row_of_Some [OF edited(1)] by simp
    show "row_counts k w'"
    proof (cases "cw_issued w = 0")
      case True
      show ?thesis by (rule counts_unclaimed [OF counts edited(3)]) (use True edited id in simp_all)
    next
      case False
      then have "frozen_rules w' = frozen_rules w" using edited(8) by simp
      then have "cu_per_user (cw_rules w') = cu_per_user (cw_rules w)" by (cases "cw_rules w'"; cases "cw_rules w") (simp add: frozen_rules_def)
      then show ?thesis using counts_same [OF counts edited(3)] edited id by simp
    qed
  qed (use edited in simp_all)
  have "\<forall>t \<in> set ts. xt_coupon t < ko_next k"
  proof
    fix t assume t: "t \<in> set ts"
    show "xt_coupon t < ko_next k"
    proof (cases "xt_coupon t = i")
      case True
      then show ?thesis using core_okD(3) [OF edited(9,1)] by simp
    next
      case False
      have "t \<in> set (filter (\<lambda>s. xt_coupon s = xt_coupon t) ts)" using t by simp
      then have "t \<in> set (rows_targets (xt_coupon t) k)" using edited(7) False by metis
      then show ?thesis using edited(9) by (simp add: rows_targets_def core_ok_def core_keys_def)
    qed
  qed
  then have keys: "core_keys ((put_row w' k)\<lparr>ko_targets := ts\<rparr>)" using ok by (simp add: core_ok_def core_keys_def)
  have claims: "core_claims ((put_row w' k)\<lparr>ko_targets := ts\<rparr>)" using ok by (simp add: core_ok_def core_claims_def row_of_def)
  have "row_counts ((put_row w' k)\<lparr>ko_targets := ts\<rparr>) v = row_counts (put_row w' k) v" for v
    by (rule row_counts_cong) (simp_all add: marked_def rows_claims_def customers_claims_def)
  then show ?case using ok keys claims by (simp add: core_ok_def)
next
  case (moved i k w w')
  have w: "cw_id w = i" using row_of_Some [OF moved(1)] by simp
  have "row_counts k w" using core_okD(4) moved by blast
  moreover have "cw_status w' \<noteq> ''draft''" using moved(6) by (auto simp: coupon_move_def)
  ultimately have "row_counts k w'" using counts_same [of k w w'] moved w by simp
  moreover have "row_of (cw_id w') k = Some w" using moved(1,2) w by (simp add: same_coupon_def)
  ultimately show ?case using core_ok_put moved by blast
next
  case (removed i k w)
  then show ?case using core_ok_remove by blast
next
  case (claimed i k w customer w' c)
  show ?case by (rule core_ok_claim [OF claimed(16) claimed(1)]) (use claimed in simp_all)
next
  case (imported w k ts m)
  show ?case using core_ok_add [OF imported(6,1,3,4), of "[m]"] imported by simp
qed

section \<open>What lasts\<close>

text \<open>
  What a change does to the rows and claims that were there: a coupon keeps its creator; once it is
  no draft it stays, its status only moves forward, its targets and its rules are frozen but for the
  number of coupons, which only grows; an imported coupon does not change at all; the claims and
  markers stay; identifiers are not given again.
\<close>

definition row_lasts :: "coupon_core \<Rightarrow> coupon_core \<Rightarrow> coupon_row \<Rightarrow> coupon_row \<Rightarrow> bool" where
  "row_lasts k k' w w' \<longleftrightarrow> same_coupon w w' \<and> cw_issued w \<le> cw_issued w' \<and> (cw_status w, cw_status w') \<in> coupon_move\<^sup>* \<and>
     (cw_status w \<noteq> ''draft'' \<longrightarrow> frozen_rules w' = frozen_rules w \<and> cu_total (cw_rules w) \<le> cu_total (cw_rules w') \<and>
        rows_targets (cw_id w) k' = rows_targets (cw_id w) k) \<and> (marked (cw_id w) k \<longrightarrow> w' = w)"

definition rows_last :: "coupon_core \<Rightarrow> coupon_core \<Rightarrow> bool" where
  "rows_last k k' \<longleftrightarrow> (\<forall>i w. row_of i k = Some w \<longrightarrow> (case row_of i k' of
     None \<Rightarrow> cw_status w = ''draft'' \<and> rows_claims i k = [] | Some w' \<Rightarrow> row_lasts k k' w w'))"

definition core_lasts :: "coupon_core \<Rightarrow> coupon_core \<Rightarrow> bool" where
  "core_lasts k k' \<longleftrightarrow> rows_last k k' \<and> ko_next k \<le> ko_next k' \<and>
     (\<forall>i < ko_next k. row_of i k = None \<longrightarrow> row_of i k' = None) \<and>
     (\<exists>cs. ko_claims k' = ko_claims k @ cs) \<and> (\<exists>ms. ko_markers k' = ko_markers k @ ms)"

lemma marked_lasts: "core_lasts k k' \<Longrightarrow> marked i k \<Longrightarrow> marked i k'"
  by (auto simp: core_lasts_def marked_def)

lemma row_lasts_refl: "row_lasts k k w w"
  by (simp add: row_lasts_def same_coupon_def)

lemma not_draft_again: "(s, t) \<in> coupon_move\<^sup>* \<Longrightarrow> s \<noteq> ''draft'' \<Longrightarrow> t \<noteq> ''draft''"
  by (induction rule: rtrancl_induct) (auto simp: coupon_move_def)

lemma row_lasts_trans:
  assumes ab: "row_lasts a b u v" and bc: "row_lasts b c v w" and mark: "marked (cw_id u) a \<Longrightarrow> marked (cw_id u) b"
  shows "row_lasts a c u w"
proof -
  have m: "(cw_status u, cw_status v) \<in> coupon_move\<^sup>*" "(cw_status v, cw_status w) \<in> coupon_move\<^sup>*"
    using ab bc by (simp_all add: row_lasts_def)
  have "cw_status u \<noteq> ''draft'' \<Longrightarrow> cw_status v \<noteq> ''draft''" using not_draft_again [OF m(1)] by simp
  moreover have "marked (cw_id u) a \<Longrightarrow> w = u" using ab bc mark unfolding row_lasts_def by auto
  ultimately show ?thesis using ab bc rtrancl_trans [OF m] unfolding row_lasts_def same_coupon_def by auto
qed

lemma rows_last_put:
  assumes at: "row_of i k = Some w" and same: "same_coupon w w'"
    and lasts: "row_lasts k k' w w'" and rows: "\<And>j. row_of j k' = row_of j (put_row w' k)"
    and others: "\<And>j. j \<noteq> i \<Longrightarrow> rows_targets j k' = rows_targets j k"
  shows "rows_last k k'"
proof -
  have id: "cw_id w = i" "cw_id w' = i" using row_of_Some [OF at] same by (simp_all add: same_coupon_def)
  have "row_lasts k k' v v" if "row_of j k = Some v" "j \<noteq> i" for j v
    using row_lasts_refl [of k v] others [of j] row_of_Some [OF that(1)] that by (simp add: row_lasts_def)
  then show ?thesis using at lasts id by (auto simp: rows_last_def rows row_of_put split: option.split)
qed

lemma core_lasts_trans:
  assumes ab: "core_lasts a b" and bc: "core_lasts b c" and ok: "core_ok a"
  shows "core_lasts a c"
proof -
  have "rows_last a c" unfolding rows_last_def
  proof (intro allI impI)
    fix i u assume u: "row_of i a = Some u"
    have i: "i < ko_next a" using core_okD(3) [OF ok u] .
    show "case row_of i c of None \<Rightarrow> cw_status u = ''draft'' \<and> rows_claims i a = [] | Some w \<Rightarrow> row_lasts a c u w"
    proof (cases "row_of i b")
      case None
      then have "row_of i c = None" using bc ab i unfolding core_lasts_def by simp
      moreover have "cw_status u = ''draft'' \<and> rows_claims i a = []"
        using ab u None unfolding core_lasts_def rows_last_def by (metis option.simps(4))
      ultimately show ?thesis by simp
    next
      case (Some v)
      then have uv: "row_lasts a b u v" using ab u unfolding core_lasts_def rows_last_def by (metis option.simps(5))
      show ?thesis
      proof (cases "row_of i c")
        case None
        then have v: "cw_status v = ''draft''" "rows_claims i b = []"
          using bc Some unfolding core_lasts_def rows_last_def by (metis option.simps(4))+
        have "cw_status u = ''draft''" using uv v(1) not_draft_again unfolding row_lasts_def by blast
        moreover have "rows_claims i a = []" using v(2) ab by (auto simp: core_lasts_def rows_claims_def)
        ultimately show ?thesis using None by simp
      next
        case w: (Some w)
        then have "row_lasts b c v w" using bc Some unfolding core_lasts_def rows_last_def by (metis option.simps(5))
        then show ?thesis using row_lasts_trans [OF uv] marked_lasts [OF ab] w by simp
      qed
    qed
  qed
  moreover have "\<exists>cs. ko_claims c = ko_claims a @ cs" "\<exists>ms. ko_markers c = ko_markers a @ ms" using ab bc by (auto simp: core_lasts_def)
  ultimately show ?thesis using ab bc unfolding core_lasts_def by auto
qed

lemma core_lasts_put:
  assumes "row_of i k = Some w" "same_coupon w w'" "row_lasts k k' w w'" "\<And>j. row_of j k' = row_of j (put_row w' k)"
    "\<And>j. j \<noteq> i \<Longrightarrow> rows_targets j k' = rows_targets j k" "ko_next k' = ko_next k" "ko_claims k' = ko_claims k @ cs" "ko_markers k' = ko_markers k"
  shows "core_lasts k k'"
  using rows_last_put [OF assms(1-5)] assms(6-8) row_of_put [of _ w' k] by (simp add: core_lasts_def assms(4))

lemma core_lasts_add:
  assumes ok: "core_ok k" and id: "cw_id w = ko_next k" and ts: "\<forall>t \<in> set ts. xt_coupon t = cw_id w"
    and rows: "ko_coupons k' = ko_coupons k @ [w]" "ko_targets k' = ko_targets k @ ts" "ko_next k' = ko_next k + 1"
      "ko_claims k' = ko_claims k" "ko_markers k' = ko_markers k @ ms"
  shows "core_lasts k k'"
proof -
  have found: "row_of i k' = (case row_of i k of None \<Rightarrow> if i = cw_id w then Some w else None | Some v \<Rightarrow> Some v)" for i
    by (simp add: row_of_def find_append rows split: option.split)
  have "row_lasts k k' v v" if v: "row_of i k = Some v" for i v
  proof -
    have "cw_id v \<noteq> cw_id w" using core_okD(3) [OF ok v] row_of_Some [OF v] id by simp
    then have "filter (\<lambda>t. xt_coupon t = cw_id v) ts = []" using ts by (auto simp: filter_empty_conv)
    then show ?thesis using row_lasts_refl [of k v] by (simp add: row_lasts_def rows_targets_def rows)
  qed
  then show ?thesis by (auto simp: core_lasts_def rows_last_def found rows id split: option.splits)
qed

theorem coupon_change_lasts: "coupon_change k k' \<Longrightarrow> core_ok k \<Longrightarrow> core_lasts k k'"
proof (induction rule: coupon_change.induct)
  case (kept k)
  show ?case by (auto simp: core_lasts_def rows_last_def row_lasts_refl split: option.split)
next
  case (created w k ts)
  then show ?case using core_lasts_add [of k w ts] by simp
next
  case (edited i k w w' ts)
  have id: "cw_id w = i" using row_of_Some [OF edited(1)] by simp
  show ?case
  proof (rule core_lasts_put [OF edited(1,3)])
    have "row_counts k w" using core_okD(4) edited by blast
    then have drafts: "cw_status w \<noteq> ''draft'' \<Longrightarrow> cw_issued w \<noteq> 0" using edited(8) by auto
    show "row_lasts k ((put_row w' k)\<lparr>ko_targets := ts\<rparr>) w w'"
      using edited drafts id by (simp add: row_lasts_def rows_targets_def)
  qed (use edited(7) in \<open>simp_all add: row_of_def rows_targets_def\<close>)
next
  case (moved i k w w')
  have "row_counts k w" using core_okD(4) moved by blast
  then have "\<not> marked (cw_id w) k" using moved(6) by (auto simp: row_counts_def coupon_move_def)
  then have "row_lasts k (put_row w' k) w w'"
    using moved by (auto simp: row_lasts_def frozen_rules_def rows_targets_def)
  then show ?case using core_lasts_put [OF moved(1,2), of "put_row w' k"] by (simp add: rows_targets_def)
next
  case (removed i k w)
  let ?k = "k\<lparr>ko_coupons := filter (\<lambda>w. cw_id w \<noteq> i) (ko_coupons k), ko_targets := filter (\<lambda>t. xt_coupon t \<noteq> i) (ko_targets k),
      ko_total := ko_total k - 1\<rparr>"
  have rows: "row_of j ?k = (if j = i then None else row_of j k)" for j
    by (auto simp: row_of_def find_None_iff intro: find_filter_same)
  have "row_lasts k ?k v v" if "row_of j k = Some v" "j \<noteq> i" for j v
    using row_lasts_refl [of k v] row_of_Some [OF that(1)] that(2)
    by (auto simp: row_lasts_def rows_targets_def intro: filter_cong)
  then show ?case using removed by (auto simp: core_lasts_def rows_last_def rows split: option.split)
next
  case (claimed i k w customer w' c)
  let ?k = "(put_row w' k)\<lparr>ko_claims := ko_claims k @ [c], ko_next_claim := ko_next_claim k + 1\<rparr>"
  have "row_counts k w" using core_okD(4) [OF claimed(16,1)] .
  then have "\<not> marked (cw_id w) k" using claimed(2) by (auto simp: row_counts_def)
  then have "row_lasts k ?k w w'"
    using claimed by (simp add: row_lasts_def frozen_rules_def rows_targets_def)
  then show ?case using core_lasts_put [OF claimed(1,5), of ?k] by (simp add: row_of_def rows_targets_def)
next
  case (imported w k ts m)
  then show ?case using core_lasts_add [of k w ts] by simp
qed

lemma changes_last: "coupon_change\<^sup>*\<^sup>* k k' \<Longrightarrow> core_ok k \<Longrightarrow> core_ok k' \<and> core_lasts k k'"
proof (induction rule: rtranclp_induct)
  case base
  then show ?case using coupon_change_lasts [OF kept] by simp
next
  case (step y z)
  then show ?case using coupon_change_ok coupon_change_lasts core_lasts_trans by blast
qed

end
