(* ===== verification/CouponFacts.thy ===== *)
theory CouponFacts
  imports CouponMachine
begin

text \<open>
  What the operations of the coupon store do when they succeed, as changes of the abstract core,
  and what a call with a receipt does.
\<close>

section \<open>The core of a database\<close>

lemma core_of_sel [simp]:
  "ko_coupons (core_of db) = cp_coupons db" "ko_targets (core_of db) = cp_targets db" "ko_total (core_of db) = cp_total db"
  "ko_claims (core_of db) = cp_claims db" "ko_markers (core_of db) = cp_markers db" "ko_next (core_of db) = cp_next_coupon db"
  "ko_next_claim (core_of db) = cp_next_claim db"
  by (simp_all add: core_of_def)

lemma core_of_upd [simp]:
  "core_of (db\<lparr>cp_receipts := rs\<rparr>) = core_of db" "core_of (db\<lparr>cp_next_receipt := n\<rparr>) = core_of db"
  "core_of (db\<lparr>cp_events := l\<rparr>) = core_of db" "core_of (db\<lparr>cp_sessions := ks\<rparr>) = core_of db" "core_of (db\<lparr>cp_grants := ks\<rparr>) = core_of db"
  "core_of (db\<lparr>cp_coupons := ws\<rparr>) = (core_of db)\<lparr>ko_coupons := ws\<rparr>" "core_of (db\<lparr>cp_targets := ts\<rparr>) = (core_of db)\<lparr>ko_targets := ts\<rparr>"
  "core_of (db\<lparr>cp_total := x\<rparr>) = (core_of db)\<lparr>ko_total := x\<rparr>" "core_of (db\<lparr>cp_claims := cs\<rparr>) = (core_of db)\<lparr>ko_claims := cs\<rparr>"
  "core_of (db\<lparr>cp_markers := xs\<rparr>) = (core_of db)\<lparr>ko_markers := xs\<rparr>" "core_of (db\<lparr>cp_next_coupon := n\<rparr>) = (core_of db)\<lparr>ko_next := n\<rparr>"
  "core_of (db\<lparr>cp_next_claim := n\<rparr>) = (core_of db)\<lparr>ko_next_claim := n\<rparr>"
  "core_of (db\<lparr>cp_old_claims := hs\<rparr>) = core_of db" "core_of (db\<lparr>cp_old_redemptions := ms\<rparr>) = core_of db"
  "core_of (db\<lparr>cp_next_old_claim := n\<rparr>) = core_of db" "core_of (db\<lparr>cp_next_old_redemption := n\<rparr>) = core_of db"
  by (simp_all add: core_of_def)

lemma find_row: "find_coupon i db = row_of i (core_of db)"
  by (simp add: find_coupon_def row_of_def)

lemma claims_rows: "claims_of i u db = customers_claims i u (core_of db)"
  by (simp add: claims_of_def customers_claims_def)

text \<open>The parts that the operations on coupons leave alone.\<close>

definition same_records :: "'q coupon_db \<Rightarrow> 'q coupon_db \<Rightarrow> bool" where
  "same_records db db' \<longleftrightarrow> cp_old_claims db' = cp_old_claims db \<and> cp_old_redemptions db' = cp_old_redemptions db \<and>
     cp_next_old_claim db' = cp_next_old_claim db \<and> cp_next_old_redemption db' = cp_next_old_redemption db"

lemma same_records_refl [simp]: "same_records db db"
  by (simp add: same_records_def)

definition framed :: "'q coupon_db \<Rightarrow> 'q coupon_db \<Rightarrow> bool" where
  "framed db db' \<longleftrightarrow> cp_receipts db' = cp_receipts db \<and> cp_next_receipt db' = cp_next_receipt db \<and>
     cp_sessions db' = cp_sessions db \<and> cp_grants db' = cp_grants db \<and> same_records db db'"

text \<open>The operations on coupons touch neither the claims nor the log.\<close>

definition quiet :: "'q coupon_db \<Rightarrow> 'q coupon_db \<Rightarrow> bool" where
  "quiet db db' \<longleftrightarrow> cp_events db' = cp_events db \<and> cp_claims db' = cp_claims db"

lemma quiet_refl [simp]: "quiet db db"
  by (simp add: quiet_def)

lemma framed_refl [simp]: "framed db db"
  by (simp add: framed_def)

lemma framed_trans: "framed a b \<Longrightarrow> framed b c \<Longrightarrow> framed a c"
  by (simp add: framed_def same_records_def)

section \<open>Statements\<close>

lemma cpn_GetD:
  assumes "cpn_Get i db = (Inr c, db')"
  shows "db' = db \<and> (\<exists>w. row_of i (core_of db) = Some w \<and> cw_id w = i \<and>
    c = (mapCoupon db w)\<lparr>co_history := marked i (core_of db)\<rparr>)"
  using assms row_of_Some [of i "core_of db"] by (auto simp: cpn_Get_def find_row marked_def split: option.splits)

lemma map_row_put:
  assumes "distinct (map cw_id (ko_coupons k))" and "row_of i k = Some w" and "cw_id (f w) = i"
  shows "k\<lparr>ko_coupons := map (\<lambda>w'. if cw_id w' = i then f w' else w') (ko_coupons k)\<rparr> = put_row (f w) k"
proof -
  have "(if cw_id v = i then f v else v) = (if cw_id v = cw_id (f w) then f w else v)" if "v \<in> set (ko_coupons k)" for v
    using assms that row_of_in [OF assms(1) that] by auto
  then show ?thesis by (simp add: put_row_def)
qed

lemma core_okD_ids: "core_ok k \<Longrightarrow> distinct (map cw_id (ko_coupons k))"
  by (simp add: core_ok_def core_keys_def)

lemma update_couponD:
  assumes "update_coupon i hit f db = (Inr n, db')" and "core_ok (core_of db)" and "\<And>w. cw_id (f w) = cw_id w"
  shows "n = 0 \<and> db' = db \<or> n = 1 \<and> (\<exists>w. row_of i (core_of db) = Some w \<and> cw_id w = i \<and> hit w \<and> \<not> coupon_frozen w (f w) \<and>
    coupon_row_ok (f w) \<and> framed db db' \<and> core_of db' = put_row (f w) (core_of db) \<and> quiet db db')"
proof (cases "row_of i (core_of db)")
  case None
  then show ?thesis using assms(1) by (simp add: update_coupon_def find_row)
next
  case (Some w)
  then have id: "cw_id w = i" using row_of_Some by blast
  have put: "(core_of db)\<lparr>ko_coupons := map (\<lambda>w'. if cw_id w' = i then f w' else w') (cp_coupons db)\<rparr> = put_row (f w) (core_of db)"
    using map_row_put [OF core_okD_ids [OF assms(2)] Some, of f] assms(3) id by simp
  show ?thesis using assms(1) Some id put by (auto simp: update_coupon_def find_row framed_def quiet_def same_records_def split: if_splits)
qed

section \<open>Targets\<close>

lemma insert_targetD:
  "insert_target V t db = (Inr u, db') \<Longrightarrow> db' = db\<lparr>cp_targets := cp_targets db @ [t]\<rparr> \<and> xt_product t > 0 \<and>
    (\<exists>w. row_of (xt_coupon t) (core_of db) = Some w \<and> \<not> 0 < cw_issued w)"
  by (auto simp: insert_target_def find_row split: if_splits option.splits)

lemma row_of_targets [simp]: "row_of i (k\<lparr>ko_targets := ts\<rparr>) = row_of i k"
  by (simp add: row_of_def)

text \<open>Targets of one coupon are appended, which has no claims when there are any.\<close>

definition adds_targets :: "int \<Rightarrow> 'q coupon_db \<Rightarrow> 'q coupon_db \<Rightarrow> bool" where
  "adds_targets i db db' \<longleftrightarrow> (\<exists>ts. db' = db\<lparr>cp_targets := cp_targets db @ ts\<rparr> \<and> (\<forall>t \<in> set ts. xt_coupon t = i))"

lemma adds_targets_refl: "adds_targets i db db"
  by (auto simp: adds_targets_def intro: exI [of _ "[]"])

lemma adds_targets_trans:
  assumes "adds_targets i a b" and "adds_targets i b c"
  shows "adds_targets i a c"
proof -
  obtain ts where "b = a\<lparr>cp_targets := cp_targets a @ ts\<rparr>" "\<forall>t \<in> set ts. xt_coupon t = i"
    using assms(1) unfolding adds_targets_def by blast
  moreover obtain ts' where "c = b\<lparr>cp_targets := cp_targets b @ ts'\<rparr>" "\<forall>t \<in> set ts'. xt_coupon t = i"
    using assms(2) unfolding adds_targets_def by blast
  ultimately show ?thesis unfolding adds_targets_def by (intro exI [of _ "ts @ ts'"]) auto
qed

lemma insert_target_adds: "insert_target V t db = (Inr u, db') \<Longrightarrow> adds_targets (xt_coupon t) db db'"
  using insert_targetD [of V t db u db'] by (auto simp: adds_targets_def)

lemma insert_targetsD: "insert_targets V i k xs db = (Inr u, db') \<Longrightarrow> adds_targets i db db'"
proof (induction V i k xs arbitrary: db rule: insert_targets.induct)
  case (2 V i k ref p rest)
  then obtain db1 where "insert_target V \<lparr>xt_coupon = i, xt_position = k, xt_ref = ref, xt_product = p\<rparr> db = (Inr (), db1)"
    "insert_targets V i (Suc k) rest db1 = (Inr u, db')" by (auto simp: and_then_Inr_iff)
  then show ?case using insert_target_adds adds_targets_trans 2 by fastforce
qed (simp add: adds_targets_refl)

lemma insert_history_targetsD: "insert_history_targets V i k xs db = (Inr u, db') \<Longrightarrow> adds_targets i db db'"
proof (induction V i k xs arbitrary: db rule: insert_history_targets.induct)
  case (2 V i k ref rest)
  then obtain p db1 where "insert_target V \<lparr>xt_coupon = i, xt_position = k, xt_ref = ref, xt_product = p\<rparr> db = (Inr (), db1)"
    "insert_history_targets V i (Suc k) rest db1 = (Inr u, db')" "target_number ref = Some p"
    by (auto simp: and_then_Inr_iff split: option.splits)
  then show ?case using insert_target_adds adds_targets_trans 2 by fastforce
qed (simp add: adds_targets_refl)

lemma replaceTargetsD:
  assumes "replaceTargets V i refs ids db = (Inr u, db')"
  shows "\<exists>ts. db' = db\<lparr>cp_targets := filter (\<lambda>t. xt_coupon t \<noteq> i) (cp_targets db) @ ts\<rparr> \<and> (\<forall>t \<in> set ts. xt_coupon t = i)"
proof -
  obtain db1 where "delete_targets i db = (Inr (), db1)" "insert_targets V i 0 (zip refs ids) db1 = (Inr u, db')"
    using assms by (auto simp: replaceTargets_def and_then_Inr_iff split: if_splits)
  then show ?thesis using insert_targetsD [of V i 0 "zip refs ids" db1 u db']
    by (auto simp: delete_targets_def adds_targets_def split: if_splits)
qed

section \<open>Writing\<close>

lemma row_of_add:
  "row_of i (k\<lparr>ko_coupons := ko_coupons k @ [w]\<rparr>) = (case row_of i k of None \<Rightarrow> if i = cw_id w then Some w else None | Some v \<Rightarrow> Some v)"
  by (simp add: row_of_def find_append split: option.split)

lemma targets_beyond: "core_ok k \<Longrightarrow> ko_next k \<le> i \<Longrightarrow> filter (\<lambda>t. xt_coupon t \<noteq> i) (ko_targets k) = ko_targets k"
  by (rule filter_True) (auto simp: core_ok_def core_keys_def)

lemma increment_countD:
  "increment_count db = (Inr u, db') \<Longrightarrow> db' = db\<lparr>cp_total := cp_total db + 1\<rparr>"
  by (auto simp: increment_count_def split: if_splits)

lemma cpn_CreateD:
  assumes "cpn_Create V now c ids db = (Inr r, db')" and ok: "core_ok (core_of db)"
  shows "coupon_change (core_of db) (core_of db') \<and> framed db db' \<and> quiet db db'"
proof -
  let ?i = "cp_next_coupon db" let ?w = "new_coupon_row ?i (co_rules (uc_coupon c)) (uc_actor c) now"
  let ?db = "db\<lparr>cp_coupons := cp_coupons db @ [?w], cp_next_coupon := ?i + 1\<rparr>"
  obtain db2 db3 where row: "coupon_row_ok ?w" and t: "replaceTargets V ?i (co_targets (uc_coupon c)) ids ?db = (Inr (), db2)"
    and n: "increment_count db2 = (Inr (), db3)" and g: "cpn_Get ?i db3 = (Inr r, db')"
    using assms(1) by (auto simp: cpn_Create_def and_then_Inr_iff insert_coupon_def Let_def split: if_splits)
  have "filter (\<lambda>t. xt_coupon t \<noteq> ?i) (cp_targets db) = cp_targets db" using targets_beyond [OF ok, of ?i] by simp
  then obtain ts where ts: "db2 = ?db\<lparr>cp_targets := cp_targets db @ ts\<rparr>" "\<forall>t \<in> set ts. xt_coupon t = ?i"
    using replaceTargetsD [OF t] by auto
  have db': "db' = db2\<lparr>cp_total := cp_total db + 1\<rparr>" using increment_countD [OF n] cpn_GetD [OF g] ts by simp
  have core: "core_of db' = (core_of db)\<lparr>ko_coupons := ko_coupons (core_of db) @ [?w], ko_targets := ko_targets (core_of db) @ ts,
      ko_total := ko_total (core_of db) + 1, ko_next := ko_next (core_of db) + 1\<rparr>"
    using ts db' by (simp add: core_of_def)
  have "coupon_change (core_of db) (core_of db')" unfolding core
    by (rule created) (use ts row in \<open>simp_all add: new_coupon_row_def\<close>)
  then show ?thesis using ts db' by (simp add: framed_def quiet_def same_records_def)
qed

lemma cpn_SetStatusD:
  assumes "cpn_SetStatus now i status actor db = (Inr c, db')" and ok: "core_ok (core_of db)"
    and at: "row_of i (core_of db) = Some w" and move: "(cw_status w, status) \<in> coupon_move"
    and mark: "marked i (core_of db) \<longrightarrow> status = ''archived''"
  shows "coupon_change (core_of db) (core_of db') \<and> framed db db' \<and> quiet db db'"
proof -
  let ?f = "status_row now status actor"
  obtain n db1 where u: "update_coupon i (\<lambda>_. True) ?f db = (Inr n, db1)" and g: "cpn_Get i db1 = (Inr c, db')"
    using assms(1) by (auto simp: cpn_SetStatus_def and_then_Inr_iff)
  have "db' = db1" using cpn_GetD [OF g] by simp
  moreover have "coupon_change (core_of db) (put_row (?f w) (core_of db))" if "coupon_row_ok (?f w)"
    by (rule moved [OF at]) (use that move mark in \<open>simp_all add: status_row_def same_coupon_def\<close>)
  ultimately show ?thesis using update_couponD [OF u ok] at kept by (auto simp: status_row_def)
qed

lemma cpn_DeleteDraftD:
  assumes "cpn_DeleteDraft i db = (Inr u, db')"
  shows "coupon_change (core_of db) (core_of db') \<and> framed db db' \<and> quiet db db'"
proof -
  obtain w where at: "row_of i (core_of db) = Some w" and w: "cw_status w = ''draft''" "cw_issued w = 0"
    and none: "i \<notin> cc_coupon ` set (cp_claims db)" "i \<notin> xm_coupon ` set (cp_markers db)"
    and db': "db' = db\<lparr>cp_coupons := filter (\<lambda>w. cw_id w \<noteq> i) (cp_coupons db), cp_targets := filter (\<lambda>t. xt_coupon t \<noteq> i) (cp_targets db),
      cp_total := cp_total db - 1\<rparr>"
    using assms by (auto simp: cpn_DeleteDraft_def and_then_Inr_iff decrement_count_def find_row split: option.splits if_splits)
  have "rows_claims i (core_of db) = []" using none by (auto simp: rows_claims_def filter_empty_conv)
  then have "coupon_change (core_of db) (core_of db')"
    using removed [OF at w] none db' by (simp add: marked_def)
  then show ?thesis using db' by (simp add: framed_def quiet_def same_records_def)
qed

lemma put_targets: "(put_row w k)\<lparr>ko_targets := ts\<rparr> = put_row w (k\<lparr>ko_targets := ts\<rparr>)"
  by (simp add: put_row_def)

text \<open>An update of a coupon that is a draft without claims, or that keeps what a claimed coupon must keep.\<close>

lemma cpn_UpdateD:
  assumes "cpn_Update V now c ids db = (Inr r, db')" and ok: "core_ok (core_of db)" and i: "co_id (uc_coupon c) = i"
    and at: "row_of i (core_of db) = Some w" and unmarked: "\<not> marked i (core_of db)"
    and allowed: "if cw_issued w = 0 then cw_status w = ''draft''
      else frozen_rules w = (co_rules (uc_coupon c))\<lparr>cu_total := 0\<rparr> \<and> cu_total (cw_rules w) \<le> cu_total (co_rules (uc_coupon c)) \<and>
        co_targets (uc_coupon c) = targets_of i db"
  shows "coupon_change (core_of db) (core_of db') \<and> framed db db' \<and> quiet db db'"
proof -
  let ?f = "updated_row now c" let ?ts = "co_targets (uc_coupon c)"
  have wid: "cw_id w = i" using row_of_Some [OF at] by simp
  have "rules_text (co_rules (uc_coupon c))" using assms(1) by (auto simp: cpn_Update_def Let_def split: if_splits)
  then obtain n db1 cur db3 x db2 where u: "update_coupon i (\<lambda>_. True) ?f db = (Inr n, db1)" and g: "cpn_Get i db1 = (Inr cur, db3)"
    and t3: "(if co_targets cur \<noteq> ?ts then replaceTargets V i ?ts ids else ret ()) db3 = (Inr x, db2)"
    and e: "cpn_Get i db2 = (Inr r, db')"
    using assms(1) i by (simp only: cpn_Update_def Let_def and_then_Inr_iff not_True_eq_False if_False) blast
  have t: "(if co_targets cur \<noteq> ?ts then replaceTargets V i ?ts ids else ret ()) db1 = (Inr (), db2)"
    using t3 cpn_GetD [OF g] by simp
  have db': "db' = db2" using cpn_GetD [OF e] by simp
  have "n \<noteq> 0"
    using u at by (auto simp: update_coupon_def find_row split: if_splits)
  then have row: "coupon_row_ok (?f w)" and fr: "framed db db1" "quiet db db1"
    and core1: "core_of db1 = put_row (?f w) (core_of db)"
    using update_couponD [OF u ok] at by (auto simp: updated_row_def)
  have tgt: "cp_targets db1 = cp_targets db" using arg_cong [OF core1, of ko_targets] by simp
  have cur: "co_targets cur = targets_of i db"
    using cpn_GetD [OF g] tgt by (auto simp: mapCoupon_def targets_of_def)
  obtain ts where ts: "db2 = db1\<lparr>cp_targets := ts\<rparr>" "\<forall>j. j \<noteq> i \<longrightarrow> filter (\<lambda>t. xt_coupon t = j) ts = rows_targets j (core_of db)"
    and new: "cw_issued w \<noteq> 0 \<longrightarrow> ts = cp_targets db" "\<forall>t \<in> set ts. t \<notin> set (cp_targets db) \<longrightarrow> xt_coupon t = i"
  proof (cases "co_targets cur = ?ts")
    case True
    then show thesis using t tgt that [of "cp_targets db"] by (simp add: rows_targets_def)
  next
    case False
    then obtain new where new: "db2 = db1\<lparr>cp_targets := filter (\<lambda>t. xt_coupon t \<noteq> i) (cp_targets db) @ new\<rparr>" "\<forall>t \<in> set new. xt_coupon t = i"
      using replaceTargetsD [of V i ?ts ids db1 "()" db2] t tgt by auto
    have zero: "cw_issued w = 0" using False allowed cur by (auto split: if_splits)
    have others: "filter (\<lambda>t. xt_coupon t = j) (filter (\<lambda>t. xt_coupon t \<noteq> i) (cp_targets db) @ new) = rows_targets j (core_of db)"
      if "j \<noteq> i" for j
    proof -
      have "filter (\<lambda>t. xt_coupon t = j) new = []" using new(2) that by (simp add: filter_empty_conv)
      moreover have "filter (\<lambda>t. xt_coupon t = j) (filter (\<lambda>t. xt_coupon t \<noteq> i) (cp_targets db)) = filter (\<lambda>t. xt_coupon t = j) (cp_targets db)"
        unfolding filter_filter by (rule filter_cong) (use that in auto)
      ultimately show ?thesis by (simp add: rows_targets_def)
    qed
    show thesis by (rule that [OF new(1)]) (use zero others new(2) in auto)
  qed
  have core: "core_of db' = (put_row (?f w) (core_of db))\<lparr>ko_targets := ts\<rparr>" using ts db' core1 by simp
  have "coupon_change (core_of db) (core_of db')" unfolding core
  proof (rule edited [OF at unmarked])
    show "if cw_issued w = 0 then cw_status w = ''draft'' \<and> (\<forall>t\<in>set ts. t \<notin> set (ko_targets (core_of db)) \<longrightarrow> xt_coupon t = i)
      else ts = ko_targets (core_of db) \<and> frozen_rules (?f w) = frozen_rules w \<and> cu_total (cw_rules w) \<le> cu_total (cw_rules (?f w))"
      using allowed new by (auto simp: updated_row_def frozen_rules_def)
  qed (use row ts in \<open>simp_all add: same_coupon_def updated_row_def\<close>)
  then show ?thesis using ts fr db' by (simp add: framed_def quiet_def same_records_def)
qed

end
