(* ===== verification/CouponRefine.thy ===== *)
theory CouponRefine
  imports CouponFacts
begin

text \<open>
  The calls of the coupon service follow the abstract machine: each one that succeeds is one change
  of the core or none, and each one that fails leaves the database as it was.
\<close>

text \<open>The event log is as it was, or one event was appended.\<close>

definition appended_log :: "coupon_env \<Rightarrow> 'q event_db \<Rightarrow> 'q event_db \<Rightarrow> bool" where
  "appended_log E l l' \<longleftrightarrow> l' = l \<or> (\<exists>e i. appender_Append (cn_events E) e l = (Inr i, l'))"

lemma appended_log_refl [simp]: "appended_log E l l"
  by (simp add: appended_log_def)

definition follows :: "coupon_env \<Rightarrow> 'q coupon_db \<Rightarrow> 'q coupon_db \<Rightarrow> bool" where
  "follows E db db' \<longleftrightarrow> coupon_change (core_of db) (core_of db') \<and> framed db db' \<and> appended_log E (cp_events db) (cp_events db')"

definition follows_quietly :: "'q coupon_db \<Rightarrow> 'q coupon_db \<Rightarrow> bool" where
  "follows_quietly db db' \<longleftrightarrow> coupon_change (core_of db) (core_of db') \<and> framed db db' \<and> quiet db db'"

lemma follows_refl: "follows_quietly db db"
  by (simp add: follows_quietly_def kept)

lemma quietly: "follows_quietly db db' \<Longrightarrow> follows E db db'"
  by (simp add: follows_quietly_def follows_def quiet_def)

lemma append_coupon_eventD:
  "append_coupon_event E e db = (Inr u, db') \<Longrightarrow> \<exists>l i. appender_Append (cn_events E) e (cp_events db) = (Inr i, l) \<and> db' = db\<lparr>cp_events := l\<rparr>"
  by (auto simp: append_coupon_event_def split: prod.splits sum.splits)

text \<open>
  What a call adds: the claims of its result, each with its event in the log, under a key and with a
  reference that come from one digest.
\<close>

definition announces_claim :: "event_row \<Rightarrow> CouponClaim \<Rightarrow> bool" where
  "announces_claim r c \<longleftrightarrow> ev_type r = ''coupon.claimed'' \<and> ev_customer r = Some (cc_customer c) \<and> ev_at r = cc_at c \<and>
     (\<exists>d. cc_ref c = ''cp_'' @ hex_encode (take 16 d) \<and> ev_key r = ''coupon.claim:'' @ hex_encode d)"

definition claim_logged :: "CouponClaim \<Rightarrow> 'q event_db \<Rightarrow> bool" where
  "claim_logged c l \<longleftrightarrow> (\<exists>r \<in> fst ` set (event_table l). announces_claim r c)"

fun new_claims :: "coupon_result \<Rightarrow> CouponClaim list" where
  "new_claims (ClaimResult c) = [c]"
| "new_claims (CouponResult _) = []"

definition call_effect :: "coupon_env \<Rightarrow> coupon_result \<Rightarrow> 'q coupon_db \<Rightarrow> 'q coupon_db \<Rightarrow> bool" where
  "call_effect E result db db' \<longleftrightarrow> follows E db db' \<and> cp_claims db' = cp_claims db @ new_claims result \<and>
     (\<forall>c \<in> set (new_claims result). claim_logged c (cp_events db'))"

lemma announced_effect:
  assumes "announced E e changed r db1 = (Inr v, db')" and "follows_quietly db db1"
  shows "call_effect E (CouponResult c) db db'"
proof (cases changed)
  case False
  then show ?thesis using assms by (simp add: announced_def call_effect_def quietly) (simp add: follows_quietly_def quiet_def)
next
  case True
  then obtain l i where "appender_Append (cn_events E) e (cp_events db1) = (Inr i, l)" "db' = db1\<lparr>cp_events := l\<rparr>"
    using assms(1) by (auto simp: announced_def and_then_Inr_iff dest: append_coupon_eventD)
  then show ?thesis using assms(2) by (auto simp: follows_quietly_def follows_def framed_def appended_log_def quiet_def call_effect_def same_records_def)
qed

section \<open>The bodies of the calls\<close>

lemma locked:
  assumes "cpn_Lock i db = (Inr old, db1)"
  obtains w where "db1 = db" "row_of i (core_of db) = Some w" "old = (mapCoupon db w)\<lparr>co_history := marked i (core_of db)\<rparr>"
    "co_status old = cw_status w" "co_issued old = cw_issued w" "co_rules old = cw_rules w" "co_targets old = targets_of i db"
    "co_history old = marked i (core_of db)"
  using assms cpn_GetD [of i db old db1] that by (auto simp: cpn_Lock_def mapCoupon_def)

lemma set_status_follows:
  assumes "set_status_body V now operation i desired actor db = (Inr x, db')" and ok: "core_ok (core_of db)"
    and "operation = ''publish'' \<and> desired = ''published'' \<or> operation = ''stop'' \<and> desired = ''stopped''"
  shows "follows_quietly db db'"
proof -
  obtain old db1 where "cpn_Lock i db = (Inr old, db1)" using assms(1) by (auto simp: set_status_body_def and_then_Inr_iff)
  then obtain w where w: "row_of i (core_of db) = Some w" and old: "cpn_Lock i db = (Inr old, db)" "co_status old = cw_status w"
    using locked by metis
  consider "db' = db" | c where "cpn_SetStatus now i desired actor db = (Inr c, db')" "(cw_status w, desired) \<in> coupon_move"
    using assms(1,3) old by (auto simp: set_status_body_def and_then_Inr_iff coupon_move_def split: if_splits)
  then show ?thesis
  proof cases
    case 2
    have "cw_status w \<noteq> ''archived''" using 2(2) by (auto simp: coupon_move_def)
    then have "\<not> marked i (core_of db)"
      using core_okD(4) [OF ok w] row_of_Some [OF w] by (auto simp: row_counts_def split: if_splits)
    then show ?thesis using cpn_SetStatusD [OF 2(1) ok w 2(2)] by (simp add: follows_quietly_def)
  qed (simp add: follows_refl)
qed

lemma update_follows:
  assumes lock: "cpn_Lock i db = (Inr old, db1)" and "update_refused draftOnly old (uc_coupon c) = None"
    and upd: "cpn_Update V now c ids db1 = (Inr r, db')" and "co_id (uc_coupon c) = i" and ok: "core_ok (core_of db)"
  shows "follows_quietly db db'"
proof -
  obtain w where w: "db1 = db" "row_of i (core_of db) = Some w" "co_status old = cw_status w" "co_issued old = cw_issued w"
    "co_rules old = cw_rules w" "co_targets old = targets_of i db" "co_history old = marked i (core_of db)"
    using locked [OF lock] by metis
  have "coupon_row_ok w" using core_okD(1) [OF ok w(2)] .
  then have "0 \<le> cw_issued w" by (simp add: coupon_row_ok_def Let_def)
  then show ?thesis
    using cpn_UpdateD [OF _ ok assms(4) w(2), of V now ids r db'] upd assms(2) w
    by (auto simp: update_refused_def claimedUpdateAllowed_def frozen_rules_def follows_quietly_def split: if_splits)
qed

lemma mutate_follows:
  assumes "mutate_body V now operation c ids desired draftOnly db = (Inr x, db')" and ok: "core_ok (core_of db)"
    and "operation \<in> {''create'', ''update''} \<or> operation = ''publish'' \<and> desired = ''published'' \<or> operation = ''stop'' \<and> desired = ''stopped''"
  shows "follows_quietly db db'"
proof -
  consider (create) r where "cpn_Create V now c ids db = (Inr r, db')"
    | (update) old db1 r where "cpn_Lock (co_id (uc_coupon c)) db = (Inr old, db1)" "update_refused draftOnly old (uc_coupon c) = None"
        "cpn_Update V now c ids db1 = (Inr r, db')"
    | (status) "set_status_body V now operation (co_id (uc_coupon c)) desired (uc_actor c) db = (Inr x, db')"
        "operation = ''publish'' \<and> desired = ''published'' \<or> operation = ''stop'' \<and> desired = ''stopped''"
    using assms(1,3) by (auto simp: mutate_body_def and_then_Inr_iff split: if_splits option.splits)
  then show ?thesis
  proof cases
    case create
    then show ?thesis using cpn_CreateD [OF _ ok] unfolding follows_quietly_def by blast
  next
    case update
    then show ?thesis using update_follows ok by blast
  next
    case status
    then show ?thesis using set_status_follows ok by blast
  qed
qed

lemma archive_follows:
  assumes "archive_body now i actor db = (Inr x, db')" and ok: "core_ok (core_of db)"
  shows "follows_quietly db db'"
proof -
  obtain old db1 where "cpn_Lock i db = (Inr old, db1)" using assms(1) by (auto simp: archive_body_def and_then_Inr_iff)
  then obtain w where w: "row_of i (core_of db) = Some w" and old: "cpn_Lock i db = (Inr old, db)" "co_status old = cw_status w"
    "co_history old = marked i (core_of db)" using locked by metis
  consider "db' = db" | c where "cpn_SetStatus now i ''archived'' actor db = (Inr c, db')" "(cw_status w, ''archived'') \<in> coupon_move"
    using assms(1) old by (auto simp: archive_body_def and_then_Inr_iff coupon_move_def split: if_splits)
  then show ?thesis
    by cases (use cpn_SetStatusD [OF _ ok w] in \<open>auto simp: follows_refl follows_quietly_def\<close>)
qed

lemma delete_follows:
  assumes "delete_coupon_body now i db = (Inr x, db')"
  shows "follows_quietly db db'"
proof -
  obtain old db1 where "cpn_Lock i db = (Inr old, db1)" using assms by (auto simp: delete_coupon_body_def and_then_Inr_iff)
  then have "cpn_Lock i db = (Inr old, db)" using locked by metis
  then obtain u where "cpn_DeleteDraft i db = (Inr u, db')"
    using assms by (auto simp: delete_coupon_body_def and_then_Inr_iff split: if_splits)
  then show ?thesis using cpn_DeleteDraftD unfolding follows_quietly_def by blast
qed

lemma copy_follows:
  assumes "copy_body V now i actor key db = (Inr x, db')" and ok: "core_ok (core_of db)"
  shows "follows_quietly db db'"
proof -
  obtain old db1 where "cpn_Lock i db = (Inr old, db1)" using assms by (auto simp: copy_body_def and_then_Inr_iff)
  then have "cpn_Lock i db = (Inr old, db)" using locked by metis
  then obtain c ids r where "cpn_Create V now c ids db = (Inr r, db')"
    using assms by (auto simp: copy_body_def and_then_Inr_iff split: if_splits sum.splits)
  then show ?thesis using cpn_CreateD [OF _ ok] unfolding follows_quietly_def by blast
qed

section \<open>Claiming\<close>

lemma wrap32_le: "0 < v \<Longrightarrow> wrap32 v \<le> v"
  using zmod_le_nonneg_dividend [of "v + 2 ^ 31" "2 ^ 32"] by (simp add: wrap32_def)

lemma numbered_has:
  assumes "numbered cs" and "0 < n" and "n \<le> int (length cs)"
  shows "n \<in> cc_number ` set cs"
proof -
  have "nat n - 1 < length cs" using assms by linarith
  moreover from this have "map cc_number cs ! (nat n - 1) = int (nat n - 1) + 1"
    using assms(1) by (simp only: numbered_def) simp
  moreover have "int (nat n - 1) + 1 = n" using assms(2) by linarith
  ultimately show ?thesis by (metis image_eqI nth_map nth_mem)
qed

lemma log_append_row:
  assumes "log_append row l = (Inr i, l')"
  shows "\<exists>r \<in> fst ` set (event_table l'). r\<lparr>ev_id := 0\<rparr> = row\<lparr>ev_id := 0\<rparr>"
proof (cases "List.find (\<lambda>r. ev_key (fst r) = ev_key row) (event_table l)")
  case None
  then show ?thesis using assms by (auto simp: log_append_def)
next
  case (Some r)
  then have "r \<in> set (event_table l)" by (auto simp: find_Some_iff)
  then show ?thesis using assms Some by (auto simp: log_append_def split: if_splits)
qed

lemma appended_row:
  assumes "appender_Append N e l = (Inr i, l')"
  shows "\<exists>r \<in> fst ` set (event_table l'). ev_type r = en_type e \<and> ev_key r = en_key e \<and> ev_at r = pg_micros (en_at e) \<and>
    ev_customer r = (if 0 < en_customer e then Some (en_customer e) else None)"
proof -
  obtain p where p: "log_append (event_of N e p) l = (Inr i, l')"
    using assms by (auto simp: appender_Append_def split: if_splits option.splits)
  obtain r where r: "r \<in> fst ` set (event_table l')" "r\<lparr>ev_id := 0\<rparr> = (event_of N e p)\<lparr>ev_id := 0\<rparr>"
    using log_append_row [OF p] by auto
  have "ev_type r = en_type e \<and> ev_key r = en_key e \<and> ev_at r = pg_micros (en_at e) \<and>
      ev_customer r = (if 0 < en_customer e then Some (en_customer e) else None)"
    using arg_cong [OF r(2), of ev_type] arg_cong [OF r(2), of ev_key] arg_cong [OF r(2), of ev_at] arg_cong [OF r(2), of ev_customer]
    by (simp add: event_of_def)
  with r(1) show ?thesis by (rule rev_bexI)
qed

lemma claim_bodyD:
  assumes "claim_body E now i customer key db = (Inr c, db')" and ok: "core_ok (core_of db)"
  shows "call_effect E (ClaimResult c) db db' \<and> cc_coupon c = i \<and> cc_customer c = customer \<and> cc_ref c = claim_ref E key customer \<and>
    cc_at c = pg_micros now \<and> cc_status c = ''claimed'' \<and> (pg_micros now \<noteq> 0 \<longrightarrow> validClaim c)"
proof -
  obtain old db0 where "cpn_Lock i db = (Inr old, db0)" using assms(1) by (auto simp: claim_body_def and_then_Inr_iff)
  then obtain w where at: "row_of i (core_of db) = Some w" and old: "cpn_Lock i db = (Inr old, db)" "co_status old = cw_status w"
    "co_issued old = cw_issued w" "co_rules old = cw_rules w" using locked by metis
  let ?cs = "customers_claims i customer (core_of db)" let ?n = "int (length ?cs) + 1"
  obtain db1 db2 where active: "co_availability (withAvailability old now) = ''active''" and room: "?n \<le> cu_per_user (cw_rules w)" "cw_issued w < cu_total (cw_rules w)"
    and c: "cpn_CreateClaim now i customer (wrap32 ?n) (claim_ref E key customer) db = (Inr c, db1)"
    and inc: "cpn_IncrementIssued now i db1 = (Inr (), db2)" and ev: "append_coupon_event E (claim_event E now key c) db2 = (Inr (), db')"
    using assms(1) old by (auto simp: claim_body_def and_then_Inr_iff cpn_CountCustomerClaims_def claims_rows split: if_splits)
  have st: "cw_status w = ''published''" using active old core_okD(1) [OF ok at] by (auto simp: withAvailability_def coupon_row_ok_def Let_def split: if_splits)
  have cc: "0 < customer" "0 < wrap32 ?n" "wrap32 ?n \<notin> cc_number ` set ?cs" "claim_ref E key customer \<notin> cc_ref ` set (cp_claims db)"
    "c = \<lparr>cc_id = cp_next_claim db, cc_coupon = i, cc_customer = customer, cc_number = wrap32 ?n, cc_ref = claim_ref E key customer,
      cc_status = ''claimed'', cc_at = pg_micros now\<rparr>"
    "db1 = db\<lparr>cp_claims := cp_claims db @ [c], cp_next_claim := cp_next_claim db + 1\<rparr>"
    using c by (auto simp: cpn_CreateClaim_def Let_def customers_claims_def split: if_splits)
  have id: "cw_id w = i" using row_of_Some [OF at] by simp
  have "numbered ?cs" using core_okD(4) [OF ok at] id by (simp add: row_counts_def)
  then have n: "wrap32 ?n = ?n" using numbered_has [of ?cs "wrap32 ?n"] wrap32_le [of ?n] cc(2,3) by linarith
  have rows: "cp_coupons db1 = cp_coupons db" using cc(6) by simp
  obtain v where v: "update_coupon i (\<lambda>w. cw_issued w < cu_total (cw_rules w)) (issued_row now) db1 = (Inr v, db2)" "v \<noteq> 0"
    using inc by (auto simp: cpn_IncrementIssued_def and_then_Inr_iff split: if_splits)
  have at1: "row_of i (core_of db1) = Some w" using at by (simp add: row_of_def rows)
  have dist: "distinct (map cw_id (cp_coupons db))" using core_okD_ids [OF ok] by simp
  have row: "coupon_row_ok (issued_row now w)"
    and db2: "db2 = db1\<lparr>cp_coupons := map (\<lambda>w'. if cw_id w' = i then issued_row now w' else w') (cp_coupons db1)\<rparr>"
    using v at1 by (auto simp: update_coupon_def find_row split: if_splits)
  obtain l j where l: "db' = db2\<lparr>cp_events := l\<rparr>" and app: "appender_Append (cn_events E) (claim_event E now key c) (cp_events db) = (Inr j, l)"
    using append_coupon_eventD [OF ev] db2 cc(6) by auto
  have "(core_of db)\<lparr>ko_coupons := map (\<lambda>w'. if cw_id w' = i then issued_row now w' else w') (cp_coupons db)\<rparr> = put_row (issued_row now w) (core_of db)"
    using map_row_put [of "core_of db" i w "issued_row now"] dist at id by (simp add: issued_row_def)
  then have core: "core_of db' = (put_row (issued_row now w) (core_of db))\<lparr>ko_claims := ko_claims (core_of db) @ [c], ko_next_claim := ko_next_claim (core_of db) + 1\<rparr>"
    using l db2 cc(6) by (simp add: core_of_def put_row_def)
  have "coupon_change (core_of db) (core_of db')" unfolding core
    by (rule claimed [OF at st]) (use room row cc n in \<open>simp_all add: issued_row_def same_coupon_def\<close>)
  then have "follows E db db'" using l db2 cc app by (auto simp: follows_def framed_def appended_log_def same_records_def)
  moreover have "claim_logged c (cp_events db')"
    using appended_row [OF app] cc(1,5) l unfolding claim_logged_def announces_claim_def
    by (auto simp: claim_ref_def claim_event_def)
  moreover have "pg_micros now \<noteq> 0 \<longrightarrow> validClaim c"
    using cc ok core_okD(2) [OF ok at] by (simp add: validClaim_def core_ok_def core_claims_def claim_ref_def)
  ultimately show ?thesis using l db2 cc by (simp add: call_effect_def)
qed

section \<open>Receipts\<close>

definition receipt_id :: "CouponReceipt \<Rightarrow> string \<times> string \<times> string" where
  "receipt_id r = (cr_operation r, cr_scope r, cr_key r)"

definition reservation_id :: "CouponReservation \<Rightarrow> string \<times> string \<times> string" where
  "reservation_id x = (cs_operation x, cs_scope x, cs_key x)"

definition coupon_receipts_ok :: "'q coupon_db \<Rightarrow> bool" where
  "coupon_receipts_ok db \<longleftrightarrow> distinct (map cr_id (cp_receipts db)) \<and> distinct (map receipt_id (cp_receipts db)) \<and> 0 < cp_next_receipt db \<and>
     (\<forall>r \<in> set (cp_receipts db). 0 < cr_id r \<and> cr_id r < cp_next_receipt db)"

definition receipt_at :: "string \<times> string \<times> string \<Rightarrow> 'q coupon_db \<Rightarrow> CouponReceipt option" where
  "receipt_at k db = List.find (\<lambda>r. receipt_id r = k) (cp_receipts db)"

lemma find_receipt_at: "find_coupon_receipt (cs_operation x) (cs_scope x) (cs_key x) db = receipt_at (reservation_id x) db"
  by (simp add: find_coupon_receipt_def receipt_at_def receipt_id_def reservation_id_def)

text \<open>The receipt that a call with a new key writes, and leaves completed.\<close>

definition pending_receipt :: "'q coupon_db \<Rightarrow> CouponReservation \<Rightarrow> CouponReceipt" where
  "pending_receipt db x = \<lparr>cr_id = cp_next_receipt db, cr_operation = cs_operation x, cr_scope = cs_scope x, cr_key = cs_key x,
     cr_payload = cs_payload x, cr_completed = False, cr_result = None\<rparr>"

definition reserved_db :: "CouponReservation \<Rightarrow> 'q coupon_db \<Rightarrow> 'q coupon_db" where
  "reserved_db x db = db\<lparr>cp_receipts := cp_receipts db @ [pending_receipt db x], cp_next_receipt := cp_next_receipt db + 1\<rparr>"

definition done_receipt :: "'q coupon_db \<Rightarrow> CouponReservation \<Rightarrow> coupon_result \<Rightarrow> CouponReceipt" where
  "done_receipt db x result = (pending_receipt db x)\<lparr>cr_completed := True, cr_result := Some result\<rparr>"

lemma core_of_reserved [simp]: "core_of (reserved_db x db) = core_of db"
  by (simp add: reserved_db_def)

lemma cpn_Complete_reserved:
  assumes ok: "coupon_receipts_ok db" and fr: "framed (reserved_db x db) db1"
  shows "cpn_Complete (cp_next_receipt db) result db1 =
    (Inr (done_receipt db x result), db1\<lparr>cp_receipts := cp_receipts db @ [done_receipt db x result]\<rparr>)"
proof -
  let ?n = "cp_next_receipt db" let ?r = "pending_receipt db x"
  have rs: "cp_receipts db1 = cp_receipts db @ [?r]" using fr by (simp add: framed_def reserved_db_def)
  have old: "cr_id r \<noteq> ?n" if "r \<in> set (cp_receipts db)" for r using ok that by (auto simp: coupon_receipts_ok_def)
  have none: "List.find (\<lambda>r. cr_id r = ?n \<and> \<not> cr_completed r) (cp_receipts db) = None" using old by (auto simp: find_None_iff)
  have "List.find (\<lambda>r. cr_id r = ?n \<and> \<not> cr_completed r) (cp_receipts db1) = Some ?r"
    unfolding rs find_append none by (simp add: pending_receipt_def)
  moreover have "map (\<lambda>r. if cr_id r = ?n \<and> \<not> cr_completed r then r\<lparr>cr_completed := True, cr_result := Some result\<rparr> else r) (cp_receipts db) =
      cp_receipts db" by (rule map_idI) (use old in auto)
  ultimately show ?thesis by (simp add: cpn_Complete_def rs done_receipt_def) (simp add: pending_receipt_def)
qed

lemma with_coupon_receiptD:
  assumes run: "with_coupon_receipt x again result marshals body db = (Inr v, db')" and ok: "coupon_receipts_ok db"
    and body: "\<And>v db1. body (reserved_db x db) = (Inr v, db1) \<Longrightarrow> framed (reserved_db x db) db1"
  obtains (replayed) r where "receipt_at (reservation_id x) db = Some r" "cr_payload r = cs_payload x" "cr_completed r"
      "Option.bind (cr_result r) again = Some v" "db' = db"
  | (fresh) db1 where "receipt_at (reservation_id x) db = None" "body (reserved_db x db) = (Inr v, db1)" "marshals v"
      "db' = db1\<lparr>cp_receipts := cp_receipts db @ [done_receipt db x (result v)]\<rparr>"
proof (cases "receipt_at (reservation_id x) db")
  case (Some r)
  then show thesis using run replayed
    by (auto simp: with_coupon_receipt_def and_then_Inr_iff cpn_Reserve_def find_receipt_at split: if_splits option.splits)
next
  case None
  have match: "receiptMatches (pending_receipt db x) x" using ok by (simp add: receiptMatches_def pending_receipt_def coupon_receipts_ok_def)
  have res: "cpn_Reserve x db = (Inr (pending_receipt db x, True), reserved_db x db)"
    using run None by (auto simp: with_coupon_receipt_def and_then_Inr_iff cpn_Reserve_def find_receipt_at Let_def
        pending_receipt_def reserved_db_def split: if_splits)
  have pay: "cr_payload (pending_receipt db x) = cs_payload x" "cr_id (pending_receipt db x) = cp_next_receipt db"
    by (simp_all add: pending_receipt_def)
  obtain u db1 where b: "body (reserved_db x db) = (Inr u, db1)" "marshals u"
    and c: "(case cpn_Complete (cp_next_receipt db) (result u) db1 of (Inl _, db') \<Rightarrow> (Inl CpUnavailable, db')
      | (Inr r', db') \<Rightarrow> if cr_completed r' \<and> cr_result r' = Some (result u) then (Inr u, db') else (Inl CpUnavailable, db')) = (Inr v, db')"
    using run res match pay by (auto simp: with_coupon_receipt_def and_then_Inr_iff split: if_splits)
  show thesis
    by (rule fresh [OF None, of db1]) (use b c cpn_Complete_reserved [OF ok body [OF b(1)]] in \<open>auto simp: done_receipt_def split: if_splits\<close>)
qed

section \<open>The calls\<close>

definition coupon_good :: "'q coupon_db \<Rightarrow> bool" where
  "coupon_good db \<longleftrightarrow> core_ok (core_of db) \<and> coupon_receipts_ok db"

text \<open>
  A successful call answers its receipt again, or it is one change of the core, with a new receipt.
\<close>

definition receipted :: "coupon_env \<Rightarrow> CouponReservation \<Rightarrow> coupon_result \<Rightarrow> 'q coupon_db \<Rightarrow> 'q coupon_db \<Rightarrow> bool" where
  "receipted E x result db db' \<longleftrightarrow> cp_sessions db' = cp_sessions db \<and> cp_grants db' = cp_grants db \<and> same_records db db' \<and>
     (if receipt_at (reservation_id x) db = None
      then coupon_change (core_of db) (core_of db') \<and> appended_log E (cp_events db) (cp_events db') \<and>
        cp_claims db' = cp_claims db @ new_claims result \<and> (\<forall>c \<in> set (new_claims result). claim_logged c (cp_events db')) \<and> cp_next_receipt db' = cp_next_receipt db + 1 \<and>
        cp_receipts db' = cp_receipts db @ [done_receipt db x result]
      else db' = db \<and> (\<exists>r. receipt_at (reservation_id x) db = Some r \<and> cr_payload r = cs_payload x \<and> cr_completed r))"

lemma coupon_classified_Inr [simp]: "coupon_classified m db = (Inr v, db') \<longleftrightarrow> m db = (Inr v, db')"
  by (auto simp: coupon_classified_def split: prod.splits sum.splits)

lemma coupon_classified_Inl: "coupon_classified (within m) db = (Inl e, db') \<Longrightarrow> db' = db"
  by (auto simp: coupon_classified_def dest: within_Inl_restores split: prod.splits sum.splits)

lemma receipted_call:
  assumes run: "coupon_classified (within (with_coupon_receipt x again result marshals body)) db = (Inr v, db')" and good: "coupon_good db"
    and body: "\<And>v db1. body (reserved_db x db) = (Inr v, db1) \<Longrightarrow> call_effect E (result v) (reserved_db x db) db1"
  shows "receipted E x (result v) db db'"
proof -
  have run': "with_coupon_receipt x again result marshals body db = (Inr v, db')" using run by (auto dest: within_InrD)
  have ok: "coupon_receipts_ok db" using good by (simp add: coupon_good_def)
  have framed: "framed (reserved_db x db) db1" if "body (reserved_db x db) = (Inr u, db1)" for u db1
    using body [OF that] by (simp add: call_effect_def follows_def)
  show ?thesis
  proof (rule with_coupon_receiptD [OF run' ok framed])
    fix r assume "receipt_at (reservation_id x) db = Some r" "cr_payload r = cs_payload x" "cr_completed r" "db' = db"
    then show ?thesis by (simp add: receipted_def)
  next
    fix db1 assume none: "receipt_at (reservation_id x) db = None" and run: "body (reserved_db x db) = (Inr v, db1)"
      and db': "db' = db1\<lparr>cp_receipts := cp_receipts db @ [done_receipt db x (result v)]\<rparr>"
    have "coupon_change (core_of db) (core_of db1) \<and> appended_log E (cp_events db) (cp_events db1) \<and>
        cp_claims db1 = cp_claims db @ new_claims (result v) \<and> (\<forall>c \<in> set (new_claims (result v)). claim_logged c (cp_events db1))"
      using body [OF run] by (simp add: call_effect_def follows_def reserved_db_def)
    then show ?thesis using none framed [OF run] unfolding db' by (simp add: receipted_def framed_def reserved_db_def same_records_def)
  qed
qed

lemma announced_body:
  assumes "and_then m (\<lambda>(r, changed). if \<not> ok r then fail err else announced E (ev r) changed (f r)) db = (Inr v, db')"
    and "\<And>x db1. m db = (Inr x, db1) \<Longrightarrow> follows_quietly db db1"
  shows "call_effect E (CouponResult v) db db'"
  using assms by (auto simp: and_then_Inr_iff split: if_splits intro: announced_effect)

lemma coupon_mutate_receipted:
  assumes run: "coupon_mutate E V now operation input desired draftOnly db = (Inr r, db')" and good: "coupon_good db"
    and op: "operation \<in> {''create'', ''update''} \<or> operation = ''publish'' \<and> desired = ''published'' \<or> operation = ''stop'' \<and> desired = ''stopped''"
  shows "\<exists>c. receipted E (mutation_reservation E operation c desired) (CouponResult r) db db'"
proof -
  have core: "core_ok (core_of (reserved_db x db))" for x using good by (simp add: coupon_good_def)
  obtain c ids where call: "coupon_classified (within (with_coupon_receipt (mutation_reservation E operation c desired) coupon_again CouponResult coupon_marshals
      (and_then (mutate_body V now operation c ids desired draftOnly) (\<lambda>(r, changed).
         if \<not> validStored r then fail CpUnavailable
         else let r' = withAvailability r now in
           announced E (mutation_event E now operation r' (uc_actor input) (uc_key input)) changed r'))))
    db = (Inr r, db')"
    using run by (auto simp only: coupon_mutate_def Let_def [of "operation = ''create'' \<or> operation = ''update''"] fail_apply
        split: if_splits sum.splits prod.splits)
  have "receipted E (mutation_reservation E operation c desired) (CouponResult r) db db'"
    by (rule receipted_call [OF call [unfolded Let_def] good]) (erule announced_body, rule mutate_follows [OF _ core op])
  then show ?thesis by blast
qed

lemma board_receipted:
  assumes run: "boardMutation E now operation i actor key work db = (Inr r, db')" and good: "coupon_good db"
    and work: "\<And>x db1 db0. core_ok (core_of db0) \<Longrightarrow> work db0 = (Inr x, db1) \<Longrightarrow> follows_quietly db0 db1"
  shows "receipted E (board_reservation E operation i actor key) (CouponResult r) db db'"
proof -
  have core: "core_ok (core_of (reserved_db x db))" for x using good by (simp add: coupon_good_def)
  have call: "coupon_classified (within (with_coupon_receipt (board_reservation E operation i actor key) coupon_again CouponResult coupon_marshals
      (and_then work (\<lambda>(r, changed). if \<not> validStored r then fail CpUnavailable else announced E (board_event E now operation r actor key) changed r))))
    db = (Inr r, db')"
    using run by (auto simp: boardMutation_def split: if_splits)
  show ?thesis
    by (rule receipted_call [OF call good]) (erule announced_body, rule work [OF core])
qed

lemma coupon_Claim_receipted:
  assumes run: "coupon_Claim E now i customer key db = (Inr c, db')" and good: "coupon_good db"
  shows "receipted E (claim_reservation E i customer key) (ClaimResult c) db db'"
proof -
  have core: "core_ok (core_of (reserved_db x db))" for x using good by (simp add: coupon_good_def)
  have call: "coupon_classified (within (with_coupon_receipt (claim_reservation E i customer key) claim_again ClaimResult (\<lambda>c. json_instant (cc_at c))
      (claim_body E now i customer key))) db = (Inr c, db')"
    using run by (auto simp: coupon_Claim_def split: if_splits)
  show ?thesis
    by (rule receipted_call [OF call good]) (use claim_bodyD core in blast)
qed

section \<open>The import\<close>

lemma CreateHistoricalDefinitionD:
  assumes "CreateHistoricalDefinition V h db = (Inr r, db')" and ok: "core_ok (core_of db)"
  shows "follows_quietly db db'"
    and "\<exists>w. find_coupon (co_id (hx_coupon r)) db' = Some w \<and> cw_rules w = co_rules (hx_coupon h)"
proof -
  let ?i = "cp_next_coupon db" let ?w = "historical_row ?i (hx_coupon h)"
  let ?f = "\<lambda>w. w\<lparr>cw_issued := co_issued (hx_coupon h), cw_first_claim := map_option pg_micros (hx_first_claim h)\<rparr>"
  let ?db = "db\<lparr>cp_coupons := cp_coupons db @ [?w], cp_next_coupon := ?i + 1\<rparr>"
  let ?m = "\<lparr>xm_coupon = ?i, xm_source = hx_source h, xm_status = hx_status h\<rparr>"
  obtain db2 db3 db4 db5 where t: "insert_history_targets V ?i 0 (co_targets (hx_coupon h)) ?db = (Inr (), db2)"
    and f: "restore_facts ?i (co_issued (hx_coupon h)) (hx_first_claim h) db2 = (Inr (), db3)"
    and m: "insert_marker ?m db3 = (Inr (), db4)" and n: "increment_count db4 = (Inr (), db5)"
    and g: "GetHistoricalDefinition ?i db5 = (Inr r, db')"
    using assms(1) by (auto simp: CreateHistoricalDefinition_def and_then_Inr_iff insert_coupon_def Let_def split: if_splits)
  obtain ts where ts: "db2 = ?db\<lparr>cp_targets := cp_targets db @ ts\<rparr>" "\<forall>t \<in> set ts. xt_coupon t = ?i"
    using insert_history_targetsD [OF t] by (auto simp: adds_targets_def)
  have new: "cw_id v \<noteq> ?i" if "v \<in> set (cp_coupons db)" for v using ok that by (auto simp: core_ok_def core_keys_def)
  have "List.find (\<lambda>w. cw_id w = ?i) (cp_coupons db) = None" using new by (auto simp: find_None_iff)
  then have found: "find_coupon ?i db2 = Some ?w" using ts(1) by (simp add: find_coupon_def find_append historical_row_def)
  have same: "map (\<lambda>w'. if cw_id w' = ?i then ?f w' else w') (cp_coupons db) = cp_coupons db" by (rule map_idI) (simp add: new)
  obtain k where u: "update_coupon ?i (\<lambda>w. cw_status w = ''archived'' \<and> cw_issued w = 0 \<and> cw_first_claim w = None) ?f db2 = (Inr k, db3)" "k = 1"
    using f by (auto simp: restore_facts_def and_then_Inr_iff split: if_splits)
  have row: "coupon_row_ok (?f ?w)" and db3: "db3 = db2\<lparr>cp_coupons := cp_coupons db @ [?f ?w]\<rparr>"
    using u found same ts(1) by (auto simp: update_coupon_def historical_row_def split: if_splits)
  have db4: "db4 = db3\<lparr>cp_markers := cp_markers db @ [?m]\<rparr>" using m db3 ts(1) by (auto simp: insert_marker_def split: if_splits)
  have "db' = db5" using g cpn_GetD by (auto simp: GetHistoricalDefinition_def and_then_Inr_iff split: option.splits)
  then have db': "db' = db4\<lparr>cp_total := cp_total db + 1\<rparr>" using increment_countD [OF n] db4 db3 ts by simp
  have core: "core_of db' = (core_of db)\<lparr>ko_coupons := ko_coupons (core_of db) @ [?f ?w], ko_targets := ko_targets (core_of db) @ ts,
      ko_total := ko_total (core_of db) + 1, ko_markers := ko_markers (core_of db) @ [?m], ko_next := ko_next (core_of db) + 1\<rparr>"
    using db' db4 db3 ts by (simp add: core_of_def)
  have "coupon_change (core_of db) (core_of db')" unfolding core
    by (rule imported) (use ts row in \<open>simp_all add: historical_row_def\<close>)
  then show "follows_quietly db db'" using db' db4 db3 ts by (simp add: follows_quietly_def framed_def quiet_def same_records_def)
  have "find_coupon ?i db' = Some (?f ?w)"
    using \<open>List.find _ _ = None\<close> db' db4 db3 by (simp add: find_coupon_def find_append historical_row_def)
  moreover have "co_id (hx_coupon r) = ?i"
    using g by (auto simp: GetHistoricalDefinition_def and_then_Inr_iff cpn_Get_def mapCoupon_def find_coupon_def find_Some_iff split: option.splits)
  ultimately show "\<exists>w. find_coupon (co_id (hx_coupon r)) db' = Some w \<and> cw_rules w = co_rules (hx_coupon h)"
    by (simp add: historical_row_def)
qed

lemma GetHistoricalDefinition_same: "GetHistoricalDefinition i db = (Inr h, db') \<Longrightarrow> db' = db"
  using cpn_GetD by (auto simp: GetHistoricalDefinition_def and_then_Inr_iff split: option.splits)

lemma history_access_Inr: "history_access m db = (Inr v, db') \<longleftrightarrow> m db = (Inr v, db')"
  by (auto simp: history_access_def split: prod.splits sum.splits)

text \<open>An import reads the target of its receipt, or creates one and records it.\<close>

lemma importHistoryD:
  assumes "importHistory J kind source payload expected access db = (Inr r, db')"
  obtains (replayed) r0 where "cj_load J kind source = Inr (Some r0)" "r = r0\<lparr>hv_replayed := True\<rparr>" "1 \<le> hv_target r0"
      "hv_source r0 = source" "hv_payload r0 = payload" "hv_digest r0 = expected (hv_target r0)"
      "access (hv_target r0) db = (Inr (hv_target r0, hv_digest r0), db')"
  | (fresh) "cj_load J kind source = Inr None" "access 0 db = (Inr (hv_target r, hv_digest r), db')" "1 \<le> hv_target r"
      "hv_digest r = expected (hv_target r)" "hv_source r = source" "hv_payload r = payload" "\<not> hv_replayed r"
  using assms by (auto simp: importHistory_def and_then_Inr_iff Let_def split: if_splits sum.splits option.splits)

lemma definition_access_follows:
  assumes "definition_access E V h i db = (Inr x, db')" and ok: "core_ok (core_of db)"
  shows "follows_quietly db db'"
proof -
  obtain a where "(if i = 0 then CreateHistoricalDefinition V h else GetHistoricalDefinition i) db = (Inr a, db')"
    using assms(1) by (auto simp: definition_access_def history_access_Inr and_then_Inr_iff)
  then show ?thesis using CreateHistoricalDefinitionD(1) [OF _ ok] GetHistoricalDefinition_same follows_refl by (metis (full_types))
qed

lemma ImportDefinition_follows:
  assumes "ImportDefinition E V J source payload h db = (Inr r, db')" and ok: "core_ok (core_of db)"
  shows "follows_quietly db db'"
proof -
  let ?h = "normalizeHistoricalDefinition h"
  have "importHistory J ''definitions'' source payload (expected_digest E ?h) (definition_access E V ?h) db = (Inr r, db')"
    using assms(1) by (auto simp: ImportDefinition_def Let_def split: if_splits)
  then obtain i x where "definition_access E V ?h i db = (Inr x, db')" by (rule importHistoryD) blast+
  then show ?thesis using definition_access_follows ok by blast
qed

section \<open>The former claims and redemptions\<close>

text \<open>The imported records have their own identifiers, and only grow.\<close>

definition records_ok :: "'q coupon_db \<Rightarrow> bool" where
  "records_ok db \<longleftrightarrow> 0 < cp_next_old_claim db \<and> 0 < cp_next_old_redemption db \<and>
     (\<forall>c \<in> set (cp_old_claims db). hk_id c < cp_next_old_claim db) \<and>
     (\<forall>m \<in> set (cp_old_redemptions db). hm_id m < cp_next_old_redemption db)"

definition records_grow :: "'q coupon_db \<Rightarrow> 'q coupon_db \<Rightarrow> bool" where
  "records_grow db db' \<longleftrightarrow> (\<exists>cs. cp_old_claims db' = cp_old_claims db @ cs) \<and>
     (\<exists>ms. cp_old_redemptions db' = cp_old_redemptions db @ ms)"

lemma records_grow_trans: "records_grow a b \<Longrightarrow> records_grow b c \<Longrightarrow> records_grow a c"
  by (auto simp: records_grow_def)

text \<open>An import of such a record changes nothing else.\<close>

definition adds_records :: "'q coupon_db \<Rightarrow> 'q coupon_db \<Rightarrow> bool" where
  "adds_records db db' \<longleftrightarrow> records_grow db db' \<and> (records_ok db \<longrightarrow> records_ok db') \<and> core_of db' = core_of db \<and>
     cp_receipts db' = cp_receipts db \<and> cp_next_receipt db' = cp_next_receipt db \<and> cp_events db' = cp_events db"

lemma adds_records_refl: "adds_records db db"
  by (simp add: adds_records_def records_grow_def)

lemma CreateHistoricalClaimD:
  assumes "CreateHistoricalClaim W c db = (Inr a, db')"
  shows "a = stored_claim (cp_next_old_claim db) c" and "adds_records db db'" and "cp_old_claims db' = cp_old_claims db @ [a]"
  using assms by (auto 0 4 simp: CreateHistoricalClaim_def Let_def less_imp_le adds_records_def records_grow_def records_ok_def stored_claim_def split: if_splits)

lemma CreateHistoricalRedemptionD:
  assumes "CreateHistoricalRedemption W m db = (Inr a, db')"
  shows "a = stored_redemption (cp_next_old_redemption db) m" and "adds_records db db'"
    and "cp_old_redemptions db' = cp_old_redemptions db @ [a]"
  using assms by (auto 0 4 simp: CreateHistoricalRedemption_def Let_def less_imp_le adds_records_def records_grow_def records_ok_def stored_redemption_def split: if_splits)

lemma GetHistoricalClaim_Inr: "GetHistoricalClaim i db = (Inr c, db') \<longleftrightarrow> db' = db \<and> List.find (\<lambda>c. hk_id c = i) (cp_old_claims db) = Some c"
  by (auto simp: GetHistoricalClaim_def split: option.splits)

lemma GetHistoricalRedemption_Inr:
  "GetHistoricalRedemption i db = (Inr m, db') \<longleftrightarrow> db' = db \<and> List.find (\<lambda>m. hm_id m = i) (cp_old_redemptions db) = Some m"
  by (auto simp: GetHistoricalRedemption_def split: option.splits)

lemma claim_access_adds:
  assumes "claim_access E W c i db = (Inr x, db')"
  shows "adds_records db db'"
proof -
  obtain p db1 a where p: "GetHistoricalDefinition (hk_coupon c) db = (Inr p, db1)"
    and a: "(if i = 0 then CreateHistoricalClaim W c else GetHistoricalClaim i) db1 = (Inr a, db')"
    using assms by (auto simp: claim_access_def history_access_Inr and_then_Inr_iff split: if_splits)
  have "db1 = db" using GetHistoricalDefinition_same [OF p] .
  then show ?thesis using a CreateHistoricalClaimD(2) adds_records_refl by (auto simp: GetHistoricalClaim_Inr split: if_splits)
qed

lemma redemption_access_adds:
  assumes "redemption_access E W m i db = (Inr x, db')"
  shows "adds_records db db'"
proof -
  obtain p db1 a where p: "GetHistoricalClaim (hm_claim m) db = (Inr p, db1)"
    and a: "(if i = 0 then CreateHistoricalRedemption W m else GetHistoricalRedemption i) db1 = (Inr a, db')"
    using assms by (auto simp: redemption_access_def history_access_Inr and_then_Inr_iff split: if_splits)
  have "db1 = db" using p by (simp add: GetHistoricalClaim_Inr)
  then show ?thesis using a CreateHistoricalRedemptionD(2) adds_records_refl by (auto simp: GetHistoricalRedemption_Inr split: if_splits)
qed

lemma ImportClaim_adds: "ImportClaim E W J source payload c db = (Inr r, db') \<Longrightarrow> adds_records db db'"
  by (auto simp: ImportClaim_def Let_def elim!: importHistoryD dest: claim_access_adds split: if_splits)

lemma ImportRedemption_adds: "ImportRedemption E W J source payload m db = (Inr r, db') \<Longrightarrow> adds_records db db'"
  by (auto simp: ImportRedemption_def Let_def elim!: importHistoryD dest: redemption_access_adds split: if_splits)

end
