(* ===== verification/CouponHistory.thy ===== *)
theory CouponHistory
  imports CouponRefine EventHistory
begin

text \<open>
  Histories of the coupons: the calls of the service and of the importer, the other users of the
  event log, and changes of the tokens, in any order. Whatever lasts over one step lasts over a
  history (the locale \<open>lasting_history\<close>).
\<close>

section \<open>The interface\<close>

locale lasting_history =
  fixes step :: "'d \<Rightarrow> 'd \<Rightarrow> bool"
    and good :: "'d \<Rightarrow> bool"
    and lasts :: "'d \<Rightarrow> 'd \<Rightarrow> bool"
  assumes start: "good d \<Longrightarrow> lasts d d"
    and chain: "good a \<Longrightarrow> lasts a b \<Longrightarrow> lasts b c \<Longrightarrow> lasts a c"
    and step_good: "good d \<Longrightarrow> step d d' \<Longrightarrow> good d'"
    and step_lasts: "good d \<Longrightarrow> step d d' \<Longrightarrow> lasts d d'"
begin

lemma history_good: "step\<^sup>*\<^sup>* d d' \<Longrightarrow> good d \<Longrightarrow> good d'"
  by (induction rule: rtranclp_induct) (auto intro: step_good)

lemma history_lasts: "step\<^sup>*\<^sup>* d d' \<Longrightarrow> good d \<Longrightarrow> lasts d d'"
proof (induction rule: rtranclp_induct)
  case (step y z)
  then have "good y" using history_good by blast
  then show ?case using step by (blast intro: chain step_lasts)
qed (rule start)

end

section \<open>The calls\<close>

datatype coupon_call =
    CallCreate UpsertCommand
  | CallUpdate UpsertCommand
  | CallUpdateDraft UpsertCommand
  | CallPublish int int string
  | CallStop int int string
  | CallArchive int int string
  | CallDelete int int string
  | CallCopy int int string
  | CallClaim int int string

definition as_result :: "('a \<Rightarrow> coupon_result) \<Rightarrow> ('q, 'a) coupon_tx \<Rightarrow> ('q, coupon_result) coupon_tx" where
  "as_result f m = and_then m (\<lambda>v. ret (f v))"

fun coupon_exec :: "coupon_env \<Rightarrow> product_view \<Rightarrow> instant \<Rightarrow> coupon_call \<Rightarrow> ('q, coupon_result) coupon_tx" where
  "coupon_exec E V now (CallCreate c) = as_result CouponResult (coupon_Create E V now c)"
| "coupon_exec E V now (CallUpdate c) = as_result CouponResult (coupon_Update E V now c)"
| "coupon_exec E V now (CallUpdateDraft c) = as_result CouponResult (coupon_UpdateDraft E V now c)"
| "coupon_exec E V now (CallPublish i actor key) = as_result CouponResult (coupon_Publish E V now i actor key)"
| "coupon_exec E V now (CallStop i actor key) = as_result CouponResult (coupon_Stop E V now i actor key)"
| "coupon_exec E V now (CallArchive i actor key) = as_result CouponResult (coupon_Archive E now i actor key)"
| "coupon_exec E V now (CallDelete i actor key) = as_result CouponResult (coupon_Delete E now i actor key)"
| "coupon_exec E V now (CallCopy i actor key) = as_result CouponResult (coupon_Copy E V now i actor key)"
| "coupon_exec E V now (CallClaim i customer key) = as_result ClaimResult (coupon_Claim E now i customer key)"

inductive coupon_step :: "coupon_env \<Rightarrow> 'q coupon_db \<Rightarrow> 'q coupon_db \<Rightarrow> bool" for E where
  called: "coupon_step E db (snd (coupon_exec E V now call db))"
| imports_definition: "coupon_step E db (snd (within (ImportDefinition E V J source payload h) db))"
| imports_claim: "coupon_step E db (snd (within (ImportClaim E W J source payload c) db))"
| imports_redemption: "coupon_step E db (snd (within (ImportRedemption E W J source payload m) db))"
| events_move: "coupon_step E db (db\<lparr>cp_events := event_exec N P x (cp_events db)\<rparr>)"
| tokens_change: "coupon_step E db (db\<lparr>cp_sessions := ks, cp_grants := gs\<rparr>)"

definition no_coupons :: "'q event_db \<Rightarrow> 'q coupon_db" where
  "no_coupons l = \<lparr>cp_coupons = [], cp_targets = [], cp_total = 0, cp_receipts = [], cp_claims = [], cp_markers = [],
     cp_sessions = [], cp_grants = [], cp_events = l, cp_next_coupon = 1, cp_next_receipt = 1, cp_next_claim = 1,
     cp_old_claims = [], cp_old_redemptions = [], cp_next_old_claim = 1, cp_next_old_redemption = 1\<rparr>"

section \<open>What a call does\<close>

lemma as_result_Inr: "as_result f m db = (Inr x, db') \<longleftrightarrow> (\<exists>v. x = f v \<and> m db = (Inr v, db'))"
  by (auto simp: as_result_def and_then_Inr_iff)

lemma as_result_Inl: "as_result f m db = (Inl e, db') \<longleftrightarrow> m db = (Inl e, db')"
  by (auto simp: as_result_def and_then_def split: prod.splits sum.splits)

lemma coupon_mutate_Inl: "coupon_mutate E V now operation input desired draftOnly db = (Inl e, db') \<Longrightarrow> db' = db"
  by (auto simp: coupon_mutate_def Let_def dest: coupon_classified_Inl split: if_splits sum.splits prod.splits)

lemma board_Inl: "boardMutation E now operation i actor key work db = (Inl e, db') \<Longrightarrow> db' = db"
  by (auto simp: boardMutation_def dest: coupon_classified_Inl split: if_splits)

lemma coupon_exec_Inl: "coupon_exec E V now call db = (Inl e, db') \<Longrightarrow> db' = db"
  by (cases call) (auto simp: as_result_Inl coupon_Create_def coupon_Update_def coupon_UpdateDraft_def coupon_Publish_def coupon_Stop_def
      coupon_Archive_def coupon_Delete_def coupon_Copy_def coupon_Claim_def dest: coupon_mutate_Inl board_Inl coupon_classified_Inl split: if_splits)

text \<open>A call that succeeds has a receipt.\<close>

lemma coupon_exec_Inr:
  assumes run: "coupon_exec E V now call db = (Inr result, db')" and good: "coupon_good db"
  shows "\<exists>x. receipted E x result db db'"
proof -
  consider (mutate) operation input desired draftOnly r where "result = CouponResult r"
      "coupon_mutate E V now operation input desired draftOnly db = (Inr r, db')"
      "operation \<in> {''create'', ''update''} \<or> operation = ''publish'' \<and> desired = ''published'' \<or> operation = ''stop'' \<and> desired = ''stopped''"
    | (archive) i actor key r where "result = CouponResult r" "boardMutation E now ''archive'' i actor key (archive_body now i actor) db = (Inr r, db')"
    | (delete) i actor key r where "result = CouponResult r" "boardMutation E now ''delete'' i actor key (delete_coupon_body now i) db = (Inr r, db')"
    | (copy) i actor key r where "result = CouponResult r" "boardMutation E now ''copy'' i actor key (copy_body V now i actor key) db = (Inr r, db')"
    | (claim) i customer key c where "result = ClaimResult c" "coupon_Claim E now i customer key db = (Inr c, db')"
    using run
    by (cases call) (auto simp: as_result_Inr coupon_Create_def coupon_Update_def coupon_UpdateDraft_def coupon_Publish_def coupon_Stop_def
        coupon_Archive_def coupon_Delete_def coupon_Copy_def split: if_splits)
  then show ?thesis
  proof cases
    case mutate
    then show ?thesis using coupon_mutate_receipted [OF mutate(2) good mutate(3)] by blast
  next
    case archive
    then show ?thesis using board_receipted [OF archive(2) good] archive_follows by blast
  next
    case delete
    then show ?thesis using board_receipted [OF delete(2) good] delete_follows by blast
  next
    case copy
    then show ?thesis using board_receipted [OF copy(2) good] copy_follows by blast
  next
    case claim
    then show ?thesis using coupon_Claim_receipted [OF claim(2) good] by blast
  qed
qed

text \<open>
  One step of a history: a change of the core, the log grows, the receipts are kept; the claims that
  it adds are in the log.
\<close>

definition coupon_effect :: "'q coupon_db \<Rightarrow> 'q coupon_db \<Rightarrow> bool" where
  "coupon_effect db db' \<longleftrightarrow> coupon_change (core_of db) (core_of db') \<and> fine (cp_events db) (cp_events db') \<and>
     log_grows (cp_events db) (cp_events db') \<and> coupon_receipts_ok db' \<and> (\<exists>rs. cp_receipts db' = cp_receipts db @ rs) \<and>
     records_ok db' \<and> records_grow db db' \<and>
     (\<exists>cs. cp_claims db' = cp_claims db @ cs \<and> (\<forall>c \<in> set cs. claim_logged c (cp_events db')))"

definition history_ok :: "'q coupon_db \<Rightarrow> bool" where
  "history_ok db \<longleftrightarrow> coupon_good db \<and> event_db_ok (cp_events db) \<and> records_ok db \<and> (\<forall>c \<in> set (cp_claims db). claim_logged c (cp_events db))"

lemma appended_log_fine:
  assumes "appended_log E l l'" and "event_db_ok l"
  shows "fine l l' \<and> log_grows l l'"
proof (cases "l' = l")
  case True
  then show ?thesis using assms(2) by (simp add: fine_refl log_grows_same)
next
  case False
  then obtain e i where "appender_Append (cn_events E) e l = (Inr i, l')" using assms(1) by (auto simp: appended_log_def)
  then have "l' = event_exec (cn_events E) P (OpAppend e) l" for P :: "'a delivery_repository" by simp
  then show ?thesis using event_exec_fine [OF assms(2)] event_exec_log by metis
qed

lemma coupon_receipts_ok_done:
  assumes ok: "coupon_receipts_ok db" and none: "receipt_at (reservation_id x) db = None"
    and rs: "cp_receipts db' = cp_receipts db @ [done_receipt db x result]" "cp_next_receipt db' = cp_next_receipt db + 1"
  shows "coupon_receipts_ok db'"
proof -
  have r: "receipt_id (done_receipt db x result) = reservation_id x" "cr_id (done_receipt db x result) = cp_next_receipt db"
    by (simp_all add: done_receipt_def pending_receipt_def receipt_id_def reservation_id_def)
  have "reservation_id x \<notin> receipt_id ` set (cp_receipts db)"
    using none by (auto simp: receipt_at_def find_None_iff)
  moreover have "cp_next_receipt db \<notin> cr_id ` set (cp_receipts db)" using ok by (auto simp: coupon_receipts_ok_def)
  ultimately show ?thesis using ok r by (auto simp: coupon_receipts_ok_def rs)
qed

lemma same_records_grow: "same_records db db' \<Longrightarrow> records_ok db \<Longrightarrow> records_ok db' \<and> records_grow db db'"
  by (simp add: same_records_def records_ok_def records_grow_def)

lemma receipted_effect:
  assumes rec: "receipted E x result db db'" and ok: "history_ok db"
  shows "coupon_effect db db'"
proof (cases "receipt_at (reservation_id x) db = None")
  case False
  then have "db' = db" using rec by (simp add: receipted_def)
  then show ?thesis using ok
    by (simp add: coupon_effect_def history_ok_def coupon_good_def kept fine_refl log_grows_same records_grow_def)
next
  case True
  then have r: "coupon_change (core_of db) (core_of db')" "appended_log E (cp_events db) (cp_events db')"
    "cp_claims db' = cp_claims db @ new_claims result" "\<forall>c \<in> set (new_claims result). claim_logged c (cp_events db')"
    "cp_next_receipt db' = cp_next_receipt db + 1" "cp_receipts db' = cp_receipts db @ [done_receipt db x result]"
    using rec by (simp_all add: receipted_def)
  have "records_ok db' \<and> records_grow db db'" using same_records_grow [of db db'] rec ok
    by (simp add: receipted_def history_ok_def)
  moreover have "coupon_receipts_ok db'" using coupon_receipts_ok_done [OF _ True r(6,5)] ok by (simp add: history_ok_def coupon_good_def)
  ultimately show ?thesis using r appended_log_fine [OF r(2)] ok by (simp add: coupon_effect_def history_ok_def)
qed

lemma quiet_effect:
  assumes "follows_quietly db db'" and ok: "history_ok db"
  shows "coupon_effect db db'"
  using assms same_records_grow [of db db']
  by (simp add: coupon_effect_def follows_quietly_def framed_def quiet_def history_ok_def coupon_good_def fine_refl log_grows_same coupon_receipts_ok_def)

lemma adds_records_effect:
  assumes "adds_records db db'" and ok: "history_ok db"
  shows "coupon_effect db db'"
proof -
  have "cp_claims db' = cp_claims db" using assms(1) core_of_sel(4) by (metis adds_records_def)
  then show ?thesis using assms
    by (simp add: coupon_effect_def adds_records_def history_ok_def coupon_good_def kept fine_refl log_grows_same coupon_receipts_ok_def)
qed

lemma outside_effect:
  assumes ok: "history_ok db" and l: "fine (cp_events db) l" "log_grows (cp_events db) l"
  shows "coupon_effect db (db\<lparr>cp_sessions := ks, cp_grants := gs, cp_events := l\<rparr>)"
  using assms by (simp add: coupon_effect_def history_ok_def coupon_good_def kept coupon_receipts_ok_def records_ok_def records_grow_def)

theorem coupon_step_effect: "coupon_step E db db' \<Longrightarrow> history_ok db \<Longrightarrow> coupon_effect db db'"
proof (induction rule: coupon_step.induct)
  case (called db V now call)
  have same: "coupon_effect db db" using quiet_effect [OF follows_refl called] .
  show ?case
  proof (cases "coupon_exec E V now call db")
    case (Pair r db')
    show ?thesis
    proof (cases r)
      case (Inl e)
      then show ?thesis using same coupon_exec_Inl Pair by (metis snd_conv)
    next
      case (Inr result)
      have "coupon_good db" using called by (simp add: history_ok_def)
      then show ?thesis using coupon_exec_Inr Pair Inr receipted_effect called by (metis snd_conv)
    qed
  qed
next
  case (imports_definition db V J source payload h)
  have core: "core_ok (core_of db)" using imports_definition by (simp add: history_ok_def coupon_good_def)
  show ?case
  proof (cases "ImportDefinition E V J source payload h db")
    case (Pair r db')
    then show ?thesis
      using quiet_effect [OF follows_refl imports_definition] quiet_effect [OF _ imports_definition] ImportDefinition_follows [OF _ core]
      by (cases r) auto
  qed
next
  case (imports_claim db W J source payload c)
  then show ?case using adds_records_effect [OF adds_records_refl] adds_records_effect [OF ImportClaim_adds]
    by (cases "ImportClaim E W J source payload c db"; cases "fst (ImportClaim E W J source payload c db)") auto
next
  case (imports_redemption db W J source payload m)
  then show ?case using adds_records_effect [OF adds_records_refl] adds_records_effect [OF ImportRedemption_adds]
    by (cases "ImportRedemption E W J source payload m db"; cases "fst (ImportRedemption E W J source payload m db)") auto
next
  case (events_move db N P x)
  then have "fine (cp_events db) (event_exec N P x (cp_events db))" "log_grows (cp_events db) (event_exec N P x (cp_events db))"
    using event_exec_fine [of "cp_events db" N P x] event_exec_log [of "cp_events db" N P x] by (simp_all add: history_ok_def)
  then show ?case using outside_effect [OF events_move, where ks = "cp_sessions db" and gs = "cp_grants db"] by simp
next
  case (tokens_change db ks gs)
  have "fine (cp_events db) (cp_events db)" "log_grows (cp_events db) (cp_events db)"
    using tokens_change by (simp_all add: history_ok_def fine_refl log_grows_same)
  then show ?case using outside_effect [OF tokens_change, where l = "cp_events db" and ks = gs and gs = ks] by simp
qed

section \<open>What a history keeps\<close>

lemma claim_logged_grows: "claim_logged c l \<Longrightarrow> log_grows l l' \<Longrightarrow> claim_logged c l'"
proof -
  assume c: "claim_logged c l" and "log_grows l l'"
  then have "fst ` set (event_table l) \<subseteq> fst ` set (event_table l')"
    by (metis list.set_map log_grows_def set_append sup_ge1)
  then show ?thesis using c unfolding claim_logged_def by blast
qed

text \<open>What lasts from one database to another.\<close>

definition history_lasts :: "'q coupon_db \<Rightarrow> 'q coupon_db \<Rightarrow> bool" where
  "history_lasts db db' \<longleftrightarrow> core_lasts (core_of db) (core_of db') \<and> log_grows (cp_events db) (cp_events db') \<and>
     (\<exists>rs. cp_receipts db' = cp_receipts db @ rs) \<and> records_grow db db'"

interpretation coupons: lasting_history "coupon_step E" history_ok history_lasts
  for E :: coupon_env
proof (unfold_locales, goal_cases)
  case (1 d)
  then show ?case using coupon_change_lasts [OF kept]
    by (auto simp: history_lasts_def history_ok_def coupon_good_def log_grows_same records_grow_def)
next
  case (2 a b c)
  have "core_ok (core_of a)" using 2(1) by (simp add: history_ok_def coupon_good_def)
  then show ?case using 2(2,3) core_lasts_trans log_grows_trans records_grow_trans by (fastforce simp: history_lasts_def)
next
  case (3 d d')
  have e: "coupon_effect d d'" using coupon_step_effect 3 by blast
  obtain cs where cs: "cp_claims d' = cp_claims d @ cs" "\<forall>c \<in> set cs. claim_logged c (cp_events d')" using e by (auto simp: coupon_effect_def)
  have grows: "log_grows (cp_events d) (cp_events d')" using e by (simp add: coupon_effect_def)
  have "\<forall>c \<in> set (cp_claims d'). claim_logged c (cp_events d')"
    using cs 3(1) claim_logged_grows [OF _ grows] by (auto simp: history_ok_def)
  moreover have "event_db_ok (cp_events d')" using e by (simp add: coupon_effect_def fine_def)
  moreover have "coupon_good d'" using e 3(1) coupon_change_ok by (auto simp: coupon_good_def coupon_effect_def history_ok_def)
  ultimately show ?case using e by (simp add: history_ok_def coupon_effect_def)
next
  case (4 d d')
  then show ?case using coupon_step_effect [OF 4(2,1)] coupon_change_lasts
    by (auto simp: history_lasts_def coupon_effect_def history_ok_def coupon_good_def)
qed

lemma no_coupons_ok: "event_db_ok l \<Longrightarrow> history_ok (no_coupons l)"
  by (simp add: history_ok_def coupon_good_def core_ok_def core_keys_def core_claims_def coupon_receipts_ok_def records_ok_def no_coupons_def)

end
