(* ===== verification/CouponCalls.thy ===== *)
theory CouponCalls
  imports CouponHistory
begin

text \<open>
  What single calls of the coupon service answer: the names of copies, the columns of receipts, and
  the answer of a claim with a new key.
\<close>

section \<open>Names of copies\<close>

lemma well_formed_high: "well_formed_seq bs \<Longrightarrow> 0 < i \<Longrightarrow> i < length bs \<Longrightarrow> 128 \<le> byte (bs ! i)"
proof -
  assume bs: "well_formed_seq bs" and i: "0 < i" "i < length bs"
  then obtain c d ds where "bs = c # d # ds" "second_ok c d" "list_all continuation ds"
    by (auto simp: well_formed_seq_def split: list.splits)
  then show ?thesis using i
    by (cases i rule: nat.exhaust; cases "i - 1")
      (auto simp: second_ok_def in_range_def list_all_length split: if_splits)
qed

text \<open>A character of one byte is a rune of its own, whatever comes before it.\<close>

lemma rune_width_before_ascii:
  assumes "byte d < 128"
  shows "rune_width ((c # cs) @ d # t) = rune_width (c # cs)"
proof (cases "lead_width c \<le> length (c # cs)")
  case True
  then have "take (lead_width c) ((c # cs) @ d # t) = take (lead_width c) (c # cs)" by (simp only: take_append) simp
  then show ?thesis using True by (simp only: append_Cons rune_width_Cons) simp
next
  case False
  have "\<not> well_formed_seq (take (lead_width c) ((c # cs) @ d # t))" if le: "lead_width c \<le> length ((c # cs) @ d # t)"
  proof
    assume wf: "well_formed_seq (take (lead_width c) ((c # cs) @ d # t))"
    have "take (lead_width c) ((c # cs) @ d # t) ! length (c # cs) = d" using False by (simp only: nth_take not_le nth_append_length)
    then show False using well_formed_high [OF wf, of "length (c # cs)"] False le assms by simp
  qed
  then show ?thesis using False by (simp only: append_Cons rune_width_Cons) auto
qed

lemma runes_before_ascii:
  assumes "byte d < 128"
  shows "runes (s @ d # t) = runes s @ runes (d # t)"
proof (induction s rule: runes.induct)
  case (2 c cs)
  let ?w = "rune_width (c # cs)"
  have w: "?w \<le> length (c # cs)" by (rule rune_width_le)
  have "runes ((c # cs) @ d # t) = take ?w ((c # cs) @ d # t) # runes (drop ?w ((c # cs) @ d # t))"
    using rune_width_before_ascii [OF assms, of c cs t] by (metis append_Cons runes.simps(2))
  also have "take ?w ((c # cs) @ d # t) = take ?w (c # cs)" using w by (simp only: take_append) simp
  also have "drop ?w ((c # cs) @ d # t) = drop ?w (c # cs) @ d # t" using w by (simp only: drop_append) simp
  finally show ?case using 2 by simp
qed simp

lemma runes_copy_suffix: "runes copy_suffix = [[CHR '' ''], [CHR 0xE5, CHR 0x89, CHR 0xAF], [CHR 0xE6, CHR 0x9C, CHR 0xAC]]"
  by code_simp

lemma valid_rune_text: "valid_utf8 s \<Longrightarrow> r \<in> set (runes s) \<Longrightarrow> rune_text r = r"
  by (cases r) (auto simp: valid_utf8_def rune_text_def list_all_iff)

lemma runes_trim_subset: "set (runes (trim_space s)) \<subseteq> set (runes s)"
  using trim_runes_slice [of "runes s"] unfolding runes_trim_space by (metis set_drop_subset set_take_subset subset_trans)

lemma copied_name:
  assumes "valid_utf8 name"
  shows "copiedCouponName name = concat (take 42 (runes (trim_space name))) @ copy_suffix"
proof -
  have "map rune_text (take 42 (runes (trim_space name))) = take 42 (runes (trim_space name))"
    by (rule map_idI) (use runes_trim_subset [of name] valid_rune_text [OF assms] in \<open>blast dest: in_set_takeD\<close>)
  then show ?thesis by (simp add: copiedCouponName_def)
qed

lemma trim_runes_hd:
  assumes "trim_runes rs = rs" and "rs \<noteq> []"
  shows "\<not> is_space (hd rs)"
proof
  assume sp: "is_space (hd rs)"
  have "length (trim_runes rs) \<le> length (dropWhile is_space rs)"
    using length_dropWhile_le [of is_space "rev (dropWhile is_space rs)"] by (simp add: trim_runes_def)
  also have "\<dots> < length rs" using sp assms(2) length_dropWhile_le [of is_space "tl rs"] by (cases rs) auto
  finally show False using assms(1) by simp
qed

lemma runes_copied: "valid_utf8 name \<Longrightarrow> runes (copiedCouponName name) = take 42 (runes (trim_space name)) @ runes copy_suffix"
proof -
  assume utf8: "valid_utf8 name"
  let ?rs = "take 42 (runes (trim_space name))"
  have "runes (concat ?rs @ copy_suffix) = runes (concat ?rs) @ runes copy_suffix"
    unfolding copy_suffix_def by (rule runes_before_ascii) (simp add: byte_def)
  then show ?thesis by (simp only: runes_concat_take copied_name [OF utf8])
qed

lemma trim_copied_name:
  assumes "valid_utf8 name" and "trim_space name \<noteq> []"
  shows "trim_space (copiedCouponName name) = copiedCouponName name"
proof -
  let ?rs = "take 42 (runes (trim_space name))"
  have ne: "runes (trim_space name) \<noteq> []" using assms(2) by (metis concat.simps(1) concat_runes)
  have "trim_runes (runes (trim_space name)) = runes (trim_space name)" using runes_trim_space [of name] by simp
  then have "\<not> is_space (hd (runes (trim_space name)))"
    using trim_runes_hd ne by metis
  then have hd: "?rs \<noteq> []" "\<not> is_space (hd ?rs)" using ne by simp_all
  have "runes (concat ?rs @ copy_suffix) = ?rs @ runes copy_suffix"
    using runes_copied [OF assms(1)] by (simp only: copied_name [OF assms(1)])
  moreover have "dropWhile is_space (?rs @ xs) = ?rs @ xs" for xs using hd by (cases ?rs) auto
  moreover have "\<not> is_space [CHR 0xE6, CHR 0x9C, CHR 0xAC]" by code_simp
  ultimately have "trim_runes (runes (concat ?rs @ copy_suffix)) = runes (concat ?rs @ copy_suffix)"
    by (simp add: trim_runes_def runes_copy_suffix)
  then show ?thesis by (simp only: copied_name [OF assms(1)] trim_space_def [of "concat ?rs @ copy_suffix"] concat_runes)
qed

lemma length_concat_ge: "\<forall>r \<in> set rs. r \<noteq> [] \<Longrightarrow> length rs \<le> length (concat rs)"
proof (induction rs)
  case (Cons a rs)
  then have "length rs \<le> length (concat rs)" "a \<noteq> []" by simp_all
  then show ?case by (cases a) simp_all
qed simp

text \<open>The copy of a name of more than 38 bytes has more than 45.\<close>

lemma copied_name_long:
  assumes "valid_utf8 name" and "38 < length (trim_space name)"
  shows "45 < length (copiedCouponName name)"
proof -
  let ?rs = "runes (trim_space name)"
  have "38 < length (concat (take 42 ?rs))"
  proof (cases "length ?rs \<le> 42")
    case True
    then show ?thesis using assms(2) by simp
  next
    case False
    have "\<forall>r \<in> set (take 42 ?rs). r \<noteq> []" using runes_nonempty by (blast dest: in_set_takeD)
    then have "length (take 42 ?rs) \<le> length (concat (take 42 ?rs))" by (rule length_concat_ge)
    then show ?thesis using False by simp
  qed
  then show ?thesis by (simp add: copied_name [OF assms(1)] copy_suffix_def)
qed

section \<open>Columns of receipts\<close>

lemma show_int_short: "0 < v \<Longrightarrow> v \<le> max_int64 \<Longrightarrow> length (show_int v) \<le> 19"
  using length_show_nat [of "nat v" 19] by (simp add: show_int_def max_int64_def nat_less_iff)

lemma scope_ok:
  assumes "0 < v" and "v \<le> max_int64" and "hd p \<noteq> CHR '' ''" and "p \<noteq> []" and "length p \<le> 20"
  shows "btrimmed (p @ show_int v)" and "p @ show_int v \<noteq> []" and "rune_count (p @ show_int v) \<le> 200"
proof -
  have "is_digit (last (show_int v))" using show_int_digits [of v] show_int_not_Nil [of v] assms(1) by (simp add: last_in_set)
  then have "last (show_int v) \<noteq> CHR '' ''" by (auto simp: is_digit_def in_range_def byte_def)
  then show "btrimmed (p @ show_int v)" using assms show_int_not_Nil [of v] by (simp add: btrimmed_def)
  have "length (p @ show_int v) \<le> 200" using show_int_short assms by fastforce
  then show "rune_count (p @ show_int v) \<le> 200" using rune_count_le_length le_trans by blast
  show "p @ show_int v \<noteq> []" using assms by simp
qed

lemma receipt_columns:
  assumes sha: "\<And>s. length (cn_sha256 E s) = 32" and v: "0 < v" "v \<le> max_int64"
  shows "receipt_columns_ok (claim_reservation E i v key)"
    "operation \<in> {''archive'', ''delete'', ''copy''} \<Longrightarrow> receipt_columns_ok (board_reservation E operation i v key)"
  using scope_ok [OF v, of "''customer:''"] scope_ok [OF v, of "''admin:''"] sha
  by (auto simp: receipt_columns_ok_def claim_reservation_def board_reservation_def customer_scope_def admin_scope_def)

section \<open>The answer of a claim\<close>

definition claim_open :: "instant \<Rightarrow> coupon_row \<Rightarrow> bool" where
  "claim_open now w \<longleftrightarrow> cw_status w = ''published'' \<and> cw_issued w < cu_total (cw_rules w) \<and>
     cu_claim_from (cw_rules w) \<le> now \<and> now < cu_claim_until (cw_rules w)"

definition new_claim :: "coupon_env \<Rightarrow> instant \<Rightarrow> int \<Rightarrow> int \<Rightarrow> string \<Rightarrow> 'q coupon_db \<Rightarrow> CouponClaim" where
  "new_claim E now i customer key db = \<lparr>cc_id = cp_next_claim db, cc_coupon = i, cc_customer = customer,
     cc_number = int (length (claims_of i customer db)) + 1, cc_ref = claim_ref E key customer, cc_status = ''claimed'',
     cc_at = pg_micros now\<rparr>"

text \<open>The row, the claim, the receipt and the event that a granted claim writes.\<close>

definition claimed_db :: "coupon_env \<Rightarrow> instant \<Rightarrow> int \<Rightarrow> int \<Rightarrow> string \<Rightarrow> 'q event_db \<Rightarrow> 'q coupon_db \<Rightarrow> 'q coupon_db" where
  "claimed_db E now i customer key l db = (let c = new_claim E now i customer key db in
     db\<lparr>cp_coupons := map (\<lambda>w. if cw_id w = i then issued_row now w else w) (cp_coupons db),
       cp_claims := cp_claims db @ [c], cp_next_claim := cp_next_claim db + 1,
       cp_receipts := cp_receipts db @ [done_receipt db (claim_reservation E i customer key) (ClaimResult c)],
       cp_next_receipt := cp_next_receipt db + 1, cp_events := l\<rparr>)"

lemma hex_claim_chars: "list_all (\<lambda>c. in_range 65 90 c \<or> in_range 97 122 c \<or> in_range 48 57 c \<or> c = CHR ''_'' \<or> c = CHR ''-'') (hex_encode s)"
  using hex_encode_lower [of s] by (auto simp: list_all_iff is_lower_hex_def in_range_def is_digit_def)

lemma claim_ref_fits:
  assumes "length (claim_digest E key customer) = 32"
  shows "claim_ref_ok (claim_ref E key customer)"
  using assms hex_claim_chars [of "take 16 (claim_digest E key customer)"] by (simp add: claim_ref_ok_def claim_ref_def)

lemma wrap32_small: "0 \<le> v \<Longrightarrow> v \<le> max_int32 \<Longrightarrow> wrap32 v = v"
  by (simp add: wrap32_def max_int32_def)

lemma claim_open_active:
  assumes "coupon_row_ok w"
  shows "co_availability (withAvailability ((mapCoupon db w)\<lparr>co_history := h\<rparr>) now) = ''active'' \<longleftrightarrow> claim_open now w"
  using assms by (auto simp: withAvailability_def mapCoupon_def claim_open_def coupon_row_ok_def Let_def)

lemma issued_row_fits:
  assumes "coupon_row_ok w" and "cw_issued w < cu_total (cw_rules w)" and "cw_created w \<le> pg_micros now"
  shows "coupon_row_ok (issued_row now w)"
  using assms by (auto simp: coupon_row_ok_def issued_row_def Let_def split: option.split)

text \<open>What a claim with a new key relies on.\<close>

definition claim_ready :: "coupon_env \<Rightarrow> instant \<Rightarrow> int \<Rightarrow> int \<Rightarrow> string \<Rightarrow> 'q event_db \<Rightarrow> 'q coupon_db \<Rightarrow> bool" where
  "claim_ready E now i customer key l db \<longleftrightarrow>
     1 \<le> i \<and> 1 \<le> customer \<and> customer \<le> max_int64 \<and> validBoardKey key \<and> json_instant (pg_micros now) \<and>
     receipt_at (reservation_id (claim_reservation E i customer key)) db = None \<and>
     claim_ref E key customer \<notin> cc_ref ` set (cp_claims db) \<and> int (length (claims_of i customer db)) < max_int32 \<and>
     (\<forall>w. find_coupon i db = Some w \<longrightarrow> cw_version w < max_int64 \<and> cw_created w \<le> pg_micros now) \<and>
     (\<exists>j. appender_Append (cn_events E) (claim_event E now key (new_claim E now i customer key db)) (cp_events db) = (Inr j, l))"

lemma claim_body_answer:
  assumes ready: "claim_ready E now i customer key l db" and ok: "history_ok db" and sha: "\<And>s. length (cn_sha256 E s) = 32"
    and db0: "db0 = reserved_db x db"
  shows "claim_body E now i customer key db0 = (case find_coupon i db of
      None \<Rightarrow> (Inl CpNotFound, db0)
    | Some w \<Rightarrow>
        if \<not> claim_open now w then (Inl CpNotClaimable, db0)
        else if cu_per_user (cw_rules w) \<le> int (length (claims_of i customer db)) then (Inl CpConflict, db0)
        else (let c = new_claim E now i customer key db in (Inr c,
          db0\<lparr>cp_coupons := map (\<lambda>w. if cw_id w = i then issued_row now w else w) (cp_coupons db),
            cp_claims := cp_claims db @ [c], cp_next_claim := cp_next_claim db + 1, cp_events := l\<rparr>)))"
proof (cases "find_coupon i db")
  case None
  then show ?thesis by (simp add: claim_body_def cpn_Lock_def cpn_Get_def and_then_def find_coupon_def db0 reserved_db_def)
next
  case (Some w)
  have core: "core_ok (core_of db)" using ok by (simp add: history_ok_def coupon_good_def)
  have at: "row_of i (core_of db) = Some w" using Some by (simp add: find_row)
  note row = core_okD(1) [OF core at]
  have counts: "row_counts (core_of db) w" and id: "cw_id w = i" using core_okD(4) [OF core at] row_of_Some [OF at] by simp_all
  have found: "find_coupon i db0 = Some w" and n: "claims_of i customer db0 = claims_of i customer db"
    using Some by (simp_all add: db0 reserved_db_def find_coupon_def claims_of_def)
  let ?n = "int (length (claims_of i customer db))" let ?c = "new_claim E now i customer key db"
  let ?old = "(mapCoupon db0 w)\<lparr>co_history := i \<in> xm_coupon ` set (cp_markers db0)\<rparr>"
  have lock: "cpn_Lock i db0 = (Inr ?old, db0)" using found by (simp add: cpn_Lock_def cpn_Get_def)
  have old: "co_rules ?old = cw_rules w" "co_issued ?old = cw_issued w" by (simp_all add: mapCoupon_def)
  note active = claim_open_active [OF row, where db = db0 and h = "i \<in> xm_coupon ` set (cp_markers db0)" and now = now]
  show ?thesis
  proof (cases "claim_open now w \<and> ?n < cu_per_user (cw_rules w)")
    case False
    then show ?thesis using lock active Some n old
      by (auto simp: claim_body_def and_then_def cpn_CountCustomerClaims_def claim_open_def)
  next
    case True
    have "?n + 1 \<notin> cc_number ` set (claims_of i customer db)"
    proof
      assume "?n + 1 \<in> cc_number ` set (claims_of i customer db)"
      then have "?n + 1 \<in> set (map cc_number (claims_of i customer db))" by simp
      moreover have "numbered (claims_of i customer db)" using counts id by (simp add: row_counts_def claims_rows)
      ultimately have "?n + 1 \<in> set (map (\<lambda>n. int n + 1) [0..<length (claims_of i customer db)])" by (simp only: numbered_def)
      then show False by auto
    qed
    then have numbers: "\<not> (cc_coupon c = i \<and> cc_customer c = customer \<and> cc_number c = ?n + 1)" if "c \<in> set (cp_claims db)" for c
      using that by (force simp: claims_of_def)
    have "cc_ref c \<noteq> claim_ref E key customer" if "c \<in> set (cp_claims db)" for c
      using ready that unfolding claim_ready_def by (metis imageI)
    then have "\<not> (\<exists>c \<in> set (cp_claims db). (cc_coupon c = i \<and> cc_customer c = customer \<and> cc_number c = ?n + 1) \<or> cc_ref c = claim_ref E key customer)"
      using numbers by blast
    moreover have "wrap32 (?n + 1) = ?n + 1" using wrap32_small [of "?n + 1"] ready by (simp add: claim_ready_def)
    moreover have "claim_ref_ok (claim_ref E key customer)" by (rule claim_ref_fits) (simp add: claim_digest_def sha)
    ultimately have create: "cpn_CreateClaim now i customer (wrap32 (?n + 1)) (claim_ref E key customer) db0 =
        (Inr ?c, db0\<lparr>cp_claims := cp_claims db @ [?c], cp_next_claim := cp_next_claim db + 1\<rparr>)"
      using ready found by (simp add: cpn_CreateClaim_def new_claim_def Let_def claim_ready_def db0 reserved_db_def)
    let ?db1 = "db0\<lparr>cp_claims := cp_claims db @ [?c], cp_next_claim := cp_next_claim db + 1\<rparr>"
    have "find_coupon i ?db1 = Some w" using found by (simp add: find_coupon_def)
    moreover have "cw_issued w < cu_total (cw_rules w)" "\<not> max_int64 < cw_version (issued_row now w)" "\<not> coupon_frozen w (issued_row now w)"
      using True ready Some by (auto simp: claim_open_def claim_ready_def issued_row_def coupon_frozen_def)
    moreover have "coupon_row_ok (issued_row now w)"
      using issued_row_fits [OF row] True ready Some by (simp add: claim_open_def claim_ready_def)
    ultimately have "cpn_IncrementIssued now i ?db1 =
        (Inr (), ?db1\<lparr>cp_coupons := map (\<lambda>w. if cw_id w = i then issued_row now w else w) (cp_coupons db)\<rparr>)"
      by (simp add: cpn_IncrementIssued_def update_coupon_def and_then_def db0 reserved_db_def)
    then show ?thesis using lock active Some n old create True ready
      by (auto simp: claim_body_def and_then_def cpn_CountCustomerClaims_def claim_open_def append_coupon_event_def claim_ready_def Let_def
          db0 reserved_db_def)
  qed
qed

section \<open>Calls with a new key\<close>

text \<open>A call with a new key is its body, with the receipt completed.\<close>

lemma new_key_call:
  assumes ok: "history_ok db" and new: "receipt_at (reservation_id x) db = None" and cols: "receipt_columns_ok x"
  shows "coupon_classified (within (with_coupon_receipt x again result marshals body)) db =
    (case body (reserved_db x db) of
      (Inl e, _) \<Rightarrow> (Inl (coupon_classify e), db)
    | (Inr v, db1) \<Rightarrow> if \<not> marshals v then (Inl CpUnavailable, db)
        else (case cpn_Complete (cp_next_receipt db) (result v) db1 of
          (Inl _, _) \<Rightarrow> (Inl CpUnavailable, db)
        | (Inr r, db2) \<Rightarrow> if cr_completed r \<and> cr_result r = Some (result v) then (Inr v, db2) else (Inl CpUnavailable, db)))"
proof -
  have reserve: "cpn_Reserve x db = (Inr (pending_receipt db x, True), reserved_db x db)"
    using new cols by (simp add: cpn_Reserve_def find_receipt_at Let_def pending_receipt_def reserved_db_def)
  have "receiptMatches (pending_receipt db x) x" "cr_payload (pending_receipt db x) = cs_payload x" "cr_id (pending_receipt db x) = cp_next_receipt db"
    using ok by (simp_all add: receiptMatches_def pending_receipt_def history_ok_def coupon_good_def coupon_receipts_ok_def)
  then show ?thesis
    using reserve by (simp add: coupon_classified_def within_def with_coupon_receipt_def and_then_def split: prod.split sum.split)
qed

lemma framed_complete:
  assumes "history_ok db" and "framed (reserved_db x db) db1"
  shows "cpn_Complete (cp_next_receipt db) result db1 =
    (Inr (done_receipt db x result), db1\<lparr>cp_receipts := cp_receipts db @ [done_receipt db x result]\<rparr>)"
  by (rule cpn_Complete_reserved) (use assms in \<open>simp_all add: history_ok_def coupon_good_def\<close>)

lemma claim_answer:
  assumes ready: "claim_ready E now i customer key l db" and ok: "history_ok db" and sha: "\<And>s. length (cn_sha256 E s) = 32"
  shows "coupon_Claim E now i customer key db = (case find_coupon i db of
      None \<Rightarrow> (Inl CpNotFound, db)
    | Some w \<Rightarrow>
        if \<not> claim_open now w then (Inl CpNotClaimable, db)
        else if cu_per_user (cw_rules w) \<le> int (length (claims_of i customer db)) then (Inl CpConflict, db)
        else (Inr (new_claim E now i customer key db), claimed_db E now i customer key l db))"
proof -
  let ?x = "claim_reservation E i customer key" let ?c = "new_claim E now i customer key db"
  have r: "1 \<le> i" "1 \<le> customer" "customer \<le> max_int64" "validBoardKey key" "json_instant (pg_micros now)"
    "receipt_at (reservation_id ?x) db = None" using ready by (simp_all add: claim_ready_def)
  have cols: "receipt_columns_ok ?x" using receipt_columns(1) [OF sha] r by simp
  note body = claim_body_answer [OF ready ok sha refl, where x = ?x]
  let ?db1 = "(reserved_db ?x db)\<lparr>cp_coupons := map (\<lambda>w. if cw_id w = i then issued_row now w else w) (cp_coupons db),
    cp_claims := cp_claims db @ [?c], cp_next_claim := cp_next_claim db + 1, cp_events := l\<rparr>"
  have complete: "cpn_Complete (cp_next_receipt db) (ClaimResult ?c) ?db1 = (Inr (done_receipt db ?x (ClaimResult ?c)),
      ?db1\<lparr>cp_receipts := cp_receipts db @ [done_receipt db ?x (ClaimResult ?c)]\<rparr>)"
    by (rule framed_complete [OF ok]) (simp add: framed_def same_records_def)
  have stored: "?db1\<lparr>cp_receipts := cp_receipts db @ [done_receipt db ?x (ClaimResult ?c)]\<rparr> = claimed_db E now i customer key l db"
    by (simp add: claimed_db_def Let_def reserved_db_def)
  have marked: "cr_completed (done_receipt db ?x (ClaimResult ?c))" "cr_result (done_receipt db ?x (ClaimResult ?c)) = Some (ClaimResult ?c)"
    "json_instant (cc_at ?c)" using r by (simp_all add: done_receipt_def new_claim_def)
  have call: "coupon_Claim E now i customer key db = coupon_classified (within (with_coupon_receipt ?x claim_again ClaimResult (\<lambda>c. json_instant (cc_at c))
      (claim_body E now i customer key))) db"
    using r by (simp add: coupon_Claim_def)
  show ?thesis
    unfolding call new_key_call [OF ok r(6) cols] body
    using complete marked stored by (auto simp: Let_def split: option.split)
qed

text \<open>A call with a key that has a receipt is answered from it.\<close>

lemma old_key_call:
  assumes ok: "history_ok db" and old: "receipt_at (reservation_id x) db = Some r" and cols: "receipt_columns_ok x"
  shows "coupon_classified (within (with_coupon_receipt x again result marshals body)) db =
    (if cr_payload r \<noteq> cs_payload x then (Inl CpConflict, db)
     else (case (if cr_completed r then Option.bind (cr_result r) again else None) of None \<Rightarrow> (Inl CpUnavailable, db) | Some v \<Rightarrow> (Inr v, db)))"
proof -
  have r: "r \<in> set (cp_receipts db)" "receipt_id r = reservation_id x" using old by (auto simp: receipt_at_def find_Some_iff)
  have "receiptMatches r x" using ok r by (auto simp: receiptMatches_def receipt_id_def reservation_id_def history_ok_def coupon_good_def coupon_receipts_ok_def)
  moreover have "cpn_Reserve x db = (Inr (r, False), db)" using old cols by (simp add: cpn_Reserve_def find_receipt_at)
  ultimately show ?thesis by (simp add: coupon_classified_def within_def with_coupon_receipt_def and_then_def split: option.split)
qed

lemma receipt_lasts: "history_lasts db db' \<Longrightarrow> receipt_at k db = Some r \<Longrightarrow> receipt_at k db' = Some r"
  by (auto simp: history_lasts_def receipt_at_def find_append)

section \<open>Imported records stay\<close>

lemma CreateHistoricalDefinition_get:
  assumes "CreateHistoricalDefinition V h db = (Inr a, db')"
  shows "GetHistoricalDefinition (co_id (hx_coupon a)) db' = (Inr a, db')"
proof -
  obtain db1 where g: "GetHistoricalDefinition (cp_next_coupon db) db1 = (Inr a, db')"
    using assms by (auto simp: CreateHistoricalDefinition_def and_then_Inr_iff Let_def)
  then have "db1 = db'" using GetHistoricalDefinition_same by metis
  moreover have "co_id (hx_coupon a) = cp_next_coupon db"
    using g by (auto simp: GetHistoricalDefinition_def and_then_Inr_iff cpn_Get_def mapCoupon_def find_coupon_def find_Some_iff split: option.splits)
  ultimately show ?thesis using g by simp
qed

text \<open>What an import of a definition read or wrote is what any later read of it answers.\<close>

lemma GetHistoricalDefinition_lasts:
  assumes get: "GetHistoricalDefinition i db = (Inr a, db)" and ok: "history_ok db" and lasts: "history_lasts db db'"
  shows "GetHistoricalDefinition i db' = (Inr a, db')"
proof -
  obtain m w where m: "List.find (\<lambda>m. xm_coupon m = i) (cp_markers db) = Some m" and w: "find_coupon i db = Some w"
    using get by (auto simp: GetHistoricalDefinition_def split: option.splits)
  have core: "core_ok (core_of db)" and cl: "core_lasts (core_of db) (core_of db')"
    using ok lasts by (simp_all add: history_ok_def coupon_good_def history_lasts_def)
  have at: "row_of i (core_of db) = Some w" using w by (simp add: find_row)
  have id: "cw_id w = i" using row_of_Some [OF at] by simp
  have mark: "marked i (core_of db)" "marked i (core_of db')"
    using m marked_lasts [OF cl] by (auto simp: marked_def find_Some_iff)
  then have st: "cw_status w = ''archived''" using core_okD(4) [OF core at] id by (simp add: row_counts_def)
  have "case row_of i (core_of db') of None \<Rightarrow> cw_status w = ''draft'' \<and> rows_claims i (core_of db) = []
      | Some w' \<Rightarrow> row_lasts (core_of db) (core_of db') w w'"
    using cl at by (simp add: core_lasts_def rows_last_def)
  then have at': "row_of i (core_of db') = Some w" and "rows_targets i (core_of db') = rows_targets i (core_of db)"
    using st id mark(1) by (auto simp: row_lasts_def split: option.splits)
  then have tgt: "targets_of i db' = targets_of i db" by (simp add: targets_of_def rows_targets_def)
  have m': "List.find (\<lambda>m. xm_coupon m = i) (cp_markers db') = Some m"
    using m cl by (auto simp: core_lasts_def find_append)
  have "cpn_Get i db' = map_prod id (\<lambda>_. db') (cpn_Get i db)"
    using w at' tgt id mark by (simp add: cpn_Get_def find_row mapCoupon_def marked_def)
  then show ?thesis using get m m' w at'
    by (auto simp: GetHistoricalDefinition_def and_then_Inr_iff find_row)
qed

lemma definition_access_stays:
  assumes run: "definition_access E V h i db = (Inr (j, d), db1)" and i: "0 \<le> i" and ok: "history_ok db1" and j: "j \<noteq> 0"
    and lasts: "history_lasts db1 db2" and same: "i = 0 \<or> i = j"
  shows "definition_access E V' h' j db2 = (Inr (j, d), db2)"
proof -
  obtain a where a: "(if i = 0 then CreateHistoricalDefinition V h else GetHistoricalDefinition i) db = (Inr a, db1)"
    "j = co_id (hx_coupon a)" "d = HistoricalDefinitionTargetDigest E a"
    using run by (auto simp: definition_access_def history_access_Inr and_then_Inr_iff)
  have "GetHistoricalDefinition j db1 = (Inr a, db1)"
  proof (cases "i = 0")
    case True
    then show ?thesis using a CreateHistoricalDefinition_get by simp
  next
    case False
    then show ?thesis using a same GetHistoricalDefinition_same by (metis (full_types))
  qed
  then have "GetHistoricalDefinition j db2 = (Inr a, db2)" using GetHistoricalDefinition_lasts ok lasts by blast
  then show ?thesis using j a by (simp add: definition_access_def history_access_def)
qed

lemma claim_access_stays:
  assumes run: "claim_access E W c i db = (Inr (j, d), db1)" and old: "records_ok db" and ok: "history_ok db1" and j: "j \<noteq> 0"
    and lasts: "history_lasts db1 db2" and same: "i = 0 \<or> i = j"
  shows "claim_access E W' c j db2 = (Inr (j, d), db2)"
proof -
  let ?parent_bad = "\<lambda>p. co_id (hx_coupon p) \<noteq> hk_coupon c \<or> hx_source p \<noteq> hk_source_coupon c \<or> \<not> co_history (hx_coupon p) \<or>
     co_status (hx_coupon p) \<noteq> ''archived''"
  obtain p db0 a where p: "GetHistoricalDefinition (hk_coupon c) db = (Inr p, db0)" "\<not> ?parent_bad p"
    and a: "(if i = 0 then CreateHistoricalClaim W c else GetHistoricalClaim i) db0 = (Inr a, db1)" "j = hk_id a" "d = HistoricalClaimTargetDigest E a"
    using run by (auto simp: claim_access_def history_access_Inr and_then_Inr_iff split: if_splits)
  have db0: "db0 = db" using GetHistoricalDefinition_same [OF p(1)] .
  have get1: "List.find (\<lambda>c. hk_id c = j) (cp_old_claims db1) = Some a"
  proof (cases "i = 0")
    case True
    have new: "CreateHistoricalClaim W c db = (Inr a, db1)" using a(1) True db0 by simp
    have "hk_id x < cp_next_old_claim db" if "x \<in> set (cp_old_claims db)" for x using old that by (simp add: records_ok_def)
    moreover have "hk_id a = cp_next_old_claim db" using CreateHistoricalClaimD(1) [OF new] by (simp add: stored_claim_def)
    ultimately have "List.find (\<lambda>c. hk_id c = j) (cp_old_claims db) = None" using a(2) by (force simp: find_None_iff)
    then show ?thesis using CreateHistoricalClaimD(3) [OF new] a(2) by (simp add: find_append)
  next
    case False
    then show ?thesis using a(1) same by (simp add: GetHistoricalClaim_Inr)
  qed
  then have get2: "GetHistoricalClaim j db2 = (Inr a, db2)"
    using lasts by (auto simp: GetHistoricalClaim_Inr history_lasts_def records_grow_def find_append)
  have "GetHistoricalDefinition (hk_coupon c) db1 = (Inr p, db1)"
  proof -
    have "adds_records db db1" using claim_access_adds [OF run] .
    then have core: "core_of db1 = core_of db" by (simp add: adds_records_def)
    then have rows: "cp_coupons db1 = cp_coupons db" "cp_targets db1 = cp_targets db" "cp_markers db1 = cp_markers db"
      using core_of_sel by metis+
    have "cpn_Get x db1 = map_prod id (\<lambda>_. db1) (cpn_Get x db)" for x
      using rows by (simp add: cpn_Get_def find_coupon_def mapCoupon_def targets_of_def split: option.split)
    then show ?thesis using p(1) rows unfolding GetHistoricalDefinition_def find_coupon_def
      by (auto simp: and_then_Inr_iff split: option.splits)
  qed
  then have "GetHistoricalDefinition (hk_coupon c) db2 = (Inr p, db2)" using GetHistoricalDefinition_lasts ok lasts by blast
  then show ?thesis using p(2) get2 j a by (simp add: claim_access_def history_access_def and_then_def)
qed

text \<open>An import with the receipt of an earlier one answers it again, when its access does.\<close>

lemma importHistory_again:
  assumes run: "importHistory J kind source payload expected access db = (Inr r, db1)"
    and load: "cj_load J' kind source = Inr (Some r)"
    and again: "\<And>i. access i db = (Inr (hv_target r, hv_digest r), db1) \<Longrightarrow> 1 \<le> hv_target r \<Longrightarrow> i = 0 \<or> i = hv_target r \<Longrightarrow>
      access' (hv_target r) db2 = (Inr (hv_target r, hv_digest r), db2)"
  shows "importHistory J' kind source payload expected access' db2 = (Inr (r\<lparr>hv_replayed := True\<rparr>), db2)"
proof -
  have r: "hv_source r = source" "hv_payload r = payload" "1 \<le> hv_target r" "hv_digest r = expected (hv_target r)"
    "\<exists>i. access i db = (Inr (hv_target r, hv_digest r), db1) \<and> (i = 0 \<or> i = hv_target r)"
    using run by (auto elim!: importHistoryD)
  then have "access' (hv_target r) db2 = (Inr (hv_target r, hv_digest r), db2)" using again by blast
  moreover have "source \<noteq> []" "trim_space source = source" "pg_text source" "payload \<noteq> replicate 32 (CHR 0x00)"
    using run by (auto simp: importHistory_def split: if_splits)
  ultimately show ?thesis using load r(1-4) by (simp add: importHistory_def and_then_def)
qed

end
