(* ===== verification/CouponSample.thy ===== *)
theory CouponSample
  imports CouponCalls
begin

text \<open>
  A concrete environment and a short history, on which the properties of coupons are witnessed: a
  coupon of two, one per customer, is created, published, and claimed by customer 7.
\<close>

lemma byte_digit7: "byte c < 128 \<longleftrightarrow> \<not> digit7 c"
  by (cases c) (simp add: byte_def of_char_def horner_sum_simps)

lemma rune_width_low: "\<not> digit7 c \<Longrightarrow> rune_width (c # cs) = 1"
  using byte_digit7 [of c] by (simp add: rune_width_Cons lead_width_def in_range_def)

lemma runes_code [code]:
  "runes [] = []"
  "runes (c # cs) = (if \<not> digit7 c then [c] # runes cs
     else take (rune_width (c # cs)) (c # cs) # runes (drop (rune_width (c # cs)) (c # cs)))"
  using rune_width_low [of c cs] by simp_all

lemma valid_utf8_code [code]: "valid_utf8 s \<longleftrightarrow> list_all (\<lambda>r. 2 \<le> length r \<or> \<not> digit7 (hd r)) (runes s)"
  by (simp add: valid_utf8_def byte_digit7)

definition sample_coupons :: coupon_env where
  "sample_coupons = \<lparr>cn_sha256 = (\<lambda>s. replicate 32 (CHR 0x00)), cn_quote = (\<lambda>s. ''x''), cn_rfc3339 = (\<lambda>t. ''t''),
     cn_ilike = (\<lambda>s p. True), cn_events = \<lparr>ee_json_valid = (\<lambda>s. True), ee_jsonb = Some\<rparr>\<rparr>"

definition sample_products :: product_view where
  "sample_products = \<lparr>pv_get = (\<lambda>i. Some \<lparr>pd_id = i, pd_currency = ''CNY'', pd_price = 100\<rparr>), pv_exists = (\<lambda>i. True)\<rparr>"

definition sample_rules :: CouponRules where
  "sample_rules = blank_rules\<lparr>cu_name := ''ten off for everyone who buys this week'', cu_discount := 10, cu_total := 2, cu_per_user := 1, cu_claim_from := 1000,
     cu_claim_until := 9000000, cu_mode := ''relative_days'', cu_days := Some 7\<rparr>"

definition sample_command :: UpsertCommand where
  "sample_command = (let c = status_command 0 3 ''create-coupon-01'' in c\<lparr>uc_coupon := (uc_coupon c)\<lparr>co_rules := sample_rules,
     co_targets := [''standard_product:5'']\<rparr>\<rparr>)"

definition coupon_start :: "unit coupon_db" where
  "coupon_start = no_coupons (empty_event_db ())"

text \<open>The coupon as its row, as the answer of a call, and the receipt and event of a call.\<close>

definition sample_coupon_row :: "string \<Rightarrow> instant option \<Rightarrow> int \<Rightarrow> instant \<Rightarrow> coupon_row" where
  "sample_coupon_row status claimed_at version updated = \<lparr>cw_id = 1, cw_rules = sample_rules, cw_status = status,
     cw_issued = (if claimed_at = None then 0 else 1), cw_first_claim = claimed_at, cw_created_by = 3, cw_updated_by = 3,
     cw_version = version, cw_created = 2000, cw_updated = updated\<rparr>"

definition sample_coupon :: "string \<Rightarrow> string \<Rightarrow> int \<Rightarrow> instant \<Rightarrow> Coupon" where
  "sample_coupon status availability version updated = \<lparr>co_id = 1, co_rules = sample_rules, co_targets = [''standard_product:5''],
     co_currency = ''CNY'', co_status = status, co_availability = availability, co_issued = 0, co_created_by = 3,
     co_updated_by = 3, co_version = version, co_history = False, co_created = 2000, co_updated = updated\<rparr>"

definition sample_coupon_receipt :: "int \<Rightarrow> string \<Rightarrow> string \<Rightarrow> coupon_result \<Rightarrow> CouponReceipt" where
  "sample_coupon_receipt i operation scope result = \<lparr>cr_id = i, cr_operation = operation, cr_scope = scope,
     cr_key = replicate 32 (CHR 0x00), cr_payload = replicate 32 (CHR 0x00), cr_completed = True, cr_result = Some result\<rparr>"

definition sample_event :: "int \<Rightarrow> string \<Rightarrow> int option \<Rightarrow> string \<Rightarrow> instant \<Rightarrow> string \<Rightarrow> event_row \<times> bool" where
  "sample_event i kind customer payload at key = (\<lparr>ev_id = i, ev_type = kind, ev_customer = customer, ev_payload = payload,
     ev_at = at, ev_key = key @ hex_encode (replicate 32 (CHR 0x00))\<rparr>, False)"

definition sample_db :: "coupon_row \<Rightarrow> CouponReceipt list \<Rightarrow> CouponClaim list \<Rightarrow> (event_row \<times> bool) list \<Rightarrow> unit coupon_db" where
  "sample_db w rs cs es = \<lparr>cp_coupons = [w], cp_targets = [\<lparr>xt_coupon = 1, xt_position = 0, xt_ref = ''standard_product:5'', xt_product = 5\<rparr>],
     cp_total = 1, cp_receipts = rs, cp_claims = cs, cp_markers = [], cp_sessions = [], cp_grants = [],
     cp_events = \<lparr>event_table = es, delivery_table = [], river = (), next_event_id = int (length es) + 1\<rparr>,
     cp_next_coupon = 2, cp_next_receipt = int (length rs) + 1, cp_next_claim = int (length cs) + 1,
     cp_old_claims = [], cp_old_redemptions = [], cp_next_old_claim = 1, cp_next_old_redemption = 1\<rparr>"

definition created_receipt :: CouponReceipt where
  "created_receipt = sample_coupon_receipt 1 ''create'' ''admin:3'' (CouponResult (sample_coupon ''draft'' ''draft'' 1 2000))"

definition published_receipt :: CouponReceipt where
  "published_receipt = sample_coupon_receipt 2 ''publish'' ''admin:3'' (CouponResult (sample_coupon ''published'' ''active'' 2 3000))"

definition sample_claim :: CouponClaim where
  "sample_claim = \<lparr>cc_id = 1, cc_coupon = 1, cc_customer = 7, cc_number = 1,
     cc_ref = ''cp_'' @ hex_encode (replicate 16 (CHR 0x00)), cc_status = ''claimed'', cc_at = 4000\<rparr>"

definition created_event :: "event_row \<times> bool" where
  "created_event = sample_event 1 ''coupon.created'' None ''{x:1,x:3,x:x}'' 2000 ''coupon.create:''"

definition published_event :: "event_row \<times> bool" where
  "published_event = sample_event 2 ''coupon.published'' None ''{x:1,x:3,x:x}'' 3000 ''coupon.publish:''"

definition claimed_event :: "event_row \<times> bool" where
  "claimed_event = sample_event 3 ''coupon.claimed'' (Some 7) ''{x:1,x:x}'' 4000 ''coupon.claim:''"

definition draft_db :: "unit coupon_db" where
  "draft_db = sample_db (sample_coupon_row ''draft'' None 1 2000) [created_receipt] [] [created_event]"

definition published_db :: "unit coupon_db" where
  "published_db = sample_db (sample_coupon_row ''published'' None 2 3000) [created_receipt, published_receipt] [] [created_event, published_event]"

definition sample_claimed_db :: "unit coupon_db" where
  "sample_claimed_db = sample_db (sample_coupon_row ''published'' (Some 4000) 3 4000)
     [created_receipt, published_receipt, sample_coupon_receipt 3 ''claim'' ''customer:7'' (ClaimResult sample_claim)] [sample_claim]
     [created_event, published_event, claimed_event]"

abbreviation "sample_exec \<equiv> coupon_exec sample_coupons sample_products"

text \<open>Two closed terms with one normal form are equal.\<close>

lemma by_evaluation:
  assumes "\<And>Q. Q a \<longrightarrow> Q b"
  shows "a = b"
  using assms [of "\<lambda>x. x = b \<longrightarrow> a = b"] assms [of "\<lambda>x. a = x"] by simp

lemma create_run: "sample_exec 2000 (CallCreate sample_command) coupon_start =
    (Inr (CouponResult (sample_coupon ''draft'' ''draft'' 1 2000)), draft_db)"
  by (rule by_evaluation, code_simp, rule impI, assumption)

lemma publish_run: "sample_exec 3000 (CallPublish 1 3 ''publish-coupon-1'') draft_db =
    (Inr (CouponResult (sample_coupon ''published'' ''active'' 2 3000)), published_db)"
  by (rule by_evaluation, code_simp, rule impI, assumption)

lemma claim_key [simp]: "validBoardKey ''claim-by-seven-1''" "show_int 7 = ''7''"
  by code_simp+

lemma sample_sha: "length (cn_sha256 sample_coupons s) = 32"
  by (simp add: sample_coupons_def)

lemma sample_ref: "claim_ref sample_coupons key customer = cc_ref sample_claim"
  by (simp add: claim_ref_def claim_digest_def sample_coupons_def sample_claim_def)

lemma claim_appended:
  "appender_Append (cn_events sample_coupons) (claim_event sample_coupons 4000 ''claim-by-seven-1'' sample_claim) (cp_events published_db) =
    (Inr 3, cp_events sample_claimed_db)"
  by (rule by_evaluation, code_simp, rule impI, assumption)

lemma new_sample_claim: "new_claim sample_coupons 4000 1 7 key published_db = sample_claim"
  by (simp add: new_claim_def sample_ref published_db_def sample_db_def claims_of_def) (simp add: sample_claim_def pg_micros_def)

lemma published_row: "find_coupon 1 published_db = Some (sample_coupon_row ''published'' None 2 3000)"
  by (simp add: find_coupon_def published_db_def sample_db_def sample_coupon_row_def)

lemma claim_unanswered: "receipt_at (reservation_id (claim_reservation sample_coupons 1 7 key)) published_db = None"
  by (simp add: receipt_at_def reservation_id_def receipt_id_def claim_reservation_def published_db_def sample_db_def created_receipt_def
      published_receipt_def sample_coupon_receipt_def)

lemma claim_is_ready: "claim_ready sample_coupons 4000 1 7 ''claim-by-seven-1'' (cp_events sample_claimed_db) published_db"
  using claim_appended claim_unanswered published_row
  by (simp add: claim_ready_def new_sample_claim)
    (simp add: published_db_def sample_db_def sample_coupon_row_def claims_of_def max_int64_def max_int32_def json_instant_def pg_micros_def)

lemma exec_step: "coupon_exec E V now call db = (r, db') \<Longrightarrow> coupon_step E db db'"
  using called [of E db V now call] by simp

lemma published_reached: "(coupon_step sample_coupons)\<^sup>*\<^sup>* coupon_start published_db"
  using exec_step [OF create_run] exec_step [OF publish_run] by (blast intro: rtranclp.rtrancl_into_rtrancl)

lemma published_ok: "history_ok published_db"
  using coupons.history_good [OF published_reached] no_coupons_ok [OF empty_event_db_ok, of "()"] by (simp add: coupon_start_def)

lemma unclaimed: "claims_of 1 7 published_db = []"
  by (simp add: published_db_def sample_db_def claims_of_def)

lemma sample_coupon_row_open: "claim_open 4000 (sample_coupon_row ''published'' None 2 3000)"
    "cu_per_user (cw_rules (sample_coupon_row ''published'' None 2 3000)) = 1"
  by (simp_all add: claim_open_def sample_coupon_row_def sample_rules_def)

lemma claim_run: "coupon_Claim sample_coupons 4000 1 7 ''claim-by-seven-1'' published_db = (Inr sample_claim, sample_claimed_db)"
proof -
  have "claimed_db sample_coupons 4000 1 7 ''claim-by-seven-1'' (cp_events sample_claimed_db) published_db = sample_claimed_db"
    by (simp add: claimed_db_def new_sample_claim Let_def)
      (simp add: published_db_def sample_claimed_db_def sample_db_def sample_coupon_row_def issued_row_def pg_micros_def done_receipt_def pending_receipt_def
        sample_coupon_receipt_def claim_reservation_def sample_coupons_def customer_scope_def)
  then show ?thesis
    using claim_answer [OF claim_is_ready published_ok sample_sha] published_row unclaimed
    by (simp add: new_sample_claim sample_coupon_row_open)
qed

lemma claimed_reached: "(coupon_step sample_coupons)\<^sup>*\<^sup>* published_db sample_claimed_db"
  "(coupon_step sample_coupons)\<^sup>*\<^sup>* coupon_start sample_claimed_db"
proof -
  have "sample_exec 4000 (CallClaim 1 7 ''claim-by-seven-1'') published_db = (Inr (ClaimResult sample_claim), sample_claimed_db)"
    using claim_run by (simp add: as_result_Inr)
  from exec_step [OF this] show "(coupon_step sample_coupons)\<^sup>*\<^sup>* published_db sample_claimed_db"
    "(coupon_step sample_coupons)\<^sup>*\<^sup>* coupon_start sample_claimed_db"
    using published_reached by (blast intro: rtranclp.rtrancl_into_rtrancl)+
qed

end
