(* ===== verification/CouponProperties.thy ===== *)
theory CouponProperties
  imports CouponSample
begin

text \<open>
  The properties of coupons, each with a witness on the history of \<open>CouponSample\<close>.
\<close>

lemma coupons_reached:
  assumes "event_db_ok l" and "(coupon_step E)\<^sup>*\<^sup>* (no_coupons l) db"
  shows "history_ok db" and "coupon_good db" and "core_ok (core_of db)"
  using coupons.history_good [OF assms(2) no_coupons_ok [OF assms(1)]] by (simp_all add: history_ok_def coupon_good_def)

lemma sample_log: "event_db_ok (empty_event_db ())" "(coupon_step sample_coupons)\<^sup>*\<^sup>* (no_coupons (empty_event_db ())) published_db"
  "(coupon_step sample_coupons)\<^sup>*\<^sup>* (no_coupons (empty_event_db ())) sample_claimed_db"
  using empty_event_db_ok published_reached claimed_reached by (simp_all add: coupon_start_def)


section \<open>Claims\<close>





lemma claim_receipt:
  assumes run: "coupon_Claim E now i customer key db = (Inr c, db')" and ok: "history_ok db" and now: "pg_micros now \<noteq> 0"
  obtains r where "receipt_at (reservation_id (claim_reservation E i customer key)) db' = Some r"
    "cr_payload r = cs_payload (claim_reservation E i customer key)" "cr_completed r" "Option.bind (cr_result r) claim_again = Some c"
    "receipt_columns_ok (claim_reservation E i customer key)" "1 \<le> i" "1 \<le> customer" "validBoardKey key"
proof -
  let ?x = "claim_reservation E i customer key"
  have core: "core_ok (core_of db)" and rok: "coupon_receipts_ok db" using ok by (simp_all add: history_ok_def coupon_good_def)
  have args: "1 \<le> i" "1 \<le> customer" "validBoardKey key" using run by (auto simp: coupon_Claim_def split: if_splits)
  then have call: "with_coupon_receipt ?x claim_again ClaimResult (\<lambda>c. json_instant (cc_at c)) (claim_body E now i customer key) db = (Inr c, db')"
    using run by (auto simp: coupon_Claim_def dest: within_InrD)
  then have cols: "receipt_columns_ok ?x" by (auto simp: with_coupon_receipt_def and_then_Inr_iff cpn_Reserve_def split: if_splits)
  have body: "framed (reserved_db ?x db) db1" if "claim_body E now i customer key (reserved_db ?x db) = (Inr v, db1)" for v db1
    using claim_bodyD [OF that] core by (simp add: call_effect_def follows_def)
  show thesis
  proof (rule with_coupon_receiptD [OF call rok body])
    fix r assume "receipt_at (reservation_id ?x) db = Some r" "cr_payload r = cs_payload ?x" "cr_completed r"
      "Option.bind (cr_result r) claim_again = Some c" "db' = db"
    then show thesis using that [of r] cols args by simp
  next
    fix db1 assume none: "receipt_at (reservation_id ?x) db = None" and b: "claim_body E now i customer key (reserved_db ?x db) = (Inr c, db1)"
      and db': "db' = db1\<lparr>cp_receipts := cp_receipts db @ [done_receipt db ?x (ClaimResult c)]\<rparr>"
    have "validClaim c" using claim_bodyD [OF b] core now by simp
    moreover have "receipt_at (reservation_id ?x) db' = Some (done_receipt db ?x (ClaimResult c))"
      using none by (simp add: receipt_at_def db' find_append)
        (simp add: receipt_id_def reservation_id_def done_receipt_def pending_receipt_def)
    ultimately show thesis using that [of "done_receipt db ?x (ClaimResult c)"] cols args
      by (simp add: done_receipt_def pending_receipt_def)
  qed
qed

text \<open>
  C12. A granted claim is granted once: whatever happens afterwards, the same call answers the same
  claim and changes nothing, and the customer's key is refused for any other coupon.
\<close>

theorem claim_is_granted_once:
  assumes "event_db_ok l" and "(coupon_step E)\<^sup>*\<^sup>* (no_coupons l) db"
    and "coupon_Claim E now i customer key db = (Inr c, db1)" and "pg_micros now \<noteq> 0" and "(coupon_step E)\<^sup>*\<^sup>* db1 db2"
    and "\<And>s. length (cn_sha256 E s) = 32"
  shows "coupon_Claim E at i customer key db2 = (Inr c, db2) \<and>
    (1 \<le> j \<and> cn_sha256 E (claim_text E j customer) \<noteq> cn_sha256 E (claim_text E i customer) \<longrightarrow>
      coupon_Claim E at j customer key db2 = (Inl CpConflict, db2))"
proof -
  note ok = coupons_reached(1) [OF assms(1,2)]
  obtain r where r: "receipt_at (reservation_id (claim_reservation E i customer key)) db1 = Some r"
    "cr_payload r = cs_payload (claim_reservation E i customer key)" "cr_completed r" "Option.bind (cr_result r) claim_again = Some c"
    "receipt_columns_ok (claim_reservation E i customer key)" "1 \<le> i" "1 \<le> customer" "validBoardKey key"
    using claim_receipt [OF assms(3) ok assms(4)] .
  have "coupon_step E db (snd (coupon_exec E V now (CallClaim i customer key) db))" for V by (rule called)
  then have "coupon_step E db db1" using assms(3) by (simp add: as_result_def and_then_def)
  then have ok1: "history_ok db1" using coupons.step_good ok by blast
  have ok2: "history_ok db2" and "history_lasts db1 db2"
    using coupons.history_good [OF assms(5) ok1] coupons.history_lasts [OF assms(5) ok1] by blast+
  then have r2: "receipt_at (reservation_id (claim_reservation E i customer key)) db2 = Some r" using receipt_lasts r(1) by blast
  have same: "reservation_id (claim_reservation E j customer key) = reservation_id (claim_reservation E i customer key)"
    "receipt_columns_ok (claim_reservation E j customer key)" for j
    using r(5) assms(6) by (simp_all add: reservation_id_def claim_reservation_def receipt_columns_ok_def)
  have "coupon_Claim E at i customer key db2 = (Inr c, db2)"
    using r by (simp add: coupon_Claim_def old_key_call [OF ok2 r2 r(5)] del: coupon_classified_Inr)
  moreover have "coupon_Claim E at j customer key db2 = (Inl CpConflict, db2)"
    if "1 \<le> j" "cn_sha256 E (claim_text E j customer) \<noteq> cn_sha256 E (claim_text E i customer)"
    using old_key_call [OF ok2 r2 [folded same(1) [of j]] same(2), of claim_again ClaimResult "\<lambda>c. json_instant (cc_at c)" "claim_body E at j customer key"]
      r that by (simp add: coupon_Claim_def claim_reservation_def)
  ultimately show ?thesis by blast
qed

theorem claim_is_granted_once_witness:
  "coupon_Claim sample_coupons 8000 1 7 ''claim-by-seven-1'' sample_claimed_db = (Inr sample_claim, sample_claimed_db)"
  using claim_is_granted_once [OF sample_log(1,2) claim_run _ rtranclp.rtrancl_refl sample_sha, of 8000 1] by (simp add: pg_micros_def)

lemma announced_once:
  assumes "announces_claim r c" and "announces_claim r c'"
  shows "cc_ref c = cc_ref c'"
proof -
  obtain d where d: "cc_ref c = ''cp_'' @ hex_encode (take 16 d)" "ev_key r = ''coupon.claim:'' @ hex_encode d"
    using assms(1) unfolding announces_claim_def by blast
  obtain d' where d': "cc_ref c' = ''cp_'' @ hex_encode (take 16 d')" "ev_key r = ''coupon.claim:'' @ hex_encode d'"
    using assms(2) unfolding announces_claim_def by blast
  have "hex_encode d = hex_encode d'" using d(2) d'(2) by simp
  then show ?thesis using hex_encode_inject d(1) d'(1) by metis
qed

text \<open>
  C30. Each claim is announced by exactly one event of its own: the log holds an event with the claim's
  customer and time, under the digest that its reference begins with, and no event announces two
  claims, whatever other producers and workers do with the log.
\<close>

theorem each_claim_is_announced:
  assumes "event_db_ok l" and "(coupon_step E)\<^sup>*\<^sup>* (no_coupons l) db" and "c \<in> set (cp_claims db)"
  shows "\<exists>r \<in> fst ` set (event_table (cp_events db)). announces_claim r c \<and>
    (\<forall>c' \<in> set (cp_claims db). announces_claim r c' \<longrightarrow> c' = c)"
proof -
  note ok = coupons_reached [OF assms(1,2)]
  obtain r where r: "r \<in> fst ` set (event_table (cp_events db))" "announces_claim r c"
    using ok(1) assms(3) unfolding history_ok_def claim_logged_def by blast
  have "distinct (map cc_ref (cp_claims db))" using ok(3) by (simp add: core_ok_def core_claims_def)
  then have "c' = c" if "c' \<in> set (cp_claims db)" "announces_claim r c'" for c'
    using announced_once [OF r(2) that(2)] that(1) assms(3) by (auto simp: distinct_map dest: inj_onD)
  then show ?thesis using r by blast
qed

theorem each_claim_is_announced_witness:
  "\<exists>r \<in> fst ` set (event_table (cp_events sample_claimed_db)). announces_claim r sample_claim"
  using each_claim_is_announced [OF sample_log(1,3), of sample_claim]
  by (auto simp: sample_claimed_db_def sample_db_def)

section \<open>Coupons\<close>

text \<open>
  C28. The terms of a coupon that was published are frozen: from then on it stays, with its creator and
  its targets, its status only moves forward, and of its rules only the total may change, and only
  grow.
\<close>

theorem published_terms_are_frozen:
  assumes "event_db_ok l" and "(coupon_step E)\<^sup>*\<^sup>* (no_coupons l) db" and "(coupon_step E)\<^sup>*\<^sup>* db db'"
    and "find_coupon i db = Some w" and "cw_status w \<noteq> ''draft''"
  shows "\<exists>w'. find_coupon i db' = Some w' \<and> (cw_rules w')\<lparr>cu_total := 0\<rparr> = (cw_rules w)\<lparr>cu_total := 0\<rparr> \<and>
    cu_total (cw_rules w) \<le> cu_total (cw_rules w') \<and> cw_issued w \<le> cw_issued w' \<and> targets_of i db' = targets_of i db \<and>
    cw_created_by w' = cw_created_by w \<and> cw_created w' = cw_created w \<and> (cw_status w, cw_status w') \<in> coupon_move\<^sup>*"
proof -
  have at: "row_of i (core_of db) = Some w" using assms(4) by (simp add: find_row)
  have "history_lasts db db'" using coupons.history_lasts [OF assms(3) coupons_reached(1) [OF assms(1,2)]] .
  then have "case row_of i (core_of db') of None \<Rightarrow> cw_status w = ''draft'' \<and> rows_claims i (core_of db) = []
    | Some w' \<Rightarrow> row_lasts (core_of db) (core_of db') w w'"
    using at by (simp add: history_lasts_def core_lasts_def rows_last_def)
  then obtain w' where w': "find_coupon i db' = Some w'" "row_lasts (core_of db) (core_of db') w w'"
    using assms(5) by (auto simp: find_row split: option.splits)
  then have "rows_targets i (core_of db') = rows_targets i (core_of db)"
    using row_of_Some [OF at] assms(5) by (auto simp: row_lasts_def)
  then have "targets_of i db' = targets_of i db" by (simp add: targets_of_def rows_targets_def)
  then show ?thesis using w' assms(5) by (auto simp: row_lasts_def same_coupon_def frozen_rules_def)
qed

theorem published_terms_are_frozen_witness:
  "targets_of 1 sample_claimed_db = targets_of 1 published_db"
proof -
  have "cw_status (sample_coupon_row ''published'' None 2 3000) \<noteq> ''draft''" by (simp add: sample_coupon_row_def)
  from published_terms_are_frozen [OF sample_log(1,2) claimed_reached(1) published_row this] show ?thesis by blast
qed



section \<open>Names\<close>

text \<open>
  C38. A coupon whose name has more than 38 bytes cannot be copied: the copy's name is cut so that it
  has at most 45 characters, as the column asks, but the service counts bytes, and refuses it.
\<close>

theorem long_name_is_never_copied:
  assumes "event_db_ok l" and "(coupon_step E)\<^sup>*\<^sup>* (no_coupons l) db" and "\<And>s. length (cn_sha256 E s) = 32"
    and "find_coupon i db = Some w" and "i \<notin> xm_coupon ` set (cp_markers db)"
    and "valid_utf8 (cu_name (cw_rules w))" and "38 < length (trim_space (cu_name (cw_rules w)))"
    and "0 < actor" and "actor \<le> max_int64" and "validBoardKey key"
    and "find_coupon_receipt ''copy'' (admin_scope actor) (cn_sha256 E key) db = None"
  shows "rune_count (copiedCouponName (cu_name (cw_rules w))) \<le> 45 \<and>
    coupon_Copy E V now i actor key db = (Inl CpInvalidCoupon, db)"
proof -
  let ?name = "cu_name (cw_rules w)" let ?x = "board_reservation E ''copy'' i actor key"
  note ok = coupons_reached [OF assms(1,2)]
  have at: "row_of i (core_of db) = Some w" using assms(4) by (simp add: find_row)
  have i: "0 < i" using core_okD(2) [OF ok(3) at] .
  have "trim_space ?name \<noteq> []" using assms(7) by auto
  note trimmed = trim_copied_name [OF assms(6) this]
  have "rune_count (copiedCouponName ?name) = length (take 42 (runes (trim_space ?name))) + 3"
    using runes_copied [OF assms(6)] by (simp add: rune_count_def runes_copy_suffix)
  then have short: "rune_count (copiedCouponName ?name) \<le> 45" by simp
  let ?db = "reserved_db ?x db" let ?old = "(mapCoupon ?db w)\<lparr>co_history := False\<rparr>"
  have "cpn_Lock i ?db = (Inr ?old, ?db)"
    using assms(4,5) by (simp add: cpn_Lock_def cpn_Get_def find_coupon_def reserved_db_def image_iff mapCoupon_def targets_of_def)
  moreover have "normalize (copy_command ?old actor key) = Inl CpInvalidCoupon"
    using copied_name_long [OF assms(6,7)] trimmed
    by (simp add: normalize_def copy_command_def status_command_def Let_def rules_ok_def canonical_rules_def mapCoupon_def)
  ultimately have body: "copy_body V now i actor key ?db = (Inl CpInvalidCoupon, ?db)"
    by (simp add: copy_body_def and_then_def)
  have none: "receipt_at (reservation_id ?x) db = None"
    using assms(11) by (simp add: board_reservation_def flip: find_receipt_at)
  have cols: "receipt_columns_ok ?x" using receipt_columns(2) [OF assms(3,8,9)] by simp
  have "coupon_Copy E V now i actor key db = (Inl CpInvalidCoupon, db)"
    using body i assms(8,10)
    by (simp add: coupon_Copy_def boardMutation_def new_key_call [OF ok(1) none cols])
  then show ?thesis using short by blast
qed

theorem long_name_is_never_copied_witness:
  "coupon_Copy sample_coupons sample_products 5000 1 3 ''copy-of-the-coupon'' published_db = (Inl CpInvalidCoupon, published_db)"
proof -
  let ?w = "sample_coupon_row ''published'' None 2 3000"
  have "valid_utf8 (cu_name (cw_rules ?w))" "38 < length (trim_space (cu_name (cw_rules ?w)))" by code_simp+
  moreover have "validBoardKey ''copy-of-the-coupon''" by code_simp
  moreover have "find_coupon_receipt ''copy'' (admin_scope 3) (cn_sha256 sample_coupons ''copy-of-the-coupon'') published_db = None"
    "1 \<notin> xm_coupon ` set (cp_markers published_db)"
    by (simp_all add: find_coupon_receipt_def published_db_def sample_db_def created_receipt_def published_receipt_def sample_coupon_receipt_def)
  ultimately show ?thesis
    using long_name_is_never_copied [OF sample_log(1,2) sample_sha published_row, of 3 "''copy-of-the-coupon''"]
    by (simp add: max_int64_def)
qed

lemma long_name_not_valid: "45 < length (trim_space (cu_name (co_rules c))) \<Longrightarrow> \<not> validStored c"
  by (simp add: validStored_def normalize_def Let_def rules_ok_def canonical_rules_def)

lemma imported_row:
  assumes "ImportDefinition E V J source payload h db = (Inr r, db')" and "\<not> hv_replayed r" and ok: "core_ok (core_of db)"
  shows "\<exists>w. find_coupon (hv_target r) db' = Some w \<and> cu_name (cw_rules w) = cu_name (co_rules (hx_coupon h)) \<and>
    trim_space (cu_name (cw_rules w)) = cu_name (cw_rules w) \<and> 1 \<le> hv_target r"
proof -
  let ?h = "normalizeHistoricalDefinition h"
  have valid: "validHistoricalCoupon ?h"
    and run: "importHistory J ''definitions'' source payload (expected_digest E ?h) (definition_access E V ?h) db = (Inr r, db')"
    using assms(1) by (auto simp: ImportDefinition_def Let_def split: if_splits)
  have access: "definition_access E V ?h 0 db = (Inr (hv_target r, hv_digest r), db')" "1 \<le> hv_target r"
    using run assms(2) by (auto elim!: importHistoryD)
  then obtain a where "CreateHistoricalDefinition V ?h db = (Inr a, db')" "hv_target r = co_id (hx_coupon a)"
    by (auto simp: definition_access_def history_access_Inr and_then_Inr_iff)
  then obtain w where "find_coupon (hv_target r) db' = Some w" "cw_rules w = co_rules (hx_coupon ?h)"
    using CreateHistoricalDefinitionD(2) [OF _ ok] by metis
  moreover have "cu_name (co_rules (hx_coupon ?h)) = cu_name (co_rules (hx_coupon h))"
    by (simp add: normalizeHistoricalDefinition_def Let_def)
  moreover have "trim_space (cu_name (co_rules (hx_coupon ?h))) = cu_name (co_rules (hx_coupon ?h))"
    using valid by (simp add: validHistoricalCoupon_def Let_def)
  ultimately show ?thesis using access(2) by auto
qed

text \<open>
  C39. A coupon is imported when its name has at most 45 characters; one of them with more than 45
  bytes is no valid coupon for the service, which answers that the store is unavailable when it is
  asked for that coupon, and for every page of the list that holds it.
\<close>

theorem one_imported_name_breaks_the_list:
  assumes "event_db_ok l" and "(coupon_step E)\<^sup>*\<^sup>* (no_coupons l) db"
    and "ImportDefinition E V J source payload h db = (Inr r, db')" and "\<not> hv_replayed r"
    and "45 < length (cu_name (co_rules (hx_coupon h)))"
    and "1 \<le> limit" and "limit \<le> 200" and "0 \<le> offset" and "offset \<le> 1000000"
    and "hv_target r \<in> cw_id ` set (take (nat limit) (drop (nat offset) (sort_key cw_id (cp_coupons db'))))"
  shows "coupon_Get now (hv_target r) db' = (Inl CpUnavailable, db') \<and>
    coupon_List E now limit offset [] [] db' = (Inl CpUnavailable, db')"
proof -
  let ?page = "take (nat limit) (drop (nat offset) (sort_key cw_id (cp_coupons db')))"
  note ok = coupons_reached(3) [OF assms(1,2)]
  obtain w where w: "find_coupon (hv_target r) db' = Some w" "cu_name (cw_rules w) = cu_name (co_rules (hx_coupon h))"
    "trim_space (cu_name (cw_rules w)) = cu_name (cw_rules w)" "1 \<le> hv_target r"
    using imported_row [OF assms(3,4) ok] by blast
  have "core_ok (core_of db')"
    using ImportDefinition_follows [OF assms(3) ok] coupon_change_ok ok unfolding follows_quietly_def by blast
  then have ids: "distinct (map cw_id (cp_coupons db'))" using core_okD_ids by fastforce
  have bad: "\<not> validStored ((mapCoupon db' w)\<lparr>co_history := b\<rparr>)" "\<not> validStored (mapCoupon db' w)" for b
    using w assms(5) by (auto intro!: long_name_not_valid simp: mapCoupon_def)
  obtain v where v: "v \<in> set ?page" "cw_id v = hv_target r" using assms(10) by auto
  have "v \<in> set (cp_coupons db')" using v(1) by (auto dest!: in_set_takeD in_set_dropD)
  moreover have "w \<in> set (cp_coupons db')" "cw_id w = hv_target r" using w(1) by (auto simp: find_coupon_def find_Some_iff)
  ultimately have "v = w" using v(2) ids by (metis distinct_map inj_onD)
  then have "\<not> list_all validStored (map (mapCoupon db') ?page)" using v(1) bad(2) by (auto simp: list_all_iff)
  moreover have "filter (coupon_matches E [] []) (cp_coupons db') = cp_coupons db'" by (simp add: coupon_matches_def)
  ultimately have "coupon_List E now limit offset [] [] db' = (Inl CpUnavailable, db')"
    using assms(6-9) by (simp add: coupon_List_def Let_def and_then_def coupon_classified_def within_def cpn_List_def cpn_Count_def pg_text_def
      valid_utf8_def)
  moreover have "coupon_Get now (hv_target r) db' = (Inl CpUnavailable, db')"
    using w bad(1) by (simp add: coupon_Get_def and_then_def coupon_classified_def within_def cpn_Get_def)
  ultimately show ?thesis by blast
qed

definition sample_journal :: coupon_journal where
  "sample_journal = \<lparr>cj_load = (\<lambda>k s. Inr None), cj_record = (\<lambda>k r. Inr ())\<rparr>"

text \<open>A name of 45 characters and 47 bytes.\<close>

definition sample_definition :: CouponDefinition where
  "sample_definition = \<lparr>hx_coupon = (sample_coupon ''archived'' [] 1 2000)\<lparr>co_id := 0, co_history := True, co_updated_by := 3,
     co_rules := sample_rules\<lparr>cu_name := replicate 44 (CHR ''a'') @ [CHR 0xE5, CHR 0x88, CHR 0xB8]\<rparr>\<rparr>,
     hx_source = 9, hx_status = ''online'', hx_first_claim = None\<rparr>"

lemma import_run:
  "map_sum (\<lambda>e. e) (\<lambda>r. (hv_target r, hv_replayed r))
    (fst (ImportDefinition sample_coupons sample_products sample_journal ''coupon-9'' ''payload'' sample_definition coupon_start)) = Inr (1, False) \<and>
   map cw_id (cp_coupons (snd (ImportDefinition sample_coupons sample_products sample_journal ''coupon-9'' ''payload'' sample_definition coupon_start))) = [1]"
  by code_simp

theorem one_imported_name_breaks_the_list_witness:
  "coupon_List sample_coupons 5000 50 0 [] []
    (snd (ImportDefinition sample_coupons sample_products sample_journal ''coupon-9'' ''payload'' sample_definition coupon_start)) =
   (Inl CpUnavailable, snd (ImportDefinition sample_coupons sample_products sample_journal ''coupon-9'' ''payload'' sample_definition coupon_start))"
proof (cases "ImportDefinition sample_coupons sample_products sample_journal ''coupon-9'' ''payload'' sample_definition coupon_start")
  case (Pair x db')
  then obtain r where x: "x = Inr r" "hv_target r = 1" "\<not> hv_replayed r" and ids: "map cw_id (cp_coupons db') = [1]"
    using import_run by (cases x) auto
  then obtain v where "cp_coupons db' = [v]" "cw_id v = 1" by auto
  moreover have "45 < length (cu_name (co_rules (hx_coupon sample_definition)))" by (simp add: sample_definition_def)
  moreover have "(coupon_step sample_coupons)\<^sup>*\<^sup>* (no_coupons (empty_event_db ())) coupon_start" by (simp add: coupon_start_def)
  ultimately show ?thesis
    using one_imported_name_breaks_the_list [OF sample_log(1) _ Pair [unfolded x(1)] x(3), of 50 0 5000] Pair x(2) by simp
qed

section \<open>Imports\<close>

lemma import_steps:
  shows "ImportDefinition E V J source payload h db = (Inr r, db1) \<Longrightarrow> coupon_step E db db1"
    and "ImportClaim E W J source payload c db = (Inr r, db1) \<Longrightarrow> coupon_step E db db1"
  using coupon_step.imports_definition [of E db V J source payload h] coupon_step.imports_claim [of E db W J source payload c]
  by simp_all

lemma definition_stays:
  assumes ok: "history_ok db" and run: "ImportDefinition E V J source payload h db = (Inr r, db1)"
    and steps: "(coupon_step E)\<^sup>*\<^sup>* db1 db2" and load: "cj_load J' ''definitions'' source = Inr (Some r)"
  shows "ImportDefinition E V' J' source payload h db2 = (Inr (r\<lparr>hv_replayed := True\<rparr>), db2)"
proof -
  let ?h = "normalizeHistoricalDefinition h"
  have ok1: "history_ok db1" using coupons.step_good ok import_steps(1) [OF run] by blast
  note lasts = coupons.history_lasts [OF steps ok1]
  have valid: "validHistoricalCoupon ?h"
    and call: "importHistory J ''definitions'' source payload (expected_digest E ?h) (definition_access E V ?h) db = (Inr r, db1)"
    using run by (auto simp: ImportDefinition_def Let_def split: if_splits)
  have "importHistory J' ''definitions'' source payload (expected_digest E ?h) (definition_access E V' ?h) db2 = (Inr (r\<lparr>hv_replayed := True\<rparr>), db2)"
    by (rule importHistory_again [OF call load]) (rule definition_access_stays [OF _ _ ok1 _ lasts], auto)
  then show ?thesis using valid by (simp add: ImportDefinition_def Let_def)
qed

lemma claim_stays:
  assumes ok: "history_ok db" and run: "ImportClaim E W J source payload c db = (Inr r, db1)"
    and steps: "(coupon_step E)\<^sup>*\<^sup>* db1 db2" and load: "cj_load J' ''claims'' source = Inr (Some r)"
  shows "ImportClaim E W' J' source payload c db2 = (Inr (r\<lparr>hv_replayed := True\<rparr>), db2)"
proof -
  let ?c = "normalizeHistoricalClaim c"
  have ok1: "history_ok db1" using coupons.step_good ok import_steps(2) [OF run] by blast
  note lasts = coupons.history_lasts [OF steps ok1]
  have old: "records_ok db" using ok by (simp add: history_ok_def)
  have valid: "validHistoricalClaim ?c"
    and call: "importHistory J ''claims'' source payload (\<lambda>i. HistoricalClaimTargetDigest E (?c\<lparr>hk_id := i\<rparr>)) (claim_access E W ?c) db = (Inr r, db1)"
    using run by (auto simp: ImportClaim_def Let_def split: if_splits)
  have "importHistory J' ''claims'' source payload (\<lambda>i. HistoricalClaimTargetDigest E (?c\<lparr>hk_id := i\<rparr>)) (claim_access E W' ?c) db2 =
      (Inr (r\<lparr>hv_replayed := True\<rparr>), db2)"
    by (rule importHistory_again [OF call load]) (rule claim_access_stays [OF _ old ok1 _ lasts], auto)
  then show ?thesis using valid by (simp add: ImportClaim_def Let_def)
qed

text \<open>
  C31. What was imported is final: after any further calls, imports and changes, a repeated import of
  the same definition, or of the same former claim, with the receipt that the journal has of it, finds
  what the first one stored, unchanged, answers that receipt as a replay, and writes nothing.
\<close>

theorem imported_history_is_final:
  assumes "event_db_ok l" and "(coupon_step E)\<^sup>*\<^sup>* (no_coupons l) db" and "(coupon_step E)\<^sup>*\<^sup>* db1 db2"
  shows "(ImportDefinition E V J source payload h db = (Inr r, db1) \<and> cj_load J' ''definitions'' source = Inr (Some r) \<longrightarrow>
      ImportDefinition E V' J' source payload h db2 = (Inr (r\<lparr>hv_replayed := True\<rparr>), db2)) \<and>
    (ImportClaim E W J source payload c db = (Inr r, db1) \<and> cj_load J' ''claims'' source = Inr (Some r) \<longrightarrow>
      ImportClaim E W' J' source payload c db2 = (Inr (r\<lparr>hv_replayed := True\<rparr>), db2))"
proof (intro conjI impI; elim conjE)
  show "ImportDefinition E V' J' source payload h db2 = (Inr (r\<lparr>hv_replayed := True\<rparr>), db2)"
    if "ImportDefinition E V J source payload h db = (Inr r, db1)" "cj_load J' ''definitions'' source = Inr (Some r)"
    by (rule definition_stays [OF coupons_reached(1) [OF assms(1,2)] that(1) assms(3) that(2)])
  show "ImportClaim E W' J' source payload c db2 = (Inr (r\<lparr>hv_replayed := True\<rparr>), db2)"
    if "ImportClaim E W J source payload c db = (Inr r, db1)" "cj_load J' ''claims'' source = Inr (Some r)"
    by (rule claim_stays [OF coupons_reached(1) [OF assms(1,2)] that(1) assms(3) that(2)])
qed

theorem imported_history_is_final_witness:
  "\<exists>r db1. ImportDefinition sample_coupons sample_products sample_journal ''coupon-9'' ''payload'' sample_definition coupon_start = (Inr r, db1) \<and>
    ImportDefinition sample_coupons sample_products (sample_journal\<lparr>cj_load := (\<lambda>k s. Inr (Some r))\<rparr>) ''coupon-9'' ''payload'' sample_definition db1 =
      (Inr (r\<lparr>hv_replayed := True\<rparr>), db1)"
proof (cases "ImportDefinition sample_coupons sample_products sample_journal ''coupon-9'' ''payload'' sample_definition coupon_start")
  case (Pair x db1)
  then obtain r where x: "x = Inr r" using import_run by (cases x) auto
  have "(coupon_step sample_coupons)\<^sup>*\<^sup>* (no_coupons (empty_event_db ())) coupon_start" by (simp add: coupon_start_def)
  from imported_history_is_final [OF sample_log(1) this rtranclp.rtrancl_refl] show ?thesis using Pair x by fastforce
qed

end
