(* ===== verification/Spec2Isabelle.thy ===== *)
theory Spec2Isabelle
  imports EffectProperties SegmentProperties CampaignProperties EventProperties MigrationProperties
    CouponProperties
begin

text \<open>
  \<^bold>\<open>Verification of AI-CRM-v2\<close>

  The program is a CRM server in Go: domains under \<^verbatim>\<open>internal/\<close>, each with a service that
  depends on small interfaces, a PostgreSQL store that implements them, and HTTP handlers. This
  development models the domains with most logic of their own, from the source, and proves what
  makes them correct. Line references are in the manifest.

  \<^bold>\<open>Conventions (\<open>Prelude\<close>, \<open>GoText\<close>).\<close> A Go function that returns a value and an error is a
  value of a sum type. A function that reads and writes a store is a \<open>tx\<close>: store to result and
  store. \<open>within\<close> is the unit of work of \<^verbatim>\<open>internal/platform\<close>: it restores the store when its
  body fails. Instants are nanoseconds since Go's zero time. \<open>GoText\<close> has the string functions
  that the code uses (UTF-8 runes, \<^verbatim>\<open>strings.TrimSpace\<close>, decimal and hexadecimal). Strings are
  byte strings. Tables are lists of rows, with the constraints of the schema as guards of the
  statements. SHA-256, JSON quoting, RFC 3339 and the tokeniser of \<^verbatim>\<open>encoding/json\<close> are arguments.

  \<^bold>\<open>External effects\<close> (\<^verbatim>\<open>internal/externaleffects\<close>, and the contact profile adapter of
  \<^verbatim>\<open>internal/outbound\<close>). An effect is accepted once, queued, claimed by a worker under a fenced
  lease, attempted at most once per generation, and completed, retried, reconciled or cancelled.
  \<^item> \<open>EffectTypes\<close>: envelopes, digests, commands and results (\<^verbatim>\<open>runtime.go\<close>).
  \<^item> \<open>EffectStore\<close>: the PostgreSQL repository (\<^verbatim>\<open>store/repository.go\<close>), one operation per method.
  \<^item> \<open>EffectService\<close>: the runtime (\<^verbatim>\<open>runtime.go\<close>) over that interface, and the operator boundary
    (\<^verbatim>\<open>app/service.go\<close>). \<open>ContactProfile\<close>: the write of a WeCom contact profile
    (\<^verbatim>\<open>provider/wecom_contact_profile.go\<close>), with the HTTP client as an argument.
  \<^item> \<open>EffectSpec\<close>: the abstract state machine of an effect, and the interface of the store as a
    locale. \<open>EffectRefine\<close>: the repository implements it. \<open>EffectFacts\<close>, \<open>EffectSample\<close>: what
    follows for runs of the service, and concrete runs. \<open>EffectProperties\<close>: the properties.

  \<^bold>\<open>Segments\<close> (\<^verbatim>\<open>internal/segment\<close>). A definition of an audience is parsed, compiled to a program
  of closed opcodes, and executed over the queries of the store.
  \<^item> \<open>SegmentTypes\<close>, \<open>SegmentParser\<close>: the language and its parser (\<^verbatim>\<open>dsl/ast.go\<close>, \<^verbatim>\<open>dsl/parser.go\<close>).
    \<open>decode_raw\<close> takes the fuel \<open>2 n + 1\<close> for \<open>n\<close> tokens: every two calls consume a token, and
    one more call is left; \<open>decoding_never_runs_out_of_fuel\<close> proves that it is enough.
  \<^item> \<open>SegmentCompiler\<close>, \<open>SegmentExecutor\<close>: \<^verbatim>\<open>compiler/compiler.go\<close>, \<^verbatim>\<open>compiler/executor.go\<close>.
  \<^item> \<open>SegmentStore\<close>: the queries of \<^verbatim>\<open>store/query_set.go\<close>, and the meaning \<open>satisfies\<close> of a
    definition on a customer. \<open>SegmentFacts\<close>, \<open>SegmentCanonical\<close>: what the parser accepts, and
    canonical JSON. \<open>SegmentCron\<close>: refresh schedules (\<^verbatim>\<open>app/cron.go\<close>).
    \<open>SegmentProperties\<close>: the properties.

  \<^bold>\<open>Campaigns\<close> (\<^verbatim>\<open>internal/campaign\<close>). Campaigns with steps are edited as drafts, approved or
  rejected, planned locally and paused, by calls with an expected version and an idempotency key.
  \<^item> \<open>CampaignTypes\<close>: \<^verbatim>\<open>types.go\<close>, \<^verbatim>\<open>errors.go\<close> and the validity tests of \<^verbatim>\<open>service.go\<close>. Versions
    are 64-bit, with their wrap-around in \<open>inc64\<close>.
  \<^item> \<open>CampaignStore\<close>: \<^verbatim>\<open>store/postgres.go\<close>, the audit adapter, and the append of
    \<^verbatim>\<open>internal/events\<close>. \<open>CampaignService\<close>: every operation of \<^verbatim>\<open>service.go\<close>.
    \<open>CampaignImport\<close>: the import of historical definitions.
  \<^item> \<open>CampaignContract\<close>: the laws of the repository and audit interfaces as the locale
    \<open>campaign_contract\<close>, interpreted on the PostgreSQL store. \<open>CampaignSpec\<close>: the nine mutating
    calls have one shape. \<open>CampaignLife\<close>: the decision of a call, the step relation \<open>touch\<close> on
    the facts of a store, its invariant, and what can become of a campaign.
  \<^item> \<open>CampaignCalls\<close>, \<open>CampaignRuns\<close>: inside the contract, calls carry out their decisions, and
    batches and idempotency keys behave. \<open>CampaignHistory\<close>: histories of calls, imports,
    references and foreign events. \<open>CampaignProgress\<close>: when calls commit.
    \<open>CampaignProperties\<close>: the properties.
  \<^item> Bounds: a call needs \<open>pg_micros now \<noteq> 0\<close>, an instant that the store does not round to zero,
    which holds of every clock after the first microsecond of the year 1.

  \<^bold>\<open>Events\<close> (\<^verbatim>\<open>internal/events\<close>). Producers append events to one log in their own
  transactions. A dispatcher turns events into deliveries with River jobs, one per bound
  consumer, and workers claim, consume and complete or give back the deliveries.
  \<^item> \<open>EventLog\<close>: events, deliveries and errors (\<^verbatim>\<open>port/port.go\<close>). \<open>EventStore\<close>: the appender and the
    delivery repository (\<^verbatim>\<open>store/appender.go\<close>), one operation per method, over the log, the
    deliveries and a queue, which is an argument. \<open>EventWorker\<close>: the router and the worker
    (\<^verbatim>\<open>dispatcher/jobs.go\<close>), and the consumer of campaign facts (\<^verbatim>\<open>campaign/event_delivery.go\<close>).
  \<^item> \<open>EventFacts\<close>: the constraints of the tables and what can become of a delivery.
    \<open>EventHistory\<close>: histories of operations, leases, and what dispatching leaves alone.
    \<open>EventDispatch\<close>: the backlog of a dispatcher and how its runs work it off, over a queue that
    answers every insertion (\<open>river_ok\<close>). \<open>EventDelivery\<close>: the runtime of the worker as the locale
    \<open>delivery_contract\<close>, interpreted on the repository. \<open>EventProperties\<close>: the properties.

  \<^bold>\<open>Migrations\<close> (\<^verbatim>\<open>internal/migration\<close>). A run imports the rows of a legacy source, table by
  table and page by page, under a fenced lease, with a receipt for each row and a checkpoint for
  each table; a reconciliation compares a completed run with its source.
  \<^item> \<open>MigrationTypes\<close>: \<^verbatim>\<open>model.go\<close>, \<^verbatim>\<open>ports.go\<close>, \<^verbatim>\<open>registry.go\<close>. The adapters are arguments: a source is
    a function of the request, so it answers the same request in the same way.
  \<^item> \<open>MigrationStore\<close>: \<^verbatim>\<open>store/repository.go\<close> with \<^verbatim>\<open>store/queries/runtime.sql\<close>, the tables, checks and
    triggers of \<^verbatim>\<open>migrations/00076_data_migration_harness.sql\<close>, and the registry of target operations
    (\<^verbatim>\<open>store/target.go\<close>). The target operations and their tables belong to the domains and are
    arguments. The columns that name the lease of a fact are not kept, and the results of a run
    are listed in the order of their insertion.
  \<^item> \<open>MigrationService\<close>, \<open>MigrationReconcile\<close>: \<^verbatim>\<open>service.go\<close> over the ports. A unit of work meets one
    instant of the database. Between two units others change the database (\<open>os_between\<close>), and a
    commit may fail or lose its answer. The loops over pages are partial functions without fuel;
    \<open>MigrationReturns\<close> proves that they end on finite sources.
  \<^item> \<open>MigrationFacts\<close>, \<open>MigrationUnits\<close>: what the operations and units of work keep.
    \<open>MigrationHistory\<close>: the units of all processes as one step relation, and its invariants.
    \<open>MigrationContract\<close>: leases and lasting facts as the locale \<open>fenced_history\<close>, interpreted on
    the histories, and the target as the log of the importing receipts.
  \<^item> \<open>MigrationTracking\<close>, \<open>MigrationRuns\<close>, \<open>MigrationOutcome\<close>: the receipts of a table follow its
    source up to the checkpoint, through pages, tables and runs. \<open>MigrationVerified\<close>: what a
    reconciliation has found. \<open>MigrationSample\<close>, \<open>MigrationProperties\<close>: concrete runs, and the
    properties.

  \<^bold>\<open>Coupons\<close> (\<^verbatim>\<open>internal/coupon\<close>). An operator writes, publishes, stops, copies and archives
  coupons; customers claim them; every call has an idempotency key, whose receipt answers it
  again. The definitions, claims and redemptions of the former system are imported.
  \<^item> \<open>CouponTypes\<close>: \<^verbatim>\<open>port/port.go\<close>, \<^verbatim>\<open>port/history.go\<close>, and the validity tests of \<^verbatim>\<open>app/service.go\<close>.
    \<open>CouponStore\<close>: \<^verbatim>\<open>store/repository.go\<close> with its queries, and the tables, checks and triggers of
    its migrations; an identifier is the next number, and a receipt keeps its result as a
    value. \<open>CouponService\<close>: every method of \<^verbatim>\<open>app/service.go\<close>. \<open>CouponImport\<close>, \<open>CouponRecords\<close>:
    \<^verbatim>\<open>app/history.go\<close> and \<^verbatim>\<open>store/history.go\<close>. Products, customers, orders, the journal of the
    importer and the pattern match of PostgreSQL are arguments; events go to the log of
    \<open>EventStore\<close>.
  \<^item> \<open>CouponMachine\<close>: the coupons as an abstract machine, with its invariant and what lasts over its
    steps. \<open>CouponFacts\<close>, \<open>CouponRefine\<close>: each operation and call is one step of it.
    \<open>CouponHistory\<close>: histories of calls, imports, events and tokens; what lasts over a step lasts
    over a history (the locale \<open>lasting_history\<close>). \<open>CouponCalls\<close>: the answers of single calls.
    \<open>CouponSample\<close>, \<open>CouponProperties\<close>: a concrete history, and the properties.

  \<^bold>\<open>How the parts meet.\<close> The domains share the conventions above and the event log: a
  committed campaign call appends an audit event, which the dispatcher and the worker bring to
  the consumer of campaign facts (\<open>EventProperties\<close>). A coupon call appends to the same log, among
  the other producers and the workers: each claim is announced by one event
  (\<open>CouponProperties\<close>). Effects are requested by the providers of
  \<^verbatim>\<open>internal/outbound\<close>; the calls of campaigns are local, and their plans and commands never ask
  for an effect, which is part of the properties. Migrations write to the other domains only
  through the registry of target operations.

  \<^bold>\<open>Not modelled.\<close> Concurrency below the level of transactions: row locks and isolation make
  each unit of work one step. Errors of the database driver other than constraint violations end
  a unit of work like any other error and are not enumerated. HTTP handlers, authentication,
  configuration, generated code, clients of external services, migrations, the web front end.
  Of the modelled domains: touch plans, their reviews and handoffs (campaigns), stored
  definitions and refresh runs (segments), job queues and the other providers (outbound),
  the other consumers, administration and exports (events), the adapter of the v1 archive and
  the command that runs it (migrations). The other domains (identity, release, orders,
  automation, customers, products, media and the clients of WeCom and HXC among them) are listed
  in the manifest; most of their code is SQL, decoding and calls of external services.
\<close>

end
